(* ===== verification/Py_Prelude.thy ===== *)
theory Py_Prelude
  imports Main "HOL-Library.AList" "HOL-Library.Char_ord" "HOL-Library.List_Lexorder"
begin

text \<open>
  The Python vocabulary the components share: strings as lists of characters (the UTF-8 bytes
  of the source's str values), the str methods the program calls, decimal integers and their
  text, exceptions as the left part of a sum, dictionaries as association lists in insertion
  order.  Case folding, white space and digits are those of ASCII.
\<close>

named_theorems str_simps \<open>evaluation and shape of the string operations\<close>
named_theorems res_simps \<open>the exception monad\<close>
named_theorems pres_intros \<open>preservation of the invariants by the operations\<close>

section \<open>Exceptions\<close>

datatype exn =
    ValueError | TypeError | KeyError | AttributeError | OverflowError | FileError
  | UpstreamError | RateLimited | IndexError | RuntimeError | IntegrityError

type_synonym 'a res = "exn + 'a"

definition bind_res :: "'a res \<Rightarrow> ('a \<Rightarrow> 'b res) \<Rightarrow> 'b res" where
  "bind_res r k = (case r of Inl e \<Rightarrow> Inl e | Inr x \<Rightarrow> k x)"

lemma bind_res_simps [simp, res_simps]:
  "bind_res (Inl e) k = Inl e"
  "bind_res (Inr x) k = k x"
  by (simp_all add: bind_res_def)

lemma bind_res_Inr_iff [res_simps]:
  "bind_res r k = Inr y \<longleftrightarrow> (\<exists>x. r = Inr x \<and> k x = Inr y)"
  by (cases r) simp_all

definition of_option :: "exn \<Rightarrow> 'a option \<Rightarrow> 'a res" where
  "of_option e x = (case x of None \<Rightarrow> Inl e | Some y \<Rightarrow> Inr y)"

lemma of_option_simps [simp, res_simps]:
  "of_option e None = Inl e"
  "of_option e (Some x) = Inr x"
  by (simp_all add: of_option_def)

text \<open>A try block whose handler returns a constant.\<close>

definition catch :: "'a res \<Rightarrow> 'a \<Rightarrow> 'a" where
  "catch r d = (case r of Inl _ \<Rightarrow> d | Inr x \<Rightarrow> x)"

lemma catch_simps [simp, res_simps]:
  "catch (Inl e) d = d"
  "catch (Inr x) d = x"
  by (simp_all add: catch_def)

fun map_res :: "('a \<Rightarrow> 'b res) \<Rightarrow> 'a list \<Rightarrow> 'b list res" where
  "map_res f [] = Inr []"
| "map_res f (x # xs) = bind_res (f x) (\<lambda>y. bind_res (map_res f xs) (\<lambda>ys. Inr (y # ys)))"

lemma map_res_all: "(\<And>x. x \<in> set xs \<Longrightarrow> f x = Inr (g x)) \<Longrightarrow> map_res f xs = Inr (map g xs)"
  by (induction xs) auto

lemma map_res_set: "map_res f xs = Inr ys \<Longrightarrow> y \<in> set ys \<Longrightarrow> \<exists>x \<in> set xs. f x = Inr y"
  by (induction xs arbitrary: ys) (auto simp: bind_res_Inr_iff)

lemma map_res_elem: "map_res f xs = Inr ys \<Longrightarrow> x \<in> set xs \<Longrightarrow> f x = Inr y \<Longrightarrow> y \<in> set ys"
  by (induction xs arbitrary: ys) (auto simp: bind_res_Inr_iff)

section \<open>Characters\<close>

abbreviation code :: "char \<Rightarrow> nat" where
  "code c \<equiv> of_char c"

abbreviation dquote :: char where "dquote \<equiv> CHR 0x22"
abbreviation backslash :: char where "backslash \<equiv> CHR 0x5C"
abbreviation newline :: char where "newline \<equiv> CHR 0x0A"

definition is_space :: "char \<Rightarrow> bool" where
  "is_space c = (code c \<in> {9, 10, 11, 12, 13, 28, 29, 30, 31, 32})"

definition is_digit :: "char \<Rightarrow> bool" where
  "is_digit c = (48 \<le> code c \<and> code c \<le> 57)"

definition is_upper :: "char \<Rightarrow> bool" where
  "is_upper c = (65 \<le> code c \<and> code c \<le> 90)"

definition is_lower :: "char \<Rightarrow> bool" where
  "is_lower c = (97 \<le> code c \<and> code c \<le> 122)"

definition is_alnum :: "char \<Rightarrow> bool" where
  "is_alnum c = (is_digit c \<or> is_upper c \<or> is_lower c)"

definition is_ascii :: "char \<Rightarrow> bool" where
  "is_ascii c = (code c < 128)"

definition lower_char :: "char \<Rightarrow> char" where
  "lower_char c = (if is_upper c then char_of (code c + 32) else c)"

definition digit_char :: "nat \<Rightarrow> char" where
  "digit_char d = char_of (48 + d)"

definition digit_val :: "char \<Rightarrow> nat" where
  "digit_val c = code c - 48"

lemma code_less_256 [simp]: "code c < 256"
  using of_char_mod_256 [of c, where 'a = nat] by (metis mod_less_divisor zero_less_numeral)

lemma code_char_of [simp]: "n < 256 \<Longrightarrow> code (char_of n) = n"
  by simp

lemma code_inject: "code c = code d \<longleftrightarrow> c = d"
  by simp

lemma code_lower_char: "code (lower_char c) = (if is_upper c then code c + 32 else code c)"
  by (auto simp: lower_char_def is_upper_def)

lemma is_upper_lower_char [simp]: "\<not> is_upper (lower_char c)"
  using code_lower_char [of c] by (auto simp: is_upper_def split: if_splits)

lemma lower_char_idem [simp]: "lower_char (lower_char c) = lower_char c"
  by (simp add: lower_char_def [of "lower_char c"])

lemma is_space_lower_char [simp]: "is_space (lower_char c) = is_space c"
  using code_lower_char [of c] by (auto simp: is_space_def is_upper_def split: if_splits)

lemma is_digit_lower_char [simp]: "is_digit (lower_char c) = is_digit c"
  using code_lower_char [of c] by (auto simp: is_digit_def is_upper_def split: if_splits)

lemma lower_char_digit [simp]: "is_digit c \<Longrightarrow> lower_char c = c"
  by (auto simp: lower_char_def is_upper_def is_digit_def)

lemma lower_char_eq_colon [simp]: "lower_char c = CHR '':'' \<longleftrightarrow> c = CHR '':''"
  using code_lower_char [of c] code_inject [of "lower_char c" "CHR '':''"] code_inject [of c "CHR '':''"]
  by (auto simp: is_upper_def split: if_splits)

lemma digit_not_space: "is_digit c \<Longrightarrow> \<not> is_space c"
  by (auto simp: is_digit_def is_space_def)

lemma code_digit_char [simp]: "d < 10 \<Longrightarrow> code (digit_char d) = 48 + d"
  by (simp add: digit_char_def)

lemma is_digit_digit_char [simp]: "d < 10 \<Longrightarrow> is_digit (digit_char d)"
  by (simp add: is_digit_def)

lemma digit_val_digit_char [simp]: "d < 10 \<Longrightarrow> digit_val (digit_char d) = d"
  by (simp add: digit_val_def)

section \<open>Strings\<close>

fun starts_with :: "string \<Rightarrow> string \<Rightarrow> bool" where
  "starts_with [] s = True"
| "starts_with (p # ps) [] = False"
| "starts_with (p # ps) (c # cs) = (p = c \<and> starts_with ps cs)"

definition ends_with :: "string \<Rightarrow> string \<Rightarrow> bool" where
  "ends_with p s = starts_with (rev p) (rev s)"

definition removeprefix :: "string \<Rightarrow> string \<Rightarrow> string" where
  "removeprefix p s = (if starts_with p s then drop (length p) s else s)"

fun contains :: "string \<Rightarrow> string \<Rightarrow> bool" where
  "contains p [] = (p = [])"
| "contains p (c # cs) = (starts_with p (c # cs) \<or> contains p cs)"

text \<open>The text after the first occurrence of p.\<close>

fun after_text :: "string \<Rightarrow> string \<Rightarrow> string" where
  "after_text p [] = []"
| "after_text p (c # cs) = (if starts_with p (c # cs) then drop (length p) (c # cs) else after_text p cs)"

fun split_on :: "char \<Rightarrow> string \<Rightarrow> string list" where
  "split_on c [] = [[]]"
| "split_on c (x # xs) =
     (if x = c then [] # split_on c xs
      else (case split_on c xs of [] \<Rightarrow> [[x]] | w # ws \<Rightarrow> (x # w) # ws))"

fun join :: "string \<Rightarrow> string list \<Rightarrow> string" where
  "join sep [] = []"
| "join sep [x] = x"
| "join sep (x # y # ys) = x @ sep @ join sep (y # ys)"

definition before :: "char \<Rightarrow> string \<Rightarrow> string" where
  "before c s = takeWhile (\<lambda>x. x \<noteq> c) s"

definition after :: "char \<Rightarrow> string \<Rightarrow> string" where
  "after c s = drop 1 (dropWhile (\<lambda>x. x \<noteq> c) s)"

definition lstrip :: "string \<Rightarrow> string" where
  "lstrip s = dropWhile is_space s"

definition rstrip :: "string \<Rightarrow> string" where
  "rstrip s = rev (dropWhile is_space (rev s))"

definition strip :: "string \<Rightarrow> string" where
  "strip s = rstrip (lstrip s)"

definition lower :: "string \<Rightarrow> string" where
  "lower s = map lower_char s"

definition isdigit :: "string \<Rightarrow> bool" where
  "isdigit s = (s \<noteq> [] \<and> list_all is_digit s)"

lemma starts_with_iff: "starts_with p s \<longleftrightarrow> (\<exists>t. s = p @ t)"
proof (induction p s rule: starts_with.induct)
  case (3 p ps c cs) then show ?case by auto
qed simp_all

lemma starts_with_append [simp, str_simps]: "starts_with p (p @ s)"
  by (auto simp: starts_with_iff)

lemma removeprefix_append [simp, str_simps]: "removeprefix p (p @ s) = s"
  by (simp add: removeprefix_def)

lemma ends_with_append [simp, str_simps]: "ends_with p (s @ p)"
  by (simp add: ends_with_def)

lemma ends_with_iff: "ends_with p s \<longleftrightarrow> (\<exists>t. s = t @ p)"
  unfolding ends_with_def starts_with_iff by (metis rev_append rev_rev_ident)

lemma contains_iff: "contains p s \<longleftrightarrow> (\<exists>u v. s = u @ p @ v)"
proof (induction p s rule: contains.induct)
  case (1 p) show ?case by auto
next
  case (2 p c cs)
  have "(\<exists>u v. c # cs = u @ p @ v) \<longleftrightarrow> (\<exists>v. c # cs = p @ v) \<or> (\<exists>u v. cs = u @ p @ v)"
    by (metis append_Cons append_Nil list.inject neq_Nil_conv)
  then show ?case using 2 by (simp add: starts_with_iff)
qed

lemma split_on_not_Nil [simp]: "split_on c s \<noteq> []"
  by (induction s) (auto split: list.splits)

lemma split_on_none: "c \<notin> set s \<Longrightarrow> split_on c s = [s]"
  by (induction s) auto

lemma split_on_append [str_simps]:
  "c \<notin> set s \<Longrightarrow> split_on c (s @ c # t) = s # split_on c t"
  by (induction s) auto

lemma split_on_join:
  assumes "xs \<noteq> []" "\<And>x. x \<in> set xs \<Longrightarrow> c \<notin> set x"
  shows "split_on c (join [c] xs) = xs"
  using assms
proof (induction "[c]" xs rule: join.induct)
  case (3 x y ys)
  then show ?case using split_on_append [of c x "join [c] (y # ys)"] by simp
qed (auto simp: split_on_none)

lemma join_split_on: "join [c] (split_on c s) = s"
proof (induction s)
  case (Cons x xs)
  then show ?case
    by (cases "split_on c xs"; cases "tl (split_on c xs)") (auto split: list.splits)
qed simp

lemma before_append [simp, str_simps]: "c \<notin> set s \<Longrightarrow> before c (s @ c # t) = s"
  unfolding before_def by (induction s) auto

lemma after_append [simp, str_simps]: "c \<notin> set s \<Longrightarrow> after c (s @ c # t) = t"
  unfolding after_def by (induction s) auto

lemma split_on_hd: "hd (split_on c s) = before c s"
  unfolding before_def by (induction s) (auto split: list.splits)

lemma lower_append [simp]: "lower (s @ t) = lower s @ lower t"
  by (simp add: lower_def)

lemma lower_idem [simp]: "lower (lower s) = lower s"
  by (simp add: lower_def)

lemma lower_Nil_iff [simp]: "lower s = [] \<longleftrightarrow> s = []"
  by (simp add: lower_def)

lemma lower_strip: "lower (strip s) = strip (lower s)"
  by (simp add: strip_def lstrip_def rstrip_def lower_def dropWhile_map rev_map comp_def)

lemma dropWhile_idem: "dropWhile P (dropWhile P s) = dropWhile P s"
  by (simp add: dropWhile_idem)

lemma hd_rstrip: "rstrip s \<noteq> [] \<Longrightarrow> hd (rstrip s) = hd s"
proof -
  assume ne: "rstrip s \<noteq> []"
  have "rev s = takeWhile is_space (rev s) @ dropWhile is_space (rev s)"
    by simp
  then have "s = rstrip s @ rev (takeWhile is_space (rev s))"
    unfolding rstrip_def by (metis rev_append rev_rev_ident)
  then show ?thesis using ne by (metis hd_append2)
qed

lemma lstrip_fix_iff: "lstrip s = s \<longleftrightarrow> s = [] \<or> \<not> is_space (hd s)"
  by (simp add: lstrip_def dropWhile_eq_self_iff)

lemma lstrip_hd: "lstrip s \<noteq> [] \<Longrightarrow> \<not> is_space (hd (lstrip s))"
  unfolding lstrip_def by (metis hd_dropWhile)

lemma strip_idem [simp]: "strip (strip s) = strip s"
proof -
  have "lstrip (strip s) = strip s"
  proof (cases "strip s = []")
    case False
    then have "hd (strip s) = hd (lstrip s)" by (simp add: strip_def hd_rstrip)
    moreover have "lstrip s \<noteq> []" using False by (auto simp: strip_def rstrip_def)
    ultimately show ?thesis using lstrip_hd [of s] by (simp add: lstrip_fix_iff)
  qed (simp add: lstrip_def)
  moreover have "rstrip (strip s) = strip s"
    by (simp add: strip_def rstrip_def)
  ultimately show ?thesis by (simp add: strip_def [of "strip s"])
qed

lemma strip_no_space: "list_all (\<lambda>c. \<not> is_space c) s \<Longrightarrow> strip s = s"
proof -
  assume n: "list_all (\<lambda>c. \<not> is_space c) s"
  then have "dropWhile is_space s = s"
    by (cases s) simp_all
  moreover have "list_all (\<lambda>c. \<not> is_space c) (rev s)" using n by (simp add: list_all_iff)
  then have "dropWhile is_space (rev s) = rev s" by (cases "rev s") simp_all
  ultimately show ?thesis by (simp add: strip_def lstrip_def rstrip_def)
qed

section \<open>Decimal integers\<close>

fun str_of_nat :: "nat \<Rightarrow> string" where
  "str_of_nat n = (if n < 10 then [digit_char n] else str_of_nat (n div 10) @ [digit_char (n mod 10)])"

declare str_of_nat.simps [simp del]

definition str_of_int :: "int \<Rightarrow> string" where
  "str_of_int i = (if i < 0 then CHR ''-'' # str_of_nat (nat (- i)) else str_of_nat (nat i))"

definition nat_of_digits :: "string \<Rightarrow> nat" where
  "nat_of_digits s = foldl (\<lambda>a c. 10 * a + digit_val c) 0 s"

text \<open>The int constructor on a str: surrounding white space, one sign and single underscores
  between digits are accepted.\<close>

definition py_int_unsigned :: "string \<Rightarrow> nat option" where
  "py_int_unsigned s =
     (if list_all isdigit (split_on CHR ''_'' s) then Some (nat_of_digits (concat (split_on CHR ''_'' s)))
      else None)"

definition py_int :: "string \<Rightarrow> int option" where
  "py_int s = (case strip s of
       [] \<Rightarrow> None
     | c # cs \<Rightarrow>
        (if c = CHR ''-'' then map_option (\<lambda>n. - int n) (py_int_unsigned cs)
         else if c = CHR ''+'' then map_option int (py_int_unsigned cs)
         else map_option int (py_int_unsigned (c # cs))))"

lemma str_of_nat_digits: "isdigit (str_of_nat n)"
proof (induction n rule: str_of_nat.induct)
  case (1 n)
  then show ?case by (subst str_of_nat.simps) (auto simp: isdigit_def)
qed

lemma str_of_nat_not_Nil [simp]: "str_of_nat n \<noteq> []"
  using str_of_nat_digits [of n] by (simp add: isdigit_def)

lemma nat_of_digits_str_of_nat [simp, str_simps]: "nat_of_digits (str_of_nat n) = n"
proof (induction n rule: str_of_nat.induct)
  case (1 n)
  then show ?case by (subst str_of_nat.simps) (auto simp: nat_of_digits_def)
qed

lemma str_of_nat_set: "c \<in> set (str_of_nat n) \<Longrightarrow> is_digit c"
  using str_of_nat_digits [of n] by (auto simp: isdigit_def list_all_iff)

lemma colon_notin_str_of_nat [simp]: "CHR '':'' \<notin> set (str_of_nat n)"
  using str_of_nat_set [of "CHR '':''" n] by (auto simp: is_digit_def)

lemma isdigit_no_space: "isdigit s \<Longrightarrow> strip s = s"
  by (rule strip_no_space) (auto simp: isdigit_def list_all_iff digit_not_space)

lemma py_int_unsigned_digits: "isdigit s \<Longrightarrow> py_int_unsigned s = Some (nat_of_digits s)"
proof -
  assume d: "isdigit s"
  then have "CHR ''_'' \<notin> set s" by (auto simp: isdigit_def list_all_iff is_digit_def)
  then show ?thesis using d by (simp add: py_int_unsigned_def split_on_none)
qed

lemma py_int_digits: "isdigit s \<Longrightarrow> py_int s = Some (int (nat_of_digits s))"
proof -
  assume d: "isdigit s"
  then obtain c cs where s: "s = c # cs" by (cases s) (auto simp: isdigit_def)
  with d have "c \<noteq> CHR ''-''" "c \<noteq> CHR ''+''" by (auto simp: isdigit_def is_digit_def)
  then show ?thesis using d s isdigit_no_space [OF d] py_int_unsigned_digits [OF d]
    by (simp add: py_int_def)
qed

lemma str_of_nat_inject [simp]: "str_of_nat m = str_of_nat n \<longleftrightarrow> m = n"
  by (metis nat_of_digits_str_of_nat)

lemma strip_sign_digits: "isdigit s \<Longrightarrow> strip (CHR ''-'' # s) = CHR ''-'' # s"
proof (rule strip_no_space)
  assume "isdigit s"
  moreover have "\<not> is_space CHR ''-''" by (simp add: is_space_def)
  ultimately show "list_all (\<lambda>c. \<not> is_space c) (CHR ''-'' # s)"
    by (auto simp: isdigit_def list_all_iff digit_not_space)
qed

lemma py_int_str_of_int [simp, str_simps]: "py_int (str_of_int i) = Some i"
proof (cases "i < 0")
  case True
  then show ?thesis
    using strip_sign_digits [OF str_of_nat_digits, of "nat (- i)"]
    by (simp add: str_of_int_def py_int_def py_int_unsigned_digits [OF str_of_nat_digits])
next
  case False
  then show ?thesis by (simp add: str_of_int_def py_int_digits [OF str_of_nat_digits])
qed

lemma str_of_int_inject [simp]: "str_of_int i = str_of_int j \<longleftrightarrow> i = j"
  by (metis option.inject py_int_str_of_int)

lemma str_of_int_set: "c \<in> set (str_of_int i) \<Longrightarrow> is_digit c \<or> c = CHR ''-''"
  by (auto simp: str_of_int_def dest: str_of_nat_set split: if_splits)

lemma colon_notin_str_of_int [simp]: "CHR '':'' \<notin> set (str_of_int i)"
  using str_of_int_set [of "CHR '':''" i] by (auto simp: is_digit_def)

lemma isdigit_str_of_int [simp]: "isdigit (str_of_int i) \<longleftrightarrow> 0 \<le> i"
  using str_of_nat_digits [of "nat i"] by (auto simp: str_of_int_def isdigit_def is_digit_def)

lemma nat_of_digits_str_of_int [simp]: "0 \<le> i \<Longrightarrow> int (nat_of_digits (str_of_int i)) = i"
  by (simp add: str_of_int_def)

lemma str_of_int_strip [simp]: "strip (str_of_int i) = str_of_int i"
  by (rule strip_no_space) (auto simp: list_all_iff is_space_def is_digit_def dest!: str_of_int_set)

lemma str_of_int_lower [simp]: "lower (str_of_int i) = str_of_int i"
proof -
  have "lower_char c = c" if "c \<in> set (str_of_int i)" for c
    using str_of_int_set [OF that] by (auto simp: lower_char_def is_upper_def is_digit_def)
  then show ?thesis by (simp add: lower_def map_idI)
qed

lemma set_map_filter: "set (List.map_filter f xs) = {y. \<exists>x \<in> set xs. f x = Some y}"
  by (induction xs) (auto split: option.split)

section \<open>Dictionaries\<close>

definition dict_of :: "('a \<times> 'b) list \<Rightarrow> ('a \<times> 'b) list" where
  "dict_of ps = foldl (\<lambda>d (k, v). AList.update k v d) [] ps"

lemma map_of_foldl_update:
  "map_of (foldl (\<lambda>d (k, v). AList.update k v d) d ps) k =
     (case map_of (rev ps) k of None \<Rightarrow> map_of d k | Some v \<Rightarrow> Some v)"
  by (induction ps arbitrary: d)
    (auto simp: AList.update_conv' map_add_def split: option.splits)

lemma map_of_dict_of: "map_of (dict_of ps) = map_of (rev ps)"
  by (rule ext) (simp add: dict_of_def map_of_foldl_update split: option.splits)

lemma distinct_foldl_update:
  "distinct (map fst d) \<Longrightarrow> distinct (map fst (foldl (\<lambda>d (k, v). AList.update k v d) d ps))"
  by (induction ps arbitrary: d) (auto simp: AList.distinct_update)

lemma distinct_dict_of [simp]: "distinct (map fst (dict_of ps))"
  by (simp add: dict_of_def distinct_foldl_update)

lemma update_new: "k \<notin> fst ` set d \<Longrightarrow> AList.update k v d = d @ [(k, v)]"
  by (induction d) auto

lemma foldl_update_distinct:
  "distinct (map fst (d @ ps)) \<Longrightarrow> foldl (\<lambda>d (k, v). AList.update k v d) d ps = d @ ps"
proof (induction ps arbitrary: d)
  case (Cons p ps)
  then show ?case by (cases p) (auto simp: update_new image_Un)
qed simp

lemma dict_of_distinct: "distinct (map fst ps) \<Longrightarrow> dict_of ps = ps"
  using foldl_update_distinct [of "[]" ps] by (simp add: dict_of_def)

text \<open>A truthy str or int operand of Python's or.\<close>

definition or_str :: "string option \<Rightarrow> string \<Rightarrow> string" where
  "or_str s d = (case s of None \<Rightarrow> d | Some x \<Rightarrow> if x = [] then d else x)"

definition or_int :: "int option \<Rightarrow> int \<Rightarrow> int" where
  "or_int i d = (case i of None \<Rightarrow> d | Some x \<Rightarrow> if x = 0 then d else x)"

section \<open>Sorting by a key\<close>

lemma insort_key_map: "(\<And>x. k (f x) = k x) \<Longrightarrow> insort_key k (f x) (map f xs) = map f (insort_key k x xs)"
  by (induction xs) simp_all

lemma sort_key_map: "(\<And>x. k (f x) = k x) \<Longrightarrow> sort_key k (map f xs) = map f (sort_key k xs)"
  by (induction xs) (simp_all add: insort_key_map)

lemma insort_key_last: "k x \<le> k a \<Longrightarrow> insort_key k x (xs @ [a]) = insort_key k x xs @ [a]"
  by (induction xs) simp_all

lemma sort_key_last: "(\<And>x. x \<in> set xs \<Longrightarrow> k x \<le> k a) \<Longrightarrow> sort_key k (xs @ [a]) = sort_key k xs @ [a]"
  by (induction xs) (simp_all add: insort_key_last)

end
