(* ===== verification/Py_Json.thy ===== *)
theory Py_Json
  imports Py_Prelude
begin

text \<open>
  The json module of the standard library as the program uses it: values, json.dumps with
  chosen separators and ASCII escapes, and json.loads.  A float is kept as its lexeme.  The
  reader runs on fuel; loads supplies two units per character and one more, and enough_fuel shows
  that any larger supply reads the same.  dumps followed by loads is the identity on values
  without floats, with ASCII strings and distinct keys.
\<close>

section \<open>Values\<close>

datatype json =
    JNull
  | JBool bool
  | JInt int
  | JFloat string
  | JStr string
  | JList "json list"
  | JObj "(string \<times> json) list"

fun truthy :: "json \<Rightarrow> bool" where
  "truthy JNull = False"
| "truthy (JBool b) = b"
| "truthy (JInt i) = (i \<noteq> 0)"
| "truthy (JFloat s) = (s \<in> {''NaN'', ''Infinity'', ''-Infinity''} \<or>
     (\<exists>c \<in> set (takeWhile (\<lambda>c. c \<noteq> CHR ''e'' \<and> c \<noteq> CHR ''E'') s). is_digit c \<and> c \<noteq> CHR ''0''))"
| "truthy (JStr s) = (s \<noteq> [])"
| "truthy (JList vs) = (vs \<noteq> [])"
| "truthy (JObj ps) = (ps \<noteq> [])"

text \<open>The get method of a dict; any other value has no such attribute.\<close>

definition jget :: "string \<Rightarrow> json \<Rightarrow> json \<Rightarrow> json res" where
  "jget k d v = (case v of
       JObj ps \<Rightarrow> Inr (case map_of ps k of None \<Rightarrow> d | Some x \<Rightarrow> x)
     | _ \<Rightarrow> Inl AttributeError)"

definition is_obj :: "json \<Rightarrow> bool" where
  "is_obj v = (case v of JObj _ \<Rightarrow> True | _ \<Rightarrow> False)"

definition is_list :: "json \<Rightarrow> bool" where
  "is_list v = (case v of JList _ \<Rightarrow> True | _ \<Rightarrow> False)"

text \<open>isinstance(x, int): a bool is an int.\<close>

definition as_int :: "json \<Rightarrow> int option" where
  "as_int v = (case v of JInt i \<Rightarrow> Some i | JBool b \<Rightarrow> Some (if b then 1 else 0) | _ \<Rightarrow> None)"

definition as_str :: "json \<Rightarrow> string option" where
  "as_str v = (case v of JStr s \<Rightarrow> Some s | _ \<Rightarrow> None)"

lemma as_int_simps [simp]:
  "as_int (JInt i) = Some i" "as_int (JBool b) = Some (if b then 1 else 0)"
  "as_int JNull = None" "as_int (JStr s) = None" "as_int (JFloat s) = None"
  "as_int (JList vs) = None" "as_int (JObj ps) = None"
  by (simp_all add: as_int_def)

lemma jget_JObj [simp]:
  "jget k d (JObj ps) = Inr (case map_of ps k of None \<Rightarrow> d | Some x \<Rightarrow> x)"
  by (simp add: jget_def)

text \<open>int(x) on a float lexeme: the decimal value, truncated towards zero.\<close>

definition trunc_lexeme :: "string \<Rightarrow> int res" where
  "trunc_lexeme s =
     (if s = ''NaN'' then Inl ValueError
      else if s = ''Infinity'' \<or> s = ''-Infinity'' then Inl OverflowError
      else
        let neg = starts_with ''-'' s;
            body = removeprefix ''-'' s;
            mant = takeWhile (\<lambda>c. c \<noteq> CHR ''e'' \<and> c \<noteq> CHR ''E'') body;
            ex = drop 1 (dropWhile (\<lambda>c. c \<noteq> CHR ''e'' \<and> c \<noteq> CHR ''E'') body);
            e = (case py_int ex of None \<Rightarrow> 0 | Some i \<Rightarrow> i);
            frac = after CHR ''.'' mant;
            m = nat_of_digits (before CHR ''.'' mant @ frac);
            p = e - int (length frac);
            n = (if 0 \<le> p then m * 10 ^ nat p else m div 10 ^ nat (- p))
        in Inr (if neg then - int n else int n))"

definition py_int_of :: "json \<Rightarrow> int res" where
  "py_int_of v = (case v of
       JInt i \<Rightarrow> Inr i
     | JBool b \<Rightarrow> Inr (if b then 1 else 0)
     | JStr s \<Rightarrow> of_option ValueError (py_int s)
     | JFloat s \<Rightarrow> trunc_lexeme s
     | _ \<Rightarrow> Inl TypeError)"

lemma py_int_of_JInt [simp]: "py_int_of (JInt i) = Inr i"
  by (simp add: py_int_of_def)

section \<open>Writing\<close>

definition hex_char :: "nat \<Rightarrow> char" where
  "hex_char d = (if d < 10 then char_of (48 + d) else char_of (87 + d))"

definition hex_val :: "char \<Rightarrow> nat option" where
  "hex_val c =
     (if is_digit c then Some (code c - 48)
      else if 97 \<le> code c \<and> code c \<le> 102 then Some (code c - 87)
      else if 65 \<le> code c \<and> code c \<le> 70 then Some (code c - 55)
      else None)"

definition u_escape :: "nat \<Rightarrow> string" where
  "u_escape n = [backslash, CHR ''u'', hex_char (n div 4096 mod 16), hex_char (n div 256 mod 16),
     hex_char (n div 16 mod 16), hex_char (n mod 16)]"

text \<open>One code point; beyond the basic plane as a surrogate pair.\<close>

definition escape_point :: "nat \<Rightarrow> string" where
  "escape_point n =
     (if n < 65536 then u_escape n
      else u_escape (55296 + (n - 65536) div 1024) @ u_escape (56320 + (n - 65536) mod 1024))"

definition escape_ascii :: "char \<Rightarrow> string" where
  "escape_ascii c =
     (if c = dquote then [backslash, dquote]
      else if c = backslash then [backslash, backslash]
      else if code c = 10 then [backslash, CHR ''n'']
      else if code c = 13 then [backslash, CHR ''r'']
      else if code c = 9 then [backslash, CHR ''t'']
      else if code c = 12 then [backslash, CHR ''f'']
      else if code c = 8 then [backslash, CHR ''b'']
      else if code c < 32 \<or> code c = 127 then u_escape (code c)
      else [c])"

definition cont_bits :: "char \<Rightarrow> nat" where
  "cont_bits c = code c mod 64"

text \<open>The next code point of a UTF-8 string and the bytes after it.\<close>

fun utf8_next :: "char \<Rightarrow> string \<Rightarrow> nat \<times> string" where
  "utf8_next c (d # e # f # s) =
     (if 240 \<le> code c then
        (code c mod 8 * 262144 + cont_bits d * 4096 + cont_bits e * 64 + cont_bits f, s)
      else if 224 \<le> code c then (code c mod 16 * 4096 + cont_bits d * 64 + cont_bits e, f # s)
      else if 192 \<le> code c then (code c mod 32 * 64 + cont_bits d, e # f # s)
      else (code c, d # e # f # s))"
| "utf8_next c [d, e] =
     (if 224 \<le> code c then (code c mod 16 * 4096 + cont_bits d * 64 + cont_bits e, [])
      else if 192 \<le> code c then (code c mod 32 * 64 + cont_bits d, [e])
      else (code c, [d, e]))"
| "utf8_next c [d] = (if 192 \<le> code c then (code c mod 32 * 64 + cont_bits d, []) else (code c, [d]))"
| "utf8_next c [] = (code c, [])"

lemma utf8_next_length: "length (snd (utf8_next c s)) \<le> length s"
  by (induction c s rule: utf8_next.induct) auto

function escape_chars :: "string \<Rightarrow> string" where
  "escape_chars [] = []"
| "escape_chars (c # cs) =
     (if code c < 128 then escape_ascii c @ escape_chars cs
      else escape_point (fst (utf8_next c cs)) @ escape_chars (snd (utf8_next c cs)))"
  by pat_completeness auto
termination by (relation "measure length") (auto simp: le_imp_less_Suc utf8_next_length)

definition quote_str :: "string \<Rightarrow> string" where
  "quote_str s = dquote # escape_chars s @ [dquote]"

text \<open>json.dumps with item separator i and key separator k.\<close>

fun dumps_with :: "string \<Rightarrow> string \<Rightarrow> json \<Rightarrow> string"
  and dumps_items :: "string \<Rightarrow> string \<Rightarrow> json list \<Rightarrow> string"
  and dumps_members :: "string \<Rightarrow> string \<Rightarrow> (string \<times> json) list \<Rightarrow> string" where
  "dumps_with i k JNull = ''null''"
| "dumps_with i k (JBool b) = (if b then ''true'' else ''false'')"
| "dumps_with i k (JInt n) = str_of_int n"
| "dumps_with i k (JFloat s) = s"
| "dumps_with i k (JStr s) = quote_str s"
| "dumps_with i k (JList vs) = ''['' @ dumps_items i k vs @ '']''"
| "dumps_with i k (JObj ps) = ''{'' @ dumps_members i k ps @ ''}''"
| "dumps_items i k [] = []"
| "dumps_items i k (v # vs) =
     dumps_with i k v @ (case vs of [] \<Rightarrow> [] | _ # _ \<Rightarrow> i @ dumps_items i k vs)"
| "dumps_members i k [] = []"
| "dumps_members i k ((n, v) # ps) =
     quote_str n @ k @ dumps_with i k v @ (case ps of [] \<Rightarrow> [] | _ # _ \<Rightarrow> i @ dumps_members i k ps)"

definition dumps :: "json \<Rightarrow> string" where
  "dumps v = dumps_with '', '' '': '' v"

definition dumps_compact :: "json \<Rightarrow> string" where
  "dumps_compact v = dumps_with '','' '':'' v"

section \<open>Reading\<close>

definition is_ws :: "char \<Rightarrow> bool" where
  "is_ws c = (code c \<in> {9, 10, 13, 32})"

definition skip_ws :: "string \<Rightarrow> string" where
  "skip_ws s = dropWhile is_ws s"

lemma skip_ws_length: "length (skip_ws s) \<le> length s"
  by (simp add: skip_ws_def length_dropWhile_le)

lemma skip_ws_Cons [simp]: "\<not> is_ws c \<Longrightarrow> skip_ws (c # s) = c # s"
  by (simp add: skip_ws_def)

definition utf8_encode :: "nat \<Rightarrow> string" where
  "utf8_encode n =
     (if n < 128 then [char_of n]
      else if n < 2048 then [char_of (192 + n div 64), char_of (128 + n mod 64)]
      else if n < 65536 then
        [char_of (224 + n div 4096), char_of (128 + n div 64 mod 64), char_of (128 + n mod 64)]
      else [char_of (240 + n div 262144), char_of (128 + n div 4096 mod 64),
            char_of (128 + n div 64 mod 64), char_of (128 + n mod 64)])"

definition read_hex4 :: "string \<Rightarrow> nat option" where
  "read_hex4 s = (case map hex_val (take 4 s) of
       [Some a, Some b, Some c, Some d] \<Rightarrow> Some (a * 4096 + b * 256 + c * 16 + d)
     | _ \<Rightarrow> None)"

definition unescape_char :: "char \<Rightarrow> char option" where
  "unescape_char c =
     (if c = dquote \<or> c = backslash \<or> c = CHR ''/'' then Some c
      else if c = CHR ''n'' then Some (char_of (10::nat))
      else if c = CHR ''r'' then Some (char_of (13::nat))
      else if c = CHR ''t'' then Some (char_of (9::nat))
      else if c = CHR ''f'' then Some (char_of (12::nat))
      else if c = CHR ''b'' then Some (char_of (8::nat))
      else None)"

text \<open>The second half of a surrogate pair, when the text after a high surrogate has one.\<close>

definition low_surrogate :: "string \<Rightarrow> nat option" where
  "low_surrogate s =
     (if starts_with [backslash, CHR ''u''] s
      then (case read_hex4 (drop 2 s) of
              Some m \<Rightarrow> if 56320 \<le> m \<and> m \<le> 57343 then Some m else None
            | None \<Rightarrow> None)
      else None)"

definition push_front :: "string \<Rightarrow> (string \<times> string) option \<Rightarrow> (string \<times> string) option" where
  "push_front p r = map_option (\<lambda>(t, rest). (p @ t, rest)) r"

text \<open>The characters of a string literal after its opening quote.\<close>

function parse_chars :: "string \<Rightarrow> (string \<times> string) option" where
  "parse_chars [] = None"
| "parse_chars (c # cs) =
     (if c = dquote then Some ([], cs)
      else if c = backslash then
        (case cs of
           [] \<Rightarrow> None
         | d # ds \<Rightarrow>
            if d = CHR ''u'' then
              (case read_hex4 ds of
                 None \<Rightarrow> None
               | Some n \<Rightarrow>
                  if 55296 \<le> n \<and> n \<le> 56319 \<and> low_surrogate (drop 4 ds) \<noteq> None
                  then push_front
                    (utf8_encode (65536 + (n - 55296) * 1024
                       + (the (low_surrogate (drop 4 ds)) - 56320)))
                    (parse_chars (drop 10 ds))
                  else push_front (utf8_encode n) (parse_chars (drop 4 ds)))
            else (case unescape_char d of
                    None \<Rightarrow> None
                  | Some e \<Rightarrow> push_front [e] (parse_chars ds)))
      else if code c < 32 then None
      else push_front [c] (parse_chars cs))"
  by pat_completeness auto
termination by (relation "measure length") auto

definition num_sign :: "string \<Rightarrow> string" where
  "num_sign s = (if starts_with ''-'' s then ''-'' else [])"

definition num_int :: "string \<Rightarrow> string" where
  "num_int s = (if starts_with ''0'' s then ''0'' else takeWhile is_digit s)"

definition num_frac :: "string \<Rightarrow> string" where
  "num_frac s =
     (if starts_with ''.'' s \<and> takeWhile is_digit (drop 1 s) \<noteq> []
      then ''.'' @ takeWhile is_digit (drop 1 s) else [])"

definition num_exp :: "string \<Rightarrow> string" where
  "num_exp s =
     (let sgn = (if starts_with ''+'' (drop 1 s) \<or> starts_with ''-'' (drop 1 s) then take 1 (drop 1 s) else []);
          ds = takeWhile is_digit (drop (1 + length sgn) s)
      in if (starts_with ''e'' s \<or> starts_with ''E'' s) \<and> ds \<noteq> [] then take 1 s @ sgn @ ds else [])"

definition take_number :: "string \<Rightarrow> (json \<times> string) option" where
  "take_number s =
     (let sgn = num_sign s;
          ip = num_int (drop (length sgn) s);
          r = drop (length sgn + length ip) s;
          fr = num_frac r;
          ex = num_exp (drop (length fr) r)
      in if ip = [] then None
         else if fr = [] \<and> ex = [] then
           Some (JInt (if sgn = [] then int (nat_of_digits ip) else - int (nat_of_digits ip)), r)
         else Some (JFloat (sgn @ ip @ fr @ ex), drop (length fr + length ex) r))"

definition parse_atom :: "string \<Rightarrow> (json \<times> string) option" where
  "parse_atom s =
     (if starts_with ''null'' s then Some (JNull, drop 4 s)
      else if starts_with ''true'' s then Some (JBool True, drop 4 s)
      else if starts_with ''false'' s then Some (JBool False, drop 5 s)
      else if starts_with ''NaN'' s then Some (JFloat ''NaN'', drop 3 s)
      else if starts_with ''Infinity'' s then Some (JFloat ''Infinity'', drop 8 s)
      else if starts_with ''-Infinity'' s then Some (JFloat ''-Infinity'', drop 9 s)
      else take_number s)"

text \<open>A member's name and the colon after it.\<close>

definition parse_key :: "string \<Rightarrow> (string \<times> string) option" where
  "parse_key s = (case s of
       [] \<Rightarrow> None
     | q # qs \<Rightarrow>
        if q \<noteq> dquote then None
        else (case parse_chars qs of
                None \<Rightarrow> None
              | Some (n, r) \<Rightarrow>
                 if starts_with '':'' (skip_ws r) then Some (n, skip_ws (drop 1 (skip_ws r))) else None))"

fun parse_value :: "nat \<Rightarrow> string \<Rightarrow> (json \<times> string) option"
  and parse_items :: "nat \<Rightarrow> string \<Rightarrow> (json list \<times> string) option"
  and parse_members :: "nat \<Rightarrow> string \<Rightarrow> ((string \<times> json) list \<times> string) option" where
  "parse_value 0 s = None"
| "parse_value (Suc f) s = (case s of
       [] \<Rightarrow> None
     | c # cs \<Rightarrow>
        (if c = dquote then map_option (\<lambda>(t, r). (JStr t, r)) (parse_chars cs)
         else if c = CHR ''['' then
           (if starts_with '']'' (skip_ws cs) then Some (JList [], drop 1 (skip_ws cs))
            else map_option (\<lambda>(vs, r). (JList vs, r)) (parse_items f (skip_ws cs)))
         else if c = CHR ''{'' then
           (if starts_with ''}'' (skip_ws cs) then Some (JObj [], drop 1 (skip_ws cs))
            else map_option (\<lambda>(ps, r). (JObj (dict_of ps), r)) (parse_members f (skip_ws cs)))
         else parse_atom s))"
| "parse_items 0 s = None"
| "parse_items (Suc f) s = (case parse_value f s of
       None \<Rightarrow> None
     | Some (v, r) \<Rightarrow>
        (case skip_ws r of
           [] \<Rightarrow> None
         | c # cs \<Rightarrow>
            if c = CHR '']'' then Some ([v], cs)
            else if c = CHR '','' then
              map_option (\<lambda>(vs, r2). (v # vs, r2)) (parse_items f (skip_ws cs))
            else None))"
| "parse_members 0 s = None"
| "parse_members (Suc f) s = (case parse_key s of
       None \<Rightarrow> None
     | Some (n, r) \<Rightarrow>
        (case parse_value f r of
           None \<Rightarrow> None
         | Some (v, r2) \<Rightarrow>
            (case skip_ws r2 of
               [] \<Rightarrow> None
             | c # cs \<Rightarrow>
                if c = CHR ''}'' then Some ([(n, v)], cs)
                else if c = CHR '','' then
                  map_option (\<lambda>(ps, r3). ((n, v) # ps, r3)) (parse_members f (skip_ws cs))
                else None)))"

definition loads :: "string \<Rightarrow> json res" where
  "loads s = (case parse_value (Suc (2 * length s)) (skip_ws s) of
       None \<Rightarrow> Inl ValueError
     | Some (v, r) \<Rightarrow> if skip_ws r = [] then Inr v else Inl ValueError)"

subsection \<open>The reader consumes its input and has fuel enough\<close>

lemma push_front_Some:
  "push_front p r = Some (t, rest) \<longleftrightarrow> (\<exists>u. r = Some (u, rest) \<and> t = p @ u)"
  by (cases r) (auto simp: push_front_def)

lemma parse_chars_length: "parse_chars s = Some (t, r) \<Longrightarrow> length r < length s"
proof (induction "length s" arbitrary: s t r rule: less_induct)
  case less
  note IH = less.hyps
  show ?case
  proof (cases s)
    case (Cons c cs)
    have step: "length r < n" if "push_front p (parse_chars u) = Some (t, r)" "length u < n" "n = length s"
      for p u n
      using that IH [of u] by (auto simp: push_front_Some)
    show ?thesis
    proof (cases "c = backslash")
      case True
      then show ?thesis
        using less.prems Cons
        by (auto split: list.splits if_splits option.splits elim!: step)
    next
      case False
      then show ?thesis
        using less.prems Cons by (auto split: if_splits elim!: step)
    qed
  qed (use less.prems in simp)
qed

lemma num_int_Nil [simp]: "num_int [] = []"
  by (simp add: num_int_def)

lemma take_number_length: "take_number s = Some (v, r) \<Longrightarrow> length r < length s"
  unfolding take_number_def Let_def
  by (cases s; cases "num_int (drop (length (num_sign s)) s)") (auto split: if_splits)

lemma parse_atom_length: "parse_atom s = Some (v, r) \<Longrightarrow> length r < length s"
  unfolding parse_atom_def
  by (auto split: if_splits simp: starts_with_iff dest: take_number_length)

lemma skip_ws_Cons_length: "skip_ws s = c # cs \<Longrightarrow> length cs < length s"
  using skip_ws_length [of s] by simp

lemma skip_drop_length: "length (skip_ws (drop n (skip_ws s))) \<le> length s"
  using skip_ws_length [of "drop n (skip_ws s)"] skip_ws_length [of s] by simp

lemma parse_key_length: "parse_key s = Some (n, r) \<Longrightarrow> length r < length s"
  unfolding parse_key_def
  by (auto split: list.splits if_splits option.splits dest!: parse_chars_length
      intro!: le_less_trans [OF skip_drop_length])

lemma parse_length:
  "parse_value f s = Some (v, r) \<Longrightarrow> length r < length s"
  "parse_items f s = Some (vs, r) \<Longrightarrow> length r < length s"
  "parse_members f s = Some (ps, r) \<Longrightarrow> length r < length s"
proof (induction f arbitrary: s v r vs ps)
  case (Suc f)
  {
    case 1
    then obtain c cs where s: "s = c # cs" by (cases s) auto
    from 1 s skip_ws_length [of cs] show ?case
      by (auto split: if_splits dest!: Suc.IH(2,3) parse_chars_length parse_atom_length)
  next
    case 2
    then obtain v' r' c cs where v: "parse_value f s = Some (v', r')" "skip_ws r' = c # cs"
      by (auto split: option.splits list.splits)
    have "length cs < length r'" "length r' < length s" "length (skip_ws cs) \<le> length cs"
      using v Suc.IH(1) by (auto simp: skip_ws_length skip_ws_Cons_length)
    then show ?case using v 2 by (auto split: if_splits dest!: Suc.IH(2))
  next
    case 3
    then obtain n r0 v' r' c cs where v: "parse_key s = Some (n, r0)" "parse_value f r0 = Some (v', r')"
        "skip_ws r' = c # cs"
      by (auto split: option.splits list.splits)
    have "length cs < length r'" "length r' < length r0" "length r0 < length s"
        "length (skip_ws cs) \<le> length cs"
      using v Suc.IH(1) by (auto simp: skip_ws_length skip_ws_Cons_length parse_key_length)
    then show ?case using v 3 by (auto split: if_splits dest!: Suc.IH(3))
  }
qed simp_all

lemma enough_fuel:
  "2 * length s < f \<Longrightarrow> 2 * length s < g \<Longrightarrow> parse_value f s = parse_value g s"
  "2 * length s + 1 < f \<Longrightarrow> 2 * length s + 1 < g \<Longrightarrow> parse_items f s = parse_items g s"
  "2 * length s + 1 < f \<Longrightarrow> 2 * length s + 1 < g \<Longrightarrow> parse_members f s = parse_members g s"
proof (induction f arbitrary: s g)
  case (Suc f)
  {
    case 1
    then obtain h where g: "g = Suc h" by (cases g) auto
    have "parse_items f (skip_ws (tl s)) = parse_items h (skip_ws (tl s))"
      "parse_members f (skip_ws (tl s)) = parse_members h (skip_ws (tl s))" if "s \<noteq> []"
      using 1 g that skip_ws_length [of "tl s"] by (cases s; auto intro!: Suc.IH)+
    then show ?case using g by (auto split: list.split)
  next
    case 2
    then obtain h where g: "g = Suc h" by (cases g) auto
    have v: "parse_value f s = parse_value h s" using 2 g by (intro Suc.IH) auto
    have "parse_items f (skip_ws cs) = parse_items h (skip_ws cs)"
      if "parse_value h s = Some (w, r)" "skip_ws r = c # cs" for w r c cs
      using 2 g parse_length(1) [OF that(1)] skip_ws_Cons_length [OF that(2)] skip_ws_length [of cs]
      by (intro Suc.IH) auto
    then show ?case using g v by (auto split: option.split list.split)
  next
    case 3
    then obtain h where g: "g = Suc h" by (cases g) auto
    have v: "parse_value f r = parse_value h r" if "parse_key s = Some (n, r)" for n r
      using 3 g parse_key_length [OF that] by (intro Suc.IH) auto
    have "parse_members f (skip_ws cs) = parse_members h (skip_ws cs)"
      if "parse_key s = Some (n, r0)" "parse_value h r0 = Some (w, r)" "skip_ws r = c # cs" for n r0 w r c cs
      using 3 g parse_key_length [OF that(1)] parse_length(1) [OF that(2)]
        skip_ws_Cons_length [OF that(3)] skip_ws_length [of cs]
      by (intro Suc.IH) auto
    then show ?case using g v by (auto split: option.split list.split)
  }
qed simp_all

subsection \<open>Reading back what was written\<close>

fun json_plain :: "json \<Rightarrow> bool" where
  "json_plain (JFloat s) = False"
| "json_plain (JStr s) = list_all is_ascii s"
| "json_plain (JList vs) = (\<forall>v \<in> set vs. json_plain v)"
| "json_plain (JObj ps) =
     (distinct (map fst ps) \<and> (\<forall>p \<in> set ps. list_all is_ascii (fst p) \<and> json_plain (snd p)))"
| "json_plain _ = True"

definition separators :: "string \<Rightarrow> string \<Rightarrow> bool" where
  "separators i k = (i \<noteq> [] \<and> hd i = CHR '','' \<and> list_all is_ws (tl i) \<and>
     k \<noteq> [] \<and> hd k = CHR '':'' \<and> list_all is_ws (tl k))"

definition ends_token :: "string \<Rightarrow> bool" where
  "ends_token s = (s = [] \<or> \<not> is_digit (hd s) \<and> hd s \<notin> set ''.eE'')"

lemma hex_val_hex_char [simp]: "d < 16 \<Longrightarrow> hex_val (hex_char d) = Some d"
  by (simp add: hex_val_def hex_char_def is_digit_def)

lemma hex_digits: "n < 65536 \<Longrightarrow>
    n div 4096 mod 16 * 4096 + n div 256 mod 16 * 256 + n div 16 mod 16 * 16 + n mod 16 = (n::nat)"
proof -
  assume n: "n < 65536"
  have d: "n div 256 = n div 16 div 16" "n div 4096 = n div 256 div 16"
    using div_mult2_eq [of n 16 16] div_mult2_eq [of n 256 16] by simp_all
  have "n div 4096 < 16" by (rule less_mult_imp_div_less) (use n in simp)
  then have "n div 4096 mod 16 = n div 4096" by (rule mod_less)
  then show ?thesis
    using d div_mult_mod_eq [of n 16] div_mult_mod_eq [of "n div 16" 16]
      div_mult_mod_eq [of "n div 256" 16] by linarith
qed

lemma read_hex4_u_escape: "n < 65536 \<Longrightarrow> read_hex4 (drop 2 (u_escape n @ t)) = Some n"
  using hex_digits [of n] by (simp add: read_hex4_def u_escape_def)

lemma parse_chars_esc_u:
  "read_hex4 ds = Some n \<Longrightarrow> n < 55296 \<or> 56319 < n \<Longrightarrow>
   parse_chars (backslash # CHR ''u'' # ds) = push_front (utf8_encode n) (parse_chars (drop 4 ds))"
  by simp auto

lemma parse_chars_u:
  assumes "n < 65536" "n < 55296 \<or> 57343 < n"
  shows "parse_chars (u_escape n @ t) = push_front (utf8_encode n) (parse_chars t)"
proof -
  obtain ds where ds: "u_escape n @ t = backslash # CHR ''u'' # ds" "drop 4 ds = t"
      "read_hex4 ds = Some n"
    using read_hex4_u_escape [OF assms(1), of t] by (simp add: u_escape_def)
  have "n < 55296 \<or> 56319 < n" using assms(2) by auto
  then show ?thesis by (simp only: ds parse_chars_esc_u)
qed

lemma char_of_code_eqs: "code c = n \<Longrightarrow> char_of n = c"
  by auto

lemma parse_chars_ascii:
  "is_ascii c \<Longrightarrow> parse_chars (escape_ascii c @ t) = push_front [c] (parse_chars t)"
proof -
  assume "is_ascii c"
  then have u: "parse_chars (u_escape (code c) @ t) = push_front [c] (parse_chars t)"
    by (subst parse_chars_u) (auto simp: utf8_encode_def is_ascii_def)
  moreover have "parse_chars (backslash # d # t) = push_front [c] (parse_chars t)"
    if "unescape_char d = Some c" "d \<noteq> CHR ''u''" for d
    using that by simp
  moreover have "c \<noteq> dquote \<Longrightarrow> c \<noteq> backslash \<Longrightarrow> \<not> code c < 32 \<Longrightarrow>
      parse_chars (c # t) = push_front [c] (parse_chars t)"
    by simp
  ultimately show ?thesis
    unfolding escape_ascii_def
    by (simp add: unescape_char_def char_of_code_eqs del: parse_chars.simps)
qed

lemma parse_chars_escape:
  "list_all is_ascii s \<Longrightarrow> parse_chars (escape_chars s @ dquote # r) = Some (s, r)"
proof (induction s)
  case (Cons c s)
  then have "escape_chars (c # s) = escape_ascii c @ escape_chars s" by (simp add: is_ascii_def)
  with Cons show ?case by (simp add: parse_chars_ascii push_front_def)
qed simp

lemma str_of_nat_hd: "0 < n \<Longrightarrow> hd (str_of_nat n) \<noteq> CHR ''0''"
proof (induction n rule: str_of_nat.induct)
  case (1 n)
  show ?case
  proof (cases "n < 10")
    case True
    then have "code (digit_char n) \<noteq> code (CHR ''0'')" using 1 by simp
    then have "digit_char n \<noteq> CHR ''0''" by metis
    with True show ?thesis by (subst str_of_nat.simps) simp
  next
    case False
    then have "0 < n div 10" by simp
    then show ?thesis using False 1 by (subst str_of_nat.simps) simp
  qed
qed

lemma takeWhile_str_of_nat:
  "ends_token r \<Longrightarrow> takeWhile is_digit (str_of_nat n @ r) = str_of_nat n"
proof -
  assume "ends_token r"
  then have "takeWhile is_digit r = []" by (cases r) (auto simp: ends_token_def)
  then show ?thesis using str_of_nat_set [of _ n] by (simp add: takeWhile_append)
qed

lemma num_int_str_of_nat: "ends_token r \<Longrightarrow> num_int (str_of_nat n @ r) = str_of_nat n"
proof (cases "n = 0")
  case True
  have "code (digit_char 0) = code (CHR ''0'')" by simp
  then have "str_of_nat 0 = ''0''" by (subst str_of_nat.simps) (simp only: code_inject, simp)
  then show ?thesis using True by (simp add: num_int_def)
next
  case False
  assume r: "ends_token r"
  have "\<not> starts_with ''0'' (str_of_nat n @ r)"
    using str_of_nat_hd [of n] False by (cases "str_of_nat n") auto
  then show ?thesis using r by (simp add: num_int_def takeWhile_str_of_nat)
qed

lemma ends_token_no_tail: "ends_token r \<Longrightarrow> num_frac r = []" "ends_token r \<Longrightarrow> num_exp r = []"
  by (cases r; auto simp: ends_token_def num_frac_def num_exp_def)+

lemma num_sign_digits: "num_sign (str_of_nat n @ r) = []"
  using str_of_nat_digits [of n]
  by (cases "str_of_nat n") (auto simp: num_sign_def isdigit_def is_digit_def)

lemma take_number_str_of_int:
  assumes r: "ends_token r"
  shows "take_number (str_of_int i @ r) = Some (JInt i, r)"
proof (cases "i < 0")
  case True
  have "num_sign (CHR ''-'' # t) = ''-''" for t by (simp add: num_sign_def)
  then show ?thesis using True r
    by (simp add: str_of_int_def take_number_def num_int_str_of_nat ends_token_no_tail)
next
  case False
  then show ?thesis using r
    by (simp add: str_of_int_def take_number_def num_sign_digits num_int_str_of_nat ends_token_no_tail)
qed

lemma parse_atom_digit: "is_digit c \<Longrightarrow> parse_atom (c # s) = take_number (c # s)"
proof -
  assume "is_digit c"
  then have "c \<noteq> CHR ''n''" "c \<noteq> CHR ''t''" "c \<noteq> CHR ''f''" "c \<noteq> CHR ''N''" "c \<noteq> CHR ''I''" "c \<noteq> CHR ''-''"
    by (auto simp: is_digit_def)
  then show ?thesis by (simp add: parse_atom_def)
qed

lemma parse_atom_minus:
  "is_digit c \<Longrightarrow> parse_atom (CHR ''-'' # c # s) = take_number (CHR ''-'' # c # s)"
proof -
  assume "is_digit c"
  then have "c \<noteq> CHR ''I''" by (auto simp: is_digit_def)
  then show ?thesis by (simp add: parse_atom_def)
qed

lemma str_of_nat_Cons: obtains c cs where "str_of_nat n = c # cs" "is_digit c"
  using str_of_nat_digits [of n] by (cases "str_of_nat n") (auto simp: isdigit_def)

lemma str_of_int_cases:
  obtains (digit) c cs where "str_of_int i = c # cs" "is_digit c"
  | (minus) c cs where "str_of_int i = CHR ''-'' # c # cs" "is_digit c"
  by (metis str_of_int_def str_of_nat_Cons)

lemma parse_atom_int: "ends_token r \<Longrightarrow> parse_atom (str_of_int i @ r) = Some (JInt i, r)"
proof -
  assume r: "ends_token r"
  have "parse_atom (str_of_int i @ r) = take_number (str_of_int i @ r)"
    by (rule str_of_int_cases [of i]) (simp_all add: parse_atom_digit parse_atom_minus)
  then show ?thesis using r by (simp add: take_number_str_of_int)
qed

lemma is_ws_not: "is_ws c \<Longrightarrow> \<not> is_digit c" "is_ws c \<Longrightarrow> c \<notin> set ''.eE[]{},:''" "\<not> is_ws dquote"
  by (auto simp: is_ws_def is_digit_def)

lemma skip_ws_append: "list_all is_ws w \<Longrightarrow> skip_ws (w @ s) = skip_ws s"
  by (auto simp: skip_ws_def list_all_iff dropWhile_append)

text \<open>The first character of a written value is neither white space nor a closing bracket.\<close>

lemma dumps_first:
  assumes "json_plain v"
  obtains c cs where "dumps_with i k v = c # cs" "\<not> is_ws c" "c \<noteq> CHR '']''" "c \<noteq> CHR ''}''"
proof (cases v)
  case (JInt n)
  show ?thesis
    by (rule str_of_int_cases [of n]; rule that)
      (use JInt in \<open>auto simp: is_ws_def is_digit_def\<close>)
next
  case (JBool b)
  show ?thesis
    by (cases b; rule that) (use JBool in \<open>auto simp: is_ws_def\<close>)
qed (use assms that in \<open>auto simp: quote_str_def is_ws_def split: if_splits\<close>)

lemma ends_token_intros [intro, simp]:
  "ends_token []" "ends_token (CHR '','' # s)" "ends_token (CHR '']'' # s)" "ends_token (CHR ''}'' # s)"
  by (auto simp: ends_token_def is_digit_def)

lemma separators_item:
  assumes "separators i k" obtains w where "i = CHR '','' # w" "list_all is_ws w"
  using assms by (cases i) (auto simp: separators_def)

lemma separators_key:
  assumes "separators i k" obtains w where "k = CHR '':'' # w" "list_all is_ws w"
  using assms by (cases k) (auto simp: separators_def)

lemma parse_key_written:
  assumes "separators i k" "list_all is_ascii n" "json_plain v"
  shows "parse_key (quote_str n @ k @ dumps_with i k v @ r) = Some (n, dumps_with i k v @ r)"
proof -
  obtain w where w: "k = CHR '':'' # w" "list_all is_ws w" using separators_key assms(1) .
  obtain c cs where c: "dumps_with i k v = c # cs" "\<not> is_ws c" using assms(3) by (rule dumps_first)
  have "\<not> is_ws CHR '':''" by (simp add: is_ws_def)
  then show ?thesis using assms(2) w c
    by (simp add: parse_key_def quote_str_def parse_chars_escape skip_ws_append)
qed

lemma skip_after_item:
  assumes "separators i k" "json_plain v"
  shows "\<exists>t. i @ dumps_with i k v @ r = CHR '','' # t \<and> skip_ws t = dumps_with i k v @ r"
proof -
  obtain w where w: "i = CHR '','' # w" "list_all is_ws w" using separators_item assms(1) .
  obtain c cs where "dumps_with i k v = c # cs" "\<not> is_ws c" using assms(2) by (rule dumps_first)
  then show ?thesis using w by (simp add: skip_ws_append)
qed

lemma skip_after_member:
  assumes "separators i k"
  shows "\<exists>t. i @ quote_str n @ r = CHR '','' # t \<and> skip_ws t = quote_str n @ r"
proof -
  obtain w where w: "i = CHR '','' # w" "list_all is_ws w" using separators_item assms(1) .
  then show ?thesis by (simp add: skip_ws_append quote_str_def is_ws_not)
qed

lemma not_ws_close: "\<not> is_ws CHR '']''" "\<not> is_ws CHR ''}''" "\<not> is_ws CHR '',''"
  by (simp_all add: is_ws_def)

lemma length_quote_str: "2 \<le> length (quote_str s)"
  by (simp add: quote_str_def)

lemma parse_items_step:
  assumes sep: "separators i k" and vs: "\<forall>v \<in> set vs. json_plain v"
    and v: "parse_value f (dumps_with i k v @ t) = Some (v, t)"
    and t: "t = (case vs of [] \<Rightarrow> CHR '']'' # r | _ # _ \<Rightarrow> i @ dumps_items i k vs @ CHR '']'' # r)"
    and rest: "vs \<noteq> [] \<Longrightarrow> parse_items f (dumps_items i k vs @ CHR '']'' # r) = Some (vs, r)"
  shows "parse_items (Suc f) (dumps_with i k v @ t) = Some (v # vs, r)"
proof (cases vs)
  case Nil
  then show ?thesis using v t by (simp add: not_ws_close)
next
  case (Cons w ws)
  define u where "u = (case ws of [] \<Rightarrow> [] | _ # _ \<Rightarrow> i @ dumps_items i k ws) @ CHR '']'' # r"
  have "dumps_items i k vs @ CHR '']'' # r = dumps_with i k w @ u" by (simp add: Cons u_def)
  moreover obtain t' where "i @ dumps_with i k w @ u = CHR '','' # t'" "skip_ws t' = dumps_with i k w @ u"
    using skip_after_item [OF sep, of w u] vs Cons by auto
  ultimately have "t = CHR '','' # t'" "skip_ws t' = dumps_items i k vs @ CHR '']'' # r"
    using t Cons by simp_all
  then show ?thesis using v rest Cons by (simp add: not_ws_close)
qed

lemma parse_members_step:
  assumes sep: "separators i k" and n: "list_all is_ascii n" and v': "json_plain v"
    and v: "parse_value f (dumps_with i k v @ t) = Some (v, t)"
    and t: "t = (case ps of [] \<Rightarrow> CHR ''}'' # r | _ # _ \<Rightarrow> i @ dumps_members i k ps @ CHR ''}'' # r)"
    and rest: "ps \<noteq> [] \<Longrightarrow> parse_members f (dumps_members i k ps @ CHR ''}'' # r) = Some (ps, r)"
  shows "parse_members (Suc f) (quote_str n @ k @ dumps_with i k v @ t) = Some ((n, v) # ps, r)"
proof (cases ps)
  case Nil
  then show ?thesis using v t by (simp add: not_ws_close parse_key_written [OF sep n v'])
next
  case (Cons p qs)
  obtain m w where p: "p = (m, w)" by (cases p)
  define u where "u = k @ dumps_with i k w @ (case qs of [] \<Rightarrow> [] | _ # _ \<Rightarrow> i @ dumps_members i k qs)
    @ CHR ''}'' # r"
  have "dumps_members i k ps @ CHR ''}'' # r = quote_str m @ u" by (simp add: Cons p u_def)
  moreover obtain t' where "i @ quote_str m @ u = CHR '','' # t'" "skip_ws t' = quote_str m @ u"
    using skip_after_member [OF sep, of m u] by auto
  ultimately have "t = CHR '','' # t'" "skip_ws t' = dumps_members i k ps @ CHR ''}'' # r"
    using t Cons by simp_all
  then show ?thesis using v rest Cons
    by (simp add: not_ws_close parse_key_written [OF sep n v'])
qed

lemma ends_token_sep: "separators i k \<Longrightarrow> ends_token (i @ r)"
  by (erule separators_item) simp

lemma parse_written:
  assumes sep: "separators i k"
  shows "json_plain v \<Longrightarrow> ends_token r \<Longrightarrow> 2 * length (dumps_with i k v) < f \<Longrightarrow>
      parse_value f (dumps_with i k v @ r) = Some (v, r)"
    "\<forall>v \<in> set vs. json_plain v \<Longrightarrow> vs \<noteq> [] \<Longrightarrow> 2 * length (dumps_items i k vs) + 1 < f \<Longrightarrow>
      parse_items f (dumps_items i k vs @ CHR '']'' # r) = Some (vs, r)"
    "\<forall>p \<in> set ps. list_all is_ascii (fst p) \<and> json_plain (snd p) \<Longrightarrow> ps \<noteq> [] \<Longrightarrow>
      2 * length (dumps_members i k ps) + 1 < f \<Longrightarrow>
      parse_members f (dumps_members i k ps @ CHR ''}'' # r) = Some (ps, r)"
  using sep
proof (induction i k v and i k vs and i k ps arbitrary: f r and f r and f r
    rule: dumps_with_dumps_items_dumps_members.induct)
  case (1 i k) then show ?case by (cases f) (auto simp: parse_atom_def)
next
  case (2 i k b) then show ?case by (cases f) (auto simp: parse_atom_def)
next
  case (3 i k n)
  then obtain h where "f = Suc h" by (cases f) auto
  moreover have "parse_value (Suc h) (str_of_int n @ r) = parse_atom (str_of_int n @ r)"
    by (rule str_of_int_cases [of n]) (auto simp: is_digit_def)
  ultimately show ?case using 3 by (simp add: parse_atom_int)
next
  case (4 i k s) then show ?case by simp
next
  case (5 i k s) then show ?case by (cases f) (auto simp: quote_str_def parse_chars_escape)
next
  case (6 i k vs)
  then obtain h where f: "f = Suc h" by (cases f) auto
  show ?case
  proof (cases vs)
    case Nil then show ?thesis using f by (simp add: not_ws_close)
  next
    case (Cons w ws)
    then have "json_plain w" using 6 by simp
    then obtain c cs where c: "dumps_with i k w = c # cs" "\<not> is_ws c" "c \<noteq> CHR '']''" "c \<noteq> CHR ''}''"
      by (rule dumps_first)
    then have "skip_ws (dumps_items i k vs @ CHR '']'' # r) = dumps_items i k vs @ CHR '']'' # r"
      "\<not> starts_with '']'' (dumps_items i k vs @ CHR '']'' # r)"
      by (simp_all add: Cons)
    then show ?thesis using 6 f Cons by simp
  qed
next
  case (7 i k ps)
  then obtain h where f: "f = Suc h" by (cases f) auto
  show ?case
  proof (cases ps)
    case Nil then show ?thesis using f by (simp add: not_ws_close)
  next
    case (Cons p qs)
    then have "skip_ws (dumps_members i k ps @ CHR ''}'' # r) = dumps_members i k ps @ CHR ''}'' # r"
      "\<not> starts_with ''}'' (dumps_members i k ps @ CHR ''}'' # r)"
      by (cases p; simp add: quote_str_def is_ws_not)+
    then show ?thesis using 7 f Cons by (simp add: dict_of_distinct)
  qed
next
  case (9 i k v vs)
  then obtain h where f: "f = Suc h" by (cases f) auto
  define t where "t = (case vs of [] \<Rightarrow> CHR '']'' # r | _ # _ \<Rightarrow> i @ dumps_items i k vs @ CHR '']'' # r)"
  have e: "dumps_items i k (v # vs) @ CHR '']'' # r = dumps_with i k v @ t"
    by (simp add: t_def split: list.split)
  have "ends_token t" using 9 by (auto simp: t_def ends_token_sep split: list.split)
  then have pv: "parse_value h (dumps_with i k v @ t) = Some (v, t)"
    using 9 f by (intro "9.IH") auto
  moreover have "parse_items h (dumps_items i k vs @ CHR '']'' # r) = Some (vs, r)" if ne: "vs \<noteq> []"
  proof -
    obtain w ws where vs: "vs = w # ws" using ne by (cases vs) auto
    obtain c j where "i = c # j" using 9 by (cases i) (auto simp: separators_def)
    then have "2 * length (dumps_items i k vs) + 1 < h" using "9.prems" f vs by simp
    then show ?thesis using 9 vs by (intro "9.IH"(2)) simp_all
  qed
  ultimately show ?case unfolding e f using 9 by (intro parse_items_step) (auto simp: t_def)
next
  case (11 i k n v ps)
  then obtain h where f: "f = Suc h" by (cases f) auto
  define t where "t = (case ps of [] \<Rightarrow> CHR ''}'' # r | _ # _ \<Rightarrow> i @ dumps_members i k ps @ CHR ''}'' # r)"
  have e: "dumps_members i k ((n, v) # ps) @ CHR ''}'' # r = quote_str n @ k @ dumps_with i k v @ t"
    by (simp add: t_def split: list.split)
  have "ends_token t" using 11 by (auto simp: t_def ends_token_sep split: list.split)
  then have "parse_value h (dumps_with i k v @ t) = Some (v, t)"
    using 11 f length_quote_str [of n] by (intro "11.IH") auto
  moreover have "parse_members h (dumps_members i k ps @ CHR ''}'' # r) = Some (ps, r)" if ne: "ps \<noteq> []"
  proof -
    obtain q qs where ps: "ps = q # qs" using ne by (cases ps) auto
    obtain c j where "i = c # j" using 11 by (cases i) (auto simp: separators_def)
    then have "2 * length (dumps_members i k ps) + 1 < h" using "11.prems" f ps by (cases q) simp
    then show ?thesis using 11 ps by (intro "11.IH"(2)) simp_all
  qed
  ultimately show ?case unfolding e f using 11 by (intro parse_members_step) (auto simp: t_def)
qed simp_all

lemma loads_dumps_with:
  assumes "separators i k" "json_plain v"
  shows "loads (dumps_with i k v) = Inr v"
proof -
  obtain c cs where c: "dumps_with i k v = c # cs" "\<not> is_ws c" using assms(2) by (rule dumps_first)
  then have s: "skip_ws (dumps_with i k v) = dumps_with i k v" by simp
  have "parse_value (Suc (2 * length (dumps_with i k v))) (dumps_with i k v) = Some (v, [])"
    using parse_written(1) [OF assms(1,2), of "[]" "Suc (2 * length (dumps_with i k v))"]
    by (simp del: parse_value.simps)
  moreover have "skip_ws [] = []" by (simp add: skip_ws_def)
  ultimately show ?thesis by (simp add: loads_def s del: parse_value.simps)
qed

lemma separators_default: "separators '', '' '': ''" "separators '','' '':''"
  by (simp_all add: separators_def is_ws_def)

lemma loads_dumps [simp]: "json_plain v \<Longrightarrow> loads (dumps v) = Inr v"
  by (simp add: dumps_def loads_dumps_with separators_default)

lemma loads_dumps_compact [simp]: "json_plain v \<Longrightarrow> loads (dumps_compact v) = Inr v"
  by (simp add: dumps_compact_def loads_dumps_with separators_default)

end
