(* ===== verification/Cache_Keys.thy ===== *)
theory Cache_Keys
  imports Py_Prelude
begin

text \<open>
  The keys of the response cache (cache_keys.py): one constructor per kind of entry, the
  normalisation of users and hashes, and the two readers that take a game id back out of a key.
  A game id argument is the text the source formats into the key.
\<close>

definition key_user_agent :: string where "key_user_agent = ''ua::last''"
definition key_auth_invalid_token :: string where "key_auth_invalid_token = ''auth::invalid_token''"
definition key_cache_budget :: string where "key_cache_budget = ''cachebudget''"
definition key_watch_scans :: string where "key_watch_scans = ''watchscans''"

definition prefix_login :: string where "prefix_login = ''login2::''"
definition prefix_patch :: string where "prefix_patch = ''patch:''"
definition prefix_unlocks :: string where "prefix_unlocks = ''unlocks:''"
definition prefix_startsession :: string where "prefix_startsession = ''startsession:''"
definition prefix_gameid :: string where "prefix_gameid = ''gameid:''"
definition prefix_achievementsets :: string where "prefix_achievementsets = ''achievementsets:''"
definition prefix_last_played :: string where "prefix_last_played = ''lastplayed:''"
definition prefix_cache_queue :: string where "prefix_cache_queue = ''cachequeue:''"
definition prefix_watch_seen :: string where "prefix_watch_seen = ''watchseen:''"

lemmas key_defs =
  key_user_agent_def key_auth_invalid_token_def key_cache_budget_def key_watch_scans_def
  prefix_login_def prefix_patch_def prefix_unlocks_def prefix_startsession_def prefix_gameid_def
  prefix_achievementsets_def prefix_last_played_def prefix_cache_queue_def prefix_watch_seen_def

definition normalize_hash :: "string \<Rightarrow> string" where
  "normalize_hash h = lower (strip h)"

definition normalize_user :: "string \<Rightarrow> string" where
  "normalize_user u = lower (strip u)"

definition normalize_achievementsets_scope :: "string \<Rightarrow> string" where
  "normalize_achievementsets_scope scope = normalize_hash scope"

definition login_key :: "string \<Rightarrow> string" where
  "login_key user = ''login2::'' @ normalize_user user"

definition game_id_key :: "string \<Rightarrow> string" where
  "game_id_key h = ''gameid:'' @ normalize_hash h"

definition patch_key :: "string \<Rightarrow> string \<Rightarrow> string" where
  "patch_key g user = ''patch:'' @ g @ '':'' @ normalize_user user"

definition patch_prefix :: "string \<Rightarrow> string" where
  "patch_prefix g = ''patch:'' @ g @ '':''"

definition unlocks_key :: "string \<Rightarrow> string \<Rightarrow> string" where
  "unlocks_key g user = ''unlocks:'' @ g @ '':'' @ normalize_user user @ '':0''"

definition start_session_key :: "string \<Rightarrow> string \<Rightarrow> string" where
  "start_session_key g user = ''startsession:'' @ g @ '':'' @ normalize_user user @ '':0''"

definition last_played_key :: "string \<Rightarrow> string" where
  "last_played_key g = ''lastplayed:'' @ g"

definition cache_queue_key :: "string \<Rightarrow> string" where
  "cache_queue_key h = ''cachequeue:'' @ normalize_hash h"

definition watch_seen_key :: "string \<Rightarrow> string" where
  "watch_seen_key path = prefix_watch_seen @ path"

definition achievementsets_key :: "string \<Rightarrow> string \<Rightarrow> string" where
  "achievementsets_key scope user =
     ''achievementsets:'' @ normalize_achievementsets_scope scope @ '':'' @ normalize_user user"

definition parse_game_id_from_patch_key :: "string \<Rightarrow> int option" where
  "parse_game_id_from_patch_key key =
     (if starts_with prefix_patch key then
        (let value = before CHR '':'' (removeprefix prefix_patch key)
         in if isdigit value then Some (int (nat_of_digits value)) else None)
      else None)"

definition parse_game_id_from_last_played_key :: "string \<Rightarrow> int option" where
  "parse_game_id_from_last_played_key key =
     (if starts_with prefix_last_played key then
        (let value = removeprefix prefix_last_played key
         in if isdigit value then Some (int (nat_of_digits value)) else None)
      else None)"

section \<open>Normalisation\<close>

lemma normalize_user_idem [simp]: "normalize_user (normalize_user u) = normalize_user u"
  by (simp add: normalize_user_def lower_strip)

lemma normalize_hash_idem [simp]: "normalize_hash (normalize_hash u) = normalize_hash u"
  by (simp add: normalize_hash_def lower_strip)

text \<open>Every key of one user or hash is the same whatever case and surrounding white space the
  client sent: the key constructors read their argument only through its normal form.\<close>

theorem keys_respect_normal_forms:
  "login_key u = login_key (normalize_user u) \<and>
   patch_key g u = patch_key g (normalize_user u) \<and>
   unlocks_key g u = unlocks_key g (normalize_user u) \<and>
   start_session_key g u = start_session_key g (normalize_user u) \<and>
   achievementsets_key g u = achievementsets_key (normalize_hash g) (normalize_user u) \<and>
   game_id_key h = game_id_key (normalize_hash h) \<and>
   cache_queue_key h = cache_queue_key (normalize_hash h)"
  by (simp add: login_key_def patch_key_def unlocks_key_def start_session_key_def
      achievementsets_key_def normalize_achievementsets_scope_def game_id_key_def cache_queue_key_def)

section \<open>Reading a key back\<close>

lemma parse_patch_key_text:
  "CHR '':'' \<notin> set g \<Longrightarrow> parse_game_id_from_patch_key (patch_key g u) =
     (if isdigit g then Some (int (nat_of_digits g)) else None)"
proof -
  assume g: "CHR '':'' \<notin> set g"
  have k: "patch_key g u = prefix_patch @ g @ CHR '':'' # normalize_user u"
    by (simp add: patch_key_def prefix_patch_def)
  show ?thesis unfolding parse_game_id_from_patch_key_def k using g by (simp add: Let_def)
qed

text \<open>The game id read from a patch key is the one the key was made for, and a negative id is
  never read back.\<close>

theorem patch_key_game_id:
  "parse_game_id_from_patch_key (patch_key (str_of_int g) u) = (if 0 \<le> g then Some g else None)"
  by (simp add: parse_patch_key_text)

theorem last_played_key_game_id:
  "parse_game_id_from_last_played_key (last_played_key (str_of_int g)) =
     (if 0 \<le> g then Some g else None)"
proof -
  have k: "last_played_key g = prefix_last_played @ g" for g
    by (simp add: last_played_key_def prefix_last_played_def)
  show ?thesis by (simp add: parse_game_id_from_last_played_key_def k Let_def)
qed

lemma colon_cut_inject:
  "CHR '':'' \<notin> set a \<Longrightarrow> CHR '':'' \<notin> set b \<Longrightarrow>
   a @ CHR '':'' # s = b @ CHR '':'' # t \<longleftrightarrow> a = b \<and> s = t"
  by (metis before_append after_append)

text \<open>The per-game keys of two games or two users collide only when game and normal user are
  the same, and keys of different kinds are never equal.\<close>

theorem game_keys_injective:
  "(patch_key (str_of_int g) u = patch_key (str_of_int h) w) = (g = h \<and> normalize_user u = normalize_user w) \<and>
   (unlocks_key (str_of_int g) u = unlocks_key (str_of_int h) w) = (g = h \<and> normalize_user u = normalize_user w) \<and>
   (start_session_key (str_of_int g) u = start_session_key (str_of_int h) w) =
     (g = h \<and> normalize_user u = normalize_user w) \<and>
   distinct [prefix_patch @ a, prefix_unlocks @ b, prefix_startsession @ c, prefix_gameid @ d,
     prefix_achievementsets @ e, prefix_login @ f, prefix_last_played @ i, prefix_cache_queue @ j,
     prefix_watch_seen @ k, key_user_agent, key_auth_invalid_token, key_cache_budget, key_watch_scans]"
  by (simp add: patch_key_def unlocks_key_def start_session_key_def colon_cut_inject key_defs)

end
