(* ===== verification/Cache_Budget.thy ===== *)
theory Cache_Budget
  imports Py_Json Cache_Keys
begin

text \<open>
  The budget window of cache_budget.py: how many games may be cached per half hour, the pause after
  a rate limit, and the JSON text the window is stored as.  Times are milliseconds; every operation
  takes the current time as an argument.
\<close>

definition CACHE_BUDGET_LIMIT :: int where "CACHE_BUDGET_LIMIT = 100"
definition CACHE_BUDGET_WINDOW_MS :: int where "CACHE_BUDGET_WINDOW_MS = 30 * 60 * 1000"
definition CACHE_BURST_GAMES :: int where "CACHE_BURST_GAMES = 20"
definition CACHE_BATCH_MAX_MS :: int where "CACHE_BATCH_MAX_MS = CACHE_BUDGET_WINDOW_MS"

record budget_window =
  window_start :: int
  used_games :: int
  paused_until :: int

definition fresh_window :: budget_window where
  "fresh_window = \<lparr>window_start = 0, used_games = 0, paused_until = 0\<rparr>"

definition window_expired :: "budget_window \<Rightarrow> int \<Rightarrow> int \<Rightarrow> bool" where
  "window_expired w now window_ms = (now < window_start w \<or> now - window_start w \<ge> window_ms)"

definition budget_current :: "budget_window \<Rightarrow> int \<Rightarrow> int \<Rightarrow> budget_window" where
  "budget_current w now window_ms =
     (if window_expired w now window_ms
      then \<lparr>window_start = now, used_games = 0, paused_until = paused_until w\<rparr> else w)"

definition budget_charge :: "budget_window \<Rightarrow> int \<Rightarrow> int \<Rightarrow> int \<Rightarrow> budget_window" where
  "budget_charge w now games window_ms =
     (let c = budget_current w now window_ms in c\<lparr>used_games := used_games c + games\<rparr>)"

definition budget_remaining :: "budget_window \<Rightarrow> int \<Rightarrow> int \<Rightarrow> int \<Rightarrow> int" where
  "budget_remaining w now limit window_ms =
     (if now < paused_until w then 0 else max 0 (limit - used_games (budget_current w now window_ms)))"

definition budget_next_available_at :: "budget_window \<Rightarrow> int \<Rightarrow> int \<Rightarrow> int \<Rightarrow> int" where
  "budget_next_available_at w now limit window_ms =
     (let c = budget_current w now window_ms;
          opens = (if used_games c < limit then now else window_start c + window_ms)
      in max (paused_until w) opens)"

definition budget_to_json :: "budget_window \<Rightarrow> string" where
  "budget_to_json w = dumps_compact (JObj
     [(''windowStart'', JInt (window_start w)), (''used'', JInt (used_games w)),
      (''pausedUntil'', JInt (paused_until w))])"

definition budget_from_json :: "string option \<Rightarrow> budget_window" where
  "budget_from_json body = catch
     (bind_res (loads (or_str body [])) (\<lambda>payload.
      bind_res (jget ''windowStart'' (JInt 0) payload) (\<lambda>a. bind_res (py_int_of a) (\<lambda>ws.
      bind_res (jget ''used'' (JInt 0) payload) (\<lambda>b. bind_res (py_int_of b) (\<lambda>us.
      bind_res (jget ''pausedUntil'' (JInt 0) payload) (\<lambda>c. bind_res (py_int_of c) (\<lambda>pu.
      Inr \<lparr>window_start = ws, used_games = us, paused_until = pu\<rparr>)))))))) fresh_window"

definition budget_pause_until :: "budget_window \<Rightarrow> int \<Rightarrow> budget_window" where
  "budget_pause_until w until = (if until > paused_until w then w\<lparr>paused_until := until\<rparr> else w)"

section \<open>Lemmas\<close>

lemma budget_current_started:
  "0 < window_ms \<Longrightarrow> window_start (budget_current w now window_ms) \<le> now \<and>
     now < window_start (budget_current w now window_ms) + window_ms"
  by (auto simp: budget_current_def window_expired_def)

lemma budget_current_idem: "0 < m \<Longrightarrow> budget_current (budget_current w now m) now m = budget_current w now m"
  by (auto simp: budget_current_def window_expired_def)

lemma paused_until_current [simp]: "paused_until (budget_current w now m) = paused_until w"
  by (simp add: budget_current_def)

lemma budget_remaining_pos_iff:
  "0 < budget_remaining w now limit m \<longleftrightarrow>
     paused_until w \<le> now \<and> used_games (budget_current w now m) < limit"
  by (auto simp: budget_remaining_def)

text \<open>Next_available_at is exact: from now until that moment no game may be cached, and at that
  moment one may, unless the clock was set back before the start of the window.\<close>

theorem budget_next_available_exact:
  assumes "0 < limit" "0 < m" "window_start w \<le> now"
  shows "now \<le> budget_next_available_at w now limit m \<and>
    0 < budget_remaining w (budget_next_available_at w now limit m) limit m \<and>
    (\<forall>t. now \<le> t \<and> t < budget_next_available_at w now limit m \<longrightarrow> budget_remaining w t limit m = 0)"
proof (cases "used_games (budget_current w now m) < limit")
  case True
  then show ?thesis using assms
    by (auto simp: budget_next_available_at_def budget_remaining_def budget_current_def
        window_expired_def Let_def split: if_splits)
next
  case False
  then have w: "budget_current w now m = w" "now < window_start w + m" "limit \<le> used_games w"
    using assms by (auto simp: budget_current_def window_expired_def split: if_splits)
  then have n: "budget_next_available_at w now limit m = max (paused_until w) (window_start w + m)"
    by (simp add: budget_next_available_at_def)
  have "budget_remaining w t limit m = 0" if "now \<le> t" "t < window_start w + m" for t
    using that w assms by (simp add: budget_remaining_def budget_current_def window_expired_def)
  then show ?thesis unfolding n using w assms
    by (auto simp: budget_remaining_def budget_current_def window_expired_def)
qed

theorem budget_next_available_exact_witness:
  "budget_remaining \<lparr>window_start = 0, used_games = 100, paused_until = 5\<rparr> 1799999 100 1800000 = 0"
  using budget_next_available_exact [of 100 1800000 "\<lparr>window_start = 0, used_games = 100, paused_until = 5\<rparr>" 7]
  by (simp add: budget_next_available_at_def budget_current_def window_expired_def)

text \<open>The stored text of a window reads back as the window.\<close>

theorem budget_json_round_trip: "budget_from_json (Some (budget_to_json w)) = w"
proof -
  have "loads (budget_to_json w) = Inr (JObj [(''windowStart'', JInt (window_start w)),
      (''used'', JInt (used_games w)), (''pausedUntil'', JInt (paused_until w))])"
    unfolding budget_to_json_def by (rule loads_dumps_compact) (simp add: is_ascii_def)
  moreover have "budget_to_json w \<noteq> []" by (simp add: budget_to_json_def dumps_compact_def)
  ultimately show ?thesis by (simp add: budget_from_json_def or_str_def)
qed

lemma budget_from_json_None: "budget_from_json None = fresh_window"
  by (simp add: budget_from_json_def or_str_def loads_def skip_ws_def)

section \<open>Games per half hour\<close>

text \<open>One attempt to cache a game: it is charged when the budget allows it.  The log holds the
  times of the charged games, newest first.\<close>

definition budget_attempt ::
  "int \<Rightarrow> int \<Rightarrow> int \<Rightarrow> budget_window \<times> int list \<Rightarrow> budget_window \<times> int list" where
  "budget_attempt limit m now s = (case s of (w, log) \<Rightarrow>
     (if 0 < budget_remaining w now limit m then (budget_charge w now 1 m, now # log) else (w, log)))"

definition in_span :: "int \<Rightarrow> int \<Rightarrow> int list \<Rightarrow> int" where
  "in_span a b log = int (length (filter (\<lambda>t. a \<le> t \<and> t < b) log))"

lemma in_span_simps [simp]:
  "in_span a b [] = 0"
  "in_span a b (t # log) = (if a \<le> t \<and> t < b then 1 else 0) + in_span a b log"
  by (auto simp: in_span_def)

lemma in_span_nonneg: "0 \<le> in_span a b log"
  by (simp add: in_span_def)

lemma in_span_mono: "a' \<le> a \<Longrightarrow> b \<le> b' \<Longrightarrow> in_span a b log \<le> in_span a' b' log"
  by (induction log) auto

lemma in_span_split: "a \<le> b \<Longrightarrow> b \<le> c \<Longrightarrow> in_span a c log = in_span a b log + in_span b c log"
  by (induction log) auto

lemma in_span_cut: "\<forall>t \<in> set log. t < b \<Longrightarrow> b \<le> c \<Longrightarrow> in_span a c log = in_span a b log"
  by (induction log) auto

definition budget_log_inv :: "int \<Rightarrow> int \<Rightarrow> int \<Rightarrow> budget_window \<times> int list \<Rightarrow> bool" where
  "budget_log_inv limit m now s = (case s of (w, log) \<Rightarrow>
     window_start w \<le> now \<and> (\<forall>t \<in> set log. t \<le> now \<and> t < window_start w + m) \<and>
     in_span (window_start w) (now + 1) log \<le> used_games w \<and> used_games w \<le> limit \<and>
     in_span (window_start w - m) (window_start w) log \<le> limit \<and>
     (\<forall>a. in_span a (a + m) log \<le> 2 * limit))"

lemma in_span_empty: "\<forall>x \<in> set log. x < a \<Longrightarrow> in_span a b log = 0"
  by (induction log) auto

lemma budget_log_inv_current:
  assumes inv: "budget_log_inv limit m now (w, log)" and "now \<le> t" "0 < m" "0 \<le> limit"
  shows "budget_log_inv limit m t (budget_current w t m, log)"
proof (cases "window_expired w t m")
  case False
  have "in_span (window_start w) (t + 1) log = in_span (window_start w) (now + 1) log"
    using inv assms by (intro in_span_cut) (auto simp: budget_log_inv_def)
  then show ?thesis using False inv assms by (auto simp: budget_current_def budget_log_inv_def)
next
  case True
  note I = inv [unfolded budget_log_inv_def prod.case]
  from True I assms have late: "window_start w + m \<le> t" by (auto simp: window_expired_def)
  have "in_span t (t + 1) log = 0" using I late by (intro in_span_empty) auto
  moreover have "in_span (t - m) t log \<le> limit"
  proof -
    have "in_span (t - m) t log \<le> in_span (window_start w) (t + 1) log"
      using late by (intro in_span_mono) auto
    also have "\<dots> = in_span (window_start w) (now + 1) log"
      using I assms by (intro in_span_cut) auto
    finally show ?thesis using I by simp
  qed
  moreover have "\<forall>x \<in> set log. x \<le> t \<and> x < t + m" using I assms by fastforce
  ultimately show ?thesis using True I assms by (simp add: budget_current_def budget_log_inv_def)
qed

lemma budget_log_inv_charged:
  assumes inv: "budget_log_inv limit m t (c, log)" and "used_games c < limit" "0 < m"
    and start: "window_start c \<le> t" "t < window_start c + m"
  shows "budget_log_inv limit m t (c\<lparr>used_games := used_games c + 1\<rparr>, t # log)"
proof -
  note I = inv [unfolded budget_log_inv_def prod.case]
  have "in_span a (a + m) (t # log) \<le> 2 * limit" for a
  proof (cases "a \<le> t \<and> t < a + m")
    case False
    then show ?thesis using I by auto
  next
    case True
    have cut: "in_span a (a + m) log = in_span a (t + 1) log"
      using I True by (intro in_span_cut) auto
    show ?thesis
    proof (cases "window_start c \<le> a")
      case above: True
      then have "in_span a (t + 1) log \<le> in_span (window_start c) (t + 1) log"
        by (intro in_span_mono) auto
      then show ?thesis using I True cut assms in_span_nonneg [of a "t + 1" log] by simp
    next
      case False
      then have "in_span a (t + 1) log = in_span a (window_start c) log + in_span (window_start c) (t + 1) log"
        using start by (intro in_span_split) auto
      moreover have "in_span a (window_start c) log \<le> in_span (window_start c - m) (window_start c) log"
        using True start by (intro in_span_mono) auto
      ultimately show ?thesis using I True cut assms by simp
    qed
  qed
  then show ?thesis using I start assms by (simp add: budget_log_inv_def)
qed

lemma budget_log_inv_attempt:
  assumes inv: "budget_log_inv limit m now s" and t: "now \<le> t" "0 < m" "0 \<le> limit"
  shows "budget_log_inv limit m t (budget_attempt limit m t s)"
proof -
  obtain w log where s: "s = (w, log)" by (cases s)
  have cur: "budget_log_inv limit m t (budget_current w t m, log)"
    using budget_log_inv_current inv t by (simp add: s)
  show ?thesis
  proof (cases "0 < budget_remaining w t limit m")
    case True
    then have "used_games (budget_current w t m) < limit" by (simp add: budget_remaining_pos_iff)
    from budget_log_inv_charged [OF cur this] budget_current_started [of m w t] t True
    show ?thesis by (simp add: s budget_attempt_def budget_charge_def Let_def)
  next
    case False
    have "in_span (window_start w) (t + 1) log = in_span (window_start w) (now + 1) log"
      using inv t by (intro in_span_cut) (auto simp: s budget_log_inv_def)
    then show ?thesis using False inv t by (auto simp: s budget_attempt_def budget_log_inv_def)
  qed
qed

lemma budget_log_inv_run:
  "sorted ts \<Longrightarrow> \<forall>t \<in> set ts. now \<le> t \<Longrightarrow> 0 < m \<Longrightarrow> 0 \<le> limit \<Longrightarrow> budget_log_inv limit m now s \<Longrightarrow>
   \<exists>t'. budget_log_inv limit m t' (fold (budget_attempt limit m) ts s)"
proof (induction ts arbitrary: now s)
  case (Cons t ts)
  then have "budget_log_inv limit m t (budget_attempt limit m t s)"
    by (intro budget_log_inv_attempt [of limit m now]) auto
  with Cons.IH [of t "budget_attempt limit m t s"] Cons.prems show ?case by simp
qed auto

text \<open>C29: however the attempts to cache games are spread over time, the budget lets at most twice its
  limit through in any stretch as long as its window, and at most its limit in one window.\<close>

theorem budget_bounds_any_half_hour:
  assumes "sorted ts" "\<forall>t \<in> set ts. 0 \<le> t" "0 < m" "0 \<le> limit"
    and run: "fold (budget_attempt limit m) ts (fresh_window, []) = (w, log)"
  shows "in_span a (a + m) log \<le> 2 * limit \<and> in_span (window_start w) (window_start w + m) log \<le> limit"
proof -
  have "budget_log_inv limit m 0 (fresh_window, [])"
    using assms by (simp add: budget_log_inv_def fresh_window_def)
  then obtain now where inv: "budget_log_inv limit m now (w, log)"
    using budget_log_inv_run [OF assms(1,2,3,4)] run by metis
  note I = inv [unfolded budget_log_inv_def prod.case]
  have "in_span (window_start w) (window_start w + m) log \<le> in_span (window_start w) (max (now + 1) (window_start w + m)) log"
    by (intro in_span_mono) auto
  also have "\<dots> = in_span (window_start w) (now + 1) log"
    using I by (intro in_span_cut) auto
  finally show ?thesis using I by auto
qed

theorem budget_bounds_any_half_hour_witness:
  "in_span 5 (5 + 10) (snd (fold (budget_attempt 1 10) [5, 6, 14, 15] (fresh_window, []))) \<le> 2 * 1"
proof -
  have run: "fold (budget_attempt 1 10) [5, 6, 14, 15] (fresh_window, []) =
      (\<lparr>window_start = 14, used_games = 1, paused_until = 0\<rparr>, [14, 5])"
    by (simp add: budget_attempt_def budget_remaining_def budget_current_def window_expired_def
        budget_charge_def fresh_window_def)
  have "in_span 5 (5 + 10) [14, 5] \<le> 2 * 1 \<and>
      in_span (window_start \<lparr>window_start = 14, used_games = 1, paused_until = 0\<rparr>)
        (window_start \<lparr>window_start = 14, used_games = 1, paused_until = 0\<rparr> + 10) [14, 5] \<le> 1"
    by (rule budget_bounds_any_half_hour [OF _ _ _ _ run]) simp_all
  then show ?thesis by (simp only: run snd_conv)
qed

end
