(* ===== verification/Game_Meta.thy ===== *)
theory Game_Meta
  imports Py_Json Cache_Keys
begin

text \<open>
  Title, icon and game id of a cached game, read from a cached response (game_meta.py).  A reader
  that calls get on a value that is no dict outside its try block raises, so the result is a sum.
\<close>

record game_info =
  gi_key :: string
  gi_game_id :: int
  gi_title :: json
  gi_image :: json

definition quoted :: "string \<Rightarrow> string" where
  "quoted s = dquote # s @ [dquote]"

definition lit :: "string \<Rightarrow> string \<Rightarrow> string option" where
  "lit p s = (if starts_with p s then Some (lstrip (drop (length p) s)) else None)"

definition lit_then :: "string \<Rightarrow> (string \<Rightarrow> 'a option) \<Rightarrow> string \<Rightarrow> 'a option" where
  "lit_then p k s = (case lit p s of None \<Rightarrow> None | Some r \<Rightarrow> k r)"

text \<open>The pattern of a body that starts with Success and GameId.\<close>

definition leading_game_id :: "string \<Rightarrow> nat option" where
  "leading_game_id body =
     lit_then ''{'' (lit_then (quoted ''Success'') (lit_then '':'' (\<lambda>s.
       let k = lit_then '','' (lit_then (quoted ''GameId'') (lit_then '':'' (\<lambda>r.
             let ds = takeWhile is_digit r in if ds = [] then None else Some (nat_of_digits ds))))
       in (case lit ''true'' s of Some r \<Rightarrow> k r
           | None \<Rightarrow> (case lit ''false'' s of Some r \<Rightarrow> k r | None \<Rightarrow> None))))) body"

definition achievementsets_game_id :: "string \<Rightarrow> int option" where
  "achievementsets_game_id body = (case leading_game_id body of
       Some n \<Rightarrow> if n > 0 then Some (int n) else None
     | None \<Rightarrow>
        (case bind_res (loads body) (jget ''GameId'' JNull) of
           Inl e \<Rightarrow> None
         | Inr g \<Rightarrow> (case as_int g of Some i \<Rightarrow> if i > 0 then Some i else None | None \<Rightarrow> None)))"

definition py_or :: "json \<Rightarrow> json \<Rightarrow> json" where
  "py_or a b = (if truthy a then a else b)"

definition game_title_default :: "int \<Rightarrow> json" where
  "game_title_default g = JStr (''Game '' @ str_of_int g)"

text \<open>get of one key, and of a second one when the first value is falsy.\<close>

definition jget_or :: "string \<Rightarrow> string \<Rightarrow> json \<Rightarrow> json res" where
  "jget_or a b v = bind_res (jget a JNull v) (\<lambda>x. if truthy x then Inr x else jget b JNull v)"

definition patch_data :: "string \<Rightarrow> json" where
  "patch_data body = catch (bind_res (loads body) (\<lambda>v.
     bind_res (jget ''PatchData'' JNull v) (\<lambda>d. Inr (py_or d (JObj []))))) (JObj [])"

definition patch_meta :: "string \<Rightarrow> string \<Rightarrow> game_info option res" where
  "patch_meta key body = (case parse_game_id_from_patch_key key of
       None \<Rightarrow> Inr None
     | Some g \<Rightarrow>
        bind_res (jget ''Title'' JNull (patch_data body)) (\<lambda>t.
        bind_res (jget_or ''ImageIcon'' ''ImageBoxArt'' (patch_data body)) (\<lambda>i.
        Inr (Some \<lparr>gi_key = key, gi_game_id = g, gi_title = py_or t (game_title_default g), gi_image = i\<rparr>))))"

definition achievementsets_meta :: "string \<Rightarrow> string \<Rightarrow> game_info option res" where
  "achievementsets_meta key body = (case loads body of
       Inl e \<Rightarrow> Inr None
     | Inr payload \<Rightarrow>
        bind_res (jget ''GameId'' JNull payload) (\<lambda>gv.
        case as_int gv of
          None \<Rightarrow> Inr None
        | Some g \<Rightarrow>
           if g \<le> 0 then Inr None
           else bind_res (jget ''Title'' JNull payload) (\<lambda>t.
                bind_res (jget_or ''ImageIcon'' ''ImageIconUrl'' payload) (\<lambda>i.
                Inr (Some \<lparr>gi_key = key, gi_game_id = g, gi_title = py_or t (game_title_default g),
                  gi_image = i\<rparr>)))))"

definition game_meta_for_entry :: "string \<Rightarrow> string \<Rightarrow> game_info option res" where
  "game_meta_for_entry key body =
     (if starts_with prefix_patch key then patch_meta key body
      else if starts_with prefix_achievementsets key then achievementsets_meta key body
      else Inr None)"

definition is_game_meta_key :: "string \<Rightarrow> bool" where
  "is_game_meta_key key = (starts_with prefix_patch key \<or> starts_with prefix_achievementsets key)"

section \<open>Lemmas\<close>

lemma game_info_key: "game_meta_for_entry key body = Inr (Some m) \<Longrightarrow> gi_key m = key"
  by (auto simp: game_meta_for_entry_def patch_meta_def achievementsets_meta_def res_simps Let_def
      split: if_splits option.splits sum.splits)

lemma game_info_id_nonneg: "game_meta_for_entry key body = Inr (Some m) \<Longrightarrow> 0 \<le> gi_game_id m"
  by (auto simp: game_meta_for_entry_def patch_meta_def achievementsets_meta_def res_simps Let_def
      parse_game_id_from_patch_key_def split: if_splits option.splits sum.splits)

lemma jget_obj: "is_obj v \<Longrightarrow> \<exists>x. jget k d v = Inr x"
  by (cases v) (auto simp: is_obj_def)

lemma jget_or_obj: "is_obj v \<Longrightarrow> \<exists>x. jget_or a b v = Inr x"
  using jget_obj [of v a JNull] jget_obj [of v b JNull] by (auto simp: jget_or_def)

text \<open>The metadata of a patch whose PatchData, when present, is an object never raises.\<close>

lemma patch_meta_total: "is_obj (patch_data body) \<Longrightarrow> \<exists>m. patch_meta key body = Inr m"
  using jget_obj [of "patch_data body" "''Title''" JNull]
    jget_or_obj [of "patch_data body" "''ImageIcon''" "''ImageBoxArt''"]
  by (auto simp: patch_meta_def split: option.split)

section \<open>The fast reader agrees with the parser\<close>

lemma lstrip_ws: "list_all is_ws w \<Longrightarrow> lstrip (w @ s) = lstrip s"
  by (induction w) (auto simp: lstrip_def is_ws_def is_space_def)

lemma lstrip_id: "\<not> is_space c \<Longrightarrow> lstrip (c # s) = c # s"
  by (simp add: lstrip_def)

lemma lit_append [simp]: "lit p (p @ s) = Some (lstrip s)"
  by (simp add: lit_def)

lemma lit_then_append [simp]: "lit_then p k (p @ s) = k (lstrip s)"
  by (simp add: lit_then_def)

lemma lit_then_Cons [simp]: "lit_then [c] k (c # s) = k (lstrip s)"
  using lit_then_append [of "[c]" k s] by simp

lemma quote_str_plain: "list_all is_alnum s \<Longrightarrow> quote_str s = quoted s"
proof -
  have "escape_chars s = s" if "list_all is_alnum s" for s
    using that
  proof (induction s)
    case (Cons c s)
    then have "c \<noteq> dquote" "c \<noteq> backslash" "code c < 127" "\<not> code c < 32"
      by (auto simp: is_alnum_def is_digit_def is_upper_def is_lower_def)
    then show ?case using Cons by (simp add: escape_ascii_def)
  qed simp
  then show "list_all is_alnum s \<Longrightarrow> quote_str s = quoted s" by (simp add: quote_str_def quoted_def)
qed

lemma lstrip_quoted: "lstrip (quoted s @ t) = quoted s @ t"
  by (simp add: quoted_def lstrip_id is_space_def)

lemma not_space_punct: "\<not> is_space CHR '':''" "\<not> is_space CHR '',''" "\<not> is_space CHR ''t''"
  "\<not> is_space CHR ''f''" "\<not> is_space CHR ''}''"
  by (simp_all add: is_space_def)

lemma leading_game_id_written:
  assumes sep: "separators i k" and r: "ends_token r"
  shows "leading_game_id (''{'' @ quoted ''Success'' @ k @ (if b then ''true'' else ''false'') @ i @
      quoted ''GameId'' @ k @ str_of_int g @ r) = (if 0 \<le> g then Some (nat g) else None)"
proof -
  obtain u where u: "i = CHR '','' # u" "list_all is_ws u" using separators_item [OF sep] .
  obtain w where w: "k = CHR '':'' # w" "list_all is_ws w" using separators_key [OF sep] .
  define t where "t = quoted ''GameId'' @ k @ str_of_int g @ r"
  have key: "lit_then (quoted ''GameId'') (lit_then '':'' K) (lstrip (u @ t)) = K (lstrip (str_of_int g @ r))" for K
    using u w by (simp add: t_def lstrip_ws lstrip_quoted lstrip_id not_space_punct)
  have success: "lit_then (quoted ''Success'') (lit_then '':'' K) (lstrip (quoted ''Success'' @ k @ s)) = K (lstrip s)" for K s
    using w by (simp add: lstrip_ws lstrip_quoted lstrip_id not_space_punct)
  have num: "(let ds = takeWhile is_digit (lstrip (str_of_int g @ r))
        in if ds = [] then None else Some (nat_of_digits ds)) = (if 0 \<le> g then Some (nat g) else None)"
  proof (cases "0 \<le> g")
    case True
    then obtain c cs where "str_of_nat (nat g) = c # cs" "is_digit c" by (rule_tac str_of_nat_Cons)
    then have "lstrip (str_of_int g @ r) = str_of_nat (nat g) @ r"
      using True by (simp add: str_of_int_def lstrip_id digit_not_space)
    then show ?thesis using True r by (simp add: takeWhile_str_of_nat)
  next
    case False
    then show ?thesis by (simp add: str_of_int_def lstrip_def is_space_def is_digit_def)
  qed
  have b: "lstrip (''true'' @ i @ t) = ''true'' @ i @ t" "lstrip (''false'' @ i @ t) = ''false'' @ i @ t"
    by (simp_all add: lstrip_id not_space_punct)
  have i: "lstrip (i @ t) = CHR '','' # u @ t" using u by (simp add: lstrip_id not_space_punct)
  have "lit ''true'' (''true'' @ i @ t) = Some (CHR '','' # u @ t)"
    "lit ''false'' (''false'' @ i @ t) = Some (CHR '','' # u @ t)"
    "lit ''true'' (''false'' @ i @ t) = None"
    using i by (simp_all add: lit_def)
  then show ?thesis
    unfolding leading_game_id_def t_def [symmetric]
    using num by (cases b) (simp_all add: success key b Let_def del: append.simps append_Cons)
qed

text \<open>On a response that starts with Success and GameId, in either layout json.dumps writes, the
  fast reader finds the game id the full parse finds.\<close>

theorem fast_game_id_agrees:
  assumes "separators i k" "json_plain (JObj v)"
    and "v = (''Success'', JBool b) # (''GameId'', JInt g) # rest"
  shows "achievementsets_game_id (dumps_with i k (JObj v)) =
    (case bind_res (loads (dumps_with i k (JObj v))) (jget ''GameId'' JNull) of
       Inl e \<Rightarrow> None
     | Inr gv \<Rightarrow> (case as_int gv of Some n \<Rightarrow> if n > 0 then Some n else None | None \<Rightarrow> None))"
proof -
  define r where "r = (case rest of [] \<Rightarrow> [] | _ # _ \<Rightarrow> i @ dumps_members i k rest) @ ''}''"
  have q: "quote_str ''Success'' = quoted ''Success''" "quote_str ''GameId'' = quoted ''GameId''"
    by (rule quote_str_plain, simp add: is_alnum_def is_upper_def is_lower_def)+
  have "dumps_with i k (JObj v) = ''{'' @ quoted ''Success'' @ k @ (if b then ''true'' else ''false'') @ i @
      quoted ''GameId'' @ k @ str_of_int g @ r"
    using q by (simp add: assms(3) r_def)
  moreover have "ends_token r"
    using ends_token_sep [OF assms(1)] by (auto simp: r_def split: list.split)
  ultimately have lead: "leading_game_id (dumps_with i k (JObj v)) = (if 0 \<le> g then Some (nat g) else None)"
    using leading_game_id_written [OF assms(1)] by simp
  have "loads (dumps_with i k (JObj v)) = Inr (JObj v)" by (rule loads_dumps_with) (use assms in auto)
  then have "bind_res (loads (dumps_with i k (JObj v))) (jget ''GameId'' JNull) = Inr (JInt g)"
    by (simp add: assms(3))
  then show ?thesis using lead by (simp add: achievementsets_game_id_def)
qed

theorem fast_game_id_agrees_witness:
  "achievementsets_game_id (dumps (JObj [(''Success'', JBool True), (''GameId'', JInt 1447)])) = Some 1447"
proof -
  have p: "json_plain (JObj [(''Success'', JBool True), (''GameId'', JInt 1447)])"
    by (simp add: is_ascii_def)
  then have "loads (dumps_with '', '' '': '' (JObj [(''Success'', JBool True), (''GameId'', JInt 1447)])) =
      Inr (JObj [(''Success'', JBool True), (''GameId'', JInt 1447)])"
    by (rule loads_dumps_with [OF separators_default(1)])
  then show ?thesis
    using fast_game_id_agrees [OF separators_default(1) p, of True 1447 "[]"] by (simp add: dumps_def)
qed

end
