(* ===== verification/Storage.thy ===== *)
theory Storage
  imports Game_Meta "HOL-Library.Product_Lexorder"
begin

text \<open>
  The response cache and the queue of pending awards (storage.py) with the exported list of cached
  game ids (es_export.py).  One record holds both back ends: is_sqlite selects the branch every
  operation takes.  The SQLite branch is the meaning of its statements on tables kept in row order
  (LIKE, the unique keys, the two triggers on cached_game_meta); the JSON branch works on the lists
  of the JSON document.  A select without an order yields rows in row order here; the statements
  proved do not depend on that order.
\<close>

record cache_entry =
  ce_id :: int
  ce_key :: string
  ce_body :: string
  ce_source :: "string option"
  ce_cached_at :: int
  ce_first_cached_at :: int

record award =
  aw_id :: int
  aw_achievement :: int
  aw_query :: string
  aw_body :: string
  aw_user_agent :: string
  aw_queued_at :: int
  aw_retries :: int
  aw_error :: "string option"
  aw_status :: string
  aw_payload_hash :: string
  aw_prev_hash :: string
  aw_signature :: string
  aw_signed_at :: int

text \<open>An award as a caller hands it over: what it leaves out has a default.\<close>

record award_dict =
  ad_id :: "int option"
  ad_achievement :: int
  ad_query :: string
  ad_body :: string
  ad_user_agent :: string
  ad_queued_at :: int
  ad_retries :: "int option"
  ad_error :: "string option"
  ad_status :: "string option"
  ad_payload_hash :: "string option"
  ad_prev_hash :: "string option"
  ad_signature :: "string option"
  ad_signed_at :: "int option"

record meta_row =
  mr_key :: string
  mr_game_id :: "int option"
  mr_title :: json
  mr_image :: json

record store =
  is_sqlite :: bool
  api_cache :: "cache_entry list"
  pending_awards :: "award list"
  meta_rows :: "meta_row list"
  next_cache_id :: int
  next_award_id :: int
  cached_ids_file :: "string option"

definition STATUS_PENDING :: string where "STATUS_PENDING = ''pending''"
definition STATUS_DELETED :: string where "STATUS_DELETED = ''deleted''"
definition STATUS_STALE :: string where "STATUS_STALE = ''stale''"
definition STATUS_FLUSHED :: string where "STATUS_FLUSHED = ''flushed''"
definition WARNING_ACHIEVEMENT_ID :: int where "WARNING_ACHIEVEMENT_ID = 101000001"

section \<open>Selecting rows\<close>

text \<open>The LIKE operator: case is ignored, an underscore is any character, a percent sign any text.\<close>

fun like :: "string \<Rightarrow> string \<Rightarrow> bool" where
  "like [] s = (s = [])"
| "like (p # ps) [] = (p = CHR ''%'' \<and> like ps [])"
| "like (p # ps) (c # cs) =
     (if p = CHR ''%'' then like ps (c # cs) \<or> like (p # ps) cs
      else (p = CHR ''_'' \<or> lower_char p = lower_char c) \<and> like ps cs)"

definition key_match :: "store \<Rightarrow> string \<Rightarrow> string \<Rightarrow> bool" where
  "key_match st prefix key = (if is_sqlite st then like (prefix @ ''%'') key else starts_with prefix key)"

fun update_first :: "('a \<Rightarrow> bool) \<Rightarrow> ('a \<Rightarrow> 'a) \<Rightarrow> 'a list \<Rightarrow> 'a list" where
  "update_first P f [] = []"
| "update_first P f (x # xs) = (if P x then f x # xs else x # update_first P f xs)"

definition next_json_id :: "int list \<Rightarrow> int" where
  "next_json_id ids = (case ids of [] \<Rightarrow> 1 | i # is \<Rightarrow> fold max is i + 1)"

definition get_cache :: "store \<Rightarrow> string \<Rightarrow> cache_entry option" where
  "get_cache st key = find (\<lambda>e. ce_key e = key) (api_cache st)"

definition get_cache_by_prefix :: "store \<Rightarrow> string \<Rightarrow> cache_entry option" where
  "get_cache_by_prefix st prefix = find (\<lambda>e. key_match st prefix (ce_key e)) (api_cache st)"

definition json_entries_by_prefix :: "store \<Rightarrow> string \<Rightarrow> cache_entry list" where
  "json_entries_by_prefix st prefix = filter (\<lambda>e. starts_with prefix (ce_key e)) (api_cache st)"

definition iter_cache_by_prefix :: "store \<Rightarrow> string \<Rightarrow> cache_entry list" where
  "iter_cache_by_prefix st prefix =
     (if is_sqlite st
      then concat (map (\<lambda>i. filter (\<lambda>e. ce_id e = i) (api_cache st))
             (map ce_id (filter (\<lambda>e. like (prefix @ ''%'') (ce_key e)) (api_cache st))))
      else json_entries_by_prefix st prefix)"

text \<open>A summary is an entry whose body is not read.\<close>

definition cache_summaries_by_prefix :: "store \<Rightarrow> string \<Rightarrow> cache_entry list" where
  "cache_summaries_by_prefix st prefix =
     map (\<lambda>e. e\<lparr>ce_body := []\<rparr>) (filter (\<lambda>e. key_match st prefix (ce_key e)) (api_cache st))"

definition cache_keys_by_prefix :: "store \<Rightarrow> string \<Rightarrow> string list" where
  "cache_keys_by_prefix st prefix = filter (key_match st prefix) (map ce_key (api_cache st))"

definition count_cache_by_prefix :: "store \<Rightarrow> string \<Rightarrow> int" where
  "count_cache_by_prefix st prefix =
     int (length (filter (\<lambda>e. key_match st prefix (ce_key e)) (api_cache st)))"

definition oldest_cache_by_prefix :: "store \<Rightarrow> string \<Rightarrow> cache_entry option" where
  "oldest_cache_by_prefix st prefix =
     (case sort_key (\<lambda>e. (ce_first_cached_at e, ce_id e))
             (filter (\<lambda>e. key_match st prefix (ce_key e)) (api_cache st)) of
        [] \<Rightarrow> None | e # _ \<Rightarrow> Some e)"

section \<open>Game metadata and the exported ids\<close>

definition game_meta_row :: "string \<Rightarrow> string \<Rightarrow> meta_row res" where
  "game_meta_row key body = bind_res (game_meta_for_entry key body) (\<lambda>m. Inr (case m of
       None \<Rightarrow> \<lparr>mr_key = key, mr_game_id = None, mr_title = JNull, mr_image = JNull\<rparr>
     | Some i \<Rightarrow> \<lparr>mr_key = key, mr_game_id = Some (gi_game_id i), mr_title = gi_title i,
         mr_image = gi_image i\<rparr>))"

definition insert_game_meta :: "meta_row \<Rightarrow> meta_row list \<Rightarrow> meta_row list" where
  "insert_game_meta m ms = filter (\<lambda>x. mr_key x \<noteq> mr_key m) ms @ [m]"

definition row_info :: "meta_row \<Rightarrow> game_info option" where
  "row_info m = (case mr_game_id m of
       None \<Rightarrow> None
     | Some g \<Rightarrow> if g > 0 then Some \<lparr>gi_key = mr_key m, gi_game_id = g, gi_title = mr_title m,
         gi_image = mr_image m\<rparr> else None)"

definition cached_game_meta :: "store \<Rightarrow> int option \<Rightarrow> game_info list res" where
  "cached_game_meta st game_id =
     (let wanted = filter (\<lambda>i. case game_id of None \<Rightarrow> True | Some g \<Rightarrow> gi_game_id i = g) in
      if is_sqlite st then Inr (wanted (List.map_filter row_info (meta_rows st)))
      else bind_res (map_res (\<lambda>e. game_meta_for_entry (ce_key e) (ce_body e))
             (json_entries_by_prefix st prefix_patch @ json_entries_by_prefix st prefix_achievementsets))
           (\<lambda>ms. Inr (wanted (List.map_filter id ms))))"

definition key_affects_cached_game_ids :: "string option \<Rightarrow> bool" where
  "key_affects_cached_game_ids key = (case key of None \<Rightarrow> True | Some k \<Rightarrow> is_game_meta_key k)"

definition split_ws :: "string \<Rightarrow> string list" where
  "split_ws s = filter (\<lambda>w. w \<noteq> []) (split_on CHR '' '' (map (\<lambda>c. if is_space c then CHR '' '' else c) s))"

definition read_ids :: "string \<Rightarrow> int list" where
  "read_ids text = map (\<lambda>w. int (nat_of_digits w)) (filter isdigit (split_ws text))"

definition ids_text :: "int list \<Rightarrow> string" where
  "ids_text ids = concat (map (\<lambda>i. str_of_int i @ [newline]) (sort (remdups ids)))"

definition write_ids :: "int list \<Rightarrow> store \<Rightarrow> store" where
  "write_ids ids st = st\<lparr>cached_ids_file := Some (ids_text ids)\<rparr>"

definition collect_cached_game_ids :: "store \<Rightarrow> int list res" where
  "collect_cached_game_ids st = bind_res (cached_game_meta st None) (\<lambda>ms. Inr (map gi_game_id ms))"

definition export_cached_game_ids :: "store \<Rightarrow> store" where
  "export_cached_game_ids st = (case collect_cached_game_ids st of
       Inl e \<Rightarrow> st
     | Inr ids \<Rightarrow> write_ids ids st)"

definition game_id_for_entry :: "string \<Rightarrow> string \<Rightarrow> int option" where
  "game_id_for_entry key body =
     (if starts_with prefix_patch key then parse_game_id_from_patch_key key else achievementsets_game_id body)"

definition add_cached_game_id :: "string \<Rightarrow> string \<Rightarrow> store \<Rightarrow> store" where
  "add_cached_game_id key body st = (case game_id_for_entry key body of
       None \<Rightarrow> st
     | Some g \<Rightarrow>
        (case cached_ids_file st of
           None \<Rightarrow> export_cached_game_ids st
         | Some text \<Rightarrow> if g \<in> set (read_ids text) then st else write_ids (g # read_ids text) st))"

definition after_cache_mutation :: "string option list \<Rightarrow> store \<Rightarrow> store" where
  "after_cache_mutation keys st =
     (if \<exists>k \<in> set keys. key_affects_cached_game_ids k then export_cached_game_ids st else st)"

section \<open>Changing the cache\<close>

definition sqlite_upsert_row ::
  "string \<Rightarrow> string \<Rightarrow> string option \<Rightarrow> int \<Rightarrow> store \<Rightarrow> store" where
  "sqlite_upsert_row key body source now st =
     (let existing = get_cache st key;
          first = (case existing of Some e \<Rightarrow> ce_first_cached_at e | None \<Rightarrow> now);
          old_source = (case existing of Some e \<Rightarrow> ce_source e | None \<Rightarrow> None);
          new_source = (case source of Some s \<Rightarrow> if s = [] then old_source else Some s | None \<Rightarrow> old_source)
      in case existing of
           Some _ \<Rightarrow> st\<lparr>api_cache := map (\<lambda>e. if ce_key e = key
               then e\<lparr>ce_body := body,
                      ce_source := (case new_source of Some s \<Rightarrow> Some s | None \<Rightarrow> ce_source e),
                      ce_cached_at := now\<rparr>
               else e) (api_cache st)\<rparr>
         | None \<Rightarrow> st\<lparr>api_cache := api_cache st @ [\<lparr>ce_id = next_cache_id st, ce_key = key, ce_body = body,
               ce_source = new_source, ce_cached_at = now, ce_first_cached_at = first\<rparr>],
               next_cache_id := next_cache_id st + 1\<rparr>)"

definition upsert_cache_sqlite ::
  "string \<Rightarrow> string \<Rightarrow> string option \<Rightarrow> int \<Rightarrow> store \<Rightarrow> store res" where
  "upsert_cache_sqlite key body source now st =
     bind_res (if is_game_meta_key key then bind_res (game_meta_row key body) (\<lambda>m. Inr (Some m)) else Inr None)
       (\<lambda>meta. let st1 = sqlite_upsert_row key body source now st
               in Inr (case meta of
                    None \<Rightarrow> st1
                  | Some m \<Rightarrow> st1\<lparr>meta_rows := insert_game_meta m (meta_rows st1)\<rparr>))"

definition upsert_cache_json ::
  "string \<Rightarrow> string \<Rightarrow> string option \<Rightarrow> int \<Rightarrow> store \<Rightarrow> store" where
  "upsert_cache_json key body source now st = (case get_cache st key of
       None \<Rightarrow> st\<lparr>api_cache := api_cache st @
         [\<lparr>ce_id = next_json_id (map ce_id (api_cache st)), ce_key = key, ce_body = body,
           ce_source = source, ce_cached_at = now, ce_first_cached_at = now\<rparr>]\<rparr>
     | Some _ \<Rightarrow> st\<lparr>api_cache := update_first (\<lambda>e. ce_key e = key)
         (\<lambda>e. e\<lparr>ce_body := body,
                ce_source := (case source of Some s \<Rightarrow> Some s | None \<Rightarrow> ce_source e),
                ce_cached_at := now\<rparr>) (api_cache st)\<rparr>)"

text \<open>The write of one entry at time now, dated cached_at when that is given and not zero.\<close>

definition upsert_cache ::
  "int \<Rightarrow> string \<Rightarrow> string \<Rightarrow> int option \<Rightarrow> string option \<Rightarrow> store \<Rightarrow> store res" where
  "upsert_cache now key body cached_at source st =
     (let t = or_int cached_at now in
      bind_res (if is_sqlite st then upsert_cache_sqlite key body source t st
                else Inr (upsert_cache_json key body source t st))
        (\<lambda>st1. Inr (if key_affects_cached_game_ids (Some key) then add_cached_game_id key body st1 else st1)))"

text \<open>Deleting rows; in SQLite the trigger deletes their metadata.\<close>

definition delete_entries :: "(cache_entry \<Rightarrow> bool) \<Rightarrow> store \<Rightarrow> store" where
  "delete_entries gone st =
     st\<lparr>api_cache := filter (\<lambda>e. \<not> gone e) (api_cache st),
        meta_rows := (if is_sqlite st
          then filter (\<lambda>m. mr_key m \<notin> ce_key ` set (filter gone (api_cache st))) (meta_rows st)
          else meta_rows st)\<rparr>"

definition delete_cache_by_prefix :: "string \<Rightarrow> store \<Rightarrow> store" where
  "delete_cache_by_prefix prefix st = after_cache_mutation [Some prefix]
     (delete_entries (\<lambda>e. key_match st prefix (ce_key e)) st)"

definition delete_cache :: "string \<Rightarrow> store \<Rightarrow> store" where
  "delete_cache key st = after_cache_mutation [Some key] (delete_entries (\<lambda>e. ce_key e = key) st)"

definition rename_cache_key :: "string \<Rightarrow> string \<Rightarrow> store \<Rightarrow> store res" where
  "rename_cache_key old new st =
     (if is_sqlite st then
        (if get_cache st old \<noteq> None \<and> new \<noteq> old \<and>
            (get_cache st new \<noteq> None \<or>
             old \<in> mr_key ` set (meta_rows st) \<and> new \<in> mr_key ` set (meta_rows st))
         then Inl IntegrityError
         else Inr (after_cache_mutation [Some old, Some new]
           (st\<lparr>api_cache := map (\<lambda>e. if ce_key e = old then e\<lparr>ce_key := new\<rparr> else e) (api_cache st),
               meta_rows := (if get_cache st old = None then meta_rows st
                 else map (\<lambda>m. if mr_key m = old then m\<lparr>mr_key := new\<rparr> else m) (meta_rows st))\<rparr>)))
      else Inr (after_cache_mutation [Some old, Some new]
        (st\<lparr>api_cache := update_first (\<lambda>e. ce_key e = old) (\<lambda>e. e\<lparr>ce_key := new\<rparr>) (api_cache st)\<rparr>)))"

definition cleared_prefixes :: "string list" where
  "cleared_prefixes = [prefix_patch, prefix_achievementsets, prefix_unlocks, prefix_startsession,
     prefix_gameid, prefix_last_played, prefix_cache_queue]"

definition clear_cache :: "store \<Rightarrow> store" where
  "clear_cache st = after_cache_mutation [None] (delete_entries
     (\<lambda>e. (\<exists>p \<in> set cleared_prefixes. key_match st p (ce_key e)) \<or> ce_key e = key_cache_budget) st)"

definition eviction_exempt_prefixes :: "string list" where
  "eviction_exempt_prefixes = [prefix_login, prefix_patch, prefix_achievementsets, prefix_unlocks,
     prefix_startsession, prefix_gameid, prefix_cache_queue, prefix_watch_seen]"

definition evict_cache_older_than :: "int \<Rightarrow> store \<Rightarrow> store" where
  "evict_cache_older_than before_ms st = after_cache_mutation [None] (delete_entries
     (\<lambda>e. ce_cached_at e < before_ms \<and> \<not> (\<exists>p \<in> set eviction_exempt_prefixes. key_match st p (ce_key e)) \<and>
          ce_key e \<noteq> key_user_agent) st)"

text \<open>The metadata of rows written without it, built when the store is opened.\<close>

definition index_missing_game_meta :: "store \<Rightarrow> store res" where
  "index_missing_game_meta st =
     bind_res (map_res (\<lambda>e. game_meta_row (ce_key e) (ce_body e))
       (filter (\<lambda>e. (like (prefix_patch @ ''%'') (ce_key e) \<or> like (prefix_achievementsets @ ''%'') (ce_key e)) \<and>
          ce_key e \<notin> mr_key ` set (meta_rows st)) (api_cache st)))
       (\<lambda>ms. Inr (st\<lparr>meta_rows := fold insert_game_meta ms (meta_rows st)\<rparr>))"

section \<open>Pending awards\<close>

definition get_pending_awards :: "store \<Rightarrow> award list" where
  "get_pending_awards st = sort_key (\<lambda>a. (aw_queued_at a, aw_id a)) (pending_awards st)"

definition get_latest_pending_award :: "store \<Rightarrow> award option" where
  "get_latest_pending_award st = (case get_pending_awards st of [] \<Rightarrow> None | as \<Rightarrow> Some (last as))"

definition pending_award_exists :: "store \<Rightarrow> int \<Rightarrow> bool" where
  "pending_award_exists st a = list_ex (\<lambda>x. aw_achievement x = a) (pending_awards st)"

definition award_of :: "int \<Rightarrow> award_dict \<Rightarrow> award" where
  "award_of i d = \<lparr>aw_id = i, aw_achievement = ad_achievement d, aw_query = ad_query d, aw_body = ad_body d,
     aw_user_agent = ad_user_agent d, aw_queued_at = ad_queued_at d,
     aw_retries = case_option 0 id (ad_retries d), aw_error = ad_error d,
     aw_status = case_option STATUS_PENDING id (ad_status d),
     aw_payload_hash = case_option [] id (ad_payload_hash d), aw_prev_hash = case_option [] id (ad_prev_hash d),
     aw_signature = case_option [] id (ad_signature d), aw_signed_at = case_option 0 id (ad_signed_at d)\<rparr>"

definition dict_of_award :: "award \<Rightarrow> award_dict" where
  "dict_of_award a = \<lparr>ad_id = Some (aw_id a), ad_achievement = aw_achievement a, ad_query = aw_query a,
     ad_body = aw_body a, ad_user_agent = aw_user_agent a, ad_queued_at = aw_queued_at a,
     ad_retries = Some (aw_retries a), ad_error = aw_error a, ad_status = Some (aw_status a),
     ad_payload_hash = Some (aw_payload_hash a), ad_prev_hash = Some (aw_prev_hash a),
     ad_signature = Some (aw_signature a), ad_signed_at = Some (aw_signed_at a)\<rparr>"

definition upsert_pending_award_sqlite :: "award_dict \<Rightarrow> store \<Rightarrow> store" where
  "upsert_pending_award_sqlite d st =
     (if pending_award_exists st (ad_achievement d)
      then st\<lparr>pending_awards := map (\<lambda>a. if aw_achievement a = ad_achievement d then award_of (aw_id a) d else a)
             (pending_awards st)\<rparr>
      else st\<lparr>pending_awards := pending_awards st @ [award_of (next_award_id st) d],
             next_award_id := next_award_id st + 1\<rparr>)"

definition upsert_pending_award_json :: "award_dict \<Rightarrow> store \<Rightarrow> store" where
  "upsert_pending_award_json d st =
     (if pending_award_exists st (ad_achievement d)
      then st\<lparr>pending_awards := update_first (\<lambda>a. aw_achievement a = ad_achievement d)
             (\<lambda>a. award_of (aw_id a) d) (pending_awards st)\<rparr>
      else st\<lparr>pending_awards := pending_awards st @
             [award_of (case ad_id d of Some i \<Rightarrow> i | None \<Rightarrow> next_json_id (map aw_id (pending_awards st))) d]\<rparr>)"

definition upsert_pending_award :: "award_dict \<Rightarrow> store \<Rightarrow> store" where
  "upsert_pending_award d st =
     (if ad_achievement d = WARNING_ACHIEVEMENT_ID then st
      else if is_sqlite st then upsert_pending_award_sqlite d st else upsert_pending_award_json d st)"

definition update_pending_award :: "award \<Rightarrow> store \<Rightarrow> store" where
  "update_pending_award a st = upsert_pending_award (dict_of_award a) st"

definition delete_pending_award_row :: "int \<Rightarrow> store \<Rightarrow> store" where
  "delete_pending_award_row a st =
     st\<lparr>pending_awards := filter (\<lambda>x. aw_achievement x \<noteq> a) (pending_awards st)\<rparr>"

definition pending_awards_exist_by_status :: "store \<Rightarrow> string \<Rightarrow> bool" where
  "pending_awards_exist_by_status st status = list_ex (\<lambda>a. aw_status a = status) (pending_awards st)"

definition delete_pending_awards_by_statuses :: "string list \<Rightarrow> store \<Rightarrow> store" where
  "delete_pending_awards_by_statuses statuses st =
     st\<lparr>pending_awards := filter (\<lambda>a. aw_status a \<notin> set statuses) (pending_awards st)\<rparr>"

section \<open>Login and token\<close>

definition load_login_credentials :: "store \<Rightarrow> (json \<times> json) option res" where
  "load_login_credentials st = (case get_cache_by_prefix st prefix_login of
       None \<Rightarrow> Inr None
     | Some e \<Rightarrow>
        (case loads (ce_body e) of
           Inl _ \<Rightarrow> Inr None
         | Inr payload \<Rightarrow>
            bind_res (jget ''User'' JNull payload) (\<lambda>user.
            bind_res (jget ''Token'' JNull payload) (\<lambda>token.
            Inr (if \<not> truthy user \<or> \<not> truthy token then None else Some (user, token))))))"

definition mark_token_invalid :: "int \<Rightarrow> string \<Rightarrow> store \<Rightarrow> store res" where
  "mark_token_invalid now token st = upsert_cache now key_auth_invalid_token token None None st"

definition is_token_invalid :: "store \<Rightarrow> string \<Rightarrow> bool" where
  "is_token_invalid st token = (case get_cache st key_auth_invalid_token of
       None \<Rightarrow> False | Some e \<Rightarrow> ce_body e = token)"

definition clear_invalid_token :: "store \<Rightarrow> store" where
  "clear_invalid_token st = delete_cache key_auth_invalid_token st"

section \<open>Key migration\<close>

definition lowercased_user_key :: "string \<Rightarrow> string \<Rightarrow> string option" where
  "lowercased_user_key key prefix =
     (let rest = removeprefix prefix key in
      if prefix = prefix_achievementsets then
        (if CHR '':'' \<notin> set rest then None
         else let user = rev (before CHR '':'' (rev rest));
                  scope = rev (after CHR '':'' (rev rest))
              in if scope = [] \<or> user = [] then None else Some (prefix @ scope @ '':'' @ lower user))
      else (case split_on CHR '':'' rest of
              g # user # parts \<Rightarrow>
                if g = [] \<or> user = [] then None
                else Some (prefix @ g @ '':'' @ lower user @
                       (if parts = [] then [] else '':'' @ join '':'' parts))
            | _ \<Rightarrow> None))"

definition migrate_key :: "string \<Rightarrow> string \<Rightarrow> store \<Rightarrow> store res" where
  "migrate_key prefix old st = (case lowercased_user_key old prefix of
       None \<Rightarrow> Inr st
     | Some new \<Rightarrow>
        if new = old then Inr st
        else if get_cache st new \<noteq> None then Inr (delete_cache old st)
        else rename_cache_key old new st)"

fun fold_res :: "('a \<Rightarrow> 's \<Rightarrow> 's res) \<Rightarrow> 'a list \<Rightarrow> 's \<Rightarrow> 's res" where
  "fold_res f [] s = Inr s"
| "fold_res f (x # xs) s = bind_res (f x s) (fold_res f xs)"

definition migrate_user_case_in_cache_keys :: "store \<Rightarrow> store res" where
  "migrate_user_case_in_cache_keys st =
     fold_res (\<lambda>prefix s. fold_res (migrate_key prefix) (cache_keys_by_prefix s prefix) s)
       [prefix_patch, prefix_achievementsets, prefix_unlocks, prefix_startsession] st"

section \<open>Opening the JSON store\<close>

definition reload_json_state :: "string option \<Rightarrow> json \<times> bool" where
  "reload_json_state file =
     (let empty = JObj [(''api_cache'', JList []), (''pending_awards'', JList [])];
          with_lists = (\<lambda>ps. JObj (fold (\<lambda>k d. if k \<in> fst ` set d then d else d @ [(k, JList [])])
                                [''api_cache'', ''pending_awards''] ps))
      in case file of
           None \<Rightarrow> (empty, False)
         | Some text \<Rightarrow> (case loads text of Inr (JObj ps) \<Rightarrow> (with_lists ps, False) | _ \<Rightarrow> (empty, True)))"

text \<open>The number of pending awards in the first value of a damaged file.\<close>

definition salvage_pending_award_count :: "string \<Rightarrow> nat option" where
  "salvage_pending_award_count text = (case parse_value (Suc (2 * length text)) text of
       Some (JObj ps, _) \<Rightarrow>
         (case map_of ps ''pending_awards'' of Some (JList xs) \<Rightarrow> Some (length xs) | _ \<Rightarrow> None)
     | _ \<Rightarrow> None)"

end
