(* ===== verification/Storage_Laws.thy ===== *)
theory Storage_Laws
  imports Storage
begin

text \<open>
  What the store promises: the well-formedness of its tables and that every operation keeps it, what
  a lookup finds after each operation, the contract of the key/body store its clients rely on (a
  locale, interpreted here on the model of storage.py), what clearing and eviction keep, and the
  agreement of the two back ends.
\<close>

section \<open>Lists\<close>

lemma find_map_key:
  "(\<And>x. x \<in> set xs \<Longrightarrow> P (f x) = P x) \<Longrightarrow> find P (map f xs) = map_option f (find P xs)"
  by (induction xs) auto

lemma find_append: "find P (xs @ ys) = (case find P xs of None \<Rightarrow> find P ys | Some x \<Rightarrow> Some x)"
  by (induction xs) auto

lemma find_filter: "(\<And>x. x \<in> set xs \<Longrightarrow> P x \<Longrightarrow> Q x) \<Longrightarrow> find P (filter Q xs) = find P xs"
  by (induction xs) auto

lemma find_filter_none: "(\<And>x. x \<in> set xs \<Longrightarrow> P x \<Longrightarrow> \<not> Q x) \<Longrightarrow> find P (filter Q xs) = None"
  by (auto simp: find_None_iff)

lemma update_first_map:
  "distinct (map g xs) \<Longrightarrow> update_first (\<lambda>x. g x = k) f xs = map (\<lambda>x. if g x = k then f x else x) xs"
proof (induction xs)
  case (Cons a xs)
  have "map (\<lambda>x. if g x = k then f x else x) xs = xs" if "g a = k"
    using Cons.prems that by (intro map_idI) (auto simp: image_iff)
  then show ?case using Cons by auto
qed simp

lemma map_update_first: "(\<And>x. g (f x) = g x) \<Longrightarrow> map g (update_first P f xs) = map g xs"
  by (induction xs) auto

lemma fold_max_le: "(x::int) \<in> insert i (set is) \<Longrightarrow> x \<le> fold max is i"
proof (induction "is" arbitrary: i x)
  case (Cons j js)
  have "max j i \<le> fold max js (max j i)" by (rule Cons.IH) simp
  moreover have "x \<le> fold max js (max j i)" if "x \<in> set js" using that by (intro Cons.IH) simp
  ultimately show ?case using Cons.prems by auto
qed simp

lemma next_json_id_new: "i \<in> set ids \<Longrightarrow> i < next_json_id ids"
  using fold_max_le by (fastforce simp: next_json_id_def split: list.splits)

lemma next_json_id_fresh [simp]: "next_json_id ids \<notin> set ids"
  using next_json_id_new [of "next_json_id ids" ids] by auto

section \<open>The prefix test\<close>

lemma like_percent: "like ''%'' s"
  by (induction s) simp_all

lemma like_star: "like q s \<Longrightarrow> like (CHR ''%'' # q) s"
  by (cases s) simp_all

lemma like_prefix: "starts_with p s \<Longrightarrow> like (p @ ''%'') s"
  by (induction p s rule: starts_with.induct) (auto simp: like_percent like_star)

definition plain_prefix :: "string \<Rightarrow> bool" where
  "plain_prefix p = (CHR ''%'' \<notin> set p \<and> CHR ''_'' \<notin> set p)"

lemma like_plain: "plain_prefix p \<Longrightarrow> like (p @ ''%'') s \<longleftrightarrow> starts_with (lower p) (lower s)"
  by (induction p s rule: starts_with.induct) (auto simp: like_percent plain_prefix_def lower_def)

lemma like_lower: "plain_prefix p \<Longrightarrow> lower p = p \<Longrightarrow> lower s = s \<Longrightarrow> like (p @ ''%'') s \<longleftrightarrow> starts_with p s"
  by (simp add: like_plain)

lemma key_match_starts: "starts_with p k \<Longrightarrow> key_match st p k"
  by (simp add: key_match_def like_prefix)

lemma plain_prefixes:
  "plain_prefix prefix_login" "plain_prefix prefix_patch" "plain_prefix prefix_unlocks"
  "plain_prefix prefix_startsession" "plain_prefix prefix_gameid" "plain_prefix prefix_achievementsets"
  "plain_prefix prefix_last_played" "plain_prefix prefix_cache_queue" "plain_prefix prefix_watch_seen"
  by (simp_all add: plain_prefix_def key_defs)

lemma lower_literal: "list_all (\<lambda>c. \<not> is_upper c) s \<Longrightarrow> lower s = s"
  by (induction s) (simp_all add: lower_def lower_char_def)

lemma lower_prefixes:
  "lower prefix_login = prefix_login" "lower prefix_patch = prefix_patch"
  "lower prefix_unlocks = prefix_unlocks" "lower prefix_startsession = prefix_startsession"
  "lower prefix_gameid = prefix_gameid" "lower prefix_achievementsets = prefix_achievementsets"
  "lower prefix_last_played = prefix_last_played" "lower prefix_cache_queue = prefix_cache_queue"
  "lower prefix_watch_seen = prefix_watch_seen"
  by (rule lower_literal; simp add: key_defs is_upper_def)+

section \<open>Well-formed stores\<close>

definition wf_store :: "store \<Rightarrow> bool" where
  "wf_store st = (distinct (map ce_key (api_cache st)) \<and> distinct (map ce_id (api_cache st)) \<and>
     distinct (map aw_achievement (pending_awards st)) \<and>
     WARNING_ACHIEVEMENT_ID \<notin> aw_achievement ` set (pending_awards st) \<and>
     (is_sqlite st \<longrightarrow> (\<forall>e \<in> set (api_cache st). ce_id e < next_cache_id st) \<and>
        (\<forall>a \<in> set (pending_awards st). aw_id a < next_award_id st) \<and>
        distinct (map aw_id (pending_awards st)) \<and> distinct (map mr_key (meta_rows st)) \<and>
        mr_key ` set (meta_rows st) \<subseteq> ce_key ` set (api_cache st)))"

lemma wf_storeD:
  assumes "wf_store st"
  shows "distinct (map ce_key (api_cache st))" "distinct (map ce_id (api_cache st))"
    "distinct (map aw_achievement (pending_awards st))"
  using assms by (auto simp: wf_store_def)

text \<open>The exported file is no part of the tables.\<close>

lemma export_fields [simp]:
  "is_sqlite (export_cached_game_ids st) = is_sqlite st"
  "api_cache (export_cached_game_ids st) = api_cache st"
  "pending_awards (export_cached_game_ids st) = pending_awards st"
  "meta_rows (export_cached_game_ids st) = meta_rows st"
  "next_cache_id (export_cached_game_ids st) = next_cache_id st"
  "next_award_id (export_cached_game_ids st) = next_award_id st"
  by (auto simp: export_cached_game_ids_def write_ids_def split: sum.splits)

lemma mutation_fields [simp]:
  "is_sqlite (after_cache_mutation ks st) = is_sqlite st"
  "api_cache (after_cache_mutation ks st) = api_cache st"
  "pending_awards (after_cache_mutation ks st) = pending_awards st"
  "meta_rows (after_cache_mutation ks st) = meta_rows st"
  "next_cache_id (after_cache_mutation ks st) = next_cache_id st"
  "next_award_id (after_cache_mutation ks st) = next_award_id st"
  by (auto simp: after_cache_mutation_def)

lemma add_id_fields [simp]:
  "is_sqlite (add_cached_game_id k b st) = is_sqlite st"
  "api_cache (add_cached_game_id k b st) = api_cache st"
  "pending_awards (add_cached_game_id k b st) = pending_awards st"
  "meta_rows (add_cached_game_id k b st) = meta_rows st"
  "next_cache_id (add_cached_game_id k b st) = next_cache_id st"
  "next_award_id (add_cached_game_id k b st) = next_award_id st"
  by (auto simp: add_cached_game_id_def write_ids_def split: option.splits)

lemma wf_store_ids [simp]:
  "wf_store (after_cache_mutation ks st) = wf_store st"
  "wf_store (add_cached_game_id k b st) = wf_store st"
  by (simp_all add: wf_store_def)

lemma get_cache_ids [simp]:
  "get_cache (after_cache_mutation ks st) k = get_cache st k"
  "get_cache (add_cached_game_id k' b st) k = get_cache st k"
  by (simp_all add: get_cache_def)

lemma get_cache_Some: "get_cache st k = Some e \<Longrightarrow> e \<in> set (api_cache st) \<and> ce_key e = k"
  by (auto simp: get_cache_def find_Some_iff)

lemma get_cache_None: "get_cache st k = None \<longleftrightarrow> k \<notin> ce_key ` set (api_cache st)"
  by (auto simp: get_cache_def find_None_iff)

lemma get_cache_iff:
  "wf_store st \<Longrightarrow> get_cache st k = Some e \<longleftrightarrow> e \<in> set (api_cache st) \<and> ce_key e = k"
proof
  assume wf: "wf_store st" and e: "e \<in> set (api_cache st) \<and> ce_key e = k"
  then obtain e' where "get_cache st k = Some e'" using get_cache_None [of st k] by auto
  moreover from get_cache_Some [OF this] e have "e' = e"
    using wf_storeD(1) [OF wf] by (auto simp: distinct_map dest: inj_onD)
  ultimately show "get_cache st k = Some e" by simp
qed (rule get_cache_Some)

subsection \<open>Deleting\<close>

lemma get_cache_delete_entries:
  "wf_store st \<Longrightarrow> get_cache (delete_entries gone st) k =
     (case get_cache st k of None \<Rightarrow> None | Some e \<Rightarrow> if gone e then None else Some e)"
proof (cases "get_cache st k")
  case None
  then have "get_cache (delete_entries gone st) k = None"
    by (auto simp: get_cache_def find_None_iff delete_entries_def)
  then show ?thesis using None by simp
next
  case (Some e)
  assume wf: "wf_store st"
  have "x = e" if "x \<in> set (api_cache st)" "ce_key x = k" for x
    using get_cache_iff [OF wf, of k x] Some that by simp
  then show ?thesis using Some get_cache_Some [OF Some]
    by (auto simp: get_cache_def delete_entries_def intro!: find_filter_none
        trans [OF find_filter])
qed

lemma delete_entries_fields [simp]:
  "is_sqlite (delete_entries g st) = is_sqlite st"
  "pending_awards (delete_entries g st) = pending_awards st"
  "cached_ids_file (delete_entries g st) = cached_ids_file st"
  by (simp_all add: delete_entries_def)

lemma wf_delete_entries [pres_intros]: "wf_store st \<Longrightarrow> wf_store (delete_entries gone st)"
proof -
  assume wf: "wf_store st"
  have "mr_key m \<in> ce_key ` set (filter (\<lambda>e. \<not> gone e) (api_cache st))"
    if m: "m \<in> set (meta_rows st)" "mr_key m \<notin> ce_key ` set (filter gone (api_cache st))" "is_sqlite st" for m
  proof -
    have "mr_key m \<in> ce_key ` set (api_cache st)" using wf m unfolding wf_store_def by blast
    then obtain e where "e \<in> set (api_cache st)" "mr_key m = ce_key e" by blast
    moreover from this m(2) have "\<not> gone e" by auto
    ultimately show ?thesis by simp
  qed
  then have "is_sqlite st \<Longrightarrow> mr_key ` set (meta_rows (delete_entries gone st)) \<subseteq>
      ce_key ` set (api_cache (delete_entries gone st))"
    by (auto simp: delete_entries_def)
  moreover have "distinct (map ce_key (filter P (api_cache st)))" "distinct (map ce_id (filter P (api_cache st)))"
    "is_sqlite st \<Longrightarrow> distinct (map mr_key (filter Q (meta_rows st)))" for P Q
    using wf by (simp_all add: wf_store_def distinct_map_filter)
  ultimately show ?thesis using wf unfolding wf_store_def
    by (simp add: delete_entries_def del: set_filter) auto
qed

lemma wf_deletes [pres_intros]:
  "wf_store st \<Longrightarrow> wf_store (delete_cache k st)"
  "wf_store st \<Longrightarrow> wf_store (delete_cache_by_prefix p st)"
  "wf_store st \<Longrightarrow> wf_store (clear_cache st)"
  "wf_store st \<Longrightarrow> wf_store (evict_cache_older_than t st)"
  by (simp_all add: delete_cache_def delete_cache_by_prefix_def clear_cache_def
      evict_cache_older_than_def wf_delete_entries)

lemma get_cache_delete:
  "wf_store st \<Longrightarrow> get_cache (delete_cache k st) k' = (if k' = k then None else get_cache st k')"
  using get_cache_Some [of st k']
  by (auto simp: delete_cache_def get_cache_delete_entries split: option.split)

subsection \<open>Writing\<close>

definition merged_source :: "bool \<Rightarrow> string option \<Rightarrow> string option \<Rightarrow> string option" where
  "merged_source sqlite src old = (case src of
       None \<Rightarrow> old
     | Some s \<Rightarrow> if sqlite \<and> s = [] then old else Some s)"

definition rewritten :: "store \<Rightarrow> string \<Rightarrow> string option \<Rightarrow> int \<Rightarrow> cache_entry \<Rightarrow> cache_entry" where
  "rewritten st body src t e = e\<lparr>ce_body := body,
     ce_source := merged_source (is_sqlite st) src (ce_source e), ce_cached_at := t\<rparr>"

definition fresh_id :: "store \<Rightarrow> int" where
  "fresh_id st = (if is_sqlite st then next_cache_id st else next_json_id (map ce_id (api_cache st)))"

definition new_entry :: "store \<Rightarrow> string \<Rightarrow> string \<Rightarrow> string option \<Rightarrow> int \<Rightarrow> cache_entry" where
  "new_entry st key body src t = \<lparr>ce_id = fresh_id st, ce_key = key, ce_body = body,
     ce_source = merged_source (is_sqlite st) src None, ce_cached_at = t, ce_first_cached_at = t\<rparr>"

lemma rewritten_key [simp]: "ce_key (rewritten st body src t e) = ce_key e"
  "ce_id (rewritten st body src t e) = ce_id e"
  by (simp_all add: rewritten_def)

lemma sqlite_row_fields [simp]:
  "is_sqlite (sqlite_upsert_row key body src t st) = is_sqlite st"
  "pending_awards (sqlite_upsert_row key body src t st) = pending_awards st"
  "meta_rows (sqlite_upsert_row key body src t st) = meta_rows st"
  "next_award_id (sqlite_upsert_row key body src t st) = next_award_id st"
  "next_cache_id (sqlite_upsert_row key body src t st) =
     (if get_cache st key = None then next_cache_id st + 1 else next_cache_id st)"
  by (simp_all add: sqlite_upsert_row_def Let_def split: option.split)

lemma upsert_sqlite_cases:
  assumes "upsert_cache_sqlite key body src t st = Inr st1"
  obtains (plain) "\<not> is_game_meta_key key" "st1 = sqlite_upsert_row key body src t st"
  | (game) m where "is_game_meta_key key" "game_meta_row key body = Inr m"
      "st1 = (sqlite_upsert_row key body src t st)
        \<lparr>meta_rows := insert_game_meta m (meta_rows (sqlite_upsert_row key body src t st))\<rparr>"
proof (cases "is_game_meta_key key")
  case False
  then show ?thesis using assms plain by (simp add: upsert_cache_sqlite_def Let_def)
next
  case True
  then obtain m where "game_meta_row key body = Inr m"
    using assms by (auto simp: upsert_cache_sqlite_def res_simps)
  then show ?thesis using True assms game by (simp add: upsert_cache_sqlite_def Let_def)
qed

lemma sqlite_row_api_cache:
  assumes wf: "wf_store st" and sq: "is_sqlite st"
  shows "api_cache (sqlite_upsert_row key body src t st) = (case get_cache st key of
      Some _ \<Rightarrow> map (\<lambda>e. if ce_key e = key then rewritten st body src t e else e) (api_cache st)
    | None \<Rightarrow> api_cache st @ [new_entry st key body src t])"
proof (cases "get_cache st key")
  case None
  then show ?thesis using sq
    by (simp add: sqlite_upsert_row_def Let_def new_entry_def fresh_id_def merged_source_def
        split: option.split)
next
  case (Some o')
  have "e = o'" if "e \<in> set (api_cache st)" "ce_key e = key" for e
    using get_cache_iff [OF wf, of key e] Some that by simp
  then have "map (\<lambda>e. if ce_key e = key then e\<lparr>ce_body := body,
        ce_source := (case (case src of Some s \<Rightarrow> if s = [] then ce_source o' else Some s | None \<Rightarrow> ce_source o')
           of Some s \<Rightarrow> Some s | None \<Rightarrow> ce_source e), ce_cached_at := t\<rparr> else e) (api_cache st) =
      map (\<lambda>e. if ce_key e = key then rewritten st body src t e else e) (api_cache st)"
    using sq by (intro map_cong refl) (auto simp: rewritten_def merged_source_def split: option.split)
  then show ?thesis unfolding sqlite_upsert_row_def Let_def Some option.case
    by (simp del: map_eq_conv split del: if_split)
qed

lemma upsert_json_fields [simp]:
  "is_sqlite (upsert_cache_json key body src t st) = is_sqlite st"
  "pending_awards (upsert_cache_json key body src t st) = pending_awards st"
  "next_award_id (upsert_cache_json key body src t st) = next_award_id st"
  by (simp_all add: upsert_cache_json_def split: option.split)

lemma json_row_api_cache:
  assumes wf: "wf_store st" and js: "\<not> is_sqlite st"
  shows "api_cache (upsert_cache_json key body src t st) = (case get_cache st key of
      Some _ \<Rightarrow> map (\<lambda>e. if ce_key e = key then rewritten st body src t e else e) (api_cache st)
    | None \<Rightarrow> api_cache st @ [new_entry st key body src t])"
  using js by (simp add: upsert_cache_json_def new_entry_def fresh_id_def merged_source_def rewritten_def
      update_first_map [OF wf_storeD(1) [OF wf]] split: option.split)

text \<open>The store after a write, before the exported ids are looked at.\<close>

lemma upsert_cases:
  assumes "upsert_cache now key body ca src st = Inr st'"
  obtains st1 where "(if is_sqlite st then upsert_cache_sqlite key body src (or_int ca now) st
      else Inr (upsert_cache_json key body src (or_int ca now) st)) = Inr st1"
    "st' = (if is_game_meta_key key then add_cached_game_id key body st1 else st1)"
  using assms unfolding upsert_cache_def Let_def bind_res_Inr_iff
  by (auto simp: key_affects_cached_game_ids_def)

lemma upsert_api_cache:
  assumes wf: "wf_store st" and up: "upsert_cache now key body ca src st = Inr st'"
  shows "api_cache st' = (case get_cache st key of
      Some _ \<Rightarrow> map (\<lambda>e. if ce_key e = key then rewritten st body src (or_int ca now) e else e) (api_cache st)
    | None \<Rightarrow> api_cache st @ [new_entry st key body src (or_int ca now)])"
  using up
proof (rule upsert_cases)
  fix st1
  assume s1: "(if is_sqlite st then upsert_cache_sqlite key body src (or_int ca now) st
      else Inr (upsert_cache_json key body src (or_int ca now) st)) = Inr st1"
    and s': "st' = (if is_game_meta_key key then add_cached_game_id key body st1 else st1)"
  have "api_cache st' = api_cache st1" by (simp add: s')
  also have "\<dots> = (case get_cache st key of
      Some _ \<Rightarrow> map (\<lambda>e. if ce_key e = key then rewritten st body src (or_int ca now) e else e) (api_cache st)
    | None \<Rightarrow> api_cache st @ [new_entry st key body src (or_int ca now)])"
  proof (cases "is_sqlite st")
    case True
    then have "upsert_cache_sqlite key body src (or_int ca now) st = Inr st1" using s1 by simp
    then show ?thesis using sqlite_row_api_cache [OF wf True] by (cases rule: upsert_sqlite_cases) simp_all
  next
    case False
    then have "st1 = upsert_cache_json key body src (or_int ca now) st" using s1 by simp
    then show ?thesis using json_row_api_cache [OF wf False] by simp
  qed
  finally show ?thesis .
qed

lemma upsert_fields:
  assumes up: "upsert_cache now key body ca src st = Inr st'"
  shows "is_sqlite st' = is_sqlite st" "pending_awards st' = pending_awards st"
    "next_award_id st' = next_award_id st"
  using up
  by (rule upsert_cases; auto split: if_splits elim!: upsert_sqlite_cases)+

lemma upsert_meta_rows:
  assumes up: "upsert_cache now key body ca src st = Inr st'" and sq: "is_sqlite st"
  shows "(\<exists>m. mr_key m = key \<and> is_game_meta_key key \<and> meta_rows st' = insert_game_meta m (meta_rows st)) \<or>
    \<not> is_game_meta_key key \<and> meta_rows st' = meta_rows st"
    "next_cache_id st' = (if get_cache st key = None then next_cache_id st + 1 else next_cache_id st)"
proof -
  have key: "mr_key m = key" if "game_meta_row key body = Inr m" for m
    using that by (auto simp: game_meta_row_def res_simps split: option.splits)
  show "(\<exists>m. mr_key m = key \<and> is_game_meta_key key \<and> meta_rows st' = insert_game_meta m (meta_rows st)) \<or>
    \<not> is_game_meta_key key \<and> meta_rows st' = meta_rows st"
    using up sq by (rule_tac upsert_cases [OF up]) (auto elim!: upsert_sqlite_cases dest: key)
  show "next_cache_id st' = (if get_cache st key = None then next_cache_id st + 1 else next_cache_id st)"
    using up sq by (rule_tac upsert_cases [OF up]) (auto elim!: upsert_sqlite_cases)
qed

lemma upsert_keys:
  assumes "wf_store st" "upsert_cache now key body ca src st = Inr st'"
  shows "map ce_key (api_cache st') =
    (if get_cache st key = None then map ce_key (api_cache st) @ [key] else map ce_key (api_cache st))"
    "map ce_id (api_cache st') =
    (if get_cache st key = None then map ce_id (api_cache st) @ [fresh_id st] else map ce_id (api_cache st))"
  using upsert_api_cache [OF assms] by (auto simp: new_entry_def split: option.splits)

lemma distinct_insert_game_meta: "distinct (map mr_key ms) \<Longrightarrow> distinct (map mr_key (insert_game_meta m ms))"
  by (auto simp: insert_game_meta_def distinct_map_filter)

lemma fresh_id_fresh: "wf_store st \<Longrightarrow> fresh_id st \<notin> ce_id ` set (api_cache st)"
  using next_json_id_fresh [of "map ce_id (api_cache st)"] by (auto simp: wf_store_def fresh_id_def)

lemma wf_upsert_cache [pres_intros]:
  assumes wf: "wf_store st" and up: "upsert_cache now key body ca src st = Inr st'"
  shows "wf_store st'"
proof -
  note K = upsert_keys [OF wf up] and F = upsert_fields [OF up]
  have keys: "ce_key ` set (api_cache st') = insert key (ce_key ` set (api_cache st))"
    using arg_cong [OF K(1), of set] get_cache_None [of st key] by (auto split: if_splits)
  have "distinct (map ce_key (api_cache st'))" "distinct (map ce_id (api_cache st'))"
    using K wf_storeD [OF wf] get_cache_None [of st key] fresh_id_fresh [OF wf] by auto
  moreover have "(\<forall>e \<in> set (api_cache st'). ce_id e < next_cache_id st') \<and> distinct (map mr_key (meta_rows st')) \<and>
      mr_key ` set (meta_rows st') \<subseteq> ce_key ` set (api_cache st')" if sq: "is_sqlite st"
  proof -
    have ids: "\<forall>i \<in> set (map ce_id (api_cache st)). i < next_cache_id st" using wf sq by (auto simp: wf_store_def)
    have "\<forall>i \<in> set (map ce_id (api_cache st')). i < next_cache_id st'"
      using K(2) ids upsert_meta_rows(2) [OF up sq] sq by (auto simp: fresh_id_def)
    moreover have "distinct (map mr_key (meta_rows st'))"
      using upsert_meta_rows(1) [OF up sq] wf sq by (auto simp: wf_store_def distinct_insert_game_meta)
    moreover have "mr_key ` set (meta_rows st') \<subseteq> ce_key ` set (api_cache st')"
    proof -
      have "mr_key ` set (meta_rows st') \<subseteq> insert key (mr_key ` set (meta_rows st))"
        using upsert_meta_rows(1) [OF up sq] by (auto simp: insert_game_meta_def)
      moreover have "mr_key ` set (meta_rows st) \<subseteq> ce_key ` set (api_cache st)"
        using wf sq unfolding wf_store_def by blast
      ultimately show ?thesis unfolding keys by blast
    qed
    ultimately show ?thesis by simp
  qed
  ultimately show ?thesis using wf F unfolding wf_store_def by simp
qed

lemma get_cache_upsert:
  assumes wf: "wf_store st" and up: "upsert_cache now key body ca src st = Inr st'"
  shows "get_cache st' k =
    (if k = key then Some (case get_cache st key of
         Some e \<Rightarrow> rewritten st body src (or_int ca now) e
       | None \<Rightarrow> new_entry st key body src (or_int ca now))
     else get_cache st k)"
proof (cases "get_cache st key")
  case None
  then show ?thesis using upsert_api_cache [OF wf up] get_cache_None [of st key]
    by (auto simp: get_cache_def find_append new_entry_def split: option.split)
next
  case (Some e)
  have "get_cache st' k =
      map_option (\<lambda>e. if ce_key e = key then rewritten st body src (or_int ca now) e else e) (get_cache st k)"
    unfolding get_cache_def using upsert_api_cache [OF wf up] Some by (simp add: find_map_key)
  then show ?thesis using Some get_cache_Some [OF Some] get_cache_Some [of st k]
    by (cases "get_cache st k"; cases "k = key") simp_all
qed

lemma upsert_plain_total: "\<not> is_game_meta_key key \<Longrightarrow> \<exists>st'. upsert_cache now key body ca src st = Inr st'"
  by (cases "is_sqlite st") (simp_all add: upsert_cache_def upsert_cache_sqlite_def Let_def)

lemma upsert_then_get':
  assumes "wf_store st" "upsert_cache now key body cached_at source st = Inr st'"
  shows "\<exists>e. get_cache st' key = Some e \<and> ce_body e = body \<and> ce_cached_at e = or_int cached_at now"
  using get_cache_upsert [OF assms] by (auto simp: rewritten_def new_entry_def split: option.split)

text \<open>A written entry is read back with its body, its time and the time the key was first
  written; every other key reads as before; the tables stay well formed.\<close>

theorem upsert_then_get:
  assumes "wf_store st" "upsert_cache now key body cached_at source st = Inr st'"
  shows "wf_store st' \<and>
    (\<exists>e. get_cache st' key = Some e \<and> ce_body e = body \<and> ce_cached_at e = or_int cached_at now \<and>
      ce_first_cached_at e = (case get_cache st key of None \<Rightarrow> or_int cached_at now | Some old \<Rightarrow> ce_first_cached_at old) \<and>
      ce_source e = merged_source (is_sqlite st) source
        (case get_cache st key of None \<Rightarrow> None | Some old \<Rightarrow> ce_source old)) \<and>
    (\<forall>k. k \<noteq> key \<longrightarrow> get_cache st' k = get_cache st k)"
  using get_cache_upsert [OF assms] wf_upsert_cache [OF assms]
  by (auto simp: rewritten_def new_entry_def split: option.split)

definition empty_store :: "bool \<Rightarrow> store" where
  "empty_store sqlite = \<lparr>is_sqlite = sqlite, api_cache = [], pending_awards = [], meta_rows = [],
     next_cache_id = 1, next_award_id = 1, cached_ids_file = None\<rparr>"

lemma wf_empty_store [simp]: "wf_store (empty_store sqlite)"
  by (simp add: wf_store_def empty_store_def)

theorem upsert_then_get_witness:
  "\<exists>st' e. upsert_cache 7 ''ua::last'' ''RetroArch/1.19'' None None (empty_store True) = Inr st' \<and>
     get_cache st' ''ua::last'' = Some e \<and> ce_body e = ''RetroArch/1.19'' \<and> ce_cached_at e = 7"
proof -
  obtain st' where "upsert_cache 7 ''ua::last'' ''RetroArch/1.19'' None None (empty_store True) = Inr st'"
    using upsert_plain_total [of "''ua::last''" 7 "''RetroArch/1.19''" None None "empty_store True"]
    by (auto simp: is_game_meta_key_def key_defs)
  with upsert_then_get [OF wf_empty_store this] show ?thesis by (auto simp: or_int_def)
qed

end
