(* ===== verification/Store_Contracts.thy ===== *)
theory Store_Contracts
  imports Storage_Laws
begin

text \<open>
  The contracts of the store: the key/body interface its clients use (locale body_store, a cell that
  holds one encoded value in locale json_cell), the queue of awards, what clearing and eviction keep,
  and sequences of operations on the two back ends.
\<close>

section \<open>The key/body interface\<close>

locale body_store =
  fixes wf :: "'s \<Rightarrow> bool"
    and plain :: "string \<Rightarrow> bool"
    and body :: "'s \<Rightarrow> string \<Rightarrow> string option"
    and put :: "int \<Rightarrow> string \<Rightarrow> string \<Rightarrow> 's \<Rightarrow> 's res"
    and erase :: "string \<Rightarrow> 's \<Rightarrow> 's"
  assumes put_total: "wf s \<Longrightarrow> plain k \<Longrightarrow> \<exists>s'. put t k b s = Inr s'"
    and wf_put: "wf s \<Longrightarrow> put t k b s = Inr s' \<Longrightarrow> wf s'"
    and body_put: "wf s \<Longrightarrow> put t k b s = Inr s' \<Longrightarrow> body s' k' = (if k' = k then Some b else body s k')"
    and wf_erase: "wf s \<Longrightarrow> wf (erase k s)"
    and body_erase: "wf s \<Longrightarrow> body (erase k s) k' = (if k' = k then None else body s k')"
begin

lemma put_then_erase:
  "wf s \<Longrightarrow> body s k = None \<Longrightarrow> put t k b s = Inr s' \<Longrightarrow> body (erase k s') = body s"
  by (rule ext) (simp add: body_erase wf_put body_put)

lemma put_commutes:
  assumes "wf s" "k \<noteq> k'" "put t k b s = Inr s1" "put t' k' b' s1 = Inr s2"
    and "put t' k' b' s = Inr s3" "put t k b s3 = Inr s4"
  shows "body s2 = body s4"
proof
  fix x
  have "wf s1" "wf s3" using assms wf_put by blast+
  then show "body s2 x = body s4 x"
    using assms by (simp add: body_put [of s1 t' k' b' s2] body_put [of s3 t k b s4]
        body_put [of s t k b s1] body_put [of s t' k' b' s3])
qed

end

text \<open>One key that holds an encoded value, read with a default.\<close>

locale json_cell = body_store wf plain body put erase
  for wf :: "'s \<Rightarrow> bool" and plain body put erase +
  fixes key :: string and enc :: "'a \<Rightarrow> string" and dec :: "string option \<Rightarrow> 'a"
  assumes plain_key: "plain key" and dec_enc: "dec (Some (enc x)) = x"
begin

lemma save_total: "wf s \<Longrightarrow> \<exists>s'. put t key (enc x) s = Inr s'"
  using put_total plain_key by blast

lemma load_save: "wf s \<Longrightarrow> put t key (enc x) s = Inr s' \<Longrightarrow> dec (body s' key) = x"
  by (simp add: body_put dec_enc)

lemma load_other: "wf s \<Longrightarrow> k \<noteq> key \<Longrightarrow> put t k b s = Inr s' \<Longrightarrow> dec (body s' key) = dec (body s key)"
  by (simp add: body_put)

lemma load_erase_other: "wf s \<Longrightarrow> k \<noteq> key \<Longrightarrow> dec (body (erase k s) key) = dec (body s key)"
  by (simp add: body_erase)

end

definition cache_body :: "store \<Rightarrow> string \<Rightarrow> string option" where
  "cache_body st k = map_option ce_body (get_cache st k)"

definition write_body :: "int \<Rightarrow> string \<Rightarrow> string \<Rightarrow> store \<Rightarrow> store res" where
  "write_body now k b st = upsert_cache now k b None None st"

definition plain_key :: "string \<Rightarrow> bool" where
  "plain_key k = (\<not> is_game_meta_key k)"

lemma upsert_body:
  "wf_store st \<Longrightarrow> upsert_cache now k b ca src st = Inr st' \<Longrightarrow>
   cache_body st' k' = (if k' = k then Some b else cache_body st k')"
  by (simp add: cache_body_def get_cache_upsert rewritten_def new_entry_def split: option.split)

interpretation cache_store: body_store wf_store plain_key cache_body write_body delete_cache
proof
  show "\<exists>s'. write_body t k b s = Inr s'" if "wf_store s" "plain_key k" for s k t b
    using that upsert_plain_total by (simp add: write_body_def plain_key_def)
  show "wf_store s'" if "wf_store s" "write_body t k b s = Inr s'" for s t k b s'
    using that wf_upsert_cache by (simp add: write_body_def)
  show "cache_body s' k' = (if k' = k then Some b else cache_body s k')"
    if "wf_store s" "write_body t k b s = Inr s'" for s t k b s' k'
    using that upsert_body by (simp add: write_body_def)
  show "wf_store (delete_cache k s)" if "wf_store s" for k s
    using that by (rule wf_deletes)
  show "cache_body (delete_cache k s) k' = (if k' = k then None else cache_body s k')" if "wf_store s" for k s k'
    using that by (simp add: cache_body_def get_cache_delete)
qed

text \<open>A token marked invalid is recognised until it is cleared, and no other token is.\<close>

theorem invalid_token_mark:
  assumes "wf_store st" "mark_token_invalid now token st = Inr st'"
  shows "is_token_invalid st' t = (t = token) \<and> \<not> is_token_invalid (clear_invalid_token st') t"
proof -
  have w: "write_body now key_auth_invalid_token token st = Inr st'"
    using assms(2) by (simp add: mark_token_invalid_def write_body_def)
  have r: "is_token_invalid s t = (cache_body s key_auth_invalid_token = Some t)" for s
    by (auto simp: is_token_invalid_def cache_body_def split: option.splits)
  show ?thesis
    using cache_store.body_put [OF assms(1) w] cache_store.body_erase [OF cache_store.wf_put [OF assms(1) w]]
    by (auto simp: r clear_invalid_token_def)
qed

theorem invalid_token_mark_witness:
  "\<exists>st'. mark_token_invalid 5 ''tok'' (empty_store False) = Inr st' \<and> is_token_invalid st' ''tok'' \<and>
     \<not> is_token_invalid st' ''new''"
proof -
  obtain st' where "mark_token_invalid 5 ''tok'' (empty_store False) = Inr st'"
    using cache_store.put_total [of "empty_store False" key_auth_invalid_token 5 "''tok''"]
    by (auto simp: mark_token_invalid_def write_body_def plain_key_def is_game_meta_key_def key_defs)
  with invalid_token_mark [OF wf_empty_store this] show ?thesis by auto
qed

section \<open>Clearing and eviction\<close>

lemma key_match_lower:
  "plain_prefix p \<Longrightarrow> lower p = p \<Longrightarrow> \<not> starts_with p (lower k) \<Longrightarrow> \<not> key_match st p k"
proof -
  assume p: "plain_prefix p" "lower p = p" and n: "\<not> starts_with p (lower k)"
  have "\<not> starts_with p k"
  proof
    assume "starts_with p k"
    then obtain t where "k = p @ t" by (auto simp: starts_with_iff)
    then have "lower k = p @ lower t" using p by simp
    with n show False by simp
  qed
  then show ?thesis using p n by (simp add: key_match_def like_plain)
qed

lemma prefix_facts:
  "p \<in> set cleared_prefixes \<Longrightarrow> plain_prefix p" "p \<in> set cleared_prefixes \<Longrightarrow> lower p = p"
  "p \<in> set eviction_exempt_prefixes \<Longrightarrow> plain_prefix p" "p \<in> set eviction_exempt_prefixes \<Longrightarrow> lower p = p"
  by (auto simp: cleared_prefixes_def eviction_exempt_prefixes_def plain_prefixes lower_prefixes)

lemma lower_Cons: "lower (c # s) = lower_char c # lower s"
  by (simp add: lower_def)

lemmas lower_eval = lower_Cons lower_char_def is_upper_def

lemma get_cache_clear:
  "wf_store st \<Longrightarrow> get_cache (clear_cache st) k =
     (if (\<exists>p \<in> set cleared_prefixes. key_match st p k) \<or> k = key_cache_budget then None else get_cache st k)"
  using get_cache_Some [of st k]
  by (auto simp: clear_cache_def get_cache_delete_entries split: option.split)

lemma get_cache_evict:
  "wf_store st \<Longrightarrow> get_cache (evict_cache_older_than t st) k = (case get_cache st k of
       None \<Rightarrow> None
     | Some e \<Rightarrow> if ce_cached_at e < t \<and> \<not> (\<exists>p \<in> set eviction_exempt_prefixes. key_match st p k) \<and>
         k \<noteq> key_user_agent then None else Some e)"
  using get_cache_Some [of st k]
  by (auto simp: evict_cache_older_than_def get_cache_delete_entries split: option.split)

lemma cleared_spares:
  assumes "\<And>p. p \<in> set cleared_prefixes \<Longrightarrow> \<not> starts_with p (lower k)" "k \<noteq> key_cache_budget" "wf_store st"
  shows "get_cache (clear_cache st) k = get_cache st k"
proof -
  have "\<not> key_match st p k" if "p \<in> set cleared_prefixes" for p
    using that assms(1) [OF that] by (intro key_match_lower prefix_facts)
  then show ?thesis using assms(2,3) by (auto simp: get_cache_clear)
qed

text \<open>Clearing the cache removes every game entry and the budget, and nothing of the login, the
  user agent, the token mark, the watched files or the queued awards.\<close>

theorem clear_cache_exact:
  assumes "wf_store st"
  shows "(\<forall>p \<in> set cleared_prefixes. \<forall>s. get_cache (clear_cache st) (p @ s) = None) \<and>
    get_cache (clear_cache st) key_cache_budget = None \<and>
    get_cache (clear_cache st) (login_key u) = get_cache st (login_key u) \<and>
    get_cache (clear_cache st) (watch_seen_key path) = get_cache st (watch_seen_key path) \<and>
    get_cache (clear_cache st) key_user_agent = get_cache st key_user_agent \<and>
    get_cache (clear_cache st) key_auth_invalid_token = get_cache st key_auth_invalid_token \<and>
    pending_awards (clear_cache st) = pending_awards st"
proof -
  have "get_cache (clear_cache st) (p @ s) = None" if "p \<in> set cleared_prefixes" for p s
    using that key_match_starts [of p "p @ s" st] assms by (auto simp: get_cache_clear)
  moreover have "get_cache (clear_cache st) key_cache_budget = None"
    using assms by (simp add: get_cache_clear)
  moreover have "get_cache (clear_cache st) (login_key u) = get_cache st (login_key u)"
    by (rule cleared_spares [OF _ _ assms]) (auto simp: cleared_prefixes_def key_defs login_key_def lower_eval)
  moreover have "get_cache (clear_cache st) (watch_seen_key path) = get_cache st (watch_seen_key path)"
    by (rule cleared_spares [OF _ _ assms]) (auto simp: cleared_prefixes_def key_defs watch_seen_key_def lower_eval)
  moreover have "get_cache (clear_cache st) key_user_agent = get_cache st key_user_agent"
    by (rule cleared_spares [OF _ _ assms]) (auto simp: cleared_prefixes_def key_defs lower_eval)
  moreover have "get_cache (clear_cache st) key_auth_invalid_token = get_cache st key_auth_invalid_token"
    by (rule cleared_spares [OF _ _ assms]) (auto simp: cleared_prefixes_def key_defs lower_eval)
  ultimately show ?thesis by (simp add: clear_cache_def)
qed

theorem clear_cache_exact_witness:
  "get_cache (clear_cache (empty_store True)) (''patch:'' @ ''1:bob'') = None"
  using clear_cache_exact [OF wf_empty_store [of True], of "''bob''" "''x''"]
  by (simp add: cleared_prefixes_def key_defs)

text \<open>The keys with an exempt prefix; SQLite compares letters of a LIKE pattern in either case, the JSON file
  does not.\<close>

definition exempt_key :: "store \<Rightarrow> string \<Rightarrow> bool" where
  "exempt_key st k = list_ex (\<lambda>p. starts_with p (if is_sqlite st then lower k else k))
     [''login2::'', ''patch:'', ''achievementsets:'', ''unlocks:'', ''startsession:'', ''gameid:'', ''cachequeue:'', ''watchseen:'']"

lemma exempt_key_match: "(\<exists>p \<in> set eviction_exempt_prefixes. key_match st p k) \<longleftrightarrow> exempt_key st k"
proof -
  have m: "key_match st p k \<longleftrightarrow> starts_with p (if is_sqlite st then lower k else k)"
    if "p \<in> set eviction_exempt_prefixes" for p
    using prefix_facts(3,4) [OF that] by (simp add: key_match_def like_plain)
  have "(\<exists>p \<in> set eviction_exempt_prefixes. key_match st p k) \<longleftrightarrow>
      list_ex (\<lambda>p. starts_with p (if is_sqlite st then lower k else k)) eviction_exempt_prefixes"
    using m by (simp add: list_ex_iff)
  moreover have "eviction_exempt_prefixes =
      [''login2::'', ''patch:'', ''achievementsets:'', ''unlocks:'', ''startsession:'', ''gameid:'', ''cachequeue:'', ''watchseen:'']"
    by (simp add: eviction_exempt_prefixes_def key_defs)
  ultimately show ?thesis unfolding exempt_key_def by metis
qed

text \<open>C28: eviction by age keeps an entry, whatever its key, exactly when it is young enough, holds the user agent,
  or its key has an exempt prefix, and changes none that it keeps; the data of a cached game therefore never
  ages out, while the token mark, the budget, the watch scan time and the last-played times do.  No queued
  award is touched.\<close>

theorem eviction_exact:
  assumes "wf_store st"
  shows "(\<forall>k. get_cache (evict_cache_older_than t st) k = (case get_cache st k of
        None \<Rightarrow> None
      | Some e \<Rightarrow> if t \<le> ce_cached_at e \<or> k = key_user_agent \<or> exempt_key st k then Some e else None)) \<and>
    (\<forall>k \<in> {key_auth_invalid_token, key_cache_budget, key_watch_scans, last_played_key g}.
      k \<noteq> key_user_agent \<and> \<not> exempt_key st k) \<and>
    pending_awards (evict_cache_older_than t st) = pending_awards st"
proof (intro conjI allI)
  show "get_cache (evict_cache_older_than t st) k = (case get_cache st k of
        None \<Rightarrow> None
      | Some e \<Rightarrow> if t \<le> ce_cached_at e \<or> k = key_user_agent \<or> exempt_key st k then Some e else None)" for k
    using assms by (auto simp: get_cache_evict exempt_key_match split: option.split)
  show "\<forall>k \<in> {key_auth_invalid_token, key_cache_budget, key_watch_scans, last_played_key g}.
      k \<noteq> key_user_agent \<and> \<not> exempt_key st k"
    by (auto simp: exempt_key_def key_defs last_played_key_def lower_eval split: if_splits)
qed (simp add: evict_cache_older_than_def)

definition aged :: "string \<Rightarrow> int \<Rightarrow> int \<Rightarrow> cache_entry" where
  "aged k i t = \<lparr>ce_id = i, ce_key = k, ce_body = ''x'', ce_source = None, ce_cached_at = t, ce_first_cached_at = t\<rparr>"

definition aged_store :: store where
  "aged_store = (empty_store False)\<lparr>api_cache := [aged ''patch:1:bob'' 1 2, aged ''ping'' 2 2, aged ''codenotes'' 3 9]\<rparr>"

text \<open>An old answer of a cached game stays, an old incidental one goes and a young one stays.\<close>

theorem eviction_exact_witness:
  "map (get_cache (evict_cache_older_than 5 aged_store)) [''patch:1:bob'', ''ping'', ''codenotes''] =
     [Some (aged ''patch:1:bob'' 1 2), None, Some (aged ''codenotes'' 3 9)]"
proof -
  have wf: "wf_store aged_store" by (simp add: aged_store_def wf_store_def empty_store_def aged_def)
  have e: "get_cache aged_store ''patch:1:bob'' = Some (aged ''patch:1:bob'' 1 2)"
    "get_cache aged_store ''ping'' = Some (aged ''ping'' 2 2)"
    "get_cache aged_store ''codenotes'' = Some (aged ''codenotes'' 3 9)"
    by (simp_all add: aged_store_def get_cache_def aged_def)
  have x: "exempt_key aged_store ''patch:1:bob''" "\<not> exempt_key aged_store ''ping''" "\<not> exempt_key aged_store ''codenotes''"
    by code_simp+
  show ?thesis using eviction_exact [OF wf, of 5 "''1''"] e x by (simp add: aged_def key_defs)
qed

section \<open>The queue of awards\<close>

lemma award_of_fields [simp]: "aw_id (award_of i d) = i" "aw_achievement (award_of i d) = ad_achievement d"
  by (simp_all add: award_of_def)

lemma award_of_dict [simp]: "award_of (aw_id a) (dict_of_award a) = a"
  by (cases a) (simp add: award_of_def dict_of_award_def)

lemma ad_achievement_dict [simp]: "ad_achievement (dict_of_award a) = aw_achievement a"
  by (simp add: dict_of_award_def)

lemma pending_award_exists_iff: "pending_award_exists st a \<longleftrightarrow> a \<in> aw_achievement ` set (pending_awards st)"
  by (auto simp: pending_award_exists_def list_ex_iff)

definition award_id_for :: "store \<Rightarrow> award_dict \<Rightarrow> int" where
  "award_id_for st d = (if is_sqlite st then next_award_id st
     else (case ad_id d of Some i \<Rightarrow> i | None \<Rightarrow> next_json_id (map aw_id (pending_awards st))))"

lemma upsert_pending_award_list:
  assumes wf: "wf_store st" and d: "ad_achievement d \<noteq> WARNING_ACHIEVEMENT_ID"
  shows "pending_awards (upsert_pending_award d st) =
    (if ad_achievement d \<in> aw_achievement ` set (pending_awards st)
     then map (\<lambda>a. if aw_achievement a = ad_achievement d then award_of (aw_id a) d else a) (pending_awards st)
     else pending_awards st @ [award_of (award_id_for st d) d])"
  using d update_first_map [OF wf_storeD(3) [OF wf]]
  by (simp add: upsert_pending_award_def upsert_pending_award_sqlite_def upsert_pending_award_json_def
      award_id_for_def pending_award_exists_iff)

lemma upsert_pending_award_fields [simp]:
  "is_sqlite (upsert_pending_award d st) = is_sqlite st"
  "api_cache (upsert_pending_award d st) = api_cache st"
  "meta_rows (upsert_pending_award d st) = meta_rows st"
  "next_cache_id (upsert_pending_award d st) = next_cache_id st"
  "cached_ids_file (upsert_pending_award d st) = cached_ids_file st"
  by (simp_all add: upsert_pending_award_def upsert_pending_award_sqlite_def upsert_pending_award_json_def)

lemma upsert_pending_award_next:
  "next_award_id (upsert_pending_award d st) =
    (if is_sqlite st \<and> ad_achievement d \<noteq> WARNING_ACHIEVEMENT_ID \<and>
        ad_achievement d \<notin> aw_achievement ` set (pending_awards st)
     then next_award_id st + 1 else next_award_id st)"
  by (simp add: upsert_pending_award_def upsert_pending_award_sqlite_def upsert_pending_award_json_def
      pending_award_exists_iff)

lemma wf_upsert_pending_award [pres_intros]:
  assumes wf: "wf_store st" shows "wf_store (upsert_pending_award d st)"
proof (cases "ad_achievement d = WARNING_ACHIEVEMENT_ID")
  case True
  then show ?thesis using wf by (simp add: upsert_pending_award_def)
next
  case False
  note L = upsert_pending_award_list [OF wf False]
  have m: "map aw_achievement (map (\<lambda>a. if aw_achievement a = ad_achievement d then award_of (aw_id a) d else a) as) =
      map aw_achievement as"
    "map aw_id (map (\<lambda>a. if aw_achievement a = ad_achievement d then award_of (aw_id a) d else a) as) =
      map aw_id as" for as
    by (simp_all add: comp_def)
  have ach: "map aw_achievement (pending_awards (upsert_pending_award d st)) =
      (if ad_achievement d \<in> aw_achievement ` set (pending_awards st) then map aw_achievement (pending_awards st)
       else map aw_achievement (pending_awards st) @ [ad_achievement d])"
    unfolding L by (simp add: m del: map_map)
  have ids: "map aw_id (pending_awards (upsert_pending_award d st)) =
      (if ad_achievement d \<in> aw_achievement ` set (pending_awards st) then map aw_id (pending_awards st)
       else map aw_id (pending_awards st) @ [award_id_for st d])"
    unfolding L by (simp add: m del: map_map)
  have ach_set: "aw_achievement ` set (pending_awards (upsert_pending_award d st)) \<subseteq>
      insert (ad_achievement d) (aw_achievement ` set (pending_awards st))"
    using arg_cong [OF ach, of set] by (auto split: if_splits)
  have "\<forall>i \<in> set (map aw_id (pending_awards (upsert_pending_award d st))).
      i < next_award_id (upsert_pending_award d st)" if sq: "is_sqlite st"
  proof -
    have "\<forall>i \<in> set (map aw_id (pending_awards st)). i < next_award_id st" using wf sq by (auto simp: wf_store_def)
    then show ?thesis using sq False by (auto simp: ids award_id_for_def upsert_pending_award_next split: if_splits)
  qed
  moreover have "distinct (map aw_id (pending_awards (upsert_pending_award d st)))" if sq: "is_sqlite st"
    using wf sq by (auto simp: ids wf_store_def award_id_for_def)
  moreover have "distinct (map aw_achievement (pending_awards (upsert_pending_award d st)))"
    using wf by (simp add: ach wf_store_def)
  moreover have "WARNING_ACHIEVEMENT_ID \<notin> aw_achievement ` set (pending_awards (upsert_pending_award d st))"
    using ach_set wf False by (auto simp: wf_store_def)
  ultimately show ?thesis using wf by (simp add: wf_store_def)
qed

lemma wf_award_deletes [pres_intros]:
  "wf_store st \<Longrightarrow> wf_store (delete_pending_award_row a st)"
  "wf_store st \<Longrightarrow> wf_store (delete_pending_awards_by_statuses ss st)"
  by (auto simp: wf_store_def delete_pending_award_row_def delete_pending_awards_by_statuses_def
      distinct_map_filter)

text \<open>The queue is read oldest first and loses or invents nothing; a queued award is in it once,
  with the fields it was queued with, the awards of other achievements are as before, and the award
  that only carries a warning never enters it.\<close>

theorem award_queue_contents:
  assumes wf: "wf_store st"
  shows "sorted (map (\<lambda>a. (aw_queued_at a, aw_id a)) (get_pending_awards st)) \<and>
    set (get_pending_awards st) = set (pending_awards st) \<and> wf_store (upsert_pending_award d st) \<and>
    filter (\<lambda>a. aw_achievement a \<noteq> ad_achievement d) (pending_awards (upsert_pending_award d st)) =
      filter (\<lambda>a. aw_achievement a \<noteq> ad_achievement d) (pending_awards st) \<and>
    (if ad_achievement d = WARNING_ACHIEVEMENT_ID then upsert_pending_award d st = st
     else \<exists>i. filter (\<lambda>a. aw_achievement a = ad_achievement d) (pending_awards (upsert_pending_award d st)) =
       [award_of i d])"
proof (cases "ad_achievement d = WARNING_ACHIEVEMENT_ID")
  case True
  then show ?thesis using wf by (simp add: get_pending_awards_def upsert_pending_award_def)
next
  case False
  let ?f = "\<lambda>a. if aw_achievement a = ad_achievement d then award_of (aw_id a) d else a"
  have others: "filter (\<lambda>a. aw_achievement a \<noteq> ad_achievement d) (map ?f as) =
      filter (\<lambda>a. aw_achievement a \<noteq> ad_achievement d) as" for as
    by (induction as) auto
  have none: "filter (\<lambda>a. aw_achievement a = ad_achievement d) as = []"
    if "ad_achievement d \<notin> aw_achievement ` set as" for as
    using that by (induction as) auto
  have one: "\<exists>i. filter (\<lambda>a. aw_achievement a = ad_achievement d) (map ?f as) = [award_of i d]"
    if "distinct (map aw_achievement as)" "ad_achievement d \<in> aw_achievement ` set as" for as
    using that
  proof (induction as)
    case (Cons a as)
    have "filter (\<lambda>a. aw_achievement a = ad_achievement d) (map ?f as) = []" if "aw_achievement a = ad_achievement d"
      using Cons.prems(1) that by (auto simp: filter_empty_conv image_iff split: if_splits)
    then show ?case using Cons by auto
  qed simp
  show ?thesis
    using False wf upsert_pending_award_list [OF wf False] one [OF wf_storeD(3) [OF wf]] none others
    by (cases "ad_achievement d \<in> aw_achievement ` set (pending_awards st)")
      (auto simp: get_pending_awards_def wf_upsert_pending_award)
qed

theorem award_queue_contents_witness:
  "filter (\<lambda>a. aw_achievement a \<noteq> 7) (pending_awards (upsert_pending_award
     \<lparr>ad_id = None, ad_achievement = 7, ad_query = [], ad_body = ''a=7'', ad_user_agent = [], ad_queued_at = 3,
       ad_retries = None, ad_error = None, ad_status = None, ad_payload_hash = None, ad_prev_hash = None,
       ad_signature = None, ad_signed_at = None\<rparr> (empty_store True))) = []"
  using award_queue_contents [OF wf_empty_store [of True], of "\<lparr>ad_id = None, ad_achievement = 7, ad_query = [],
    ad_body = ''a=7'', ad_user_agent = [], ad_queued_at = 3, ad_retries = None, ad_error = None, ad_status = None,
    ad_payload_hash = None, ad_prev_hash = None, ad_signature = None, ad_signed_at = None\<rparr>"]
  by (simp add: empty_store_def)

end
