(* ===== verification/Budget_Store.thy ===== *)
theory Budget_Store
  imports Cache_Budget Store_Contracts
begin

text \<open>
  The budget as it is kept in the store, and the throttle of the last-played entries
  (last_played.py).  The clock is the current time of the process, now an explicit argument.
\<close>

section \<open>The stored budget\<close>

definition budget_load :: "store \<Rightarrow> budget_window" where
  "budget_load st = budget_from_json (cache_body st key_cache_budget)"

definition budget_save :: "int \<Rightarrow> budget_window \<Rightarrow> store \<Rightarrow> store res" where
  "budget_save clock w st = write_body clock key_cache_budget (budget_to_json w) st"

definition charge_game :: "int \<Rightarrow> int option \<Rightarrow> store \<Rightarrow> store res" where
  "charge_game clock now st =
     budget_save clock (budget_charge (budget_load st) (or_int now clock) 1 CACHE_BUDGET_WINDOW_MS) st"

definition pause_budget :: "int \<Rightarrow> int \<Rightarrow> store \<Rightarrow> store res" where
  "pause_budget clock until st =
     (if until > paused_until (budget_load st)
      then budget_save clock (budget_pause_until (budget_load st) until) st else Inr st)"

definition budget_used :: "int \<Rightarrow> int option \<Rightarrow> store \<Rightarrow> int" where
  "budget_used clock now st = used_games (budget_current (budget_load st) (or_int now clock) CACHE_BUDGET_WINDOW_MS)"

definition store_remaining :: "int \<Rightarrow> int option \<Rightarrow> store \<Rightarrow> int" where
  "store_remaining clock now st =
     budget_remaining (budget_load st) (or_int now clock) CACHE_BUDGET_LIMIT CACHE_BUDGET_WINDOW_MS"

definition store_next_available_at :: "int \<Rightarrow> int option \<Rightarrow> store \<Rightarrow> int" where
  "store_next_available_at clock now st =
     budget_next_available_at (budget_load st) (or_int now clock) CACHE_BUDGET_LIMIT CACHE_BUDGET_WINDOW_MS"

interpretation budget_cell: json_cell wf_store plain_key cache_body write_body delete_cache
  key_cache_budget budget_to_json budget_from_json
  by unfold_locales (simp_all add: plain_key_def is_game_meta_key_def key_defs budget_json_round_trip)

lemma budget_load_save: "wf_store st \<Longrightarrow> budget_save clock w st = Inr st' \<Longrightarrow> budget_load st' = w"
  using budget_cell.load_save by (simp add: budget_load_def budget_save_def)

text \<open>A charge always succeeds, uses one game of the stored budget, keeps the rest of the store
  as it was, and a pause set in between is kept.\<close>

theorem charge_uses_one_game:
  assumes "wf_store st"
  shows "\<exists>st'. charge_game clock now st = Inr st' \<and> wf_store st' \<and>
    budget_used clock now st' = budget_used clock now st + 1 \<and>
    paused_until (budget_load st') = paused_until (budget_load st) \<and>
    (\<forall>k. k \<noteq> key_cache_budget \<longrightarrow> cache_body st' k = cache_body st k)"
proof -
  obtain st' where s: "charge_game clock now st = Inr st'"
    using budget_cell.save_total [OF assms] by (auto simp: charge_game_def budget_save_def)
  let ?w = "budget_charge (budget_load st) (or_int now clock) 1 CACHE_BUDGET_WINDOW_MS"
  have w: "write_body clock key_cache_budget (budget_to_json ?w) st = Inr st'"
    using s by (simp add: charge_game_def budget_save_def)
  have l: "budget_load st' = ?w" using budget_cell.load_save [OF assms w] by (simp add: budget_load_def)
  have "used_games (budget_current ?w (or_int now clock) CACHE_BUDGET_WINDOW_MS) =
      used_games (budget_current (budget_load st) (or_int now clock) CACHE_BUDGET_WINDOW_MS) + 1"
    by (simp add: budget_charge_def budget_current_def window_expired_def CACHE_BUDGET_WINDOW_MS_def Let_def)
  then show ?thesis
    using s l cache_store.wf_put [OF assms w] cache_store.body_put [OF assms w]
    by (simp add: budget_used_def budget_charge_def Let_def)
qed

theorem charge_uses_one_game_witness:
  "\<exists>st'. charge_game 5 None (empty_store True) = Inr st' \<and> budget_used 5 None st' = 1"
proof -
  have "budget_used 5 None (empty_store True) = 0"
    by (simp add: budget_used_def budget_load_def cache_body_def get_cache_def empty_store_def
        budget_from_json_None budget_current_def fresh_window_def window_expired_def CACHE_BUDGET_WINDOW_MS_def or_int_def)
  with charge_uses_one_game [OF wf_empty_store [of True], of 5 None] show ?thesis by auto
qed

section \<open>Last played games\<close>

definition LAST_PLAYED_WRITE_INTERVAL_MS :: int where "LAST_PLAYED_WRITE_INTERVAL_MS = 60000"

definition last_played_actions :: "string list" where
  "last_played_actions = [''ping'', ''startsession'']"

type_synonym last_written = "int \<Rightarrow> int option"

definition record_game_played ::
  "int \<Rightarrow> int \<Rightarrow> last_written \<times> store \<Rightarrow> unit res \<times> last_written \<times> store" where
  "record_game_played game_id timestamp s = (case s of (written, st) \<Rightarrow>
     if game_id \<le> 0 then (Inr (), written, st)
     else if (case written game_id of None \<Rightarrow> False
              | Some previous \<Rightarrow> timestamp - previous < LAST_PLAYED_WRITE_INTERVAL_MS)
     then (Inr (), written, st)
     else (case upsert_cache timestamp (last_played_key (str_of_int game_id)) (str_of_int timestamp)
              (Some timestamp) None st of
            Inl e \<Rightarrow> (Inl e, written(game_id \<mapsto> timestamp), st)
          | Inr st' \<Rightarrow> (Inr (), written(game_id \<mapsto> timestamp), st')))"

definition recently_played_game_ids :: "cache_entry list \<Rightarrow> int \<Rightarrow> int set" where
  "recently_played_game_ids entries since =
     set (List.map_filter (\<lambda>e. parse_game_id_from_last_played_key (ce_key e))
       (filter (\<lambda>e. ce_cached_at e \<ge> since) entries))"

definition load_recently_played_game_ids :: "store \<Rightarrow> int \<Rightarrow> int set" where
  "load_recently_played_game_ids st since =
     recently_played_game_ids (cache_summaries_by_prefix st prefix_last_played) since"

text \<open>Newest first; a stable sort in reverse keeps equal times in order.\<close>

definition played_game_ids_newest_first :: "store \<Rightarrow> int list" where
  "played_game_ids_newest_first st = List.map_filter (\<lambda>e. parse_game_id_from_last_played_key (ce_key e))
     (sort_key (\<lambda>e. - ce_cached_at e) (cache_summaries_by_prefix st prefix_last_played))"

lemma last_played_plain: "plain_key (last_played_key g)"
  by (simp add: plain_key_def is_game_meta_key_def last_played_key_def key_defs)

text \<open>A game played at a moment counts as played since any earlier moment, as long as no ping
  of the last minute was recorded already.\<close>

theorem played_game_is_recent:
  assumes "wf_store st" "0 < g" "0 < t" "since \<le> t" and "written g = None"
  shows "\<exists>st'. record_game_played g t (written, st) = (Inr (), written(g \<mapsto> t), st') \<and> wf_store st' \<and>
    g \<in> load_recently_played_game_ids st' since"
proof -
  let ?k = "last_played_key (str_of_int g)"
  obtain st' where up: "upsert_cache t ?k (str_of_int t) (Some t) None st = Inr st'"
    using upsert_plain_total last_played_plain [of "str_of_int g"] unfolding plain_key_def by blast
  then obtain e where e: "get_cache st' ?k = Some e" "ce_cached_at e = t"
    using upsert_then_get' [OF assms(1) up] assms(3) by (auto simp: or_int_def)
  have "e\<lparr>ce_body := []\<rparr> \<in> set (cache_summaries_by_prefix st' prefix_last_played)"
    using get_cache_Some [OF e(1)] key_match_starts [of prefix_last_played ?k st']
    by (auto simp: cache_summaries_by_prefix_def last_played_key_def prefix_last_played_def)
  moreover have "parse_game_id_from_last_played_key ?k = Some g"
    using last_played_key_game_id [of g] assms(2) by simp
  ultimately have "g \<in> load_recently_played_game_ids st' since"
    using e get_cache_Some [OF e(1)] assms(4)
    unfolding load_recently_played_game_ids_def recently_played_game_ids_def
    by (auto simp: set_map_filter intro!: bexI [of _ "e\<lparr>ce_body := []\<rparr>"])
  then show ?thesis using up assms wf_upsert_cache [OF assms(1) up] by (simp add: record_game_played_def)
qed

theorem played_game_is_recent_witness:
  "\<exists>st'. record_game_played 9 70000 (Map.empty, empty_store False) = (Inr (), [9 \<mapsto> 70000], st') \<and>
     9 \<in> load_recently_played_game_ids st' 60000"
  using played_game_is_recent [OF wf_empty_store [of False], of 9 70000 60000 Map.empty] by auto

end
