(* ===== verification/Py_Url.thy ===== *)
theory Py_Url
  imports Py_Json
begin

text \<open>
  The functions of urllib.parse the program calls, on the bytes of a string: percent coding with
  plus signs, parse_qsl with keep_blank_values, urlencode and the query of urlsplit.  Reading back
  an encoded list of pairs gives the list.
\<close>

definition url_safe :: "char \<Rightarrow> bool" where
  "url_safe c = (is_alnum c \<or> c \<in> set ''_.-~'')"

definition hex_upper :: "nat \<Rightarrow> char" where
  "hex_upper d = (if d < 10 then char_of (48 + d) else char_of (55 + d))"

definition quote_char :: "char \<Rightarrow> string" where
  "quote_char c =
     (if url_safe c then [c]
      else if c = CHR '' '' then ''+''
      else [CHR ''%'', hex_upper (code c div 16), hex_upper (code c mod 16)])"

definition quote_plus :: "string \<Rightarrow> string" where
  "quote_plus s = concat (map quote_char s)"

fun percent_decode :: "string \<Rightarrow> string" where
  "percent_decode (c # d # e # s) =
     (if c = CHR ''%'' then
        (case (hex_val d, hex_val e) of
           (Some a, Some b) \<Rightarrow> char_of (a * 16 + b) # percent_decode s
         | _ \<Rightarrow> c # percent_decode (d # e # s))
      else c # percent_decode (d # e # s))"
| "percent_decode (c # d # []) = [c, d]"
| "percent_decode (c # []) = [c]"
| "percent_decode [] = []"

definition unquote_plus :: "string \<Rightarrow> string" where
  "unquote_plus s = percent_decode (map (\<lambda>c. if c = CHR ''+'' then CHR '' '' else c) s)"

definition parse_field :: "string \<Rightarrow> string \<times> string" where
  "parse_field s = (unquote_plus (before CHR ''='' s), unquote_plus (after CHR ''='' s))"

definition parse_qsl :: "string \<Rightarrow> (string \<times> string) list" where
  "parse_qsl s = map parse_field (filter (\<lambda>f. f \<noteq> []) (split_on CHR ''&'' s))"

definition encode_field :: "string \<times> string \<Rightarrow> string" where
  "encode_field p = quote_plus (fst p) @ ''='' @ quote_plus (snd p)"

definition urlencode :: "(string \<times> string) list \<Rightarrow> string" where
  "urlencode ps = join ''&'' (map encode_field ps)"

definition url_query :: "string \<Rightarrow> string" where
  "url_query s =
     after CHR ''?'' (before CHR ''#''
       (filter (\<lambda>c. code c \<notin> {9, 10, 13}) (dropWhile (\<lambda>c. code c \<le> 32) s)))"

lemma hex_val_hex_upper [simp]: "d < 16 \<Longrightarrow> hex_val (hex_upper d) = Some d"
  by (auto simp: hex_val_def hex_upper_def is_digit_def)

lemma hex_upper_alnum [simp]: "d < 16 \<Longrightarrow> is_alnum (hex_upper d)"
  by (auto simp: hex_upper_def is_alnum_def is_digit_def is_upper_def)

lemma alnum_not_special: "is_alnum c \<Longrightarrow> c \<notin> set ''%+=& ''"
  by (auto simp: is_alnum_def is_digit_def is_upper_def is_lower_def)

lemma url_safe_not_special: "url_safe c \<Longrightarrow> c \<notin> set ''%+=& ''"
  using alnum_not_special [of c] by (auto simp: url_safe_def)

lemma code_16: "code c div 16 < 16" "code c mod 16 < 16"
  using code_less_256 [of c] less_mult_imp_div_less [of "code c" 16 16] by simp_all

lemma quote_plus_special [simp]: "CHR ''&'' \<notin> set (quote_plus s)" "CHR ''='' \<notin> set (quote_plus s)"
proof -
  have "d \<noteq> CHR ''&'' \<and> d \<noteq> CHR ''=''" if "d \<in> set (quote_char c)" for c d
    using that url_safe_not_special [of c] alnum_not_special [OF hex_upper_alnum [OF code_16(1) [of c]]]
      alnum_not_special [OF hex_upper_alnum [OF code_16(2) [of c]]]
    by (auto simp: quote_char_def split: if_splits)
  then show "CHR ''&'' \<notin> set (quote_plus s)" "CHR ''='' \<notin> set (quote_plus s)"
    unfolding quote_plus_def by fastforce+
qed

lemma percent_decode_Cons: "c \<noteq> CHR ''%'' \<Longrightarrow> percent_decode (c # s) = c # percent_decode s"
  by (cases s; cases "tl s") auto

abbreviation plus_to_space :: "char \<Rightarrow> char" where
  "plus_to_space c \<equiv> (if c = CHR ''+'' then CHR '' '' else c)"

lemma unquote_quote_char: "unquote_plus (quote_char c @ s) = c # unquote_plus s"
proof -
  consider "url_safe c" | "c = CHR '' ''" "\<not> url_safe c" | "\<not> url_safe c" "c \<noteq> CHR '' ''" by blast
  then show ?thesis
  proof cases
    case 1
    then show ?thesis using url_safe_not_special [of c]
      by (simp add: unquote_plus_def quote_char_def percent_decode_Cons)
  next
    case 2
    then show ?thesis by (simp add: unquote_plus_def quote_char_def percent_decode_Cons)
  next
    case 3
    have "plus_to_space (hex_upper d) = hex_upper d" if "d < 16" for d
      using alnum_not_special [OF hex_upper_alnum [OF that]] by auto
    moreover have "char_of (code c div 16 * 16 + code c mod 16) = c"
      by (simp only: div_mult_mod_eq char_of_char)
    ultimately show ?thesis using 3 code_16 [of c]
      by (simp add: unquote_plus_def quote_char_def)
  qed
qed

lemma unquote_quote_plus [simp, str_simps]: "unquote_plus (quote_plus s) = s"
proof (induction s)
  case Nil
  then show ?case by (simp add: unquote_plus_def quote_plus_def)
next
  case (Cons c s)
  have "quote_plus (c # s) = quote_char c @ quote_plus s" by (simp add: quote_plus_def)
  then show ?case using Cons by (simp add: unquote_quote_char)
qed

lemma parse_field_encode [simp]: "parse_field (encode_field p) = p"
  by (simp add: parse_field_def encode_field_def)

lemma encode_field_not_Nil [simp]: "encode_field p \<noteq> []"
  by (simp add: encode_field_def)

lemma encode_field_amp [simp]: "CHR ''&'' \<notin> set (encode_field p)"
  by (simp add: encode_field_def)

lemma parse_qsl_urlencode [simp, str_simps]: "parse_qsl (urlencode ps) = ps"
proof (cases "ps = []")
  case True
  then show ?thesis by (simp add: urlencode_def parse_qsl_def)
next
  case False
  then have "split_on CHR ''&'' (urlencode ps) = map encode_field ps"
    unfolding urlencode_def by (intro split_on_join) auto
  moreover have "filter (\<lambda>f. f \<noteq> []) (map encode_field ps) = map encode_field ps"
    by (simp add: filter_map comp_def)
  ultimately show ?thesis by (simp add: parse_qsl_def comp_def)
qed

end
