(* ===== verification/Request_Params.thy ===== *)
theory Request_Params
  imports Py_Url
begin

text \<open>
  The request helpers of utils.py: reading one parameter of a form body or of the query of a path
  (the query first), rewriting a form body, and the redaction of the secret parameters of form
  bodies and log lines.
\<close>

definition parse_form_params :: "string \<Rightarrow> (string \<times> string) list" where
  "parse_form_params body = (if body = [] then [] else dict_of (parse_qsl body))"

definition extract_form_param :: "string \<Rightarrow> string \<Rightarrow> string option" where
  "extract_form_param body name = map_of (parse_form_params body) name"

definition extract_query_param :: "string \<Rightarrow> string \<Rightarrow> string option" where
  "extract_query_param path name =
     (let query = url_query path in
      if query = [] then None else map_of (dict_of (parse_qsl query)) name)"

definition extract_request_param :: "string \<Rightarrow> string \<Rightarrow> string \<Rightarrow> string option" where
  "extract_request_param path body name = (case extract_query_param path name of
       None \<Rightarrow> extract_form_param body name
     | Some v \<Rightarrow> if v = [] then extract_form_param body name else Some v)"

definition extract_action :: "string \<Rightarrow> string \<Rightarrow> string option" where
  "extract_action path body = extract_request_param path body ''r''"

definition is_hardcore_request :: "string \<Rightarrow> string \<Rightarrow> bool" where
  "is_hardcore_request path body = (extract_request_param path body ''h'' = Some ''1'')"

text \<open>The loop over the fields of a form body: the first field of the name takes the new value,
  later ones are dropped.  The names are written back as they were decoded.\<close>

fun replace_fields :: "string \<Rightarrow> string \<Rightarrow> bool \<Rightarrow> (string \<times> string) list \<Rightarrow> string list \<times> bool" where
  "replace_fields name enc done [] = ([], done)"
| "replace_fields name enc done ((k, v) # ps) =
     (if k = name \<and> \<not> done then
        (let (us, d) = replace_fields name enc True ps in ((k @ ''='' @ enc) # us, d))
      else if k = name then replace_fields name enc done ps
      else (let (us, d) = replace_fields name enc done ps in ((k @ ''='' @ quote_plus v) # us, d)))"

definition replace_or_append_form_param :: "string \<Rightarrow> string \<Rightarrow> string \<Rightarrow> string" where
  "replace_or_append_form_param body name value =
     (let enc = quote_plus value;
          (us, done) = replace_fields name enc False (parse_qsl body)
      in join ''&'' (if done then us else us @ [name @ ''='' @ enc]))"

definition build_form_body :: "(string \<times> string) list \<Rightarrow> string" where
  "build_form_body params = urlencode params"

definition proxy_user_agent :: "string \<Rightarrow> string \<Rightarrow> string" where
  "proxy_user_agent tag original = (if contains tag original then original else original @ '' '' @ tag)"

definition self_user_agent :: "string \<Rightarrow> string \<Rightarrow> string" where
  "self_user_agent tag fallback = proxy_user_agent tag fallback"

definition canonical_reason_phrase :: "int \<Rightarrow> string" where
  "canonical_reason_phrase status =
     (case map_of [(200, ''OK''), (400, ''Bad Request''), (401, ''Unauthorized''), (403, ''Forbidden''),
        (404, ''Not Found''), (405, ''Method Not Allowed''), (413, ''Payload Too Large''),
        (500, ''Internal Server Error''), (501, ''Not Implemented''), (503, ''Service Unavailable'')] status of
        None \<Rightarrow> ''Response'' | Some p \<Rightarrow> p)"

definition token_mark :: string where
  "token_mark = ''<token>''"

text \<open>The characters that start a parameter in free text and those that end its value.\<close>

definition secret_delim :: "char \<Rightarrow> bool" where
  "secret_delim c = (is_space c \<or> c = dquote \<or> code c = 39 \<or> c \<in> set ''?&,;[({'')"

definition secret_end :: "char \<Rightarrow> bool" where
  "secret_end c = (is_space c \<or> c = dquote \<or> code c = 39 \<or> c \<in> set ''&])}'')"

text \<open>The substitution of the secret pattern from left to right: at the start of the text, or after
  a delimiter, t= or p= loses its value.  A delimiter that ends one value may start the next.\<close>

function redact_from :: "bool \<Rightarrow> string \<Rightarrow> string" where
  "redact_from start s =
     (if start \<and> (starts_with ''t='' s \<or> starts_with ''p='' s)
      then take 2 s @ token_mark @ redact_from False (dropWhile (\<lambda>c. \<not> secret_end c) (drop 2 s))
      else (case s of [] \<Rightarrow> [] | c # cs \<Rightarrow> c # redact_from (secret_delim c) cs))"
  by pat_completeness auto
termination
proof (relation "measure (length \<circ> snd)")
  fix start s
  assume "start \<and> (starts_with ''t='' s \<or> starts_with ''p='' s)"
  then have "2 \<le> length s" by (auto simp: starts_with_iff)
  then show "((False, dropWhile (\<lambda>c. \<not> secret_end c) (drop 2 s)), start, s) \<in> measure (length \<circ> snd)"
    using length_dropWhile_le [of "\<lambda>c. \<not> secret_end c" "drop 2 s"] by simp
qed auto

declare redact_from.simps [simp del]

definition redact_query_tokens :: "string \<Rightarrow> string" where
  "redact_query_tokens value = redact_from True value"

definition redact_form_tokens :: "string \<Rightarrow> string" where
  "redact_form_tokens value =
     urlencode (map (\<lambda>(k, v). (k, if k = ''t'' \<or> k = ''p'' then token_mark else v)) (parse_qsl value))"

definition query_params_from_path :: "string \<Rightarrow> (string \<times> string) list" where
  "query_params_from_path path = dict_of (parse_qsl (url_query path))"

definition decode_value :: "string \<Rightarrow> string" where
  "decode_value value = unquote_plus value"

section \<open>Form bodies\<close>

lemma extract_form_param_build:
  "ps \<noteq> [] \<Longrightarrow> extract_form_param (build_form_body ps) name = map_of (rev ps) name"
proof -
  assume "ps \<noteq> []"
  then have "urlencode ps \<noteq> []"
    using parse_qsl_urlencode [of ps] by (auto simp: parse_qsl_def)
  then show ?thesis
    by (simp add: extract_form_param_def parse_form_params_def build_form_body_def map_of_dict_of)
qed

definition plain_name :: "string \<Rightarrow> bool" where
  "plain_name s = list_all url_safe s"

lemma quote_plus_plain: "plain_name s \<Longrightarrow> quote_plus s = s"
  by (induction s) (auto simp: plain_name_def quote_plus_def quote_char_def)

fun replaced :: "string \<Rightarrow> string \<Rightarrow> bool \<Rightarrow> (string \<times> string) list \<Rightarrow> (string \<times> string) list" where
  "replaced name v done [] = []"
| "replaced name v done ((k, w) # ps) =
     (if k = name then (if done then replaced name v done ps else (k, v) # replaced name v True ps)
      else (k, w) # replaced name v done ps)"

lemma replace_fields_replaced:
  "\<forall>(k, w) \<in> set ps. plain_name k \<Longrightarrow>
   replace_fields name (quote_plus v) d ps =
     (map encode_field (replaced name v d ps), d \<or> name \<in> fst ` set ps)"
  by (induction name v d ps rule: replaced.induct) (auto simp: encode_field_def quote_plus_plain)

text \<open>What a form body holds after one parameter was replaced or appended.\<close>

definition form_after :: "string \<Rightarrow> string \<Rightarrow> (string \<times> string) list \<Rightarrow> (string \<times> string) list" where
  "form_after name v ps =
     (if name \<in> fst ` set ps then replaced name v False ps else ps @ [(name, v)])"

lemma replaced_absent: "name \<notin> fst ` set ps \<Longrightarrow> replaced name v d ps = ps"
  by (induction name v d ps rule: replaced.induct) auto

lemma replace_or_append_urlencode:
  assumes "plain_name name" "\<forall>(k, w) \<in> set (parse_qsl body). plain_name k"
  shows "replace_or_append_form_param body name v = urlencode (form_after name v (parse_qsl body))"
  using assms replace_fields_replaced [OF assms(2), of name v False]
  by (auto simp: replace_or_append_form_param_def form_after_def urlencode_def encode_field_def
      quote_plus_plain replaced_absent)

lemma map_of_rev_replaced:
  "map_of (rev (replaced name v d ps)) k =
     (if k = name then (if d \<or> name \<notin> fst ` set ps then None else Some v) else map_of (rev ps) k)"
proof (induction name v d ps rule: replaced.induct)
  case (2 name v d key w ps)
  then show ?case
    by (cases "key = name"; cases d; cases "k = name") (simp_all add: map_add_def split: option.split)
qed simp

lemma map_of_rev_form_after:
  "map_of (rev (form_after name v ps)) k = (if k = name then Some v else map_of (rev ps) k)"
  by (simp add: form_after_def map_of_rev_replaced)

text \<open>A parameter written into a form body is read back, and every other parameter reads as
  before, when the names in the body need no escaping.\<close>

theorem replaced_param_read_back:
  assumes "plain_name name" "\<forall>(k, w) \<in> set (parse_qsl body). plain_name k"
  shows "extract_form_param (replace_or_append_form_param body name v) n =
    (if n = name then Some v else extract_form_param body n)"
proof -
  have "form_after name v (parse_qsl body) \<noteq> []"
    using map_of_rev_form_after [of name v "parse_qsl body" name] by auto
  then have "extract_form_param (replace_or_append_form_param body name v) n =
      map_of (rev (form_after name v (parse_qsl body))) n"
    using extract_form_param_build replace_or_append_urlencode [OF assms]
    by (simp add: build_form_body_def)
  then show ?thesis
    by (auto simp: map_of_rev_form_after extract_form_param_def parse_form_params_def map_of_dict_of
        parse_qsl_def)
qed

theorem replaced_param_read_back_witness:
  "extract_form_param (replace_or_append_form_param ''r=awardachievement&h=1'' ''h'' ''0'') ''h'' = Some ''0''"
  using replaced_param_read_back [of "''h''" "''r=awardachievement&h=1''" "''0''" "''h''"]
  by (simp add: plain_name_def url_safe_def parse_qsl_def parse_field_def before_def after_def
      unquote_plus_def is_alnum_def is_digit_def is_upper_def is_lower_def)

end
