(* ===== verification/Rate_Limit.thy ===== *)
theory Rate_Limit
  imports Py_Prelude
begin

text \<open>
  The pause after a 429 (rate_limit.py): a moment shared by all threads, and the depth of background
  blocks of the running thread.
\<close>

definition RATE_LIMIT_PAUSE_MS :: int where "RATE_LIMIT_PAUSE_MS = 10 * 60 * 1000"

record limiter =
  pause_end :: int
  bg_depth :: int

definition in_background :: "limiter \<Rightarrow> bool" where
  "in_background l = (bg_depth l > 0)"

definition enter_background :: "limiter \<Rightarrow> limiter" where
  "enter_background l = l\<lparr>bg_depth := bg_depth l + 1\<rparr>"

definition leave_background :: "limiter \<Rightarrow> limiter" where
  "leave_background l = l\<lparr>bg_depth := bg_depth l - 1\<rparr>"

text \<open>A block under the context manager: the depth is restored whether the block returns or raises.\<close>

definition background :: "(limiter \<Rightarrow> 'a res \<times> limiter) \<Rightarrow> limiter \<Rightarrow> 'a res \<times> limiter" where
  "background block l = (case block (enter_background l) of (r, l1) \<Rightarrow> (r, leave_background l1))"

definition on_rate_limited :: "int option \<Rightarrow> int \<Rightarrow> limiter \<Rightarrow> limiter" where
  "on_rate_limited retry_after_ms now l =
     (let until = now + max RATE_LIMIT_PAUSE_MS (or_int retry_after_ms 0)
      in l\<lparr>pause_end := max (pause_end l) until\<rparr>)"

definition rate_paused_until :: "int \<Rightarrow> limiter \<Rightarrow> int option" where
  "rate_paused_until now l = (if pause_end l > now then Some (pause_end l) else None)"

lemma in_background_enter: "0 \<le> bg_depth l \<Longrightarrow> in_background (enter_background l)"
  by (simp add: in_background_def enter_background_def)

lemma background_depth:
  "(\<And>l. bg_depth (snd (block l)) = bg_depth l) \<Longrightarrow> bg_depth (snd (background block l)) = bg_depth l"
proof -
  assume "\<And>l. bg_depth (snd (block l)) = bg_depth l"
  from this [of "enter_background l"] show ?thesis
    by (cases "block (enter_background l)")
      (simp add: background_def leave_background_def enter_background_def)
qed

text \<open>After a 429 the background is paused at every moment of the next ten minutes, and of the
  time the server asked for; later 429s never shorten a pause.\<close>

theorem rate_limit_pauses:
  assumes "now \<le> t" "t < now + max (10 * 60 * 1000) (or_int retry_after_ms 0)"
  shows "rate_paused_until t (fold (\<lambda>(r, n). on_rate_limited r n) later (on_rate_limited retry_after_ms now l)) \<noteq> None"
proof -
  have mono: "pause_end s \<le> pause_end (fold (\<lambda>(r, n). on_rate_limited r n) later s)" for s
  proof (induction later arbitrary: s)
    case (Cons p later)
    obtain r n where "p = (r, n)" by (cases p)
    moreover have "pause_end s \<le> pause_end (on_rate_limited r n s)"
      by (simp add: on_rate_limited_def Let_def)
    ultimately show ?case using Cons.IH [of "on_rate_limited r n s"] by simp
  qed simp
  have "t < pause_end (on_rate_limited retry_after_ms now l)"
    using assms by (simp add: on_rate_limited_def Let_def RATE_LIMIT_PAUSE_MS_def)
  with mono [of "on_rate_limited retry_after_ms now l"] show ?thesis by (simp add: rate_paused_until_def)
qed

theorem rate_limit_pauses_witness:
  "rate_paused_until 599999 (on_rate_limited (Some 5000) 0 \<lparr>pause_end = 0, bg_depth = 0\<rparr>) \<noteq> None"
  using rate_limit_pauses [of 0 599999 "Some 5000" "[]"] by (simp add: or_int_def)

end
