(* ===== verification/Rom_Cache.thy ===== *)
theory Rom_Cache
  imports Budget_Store Request_Params Rate_Limit
begin

text \<open>
  Caching the data of one game (rom_cache.py): the requests and what they store, the filters that
  take the warning achievement out of a response, and the unlocks shown to a client offline.  The
  network is a function from a URL and a user agent to a reply; images are not modelled.  A deep copy
  of a JSON value is the value.
\<close>

datatype reply = Body string | HttpError int | NetworkError

datatype cache_error = CacheGameAuthError | CacheGameError | CacheRaised exn

record credentials =
  cr_user :: string
  cr_token :: string

type_synonym network = "string \<Rightarrow> string \<Rightarrow> reply"

definition RC_ACHIEVEMENT_FLAG_CORE :: int where "RC_ACHIEVEMENT_FLAG_CORE = 3"
definition LIKELY_RECENT_GAMES :: nat where "LIKELY_RECENT_GAMES = 10"

definition build_api_url :: "string \<Rightarrow> string \<Rightarrow> (string \<times> string) list \<Rightarrow> string" where
  "build_api_url base action params =
     rev (dropWhile (\<lambda>c. c = CHR ''/'') (rev base)) @ ''/dorequest.php?'' @
     urlencode (dict_of ((''r'', action) # params))"

section \<open>Filters\<close>

definition filter_warning_achievement_ids :: "int list \<Rightarrow> int list" where
  "filter_warning_achievement_ids ids = filter (\<lambda>i. i > 0 \<and> i \<noteq> WARNING_ACHIEVEMENT_ID) ids"

text \<open>Equality with an int, which a bool of the same number satisfies.\<close>

definition eq_int :: "json \<Rightarrow> int \<Rightarrow> bool" where
  "eq_int v i = (as_int v = Some i)"

definition field :: "string \<Rightarrow> json \<Rightarrow> json \<Rightarrow> json" where
  "field k d v = (case v of JObj ps \<Rightarrow> (case map_of ps k of None \<Rightarrow> d | Some x \<Rightarrow> x) | _ \<Rightarrow> d)"

definition set_field :: "string \<Rightarrow> json \<Rightarrow> json \<Rightarrow> json" where
  "set_field k x v = (case v of JObj ps \<Rightarrow> JObj (AList.update k x ps) | _ \<Rightarrow> v)"

definition core_achievement :: "json \<Rightarrow> bool" where
  "core_achievement a = (is_obj a \<and> eq_int (field ''Flags'' (JInt RC_ACHIEVEMENT_FLAG_CORE) a) RC_ACHIEVEMENT_FLAG_CORE)"

definition filter_set :: "json \<Rightarrow> json" where
  "filter_set s = (case field ''Achievements'' JNull s of
       JList as \<Rightarrow> set_field ''Achievements'' (JList (filter core_achievement as)) s
     | _ \<Rightarrow> s)"

text \<open>The filters take the value of a parsed body; get on a value that is no dict raises.\<close>

definition filter_warning_achievement_definitions :: "json \<Rightarrow> json res" where
  "filter_warning_achievement_definitions payload = bind_res (jget ''Sets'' JNull payload) (\<lambda>sets.
     Inr (case sets of JList ss \<Rightarrow> set_field ''Sets'' (JList (map filter_set ss)) payload | _ \<Rightarrow> payload))"

definition not_warning :: "json \<Rightarrow> bool" where
  "not_warning a = (is_obj a \<and> \<not> eq_int (field ''ID'' JNull a) WARNING_ACHIEVEMENT_ID)"

definition filter_warning_achievement_from_patch_payload :: "json \<Rightarrow> json res" where
  "filter_warning_achievement_from_patch_payload payload =
     bind_res (jget ''PatchData'' JNull payload) (\<lambda>pd. Inr (case field ''Achievements'' JNull pd of
         JList as \<Rightarrow> set_field ''PatchData'' (set_field ''Achievements'' (JList (filter not_warning as)) pd) payload
       | JObj as \<Rightarrow> set_field ''PatchData''
           (set_field ''Achievements'' (JObj (filter (\<lambda>(k, a). not_warning a) as)) pd) payload
       | _ \<Rightarrow> payload))"

definition filter_warning_achievement_from_start_session_payload :: "json \<Rightarrow> json res" where
  "filter_warning_achievement_from_start_session_payload payload =
     bind_res (jget ''Unlocks'' JNull payload) (\<lambda>us. Inr (case us of
         JList es \<Rightarrow> set_field ''Unlocks'' (JList (filter not_warning es)) payload
       | _ \<Rightarrow> payload))"

text \<open>The ints of a list, as the program keeps them: a bool stays a bool.\<close>

definition filter_json_ids :: "json list \<Rightarrow> json list" where
  "filter_json_ids vs = filter (\<lambda>v. case as_int v of
       Some i \<Rightarrow> i > 0 \<and> i \<noteq> WARNING_ACHIEVEMENT_ID | None \<Rightarrow> False) vs"

definition filter_warning_achievement_from_unlocks_payload :: "json \<Rightarrow> json res" where
  "filter_warning_achievement_from_unlocks_payload payload =
     bind_res (jget ''UserUnlocks'' JNull payload) (\<lambda>us. Inr (case us of
         JList vs \<Rightarrow> set_field ''UserUnlocks'' (JList (filter_json_ids vs)) payload
       | _ \<Rightarrow> payload))"

definition filter_warning_achievements_for_action :: "string option \<Rightarrow> string \<Rightarrow> string res" where
  "filter_warning_achievements_for_action action body =
     (if action \<notin> {Some ''patch'', Some ''achievementsets'', Some ''unlocks'', Some ''startsession''} then Inr body
      else case loads body of
             Inl _ \<Rightarrow> Inr body
           | Inr payload \<Rightarrow> bind_res
              (if action = Some ''unlocks'' then filter_warning_achievement_from_unlocks_payload payload
               else if action = Some ''startsession'' then filter_warning_achievement_from_start_session_payload payload
               else if action = Some ''patch'' then filter_warning_achievement_from_patch_payload payload
               else filter_warning_achievement_definitions payload)
              (\<lambda>p. Inr (dumps_compact p)))"

section \<open>Awards of a user\<close>

definition query_part :: "string \<Rightarrow> string" where
  "query_part q = (if CHR ''?'' \<in> set q then after CHR ''?'' q else [])"

definition pending_award_user :: "award \<Rightarrow> string option" where
  "pending_award_user a = (case map_of (parse_form_params (query_part (aw_query a))) ''u'' of
       Some u \<Rightarrow> if u = [] then extract_form_param (aw_body a) ''u'' else Some u
     | None \<Rightarrow> extract_form_param (aw_body a) ''u'')"

definition is_pending_softcore_unlock :: "award \<Rightarrow> string option \<Rightarrow> bool" where
  "is_pending_softcore_unlock a user =
     (aw_status a = STATUS_PENDING \<and> aw_achievement a > 0 \<and>
      \<not> is_hardcore_request (aw_query a) (aw_body a) \<and>
      (user = None \<or> pending_award_user a = user))"

definition pending_unlock_achievement_ids :: "award list \<Rightarrow> string option \<Rightarrow> int list" where
  "pending_unlock_achievement_ids as user =
     remdups (map aw_achievement (filter (\<lambda>a. is_pending_softcore_unlock a user) as))"

section \<open>Which game an achievement belongs to\<close>

definition obj_values :: "json \<Rightarrow> json list" where
  "obj_values v = (case v of JObj ps \<Rightarrow> map snd ps | JList vs \<Rightarrow> vs | _ \<Rightarrow> [])"

definition iter_achievementsets_achievements :: "json \<Rightarrow> int \<Rightarrow> (int \<times> json) list" where
  "iter_achievementsets_achievements payload default_game =
     (case field ''Achievements'' JNull payload of
        JObj ps \<Rightarrow> map (Pair default_game) (filter is_obj (map snd ps))
      | JList vs \<Rightarrow> map (Pair default_game) (filter is_obj vs)
      | _ \<Rightarrow> (case field ''Sets'' JNull payload of
                JList ss \<Rightarrow> concat (map (\<lambda>s. case field ''Achievements'' JNull s of
                     JList as \<Rightarrow> map (Pair (case as_int (field ''GameId'' JNull s) of
                           Some g \<Rightarrow> if g > 0 then g else default_game | None \<Rightarrow> default_game))
                         (filter is_obj as)
                   | _ \<Rightarrow> []) (filter is_obj ss))
              | _ \<Rightarrow> []))"

type_synonym game_ids = "(int \<times> int) list"

definition setdefault :: "'a \<Rightarrow> 'b \<Rightarrow> ('a \<times> 'b) list \<Rightarrow> ('a \<times> 'b) list" where
  "setdefault k v d = (if k \<in> fst ` set d then d else d @ [(k, v)])"

definition note_achievement :: "int \<times> json \<Rightarrow> game_ids \<Rightarrow> game_ids res" where
  "note_achievement ga d = bind_res (jget ''ID'' JNull (snd ga)) (\<lambda>i. Inr (case as_int i of
       Some a \<Rightarrow> if a > 0 then setdefault a (fst ga) d else d
     | None \<Rightarrow> d))"

text \<open>One cached patch, read into the map.\<close>

definition note_patch_entry :: "cache_entry \<Rightarrow> game_ids \<Rightarrow> game_ids res" where
  "note_patch_entry e d = (case parse_game_id_from_patch_key (ce_key e) of
       None \<Rightarrow> Inr d
     | Some g \<Rightarrow>
        (case loads (ce_body e) of
           Inl _ \<Rightarrow> Inr d
         | Inr payload \<Rightarrow>
            bind_res (jget ''PatchData'' JNull payload) (\<lambda>pd0. let pd = py_or pd0 (JObj []) in
            bind_res (jget ''Achievements'' (JList []) pd) (\<lambda>as. case as of
                JObj ps \<Rightarrow> fold_res note_achievement (map (Pair g) (map snd ps)) d
              | JList vs \<Rightarrow> fold_res note_achievement (map (Pair g) vs) d
              | JStr s \<Rightarrow> if s = [] then Inr d else Inl AttributeError
              | _ \<Rightarrow> Inl TypeError))))"

definition note_achievementsets_entry :: "cache_entry \<Rightarrow> game_ids \<Rightarrow> game_ids res" where
  "note_achievementsets_entry e d = (case loads (ce_body e) of
       Inl _ \<Rightarrow> Inr d
     | Inr payload \<Rightarrow> bind_res (jget ''GameId'' JNull payload) (\<lambda>gv. case as_int gv of
           None \<Rightarrow> Inr d
         | Some g \<Rightarrow> if g \<le> 0 then Inr d
             else fold_res note_achievement (iter_achievementsets_achievements payload g) d))"

definition build_achievement_game_ids :: "cache_entry list \<Rightarrow> cache_entry list \<Rightarrow> game_ids res" where
  "build_achievement_game_ids patch_entries sets_entries =
     bind_res (fold_res note_patch_entry patch_entries [])
       (fold_res note_achievementsets_entry sets_entries)"

text \<open>The text test that decides which bodies are parsed: a quoted ID, a colon and one of the ids,
  no digit after it.\<close>

definition mentions_id_at :: "int list \<Rightarrow> string \<Rightarrow> bool" where
  "mentions_id_at ids s = (case lit_then (quoted ''ID'') (lit_then '':'' Some) s of
       None \<Rightarrow> False
     | Some r \<Rightarrow> list_ex (\<lambda>i. starts_with (str_of_int i) r \<and>
         (case drop (length (str_of_int i)) r of [] \<Rightarrow> True | c # _ \<Rightarrow> \<not> is_digit c)) ids)"

fun mentions_id :: "int list \<Rightarrow> string \<Rightarrow> bool" where
  "mentions_id ids [] = False"
| "mentions_id ids (c # cs) = (mentions_id_at ids (c # cs) \<or> mentions_id ids cs)"

definition likely_first_prefixes :: "store \<Rightarrow> int option \<Rightarrow> string list" where
  "likely_first_prefixes st likely =
     map (\<lambda>g. patch_prefix (str_of_int g))
       (rev (remdups (rev ((case likely of None \<Rightarrow> [] | Some g \<Rightarrow> [g]) @
          take LIKELY_RECENT_GAMES (played_game_ids_newest_first st)))))
     @ [prefix_patch, prefix_achievementsets]"

text \<open>The search over the cached entries, with its two early returns.\<close>

fun find_in_entries :: "bool \<Rightarrow> int list \<Rightarrow> cache_entry list \<Rightarrow> game_ids \<Rightarrow> game_ids res" where
  "find_in_entries sets wanted [] found = Inr found"
| "find_in_entries sets wanted (e # es) found =
     (if length found = length wanted then Inr found
      else if \<not> mentions_id wanted (ce_body e) then find_in_entries sets wanted es found
      else bind_res (if sets then build_achievement_game_ids [] [e] else build_achievement_game_ids [e] [])
        (\<lambda>m. find_in_entries sets wanted es
           (fold (\<lambda>a d. case map_of m a of Some g \<Rightarrow> setdefault a g d | None \<Rightarrow> d) wanted found)))"

fun find_in_prefixes :: "store \<Rightarrow> int list \<Rightarrow> string list \<Rightarrow> game_ids \<Rightarrow> game_ids res" where
  "find_in_prefixes st wanted [] found = Inr found"
| "find_in_prefixes st wanted (p # ps) found =
     bind_res (find_in_entries (p = prefix_achievementsets) wanted (iter_cache_by_prefix st p) found)
       (\<lambda>f. if length f = length wanted then Inr f else find_in_prefixes st wanted ps f)"

definition find_achievement_game_ids :: "store \<Rightarrow> int list \<Rightarrow> int option \<Rightarrow> game_ids res" where
  "find_achievement_game_ids st ids likely =
     (let wanted = remdups (filter (\<lambda>i. i > 0) ids) in
      if wanted = [] then Inr [] else find_in_prefixes st wanted (likely_first_prefixes st likely) [])"

section \<open>Unlocks shown to a client\<close>

fun merge_cached :: "int list \<Rightarrow> int list \<Rightarrow> int list" where
  "merge_cached [] merged = merged"
| "merge_cached (i # is) merged =
     (if i \<le> 0 \<or> i \<in> set merged then merge_cached is merged else merge_cached is (merged @ [i]))"

fun merge_pending :: "award list \<Rightarrow> game_ids \<Rightarrow> int \<Rightarrow> string \<Rightarrow> int list \<Rightarrow> int list" where
  "merge_pending [] gids game user merged = merged"
| "merge_pending (a # as) gids game user merged =
     (if \<not> is_pending_softcore_unlock a (Some user) then merge_pending as gids game user merged
      else if aw_achievement a \<in> set merged then merge_pending as gids game user merged
      else if map_of gids (aw_achievement a) \<noteq> Some game then merge_pending as gids game user merged
      else merge_pending as gids game user (merged @ [aw_achievement a]))"

definition merge_start_session_unlock_ids ::
  "int list \<Rightarrow> award list \<Rightarrow> game_ids \<Rightarrow> int \<Rightarrow> string \<Rightarrow> int list" where
  "merge_start_session_unlock_ids cached pending gids game user =
     merge_pending pending gids game user (merge_cached cached [])"

definition cached_unlock_ids :: "store \<Rightarrow> int \<Rightarrow> string \<Rightarrow> int list" where
  "cached_unlock_ids st game user = (case get_cache st (unlocks_key (str_of_int game) user) of
       None \<Rightarrow> []
     | Some e \<Rightarrow> catch
         (bind_res (loads (ce_body e)) (\<lambda>payload.
          bind_res (jget ''UserUnlocks'' JNull payload) (\<lambda>us0. case py_or us0 (JList []) of
              JList vs \<Rightarrow> Inr (filter_warning_achievement_ids (List.map_filter (\<lambda>v. case as_int v of
                  Some i \<Rightarrow> if i > 0 then Some i else None | None \<Rightarrow> None) vs))
            | JObj _ \<Rightarrow> Inr []
            | JStr _ \<Rightarrow> Inr []
            | _ \<Rightarrow> Inl TypeError))) [])"

definition merged_unlock_ids :: "store \<Rightarrow> int \<Rightarrow> string \<Rightarrow> int list res" where
  "merged_unlock_ids st game user =
     bind_res (find_achievement_game_ids st
        (pending_unlock_achievement_ids (get_pending_awards st) (Some user)) (Some game))
       (\<lambda>gids. Inr (merge_start_session_unlock_ids (cached_unlock_ids st game user)
          (get_pending_awards st) gids game user))"

definition build_unlocks_array :: "store \<Rightarrow> int \<Rightarrow> string \<Rightarrow> int \<Rightarrow> json res" where
  "build_unlocks_array st game user server_now = bind_res (merged_unlock_ids st game user) (\<lambda>ids.
     Inr (JList (map (\<lambda>i. JObj [(''ID'', JInt i), (''When'', JInt server_now)]) ids)))"

section \<open>Requests and what they store\<close>

text \<open>A request whose failure is None, as the unlocks and sets of a game are fetched.\<close>

definition fetch_success :: "network \<Rightarrow> string \<Rightarrow> string \<Rightarrow> json option res" where
  "fetch_success net url ua = (case net url ua of
       Body b \<Rightarrow>
         (case loads b of
            Inl _ \<Rightarrow> Inr None
          | Inr payload \<Rightarrow> bind_res (jget ''Success'' JNull payload) (\<lambda>s.
              Inr (if truthy s then Some payload else None)))
     | _ \<Rightarrow> Inr None)"

definition refresh_game_patch ::
  "network \<Rightarrow> string \<Rightarrow> int \<Rightarrow> int \<Rightarrow> credentials \<Rightarrow> string \<Rightarrow> string option \<Rightarrow> store \<Rightarrow>
   cache_error + (string \<times> store)" where
  "refresh_game_patch net host clock game c ua source st =
     (case net (build_api_url host ''patch'' [(''g'', str_of_int game), (''u'', cr_user c), (''t'', cr_token c)]) ua of
        HttpError status \<Rightarrow> if status = 401 \<or> status = 403 then Inl CacheGameAuthError else Inl CacheGameError
      | NetworkError \<Rightarrow> Inl CacheGameError
      | Body b \<Rightarrow>
         (case loads b of
            Inl _ \<Rightarrow> Inl CacheGameError
          | Inr payload \<Rightarrow>
             (case jget ''Success'' JNull payload of
                Inl e \<Rightarrow> Inl (CacheRaised e)
              | Inr s \<Rightarrow>
                 if \<not> truthy s then Inl CacheGameError
                 else (case filter_warning_achievement_from_patch_payload payload of
                         Inl e \<Rightarrow> Inl (CacheRaised e)
                       | Inr p \<Rightarrow>
                          (case upsert_cache clock (patch_key (str_of_int game) (cr_user c)) (dumps_compact p)
                                  None source st of
                             Inl e \<Rightarrow> Inl (CacheRaised e)
                           | Inr st' \<Rightarrow> Inr (dumps_compact p, st'))))))"

definition cache_unlocks ::
  "network \<Rightarrow> string \<Rightarrow> int \<Rightarrow> int \<Rightarrow> credentials \<Rightarrow> string \<Rightarrow> store \<Rightarrow> (string option \<times> store) res" where
  "cache_unlocks net host clock game c ua st =
     bind_res (fetch_success net (build_api_url host ''unlocks''
         [(''g'', str_of_int game), (''h'', ''0''), (''u'', cr_user c), (''t'', cr_token c)]) ua)
       (\<lambda>r. case r of
          None \<Rightarrow> Inr (None, st)
        | Some payload \<Rightarrow> bind_res (filter_warning_achievement_from_unlocks_payload payload) (\<lambda>p.
            bind_res (upsert_cache clock (unlocks_key (str_of_int game) (cr_user c)) (dumps_compact p) None None st)
              (\<lambda>st'. Inr (Some (dumps_compact p), st'))))"

definition cache_achievementsets ::
  "network \<Rightarrow> string \<Rightarrow> int \<Rightarrow> string \<Rightarrow> credentials \<Rightarrow> string \<Rightarrow> store \<Rightarrow> (string option \<times> store) res" where
  "cache_achievementsets net host clock h c ua st =
     bind_res (fetch_success net (build_api_url host ''achievementsets''
         [(''m'', h), (''u'', cr_user c), (''t'', cr_token c)]) ua)
       (\<lambda>r. case r of
          None \<Rightarrow> Inr (None, st)
        | Some payload \<Rightarrow> bind_res (filter_warning_achievement_definitions payload) (\<lambda>p.
            bind_res (upsert_cache clock (achievementsets_key h (cr_user c)) (dumps_compact p) None None st)
              (\<lambda>st'. Inr (Some (dumps_compact p), st'))))"

definition session_payload :: "json \<Rightarrow> int \<Rightarrow> json" where
  "session_payload unlocks server_now = JObj [(''Success'', JBool True), (''ServerNow'', JInt server_now),
     (''HardcoreUnlocks'', JList []), (''Unlocks'', unlocks)]"

definition cache_session :: "int \<Rightarrow> int \<Rightarrow> credentials \<Rightarrow> store \<Rightarrow> (string \<times> store) res" where
  "cache_session clock game c st =
     (let server_now = clock div 1000 in
      bind_res (build_unlocks_array st game (cr_user c) server_now) (\<lambda>us.
      let body = dumps_compact (session_payload us server_now) in
      bind_res (upsert_cache clock (start_session_key (str_of_int game) (cr_user c)) body None None st)
        (\<lambda>st'. Inr (body, st'))))"

definition or_agent :: "string \<Rightarrow> string \<Rightarrow> string" where
  "or_agent ua fallback = (if ua = [] then fallback else ua)"

definition of_res :: "'a res \<Rightarrow> cache_error + 'a" where
  "of_res r = (case r of Inl e \<Rightarrow> Inl (CacheRaised e) | Inr x \<Rightarrow> Inr x)"

text \<open>A failed step leaves what the steps before it wrote.\<close>

definition cache_game ::
  "network \<Rightarrow> string \<Rightarrow> string \<Rightarrow> int \<Rightarrow> int \<Rightarrow> string \<Rightarrow> credentials \<Rightarrow> string \<Rightarrow> string option \<Rightarrow> store \<Rightarrow>
   cache_error option \<times> store" where
  "cache_game net host fallback clock game h c ua source st =
     (let agent = or_agent ua fallback in
      case refresh_game_patch net host clock game c agent source st of
        Inl e \<Rightarrow> (Some e, st)
      | Inr (_, st1) \<Rightarrow>
         (case cache_unlocks net host clock game c agent st1 of
            Inl e \<Rightarrow> (Some (CacheRaised e), st1)
          | Inr (_, st2) \<Rightarrow>
             (case cache_achievementsets net host clock h c agent st2 of
                Inl e \<Rightarrow> (Some (CacheRaised e), st2)
              | Inr (_, st3) \<Rightarrow>
                 (case cache_session clock game c st3 of
                    Inl e \<Rightarrow> (Some (CacheRaised e), st3)
                  | Inr (_, st4) \<Rightarrow> (None, st4)))))"

section \<open>The merged unlocks\<close>

lemma distinct_merge_cached: "distinct m \<Longrightarrow> distinct (merge_cached is m)"
  by (induction "is" m rule: merge_cached.induct) simp_all

lemma set_merge_cached: "set (merge_cached is m) = set m \<union> {i \<in> set is. 0 < i}"
proof (induction "is" m rule: merge_cached.induct)
  case (2 i "is" m)
  then show ?case
    by (cases "i \<le> 0 \<or> i \<in> set m") fastforce+
qed simp

lemma distinct_merge_pending: "distinct m \<Longrightarrow> distinct (merge_pending as gids g u m)"
  by (induction as gids g u m rule: merge_pending.induct) simp_all

lemma set_merge_pending:
  "set (merge_pending as gids g u m) = set m \<union> aw_achievement ` {a \<in> set as.
     is_pending_softcore_unlock a (Some u) \<and> map_of gids (aw_achievement a) = Some g}"
proof (induction as gids g u m rule: merge_pending.induct)
  case (2 a as gids g u m)
  have split: "aw_achievement ` {x \<in> set (a # as). P x} =
      (if P a then insert (aw_achievement a) (aw_achievement ` {x \<in> set as. P x})
       else aw_achievement ` {x \<in> set as. P x})" for P
    by auto
  show ?case unfolding split using 2 by (cases "aw_achievement a \<in> set m") auto
qed simp

lemma merge_pending_append: "\<exists>t. merge_pending as gids g u m = m @ t"
  by (induction as gids g u m rule: merge_pending.induct) auto

text \<open>C27: the unlocks shown to a client are distinct and positive, and are exactly the cached ones and
  the pending softcore awards of the user that belong to the game; the cached ones come first.\<close>

theorem merged_unlocks_exact:
  "distinct (merge_start_session_unlock_ids cached pending gids g u) \<and>
   set (merge_start_session_unlock_ids cached pending gids g u) =
     {i \<in> set cached. 0 < i} \<union> aw_achievement ` {a \<in> set pending.
       is_pending_softcore_unlock a (Some u) \<and> map_of gids (aw_achievement a) = Some g} \<and>
   {i \<in> set (merge_start_session_unlock_ids cached pending gids g u). i \<le> 0} = {} \<and>
   (\<exists>t. merge_start_session_unlock_ids cached pending gids g u = merge_cached cached [] @ t)"
proof -
  have "{i \<in> set (merge_start_session_unlock_ids cached pending gids g u). i \<le> 0} = {}"
    by (auto simp: merge_start_session_unlock_ids_def set_merge_pending set_merge_cached
        is_pending_softcore_unlock_def)
  then show ?thesis
    by (simp add: merge_start_session_unlock_ids_def distinct_merge_pending distinct_merge_cached
        set_merge_pending set_merge_cached merge_pending_append)
qed

section \<open>Filters\<close>

lemma jget_field: "is_obj v \<Longrightarrow> jget k d v = Inr (field k d v)"
  by (cases v) (auto simp: is_obj_def field_def)

lemma jget_Inr: "jget k d v = Inr x \<Longrightarrow> is_obj v \<and> x = field k d v"
  by (cases v) (auto simp: jget_def is_obj_def field_def)

lemma field_set_field [simp]:
  "is_obj v \<Longrightarrow> field k d (set_field k x v) = x"
  "k \<noteq> k' \<Longrightarrow> field k d (set_field k' x v) = field k d v"
  "is_obj (set_field k x v) = is_obj v"
  by (cases v; simp add: field_def set_field_def is_obj_def AList.update_conv')+

lemma set_field_twice [simp]: "set_field k x (set_field k y v) = set_field k x v"
proof -
  have "AList.update k x (AList.update k y ps) = AList.update k x ps" for ps :: "(string \<times> json) list"
    by (induction ps) auto
  then show ?thesis by (cases v) (simp_all add: set_field_def)
qed

lemma set_field_same: "field k JNull v = x \<Longrightarrow> x \<noteq> JNull \<Longrightarrow> set_field k x v = v"
proof -
  have "map_of ps k = Some x \<Longrightarrow> AList.update k x ps = ps" for ps :: "(string \<times> json) list" and x
    by (induction ps) (auto split: if_splits)
  then show "field k JNull v = x \<Longrightarrow> x \<noteq> JNull \<Longrightarrow> set_field k x v = v"
    by (cases v) (auto simp: set_field_def field_def split: option.splits)
qed

lemma field_nonnull_obj: "field k JNull v \<noteq> JNull \<Longrightarrow> is_obj v"
  by (cases v) (auto simp: field_def is_obj_def)

definition patch_achievements :: "json \<Rightarrow> json list" where
  "patch_achievements payload = obj_values (field ''Achievements'' JNull (field ''PatchData'' JNull payload))"

lemma patch_filter_cases:
  assumes "filter_warning_achievement_from_patch_payload payload = Inr p"
  shows "is_obj payload \<and> is_obj p \<and>
    field ''Achievements'' JNull (field ''PatchData'' JNull p) =
      (case field ''Achievements'' JNull (field ''PatchData'' JNull payload) of
         JList as \<Rightarrow> JList (filter not_warning as)
       | JObj as \<Rightarrow> JObj (filter (\<lambda>(k, a). not_warning a) as)
       | x \<Rightarrow> x)"
proof -
  obtain pd where pd: "is_obj payload" "pd = field ''PatchData'' JNull payload"
    and p: "p = (case field ''Achievements'' JNull pd of
         JList as \<Rightarrow> set_field ''PatchData'' (set_field ''Achievements'' (JList (filter not_warning as)) pd) payload
       | JObj as \<Rightarrow> set_field ''PatchData''
           (set_field ''Achievements'' (JObj (filter (\<lambda>(k, a). not_warning a) as)) pd) payload
       | _ \<Rightarrow> payload)"
    using assms by (auto simp: filter_warning_achievement_from_patch_payload_def res_simps dest: jget_Inr)
  have "is_obj pd" if "field ''Achievements'' JNull pd \<noteq> JNull" using that by (rule field_nonnull_obj)
  then show ?thesis using pd p by (cases "field ''Achievements'' JNull pd") simp_all
qed

definition has_achievements :: "json \<Rightarrow> bool" where
  "has_achievements payload =
     (let as = field ''Achievements'' JNull (field ''PatchData'' JNull payload) in is_list as \<or> is_obj as)"

text \<open>After the patch filter no achievement is the warning, and filtering again changes nothing.\<close>

theorem patch_filter_removes_warning:
  assumes "filter_warning_achievement_from_patch_payload payload = Inr p" "has_achievements payload"
  shows "filter_warning_achievement_from_patch_payload p = Inr p \<and> list_all not_warning (patch_achievements p)"
proof -
  let ?as = "field ''Achievements'' JNull (field ''PatchData'' JNull payload)"
  let ?pd = "field ''PatchData'' JNull p"
  note P = patch_filter_cases [OF assms(1)]
  have same: "set_field ''PatchData'' (set_field ''Achievements'' x ?pd) p = p"
    if "field ''Achievements'' JNull ?pd = x" "x \<noteq> JNull" for x
  proof -
    have "set_field ''Achievements'' x ?pd = ?pd" using that by (rule set_field_same)
    moreover have "?pd \<noteq> JNull" using that by (auto simp: field_def)
    ultimately show ?thesis by (simp add: set_field_same)
  qed
  have filter2: "filter_warning_achievement_from_patch_payload p = Inr p \<and> list_all not_warning (obj_values x)"
    if x: "field ''Achievements'' JNull ?pd = x"
      "x = JList (filter not_warning as) \<or> x = JObj (filter (\<lambda>(k, a). not_warning a) ps)" for x as ps
    using that same [OF x(1)] P
    by (auto simp: filter_warning_achievement_from_patch_payload_def jget_field obj_values_def list_all_iff)
  show ?thesis using filter2 P assms(2)
    by (cases ?as) (auto simp: has_achievements_def is_list_def is_obj_def patch_achievements_def Let_def)
qed

theorem patch_filter_removes_warning_witness:
  "list_all not_warning (patch_achievements (JObj [(''PatchData'',
     JObj [(''Achievements'', JList [JObj [(''ID'', JInt 5)]])])]))"
proof -
  have "filter_warning_achievement_from_patch_payload (JObj [(''PatchData'', JObj [(''Achievements'',
      JList [JObj [(''ID'', JInt 5)], JObj [(''ID'', JInt 101000001)]])])]) =
      Inr (JObj [(''PatchData'', JObj [(''Achievements'', JList [JObj [(''ID'', JInt 5)]])])])"
    by (simp add: filter_warning_achievement_from_patch_payload_def field_def set_field_def not_warning_def
        eq_int_def is_obj_def WARNING_ACHIEVEMENT_ID_def)
  from patch_filter_removes_warning [OF this] show ?thesis
    by (simp add: has_achievements_def field_def is_list_def)
qed

section \<open>What the requests store\<close>

lemma refresh_game_patch_Inr:
  assumes "refresh_game_patch net host clock g c ua src st = Inr (body, st')"
  obtains payload p where "filter_warning_achievement_from_patch_payload payload = Inr p"
    "body = dumps_compact p" "upsert_cache clock (patch_key (str_of_int g) (cr_user c)) body None src st = Inr st'"
  using assms by (auto simp: refresh_game_patch_def split: reply.splits sum.splits if_splits)

lemma cache_unlocks_cases:
  assumes "cache_unlocks net host clock g c ua st = Inr (r, st')"
  shows "st' = st \<or> (\<exists>b. r = Some b \<and> upsert_cache clock (unlocks_key (str_of_int g) (cr_user c)) b None None st = Inr st')"
  using assms by (auto simp: cache_unlocks_def res_simps split: option.splits)

lemma cache_achievementsets_cases:
  assumes "cache_achievementsets net host clock h c ua st = Inr (r, st')"
  shows "st' = st \<or> (\<exists>b. r = Some b \<and> upsert_cache clock (achievementsets_key h (cr_user c)) b None None st = Inr st')"
  using assms by (auto simp: cache_achievementsets_def res_simps split: option.splits)

lemma cache_session_Inr:
  assumes "cache_session clock g c st = Inr (body, st')"
  obtains ids where "merged_unlock_ids st g (cr_user c) = Inr ids"
    "body = dumps_compact (session_payload
       (JList (map (\<lambda>i. JObj [(''ID'', JInt i), (''When'', JInt (clock div 1000))]) ids)) (clock div 1000))"
    "upsert_cache clock (start_session_key (str_of_int g) (cr_user c)) body None None st = Inr st'"
  using assms by (auto simp: cache_session_def build_unlocks_array_def res_simps Let_def)

lemma session_payload_plain: "json_plain (session_payload
    (JList (map (\<lambda>i. JObj [(''ID'', JInt i), (''When'', JInt t)]) ids)) t)"
  by (auto simp: session_payload_def is_ascii_def)

text \<open>The session stored for a game reads back as a successful answer whose unlocks are the merged
  ones, each with the time of the server.\<close>

theorem stored_session_reads_back:
  assumes "wf_store st" "cache_session clock g c st = Inr (body, st')"
  shows "\<exists>ids. merged_unlock_ids st g (cr_user c) = Inr ids \<and>
    cache_body st' (start_session_key (str_of_int g) (cr_user c)) = Some body \<and>
    bind_res (loads body) (jget ''Unlocks'' JNull) =
      Inr (JList (map (\<lambda>i. JObj [(''ID'', JInt i), (''When'', JInt (clock div 1000))]) ids)) \<and>
    bind_res (loads body) (jget ''Success'' JNull) = Inr (JBool True) \<and> wf_store st'"
  using assms(2)
proof (rule cache_session_Inr)
  fix ids
  assume m: "merged_unlock_ids st g (cr_user c) = Inr ids"
    and b: "body = dumps_compact (session_payload
       (JList (map (\<lambda>i. JObj [(''ID'', JInt i), (''When'', JInt (clock div 1000))]) ids)) (clock div 1000))"
    and up: "upsert_cache clock (start_session_key (str_of_int g) (cr_user c)) body None None st = Inr st'"
  show ?thesis
    using m upsert_body [OF assms(1) up] wf_upsert_cache [OF assms(1) up]
    by (simp add: b session_payload_plain) (simp add: session_payload_def)
qed

lemma cached_unlock_ids_empty: "cached_unlock_ids (empty_store b) g u = []"
  by (simp add: cached_unlock_ids_def get_cache_def empty_store_def)

lemma merged_unlock_ids_empty: "merged_unlock_ids (empty_store b) g u = Inr []"
  by (simp add: merged_unlock_ids_def cached_unlock_ids_empty find_achievement_game_ids_def
      pending_unlock_achievement_ids_def get_pending_awards_def merge_start_session_unlock_ids_def)
    (simp add: empty_store_def)

theorem stored_session_reads_back_witness:
  "\<exists>body st'. cache_session 9000 3 \<lparr>cr_user = ''Bob'', cr_token = ''t''\<rparr> (empty_store True) = Inr (body, st') \<and>
     bind_res (loads body) (jget ''Unlocks'' JNull) = Inr (JList [])"
proof -
  have "\<exists>body st'. cache_session 9000 3 \<lparr>cr_user = ''Bob'', cr_token = ''t''\<rparr> (empty_store True) = Inr (body, st')"
    using upsert_plain_total [of "start_session_key (str_of_int 3) ''Bob''"]
    by (simp add: cache_session_def build_unlocks_array_def merged_unlock_ids_empty Let_def
        is_game_meta_key_def start_session_key_def key_defs) (metis bind_res_simps(2))
  then obtain body st' where
    s: "cache_session 9000 3 \<lparr>cr_user = ''Bob'', cr_token = ''t''\<rparr> (empty_store True) = Inr (body, st')" by blast
  from stored_session_reads_back [OF wf_empty_store this] show ?thesis
    using s by (auto simp: merged_unlock_ids_empty)
qed

lemma keeps_awards:
  "upsert_cache clock k b ca src st = Inr st' \<Longrightarrow> wf_store st \<Longrightarrow>
   wf_store st' \<and> pending_awards st' = pending_awards st \<and>
   (\<forall>k'. cache_body st k' \<noteq> None \<longrightarrow> cache_body st' k' \<noteq> None) \<and> cache_body st' k \<noteq> None"
  using wf_upsert_cache upsert_fields(2) upsert_body [of st] by simp

text \<open>Whatever the server answers, caching a game keeps the store well formed, touches no queued
  award and deletes no entry; when it reports no error the game's patch and session are stored.\<close>

theorem cache_game_outcomes:
  assumes "wf_store st" "cache_game net host fallback clock g h c ua src st = (err, st')"
  shows "wf_store st' \<and> pending_awards st' = pending_awards st \<and>
    {k. cache_body st k \<noteq> None} \<subseteq> {k. cache_body st' k \<noteq> None} \<and>
    (err = None \<longrightarrow> cache_body st' (patch_key (str_of_int g) (cr_user c)) \<noteq> None \<and>
      cache_body st' (start_session_key (str_of_int g) (cr_user c)) \<noteq> None)"
proof -
  define R where "R s t = (wf_store s \<longrightarrow> wf_store t \<and> pending_awards t = pending_awards s \<and>
      (\<forall>k. cache_body s k \<noteq> None \<longrightarrow> cache_body t k \<noteq> None))" for s t
  have R_refl: "R s s" and R_trans: "R s t \<Longrightarrow> R t u \<Longrightarrow> R s u" for s t u by (auto simp: R_def)
  have R_up: "R s t" if "upsert_cache clock k b ca src s = Inr t" for k b ca src s t
    using keeps_awards [OF that] by (auto simp: R_def)
  have step1: "R s t \<and> (wf_store s \<longrightarrow> cache_body t (patch_key (str_of_int g) (cr_user c)) \<noteq> None)"
    if "refresh_game_patch net host clock g c a src s = Inr (b, t)" for a s b t
    using that by (rule refresh_game_patch_Inr) (use keeps_awards R_up in blast)
  have step2: "R s t" if "cache_unlocks net host clock g c a s = Inr (b, t)" for a s b t
    using cache_unlocks_cases [OF that] R_up R_refl by blast
  have step3: "R s t" if "cache_achievementsets net host clock h c a s = Inr (b, t)" for a s b t
    using cache_achievementsets_cases [OF that] R_up R_refl by blast
  have step4: "R s t \<and> (wf_store s \<longrightarrow> cache_body t (start_session_key (str_of_int g) (cr_user c)) \<noteq> None)"
    if "cache_session clock g c s = Inr (b, t)" for s b t
    using that by (rule cache_session_Inr) (use keeps_awards R_up in blast)
  show ?thesis
    using assms(2) assms(1) R_refl [of st] unfolding cache_game_def Let_def
    by (auto simp: R_def dest!: step1 step2 step3 step4 split: sum.splits)
qed

theorem cache_game_outcomes_witness:
  "wf_store (snd (cache_game (\<lambda>_ _. NetworkError) ''https://x'' ''UA'' 1 5 ''abc''
     \<lparr>cr_user = ''bob'', cr_token = ''t''\<rparr> [] None (empty_store True)))"
  by (cases "cache_game (\<lambda>_ _. NetworkError) ''https://x'' ''UA'' 1 5 ''abc''
     \<lparr>cr_user = ''bob'', cr_token = ''t''\<rparr> [] None (empty_store True)")
    (use cache_game_outcomes [OF wf_empty_store] in fastforce)

end
