(* ===== verification/Award_Chain.thy ===== *)
theory Award_Chain
  imports Rom_Cache
begin

text \<open>
  The signed chain of queued awards: the secret of award_signing.py, and from flusher.py the check
  and the repair of the chain and the body an award is sent with.  The digests sha, md5 and hmac and
  the encoding b64 are parameters; sig is the signature under the secret in force.
\<close>

section \<open>The signing secret\<close>

text \<open>The secret file and the fresh random bytes used when it does not exist.\<close>

definition load_or_create_secret :: "string \<Rightarrow> string option \<Rightarrow> string \<times> string option" where
  "load_or_create_secret fresh file = (case file of
       Some s \<Rightarrow> (s, Some s)
     | None \<Rightarrow> (fresh, Some fresh))"

definition sign_award ::
  "(string \<Rightarrow> string \<Rightarrow> string) \<Rightarrow> (string \<Rightarrow> string) \<Rightarrow> string \<Rightarrow> string \<Rightarrow> string option \<Rightarrow> string \<times> string option" where
  "sign_award hmac b64 fresh data file =
     (let (secret, file') = load_or_create_secret fresh file in (b64 (hmac secret data), file'))"

definition verify_award ::
  "(string \<Rightarrow> string \<Rightarrow> string) \<Rightarrow> (string \<Rightarrow> string) \<Rightarrow> string \<Rightarrow> string \<Rightarrow> string \<Rightarrow> string option \<Rightarrow>
   bool \<times> string option" where
  "verify_award hmac b64 fresh data signature file =
     (let (expected, file') = sign_award hmac b64 fresh data file in (expected = signature, file'))"

definition public_key_base64 ::
  "(string \<Rightarrow> string) \<Rightarrow> (string \<Rightarrow> string) \<Rightarrow> string \<Rightarrow> string option \<Rightarrow> string" where
  "public_key_base64 sha b64 fresh file = b64 (sha (fst (load_or_create_secret fresh file)))"

text \<open>A signature made once is accepted whenever it is checked later, also when the secret was
  created for it, and the secret never changes after that.\<close>

theorem signature_accepted_later:
  assumes "sign_award hmac b64 fresh data file = (signature, file')"
  shows "verify_award hmac b64 fresh' data signature file' = (True, file') \<and> file' \<noteq> None \<and>
    (file \<noteq> None \<longrightarrow> file' = file)"
  using assms by (auto simp: sign_award_def verify_award_def load_or_create_secret_def split: option.splits)

theorem signature_accepted_later_witness:
  "verify_award (\<lambda>k d. k @ d) rev ''zz'' ''data'' (rev ''s3data'') (Some ''s3'') = (True, Some ''s3'')"
  using signature_accepted_later [of "\<lambda>k d. k @ d" rev "''s3''" "''data''" None "rev ''s3data''" "Some ''s3''"]
  by (simp add: sign_award_def load_or_create_secret_def)

section \<open>The chain\<close>

definition GENESIS_HASH :: string where "GENESIS_HASH = ''genesis''"
definition MAX_RETRIES :: int where "MAX_RETRIES = 5"
definition MAX_AWARD_OFFSET_SECONDS :: int where "MAX_AWARD_OFFSET_SECONDS = 14 * 24 * 60 * 60"

datatype chain_fault = PayloadMismatch | LinkBroken | BadSignature

definition canonical_payload :: "award \<Rightarrow> string" where
  "canonical_payload a = str_of_int (aw_achievement a) @ ''|'' @ aw_query a @ ''|'' @ aw_body a @ ''|'' @
     str_of_int (aw_queued_at a)"

definition sign_input :: "string \<Rightarrow> string \<Rightarrow> string" where
  "sign_input payload prev = payload @ '':'' @ prev"

text \<open>The previous hash the award after this one must carry.\<close>

definition chain_link :: "award \<Rightarrow> string" where
  "chain_link a = (if aw_payload_hash a = [] then GENESIS_HASH else aw_payload_hash a)"

fun verify_from ::
  "(string \<Rightarrow> string) \<Rightarrow> (string \<Rightarrow> string) \<Rightarrow> nat \<Rightarrow> string \<Rightarrow> award list \<Rightarrow> (chain_fault \<times> nat) option" where
  "verify_from sha sig i prev [] = None"
| "verify_from sha sig i prev (a # as) =
     (if aw_payload_hash a = [] then verify_from sha sig (Suc i) (chain_link a) as
      else if aw_payload_hash a \<noteq> sha (canonical_payload a) then Some (PayloadMismatch, i)
      else if aw_prev_hash a \<noteq> prev then Some (LinkBroken, i)
      else if sig (sign_input (aw_payload_hash a) (aw_prev_hash a)) \<noteq> aw_signature a then Some (BadSignature, i)
      else verify_from sha sig (Suc i) (chain_link a) as)"

definition verify_chain ::
  "(string \<Rightarrow> string) \<Rightarrow> (string \<Rightarrow> string) \<Rightarrow> award list \<Rightarrow> (chain_fault \<times> nat) option" where
  "verify_chain sha sig as = verify_from sha sig 0 GENESIS_HASH as"

fun repair_from ::
  "(string \<Rightarrow> string) \<Rightarrow> (string \<Rightarrow> string) \<Rightarrow> int \<Rightarrow> string \<Rightarrow> award list \<Rightarrow> award list option" where
  "repair_from sha sig now prev [] = Some []"
| "repair_from sha sig now prev (a # as) =
     (if aw_payload_hash a = [] then map_option (Cons a) (repair_from sha sig now (chain_link a) as)
      else if aw_payload_hash a \<noteq> sha (canonical_payload a) then None
      else map_option (Cons (a\<lparr>aw_prev_hash := prev,
              aw_signature := sig (sign_input (aw_payload_hash a) prev), aw_signed_at := now\<rparr>))
            (repair_from sha sig now (chain_link a) as))"

definition repair_pending_chain ::
  "(string \<Rightarrow> string) \<Rightarrow> (string \<Rightarrow> string) \<Rightarrow> int \<Rightarrow> award list \<Rightarrow> award list option" where
  "repair_pending_chain sha sig now as = repair_from sha sig now GENESIS_HASH as"

text \<open>What the chain promises: every signed award carries the hash of its content, the hash of the
  award before it, and a signature of both.\<close>

definition link_before :: "award list \<Rightarrow> nat \<Rightarrow> string" where
  "link_before as i = (if i = 0 then GENESIS_HASH else chain_link (as ! (i - 1)))"

definition award_intact :: "(string \<Rightarrow> string) \<Rightarrow> (string \<Rightarrow> string) \<Rightarrow> string \<Rightarrow> award \<Rightarrow> bool" where
  "award_intact sha sig prev a = (aw_payload_hash a = [] \<or>
     aw_payload_hash a = sha (canonical_payload a) \<and> aw_prev_hash a = prev \<and>
     aw_signature a = sig (sign_input (aw_payload_hash a) prev))"

lemma verify_from_Cons:
  "verify_from sha sig i prev (a # as) = None \<longleftrightarrow>
     award_intact sha sig prev a \<and> verify_from sha sig (Suc i) (chain_link a) as = None"
  "award_intact sha sig prev a \<Longrightarrow>
     verify_from sha sig i prev (a # as) = verify_from sha sig (Suc i) (chain_link a) as"
  "\<not> award_intact sha sig prev a \<Longrightarrow> verify_from sha sig i prev (a # as) = Some (f, k) \<Longrightarrow> k = i"
  by (auto simp: award_intact_def split: if_splits)

lemma verify_from_spec:
  "verify_from sha sig i prev as = None \<longleftrightarrow>
     (\<forall>j < length as. award_intact sha sig ((prev # map chain_link as) ! j) (as ! j))"
proof (induction as arbitrary: i prev)
  case (Cons a as)
  then show ?case
    by (simp only: verify_from_Cons(1) list.size add_0_right add_Suc_right One_nat_def All_less_Suc2 list.map
        nth_Cons_0 nth_Cons_Suc)
qed simp

lemma verify_from_fault:
  "verify_from sha sig i prev as = Some (f, k) \<Longrightarrow> \<exists>m. k = i + m \<and> m < length as \<and>
     (\<forall>j < m. award_intact sha sig ((prev # map chain_link as) ! j) (as ! j)) \<and>
     \<not> award_intact sha sig ((prev # map chain_link as) ! m) (as ! m)"
proof (induction as arbitrary: i prev)
  case (Cons a as)
  show ?case
  proof (cases "award_intact sha sig prev a")
    case False
    then show ?thesis using verify_from_Cons(3) [OF False Cons.prems] by (intro exI [of _ 0]) simp
  next
    case True
    then have "verify_from sha sig (Suc i) (chain_link a) as = Some (f, k)"
      using Cons.prems verify_from_Cons(2) [OF True] by simp
    from Cons.IH [OF this] obtain m where m: "k = Suc i + m" "m < length as"
      "\<forall>j < m. award_intact sha sig ((chain_link a # map chain_link as) ! j) (as ! j)"
      "\<not> award_intact sha sig ((chain_link a # map chain_link as) ! m) (as ! m)" by blast
    then show ?thesis using True
      by (intro exI [of _ "Suc m"]) (simp only: All_less_Suc2 list.map nth_Cons_0 nth_Cons_Suc, simp)
  qed
qed simp

lemma link_before_nth: "i < length as \<Longrightarrow> (GENESIS_HASH # map chain_link as) ! i = link_before as i"
  by (cases i) (simp_all add: link_before_def)

text \<open>C25: the check accepts a queue exactly when every signed award is intact after the one before it,
  and otherwise names the first award that is not.\<close>

theorem verify_chain_exact:
  "(verify_chain sha sig as = None) = (\<forall>i < length as. award_intact sha sig (link_before as i) (as ! i)) \<and>
   (\<forall>f k. verify_chain sha sig as = Some (f, k) \<longrightarrow>
      k < length as \<and> \<not> award_intact sha sig (link_before as k) (as ! k) \<and>
      (\<forall>j < k. award_intact sha sig (link_before as j) (as ! j)))"
proof -
  have "(verify_chain sha sig as = None) = (\<forall>i < length as. award_intact sha sig (link_before as i) (as ! i))"
    using verify_from_spec [of sha sig 0 GENESIS_HASH as] link_before_nth [of _ as] by (simp add: verify_chain_def)
  moreover have "k < length as \<and> \<not> award_intact sha sig (link_before as k) (as ! k) \<and>
      (\<forall>j < k. award_intact sha sig (link_before as j) (as ! j))" if "verify_chain sha sig as = Some (f, k)" for f k
    using verify_from_fault [OF that [unfolded verify_chain_def]] link_before_nth [of _ as] by auto
  ultimately show ?thesis by blast
qed

theorem verify_chain_exact_witness:
  "verify_chain id id [] = None"
  using verify_chain_exact [of id id "[]"] by simp

lemma chain_link_update [simp]:
  "chain_link (a\<lparr>aw_prev_hash := p, aw_signature := s, aw_signed_at := t\<rparr>) = chain_link a"
  "canonical_payload (a\<lparr>aw_prev_hash := p, aw_signature := s, aw_signed_at := t\<rparr>) = canonical_payload a"
  by (simp_all add: chain_link_def canonical_payload_def)

text \<open>What a repair may change.\<close>

definition same_content :: "award \<Rightarrow> award \<Rightarrow> bool" where
  "same_content a b = (b = a\<lparr>aw_prev_hash := aw_prev_hash b, aw_signature := aw_signature b,
     aw_signed_at := aw_signed_at b\<rparr>)"

lemma repair_from_props:
  "repair_from sha sig now prev as = Some bs \<Longrightarrow>
     verify_from sha sig i prev bs = None \<and> list_all2 same_content as bs"
proof (induction as arbitrary: prev bs i)
  case (Cons a as)
  have refl: "same_content a a" by (simp add: same_content_def)
  show ?case using Cons.prems Cons.IH refl
    by (auto simp: chain_link_def canonical_payload_def same_content_def split: if_splits)
qed simp

lemma repair_from_None_iff:
  "repair_from sha sig now prev as = None \<longleftrightarrow>
     (\<exists>a \<in> set as. aw_payload_hash a \<noteq> [] \<and> aw_payload_hash a \<noteq> sha (canonical_payload a))"
  by (induction as arbitrary: prev) auto

text \<open>C26: a repaired queue passes the check and has the content of the old one, award by award; the
  repair fails exactly when the content of some signed award does not match its hash.\<close>

theorem repair_chain_correct:
  "(case repair_pending_chain sha sig now as of
      Some bs \<Rightarrow> verify_chain sha sig bs = None \<and> list_all2 same_content as bs
    | None \<Rightarrow> (\<exists>a \<in> set as. aw_payload_hash a \<noteq> [] \<and> aw_payload_hash a \<noteq> sha (canonical_payload a)))"
  using repair_from_props [of sha sig now GENESIS_HASH as] repair_from_None_iff [of sha sig now GENESIS_HASH as]
  by (auto simp: repair_pending_chain_def verify_chain_def split: option.split)

text \<open>The hashed content does not separate its fields: two different requests have the same one.\<close>

theorem canonical_payload_ambiguous:
  "canonical_payload (a\<lparr>aw_query := q @ ''|'' @ x, aw_body := b\<rparr>) =
   canonical_payload (a\<lparr>aw_query := q, aw_body := x @ ''|'' @ b\<rparr>)"
  by (simp add: canonical_payload_def)

section \<open>The body of a sent award\<close>

definition is_hardcore_award :: "award \<Rightarrow> bool" where
  "is_hardcore_award a =
     (let q = parse_form_params (query_part (aw_query a)) in
      case map_of q ''h'' of
        Some h \<Rightarrow> h = ''1''
      | None \<Rightarrow> map_of (parse_form_params (aw_body a)) ''h'' = Some ''1'')"

definition compute_validation_hash :: "(string \<Rightarrow> string) \<Rightarrow> int \<Rightarrow> string \<Rightarrow> int \<Rightarrow> int \<Rightarrow> string" where
  "compute_validation_hash md5 aid user hardcore secs =
     md5 (str_of_int aid @ user @ str_of_int hardcore @
          (if secs \<noteq> 0 then str_of_int aid @ str_of_int secs else []))"

definition clamp_award_offset_seconds :: "int \<Rightarrow> int" where
  "clamp_award_offset_seconds raw = max 0 (min MAX_AWARD_OFFSET_SECONDS raw)"

text \<open>Division by a thousand that drops the fraction.\<close>

definition trunc_seconds :: "int \<Rightarrow> int" where
  "trunc_seconds ms = (if ms < 0 then - ((- ms) div 1000) else ms div 1000)"

definition award_offset_seconds :: "award \<Rightarrow> int \<Rightarrow> int \<times> bool" where
  "award_offset_seconds a now =
     (let raw = trunc_seconds (now - aw_queued_at a); s = clamp_award_offset_seconds raw in (s, raw \<noteq> s))"

definition int_or :: "string option \<Rightarrow> int \<Rightarrow> int res" where
  "int_or s d = (case s of
       None \<Rightarrow> Inr d
     | Some t \<Rightarrow> if t = [] then Inr d else of_option ValueError (py_int t))"

definition build_award_request_body ::
  "(string \<Rightarrow> string) \<Rightarrow> string \<Rightarrow> award \<Rightarrow> int \<Rightarrow> string option \<Rightarrow> string res" where
  "build_award_request_body md5 pubkey a now token =
     (let b0 = (case token of
                  Some t \<Rightarrow> if t = [] then aw_body a else replace_or_append_form_param (aw_body a) ''t'' t
                | None \<Rightarrow> aw_body a);
          secs = fst (award_offset_seconds a now)
      in bind_res
        (if secs > 0 then
           bind_res (int_or (extract_form_param b0 ''a'') (aw_achievement a)) (\<lambda>aid.
           bind_res (int_or (extract_form_param b0 ''h'') 0) (\<lambda>hardcore.
           let user = or_str (extract_form_param b0 ''u'') [];
               b1 = replace_or_append_form_param b0 ''v'' (compute_validation_hash md5 aid user hardcore secs)
           in Inr (replace_or_append_form_param b1 ''o'' (str_of_int secs))))
         else Inr b0)
        (\<lambda>b2. Inr (if aw_payload_hash a = [] then b2
           else replace_or_append_form_param
             (replace_or_append_form_param
               (replace_or_append_form_param
                 (replace_or_append_form_param b2 ''ra_chain_payload_hash'' (aw_payload_hash a))
                 ''ra_chain_prev_hash'' (aw_prev_hash a))
               ''ra_chain_sig'' (aw_signature a))
             ''ra_chain_pubkey'' pubkey)))"

text \<open>The time reported for an award is between now and two weeks ago, never in the future, and is
  the true one rounded down to a second unless the award is older than that.\<close>

theorem award_offset_bounds:
  "award_offset_seconds a now = (s, clamped) \<Longrightarrow>
   0 \<le> s \<and> s \<le> 14 * 24 * 60 * 60 \<and>
   (clamped = (now - aw_queued_at a \<le> - 1000 \<or> 14 * 24 * 60 * 60 * 1000 + 1000 \<le> now - aw_queued_at a)) \<and>
   (aw_queued_at a \<le> now \<and> \<not> clamped \<longrightarrow> s * 1000 \<le> now - aw_queued_at a \<and> now - aw_queued_at a < s * 1000 + 1000)"
proof -
  assume d: "award_offset_seconds a now = (s, clamped)"
  define x where "x = now - aw_queued_at a"
  define q where "q = x div 1000"
  define r where "r = (- x) div 1000"
  have d1000: "1000 * (y div 1000) \<le> y \<and> y < 1000 * (y div 1000) + 1000" for y :: int
    using pos_mod_bound [of 1000 y] pos_mod_sign [of 1000 y] mult_div_mod_eq [of 1000 y] by linarith
  have q: "1000 * q \<le> x" "x < 1000 * q + 1000" using d1000 [of x] by (simp_all add: q_def)
  have r: "1000 * r \<le> - x" "- x < 1000 * r + 1000" using d1000 [of "- x"] by (simp_all add: r_def)
  define raw where "raw = trunc_seconds x"
  have raw: "raw = (if x < 0 then - r else q)" by (simp only: raw_def trunc_seconds_def q_def r_def)
  have s: "s = max 0 (min 1209600 raw)" "clamped = (raw \<noteq> s)"
    using d by (auto simp: award_offset_seconds_def clamp_award_offset_seconds_def MAX_AWARD_OFFSET_SECONDS_def
        Let_def raw_def x_def)
  have "0 \<le> s" "s \<le> 14 * 24 * 60 * 60" using s(1) by auto
  moreover have "clamped = (x \<le> - 1000 \<or> 1209601000 \<le> x)"
    unfolding s raw using q r by (cases "x < 0") (simp_all add: max_def min_def, linarith+)
  moreover have "0 \<le> x \<and> \<not> clamped \<Longrightarrow> s * 1000 \<le> x \<and> x < s * 1000 + 1000"
    using s raw q by (auto simp: max_def min_def split: if_splits)
  ultimately show ?thesis unfolding x_def by auto
qed

theorem award_offset_bounds_witness:
  "fst (award_offset_seconds \<lparr>aw_id = 1, aw_achievement = 7, aw_query = [], aw_body = [], aw_user_agent = [],
     aw_queued_at = 1500, aw_retries = 0, aw_error = None, aw_status = [], aw_payload_hash = [], aw_prev_hash = [],
     aw_signature = [], aw_signed_at = 0\<rparr> 4400) * 1000 \<le> 2900"
proof -
  have e: "award_offset_seconds \<lparr>aw_id = 1, aw_achievement = 7, aw_query = [], aw_body = [], aw_user_agent = [],
     aw_queued_at = 1500, aw_retries = 0, aw_error = None, aw_status = [], aw_payload_hash = [], aw_prev_hash = [],
     aw_signature = [], aw_signed_at = 0\<rparr> 4400 = (2, False)"
    by (simp add: award_offset_seconds_def trunc_seconds_def clamp_award_offset_seconds_def
        MAX_AWARD_OFFSET_SECONDS_def)
  show ?thesis using award_offset_bounds [OF e] by (simp add: e)
qed

end
