(* ===== verification/Auth.thy ===== *)
theory Auth
  imports Rom_Cache
begin

text \<open>
  Where the credentials come from (auth.py): the tokens of the emulators' settings, the cached login,
  the passwords of the settings.  The readers of the settings files are parameters, in the order the
  source tries them; a cached user or token that is no string is taken as its JSON text.
\<close>

definition json_text :: "json \<Rightarrow> string" where
  "json_text v = (case v of JStr s \<Rightarrow> s | _ \<Rightarrow> dumps v)"

record password_login =
  pl_user :: string
  pl_password :: string

fun first_some :: "'a option list \<Rightarrow> 'a option" where
  "first_some [] = None"
| "first_some (Some x # _) = Some x"
| "first_some (None # xs) = first_some xs"

definition login_body :: "string \<Rightarrow> string \<Rightarrow> string" where
  "login_body user token = dumps (JObj [(''Success'', JBool True), (''User'', JStr user), (''Token'', JStr token)])"

definition cache_token_credentials :: "int \<Rightarrow> credentials \<Rightarrow> store \<Rightarrow> (credentials option \<times> store) res" where
  "cache_token_credentials clock c st =
     (if cr_user c = [] \<or> cr_token c = [] then Inr (None, st)
      else bind_res (upsert_cache clock (login_key (cr_user c)) (login_body (cr_user c) (cr_token c)) None None st)
             (\<lambda>st'. Inr (Some c, st')))"

definition login_and_cache_token ::
  "network \<Rightarrow> string \<Rightarrow> string \<Rightarrow> int \<Rightarrow> password_login \<Rightarrow> string \<Rightarrow> string \<Rightarrow> store \<Rightarrow>
   (credentials option \<times> store) res" where
  "login_and_cache_token net host fallback clock p agent tag st =
     (case net (build_api_url host ''login2'' [(''u'', pl_user p), (''p'', pl_password p)])
             (proxy_user_agent tag (or_agent agent fallback)) of
        Body b \<Rightarrow>
          (case loads b of
             Inl _ \<Rightarrow> Inr (None, st)
           | Inr payload \<Rightarrow>
              bind_res (jget ''User'' JNull payload) (\<lambda>u.
              bind_res (jget ''Token'' JNull payload) (\<lambda>t.
              bind_res (jget ''Success'' JNull payload) (\<lambda>s.
              let user = py_or u (JStr (pl_user p)) in
              if \<not> truthy s \<or> \<not> truthy user \<or> \<not> truthy t then Inr (None, st)
              else bind_res (upsert_cache clock (login_key (json_text user)) b None None st)
                     (\<lambda>st'. Inr (Some \<lparr>cr_user = json_text user, cr_token = json_text t\<rparr>, st'))))))
      | _ \<Rightarrow> Inr (None, st))"

definition resolve_credentials ::
  "network \<Rightarrow> string \<Rightarrow> string \<Rightarrow> int \<Rightarrow> credentials option list \<Rightarrow> password_login option list \<Rightarrow> string \<Rightarrow>
   string \<Rightarrow> store \<Rightarrow> (credentials option \<times> store) res" where
  "resolve_credentials net host fallback clock tokens passwords agent tag st =
     (case first_some tokens of
        Some c \<Rightarrow> cache_token_credentials clock c st
      | None \<Rightarrow>
         bind_res (load_login_credentials st) (\<lambda>cached.
         let cached_c = map_option (\<lambda>(u, t). \<lparr>cr_user = json_text u, cr_token = json_text t\<rparr>) cached in
         case cached_c of
           Some c \<Rightarrow>
             if \<not> is_token_invalid st (cr_token c) then Inr (Some c, st)
             else (case first_some passwords of
                     None \<Rightarrow> Inr (Some c, st)
                   | Some p \<Rightarrow> bind_res (login_and_cache_token net host fallback clock p agent tag st) (\<lambda>(r, st').
                       Inr (case r of Some n \<Rightarrow> (Some n, st') | None \<Rightarrow> (Some c, st'))))
         | None \<Rightarrow>
             (case first_some passwords of
                None \<Rightarrow> Inr (None, st)
              | Some p \<Rightarrow> login_and_cache_token net host fallback clock p agent tag st)))"

section \<open>Lemmas\<close>

lemma login_plain: "plain_key (login_key u)"
  by (simp add: plain_key_def is_game_meta_key_def login_key_def key_defs)

lemma login_and_cache_token_keeps:
  assumes "login_and_cache_token net host fb clock p agent tag st = Inr (r, st')" "wf_store st"
  shows "wf_store st' \<and> pending_awards st' = pending_awards st"
  using assms keeps_awards
  by (auto simp: login_and_cache_token_def res_simps Let_def split: reply.splits sum.splits if_splits)

lemma resolve_credentials_keeps:
  assumes "resolve_credentials net host fb clock ts ps agent tag st = Inr (r, st')" "wf_store st"
  shows "wf_store st' \<and> pending_awards st' = pending_awards st"
proof (cases "first_some ts")
  case (Some c)
  then show ?thesis using assms keeps_awards
    by (auto simp: resolve_credentials_def cache_token_credentials_def res_simps split: if_splits)
next
  case None
  have "st' = st \<or> (\<exists>p n. login_and_cache_token net host fb clock p agent tag st = Inr (n, st'))"
    using assms(1) None
    by (cases "first_some ps"; cases "load_login_credentials st")
      (auto simp: resolve_credentials_def Let_def bind_res_def split: option.splits if_splits sum.splits)
  then show ?thesis using assms(2) login_and_cache_token_keeps by blast
qed

text \<open>A token found in the settings is used before anything else and is stored as the login, under
  the normal form of its user, so that it is there without the settings.\<close>

theorem settings_token_cached:
  assumes "wf_store st" "first_some tokens = Some c" "cr_user c \<noteq> []" "cr_token c \<noteq> []"
    and ascii: "list_all is_ascii (cr_user c)" "list_all is_ascii (cr_token c)"
  shows "\<exists>st' body. resolve_credentials net host fb clock tokens passwords agent tag st = Inr (Some c, st') \<and>
    cache_body st' (login_key (cr_user c)) = Some body \<and>
    loads body = Inr (JObj [(''Success'', JBool True), (''User'', JStr (cr_user c)), (''Token'', JStr (cr_token c))])"
proof -
  obtain st' where up: "write_body clock (login_key (cr_user c)) (login_body (cr_user c) (cr_token c)) st = Inr st'"
    using cache_store.put_total [OF assms(1) login_plain] by blast
  have "loads (login_body (cr_user c) (cr_token c)) =
      Inr (JObj [(''Success'', JBool True), (''User'', JStr (cr_user c)), (''Token'', JStr (cr_token c))])"
    unfolding login_body_def by (rule loads_dumps) (use ascii in \<open>simp add: is_ascii_def\<close>)
  then show ?thesis
    using assms up cache_store.body_put [OF assms(1) up]
    by (simp add: resolve_credentials_def cache_token_credentials_def write_body_def)
qed

theorem settings_token_cached_witness:
  "\<exists>st'. resolve_credentials (\<lambda>_ _. NetworkError) [] [] 1 [None, Some \<lparr>cr_user = ''Bob'', cr_token = ''x9''\<rparr>] [] [] []
     (empty_store True) = Inr (Some \<lparr>cr_user = ''Bob'', cr_token = ''x9''\<rparr>, st')"
  using settings_token_cached [OF wf_empty_store [of True], of "[None, Some \<lparr>cr_user = ''Bob'', cr_token = ''x9''\<rparr>]"
    "\<lparr>cr_user = ''Bob'', cr_token = ''x9''\<rparr>" "\<lambda>_ _. NetworkError" "[]" "[]" 1 "[]" "[]" "[]"]
  by (auto simp: is_ascii_def)

end
