(* ===== verification/Flusher.thy ===== *)
theory Flusher
  imports Award_Chain Auth
begin

text \<open>
  Sending the queued awards (flusher.py).  The environment of a flush is one record: the network for
  GET requests, the POST that answers with a status and a body or fails, the digests, the clock and
  the credentials the settings offer.  A raised exception ends the flush and keeps what was written.
\<close>

datatype post_reply = Reply int string | PostFailed

record flush_env =
  fe_net :: network
  fe_post :: "string \<Rightarrow> string \<Rightarrow> string \<Rightarrow> post_reply"
  fe_host :: string
  fe_fallback :: string
  fe_tag :: string
  fe_clock :: int
  fe_sha :: "string \<Rightarrow> string"
  fe_md5 :: "string \<Rightarrow> string"
  fe_sign :: "string \<Rightarrow> string"
  fe_pubkey :: string
  fe_tokens :: "credentials option list"
  fe_passwords :: "password_login option list"

record flush_outcome =
  fo_flushed :: int
  fo_total :: int
  fo_stale :: int
  fo_deleted :: int
  fo_remaining :: int
  fo_error :: bool

definition outcome_failed :: "nat \<Rightarrow> flush_outcome" where
  "outcome_failed n = \<lparr>fo_flushed = 0, fo_total = int n, fo_stale = 0, fo_deleted = 0, fo_remaining = int n,
     fo_error = True\<rparr>"

definition is_status :: "string \<Rightarrow> award \<Rightarrow> bool" where
  "is_status s a = (aw_status a = s)"

definition count :: "('a \<Rightarrow> bool) \<Rightarrow> 'a list \<Rightarrow> int" where
  "count P xs = int (length (filter P xs))"

section \<open>Sending one award\<close>

datatype send_outcome = SendOk | AuthError string | SendError string

definition auth_keywords :: "string list" where
  "auth_keywords = [''invalid'', ''token'', ''credentials'', ''user'']"

definition send_award :: "flush_env \<Rightarrow> credentials \<Rightarrow> award \<Rightarrow> send_outcome res" where
  "send_award env c a =
     bind_res (build_award_request_body (fe_md5 env) (fe_pubkey env) a (fe_clock env) (Some (cr_token c))) (\<lambda>body.
     case fe_post env (fe_host env @ aw_query a) body
            (proxy_user_agent (fe_tag env) (or_agent (aw_user_agent a) (fe_fallback env))) of
       PostFailed \<Rightarrow> Inl UpstreamError
     | Reply status text \<Rightarrow>
         if status = 401 \<or> status = 403 then Inr (AuthError (''Token rejected by server (HTTP '' @ str_of_int status @ '')''))
         else if status < 200 \<or> status \<ge> 300 then Inr (SendError (''HTTP '' @ str_of_int status))
         else (case loads text of
                 Inl _ \<Rightarrow> Inr (SendError ''Server returned invalid JSON'')
               | Inr payload \<Rightarrow>
                  bind_res (jget ''Success'' JNull payload) (\<lambda>s.
                  if truthy s then Inr SendOk
                  else bind_res (jget ''Error'' JNull payload) (\<lambda>e.
                    case py_or e (JStr ''Server returned Success:false'') of
                      JStr m \<Rightarrow> Inr (if \<exists>k \<in> set auth_keywords. contains k (lower m)
                                    then AuthError m else SendError m)
                    | _ \<Rightarrow> Inl AttributeError))))"

section \<open>The live achievements\<close>

fun note_award_games :: "game_ids \<Rightarrow> award list \<Rightarrow> int list \<Rightarrow> int list" where
  "note_award_games gids [] games = games"
| "note_award_games gids (a # as) games = (case map_of gids (aw_achievement a) of
       None \<Rightarrow> note_award_games gids as games
     | Some g \<Rightarrow> note_award_games gids as (if g \<in> set games then games else games @ [g]))"

text \<open>The ids of a refreshed patch; any failure to read it ends the refresh.\<close>

definition patch_achievement_ids :: "string \<Rightarrow> int list option" where
  "patch_achievement_ids body = catch
     (bind_res (loads body) (\<lambda>payload.
      bind_res (jget ''PatchData'' (JObj []) payload) (\<lambda>pd.
      bind_res (jget ''Achievements'' (JList []) pd) (\<lambda>as. case as of
          JList vs \<Rightarrow> bind_res (map_res (jget ''ID'' JNull) vs) (\<lambda>ids. Inr (Some (List.map_filter as_int ids)))
        | JObj ps \<Rightarrow> if ps = [] then Inr (Some []) else Inl AttributeError
        | JStr s \<Rightarrow> if s = [] then Inr (Some []) else Inl AttributeError
        | _ \<Rightarrow> Inl TypeError)))) None"

datatype 'a refresh = Refreshed 'a | NotRefreshed | RefreshRaised exn

fun refresh_games :: "flush_env \<Rightarrow> credentials \<Rightarrow> int list \<Rightarrow> int list \<Rightarrow> store \<Rightarrow> int list refresh \<times> store" where
  "refresh_games env c [] ids st = (Refreshed ids, st)"
| "refresh_games env c (g # gs) ids st =
     (case refresh_game_patch (fe_net env) (fe_host env) (fe_clock env) g c
             (proxy_user_agent (fe_tag env) (proxy_user_agent (fe_tag env) (fe_fallback env))) None st of
        Inl CacheGameAuthError \<Rightarrow>
          (case mark_token_invalid (fe_clock env) (cr_token c) st of
             Inl e \<Rightarrow> (RefreshRaised e, st) | Inr st1 \<Rightarrow> (NotRefreshed, st1))
      | Inl CacheGameError \<Rightarrow> (NotRefreshed, st)
      | Inl (CacheRaised e) \<Rightarrow> (RefreshRaised e, st)
      | Inr (body, st1) \<Rightarrow>
          let st2 = clear_invalid_token st1 in
          (case patch_achievement_ids body of
             None \<Rightarrow> (NotRefreshed, st2)
           | Some new \<Rightarrow> refresh_games env c gs (ids @ new) st2))"

definition refresh_and_load_achievement_ids ::
  "flush_env \<Rightarrow> credentials \<Rightarrow> award list \<Rightarrow> store \<Rightarrow> (int list \<times> int list \<times> game_ids) refresh \<times> store" where
  "refresh_and_load_achievement_ids env c as st =
     (case find_achievement_game_ids st (map aw_achievement as) None of
        Inl e \<Rightarrow> (RefreshRaised e, st)
      | Inr gids \<Rightarrow>
         let games = note_award_games gids as [] in
         if games = [] then (Refreshed ([], [], gids), st)
         else (case refresh_games env c games [] st of
                 (Refreshed ids, st1) \<Rightarrow> (Refreshed (ids, games, gids), st1)
               | (NotRefreshed, st1) \<Rightarrow> (NotRefreshed, st1)
               | (RefreshRaised e, st1) \<Rightarrow> (RefreshRaised e, st1)))"

section \<open>The loop over the awards\<close>

datatype fate = SkipDeleted | SkipStale | SkipFlushed | HardcoreStale | UnknownStale | Sent send_outcome

definition decide_award :: "flush_env \<Rightarrow> credentials \<Rightarrow> int list \<Rightarrow> game_ids \<Rightarrow> award \<Rightarrow> fate res" where
  "decide_award env c known gids a =
     (if aw_status a = STATUS_DELETED then Inr SkipDeleted
      else if aw_status a = STATUS_STALE then Inr SkipStale
      else if aw_status a = STATUS_FLUSHED then Inr SkipFlushed
      else if is_hardcore_award a then Inr HardcoreStale
      else if known \<noteq> [] \<and> map_of gids (aw_achievement a) \<noteq> None \<and> aw_achievement a \<notin> set known
      then Inr UnknownStale
      else bind_res (send_award env c a) (\<lambda>r. Inr (Sent r)))"

text \<open>The award as it is written back, when it is.\<close>

definition award_after :: "fate \<Rightarrow> award \<Rightarrow> award" where
  "award_after f a = (case f of
       SkipDeleted \<Rightarrow> a | SkipStale \<Rightarrow> a | SkipFlushed \<Rightarrow> a
     | HardcoreStale \<Rightarrow> a\<lparr>aw_status := STATUS_STALE, aw_error := Some
         ''Hardcore award cannot be flushed because hardcore mode is not supported''\<rparr>
     | UnknownStale \<Rightarrow> a\<lparr>aw_status := STATUS_STALE, aw_error := Some
         (''Achievement '' @ str_of_int (aw_achievement a) @ '' not found in live server data'')\<rparr>
     | Sent SendOk \<Rightarrow> a\<lparr>aw_status := STATUS_FLUSHED, aw_error := None\<rparr>
     | Sent (AuthError m) \<Rightarrow> a\<lparr>aw_status := STATUS_PENDING, aw_error := Some m\<rparr>
     | Sent (SendError m) \<Rightarrow> a\<lparr>aw_retries := aw_retries a + 1, aw_status := STATUS_PENDING, aw_error := Some m\<rparr>)"

definition store_after :: "fate \<Rightarrow> award \<Rightarrow> store \<Rightarrow> store" where
  "store_after f a st = (case f of
       SkipDeleted \<Rightarrow> st | SkipStale \<Rightarrow> st | SkipFlushed \<Rightarrow> st
     | Sent SendOk \<Rightarrow> clear_invalid_token (update_pending_award (award_after f a) st)
     | _ \<Rightarrow> update_pending_award (award_after f a) st)"

definition flushed_by :: "fate \<Rightarrow> int" where
  "flushed_by f = (if f = Sent SendOk then 1 else 0)"

definition stale_by :: "fate \<Rightarrow> int" where
  "stale_by f = (if f \<in> {SkipStale, HardcoreStale, UnknownStale} then 1 else 0)"

definition deleted_by :: "fate \<Rightarrow> int" where
  "deleted_by f = (if f = SkipDeleted then 1 else 0)"

text \<open>Flushed, stale and deleted counts after the loop, or the exception that ended it.\<close>

fun flush_loop ::
  "flush_env \<Rightarrow> credentials \<Rightarrow> int list \<Rightarrow> game_ids \<Rightarrow> award list \<Rightarrow> int \<times> int \<times> int \<Rightarrow> store \<Rightarrow>
   (int \<times> int \<times> int) res \<times> store" where
  "flush_loop env c known gids [] n st = (Inr n, st)"
| "flush_loop env c known gids (a # as) (nf, ns, nd) st =
     (case decide_award env c known gids a of
        Inl e \<Rightarrow> (Inl e, st)
      | Inr f \<Rightarrow> flush_loop env c known gids as (nf + flushed_by f, ns + stale_by f, nd + deleted_by f)
                  (store_after f a st))"

definition purge_processed_awards_if_safe :: "store \<Rightarrow> store" where
  "purge_processed_awards_if_safe st =
     (if pending_awards_exist_by_status st STATUS_PENDING then st
      else delete_pending_awards_by_statuses [STATUS_DELETED, STATUS_STALE, STATUS_FLUSHED] st)"

section \<open>The flush\<close>

text \<open>The queue after the check: itself, repaired, or rejected.\<close>

definition checked_queue :: "flush_env \<Rightarrow> store \<Rightarrow> (award list \<times> store) option" where
  "checked_queue env st =
     (let pending = get_pending_awards st in
      case verify_chain (fe_sha env) (fe_sign env) pending of
        None \<Rightarrow> Some (pending, st)
      | Some (fault, _) \<Rightarrow>
         (case (if fault = LinkBroken then repair_pending_chain (fe_sha env) (fe_sign env) (fe_clock env) pending
                else None) of
            None \<Rightarrow> None
          | Some repaired \<Rightarrow>
             if verify_chain (fe_sha env) (fe_sign env) repaired = None
             then let st1 = fold update_pending_award repaired st in Some (get_pending_awards st1, st1)
             else None))"

text \<open>After a success the unlocks and the session of every refreshed game are fetched again.\<close>

definition refresh_sessions :: "flush_env \<Rightarrow> credentials \<Rightarrow> int list \<Rightarrow> store \<Rightarrow> exn option \<times> store" where
  "refresh_sessions env c games st = fold (\<lambda>g s. case s of
       (Some e, st1) \<Rightarrow> (Some e, st1)
     | (None, st1) \<Rightarrow>
        (case cache_unlocks (fe_net env) (fe_host env) (fe_clock env) g c
                (proxy_user_agent (fe_tag env) (proxy_user_agent (fe_tag env) (fe_fallback env))) st1 of
           Inl e \<Rightarrow> (Some e, st1)
         | Inr (_, st2) \<Rightarrow>
            (case cache_session (fe_clock env) g c st2 of
               Inl e \<Rightarrow> (Some e, st2)
             | Inr (_, st3) \<Rightarrow> (None, st3)))) games (None, st)"

definition flush_pending_awards :: "flush_env \<Rightarrow> store \<Rightarrow> flush_outcome res \<times> store" where
  "flush_pending_awards env st =
     (if get_pending_awards st = [] then
        (Inr \<lparr>fo_flushed = 0, fo_total = 0, fo_stale = 0, fo_deleted = 0, fo_remaining = 0, fo_error = False\<rparr>, st)
      else case checked_queue env st of
        None \<Rightarrow> (Inr (outcome_failed (length (get_pending_awards st))), st)
      | Some (pending, st1) \<Rightarrow>
         if \<not> list_ex (is_status STATUS_PENDING) pending then
           (Inr \<lparr>fo_flushed = 0, fo_total = int (length pending), fo_stale = count (is_status STATUS_STALE) pending,
              fo_deleted = count (is_status STATUS_DELETED) pending, fo_remaining = 0, fo_error = False\<rparr>,
            purge_processed_awards_if_safe st1)
         else
           (case resolve_credentials (fe_net env) (fe_host env) (fe_fallback env) (fe_clock env) (fe_tokens env)
                   (fe_passwords env) (proxy_user_agent (fe_tag env) (fe_fallback env)) (fe_tag env) st1 of
              Inl e \<Rightarrow> (Inl e, st1)
            | Inr (None, st2) \<Rightarrow> (Inr (outcome_failed (length pending)), st2)
            | Inr (Some c, st2) \<Rightarrow>
               (case refresh_and_load_achievement_ids env c (filter (is_status STATUS_PENDING) pending) st2 of
                  (RefreshRaised e, st3) \<Rightarrow> (Inl e, st3)
                | (NotRefreshed, st3) \<Rightarrow> (Inr (outcome_failed (length pending)), st3)
                | (Refreshed (known, games, gids), st3) \<Rightarrow>
                   (case flush_loop env c known gids pending (0, 0, 0) st3 of
                      (Inl e, st4) \<Rightarrow> (Inl e, st4)
                    | (Inr (nf, ns, nd), st4) \<Rightarrow>
                       (case (if nf \<noteq> 0 then refresh_sessions env c games st4 else (None, st4)) of
                          (Some e, st5) \<Rightarrow> (Inl e, st5)
                        | (None, st5) \<Rightarrow>
                           let st6 = purge_processed_awards_if_safe st5 in
                           (Inr \<lparr>fo_flushed = nf, fo_total = int (length pending), fo_stale = ns, fo_deleted = nd,
                              fo_remaining = count (is_status STATUS_PENDING) (get_pending_awards st6),
                              fo_error = False\<rparr>, st6))))))"

end
