(* ===== verification/Flusher_Laws.thy ===== *)
theory Flusher_Laws
  imports Flusher
begin

text \<open>
  What a flush does to the queue: the loop rewrites exactly the awards it decided on, in place, and an
  award leaves the queue only after the server accepted it or it was found stale.
\<close>

section \<open>Updating one award of the queue\<close>

lemma award_of_dict_id: "award_of i (dict_of_award a) = a\<lparr>aw_id := i\<rparr>"
  by (cases a) (simp add: award_of_def dict_of_award_def)

lemma update_pending_award_list:
  assumes wf: "wf_store st" and x: "x \<in> set (pending_awards st)" "aw_achievement x = aw_achievement a"
  shows "pending_awards (update_pending_award a st) =
    map (\<lambda>y. if aw_achievement y = aw_achievement a then a\<lparr>aw_id := aw_id y\<rparr> else y) (pending_awards st)"
proof -
  have in_queue: "aw_achievement a \<in> aw_achievement ` set (pending_awards st)"
    using imageI [OF x(1), of aw_achievement] x(2) by simp
  moreover have "WARNING_ACHIEVEMENT_ID \<notin> aw_achievement ` set (pending_awards st)"
    using wf unfolding wf_store_def by blast
  then have "aw_achievement a \<noteq> WARNING_ACHIEVEMENT_ID" using in_queue by metis
  ultimately show ?thesis
    using upsert_pending_award_list [OF wf, of "dict_of_award a"]
    by (simp add: update_pending_award_def award_of_dict_id)
qed

lemma update_pending_award_at:
  assumes wf: "wf_store st" and a: "a \<in> set (pending_awards st)"
    and b: "aw_achievement b = aw_achievement a" "aw_id b = aw_id a"
  shows "pending_awards (update_pending_award b st) = map (\<lambda>y. if y = a then b else y) (pending_awards st)"
proof -
  have "y = a" if "y \<in> set (pending_awards st)" "aw_achievement y = aw_achievement a" for y
    using that a wf_storeD(3) [OF wf] by (auto simp: distinct_map dest: inj_onD)
  moreover have "b\<lparr>aw_id := aw_id a\<rparr> = b" using b(2) by simp
  ultimately show ?thesis
    using update_pending_award_list [OF wf a, of b] b by (auto intro!: map_cong)
qed

lemma wf_update [pres_intros]: "wf_store st \<Longrightarrow> wf_store (update_pending_award a st)"
  by (simp add: update_pending_award_def wf_upsert_pending_award)

lemma set_get_pending [simp]: "set (get_pending_awards st) = set (pending_awards st)"
  by (simp add: get_pending_awards_def)

lemma distinct_get_pending: "wf_store st \<Longrightarrow> distinct (map aw_achievement (get_pending_awards st))"
  by (simp add: get_pending_awards_def distinct_map wf_store_def)

lemma clear_invalid_keeps [simp]: "pending_awards (clear_invalid_token st) = pending_awards st"
  by (simp add: clear_invalid_token_def delete_cache_def)

lemma wf_clear_invalid [pres_intros]: "wf_store st \<Longrightarrow> wf_store (clear_invalid_token st)"
  by (simp add: clear_invalid_token_def wf_deletes)

section \<open>The loop\<close>

lemma award_after_key [simp]:
  "aw_achievement (award_after f a) = aw_achievement a" "aw_id (award_after f a) = aw_id a"
  by (cases f rule: fate.exhaust; simp add: award_after_def split: send_outcome.split)+

lemma store_after_awards:
  assumes wf: "wf_store st" and a: "a \<in> set (pending_awards st)"
  shows "pending_awards (store_after f a st) = map (\<lambda>y. if y = a then award_after f a else y) (pending_awards st)"
    "wf_store (store_after f a st)"
proof -
  have "pending_awards (update_pending_award (award_after f a) st) =
      map (\<lambda>y. if y = a then award_after f a else y) (pending_awards st)"
    using update_pending_award_at [OF wf a] by simp
  moreover have "award_after f a = a" if "f = SkipDeleted \<or> f = SkipStale \<or> f = SkipFlushed"
    using that by (auto simp: award_after_def)
  ultimately show "pending_awards (store_after f a st) = map (\<lambda>y. if y = a then award_after f a else y) (pending_awards st)"
    by (cases f) (auto simp: store_after_def intro!: map_idI [symmetric] split: send_outcome.split)
  show "wf_store (store_after f a st)"
    using wf by (cases f) (auto simp: store_after_def intro: wf_update wf_clear_invalid split: send_outcome.split)
qed

definition fate_of :: "flush_env \<Rightarrow> credentials \<Rightarrow> int list \<Rightarrow> game_ids \<Rightarrow> award \<Rightarrow> fate" where
  "fate_of env c known gids a = (case decide_award env c known gids a of Inr f \<Rightarrow> f | Inl _ \<Rightarrow> SkipFlushed)"

definition settled :: "flush_env \<Rightarrow> credentials \<Rightarrow> int list \<Rightarrow> game_ids \<Rightarrow> award list \<Rightarrow> award \<Rightarrow> award" where
  "settled env c known gids as x = (if x \<in> set as then award_after (fate_of env c known gids x) x else x)"

lemma flush_loop_prefix:
  assumes "wf_store st" "distinct (map aw_achievement as)" "set as \<subseteq> set (pending_awards st)"
    and "flush_loop env c known gids as n st = (r, st')"
  shows "\<exists>pre rest. as = pre @ rest \<and> wf_store st' \<and>
    pending_awards st' = map (settled env c known gids pre) (pending_awards st) \<and>
    (\<forall>a \<in> set pre. decide_award env c known gids a = Inr (fate_of env c known gids a)) \<and>
    (case r of
       Inl e \<Rightarrow> rest \<noteq> [] \<and> decide_award env c known gids (hd rest) = Inl e
     | Inr (nf, ns, nd) \<Rightarrow> rest = [] \<and>
         nf = fst n + (\<Sum>a\<leftarrow>as. flushed_by (fate_of env c known gids a)) \<and>
         ns = fst (snd n) + (\<Sum>a\<leftarrow>as. stale_by (fate_of env c known gids a)) \<and>
         nd = snd (snd n) + (\<Sum>a\<leftarrow>as. deleted_by (fate_of env c known gids a)))"
  using assms
proof (induction env c known gids as n st rule: flush_loop.induct)
  case (1 env c known gids n st)
  then show ?case by (cases n) (auto simp: settled_def)
next
  case (2 env c known gids a as nf ns nd st)
  show ?case
  proof (cases "decide_award env c known gids a")
    case (Inl e)
    then show ?thesis using 2 by (intro exI [of _ "[]"] exI [of _ "a # as"]) (auto simp: settled_def)
  next
    case (Inr f)
    have f: "fate_of env c known gids a = f" using Inr by (simp add: fate_of_def)
    let ?st = "store_after f a st"
    have a: "a \<in> set (pending_awards st)" using 2 by simp
    note S = store_after_awards [OF "2.prems"(1) a, of f]
    have na: "x \<noteq> a" "x \<noteq> award_after f a" if "x \<in> set as" for x
    proof -
      have "aw_achievement x \<noteq> aw_achievement a"
        using "2.prems"(2) imageI [OF that, of aw_achievement] by auto
      then show "x \<noteq> a" "x \<noteq> award_after f a" by auto
    qed
    have sub: "set as \<subseteq> set (pending_awards ?st)"
    proof
      fix x assume x: "x \<in> set as"
      then have "x \<in> set (pending_awards st)" using "2.prems"(3) by auto
      then show "x \<in> set (pending_awards ?st)" unfolding S(1) using na(1) [OF x] by force
    qed
    have run: "flush_loop env c known gids as (nf + flushed_by f, ns + stale_by f, nd + deleted_by f) ?st = (r, st')"
      using "2.prems"(4) Inr by simp
    have dist: "distinct (map aw_achievement as)" using "2.prems"(2) by simp
    obtain pre rest where IH: "as = pre @ rest" "wf_store st'"
      "pending_awards st' = map (settled env c known gids pre) (pending_awards ?st)"
      "\<forall>x \<in> set pre. decide_award env c known gids x = Inr (fate_of env c known gids x)"
      "case r of
         Inl e \<Rightarrow> rest \<noteq> [] \<and> decide_award env c known gids (hd rest) = Inl e
       | Inr (nf', ns', nd') \<Rightarrow> rest = [] \<and>
           nf' = nf + flushed_by f + (\<Sum>a\<leftarrow>as. flushed_by (fate_of env c known gids a)) \<and>
           ns' = ns + stale_by f + (\<Sum>a\<leftarrow>as. stale_by (fate_of env c known gids a)) \<and>
           nd' = nd + deleted_by f + (\<Sum>a\<leftarrow>as. deleted_by (fate_of env c known gids a))"
      using "2.IH" [OF Inr S(2) dist sub run, unfolded fst_conv snd_conv] by blast
    have "settled env c known gids pre (if y = a then award_after f a else y) = settled env c known gids (a # pre) y" for y
      using na IH(1) f by (auto simp: settled_def)
    then have "pending_awards st' = map (settled env c known gids (a # pre)) (pending_awards st)"
      unfolding IH(3) S(1) by simp
    then show ?thesis using IH Inr f
      by (intro exI [of _ "a # pre"] exI [of _ rest]) (auto split: sum.splits)
  qed
qed

text \<open>C24: a loop that ends normally rewrites the queue in place, each award by the outcome decided for
  it, and its counts are those of the outcomes.\<close>

theorem flush_loop_exact:
  assumes "wf_store st" "flush_loop env c known gids (get_pending_awards st) (0, 0, 0) st = (Inr (nf, ns, nd), st')"
  shows "wf_store st' \<and>
    pending_awards st' = map (\<lambda>a. award_after (fate_of env c known gids a) a) (pending_awards st) \<and>
    nf = count (\<lambda>a. fate_of env c known gids a = Sent SendOk) (get_pending_awards st) \<and>
    ns = count (\<lambda>a. fate_of env c known gids a \<in> {SkipStale, HardcoreStale, UnknownStale}) (get_pending_awards st) \<and>
    nd = count (\<lambda>a. fate_of env c known gids a = SkipDeleted) (get_pending_awards st)"
proof -
  have sums: "(\<Sum>a\<leftarrow>xs. flushed_by (F a)) = count (\<lambda>a. F a = Sent SendOk) xs"
    "(\<Sum>a\<leftarrow>xs. stale_by (F a)) = count (\<lambda>a. F a \<in> {SkipStale, HardcoreStale, UnknownStale}) xs"
    "(\<Sum>a\<leftarrow>xs. deleted_by (F a)) = count (\<lambda>a. F a = SkipDeleted) xs" for F :: "award \<Rightarrow> fate" and xs
    by (induction xs) (auto simp: count_def flushed_by_def stale_by_def deleted_by_def)
  have "\<exists>pre. get_pending_awards st = pre \<and> wf_store st' \<and>
      pending_awards st' = map (settled env c known gids pre) (pending_awards st) \<and>
      nf = (\<Sum>a\<leftarrow>get_pending_awards st. flushed_by (fate_of env c known gids a)) \<and>
      ns = (\<Sum>a\<leftarrow>get_pending_awards st. stale_by (fate_of env c known gids a)) \<and>
      nd = (\<Sum>a\<leftarrow>get_pending_awards st. deleted_by (fate_of env c known gids a))"
    using flush_loop_prefix [OF assms(1) distinct_get_pending [OF assms(1)] _ assms(2)] by auto
  then show ?thesis unfolding sums by (auto simp: settled_def intro!: map_cong)
qed

definition sample_award :: award where
  "sample_award = \<lparr>aw_id = 1, aw_achievement = 7, aw_query = [], aw_body = [], aw_user_agent = [],
     aw_queued_at = 1500, aw_retries = 0, aw_error = None, aw_status = STATUS_DELETED, aw_payload_hash = [],
     aw_prev_hash = [], aw_signature = [], aw_signed_at = 0\<rparr>"

definition sample_store :: store where
  "sample_store = (empty_store False)\<lparr>pending_awards := [sample_award]\<rparr>"

lemma wf_sample_store: "wf_store sample_store"
  by (simp add: sample_store_def wf_store_def empty_store_def sample_award_def WARNING_ACHIEVEMENT_ID_def)

theorem flush_loop_exact_witness:
  "\<forall>env c known gids. \<exists>st'. flush_loop env c known gids (get_pending_awards sample_store) (0, 0, 0) sample_store =
     (Inr (0, 0, 1), st') \<and> pending_awards st' = [sample_award]"
proof (intro allI)
  fix env c known gids
  have d: "decide_award env c known gids sample_award = Inr SkipDeleted"
    by (simp add: decide_award_def sample_award_def)
  have q: "get_pending_awards sample_store = [sample_award]"
    by (simp add: get_pending_awards_def sample_store_def)
  have run: "flush_loop env c known gids (get_pending_awards sample_store) (0, 0, 0) sample_store =
      (Inr (0, 0, 1), sample_store)"
    by (simp add: q d flushed_by_def stale_by_def deleted_by_def store_after_def)
  from flush_loop_exact [OF wf_sample_store run]
  show "\<exists>st'. flush_loop env c known gids (get_pending_awards sample_store) (0, 0, 0) sample_store =
     (Inr (0, 0, 1), st') \<and> pending_awards st' = [sample_award]"
    using run d by (simp add: sample_store_def fate_of_def award_after_def)
qed

section \<open>No award is lost\<close>

lemma same_content_refl [simp]: "same_content a a"
  by (simp add: same_content_def)

lemma same_contentD:
  assumes "same_content a b"
  shows "aw_achievement b = aw_achievement a" "aw_id b = aw_id a" "aw_status b = aw_status a"
  using arg_cong [OF assms [unfolded same_content_def], of aw_achievement]
    arg_cong [OF assms [unfolded same_content_def], of aw_id]
    arg_cong [OF assms [unfolded same_content_def], of aw_status] by simp_all

definition kept :: "store \<Rightarrow> store \<Rightarrow> bool" where
  "kept st st' = (wf_store st' \<and> (\<forall>a \<in> set (pending_awards st). \<exists>b \<in> set (pending_awards st'). same_content a b))"

lemma kept_updates:
  assumes "wf_store st" "\<forall>b \<in> set bs. \<exists>a \<in> set (pending_awards st). same_content a b" "kept st s"
  shows "kept st (fold update_pending_award bs s)"
  using assms
proof (induction bs arbitrary: s)
  case (Cons b bs)
  obtain a where a: "a \<in> set (pending_awards st)" "same_content a b" using Cons.prems(2) by auto
  obtain x where x: "x \<in> set (pending_awards s)" "same_content a x" using Cons.prems(3) a by (auto simp: kept_def)
  have wf: "wf_store s" using Cons.prems(3) by (simp add: kept_def)
  have up: "pending_awards (update_pending_award b s) = map (\<lambda>y. if y = x then b else y) (pending_awards s)"
    using same_contentD [OF a(2)] same_contentD [OF x(2)] by (intro update_pending_award_at [OF wf x(1)]) simp_all
  have "\<exists>z \<in> set (pending_awards (update_pending_award b s)). same_content c z" if c: "c \<in> set (pending_awards st)" for c
  proof -
    obtain y where y: "y \<in> set (pending_awards s)" "same_content c y" using Cons.prems(3) c by (auto simp: kept_def)
    show ?thesis
    proof (cases "y = x")
      case True
      then have "aw_achievement c = aw_achievement a"
        using same_contentD(1) [OF y(2)] same_contentD(1) [OF x(2)] by simp
      then have "c = a" using wf_storeD(3) [OF Cons.prems(1)] c a(1) by (auto simp: distinct_map dest: inj_onD)
      then show ?thesis using a(2) x(1) unfolding up by force
    next
      case False
      then show ?thesis using y unfolding up by force
    qed
  qed
  then have "kept st (update_pending_award b s)" using wf by (simp add: kept_def wf_update)
  then show ?case using Cons by simp
qed simp

lemma checked_queue_kept:
  assumes wf: "wf_store st" and q: "checked_queue env st = Some (pending, st1)"
  shows "kept st st1 \<and> pending = get_pending_awards st1"
proof (cases "verify_chain (fe_sha env) (fe_sign env) (get_pending_awards st)")
  case None
  then show ?thesis using q wf by (auto simp: checked_queue_def kept_def intro: same_content_refl)
next
  case (Some p)
  then obtain repaired where r: "repair_pending_chain (fe_sha env) (fe_sign env) (fe_clock env) (get_pending_awards st) = Some repaired"
    and s: "st1 = fold update_pending_award repaired st" "pending = get_pending_awards st1"
    using q by (cases p) (auto simp: checked_queue_def Let_def split: option.splits if_splits)
  have "list_all2 same_content (get_pending_awards st) repaired"
    using r repair_from_props [of "fe_sha env" "fe_sign env" "fe_clock env" GENESIS_HASH "get_pending_awards st"]
    by (simp add: repair_pending_chain_def)
  then have "\<forall>b \<in> set repaired. \<exists>a \<in> set (pending_awards st). same_content a b"
    by (metis in_set_conv_nth list_all2_conv_all_nth set_get_pending)
  moreover have "kept st st" using wf by (auto simp: kept_def intro: same_content_refl)
  ultimately show ?thesis using kept_updates [OF wf] s by blast
qed

definition same_queue :: "store \<Rightarrow> store \<Rightarrow> bool" where
  "same_queue st st' = (wf_store st \<longrightarrow> wf_store st' \<and> pending_awards st' = pending_awards st)"

lemma same_queue_refl [simp]: "same_queue st st"
  by (simp add: same_queue_def)

lemma same_queue_trans: "same_queue a b \<Longrightarrow> same_queue b c \<Longrightarrow> same_queue a c"
  by (auto simp: same_queue_def)

lemma same_queue_upsert: "upsert_cache t k b ca src st = Inr st' \<Longrightarrow> same_queue st st'"
  using keeps_awards by (auto simp: same_queue_def)

lemma same_queue_clear: "same_queue st (clear_invalid_token st)"
  by (simp add: same_queue_def wf_clear_invalid)

lemma refresh_games_queue: "refresh_games env c gs ids st = (r, st') \<Longrightarrow> same_queue st st'"
proof (induction env c gs ids st arbitrary: r st' rule: refresh_games.induct)
  case (2 env c g gs ids st)
  let ?ua = "proxy_user_agent (fe_tag env) (proxy_user_agent (fe_tag env) (fe_fallback env))"
  show ?case
  proof (cases "refresh_game_patch (fe_net env) (fe_host env) (fe_clock env) g c ?ua None st")
    case (Inl e)
    then show ?thesis using "2.prems" same_queue_upsert
      by (cases e) (auto simp: mark_token_invalid_def split: sum.splits)
  next
    case (Inr p)
    then obtain body st1 where p: "refresh_game_patch (fe_net env) (fe_host env) (fe_clock env) g c ?ua None st = Inr (body, st1)"
      by (cases p) simp
    have "same_queue st st1" using p by (rule refresh_game_patch_Inr) (rule same_queue_upsert)
    then have q: "same_queue st (clear_invalid_token st1)" using same_queue_clear same_queue_trans by blast
    show ?thesis
      using "2.prems" q p "2.IH" [OF p] same_queue_trans [OF q]
      by (auto simp: Let_def split: option.splits)
  qed
qed simp

lemma refresh_and_load_queue:
  "refresh_and_load_achievement_ids env c as st = (r, st') \<Longrightarrow> same_queue st st'"
  by (auto simp: refresh_and_load_achievement_ids_def Let_def split: sum.splits if_splits prod.splits refresh.splits
      dest: refresh_games_queue)

lemma cache_unlocks_queue: "cache_unlocks net host t g c ua st = Inr (r, st') \<Longrightarrow> same_queue st st'"
  using cache_unlocks_cases same_queue_upsert by fastforce

lemma cache_session_queue: "cache_session t g c st = Inr (b, st') \<Longrightarrow> same_queue st st'"
  by (erule cache_session_Inr) (rule same_queue_upsert)

lemma refresh_sessions_queue: "refresh_sessions env c games st = (r, st') \<Longrightarrow> same_queue st st'"
proof -
  let ?ua = "proxy_user_agent (fe_tag env) (proxy_user_agent (fe_tag env) (fe_fallback env))"
  define F where "F = (\<lambda>g s. case s of
       (Some e, st1) \<Rightarrow> (Some e, st1)
     | (None, st1) \<Rightarrow> (case cache_unlocks (fe_net env) (fe_host env) (fe_clock env) g c ?ua st1 of
           Inl e \<Rightarrow> (Some e, st1)
         | Inr (_, st2) \<Rightarrow> (case cache_session (fe_clock env) g c st2 of
               Inl e \<Rightarrow> (Some e, st2) | Inr (_, st3) \<Rightarrow> (None, st3))))"
  have one: "same_queue (snd s) (snd (F g s))" for g s
    unfolding F_def using cache_unlocks_queue cache_session_queue same_queue_trans
    by (auto split: prod.splits option.splits sum.splits) blast+
  have "same_queue (snd s) (snd (fold F gs s))" for gs s
  proof (induction gs arbitrary: s)
    case (Cons g gs)
    then show ?case using same_queue_trans [OF one [of s g]] by simp
  qed simp
  from this [of "(None, st)" games] show "refresh_sessions env c games st = (r, st') \<Longrightarrow> same_queue st st'"
    by (simp add: refresh_sessions_def F_def)
qed

lemma purge_keeps_pending:
  "a \<in> set (pending_awards st) \<Longrightarrow> aw_status a = STATUS_PENDING \<Longrightarrow>
   purge_processed_awards_if_safe st = st"
  by (auto simp: purge_processed_awards_if_safe_def pending_awards_exist_by_status_def list_ex_iff)

text \<open>The same award, still to be sent: the links of the chain, the retries and the last error may be new.\<close>

definition still_waits :: "award \<Rightarrow> award \<Rightarrow> bool" where
  "still_waits a x = (x = a\<lparr>aw_prev_hash := aw_prev_hash x, aw_signature := aw_signature x, aw_signed_at := aw_signed_at x,
     aw_retries := aw_retries x, aw_error := aw_error x\<rparr> \<and> aw_status x = STATUS_PENDING)"

lemma still_waits_same: "same_content a b \<Longrightarrow> aw_status a = STATUS_PENDING \<Longrightarrow> still_waits a b"
  by (cases a; cases b) (simp add: still_waits_def same_content_def)

lemma still_waits_content: "same_content a b \<Longrightarrow> still_waits b x \<Longrightarrow> still_waits a x"
  by (cases a; cases b; cases x) (simp add: still_waits_def same_content_def)

lemma sent_still_waits:
  assumes "decide_award env c known gids b = Inr f" "aw_status b = STATUS_PENDING"
    and "f \<notin> {Sent SendOk, HardcoreStale, UnknownStale}"
  shows "still_waits b (award_after f b)"
proof -
  have "STATUS_PENDING \<noteq> STATUS_DELETED" "STATUS_PENDING \<noteq> STATUS_STALE" "STATUS_PENDING \<noteq> STATUS_FLUSHED"
    by (simp_all add: STATUS_PENDING_def STATUS_DELETED_def STATUS_STALE_def STATUS_FLUSHED_def)
  then show ?thesis using assms
    by (cases b) (auto simp: decide_award_def award_after_def still_waits_def res_simps split: if_splits send_outcome.splits)
qed

text \<open>The outcome that a flush of this store decides for an award of it: with the queue it checks and repairs,
  the credentials it resolves and the achievements it loads.\<close>

definition flush_decides :: "flush_env \<Rightarrow> store \<Rightarrow> award \<Rightarrow> fate \<Rightarrow> bool" where
  "flush_decides env st a f = (\<exists>pending st1 c st2 known games gids st3 b.
     checked_queue env st = Some (pending, st1) \<and>
     resolve_credentials (fe_net env) (fe_host env) (fe_fallback env) (fe_clock env) (fe_tokens env) (fe_passwords env)
       (proxy_user_agent (fe_tag env) (fe_fallback env)) (fe_tag env) st1 = Inr (Some c, st2) \<and>
     refresh_and_load_achievement_ids env c (filter (is_status STATUS_PENDING) pending) st2 = (Refreshed (known, games, gids), st3) \<and>
     b \<in> set pending \<and> same_content a b \<and> decide_award env c known gids b = Inr f)"

text \<open>The ways a flush of a queue with pending awards can go: it ends before an award is decided on, or the
  loop runs, and the sessions are refreshed and the queue purged after it at most.\<close>

lemma flush_ways:
  assumes run: "flush_pending_awards env st = (r, st')" and queue: "get_pending_awards st \<noteq> []"
    and p: "checked_queue env st = Some (pending, st1)" and ex: "list_ex (is_status STATUS_PENDING) pending"
  obtains (stopped) "same_queue st1 st'"
  | (looped) c st2 known games gids lr st3 st4
    where "resolve_credentials (fe_net env) (fe_host env) (fe_fallback env) (fe_clock env) (fe_tokens env) (fe_passwords env)
        (proxy_user_agent (fe_tag env) (fe_fallback env)) (fe_tag env) st1 = Inr (Some c, st2)"
      "refresh_and_load_achievement_ids env c (filter (is_status STATUS_PENDING) pending) st2 = (Refreshed (known, games, gids), st3)"
      "same_queue st1 st3" "flush_loop env c known gids pending (0, 0, 0) st3 = (lr, st4)"
      "st' = st4 \<or> (\<exists>s5. same_queue st4 s5 \<and> (st' = s5 \<or> st' = purge_processed_awards_if_safe s5))"
proof -
  let ?agent = "proxy_user_agent (fe_tag env) (fe_fallback env)"
  let ?creds = "resolve_credentials (fe_net env) (fe_host env) (fe_fallback env) (fe_clock env) (fe_tokens env)
        (fe_passwords env) ?agent (fe_tag env) st1"
  show ?thesis
  proof (cases "\<exists>c st2. ?creds = Inr (Some c, st2)")
    case False
    then have "st' = st1 \<or> ?creds = Inr (None, st')"
      using run queue p ex by (auto simp: flush_pending_awards_def split: sum.splits option.splits prod.splits)
    then show ?thesis
      using stopped resolve_credentials_keeps [of _ _ _ _ _ _ _ _ st1 None st'] by (auto simp: same_queue_def)
  next
    case True
    then obtain c st2 where q: "?creds = Inr (Some c, st2)" by blast
    obtain rr st3 where rr: "refresh_and_load_achievement_ids env c (filter (is_status STATUS_PENDING) pending) st2 = (rr, st3)"
      by (cases "refresh_and_load_achievement_ids env c (filter (is_status STATUS_PENDING) pending) st2")
    have q12: "same_queue st1 st2"
      using resolve_credentials_keeps [OF q] by (simp add: same_queue_def)
    have q13: "same_queue st1 st3"
      by (rule same_queue_trans [OF q12 refresh_and_load_queue [OF rr]])
    show ?thesis
    proof (cases "\<exists>known games gids. rr = Refreshed (known, games, gids)")
      case False
      then have "st' = st3"
        using run queue p ex q rr by (cases rr) (auto simp: flush_pending_awards_def)
      then show ?thesis using stopped q13 by simp
    next
      case True
      then obtain known games gids where k: "rr = Refreshed (known, games, gids)" by blast
      obtain lr st4 where loop: "flush_loop env c known gids pending (0, 0, 0) st3 = (lr, st4)"
        by (cases "flush_loop env c known gids pending (0, 0, 0) st3")
      have "st' = st4 \<or> (\<exists>s5. same_queue st4 s5 \<and> (st' = s5 \<or> st' = purge_processed_awards_if_safe s5))"
        using run queue p ex q rr k loop refresh_sessions_queue [of env c games st4]
          same_queue_refl [of st4, unfolded same_queue_def]
        by (auto simp: flush_pending_awards_def Let_def split: sum.splits prod.splits option.splits if_splits
            intro: same_queue_refl)
      then show ?thesis using looped [OF q rr [unfolded k] q13 loop] by blast
    qed
  qed
qed

text \<open>What the loop and the end of a flush leave of a pending award that was not settled for good.\<close>

lemma unsettled_survives:
  assumes st3: "wf_store st3" "get_pending_awards st1 = pending" "pending_awards st3 = pending_awards st1" "wf_store st1"
    and loop: "flush_loop env c known gids pending (0, 0, 0) st3 = (lr, st4)"
    and final: "st' = st4 \<or> (\<exists>s5. same_queue st4 s5 \<and> (st' = s5 \<or> st' = purge_processed_awards_if_safe s5))"
    and b: "b \<in> set (pending_awards st1)" "aw_status b = STATUS_PENDING"
  shows "wf_store st'" and "(\<exists>x \<in> set (pending_awards st'). still_waits b x) \<or>
    (\<exists>f \<in> {Sent SendOk, HardcoreStale, UnknownStale}. decide_award env c known gids b = Inr f)"
proof -
  have "distinct (map aw_achievement pending)" "set pending \<subseteq> set (pending_awards st3)"
    using st3 distinct_get_pending by auto
  from flush_loop_prefix [OF st3(1) this loop] obtain pre where
    pre: "wf_store st4" "pending_awards st4 = map (settled env c known gids pre) (pending_awards st3)"
      "\<forall>x \<in> set pre. decide_award env c known gids x = Inr (fate_of env c known gids x)" by blast
  then show "wf_store st'"
    using final by (auto simp: same_queue_def purge_processed_awards_if_safe_def wf_award_deletes)
  define b' where "b' = settled env c known gids pre b"
  have b': "b' \<in> set (pending_awards st4)" using b(1) st3(3) unfolding pre(2) by (auto simp: b'_def)
  show "(\<exists>x \<in> set (pending_awards st'). still_waits b x) \<or>
    (\<exists>f \<in> {Sent SendOk, HardcoreStale, UnknownStale}. decide_award env c known gids b = Inr f)"
  proof (cases "b \<in> set pre \<and> fate_of env c known gids b \<in> {Sent SendOk, HardcoreStale, UnknownStale}")
    case False
    then have waits: "still_waits b b'"
      using sent_still_waits [OF _ b(2)] still_waits_same [OF same_content_refl b(2)] pre(3)
      by (auto simp: b'_def settled_def)
    then have "purge_processed_awards_if_safe s = s" if "same_queue st4 s" for s
      using that b' pre(1) by (intro purge_keeps_pending [of b']) (auto simp: same_queue_def still_waits_def)
    then have "b' \<in> set (pending_awards st')"
      using final b' pre(1) by (auto simp: same_queue_def)
    then show ?thesis using waits by blast
  qed (use pre(3) in blast)
qed

text \<open>C23: an award queued for sending stays in the queue as it was queued, still to be sent, whatever fails on
  the way, unless this flush, with the queue, the credentials and the achievements it worked with, decided
  for it that the server accepted it, that it is a hardcore award, or that the live data of its game does
  not know it.\<close>

theorem flush_loses_nothing:
  assumes wf: "wf_store st" and run: "flush_pending_awards env st = (r, st')"
    and a: "a \<in> set (pending_awards st)" "aw_status a = STATUS_PENDING"
  shows "wf_store st' \<and> ((\<exists>x \<in> set (pending_awards st'). still_waits a x) \<or>
    (\<exists>f \<in> {Sent SendOk, HardcoreStale, UnknownStale}. flush_decides env st a f))"
proof (cases "checked_queue env st")
  case None
  then have "st' = st" using run by (auto simp: flush_pending_awards_def split: if_splits)
  then show ?thesis using a wf still_waits_same [OF same_content_refl a(2)] by blast
next
  case (Some p)
  then obtain pending st1 where p: "checked_queue env st = Some (pending, st1)" by (cases p) auto
  then have k: "wf_store st1" "pending = get_pending_awards st1"
    and "\<forall>x \<in> set (pending_awards st). \<exists>b \<in> set (pending_awards st1). same_content x b"
    using checked_queue_kept [OF wf p] by (auto simp: kept_def)
  then obtain b where b: "b \<in> set (pending_awards st1)" "same_content a b" using a(1) by auto
  have b_pending: "aw_status b = STATUS_PENDING" using same_contentD(3) [OF b(2)] a(2) by simp
  have queue: "get_pending_awards st \<noteq> []" using a(1) by (metis empty_iff empty_set set_get_pending)
  have ex: "list_ex (is_status STATUS_PENDING) pending"
    using b(1) b_pending k(2) by (auto simp: list_ex_iff is_status_def)
  show ?thesis
  proof (cases rule: flush_ways [OF run queue p ex, case_names stopped looped])
    case stopped
    then show ?thesis using b k(1) still_waits_same [OF b(2) a(2)] by (auto simp: same_queue_def)
  next
    case (looped c st2 known games gids lr st3 st4)
    have st3: "wf_store st3" "pending_awards st3 = pending_awards st1" using looped(3) k(1) by (simp_all add: same_queue_def)
    note u = unsettled_survives [OF st3(1) k(2) [symmetric] st3(2) k(1) looped(4,5) b(1) b_pending]
    have "flush_decides env st a f" if "decide_award env c known gids b = Inr f" for f
      unfolding flush_decides_def using p looped(1,2) b k(2) that by (metis set_get_pending)
    then show ?thesis using u still_waits_content [OF b(2)] by blast
  qed
qed

text \<open>An award that the server refuses with the status 500 waits on, with a retry counted.\<close>

definition refusing_env :: flush_env where
  "refusing_env = \<lparr>fe_net = \<lambda>_ _. NetworkError, fe_post = \<lambda>_ _ _. Reply 500 [], fe_host = [],
     fe_fallback = [], fe_tag = [], fe_clock = 5, fe_sha = (\<lambda>s. CHR ''#'' # s), fe_md5 = id, fe_sign = (\<lambda>s. CHR ''!'' # s),
     fe_pubkey = [], fe_tokens = [Some \<lparr>cr_user = ''bob'', cr_token = ''t''\<rparr>], fe_passwords = []\<rparr>"

definition refused_award :: award where
  "refused_award = sample_award\<lparr>aw_status := STATUS_PENDING, aw_body := ''r=awardachievement&a=7&u=bob'', aw_queued_at := 5\<rparr>"

definition refused_store :: store where
  "refused_store = (empty_store True)\<lparr>pending_awards := [refused_award], next_award_id := 2\<rparr>"

lemma refused_not_settled:
  assumes "flush_decides refusing_env refused_store refused_award f"
  shows "f \<notin> {Sent SendOk, HardcoreStale, UnknownStale}"
proof -
  have pending: "get_pending_awards refused_store = [refused_award]" by (simp add: get_pending_awards_def refused_store_def)
  have "verify_chain (fe_sha refusing_env) (fe_sign refusing_env) [refused_award] = None" by code_simp
  then have q: "checked_queue refusing_env refused_store = Some ([refused_award], refused_store)"
    by (simp add: checked_queue_def pending)
  have "case resolve_credentials (fe_net refusing_env) (fe_host refusing_env) (fe_fallback refusing_env)
        (fe_clock refusing_env) (fe_tokens refusing_env) (fe_passwords refusing_env)
        (proxy_user_agent (fe_tag refusing_env) (fe_fallback refusing_env)) (fe_tag refusing_env) refused_store of
      Inr (Some c, st2) \<Rightarrow> find_achievement_game_ids st2 [7] None = Inr [] | _ \<Rightarrow> False"
    unfolding refusing_env_def by simp code_simp
  then have r: "fst (refresh_and_load_achievement_ids refusing_env c (filter (is_status STATUS_PENDING) [refused_award]) st2) =
      Refreshed ([], [], [])"
    if "resolve_credentials (fe_net refusing_env) (fe_host refusing_env) (fe_fallback refusing_env)
        (fe_clock refusing_env) (fe_tokens refusing_env) (fe_passwords refusing_env)
        (proxy_user_agent (fe_tag refusing_env) (fe_fallback refusing_env)) (fe_tag refusing_env) refused_store = Inr (Some c, st2)"
    for c st2
    using that by (simp add: refresh_and_load_achievement_ids_def is_status_def refused_award_def sample_award_def)
  from assms obtain c gids b where b: "same_content refused_award b" "decide_award refusing_env c [] gids b = Inr f"
  proof -
    from assms [unfolded flush_decides_def q] obtain pending st1 c st2 known games gids st3 b where
      p: "pending = [refused_award]" "st1 = refused_store"
      and c: "resolve_credentials (fe_net refusing_env) (fe_host refusing_env) (fe_fallback refusing_env)
        (fe_clock refusing_env) (fe_tokens refusing_env) (fe_passwords refusing_env)
        (proxy_user_agent (fe_tag refusing_env) (fe_fallback refusing_env)) (fe_tag refusing_env) st1 = Inr (Some c, st2)"
      and l: "refresh_and_load_achievement_ids refusing_env c (filter (is_status STATUS_PENDING) pending) st2 = (Refreshed (known, games, gids), st3)"
      and b: "same_content refused_award b" "decide_award refusing_env c known gids b = Inr f"
      by (auto simp only: option.inject prod.inject)
    have "Refreshed (known, games, gids) = Refreshed ([], [], [])"
      using r [OF c [unfolded p]] l [unfolded p] by (metis fst_conv)
    then show thesis using b that by simp
  qed
  have "aw_status b = STATUS_PENDING" using same_contentD(3) [OF b(1)] by (simp add: refused_award_def)
  moreover have "\<not> is_hardcore_award refused_award" by code_simp
  moreover have "aw_query b = aw_query refused_award" "aw_body b = aw_body refused_award"
    using arg_cong [OF b(1) [unfolded same_content_def], of aw_query]
      arg_cong [OF b(1) [unfolded same_content_def], of aw_body] by simp_all
  then have "is_hardcore_award b = is_hardcore_award refused_award"
    unfolding is_hardcore_award_def Let_def by (simp only:)
  moreover have "send_award refusing_env c b \<noteq> Inr SendOk"
    by (auto simp: send_award_def refusing_env_def res_simps)
  ultimately show ?thesis using b(2)
    by (auto simp: decide_award_def res_simps STATUS_PENDING_def STATUS_DELETED_def STATUS_STALE_def STATUS_FLUSHED_def)
qed

theorem flush_loses_nothing_witness:
  "(\<exists>x \<in> set (pending_awards (snd (flush_pending_awards refusing_env refused_store))). still_waits refused_award x) \<and>
   map aw_retries (pending_awards (snd (flush_pending_awards refusing_env refused_store))) = [1]"
proof -
  let ?r = "flush_pending_awards refusing_env refused_store"
  have "wf_store refused_store"
    by (simp add: refused_store_def wf_store_def empty_store_def refused_award_def sample_award_def WARNING_ACHIEVEMENT_ID_def)
  moreover have "refused_award \<in> set (pending_awards refused_store)" "aw_status refused_award = STATUS_PENDING"
    by (simp_all add: refused_store_def refused_award_def)
  moreover have left: "map (\<lambda>x. (aw_status x, aw_retries x)) (pending_awards (snd ?r)) = [(STATUS_PENDING, 1)]"
    by code_simp
  ultimately show ?thesis
    using refused_not_settled flush_loses_nothing [of refused_store refusing_env "fst ?r" "snd ?r" refused_award] by (auto simp: map_eq_Cons_conv)
qed

text \<open>A queue whose check fails for another reason than a broken link is not sent at all: the store
  is left as it was and every award still counts as remaining.\<close>

theorem tampered_queue_not_sent:
  assumes "verify_chain (fe_sha env) (fe_sign env) (get_pending_awards st) = Some (fault, i)" "fault \<noteq> LinkBroken"
  shows "flush_pending_awards env st = (Inr (outcome_failed (length (get_pending_awards st))), st)"
proof -
  have "get_pending_awards st \<noteq> []" using assms(1) by (auto simp: verify_chain_def)
  moreover have "checked_queue env st = None" using assms by (simp add: checked_queue_def)
  ultimately show ?thesis by (simp add: flush_pending_awards_def)
qed

theorem tampered_queue_not_sent_witness:
  "\<exists>env. snd (flush_pending_awards env (sample_store\<lparr>pending_awards := [sample_award\<lparr>aw_payload_hash := ''00''\<rparr>]\<rparr>)) =
     sample_store\<lparr>pending_awards := [sample_award\<lparr>aw_payload_hash := ''00''\<rparr>]\<rparr>"
proof -
  let ?env = "\<lparr>fe_net = \<lambda>_ _. NetworkError, fe_post = \<lambda>_ _ _. PostFailed, fe_host = [],
     fe_fallback = [], fe_tag = [], fe_clock = 5, fe_sha = \<lambda>_. ''ff'', fe_md5 = id, fe_sign = id, fe_pubkey = [],
     fe_tokens = [], fe_passwords = []\<rparr>"
  let ?st = "sample_store\<lparr>pending_awards := [sample_award\<lparr>aw_payload_hash := ''00''\<rparr>]\<rparr>"
  have "verify_chain (fe_sha ?env) (fe_sign ?env) (get_pending_awards ?st) = Some (PayloadMismatch, 0)"
    by (simp add: get_pending_awards_def verify_chain_def)
  from tampered_queue_not_sent [OF this] show ?thesis by (intro exI [of _ ?env]) simp
qed

end
