(* ===== verification/Network.thy ===== *)
theory Network
  imports Rate_Limit Request_Params
begin

text \<open>
  The network layer (network.py): the pacing of API requests, the tracker of reachability, the probe,
  the retried GET and the headers of a forwarded request.  Moments and durations are milliseconds of
  one clock that never runs backwards: wall is what a wall clock shows at moment 0, and a sleep adds to
  the moment.  What a server answers is a parameter.
\<close>

definition REDACTED_QUERY_KEYS :: "string list" where
  "REDACTED_QUERY_KEYS = [''p'', ''t'', ''token'', ''password'']"

definition REACHABILITY_INTERVAL_MS :: int where "REACHABILITY_INTERVAL_MS = 30000"
definition PROBE_ATTEMPTS :: nat where "PROBE_ATTEMPTS = 3"
definition PROBE_RETRY_DELAY_MS :: int where "PROBE_RETRY_DELAY_MS = 1000"
definition HTTP_TOO_MANY_REQUESTS :: int where "HTTP_TOO_MANY_REQUESTS = 429"
definition HTTP_GET_MAX_429_RETRIES :: nat where "HTTP_GET_MAX_429_RETRIES = 4"
definition HTTP_GET_INITIAL_429_BACKOFF_MS :: int where "HTTP_GET_INITIAL_429_BACKOFF_MS = 2000"
definition HTTP_GET_MAX_429_BACKOFF_MS :: int where "HTTP_GET_MAX_429_BACKOFF_MS = 15000"
definition RA_MIN_REQUEST_INTERVAL_MS :: int where "RA_MIN_REQUEST_INTERVAL_MS = 300"

section \<open>State\<close>

record reachability =
  reachable :: bool
  checked_at :: int

record net_state =
  mono :: int
  wall :: int
  last_request_at :: int
  tracker :: reachability
  limiter :: limiter
  usage_log :: "(string \<times> int option) list"
  sent_at :: "int list"

definition mark :: "bool \<Rightarrow> int option \<Rightarrow> net_state \<Rightarrow> net_state" where
  "mark r at s = s\<lparr>tracker := \<lparr>reachable = r, checked_at = (case at of None \<Rightarrow> mono s | Some t \<Rightarrow> t)\<rparr>\<rparr>"

definition is_retroachievements_reachable :: "net_state \<Rightarrow> bool" where
  "is_retroachievements_reachable s = reachable (tracker s)"

definition sleep :: "int \<Rightarrow> net_state \<Rightarrow> net_state" where
  "sleep d s = s\<lparr>mono := mono s + d\<rparr>"

definition wall_now :: "net_state \<Rightarrow> int" where
  "wall_now s = wall s + mono s"

definition throttle_wait :: "net_state \<Rightarrow> net_state" where
  "throttle_wait s =
     (let elapsed = mono s - last_request_at s;
          delay = max 0 (RA_MIN_REQUEST_INTERVAL_MS - elapsed);
          s1 = (if delay > 0 then sleep delay s else s)
      in s1\<lparr>last_request_at := mono s1\<rparr>)"

definition record_request :: "string \<Rightarrow> int option \<Rightarrow> net_state \<Rightarrow> net_state" where
  "record_request source status s = s\<lparr>usage_log := usage_log s @ [(source, status)]\<rparr>"

section \<open>Reachability\<close>

definition should_probe :: "bool \<Rightarrow> int \<Rightarrow> reachability \<Rightarrow> bool" where
  "should_probe force now r =
     (force \<or> checked_at r = 0 \<or> \<not> reachable r \<or> now - checked_at r \<ge> REACHABILITY_INTERVAL_MS)"

text \<open>An interface from the text of its two files, None where a file cannot be read.\<close>

definition interface_is_active :: "string option \<times> string option \<Rightarrow> bool" where
  "interface_is_active files = (case files of (operstate, carrier) \<Rightarrow>
     (case operstate of
        None \<Rightarrow> False
      | Some s \<Rightarrow> if strip s = ''up'' then True
          else if strip s \<noteq> ''unknown'' then False
          else (case carrier of None \<Rightarrow> False | Some t \<Rightarrow> strip t = ''1'')))"

definition has_active_network_interface :: "(string \<times> string option \<times> string option) list option \<Rightarrow> bool" where
  "has_active_network_interface ifaces = (case ifaces of
       None \<Rightarrow> True
     | Some is \<Rightarrow> list_ex (\<lambda>(name, files). name \<noteq> ''lo'' \<and> interface_is_active files) is)"

text \<open>One HEAD: the status of the answer, None where the request raised.\<close>

definition head_upstream :: "int option \<Rightarrow> bool" where
  "head_upstream answer = (case answer of None \<Rightarrow> False | Some status \<Rightarrow> 200 \<le> status \<and> status < 500)"

fun probe_attempts :: "nat \<Rightarrow> bool \<Rightarrow> (nat \<Rightarrow> int option) \<Rightarrow> nat \<Rightarrow> net_state \<Rightarrow> bool \<times> net_state" where
  "probe_attempts 0 first heads n s = (False, s)"
| "probe_attempts (Suc k) first heads n s =
     (let s1 = (if first then s else sleep PROBE_RETRY_DELAY_MS s) in
      if head_upstream (heads n) then (True, s1) else probe_attempts k False heads (Suc n) s1)"

definition probe_retroachievements ::
  "(string \<times> string option \<times> string option) list option \<Rightarrow> (nat \<Rightarrow> int option) \<Rightarrow> bool \<Rightarrow> net_state \<Rightarrow> bool \<times> net_state" where
  "probe_retroachievements ifaces heads force s =
     (let now = mono s in
      if \<not> should_probe force now (tracker s) then (is_retroachievements_reachable s, s)
      else if \<not> has_active_network_interface ifaces then (False, mark False (Some now) s)
      else (case probe_attempts (if force then PROBE_ATTEMPTS else 1) True heads 0 s of
              (ok, s1) \<Rightarrow> (ok, mark ok (Some now) s1)))"

section \<open>The GET with retries\<close>

text \<open>What a request meets: a decoded answer, an answer whose text cannot be decoded, an error
  status with its Retry-After header, a failed connection, or any other exception.\<close>

datatype answer =
    Answered int string
  | Undecodable int
  | ErrorStatus int "string option"
  | ConnectionFailed
  | OtherFailure

datatype get_result = GotBody string | GotHttpError int | GotUrlError | GotOther | GotRateLimited

definition api_action_from_url :: "string \<Rightarrow> string option" where
  "api_action_from_url url =
     (let q = url_query url in
      if contains ''r='' q then Some (before CHR ''&'' (after_text ''r='' q)) else None)"

definition retry_after_header_millis :: "string option \<Rightarrow> int option" where
  "retry_after_header_millis header =
     (let v = strip (case header of None \<Rightarrow> [] | Some h \<Rightarrow> h) in
      if isdigit v then Some (int (nat_of_digits v) * 1000) else None)"

definition retry_after_delay :: "string option \<Rightarrow> nat \<Rightarrow> int" where
  "retry_after_delay header attempt =
     (case retry_after_header_millis header of
        Some ms \<Rightarrow> if ms > 0 then min ms HTTP_GET_MAX_429_BACKOFF_MS
                   else min (HTTP_GET_INITIAL_429_BACKOFF_MS * 2 ^ attempt) HTTP_GET_MAX_429_BACKOFF_MS
      | None \<Rightarrow> min (HTTP_GET_INITIAL_429_BACKOFF_MS * 2 ^ attempt) HTTP_GET_MAX_429_BACKOFF_MS)"

definition usage_source :: "net_state \<Rightarrow> string" where
  "usage_source s = (if in_background (limiter s) then ''background'' else ''app'')"

definition note_usage :: "string option \<Rightarrow> int option \<Rightarrow> net_state \<Rightarrow> net_state" where
  "note_usage action status s = (if action = None then s else record_request (usage_source s) status s)"

definition start_request :: "string option \<Rightarrow> net_state \<Rightarrow> net_state" where
  "start_request action s =
     (let s1 = (if action = None then s else throttle_wait s) in s1\<lparr>sent_at := sent_at s1 @ [mono s1]\<rparr>)"

text \<open>The attempts left, the number of this one and the answers by number, each with the time it
  takes.  A 429 of the last attempt is raised as every other error status is.\<close>

fun get_attempts ::
  "nat \<Rightarrow> string option \<Rightarrow> (nat \<Rightarrow> int \<times> answer) \<Rightarrow> nat \<Rightarrow> net_state \<Rightarrow> get_result \<times> net_state" where
  "get_attempts 0 action ans n s = (GotOther, s)"
| "get_attempts (Suc k) action ans n s =
     (if in_background (limiter s) \<and> rate_paused_until (wall_now s) (limiter s) \<noteq> None
      then (GotRateLimited, s)
      else
        (let s1 = sleep (fst (ans n)) (start_request action s) in
         case snd (ans n) of
           Answered status body \<Rightarrow> (GotBody body, mark True None (note_usage action (Some status) s1))
         | Undecodable status \<Rightarrow> (GotOther, mark False None (note_usage action (Some status) s1))
         | ConnectionFailed \<Rightarrow> (GotUrlError, mark False None (note_usage action None s1))
         | OtherFailure \<Rightarrow> (GotOther, mark False None s1)
         | ErrorStatus status header \<Rightarrow>
             let s2 = mark (status < 500) None (note_usage action (Some status) s1) in
             if status = HTTP_TOO_MANY_REQUESTS then
               (let s3 = s2\<lparr>limiter := on_rate_limited (retry_after_header_millis header) (wall_now s2) (limiter s2)\<rparr> in
                if k = 0 then (GotHttpError status, s3)
                else get_attempts k action ans (Suc n) (sleep (retry_after_delay header n) s3))
             else (GotHttpError status, s2)))"

definition http_get :: "string \<Rightarrow> (nat \<Rightarrow> int \<times> answer) \<Rightarrow> net_state \<Rightarrow> get_result \<times> net_state" where
  "http_get url ans s =
     get_attempts (Suc (if in_background (limiter s) then 0 else HTTP_GET_MAX_429_RETRIES))
       (api_action_from_url url) ans 0 s"

section \<open>Headers and logged URLs\<close>

definition skip_headers :: "string list" where
  "skip_headers = [''host'', ''content-length'', ''connection'', ''transfer-encoding'', ''accept-encoding'']"

fun forward_fields :: "string \<Rightarrow> (string \<times> string) list \<Rightarrow> (string \<times> string) list" where
  "forward_fields tag [] = []"
| "forward_fields tag ((k, v) # hs) =
     (if lower k \<in> set skip_headers then forward_fields tag hs
      else if lower k = ''user-agent'' then (k, proxy_user_agent tag v) # forward_fields tag hs
      else (k, v) # forward_fields tag hs)"

definition build_forward_headers :: "string \<Rightarrow> string \<Rightarrow> (string \<times> string) list \<Rightarrow> (string \<times> string) list" where
  "build_forward_headers tag fallback headers =
     (let forwarded = forward_fields tag headers in
      if ''User-Agent'' \<notin> fst ` set forwarded \<and> ''user-agent'' \<notin> fst ` set forwarded
      then forwarded @ [(''User-Agent'', proxy_user_agent tag fallback)] else forwarded)"

definition redacted_query :: "string \<Rightarrow> string" where
  "redacted_query query = urlencode (map (\<lambda>(k, v).
     (k, if lower k \<in> set REDACTED_QUERY_KEYS then ''<redacted>'' else v)) (parse_qsl query))"

section \<open>Field laws\<close>

lemma mark_simps [simp]:
  "tracker (mark r at s) = \<lparr>reachable = r, checked_at = (case at of None \<Rightarrow> mono s | Some t \<Rightarrow> t)\<rparr>"
  "mono (mark r at s) = mono s" "wall (mark r at s) = wall s" "limiter (mark r at s) = limiter s"
  "last_request_at (mark r at s) = last_request_at s" "sent_at (mark r at s) = sent_at s"
  by (simp_all add: mark_def)

lemma note_usage_simps [simp]:
  "tracker (note_usage a st s) = tracker s" "mono (note_usage a st s) = mono s"
  "limiter (note_usage a st s) = limiter s" "last_request_at (note_usage a st s) = last_request_at s"
  "sent_at (note_usage a st s) = sent_at s" "wall (note_usage a st s) = wall s"
  by (simp_all add: note_usage_def record_request_def)

lemma sleep_simps [simp]:
  "mono (sleep d s) = mono s + d" "tracker (sleep d s) = tracker s" "limiter (sleep d s) = limiter s"
  "last_request_at (sleep d s) = last_request_at s" "sent_at (sleep d s) = sent_at s" "wall (sleep d s) = wall s"
  by (simp_all add: sleep_def)

lemma start_request_simps [simp]:
  "tracker (start_request a s) = tracker s" "limiter (start_request a s) = limiter s"
  "wall (start_request a s) = wall s"
  by (simp_all add: start_request_def throttle_wait_def Let_def)

lemma in_background_on_rate_limited [simp]: "in_background (on_rate_limited r n l) = in_background l"
  by (simp add: in_background_def on_rate_limited_def Let_def)

section \<open>The probe\<close>

lemma probe_attempts_result:
  "fst (probe_attempts k first heads n s) = (\<exists>i<k. head_upstream (heads (n + i)))"
  by (induction k first heads n s rule: probe_attempts.induct) (auto simp: Let_def less_Suc_eq_0_disj)

lemma probe_attempts_time:
  "\<exists>d. snd (probe_attempts k first heads n s) = sleep d s \<and> 0 \<le> d \<and>
     d \<le> int (k - (if first then 1 else 0)) * PROBE_RETRY_DELAY_MS"
proof (induction k first heads n s rule: probe_attempts.induct)
  case (1 first heads n s)
  show ?case by (rule exI [of _ 0]) (simp add: sleep_def)
next
  case (2 k first heads n s)
  let ?e = "if first then 0 else PROBE_RETRY_DELAY_MS"
  have e: "(if first then s else sleep PROBE_RETRY_DELAY_MS s) = sleep ?e s"
    by (simp add: sleep_def)
  have w: "0 \<le> ?e" "?e \<le> int (Suc k - (if first then 1 else 0)) * PROBE_RETRY_DELAY_MS"
    by (auto simp: PROBE_RETRY_DELAY_MS_def)
  show ?case
  proof (cases "head_upstream (heads n)")
    case True
    with w show ?thesis by (auto simp: Let_def e)
  next
    case False
    with 2 [OF refl False] obtain d where d:
      "snd (probe_attempts k False heads (Suc n) (sleep ?e s)) = sleep d (sleep ?e s)" "0 \<le> d"
      "d \<le> int k * PROBE_RETRY_DELAY_MS"
      unfolding e by auto
    have "sleep d (sleep ?e s) = sleep (d + ?e) s" by (simp add: sleep_def)
    moreover have "d + ?e \<le> int (Suc k - (if first then 1 else 0)) * PROBE_RETRY_DELAY_MS"
      using d(3) by (cases first) (auto simp: algebra_simps)
    ultimately show ?thesis using False d w by (auto simp: Let_def e intro!: exI [of _ "d + ?e"])
  qed
qed

text \<open>What the probe answers is what the tracker says afterwards.  Without need it asks nobody; else
  it is reachable when an interface is up and one of three (one when not forced) HEAD requests is answered
  below 500.  A probe on the path of a request never waits and a forced one waits two seconds at most.\<close>

theorem probe_exact:
  "fst (probe_retroachievements ifaces heads force s) =
     (if should_probe force (mono s) (tracker s)
      then has_active_network_interface ifaces \<and> (\<exists>i < (if force then 3 else 1). head_upstream (heads i))
      else reachable (tracker s)) \<and>
   reachable (tracker (snd (probe_retroachievements ifaces heads force s))) =
     fst (probe_retroachievements ifaces heads force s) \<and>
   mono s \<le> mono (snd (probe_retroachievements ifaces heads force s)) \<and>
   mono (snd (probe_retroachievements ifaces heads force s)) \<le> mono s + (if force then 2000 else 0)"
proof -
  let ?k = "if force then PROBE_ATTEMPTS else 1"
  obtain ok s1 where p: "probe_attempts ?k True heads 0 s = (ok, s1)" by fastforce
  have ok: "ok = (\<exists>i < ?k. head_upstream (heads i))"
    using probe_attempts_result [of ?k True heads 0 s] p by simp
  obtain d where d: "s1 = sleep d s" "0 \<le> d" "d \<le> int (?k - 1) * PROBE_RETRY_DELAY_MS"
    using probe_attempts_time [of ?k True heads 0 s] p by auto
  then have "d \<le> (if force then 2000 else 0)"
    by (auto simp: PROBE_ATTEMPTS_def PROBE_RETRY_DELAY_MS_def split: if_splits)
  then show ?thesis
    using p ok d by (auto simp: probe_retroachievements_def Let_def is_retroachievements_reachable_def
        PROBE_ATTEMPTS_def split: if_splits)
qed

section \<open>The GET\<close>

definition paced :: "int list \<Rightarrow> bool" where
  "paced ts = sorted_wrt (\<lambda>a b. a + RA_MIN_REQUEST_INTERVAL_MS \<le> b) ts"

lemma start_request_sent:
  "sent_at (start_request a s) = sent_at s @ [mono (start_request a s)]"
  "mono s \<le> mono (start_request a s)"
  "a \<noteq> None \<Longrightarrow> last_request_at s + RA_MIN_REQUEST_INTERVAL_MS \<le> mono (start_request a s)"
  "a \<noteq> None \<Longrightarrow> last_request_at (start_request a s) = mono (start_request a s)"
  by (auto simp: start_request_def throttle_wait_def Let_def)

lemma retry_after_delay_bounds: "0 < retry_after_delay h n \<and> retry_after_delay h n \<le> HTTP_GET_MAX_429_BACKOFF_MS"
  by (auto simp: retry_after_delay_def HTTP_GET_MAX_429_BACKOFF_MS_def HTTP_GET_INITIAL_429_BACKOFF_MS_def
      split: option.splits)

text \<open>The state a 429 leaves before the next attempt.\<close>

abbreviation after_429 :: "string option \<Rightarrow> string option \<Rightarrow> int \<Rightarrow> net_state \<Rightarrow> net_state" where
  "after_429 action header d s \<equiv>
     (let s1 = mark True None (note_usage action (Some HTTP_TOO_MANY_REQUESTS) (sleep d (start_request action s)))
      in s1\<lparr>limiter := on_rate_limited (retry_after_header_millis header) (wall_now s1) (limiter s1)\<rparr>)"

lemma get_attempts_cases:
  obtains (paused) "in_background (limiter s)" "rate_paused_until (wall_now s) (limiter s) \<noteq> None"
    "get_attempts (Suc k) action ans n s = (GotRateLimited, s)"
  | (last) r s' where "get_attempts (Suc k) action ans n s = (r, s')"
    "sent_at s' = sent_at (start_request action s)" "mono s' = mono (start_request action s) + fst (ans n)"
    "in_background (limiter s') = in_background (limiter s)"
  | (again) header where "snd (ans n) = ErrorStatus HTTP_TOO_MANY_REQUESTS header" "k \<noteq> 0"
    "get_attempts (Suc k) action ans n s =
       get_attempts k action ans (Suc n) (sleep (retry_after_delay header n) (after_429 action header (fst (ans n)) s))"
proof -
  show thesis
  proof (cases "in_background (limiter s) \<and> rate_paused_until (wall_now s) (limiter s) \<noteq> None")
    case True
    then show ?thesis by (intro paused) simp_all
  next
    case False
    show ?thesis
    proof (cases "(\<exists>h. snd (ans n) = ErrorStatus HTTP_TOO_MANY_REQUESTS h) \<and> k \<noteq> 0")
      case True
      then obtain h where h: "snd (ans n) = ErrorStatus HTTP_TOO_MANY_REQUESTS h" by blast
      show ?thesis
        by (rule again [OF h]) (use True False in \<open>auto simp: h Let_def HTTP_TOO_MANY_REQUESTS_def\<close>)
    next
      case none: False
      obtain r s' where g: "get_attempts (Suc k) action ans n s = (r, s')" by fastforce
      show ?thesis
        by (rule last [OF g]; use g False none in \<open>cases "snd (ans n)"\<close>)
          (auto simp: Let_def split: if_splits)
    qed
  qed
qed

lemma get_attempts_sent:
  assumes "\<And>n. 0 \<le> fst (ans n)"
  shows "\<exists>ts. sent_at (snd (get_attempts k action ans n s)) = sent_at s @ ts \<and> length ts \<le> k \<and>
    (action \<noteq> None \<longrightarrow> paced (last_request_at s # ts)) \<and>
    mono s \<le> mono (snd (get_attempts k action ans n s)) \<and>
    list_all (\<lambda>t. mono s \<le> t \<and> t \<le> mono (snd (get_attempts k action ans n s))) ts"
proof (induction k arbitrary: n s)
  case 0
  show ?case by (simp add: paced_def)
next
  case (Suc k)
  show ?case
  proof (cases rule: get_attempts_cases [where s = s and k = k and action = action and ans = ans and n = n])
    case paused
    then show ?thesis by (simp add: paced_def)
  next
    case (last r s')
    then show ?thesis using assms [of n] start_request_sent [where a = action and s = s]
      by (simp add: paced_def)
  next
    case (again header)
    let ?s = "sleep (retry_after_delay header n) (after_429 action header (fst (ans n)) s)"
    let ?t = "mono (start_request action s)"
    obtain ts where ts: "sent_at (snd (get_attempts k action ans (Suc n) ?s)) = sent_at ?s @ ts"
      "length ts \<le> k" "action \<noteq> None \<longrightarrow> paced (last_request_at ?s # ts)"
      "mono ?s \<le> mono (snd (get_attempts k action ans (Suc n) ?s))"
      "list_all (\<lambda>t. mono ?s \<le> t \<and> t \<le> mono (snd (get_attempts k action ans (Suc n) ?s))) ts"
      using Suc.IH by blast
    have s: "sent_at ?s = sent_at s @ [?t]" "mono ?s = ?t + fst (ans n) + retry_after_delay header n"
      "last_request_at ?s = last_request_at (start_request action s)"
      using start_request_sent [where a = action and s = s] by (simp_all add: Let_def)
    have le: "mono s \<le> ?t" "?t \<le> mono ?s"
      using start_request_sent(2) assms [of n] retry_after_delay_bounds [of header n] s by auto
    have "action \<noteq> None \<longrightarrow> paced (last_request_at s # ?t # ts)"
      using ts(3) start_request_sent(3, 4) [where a = action and s = s] s(3) by (fastforce simp: paced_def RA_MIN_REQUEST_INTERVAL_MS_def)
    moreover have "list_all (\<lambda>t. mono s \<le> t \<and> t \<le> mono (snd (get_attempts k action ans (Suc n) ?s))) (?t # ts)"
      using ts(4, 5) le by (fastforce simp: list_all_iff)
    ultimately show ?thesis using ts s le again(3) by (intro exI [of _ "?t # ts"]) simp
  qed
qed

text \<open>One GET sends at most five requests, and at most one in the background; the requests of an API
  action start at least 300 ms after the API request before them, whatever the server answers.\<close>

theorem get_requests_paced:
  assumes "\<And>n. 0 \<le> fst (ans n)"
  shows "\<exists>ts. sent_at (snd (http_get url ans s)) = sent_at s @ ts \<and>
    length ts \<le> (if in_background (limiter s) then 1 else 5) \<and>
    (api_action_from_url url \<noteq> None \<longrightarrow> paced (last_request_at s # ts))"
  using get_attempts_sent [where ans = ans and s = s and n = 0 and action = "api_action_from_url url"
      and k = "Suc (if in_background (limiter s) then 0 else HTTP_GET_MAX_429_RETRIES)"]
    assms
  unfolding http_get_def HTTP_GET_MAX_429_RETRIES_def by (auto simp del: get_attempts.simps split: if_splits)

theorem get_requests_paced_witness:
  "\<exists>ts. sent_at (snd (http_get ''https://x/dorequest.php?r=patch'' (\<lambda>_. (40, ErrorStatus 429 None))
      \<lparr>mono = 1000, wall = 0, last_request_at = 900, tracker = \<lparr>reachable = True, checked_at = 1\<rparr>,
       limiter = \<lparr>pause_end = 0, bg_depth = 0\<rparr>, usage_log = [], sent_at = []\<rparr>)) = ts \<and> length ts \<le> 5 \<and> paced (900 # ts)"
  using get_requests_paced [of "\<lambda>_. (40, ErrorStatus 429 None)" "''https://x/dorequest.php?r=patch''"
      "\<lparr>mono = 1000, wall = 0, last_request_at = 900, tracker = \<lparr>reachable = True, checked_at = 1\<rparr>,
       limiter = \<lparr>pause_end = 0, bg_depth = 0\<rparr>, usage_log = [], sent_at = []\<rparr>"]
  by (auto simp: api_action_from_url_def url_query_def before_def after_def in_background_def)

text \<open>What the tracker says after a GET that was sent: reachable exactly when the last answer was read or
  was an error status below 500.\<close>

definition server_answered :: "get_result \<Rightarrow> bool" where
  "server_answered r = (case r of GotBody _ \<Rightarrow> True | GotHttpError status \<Rightarrow> status < 500 | _ \<Rightarrow> False)"

lemma get_attempts_tracker:
  "k \<noteq> 0 \<Longrightarrow> get_attempts k action ans n s = (r, s') \<Longrightarrow> r \<noteq> GotRateLimited \<Longrightarrow>
   reachable (tracker s') = server_answered r"
proof (induction k action ans n s rule: get_attempts.induct)
  case (2 k action ans n s)
  have IH: "get_attempts k action ans (Suc n) (sleep (retry_after_delay h n) (after_429 action h (fst (ans n)) s)) = (r, s')
      \<Longrightarrow> k \<noteq> 0 \<Longrightarrow> snd (ans n) = ErrorStatus HTTP_TOO_MANY_REQUESTS h \<Longrightarrow> reachable (tracker s') = server_answered r"
    if "\<not> (in_background (limiter s) \<and> rate_paused_until (wall_now s) (limiter s) \<noteq> None)" for h
    using "2.IH" [OF that refl _ refl refl refl] "2.prems"(3) by (simp add: Let_def HTTP_TOO_MANY_REQUESTS_def)
  show ?case using "2.prems" IH
    by (auto simp: Let_def server_answered_def HTTP_TOO_MANY_REQUESTS_def split: if_splits answer.splits)
qed simp

text \<open>A background GET answered 429 is not repeated, and every background GET of the next ten minutes
  is refused without a request, whatever its URL.\<close>

theorem background_429_stops:
  assumes "in_background (limiter s)" "rate_paused_until (wall_now s) (limiter s) = None"
    and "snd (ans 0) = ErrorStatus 429 header"
    and "limiter s' = limiter (snd (http_get url ans s))"
    and "wall_now (snd (http_get url ans s)) \<le> wall_now s'"
    and "wall_now s' < wall_now (snd (http_get url ans s)) + 10 * 60 * 1000"
  shows "fst (http_get url ans s) = GotHttpError 429 \<and>
    sent_at (snd (http_get url ans s)) = sent_at s @ [mono (start_request (api_action_from_url url) s)] \<and>
    http_get url' ans' s' = (GotRateLimited, s')"
proof -
  let ?s1 = "after_429 (api_action_from_url url) header (fst (ans 0)) s"
  have g: "http_get url ans s = (GotHttpError 429, ?s1)"
    using assms(1-3) by (simp add: http_get_def HTTP_TOO_MANY_REQUESTS_def Let_def)
  have sent: "sent_at ?s1 = sent_at s @ [mono (start_request (api_action_from_url url) s)]"
    using start_request_sent(1) by (simp add: Let_def)
  have lim: "limiter s' = on_rate_limited (retry_after_header_millis header) (wall_now ?s1) (limiter s)"
    "in_background (limiter s')"
    using assms(1, 4) g by (simp_all add: Let_def wall_now_def)
  have "rate_paused_until (wall_now s') (limiter s') \<noteq> None"
    using assms(5, 6) g lim(1)
    by (simp add: rate_paused_until_def on_rate_limited_def RATE_LIMIT_PAUSE_MS_def wall_now_def Let_def)
  then show ?thesis using g sent lim(2) by (simp add: http_get_def)
qed

theorem background_429_stops_witness:
  "\<forall>url' ans'. http_get url' ans'
      \<lparr>mono = 90000, wall = 0, last_request_at = 0, tracker = \<lparr>reachable = True, checked_at = 1\<rparr>,
       limiter = \<lparr>pause_end = 601040, bg_depth = 1\<rparr>, usage_log = [], sent_at = []\<rparr> =
     (GotRateLimited,
      \<lparr>mono = 90000, wall = 0, last_request_at = 0, tracker = \<lparr>reachable = True, checked_at = 1\<rparr>,
       limiter = \<lparr>pause_end = 601040, bg_depth = 1\<rparr>, usage_log = [], sent_at = []\<rparr>)"
proof (intro allI)
  fix url' ans'
  let ?s = "\<lparr>mono = 1000, wall = 0, last_request_at = 0, tracker = \<lparr>reachable = True, checked_at = 1\<rparr>,
       limiter = \<lparr>pause_end = 0, bg_depth = 1\<rparr>, usage_log = [], sent_at = []\<rparr>"
  let ?s' = "\<lparr>mono = 90000, wall = 0, last_request_at = 0, tracker = \<lparr>reachable = True, checked_at = 1\<rparr>,
       limiter = \<lparr>pause_end = 601040, bg_depth = 1\<rparr>, usage_log = [], sent_at = []\<rparr>"
  have g: "http_get [] (\<lambda>_. (40, ErrorStatus 429 None)) ?s = (GotHttpError 429, ?s
      \<lparr>mono := 1040, tracker := \<lparr>reachable = True, checked_at = 1040\<rparr>,
       limiter := \<lparr>pause_end = 601040, bg_depth = 1\<rparr>, sent_at := [1000]\<rparr>)"
    by code_simp
  show "http_get url' ans' ?s' = (GotRateLimited, ?s')"
    using background_429_stops [of ?s "\<lambda>_. (40, ErrorStatus 429 None)" None ?s' "[]" url' ans'] g
    by (simp add: in_background_def rate_paused_until_def wall_now_def)
qed

section \<open>Headers and logged URLs\<close>

lemma in_keys_iff: "k \<in> fst ` set ps \<longleftrightarrow> (\<exists>v. (k, v) \<in> set ps)"
  by (induction ps) auto

lemma contains_proxy_user_agent: "contains tag (proxy_user_agent tag v)"
  by (auto simp: proxy_user_agent_def contains_iff intro: exI [of _ "v @ '' ''"])

lemma forward_fields_set:
  "(k, w) \<in> set (forward_fields tag hs) \<longleftrightarrow> lower k \<notin> set skip_headers \<and>
     (\<exists>v. (k, v) \<in> set hs \<and> w = (if lower k = ''user-agent'' then proxy_user_agent tag v else v))"
proof (induction tag hs rule: forward_fields.induct)
  case (2 tag h v hs)
  have "''user-agent'' \<notin> set skip_headers"
    by (simp add: skip_headers_def)
  then show ?case
    using 2 by auto
qed simp

text \<open>The headers of a forwarded request are exactly those of the client that do not belong to its
  connection, user agents marked with the name of the proxy, and one is added when none has the usual
  spelling; so every forwarded request names the proxy.\<close>

theorem forwarded_headers:
  "((k, w) \<in> set (build_forward_headers tag fallback hs)) =
     (lower k \<notin> set skip_headers \<and>
        (\<exists>v. (k, v) \<in> set hs \<and> w = (if lower k = ''user-agent'' then proxy_user_agent tag v else v)) \<or>
      {''User-Agent'', ''user-agent''} \<inter> fst ` set hs = {} \<and> k = ''User-Agent'' \<and> w = proxy_user_agent tag fallback) \<and>
   (\<exists>(j, v) \<in> set (build_forward_headers tag fallback hs). lower j = ''user-agent'' \<and> contains tag v)"
proof -
  have low: "lower ''User-Agent'' = ''user-agent''" "lower ''user-agent'' = ''user-agent''" by code_simp+
  have named: "j \<in> fst ` set (forward_fields tag hs) \<longleftrightarrow> j \<in> fst ` set hs" if "lower j = ''user-agent''" for j
    using that by (simp add: in_keys_iff forward_fields_set) (simp add: skip_headers_def)
  have added: "(''User-Agent'' \<notin> fst ` set (forward_fields tag hs) \<and> ''user-agent'' \<notin> fst ` set (forward_fields tag hs))
      = ({''User-Agent'', ''user-agent''} \<inter> fst ` set hs = {})"
    using named low by auto
  have "\<exists>(j, v) \<in> set (build_forward_headers tag fallback hs). lower j = ''user-agent'' \<and> contains tag v"
  proof (cases "{''User-Agent'', ''user-agent''} \<inter> fst ` set hs = {}")
    case True
    then show ?thesis using added low contains_proxy_user_agent
      by (simp add: build_forward_headers_def Let_def)
  next
    case False
    then obtain j where "j \<in> fst ` set hs" "lower j = ''user-agent''" using low by blast
    then obtain v where "(j, v) \<in> set hs" "lower j = ''user-agent''" by (auto simp: in_keys_iff)
    moreover from this have "(j, proxy_user_agent tag v) \<in> set (forward_fields tag hs)"
      by (auto simp: forward_fields_set skip_headers_def)
    ultimately show ?thesis using contains_proxy_user_agent
      by (fastforce simp: build_forward_headers_def Let_def)
  qed
  then show ?thesis
    using added by (auto simp: build_forward_headers_def Let_def forward_fields_set)
qed

text \<open>A logged URL reads back with every field of the query in its order, and no value of a secret
  field, whatever the case of its name.\<close>

theorem redacted_query_hides:
  "parse_qsl (redacted_query q) = map (\<lambda>(k, v).
     (k, if lower k \<in> {''p'', ''t'', ''token'', ''password''} then ''<redacted>'' else v)) (parse_qsl q)"
proof -
  have "(\<lambda>(k, v). (k, if lower k \<in> set REDACTED_QUERY_KEYS then ''<redacted>'' else v)) =
      (\<lambda>(k, v). (k, if lower k \<in> {''p'', ''t'', ''token'', ''password''} then ''<redacted>'' else v))"
    by (simp add: REDACTED_QUERY_KEYS_def)
  then show ?thesis by (simp add: redacted_query_def)
qed

end
