(* ===== verification/Image_Urls.thy ===== *)
theory Image_Urls
  imports Rom_Cache
begin

text \<open>
  The image URLs of a response (image_cache.py): the path of an image URL, and the rewriting of the URL
  fields of a body so that they point to the proxy, with the list of images to download.  A URL field
  that holds no text raises, as strip is no attribute of it.
\<close>

definition media_marker :: string where "media_marker = ''retroachievements.org''"

definition image_path_prefixes :: "string list" where
  "image_path_prefixes = [''/Badge/'', ''/Images/'', ''/UserPic/'']"

definition extract_image_path :: "string \<Rightarrow> string option" where
  "extract_image_path url =
     (if url = [] \<or> strip url = [] then None
      else if starts_with ''/'' url then Some (before CHR ''?'' url)
      else if \<not> contains media_marker url then None
      else (let after_host = before CHR ''?'' (after_text media_marker url)
            in if starts_with ''/'' after_host then Some after_host else None))"

text \<open>The path of a JSON value that stands where a URL is expected.\<close>

definition json_image_path :: "json \<Rightarrow> string option res" where
  "json_image_path v = (case v of JStr url \<Rightarrow> Inr (extract_image_path url) | _ \<Rightarrow> Inl AttributeError)"

definition has_field :: "string \<Rightarrow> json \<Rightarrow> bool" where
  "has_field k v = (case v of JObj ps \<Rightarrow> k \<in> fst ` set ps | _ \<Rightarrow> False)"

type_synonym downloads = "(json \<times> string) list"

definition rewrite_icon_fields :: "string \<Rightarrow> json \<Rightarrow> (json \<times> downloads) res" where
  "rewrite_icon_fields base obj =
     (let source = py_or (field ''ImageIconUrl'' JNull obj) (field ''ImageIcon'' JNull obj) in
      if \<not> truthy source then Inr (obj, [])
      else bind_res (json_image_path source) (\<lambda>p. case p of
          None \<Rightarrow> Inr (obj, [])
        | Some path \<Rightarrow>
            let url = JStr (base @ path);
                obj1 = (if has_field ''ImageIconUrl'' obj then set_field ''ImageIconUrl'' url obj else obj);
                obj2 = (if has_field ''ImageIcon'' obj1 then set_field ''ImageIcon'' url obj1 else obj1)
            in Inr (obj2, [(source, path)])))"

definition rewrite_url_field :: "string \<Rightarrow> string \<Rightarrow> json \<Rightarrow> (json \<times> downloads) res" where
  "rewrite_url_field base key obj =
     (let url = field key JNull obj in
      if \<not> truthy url then Inr (obj, [])
      else bind_res (json_image_path url) (\<lambda>p. case p of
          None \<Rightarrow> Inr (obj, [])
        | Some path \<Rightarrow> Inr (set_field key (JStr (base @ path)) obj, [(url, path)])))"

text \<open>A second rewriting of the same value, its downloads after those of the first.\<close>

definition and_then ::
  "(json \<times> downloads) res \<Rightarrow> (json \<Rightarrow> (json \<times> downloads) res) \<Rightarrow> (json \<times> downloads) res" where
  "and_then r f = bind_res r (\<lambda>(v, ds). bind_res (f v) (\<lambda>(w, es). Inr (w, ds @ es)))"

definition rewrite_achievement :: "string \<Rightarrow> json \<Rightarrow> (json \<times> downloads) res" where
  "rewrite_achievement base a =
     (if \<not> is_obj a then Inr (a, [])
      else and_then (rewrite_url_field base ''BadgeURL'' a) (rewrite_url_field base ''BadgeLockedURL''))"

fun rewrite_list :: "(json \<Rightarrow> (json \<times> downloads) res) \<Rightarrow> json list \<Rightarrow> (json list \<times> downloads) res" where
  "rewrite_list f [] = Inr ([], [])"
| "rewrite_list f (v # vs) = bind_res (f v) (\<lambda>(w, ds).
     bind_res (rewrite_list f vs) (\<lambda>(ws, es). Inr (w # ws, ds @ es)))"

text \<open>The lists of achievements of a dict, when the field is a list.\<close>

definition rewrite_in_field ::
  "string \<Rightarrow> (json \<Rightarrow> (json \<times> downloads) res) \<Rightarrow> json \<Rightarrow> (json \<times> downloads) res" where
  "rewrite_in_field key f obj = (case field key JNull obj of
       JList vs \<Rightarrow> bind_res (rewrite_list f vs) (\<lambda>(ws, ds). Inr (set_field key (JList ws) obj, ds))
     | _ \<Rightarrow> Inr (obj, []))"

definition rewrite_game :: "string \<Rightarrow> json \<Rightarrow> (json \<times> downloads) res" where
  "rewrite_game base s =
     (if \<not> is_obj s then Inr (s, [])
      else and_then (rewrite_icon_fields base s) (rewrite_in_field ''Achievements'' (rewrite_achievement base)))"

definition rewrite_data :: "string \<Rightarrow> string \<Rightarrow> json \<Rightarrow> (json \<times> downloads) res" where
  "rewrite_data action base data =
     (if action = ''patch'' then
        (let pd = field ''PatchData'' JNull data in
         if is_obj pd then bind_res (rewrite_game base pd) (\<lambda>(w, ds). Inr (set_field ''PatchData'' w data, ds))
         else Inr (data, []))
      else if action = ''achievementsets'' then
        and_then (rewrite_icon_fields base data) (rewrite_in_field ''Sets'' (rewrite_game base))
      else rewrite_url_field base ''AvatarUrl'' data)"

definition rewrite_image_urls :: "string option \<Rightarrow> string \<Rightarrow> string \<Rightarrow> (string \<times> downloads) res" where
  "rewrite_image_urls action body base = (case action of
       None \<Rightarrow> Inr (body, [])
     | Some a \<Rightarrow>
        if a \<notin> {''patch'', ''achievementsets'', ''login2''} then Inr (body, [])
        else (case loads body of
                Inl _ \<Rightarrow> Inr (body, [])
              | Inr data \<Rightarrow>
                 if \<not> is_obj data then Inr (body, [])
                 else bind_res (rewrite_data a base data) (\<lambda>(w, ds). Inr (dumps_compact w, ds))))"

section \<open>Image paths\<close>

lemma starts_with_slash: "starts_with ''/'' s \<longleftrightarrow> (\<exists>t. s = CHR ''/'' # t)"
  by (cases s) auto

lemma extract_image_path_slash: "extract_image_path url = Some p \<Longrightarrow> starts_with ''/'' p \<and> CHR ''?'' \<notin> set p"
proof -
  have "CHR ''?'' \<notin> set (before CHR ''?'' s)" for s
    by (auto simp: before_def dest: set_takeWhileD)
  moreover have "starts_with ''/'' (before CHR ''?'' s)" if "starts_with ''/'' s" for s
    using that by (auto simp: starts_with_slash before_def)
  moreover assume "extract_image_path url = Some p"
  ultimately show ?thesis by (auto simp: extract_image_path_def Let_def split: if_splits)
qed

text \<open>A URL on the proxy itself is no image URL.\<close>

definition local_base :: "string \<Rightarrow> bool" where
  "local_base base = (starts_with ''http://'' base \<and> \<not> contains media_marker base)"

text \<open>An image path that names no media host itself.\<close>

definition plain_path :: "string \<Rightarrow> string \<Rightarrow> bool" where
  "plain_path base p = (\<not> contains media_marker (base @ p))"

lemma extract_image_path_local:
  "starts_with ''http://'' base \<Longrightarrow> plain_path base p \<Longrightarrow> extract_image_path (base @ p) = None"
  by (auto simp: extract_image_path_def plain_path_def starts_with_iff Let_def)

section \<open>What a rewriting changes\<close>

text \<open>Two values that differ at most in the named fields of one dict.\<close>

definition same_but :: "string list \<Rightarrow> json \<Rightarrow> json \<Rightarrow> bool" where
  "same_but ks v w = (is_obj w = is_obj v \<and> (\<forall>k d. k \<notin> set ks \<longrightarrow> field k d w = field k d v))"

lemma same_but_refl [simp]: "same_but ks v v"
  by (simp add: same_but_def)

lemma same_but_trans: "same_but ks u v \<Longrightarrow> same_but ls v w \<Longrightarrow> same_but (ks @ ls) u w"
  by (simp add: same_but_def)

lemma same_but_set_field: "is_obj v \<Longrightarrow> k \<in> set ks \<Longrightarrow> same_but ks v (set_field k x v)"
  unfolding same_but_def by (metis field_set_field(2, 3))

lemma has_field_set_field [simp]: "has_field k (set_field l x v) \<longleftrightarrow> has_field k v \<or> k = l \<and> is_obj v"
  by (cases v) (auto simp: has_field_def set_field_def is_obj_def dom_update)

lemma rewrite_url_field_cases:
  assumes "rewrite_url_field base k v = Inr (w, ds)"
  obtains (kept) "w = v" "ds = []"
  | (rewritten) url p where "field k JNull v = JStr url" "extract_image_path url = Some p"
      "w = set_field k (JStr (base @ p)) v" "ds = [(JStr url, p)]"
  using assms by (cases "field k JNull v")
    (auto simp: rewrite_url_field_def Let_def json_image_path_def split: if_splits option.splits)

lemma rewrite_url_field_same:
  "is_obj v \<Longrightarrow> rewrite_url_field base k v = Inr (w, ds) \<Longrightarrow> same_but [k] v w"
  by (erule rewrite_url_field_cases) (auto simp: same_but_set_field)

lemma rewrite_icon_fields_cases:
  assumes "rewrite_icon_fields base v = Inr (w, ds)"
  obtains (kept) "w = v" "ds = []"
  | (rewritten) url p where "py_or (field ''ImageIconUrl'' JNull v) (field ''ImageIcon'' JNull v) = JStr url"
      "extract_image_path url = Some p" "ds = [(JStr url, p)]"
      "w = (let x = JStr (base @ p);
                v1 = (if has_field ''ImageIconUrl'' v then set_field ''ImageIconUrl'' x v else v)
            in if has_field ''ImageIcon'' v1 then set_field ''ImageIcon'' x v1 else v1)"
  using assms by (cases "py_or (field ''ImageIconUrl'' JNull v) (field ''ImageIcon'' JNull v)")
    (auto simp: rewrite_icon_fields_def Let_def json_image_path_def split: if_splits option.splits)

lemma rewrite_icon_fields_same:
  assumes "is_obj v" "rewrite_icon_fields base v = Inr (w, ds)"
  shows "same_but [''ImageIconUrl'', ''ImageIcon''] v w"
  using assms(2)
proof (cases rule: rewrite_icon_fields_cases)
  case (rewritten url p)
  have "same_but [''ImageIconUrl'', ''ImageIcon''] v (if b then set_field ''ImageIconUrl'' x v else v)" for b x
    using same_but_set_field [OF assms(1)] by simp
  moreover have "same_but [''ImageIconUrl'', ''ImageIcon''] u (if b then set_field ''ImageIcon'' x u else u)"
    if "is_obj u" for b x u
    using same_but_set_field [OF that] by simp
  ultimately show ?thesis
    unfolding rewritten(4) Let_def using assms(1) by (auto simp: same_but_def)
qed simp

lemma and_then_Inr:
  "and_then r f = Inr (w, ds) \<longleftrightarrow> (\<exists>v es fs. r = Inr (v, es) \<and> f v = Inr (w, fs) \<and> ds = es @ fs)"
  by (auto simp: and_then_def res_simps)

lemma rewrite_achievement_same:
  "rewrite_achievement base v = Inr (w, ds) \<Longrightarrow> same_but [''BadgeURL'', ''BadgeLockedURL''] v w"
proof -
  assume r: "rewrite_achievement base v = Inr (w, ds)"
  show ?thesis
  proof (cases "is_obj v")
    case True
    with r obtain u es fs where u: "rewrite_url_field base ''BadgeURL'' v = Inr (u, es)"
      "rewrite_url_field base ''BadgeLockedURL'' u = Inr (w, fs)"
      by (auto simp: rewrite_achievement_def and_then_Inr)
    have "same_but [''BadgeURL''] v u" by (rule rewrite_url_field_same [OF True u(1)])
    moreover from this have "same_but [''BadgeLockedURL''] u w"
      using rewrite_url_field_same [OF _ u(2)] True by (simp add: same_but_def)
    ultimately show ?thesis using same_but_trans by fastforce
  qed (use r in \<open>simp add: rewrite_achievement_def\<close>)
qed

lemma rewrite_list_all2:
  "rewrite_list f vs = Inr (ws, ds) \<Longrightarrow> list_all2 (\<lambda>v w. \<exists>es. f v = Inr (w, es)) vs ws"
  by (induction f vs arbitrary: ws ds rule: rewrite_list.induct) (auto simp: res_simps)

lemma rewrite_game_same:
  assumes "is_obj v" "rewrite_game base v = Inr (w, ds)"
  shows "same_but [''ImageIconUrl'', ''ImageIcon'', ''Achievements''] v w \<and>
    (\<forall>as. field ''Achievements'' JNull v = JList as \<longrightarrow> (\<exists>bs. field ''Achievements'' JNull w = JList bs \<and>
       list_all2 (same_but [''BadgeURL'', ''BadgeLockedURL'']) as bs))"
proof -
  let ?A = "''Achievements''"
  obtain u es fs where u: "rewrite_icon_fields base v = Inr (u, es)"
    "rewrite_in_field ?A (rewrite_achievement base) u = Inr (w, fs)"
    using assms by (auto simp: rewrite_game_def and_then_Inr)
  have vu: "same_but [''ImageIconUrl'', ''ImageIcon''] v u" by (rule rewrite_icon_fields_same [OF assms(1) u(1)])
  then have obj: "is_obj u" and A: "field ?A JNull u = field ?A JNull v"
    using assms(1) by (auto simp: same_but_def)
  show ?thesis
  proof (cases "\<exists>as. field ?A JNull u = JList as")
    case True
    then obtain as where as: "field ?A JNull u = JList as" by blast
    then obtain bs gs where bs: "rewrite_list (rewrite_achievement base) as = Inr (bs, gs)"
      "w = set_field ?A (JList bs) u"
      using u(2) by (auto simp: rewrite_in_field_def res_simps)
    have "list_all2 (same_but [''BadgeURL'', ''BadgeLockedURL'']) as bs"
      using rewrite_list_all2 [OF bs(1)] rewrite_achievement_same by (auto elim: list_all2_mono)
    moreover have "same_but [?A] u w" using same_but_set_field [OF obj] bs(2) by simp
    ultimately show ?thesis using vu as A bs(2) obj same_but_trans [OF vu] by fastforce
  next
    case False
    then have "w = u" using u(2) by (auto simp: rewrite_in_field_def split: json.splits)
    then show ?thesis using vu False A by (auto simp: same_but_def)
  qed
qed

section \<open>The downloads\<close>

definition image_of_url :: "json \<times> string \<Rightarrow> bool" where
  "image_of_url d = (\<exists>url. fst d = JStr url \<and> extract_image_path url = Some (snd d))"

lemma rewrite_url_field_downloads: "rewrite_url_field base k v = Inr (w, ds) \<Longrightarrow> list_all image_of_url ds"
  by (erule rewrite_url_field_cases) (auto simp: image_of_url_def)

lemma rewrite_icon_fields_downloads: "rewrite_icon_fields base v = Inr (w, ds) \<Longrightarrow> list_all image_of_url ds"
  by (erule rewrite_icon_fields_cases) (auto simp: image_of_url_def)

definition sound :: "(json \<Rightarrow> (json \<times> downloads) res) \<Rightarrow> bool" where
  "sound f = (\<forall>v w ds. f v = Inr (w, ds) \<longrightarrow> list_all image_of_url ds)"

lemma soundD: "sound f \<Longrightarrow> f v = Inr (w, ds) \<Longrightarrow> list_all image_of_url ds"
  by (simp add: sound_def)

lemma soundI: "(\<And>v w ds. f v = Inr (w, ds) \<Longrightarrow> list_all image_of_url ds) \<Longrightarrow> sound f"
  by (simp add: sound_def)

lemma rewrite_list_downloads:
  "sound f \<Longrightarrow> rewrite_list f vs = Inr (ws, es) \<Longrightarrow> list_all image_of_url es"
proof (induction vs arbitrary: ws es)
  case (Cons v vs)
  from Cons.prems(2) obtain w ds ws' es' where
    "f v = Inr (w, ds)" "rewrite_list f vs = Inr (ws', es')" "es = ds @ es'"
    by (auto simp: res_simps)
  then show ?case using Cons.IH [OF Cons.prems(1)] soundD [OF Cons.prems(1)] by (simp add: list_all_append)
qed simp

lemma sound_in_field: "sound f \<Longrightarrow> sound (rewrite_in_field k f)"
proof (rule soundI)
  fix v w ds
  assume f: "sound f" and r: "rewrite_in_field k f v = Inr (w, ds)"
  show "list_all image_of_url ds"
  proof (cases "field k JNull v")
    case (JList vs)
    then obtain ws where "rewrite_list f vs = Inr (ws, ds)"
      using r by (auto simp: rewrite_in_field_def res_simps)
    then show ?thesis by (rule rewrite_list_downloads [OF f])
  qed (use r in \<open>simp_all add: rewrite_in_field_def\<close>)
qed

lemma sound_and_then: "sound f \<Longrightarrow> sound g \<Longrightarrow> sound (\<lambda>v. and_then (f v) g)"
  by (auto simp: sound_def and_then_Inr list_all_append)

lemma sound_if: "sound f \<Longrightarrow> sound g \<Longrightarrow> sound (\<lambda>v. if P v then f v else g v)"
  by (simp add: sound_def)

lemma sound_none: "sound (\<lambda>v. Inr (v, []))"
  by (simp add: sound_def)

lemma sound_url_field: "sound (rewrite_url_field base k)"
  by (rule soundI) (rule rewrite_url_field_downloads)

lemma sound_icon_fields: "sound (rewrite_icon_fields base)"
  by (rule soundI) (rule rewrite_icon_fields_downloads)

lemmas sound_intros = sound_in_field sound_and_then sound_if sound_none sound_url_field sound_icon_fields

lemma sound_game: "sound (rewrite_game base)"
proof -
  have a: "sound (rewrite_achievement base)"
    unfolding rewrite_achievement_def [abs_def] by (intro sound_intros)
  show ?thesis unfolding rewrite_game_def [abs_def] by (intro sound_intros a)
qed

lemma rewrite_data_downloads: "rewrite_data a base v = Inr (w, ds) \<Longrightarrow> list_all image_of_url ds"
proof -
  assume r: "rewrite_data a base v = Inr (w, ds)"
  consider "a = ''patch''" | "a = ''achievementsets''" | "a \<noteq> ''patch''" "a \<noteq> ''achievementsets''" by blast
  then show ?thesis
  proof cases
    case 1
    then show ?thesis using r soundD [OF sound_game]
      by (auto simp: rewrite_data_def Let_def res_simps split: if_splits)
  next
    case 2
    then show ?thesis using r soundD [OF sound_and_then [OF sound_icon_fields sound_in_field [OF sound_game]]]
      by (simp add: rewrite_data_def)
  next
    case 3
    then show ?thesis using r soundD [OF sound_url_field] by (simp add: rewrite_data_def)
  qed
qed

section \<open>The rewritten patch\<close>

text \<open>Rewriting the image URLs of a patch changes the two icon fields of the game and the two badge
  fields of its achievements and nothing else: no achievement is lost, added or moved.  Every image it
  asks to download is named by the path of the URL it is downloaded from.\<close>

theorem rewritten_patch_same:
  assumes "loads body = Inr data" "is_obj data" "is_obj (field ''PatchData'' JNull data)"
    and "rewrite_image_urls (Some ''patch'') body base = Inr (b, ds)"
  shows "list_all image_of_url ds \<and> (\<exists>w. b = dumps_compact w \<and> same_but [''PatchData''] data w \<and>
    same_but [''ImageIconUrl'', ''ImageIcon'', ''Achievements'']
      (field ''PatchData'' JNull data) (field ''PatchData'' JNull w) \<and>
    (\<forall>as. field ''Achievements'' JNull (field ''PatchData'' JNull data) = JList as \<longrightarrow>
      (\<exists>bs. field ''Achievements'' JNull (field ''PatchData'' JNull w) = JList bs \<and>
         list_all2 (same_but [''BadgeURL'', ''BadgeLockedURL'']) as bs)))"
proof -
  let ?pd = "field ''PatchData'' JNull data"
  obtain v where v: "rewrite_data ''patch'' base data = Inr (v, ds)" "b = dumps_compact v"
    using assms by (auto simp: rewrite_image_urls_def res_simps)
  then obtain w where w: "rewrite_game base ?pd = Inr (w, ds)" "v = set_field ''PatchData'' w data"
    using assms(3) by (auto simp: rewrite_data_def Let_def res_simps)
  have "same_but [''PatchData''] data v" unfolding w(2) by (rule same_but_set_field [OF assms(2)]) simp
  then show ?thesis
    using rewrite_game_same [OF assms(3) w(1)] rewrite_data_downloads [OF v(1)] v(2) w(2) assms(2) by auto
qed

definition sample_patch :: json where
  "sample_patch = JObj [(''Success'', JBool True), (''PatchData'', JObj [(''ImageIcon'', JStr ''/Images/1.png''),
     (''Achievements'', JList [JObj [(''ID'', JInt 7), (''BadgeURL'', JStr ''/Badge/7.png'')]])])]"

theorem rewritten_patch_same_witness:
  "\<exists>w. rewrite_image_urls (Some ''patch'') (dumps_compact sample_patch) ''http://127.0.0.1:1'' =
     Inr (dumps_compact w, [(JStr ''/Images/1.png'', ''/Images/1.png''), (JStr ''/Badge/7.png'', ''/Badge/7.png'')]) \<and>
     field ''Success'' JNull w = JBool True"
proof -
  let ?b = "''http://127.0.0.1:1''"
  have l: "loads (dumps_compact sample_patch) = Inr sample_patch"
    by (rule loads_dumps_compact) code_simp
  have r: "rewrite_data ''patch'' ?b sample_patch = Inr (JObj [(''Success'', JBool True),
      (''PatchData'', JObj [(''ImageIcon'', JStr (?b @ ''/Images/1.png'')),
       (''Achievements'', JList [JObj [(''ID'', JInt 7), (''BadgeURL'', JStr (?b @ ''/Badge/7.png''))]])])],
      [(JStr ''/Images/1.png'', ''/Images/1.png''), (JStr ''/Badge/7.png'', ''/Badge/7.png'')])"
    by code_simp
  have obj: "is_obj sample_patch" "is_obj (field ''PatchData'' JNull sample_patch)" by code_simp+
  have e: "rewrite_image_urls (Some ''patch'') (dumps_compact sample_patch) ?b =
      bind_res (rewrite_data ''patch'' ?b sample_patch) (\<lambda>(w, ds). Inr (dumps_compact w, ds))"
    using l obj by (simp add: rewrite_image_urls_def)
  show ?thesis
    using rewritten_patch_same [OF l obj e [unfolded r, simplified]] unfolding e r
    by (auto simp: field_def)
qed

end
