(* ===== verification/Rom_Lookup.thy ===== *)
theory Rom_Lookup
  imports Rom_Cache
begin

text \<open>
  What the game browser reads out of the cache without asking a server (rom_browser.py): the game of a
  hash, the paths and titles of cached games, the unlocks of a game, and the removal of a game.  A
  path is its text.
\<close>

definition GAMEID_MISS_TTL_MS :: int where "GAMEID_MISS_TTL_MS = 7 * 24 * 60 * 60 * 1000"

definition positive_int :: "json \<Rightarrow> int option" where
  "positive_int v = (case as_int v of Some i \<Rightarrow> if i > 0 then Some i else None | None \<Rightarrow> None)"

section \<open>Which game a hash is\<close>

definition cached_game_id_for_hash :: "store \<Rightarrow> string \<Rightarrow> int option res" where
  "cached_game_id_for_hash st h =
     bind_res (case get_cache st (game_id_key h) of
         None \<Rightarrow> Inr None
       | Some e \<Rightarrow> bind_res (jget ''GameID'' JNull (catch (loads (ce_body e)) (JObj []))) (\<lambda>v. Inr (positive_int v)))
       (\<lambda>found. case found of
          Some g \<Rightarrow> Inr (Some g)
        | None \<Rightarrow>
           (case get_cache_by_prefix st (prefix_achievementsets @ h @ '':'') of
              None \<Rightarrow> Inr None
            | Some e \<Rightarrow>
               (case loads (ce_body e) of
                  Inl _ \<Rightarrow> Inr None
                | Inr payload \<Rightarrow> bind_res (jget ''GameId'' JNull payload) (\<lambda>v. Inr (positive_int v)))))"

definition game_id_from_response :: "string \<Rightarrow> int option" where
  "game_id_from_response body = (case loads body of
       Inl _ \<Rightarrow> None
     | Inr payload \<Rightarrow> if is_obj payload then positive_int (field ''GameID'' JNull payload) else None)"

definition is_cacheable_game_id_response :: "string \<Rightarrow> bool" where
  "is_cacheable_game_id_response body = (case loads body of
       Inl _ \<Rightarrow> False
     | Inr payload \<Rightarrow> is_obj payload \<and>
         (game_id_from_response body \<noteq> None \<or> field ''Success'' JNull payload = JBool True))"

datatype local_answer = Unknown | KnownGame int string | NoMatch

fun local_game_id_answer :: "store \<Rightarrow> int \<Rightarrow> string list \<Rightarrow> local_answer" where
  "local_game_id_answer st now [] = NoMatch"
| "local_game_id_answer st now (h # hs) = (case get_cache st (game_id_key h) of
       None \<Rightarrow> Unknown
     | Some e \<Rightarrow>
        (case game_id_from_response (ce_body e) of
           Some g \<Rightarrow> KnownGame g h
         | None \<Rightarrow> if now - ce_cached_at e \<ge> GAMEID_MISS_TTL_MS then Unknown
                   else local_game_id_answer st now hs))"

definition cached_game_ids :: "store \<Rightarrow> int list" where
  "cached_game_ids st =
     remdups (List.map_filter parse_game_id_from_patch_key (cache_keys_by_prefix st prefix_patch))"

definition persist_game_id_aliases :: "int \<Rightarrow> string list \<Rightarrow> string option \<Rightarrow> int \<Rightarrow> store \<Rightarrow> store res" where
  "persist_game_id_aliases clock hs used g st =
     fold_res (\<lambda>h s. if Some h = used then Inr s
        else upsert_cache clock (game_id_key h) (dumps_compact (JObj [(''GameID'', JInt g)])) None None s) hs st"

section \<open>Paths\<close>

definition normalize_cached_rom_path :: "string \<Rightarrow> string" where
  "normalize_cached_rom_path path =
     (let parts = filter (\<lambda>p. p \<noteq> [])
            (split_on CHR ''/'' (strip (map (\<lambda>c. if c = backslash then CHR ''/'' else c) path)))
      in case rev parts of
           [] \<Rightarrow> ''/''
         | [p] \<Rightarrow> ''/'' @ p
         | p # q # _ \<Rightarrow> ''/'' @ q @ ''/'' @ p)"

definition source_path :: "cache_entry \<Rightarrow> string option" where
  "source_path e = (case ce_source e of
       Some p \<Rightarrow> if strip p = [] then None else Some p | None \<Rightarrow> None)"

definition load_cached_rom_paths :: "store \<Rightarrow> string set" where
  "load_cached_rom_paths st =
     set (List.map_filter (\<lambda>e. map_option normalize_cached_rom_path (source_path e))
       (cache_summaries_by_prefix st prefix_patch))"

text \<open>The newest entry of each game, the first among equally new ones.\<close>

fun newest_paths :: "cache_entry list \<Rightarrow> (int \<times> int \<times> string) list \<Rightarrow> (int \<times> int \<times> string) list" where
  "newest_paths [] latest = latest"
| "newest_paths (e # es) latest =
     (case (parse_game_id_from_patch_key (ce_key e), source_path e) of
        (Some g, Some p) \<Rightarrow>
          (case map_of latest g of
             None \<Rightarrow> newest_paths es (AList.update g (ce_cached_at e, normalize_cached_rom_path p) latest)
           | Some (t, _) \<Rightarrow>
               if ce_cached_at e > t
               then newest_paths es (AList.update g (ce_cached_at e, normalize_cached_rom_path p) latest)
               else newest_paths es latest)
      | _ \<Rightarrow> newest_paths es latest)"

definition cached_rom_paths_by_game :: "store \<Rightarrow> (int \<times> string) list" where
  "cached_rom_paths_by_game st =
     map (\<lambda>(g, t, p). (g, p)) (newest_paths (cache_summaries_by_prefix st prefix_patch) [])"

definition remember_source_rom_path :: "int \<Rightarrow> int \<Rightarrow> string \<Rightarrow> string option \<Rightarrow> store \<Rightarrow> store res" where
  "remember_source_rom_path clock g user path st = (case path of
       None \<Rightarrow> Inr st
     | Some p \<Rightarrow>
        (case get_cache st (patch_key (str_of_int g) user) of
           None \<Rightarrow> Inr st
         | Some e \<Rightarrow> upsert_cache clock (patch_key (str_of_int g) user) (ce_body e) None
                       (Some (normalize_cached_rom_path p)) st))"

section \<open>The unlocks of a game\<close>

definition key_part_user :: "string \<Rightarrow> string \<Rightarrow> string option" where
  "key_part_user prefix k =
     (let parts = split_on CHR '':'' k in
      if \<not> starts_with prefix k \<or> length parts \<noteq> 4 then None
      else (let user = strip (parts ! 2) in if user = [] then None else Some user))"

definition key_part_game :: "string \<Rightarrow> string \<Rightarrow> int option" where
  "key_part_game prefix k =
     (let parts = split_on CHR '':'' k in
      if \<not> starts_with prefix k \<or> length parts \<noteq> 4 then None
      else (let g = (if isdigit (parts ! 1) then int (nat_of_digits (parts ! 1)) else 0)
            in if g > 0 then Some g else None))"

definition parse_user_from_unlocks_key :: "string \<Rightarrow> string option" where
  "parse_user_from_unlocks_key k = key_part_user prefix_unlocks k"

definition parse_game_id_from_unlock_key :: "string \<Rightarrow> int option" where
  "parse_game_id_from_unlock_key k = key_part_game prefix_unlocks k"

definition parse_user_from_start_session_key :: "string \<Rightarrow> string option" where
  "parse_user_from_start_session_key k = key_part_user prefix_startsession k"

definition parse_game_id_from_start_session_key :: "string \<Rightarrow> int option" where
  "parse_game_id_from_start_session_key k = key_part_game prefix_startsession k"

text \<open>The ids of the Unlocks of a stored session: an item that is no dict is passed over, and an ID that
  int does not take raises.\<close>

definition session_item_id :: "json \<Rightarrow> int option res" where
  "session_item_id item =
     (if \<not> is_obj item then Inr None
      else bind_res (py_int_of (py_or (field ''ID'' (JInt 0) item) (JInt 0))) (\<lambda>i.
        if i > 0 then bind_res (py_int_of (field ''ID'' (JInt 0) item)) (\<lambda>j. Inr (Some j)) else Inr None))"

definition json_items :: "json \<Rightarrow> json list res" where
  "json_items v = (case v of
       JList vs \<Rightarrow> Inr vs
     | JObj ps \<Rightarrow> Inr (map (\<lambda>(k, _). JStr k) ps)
     | JStr s \<Rightarrow> Inr (map (\<lambda>c. JStr [c]) s)
     | _ \<Rightarrow> Inl TypeError)"

definition session_unlock_ids :: "json \<Rightarrow> int list res" where
  "session_unlock_ids payload =
     bind_res (jget ''Unlocks'' (JList []) payload) (\<lambda>us.
     bind_res (json_items us) (\<lambda>items.
     bind_res (map_res session_item_id items) (\<lambda>ids. Inr (List.map_filter id ids))))"

fun first_unlocks :: "cache_entry list \<Rightarrow> (int list \<times> string option) option res" where
  "first_unlocks [] = Inr None"
| "first_unlocks (e # es) = (case loads (ce_body e) of
       Inl _ \<Rightarrow> first_unlocks es
     | Inr payload \<Rightarrow> bind_res (jget ''UserUnlocks'' JNull payload) (\<lambda>v. case v of
           JList vs \<Rightarrow> Inr (Some (filter_warning_achievement_ids (List.map_filter as_int vs),
                            parse_user_from_unlocks_key (ce_key e)))
         | _ \<Rightarrow> first_unlocks es))"

definition game_unlock_ids :: "store \<Rightarrow> int \<Rightarrow> int list option res" where
  "game_unlock_ids st g =
     bind_res (first_unlocks (iter_cache_by_prefix st (prefix_unlocks @ str_of_int g @ '':''))) (\<lambda>found.
     bind_res (case found of
         Some (ids, Some user) \<Rightarrow> Inr (Some (ids, user))
       | _ \<Rightarrow>
          (case get_cache_by_prefix st (prefix_startsession @ str_of_int g @ '':'') of
             None \<Rightarrow> Inr None
           | Some e \<Rightarrow>
              (case parse_user_from_start_session_key (ce_key e) of
                 None \<Rightarrow> Inr None
               | Some user \<Rightarrow> bind_res (session_unlock_ids (catch (loads (ce_body e)) (JObj []))) (\<lambda>ids.
                    Inr (Some (filter_warning_achievement_ids ids, user))))))
       (\<lambda>r. case r of
          None \<Rightarrow> Inr None
        | Some (cached, user) \<Rightarrow>
           bind_res (find_achievement_game_ids st
               (pending_unlock_achievement_ids (get_pending_awards st) (Some user)) (Some g)) (\<lambda>gids.
           Inr (Some (merge_start_session_unlock_ids cached (get_pending_awards st) gids g user)))))"

definition cached_unlock_count :: "store \<Rightarrow> int \<Rightarrow> int option res" where
  "cached_unlock_count st g = bind_res (game_unlock_ids st g) (\<lambda>r. Inr (map_option (\<lambda>ids. int (length ids)) r))"

section \<open>Removing a game\<close>

definition achievementsets_keys_for_game :: "store \<Rightarrow> int \<Rightarrow> string list res" where
  "achievementsets_keys_for_game st g = bind_res (cached_game_meta st (Some g)) (\<lambda>ms.
     Inr (filter (starts_with prefix_achievementsets) (map gi_key ms)))"

definition remove_achievementsets_for_game :: "int \<Rightarrow> store \<Rightarrow> store res" where
  "remove_achievementsets_for_game g st = bind_res (achievementsets_keys_for_game st g) (\<lambda>ks.
     Inr (fold delete_cache ks st))"

fun remove_aliases :: "int \<Rightarrow> cache_entry list \<Rightarrow> store \<Rightarrow> store res" where
  "remove_aliases g [] st = Inr st"
| "remove_aliases g (e # es) st = (case loads (ce_body e) of
       Inl _ \<Rightarrow> remove_aliases g es st
     | Inr payload \<Rightarrow> bind_res (jget ''GameID'' JNull payload) (\<lambda>v.
         if \<not> eq_int v g then remove_aliases g es st
         else remove_aliases g es (if ce_key e = [] then st else delete_cache (ce_key e) st)))"

definition remove_gameid_aliases_for_game :: "int \<Rightarrow> store \<Rightarrow> store res" where
  "remove_gameid_aliases_for_game g st = remove_aliases g (iter_cache_by_prefix st prefix_gameid) st"

definition remove_cached_game :: "int \<Rightarrow> store \<Rightarrow> store res" where
  "remove_cached_game g st =
     (let s1 = delete_cache_by_prefix (patch_prefix (str_of_int g)) st;
          s2 = delete_cache_by_prefix (prefix_unlocks @ str_of_int g @ '':'') s1;
          s3 = delete_cache_by_prefix (prefix_startsession @ str_of_int g @ '':'') s2;
          s4 = delete_cache (last_played_key (str_of_int g)) s3
      in bind_res (remove_achievementsets_for_game g s4) (remove_gameid_aliases_for_game g))"

section \<open>Archives\<close>

definition path_name :: "string \<Rightarrow> string" where
  "path_name p = last ([] # filter (\<lambda>q. q \<noteq> [] \<and> q \<noteq> ''.'') (split_on CHR ''/'' p))"

text \<open>The suffix of a name from its last dot, empty when the dot is the first or the last character.\<close>

definition path_suffix :: "string \<Rightarrow> string" where
  "path_suffix p =
     (let n = path_name p; t = takeWhile (\<lambda>c. c \<noteq> CHR ''.'') (rev n)
      in if CHR ''.'' \<notin> set n \<or> t = [] \<or> length t + 1 = length n then [] else CHR ''.'' # rev t)"

definition select_archive_rom_names :: "string list \<Rightarrow> string list \<Rightarrow> string list" where
  "select_archive_rom_names extensions names =
     (let rom_names = filter (\<lambda>n. lower (path_suffix n) \<in> set extensions) names
      in if rom_names \<noteq> [] then rom_names
         else if length names = 1 then names else [])"

end
