(* ===== verification/Proxy.thy ===== *)
theory Proxy
  imports Flusher_Laws Network Image_Urls Rom_Lookup
begin

text \<open>
  The request handler of the proxy (proxy_service.py).  A request runs on the state of the server: its
  store, its network state, the throttle of played games, the moment of the last game request, the
  images and the cache refreshes it has scheduled.  What lies outside is one record: the answers of
  the upstream server, the network interfaces, the digests, the image files and the settings.  A handler
  returns a response or raises, and keeps what it wrote before.
\<close>

section \<open>Responses\<close>

record http_response =
  rs_status :: int
  rs_reason :: string
  rs_type :: string
  rs_body :: string

definition crlf :: string where "crlf = [CHR 0x0D, CHR 0x0A]"

text \<open>The bytes that are sent.\<close>

definition response_text :: "http_response \<Rightarrow> string" where
  "response_text r =
     ''HTTP/1.1 '' @ str_of_int (rs_status r) @ '' '' @ rs_reason r @ crlf @
     ''Content-Type: '' @ rs_type r @ crlf @
     ''Content-Length: '' @ str_of_nat (length (rs_body r)) @ crlf @
     ''Connection: close'' @ crlf @ crlf @ rs_body r"

definition raw_response :: "int \<Rightarrow> string \<Rightarrow> string option \<Rightarrow> string option \<Rightarrow> http_response" where
  "raw_response status body ctype reason =
     \<lparr>rs_status = status, rs_reason = or_str reason (canonical_reason_phrase status),
      rs_type = or_str ctype ''application/octet-stream'', rs_body = body\<rparr>"

definition json_response :: "int \<Rightarrow> string \<Rightarrow> string option \<Rightarrow> http_response" where
  "json_response status body reason =
     \<lparr>rs_status = status, rs_reason = or_str reason (canonical_reason_phrase status),
      rs_type = ''application/json'', rs_body = body\<rparr>"

definition ok_json :: "string \<Rightarrow> http_response" where
  "ok_json body = json_response 200 body (Some ''OK'')"

definition error_json :: "int \<Rightarrow> string \<Rightarrow> http_response" where
  "error_json status message = json_response status
     (dumps_compact (JObj [(''Success'', JBool False), (''Error'', JStr message)])) (Some message)"

definition no_content :: http_response where
  "no_content = raw_response 204 [] (Some ''application/octet-stream'') (Some ''No Content'')"

definition game_id_cache_miss :: http_response where
  "game_id_cache_miss = ok_json (dumps_compact (JObj [(''Success'', JBool False),
     (''Error'', JStr ''Game not cached. Launch this game while online first.''), (''GameID'', JInt 0)]))"

section \<open>Which requests are cached\<close>

definition AWARD_ACTIONS :: "string list" where "AWARD_ACTIONS = [''awardachievement'', ''submitlbentry'']"
definition FAKE_OFFLINE_SUCCESS_ACTIONS :: "string list" where
  "FAKE_OFFLINE_SUCCESS_ACTIONS = [''ping'', ''postactivity'']"
definition ALWAYS_TRY_UPSTREAM_ACTIONS :: "string list" where
  "ALWAYS_TRY_UPSTREAM_ACTIONS = [''login'', ''login2'']"
definition MAX_REQUEST_BODY_BYTES :: int where "MAX_REQUEST_BODY_BYTES = 1048576"

definition action_in :: "string option \<Rightarrow> string list \<Rightarrow> bool" where
  "action_in action names = (case action of None \<Rightarrow> False | Some a \<Rightarrow> a \<in> set names)"

definition is_static_asset_request :: "string \<Rightarrow> bool" where
  "is_static_asset_request path = list_ex (\<lambda>p. starts_with p (before CHR ''?'' path)) image_path_prefixes"

definition guess_content_type :: "string \<Rightarrow> string" where
  "guess_content_type path =
     (let suffix = lower (path_suffix path) in
      if suffix = ''.png'' then ''image/png''
      else if suffix = ''.jpg'' \<or> suffix = ''.jpeg'' then ''image/jpeg''
      else if suffix = ''.gif'' then ''image/gif''
      else if suffix = ''.webp'' then ''image/webp''
      else ''application/octet-stream'')"

definition game_param :: "string \<Rightarrow> string \<Rightarrow> string option" where
  "game_param path body = (case extract_request_param path body ''g'' of
       Some g \<Rightarrow> if g = [] then extract_request_param path body ''i'' else Some g
     | None \<Rightarrow> extract_request_param path body ''i'')"

definition cache_key_for_request :: "string \<Rightarrow> string \<Rightarrow> string" where
  "cache_key_for_request path body =
     (let action = or_str (extract_action path body) ''unknown'';
          game = or_str (game_param path body) [];
          h = or_str (extract_request_param path body ''m'') [];
          user = normalize_user (or_str (extract_request_param path body ''u'') []);
          hardcore = or_str (extract_request_param path body ''h'') []
      in if action = ''gameid'' then game_id_key h
         else if action \<in> {''login'', ''login2''} then login_key user
         else if action = ''achievementsets'' then
           achievementsets_key (if h \<noteq> [] then h else if game \<noteq> [] then game else ''unknown'') user
         else if action = ''startsession'' then start_session_key game user
         else if action = ''patch'' then patch_key game user
         else if action = ''unlocks'' then unlocks_key game user
         else if hardcore \<noteq> [] then action @ '':'' @ game @ '':'' @ user @ '':'' @ hardcore
         else action @ '':'' @ game @ '':'' @ user)"

definition should_cache_response :: "string \<Rightarrow> bool" where
  "should_cache_response body = (contains (quoted ''Success'' @ '':true'') body \<or> contains (quoted ''Success'' @ '': true'') body)"

definition should_cache_action :: "string option \<Rightarrow> string \<Rightarrow> bool" where
  "should_cache_action action path =
     (action \<noteq> None \<and> starts_with ''/dorequest.php'' path \<and> action \<noteq> Some ''startsession'')"

section \<open>The server\<close>

text \<open>What the upstream server answers to a forwarded request: an answer with its status, reason, body,
  content type and whether the body decodes, a refused connection, or another exception.\<close>

datatype fwd_answer = FwdReply int string string "string option" bool | FwdRefused | FwdFailed

record proxy_env =
  pe_upstream :: "string \<Rightarrow> string \<Rightarrow> string \<Rightarrow> (string \<times> string) list \<Rightarrow> fwd_answer"
  pe_ifaces :: "(string \<times> string option \<times> string option) list option"
  pe_heads :: "nat \<Rightarrow> nat \<Rightarrow> int option"
  pe_flush :: flush_env
  pe_base :: string
  pe_media_host :: string
  pe_images :: bool
  pe_asset :: "string \<Rightarrow> (string \<times> string) option"
  pe_media :: "string \<Rightarrow> (string \<times> string) option"

record server =
  sv_store :: store
  sv_net :: net_state
  sv_has_internet :: bool
  sv_probes :: nat
  sv_last_written :: last_written
  sv_active_at :: "int option"
  sv_images :: "(json \<times> string \<times> string \<times> int option) list"
  sv_refreshes :: "(string \<times> string \<times> (string \<times> string) list) list"

type_synonym 'a op = "server \<Rightarrow> 'a res \<times> server"

definition ret :: "'a \<Rightarrow> 'a op" where "ret x s = (Inr x, s)"
definition lift_res :: "'a res \<Rightarrow> 'a op" where "lift_res r s = (r, s)"

definition bind_op :: "'a op \<Rightarrow> ('a \<Rightarrow> 'b op) \<Rightarrow> 'b op" where
  "bind_op m k s = (case m s of (Inl e, s1) \<Rightarrow> (Inl e, s1) | (Inr x, s1) \<Rightarrow> k x s1)"

definition get_store :: "store op" where "get_store s = (Inr (sv_store s), s)"

text \<open>A write of the store at the present moment; when it raises the store is as it was.\<close>

definition on_store :: "(int \<Rightarrow> store \<Rightarrow> store res) \<Rightarrow> unit op" where
  "on_store f s = (case f (wall_now (sv_net s)) (sv_store s) of
       Inl e \<Rightarrow> (Inl e, s) | Inr st \<Rightarrow> (Inr (), s\<lparr>sv_store := st\<rparr>))"

definition now_op :: "int op" where "now_op s = (Inr (wall_now (sv_net s)), s)"

definition put_cache :: "string \<Rightarrow> string \<Rightarrow> unit op" where
  "put_cache key body = on_store (\<lambda>clock. upsert_cache clock key body None None)"

definition header_agent :: "(string \<times> string) list \<Rightarrow> string option" where
  "header_agent headers = (case map_of headers ''User-Agent'' of
       Some u \<Rightarrow> if u = [] then map_of headers ''user-agent'' else Some u
     | None \<Rightarrow> map_of headers ''user-agent'')"

definition refresh_reachability :: "proxy_env \<Rightarrow> bool \<Rightarrow> bool op" where
  "refresh_reachability env force s =
     (case probe_retroachievements (pe_ifaces env) (pe_heads env (sv_probes s)) force (sv_net s) of
        (ok, n) \<Rightarrow>
          let n1 = (if ok then n else mark False None n)
          in (Inr (ok \<and> is_retroachievements_reachable n1),
              s\<lparr>sv_has_internet := ok, sv_net := n1, sv_probes := sv_probes s + 1\<rparr>))"

definition is_online :: "proxy_env \<Rightarrow> bool op" where
  "is_online env = bind_op (refresh_reachability env False)
     (\<lambda>_ s. (Inr (sv_has_internet s \<and> is_retroachievements_reachable (sv_net s)), s))"

section \<open>Forwarding\<close>

datatype upstream = UpSuccess int string string "string option" string
  | UpHttpError int string string "string option" string
  | UpNetworkError

definition by_status :: "int \<Rightarrow> string \<Rightarrow> string \<Rightarrow> string option \<Rightarrow> string \<Rightarrow> upstream" where
  "by_status status reason bytes ctype text =
     (if 200 \<le> status \<and> status < 300 then UpSuccess status reason bytes ctype text
      else UpHttpError status reason bytes ctype text)"

definition count_request :: "bool \<Rightarrow> int option \<Rightarrow> net_state \<Rightarrow> net_state" where
  "count_request counted status n = (if counted then record_request ''emulator'' status n else n)"

definition forward_to_upstream_result ::
  "proxy_env \<Rightarrow> string \<Rightarrow> string \<Rightarrow> string \<Rightarrow> (string \<times> string) list \<Rightarrow> upstream op" where
  "forward_to_upstream_result env method path body headers s =
     (let n = sv_net s;
          counted = starts_with ''/dorequest.php'' path;
          fe = pe_flush env;
          answer = pe_upstream env method (fe_host fe @ path) body (build_forward_headers (fe_tag fe) (fe_fallback fe) headers);
          failed = (\<lambda>n1. (Inr UpNetworkError, s\<lparr>sv_net := mark False None n1\<rparr>))
      in case answer of
           FwdRefused \<Rightarrow> failed (count_request counted None n)
         | FwdFailed \<Rightarrow> failed (if method = ''POST'' then n else count_request counted None n)
         | FwdReply status reason bytes ctype decodes \<Rightarrow>
             let n1 = count_request counted (Some status) n in
             if method = ''POST'' then
               (if \<not> decodes then failed n1
                else (Inr (by_status status reason bytes (Some ''application/json'') bytes),
                      s\<lparr>sv_net := mark (status < 500) None n1\<rparr>))
             else if counted then
               (if \<not> decodes then failed n1 else (Inr (by_status status reason bytes ctype bytes), s\<lparr>sv_net := n1\<rparr>))
             else (Inr (by_status status reason bytes ctype []), s\<lparr>sv_net := n1\<rparr>))"

definition upstream_response :: "upstream \<Rightarrow> http_response" where
  "upstream_response u = (case u of
       UpSuccess status reason bytes ctype _ \<Rightarrow> raw_response status bytes ctype (Some reason)
     | UpHttpError status reason bytes ctype _ \<Rightarrow> raw_response status bytes ctype (Some reason)
     | UpNetworkError \<Rightarrow> error_json 503 ''upstream unavailable'')"

definition forward_to_upstream ::
  "proxy_env \<Rightarrow> string \<Rightarrow> string \<Rightarrow> string \<Rightarrow> (string \<times> string) list \<Rightarrow> http_response op" where
  "forward_to_upstream env method path body headers =
     bind_op (forward_to_upstream_result env method path body headers) (\<lambda>u. ret (upstream_response u))"

text \<open>An image from the media host, which is then scheduled for the image cache.\<close>

definition schedule_images :: "downloads \<Rightarrow> string \<Rightarrow> int option \<Rightarrow> unit op" where
  "schedule_images ds agent game s =
     (Inr (), s\<lparr>sv_images := sv_images s @ map (\<lambda>(url, p). (url, p, agent, game)) ds\<rparr>)"

definition forward_static_asset :: "proxy_env \<Rightarrow> string \<Rightarrow> (string \<times> string) list \<Rightarrow> http_response op" where
  "forward_static_asset env path headers =
     (let clean = before CHR ''?'' path;
          url = pe_media_host env @ clean;
          agent = or_str (header_agent headers) (fe_fallback (pe_flush env))
      in case pe_media env url of
           None \<Rightarrow> ret no_content
         | Some (bytes, ctype) \<Rightarrow>
             bind_op (if bytes \<noteq> [] then schedule_images [(JStr url, clean)] agent None else ret ())
               (\<lambda>_. ret (raw_response 200 bytes (Some ctype) (Some ''OK''))))"

text \<open>A body with its image URLs rewritten, and the downloads scheduled when images are cached.\<close>

definition rewrite_and_schedule ::
  "proxy_env \<Rightarrow> string option \<Rightarrow> string \<Rightarrow> string option \<Rightarrow> int option \<Rightarrow> string op" where
  "rewrite_and_schedule env action body agent game =
     bind_op (lift_res (rewrite_image_urls action body (pe_base env))) (\<lambda>(rewritten, ds).
     bind_op (if pe_images env then schedule_images ds (or_str agent (fe_fallback (pe_flush env))) game else ret ())
       (\<lambda>_. ret rewritten))"

section \<open>Offline answers\<close>

text \<open>An assignment to a key of a payload that must be a dict.\<close>

definition assign :: "string \<Rightarrow> json \<Rightarrow> json \<Rightarrow> json res" where
  "assign k x v = (if is_obj v then Inr (set_field k x v) else Inl TypeError)"

definition cached_payload :: "store \<Rightarrow> string \<Rightarrow> json \<Rightarrow> json" where
  "cached_payload st key dflt = (case get_cache st key of
       None \<Rightarrow> dflt | Some e \<Rightarrow> catch (loads (ce_body e)) dflt)"

definition build_offline_unlocks_response :: "store \<Rightarrow> int \<Rightarrow> string \<Rightarrow> string res" where
  "build_offline_unlocks_response st game user =
     bind_res (assign ''Success'' (JBool True)
        (cached_payload st (unlocks_key (str_of_int game) user)
          (JObj [(''Success'', JBool True), (''UserUnlocks'', JList [])]))) (\<lambda>payload.
     bind_res (merged_unlock_ids st game user) (\<lambda>ids.
     Inr (dumps_compact (set_field ''UserUnlocks'' (JList (map JInt ids)) payload))))"

definition build_merged_start_session_unlocks :: "store \<Rightarrow> int \<Rightarrow> string \<Rightarrow> int \<Rightarrow> int list \<Rightarrow> json res" where
  "build_merged_start_session_unlocks st game user server_now cached =
     bind_res (merged_unlock_ids st game user) (\<lambda>merged.
     Inr (JList (map (\<lambda>i. JObj [(''ID'', JInt i), (''When'', JInt server_now)])
       (if merged = [] then cached else merge_cached cached merged))))"

definition setdefault_field :: "string \<Rightarrow> json \<Rightarrow> json \<Rightarrow> json" where
  "setdefault_field k d v = (if has_field k v then v else set_field k d v)"

definition build_offline_start_session_response :: "int \<Rightarrow> store \<Rightarrow> int \<Rightarrow> string \<Rightarrow> string res" where
  "build_offline_start_session_response now_ms st game user =
     (let now = now_ms div 1000;
          payload = cached_payload st (start_session_key (str_of_int game) user)
            (JObj [(''Success'', JBool True), (''ServerNow'', JInt now), (''HardcoreUnlocks'', JList [])])
      in bind_res (jget ''ServerNow'' (JInt now) payload) (\<lambda>sn.
         bind_res (py_int_of (py_or sn (JInt now))) (\<lambda>server_now.
         bind_res (session_unlock_ids payload) (\<lambda>ids.
         bind_res (assign ''Success'' (JBool True) payload) (\<lambda>p1.
         bind_res (build_merged_start_session_unlocks st game user server_now (filter_warning_achievement_ids ids)) (\<lambda>us.
         Inr (dumps_compact (set_field ''Unlocks'' us (setdefault_field ''HardcoreUnlocks'' (JList []) p1)))))))))"

fun first_cached_set :: "store \<Rightarrow> string \<Rightarrow> string list \<Rightarrow> cache_entry option" where
  "first_cached_set st suffix [] = None"
| "first_cached_set st suffix (k # ks) =
     (if starts_with prefix_achievementsets k \<and> ends_with suffix k then
        (case get_cache st k of Some e \<Rightarrow> Some e | None \<Rightarrow> first_cached_set st suffix ks)
      else first_cached_set st suffix ks)"

definition achievementsets_for_same_game :: "store \<Rightarrow> string \<Rightarrow> string \<Rightarrow> cache_entry option res" where
  "achievementsets_for_same_game st h user =
     bind_res (cached_game_id_for_hash st h) (\<lambda>g. case g of
         None \<Rightarrow> Inr None
       | Some game \<Rightarrow> bind_res (cached_game_meta st (Some game)) (\<lambda>ms.
           Inr (first_cached_set st ('':'' @ normalize_user user) (map gi_key ms))))"

text \<open>The entry an achievementsets request falls back to: the sets of its hash, of its game, or of another
  disc of the game of its hash.\<close>

definition fallback_sets :: "store \<Rightarrow> string \<Rightarrow> string \<Rightarrow> cache_entry option res" where
  "fallback_sets st path body =
     (let h = or_str (extract_request_param path body ''m'') [];
          game = or_str (game_param path body) [];
          user = or_str (extract_request_param path body ''u'') [];
          by_hash = (if h \<noteq> [] \<and> user \<noteq> [] then get_cache st (achievementsets_key h user) else None);
          by_game = (if game \<noteq> [] \<and> user \<noteq> [] then get_cache st (achievementsets_key game user) else None)
      in case by_hash of
           Some e \<Rightarrow> Inr (Some e)
         | None \<Rightarrow>
            (case by_game of
               Some e \<Rightarrow> Inr (Some e)
             | None \<Rightarrow> if h \<noteq> [] \<and> user \<noteq> [] then achievementsets_for_same_game st h user else Inr None))"

text \<open>A stored body as a client gets it.\<close>

definition served_body :: "string \<Rightarrow> string option \<Rightarrow> string \<Rightarrow> string res" where
  "served_body base action body =
     bind_res (rewrite_image_urls action body base) (\<lambda>(rewritten, _).
       filter_warning_achievements_for_action action rewritten)"

definition cached_response :: "store \<Rightarrow> string \<Rightarrow> cache_entry option" where
  "cached_response st key = (case get_cache st key of
       Some e \<Rightarrow> Some e | None \<Rightarrow> get_cache_by_prefix st (key @ '':''))"

definition offline_unlocks :: "store \<Rightarrow> string \<Rightarrow> string \<Rightarrow> http_response option res" where
  "offline_unlocks st path body =
     (let game = or_str (extract_request_param path body ''g'') [];
          user = or_str (extract_request_param path body ''u'') []
      in if game = [] \<or> user = [] then Inr None
         else bind_res (of_option ValueError (py_int game)) (\<lambda>g.
              bind_res (build_offline_unlocks_response st g user) (\<lambda>b. Inr (Some (ok_json b)))))"

definition offline_response :: "string \<Rightarrow> store \<Rightarrow> string \<Rightarrow> string \<Rightarrow> string option \<Rightarrow> http_response res" where
  "offline_response base st path body action =
     (if \<not> should_cache_action action path then Inr (error_json 503 ''offline'')
      else bind_res (if action = Some ''unlocks'' then offline_unlocks st path body else Inr None) (\<lambda>r. case r of
        Some resp \<Rightarrow> Inr resp
      | None \<Rightarrow>
         (case cached_response st (cache_key_for_request path body) of
            Some e \<Rightarrow> bind_res (served_body base action (ce_body e)) (\<lambda>b. Inr (ok_json b))
          | None \<Rightarrow>
             if action = Some ''gameid'' then Inr game_id_cache_miss
             else if action = Some ''achievementsets'' then
               bind_res (fallback_sets st path body) (\<lambda>f. case f of
                   Some e \<Rightarrow> bind_res (served_body base action (ce_body e)) (\<lambda>b. Inr (ok_json b))
                 | None \<Rightarrow> Inr (error_json 503 ''no cached response''))
             else Inr (error_json 503 ''no cached response''))))"

definition handle_offline_request :: "proxy_env \<Rightarrow> string \<Rightarrow> string \<Rightarrow> string option \<Rightarrow> http_response op" where
  "handle_offline_request env path body action s =
     (offline_response (pe_base env) (sv_store s) path body action, s)"

definition handle_offline_login :: "store \<Rightarrow> string \<Rightarrow> string \<Rightarrow> string option \<Rightarrow> http_response option" where
  "handle_offline_login st path body action =
     (let user = or_str (extract_request_param path body ''u'') [] in
      if \<not> action_in action ALWAYS_TRY_UPSTREAM_ACTIONS \<or> user = [] then None
      else map_option (\<lambda>e. ok_json (ce_body e)) (get_cache st (login_key user)))"

definition handle_start_session :: "string \<Rightarrow> string \<Rightarrow> http_response op" where
  "handle_start_session path body s =
     (let game = or_str (extract_request_param path body ''g'') [];
          user = or_str (extract_request_param path body ''u'') []
      in if game = [] \<or> user = [] then (Inr (error_json 400 ''bad request''), s)
         else (bind_res (of_option ValueError (py_int game)) (\<lambda>g.
               bind_res (build_offline_start_session_response (wall_now (sv_net s)) (sv_store s) g user) (\<lambda>b.
               Inr (ok_json b))), s))"

section \<open>Awards\<close>

definition award_param :: "string \<Rightarrow> string \<Rightarrow> int res" where
  "award_param path body =
     of_option ValueError (py_int (or_str (extract_request_param path body ''a'') ''0''))"

definition is_already_unlocked_award :: "store \<Rightarrow> string \<Rightarrow> string \<Rightarrow> bool res" where
  "is_already_unlocked_award st path body =
     bind_res (award_param path body) (\<lambda>a.
     let user = or_str (extract_request_param path body ''u'') [] in
     if a \<le> 0 \<or> user = [] then Inr False
     else bind_res (find_achievement_game_ids st [a] None) (\<lambda>gids. case map_of gids a of
         None \<Rightarrow> Inr False
       | Some g \<Rightarrow>
          (case get_cache st (unlocks_key (str_of_int g) user) of
             None \<Rightarrow> Inr False
           | Some e \<Rightarrow>
              (case loads (ce_body e) of
                 Inl _ \<Rightarrow> Inr False
               | Inr payload \<Rightarrow> bind_res (jget ''UserUnlocks'' JNull payload) (\<lambda>us. Inr (case us of
                     JList vs \<Rightarrow> a \<in> set (filter_warning_achievement_ids (List.map_filter as_int vs))
                   | _ \<Rightarrow> False))))))"

definition queued_award :: "flush_env \<Rightarrow> int \<Rightarrow> int \<Rightarrow> string \<Rightarrow> string \<Rightarrow> (string \<times> string) list \<Rightarrow> string \<Rightarrow> award_dict" where
  "queued_award fe now a path body headers prev =
     (let payload_hash = fe_sha fe (str_of_int a @ ''|'' @ path @ ''|'' @ body @ ''|'' @ str_of_int now)
      in \<lparr>ad_id = None, ad_achievement = a, ad_query = path, ad_body = body,
          ad_user_agent = or_str (header_agent headers) (fe_fallback fe), ad_queued_at = now,
          ad_retries = Some 0, ad_error = None, ad_status = Some STATUS_PENDING,
          ad_payload_hash = Some payload_hash, ad_prev_hash = Some prev,
          ad_signature = Some (fe_sign fe (payload_hash @ '':'' @ prev)), ad_signed_at = Some now\<rparr>)"

definition previous_hash :: "store \<Rightarrow> string" where
  "previous_hash st = (case get_latest_pending_award st of
       None \<Rightarrow> GENESIS_HASH | Some a \<Rightarrow> if aw_payload_hash a = [] then GENESIS_HASH else aw_payload_hash a)"

definition queue_award_store ::
  "flush_env \<Rightarrow> int \<Rightarrow> string \<Rightarrow> string \<Rightarrow> (string \<times> string) list \<Rightarrow> store \<Rightarrow> store res" where
  "queue_award_store fe now path body headers st =
     bind_res (award_param path body) (\<lambda>a.
     if a > 0 \<and> pending_award_exists st a then Inr st
     else bind_res (if a > 0 then is_already_unlocked_award st path body else Inr False) (\<lambda>unlocked.
       if unlocked then Inr st
       else Inr (upsert_pending_award (queued_award fe now a path body headers (previous_hash st)) st)))"

definition queue_award :: "proxy_env \<Rightarrow> string \<Rightarrow> string \<Rightarrow> (string \<times> string) list \<Rightarrow> bool op" where
  "queue_award env path body headers =
     bind_op (on_store (\<lambda>clock. queue_award_store (pe_flush env) clock path body headers)) (\<lambda>_. ret True)"

definition fetch_cached_score :: "store \<Rightarrow> string \<Rightarrow> string \<Rightarrow> int" where
  "fetch_cached_score st path body =
     (let user = or_str (extract_request_param path body ''u'') [] in
      if user = [] then 0
      else (case get_cache st (login_key user) of
              None \<Rightarrow> 0
            | Some e \<Rightarrow> catch (bind_res (loads (ce_body e)) (\<lambda>p. bind_res (jget ''Score'' (JInt 0) p) py_int_of)) 0))"

definition queued_reply :: "int \<Rightarrow> int \<Rightarrow> http_response" where
  "queued_reply score a = ok_json (dumps_compact (JObj [(''Success'', JBool True), (''Score'', JInt score),
     (''SoftcoreScore'', JInt 0), (''AchievementID'', JInt a), (''Error'', JStr ''queued_offline'')]))"

definition queue_offline_award :: "proxy_env \<Rightarrow> string \<Rightarrow> string \<Rightarrow> (string \<times> string) list \<Rightarrow> http_response op" where
  "queue_offline_award env path body headers =
     bind_op (queue_award env path body headers) (\<lambda>queued.
     if \<not> queued then ret (error_json 500 ''award_queue_failed'')
     else bind_op (lift_res (award_param path body)) (\<lambda>a.
          bind_op get_store (\<lambda>st. ret (queued_reply (fetch_cached_score st path body) a))))"

definition schedule_post_award_refresh :: "string \<Rightarrow> string \<Rightarrow> (string \<times> string) list \<Rightarrow> unit op" where
  "schedule_post_award_refresh path body headers s =
     (Inr (), s\<lparr>sv_refreshes := sv_refreshes s @ [(path, body, headers)]\<rparr>)"

definition handle_award_request :: "proxy_env \<Rightarrow> string \<Rightarrow> string \<Rightarrow> (string \<times> string) list \<Rightarrow> http_response op" where
  "handle_award_request env path body headers =
     (if is_hardcore_request path body then ret (error_json 403 ''hardcore_not_supported'')
      else bind_op (is_online env) (\<lambda>online.
        if online then
          bind_op (forward_to_upstream_result env ''POST'' path body headers) (\<lambda>u. case u of
              UpSuccess _ _ _ _ _ \<Rightarrow>
                bind_op (schedule_post_award_refresh path body headers) (\<lambda>_. ret (upstream_response u))
            | UpHttpError _ _ _ _ _ \<Rightarrow> ret (upstream_response u)
            | UpNetworkError \<Rightarrow> queue_offline_award env path body headers)
        else queue_offline_award env path body headers))"

definition resolve_game_id_for_award :: "store \<Rightarrow> string \<Rightarrow> string \<Rightarrow> string option res" where
  "resolve_game_id_for_award st path body =
     (let game = or_str (extract_request_param path body ''g'') [] in
      if game \<noteq> [] then Inr (Some game)
      else bind_res (award_param path body) (\<lambda>a.
        if a \<le> 0 then Inr None
        else bind_res (find_achievement_game_ids st [a] None) (\<lambda>gids. Inr (map_option str_of_int (map_of gids a)))))"

text \<open>The refresh that runs three seconds after an accepted award.\<close>

definition refresh_caches_after_online_award ::
  "proxy_env \<Rightarrow> string \<times> string \<times> (string \<times> string) list \<Rightarrow> unit op" where
  "refresh_caches_after_online_award env job = (case job of (path, body, headers) \<Rightarrow>
     bind_op get_store (\<lambda>st.
     bind_op (lift_res (resolve_game_id_for_award st path body)) (\<lambda>game.
     let user = or_str (extract_request_param path body ''u'') [];
         token = or_str (extract_request_param path body ''t'') [];
         fe = pe_flush env
     in if game = None \<or> user = [] \<or> token = [] then ret ()
        else bind_op (lift_res (of_option ValueError (py_int (the game)))) (\<lambda>g s0.
          (let s = s0\<lparr>sv_net := sleep 3000 (sv_net s0)\<rparr>;
               c = \<lparr>cr_user = user, cr_token = token\<rparr>
           in bind_op (on_store (\<lambda>clock st1. bind_res (cache_unlocks (fe_net fe) (fe_host fe) clock g c
                  (or_str (map_of headers ''User-Agent'') (fe_fallback fe)) st1) (\<lambda>(_, st2). Inr st2)))
                (\<lambda>_. on_store (\<lambda>clock st1. bind_res (cache_session clock g c st1) (\<lambda>(_, st2). Inr st2))) s)))))"

section \<open>Online answers\<close>

definition refresh_unlocks_from_start_session :: "int \<Rightarrow> string \<Rightarrow> string \<Rightarrow> int \<Rightarrow> store \<Rightarrow> store res" where
  "refresh_unlocks_from_start_session g user body clock st = (case loads body of
       Inl _ \<Rightarrow> Inr st
     | Inr payload \<Rightarrow> bind_res (jget ''Unlocks'' JNull payload) (\<lambda>us. case us of
         JList items \<Rightarrow>
           upsert_cache clock (unlocks_key (str_of_int g) user)
             (dumps_compact (JObj [(''Success'', JBool True),
               (''UserUnlocks'', JList (filter_json_ids (map (field ''ID'' JNull) (filter is_obj items))))]))
             None None st
       | _ \<Rightarrow> Inr st))"

text \<open>What an accepted start of a session leaves in the cache.\<close>

definition store_start_session :: "string \<Rightarrow> string \<Rightarrow> string \<Rightarrow> unit op" where
  "store_start_session path body response =
     (let game = or_str (extract_request_param path body ''g'') [];
          user = or_str (extract_request_param path body ''u'') []
      in if game = [] \<or> user = [] then ret ()
         else bind_op (put_cache (start_session_key game user) response) (\<lambda>_.
              bind_op (lift_res (of_option ValueError (py_int game))) (\<lambda>g.
              on_store (refresh_unlocks_from_start_session g user response))))"

definition digits_param :: "string option \<Rightarrow> int option" where
  "digits_param p = (case p of Some s \<Rightarrow> if isdigit s then Some (int (nat_of_digits s)) else None | None \<Rightarrow> None)"

definition store_response ::
  "proxy_env \<Rightarrow> string \<Rightarrow> string \<Rightarrow> string option \<Rightarrow> (string \<times> string) list \<Rightarrow> string \<Rightarrow> string op" where
  "store_response env path body action headers response =
     (let game = extract_request_param path body ''g'';
          user = or_str (extract_request_param path body ''u'') [];
          token = or_str (extract_request_param path body ''t'') [];
          fe = pe_flush env
      in bind_op (rewrite_and_schedule env action response (header_agent headers) (digits_param game)) (\<lambda>rewritten.
         bind_op (put_cache (cache_key_for_request path body) response) (\<lambda>_.
         bind_op (if action = Some ''patch'' \<and> or_str game [] \<noteq> [] \<and> user \<noteq> [] \<and> token \<noteq> []
            then bind_op (lift_res (of_option ValueError (py_int (or_str game [])))) (\<lambda>g.
                 on_store (\<lambda>clock st. bind_res (cache_unlocks (fe_net fe) (fe_host fe) clock g
                    \<lparr>cr_user = user, cr_token = token\<rparr> (or_str (header_agent headers) (fe_fallback fe)) st)
                    (\<lambda>(_, st1). Inr st1)))
            else ret ()) (\<lambda>_. ret rewritten))))"

definition handle_online_request ::
  "proxy_env \<Rightarrow> string \<Rightarrow> string \<Rightarrow> string \<Rightarrow> string option \<Rightarrow> (string \<times> string) list \<Rightarrow> http_response op" where
  "handle_online_request env method path body action headers =
     bind_op (forward_to_upstream_result env method path body headers) (\<lambda>u. case u of
         UpNetworkError \<Rightarrow> handle_offline_request env path body action
       | UpHttpError _ _ _ _ _ \<Rightarrow> ret (error_json 503 ''upstream unavailable'')
       | UpSuccess status reason bytes ctype text \<Rightarrow>
          if action = None \<or> \<not> starts_with ''/dorequest.php'' path
          then ret (raw_response status bytes ctype (Some reason))
          else bind_op (lift_res (filter_warning_achievements_for_action action text)) (\<lambda>filtered.
               bind_op (if action = Some ''startsession'' \<and> should_cache_response filtered
                  then store_start_session path body filtered else ret ()) (\<lambda>_.
               bind_op (if should_cache_response filtered \<and> should_cache_action action path
                  then store_response env path body action headers filtered else ret filtered) (\<lambda>out.
               ret (json_response status out (Some reason))))))"

definition serve_login ::
  "proxy_env \<Rightarrow> string \<Rightarrow> string \<Rightarrow> string \<Rightarrow> string option \<Rightarrow> (string \<times> string) list \<Rightarrow> http_response option op" where
  "serve_login env method path body action headers =
     bind_op (forward_to_upstream_result env method path body headers) (\<lambda>u.
     let served = (\<lambda>status reason bytes ctype text.
           if should_cache_response text then
             bind_op (rewrite_and_schedule env action text (header_agent headers) None) (\<lambda>rewritten.
             bind_op (put_cache (cache_key_for_request path body) text) (\<lambda>_.
             ret (Some (raw_response status rewritten ctype (Some reason)))))
           else ret (Some (raw_response status bytes ctype (Some reason))))
     in case u of
          UpSuccess status reason bytes ctype text \<Rightarrow> served status reason bytes ctype text
        | UpHttpError status reason bytes ctype text \<Rightarrow> served status reason bytes ctype text
        | UpNetworkError \<Rightarrow> bind_op get_store (\<lambda>st. ret (handle_offline_login st path body action)))"

section \<open>A request\<close>

definition note_game_request :: "string \<Rightarrow> string \<Rightarrow> unit op" where
  "note_game_request path body s =
     (Inr (), if or_str (game_param path body) [] \<noteq> [] then s\<lparr>sv_active_at := Some (mono (sv_net s))\<rparr> else s)"

definition record_game_activity :: "string \<Rightarrow> string \<Rightarrow> unit op" where
  "record_game_activity path body s = (case digits_param (extract_request_param path body ''g'') of
       None \<Rightarrow> (Inr (), s)
     | Some g \<Rightarrow>
        (case record_game_played g (wall_now (sv_net s)) (sv_last_written s, sv_store s) of
           (r, w, st) \<Rightarrow> (r, s\<lparr>sv_last_written := w, sv_store := st\<rparr>)))"

text \<open>A test that asks for the connection only where its first part holds.\<close>

definition offline_and :: "proxy_env \<Rightarrow> bool \<Rightarrow> bool op" where
  "offline_and env c = (if c then bind_op (is_online env) (\<lambda>online. ret (\<not> online)) else ret False)"

definition serve_image :: "proxy_env \<Rightarrow> string \<Rightarrow> (string \<times> string) list \<Rightarrow> http_response op" where
  "serve_image env path headers =
     (if \<not> pe_images env then ret no_content
      else case pe_asset env path of
        Some (name, bytes) \<Rightarrow> ret (raw_response 200 bytes (Some (guess_content_type name)) (Some ''OK''))
      | None \<Rightarrow> bind_op (is_online env) (\<lambda>online.
          if online then forward_static_asset env path headers else ret no_content))"

definition note_request :: "string \<Rightarrow> string \<Rightarrow> (string \<times> string) list \<Rightarrow> string option \<Rightarrow> unit op" where
  "note_request path body headers action =
     (let agent = or_str (header_agent headers) [] in
      bind_op (if agent \<noteq> [] then put_cache key_user_agent agent else ret ()) (\<lambda>_.
      bind_op (note_game_request path body) (\<lambda>_.
      if action_in action last_played_actions then record_game_activity path body else ret ())))"

definition serve_rest ::
  "proxy_env \<Rightarrow> string \<Rightarrow> string \<Rightarrow> string \<Rightarrow> string option \<Rightarrow> (string \<times> string) list \<Rightarrow> http_response op" where
  "serve_rest env method path body action headers =
     (if is_hardcore_request path body then
        bind_op (is_online env) (\<lambda>online.
          if \<not> online then ret (error_json 503 ''upstream unavailable'')
          else forward_to_upstream env method path body headers)
      else bind_op (offline_and env (action_in action FAKE_OFFLINE_SUCCESS_ACTIONS)) (\<lambda>fake.
        if fake then ret (ok_json (''{'' @ quoted ''Success'' @ '':true}''))
        else bind_op (if action_in action ALWAYS_TRY_UPSTREAM_ACTIONS
               then serve_login env method path body action headers else ret None) (\<lambda>r. case r of
            Some resp \<Rightarrow> ret resp
          | None \<Rightarrow> bind_op (is_online env) (\<lambda>online.
              if online then handle_online_request env method path body action headers
              else handle_offline_request env path body action))))"

definition process_proxy_request ::
  "proxy_env \<Rightarrow> string \<Rightarrow> string \<Rightarrow> string \<Rightarrow> (string \<times> string) list \<Rightarrow> http_response op" where
  "process_proxy_request env method path body headers =
     (if is_static_asset_request path then serve_image env path headers
      else (let action = extract_action path body in
        bind_op (note_request path body headers action) (\<lambda>_.
        if action_in action AWARD_ACTIONS then handle_award_request env path body headers
        else bind_op (offline_and env (action = Some ''unlocks'')) (\<lambda>off.
          bind_op (if off then bind_op get_store (\<lambda>st. lift_res (offline_unlocks st path body)) else ret None) (\<lambda>r.
          case r of
            Some resp \<Rightarrow> ret resp
          | None \<Rightarrow> bind_op (offline_and env (action = Some ''startsession'')) (\<lambda>off2.
              if off2 then handle_start_session path body
              else serve_rest env method path body action headers))))))"

text \<open>The connection handler: the client's address, the method and the length of the body; a request for
  the proxy is answered by process_proxy_request.\<close>

definition handle_request ::
  "proxy_env \<Rightarrow> string \<Rightarrow> string \<Rightarrow> int \<Rightarrow> string \<Rightarrow> string \<Rightarrow> (string \<times> string) list \<Rightarrow> http_response op" where
  "handle_request env client method len path body headers =
     (if client \<noteq> ''127.0.0.1'' \<and> client \<noteq> ''::1'' then ret (error_json 403 ''loopback_only'')
      else if method \<noteq> ''GET'' \<and> method \<noteq> ''POST'' then ret (error_json 405 ''method not allowed'')
      else if len > MAX_REQUEST_BODY_BYTES then ret (error_json 413 ''request body too large'')
      else bind_op (is_online env) (\<lambda>_.
        process_proxy_request env method path (if len = 0 then [] else body) headers))"

definition proxy_flush :: "proxy_env \<Rightarrow> flush_outcome op" where
  "proxy_flush env s = (case flush_pending_awards ((pe_flush env)\<lparr>fe_clock := wall_now (sv_net s)\<rparr>) (sv_store s) of
       (r, st) \<Rightarrow> (r, s\<lparr>sv_store := st\<rparr>))"

end
