(* ===== verification/Queue_Integrity.thy ===== *)
theory Queue_Integrity
  imports Proxy
begin

text \<open>
  The chain of the queue: queueing an award of a positive id extends a queue that passes the check to one
  that does, and a flush keeps it so.  Whatever is queued or sent, every award keeps the hash of its own
  content and a signature that matches its own fields, so a broken link can always be repaired.
\<close>

section \<open>What the chain reads of an award\<close>

definition chain_view :: "award \<Rightarrow> award" where
  "chain_view a = a\<lparr>aw_status := [], aw_retries := 0, aw_error := None\<rparr>"

lemma chain_view_fields [simp]:
  "aw_id (chain_view a) = aw_id a" "aw_queued_at (chain_view a) = aw_queued_at a"
  "aw_achievement (chain_view a) = aw_achievement a" "chain_link (chain_view a) = chain_link a"
  "canonical_payload (chain_view a) = canonical_payload a" "aw_payload_hash (chain_view a) = aw_payload_hash a"
  "aw_prev_hash (chain_view a) = aw_prev_hash a" "aw_signature (chain_view a) = aw_signature a"
  by (simp_all add: chain_view_def chain_link_def canonical_payload_def)

lemma verify_from_view: "verify_from sha sig i prev (map chain_view as) = verify_from sha sig i prev as"
  by (induction as arbitrary: i prev) simp_all

lemma verify_from_same_view:
  "map chain_view as = map chain_view bs \<Longrightarrow> verify_from sha sig i prev as = verify_from sha sig i prev bs"
  by (metis verify_from_view)

section \<open>The invariant of the store\<close>

definition award_statuses :: "string set" where
  "award_statuses = {STATUS_PENDING, STATUS_DELETED, STATUS_STALE, STATUS_FLUSHED}"

definition chain_inv :: "(string \<Rightarrow> string) \<Rightarrow> (string \<Rightarrow> string) \<Rightarrow> int \<Rightarrow> store \<Rightarrow> bool" where
  "chain_inv sha sig now st = (wf_store st \<and> verify_chain sha sig (get_pending_awards st) = None \<and>
     (\<forall>a \<in> set (pending_awards st). aw_queued_at a \<le> now \<and> aw_status a \<in> award_statuses))"

lemma chain_inv_wf: "chain_inv sha sig now st \<Longrightarrow> wf_store st"
  by (simp add: chain_inv_def)

lemma chain_inv_later: "chain_inv sha sig now st \<Longrightarrow> now \<le> t \<Longrightarrow> chain_inv sha sig t st"
  by (force simp: chain_inv_def)

lemma chain_inv_same: "chain_inv sha sig now st \<Longrightarrow> same_queue st st' \<Longrightarrow> chain_inv sha sig now st'"
  by (simp add: chain_inv_def same_queue_def get_pending_awards_def)

definition status_change :: "(award \<Rightarrow> award) \<Rightarrow> bool" where
  "status_change f = (\<forall>a. chain_view (f a) = chain_view a \<and>
     (aw_status a \<in> award_statuses \<longrightarrow> aw_status (f a) \<in> award_statuses))"

lemma chain_inv_map:
  assumes "chain_inv sha sig now st" "wf_store st'" "pending_awards st' = map f (pending_awards st)" "status_change f"
  shows "chain_inv sha sig now st'"
proof -
  have v: "chain_view (f a) = chain_view a" "aw_status a \<in> award_statuses \<Longrightarrow> aw_status (f a) \<in> award_statuses" for a
    using assms(4) by (auto simp: status_change_def)
  have k: "aw_queued_at (f a) = aw_queued_at a" "aw_id (f a) = aw_id a" for a
    using arg_cong [OF v(1), of aw_queued_at] arg_cong [OF v(1), of aw_id] by simp_all
  have "get_pending_awards st' = map f (get_pending_awards st)"
    unfolding get_pending_awards_def assms(3) by (rule sort_key_map) (simp add: k)
  then have "map chain_view (get_pending_awards st') = map chain_view (get_pending_awards st)"
    by (simp add: v)
  then have "verify_chain sha sig (get_pending_awards st') = None"
    using assms(1) verify_from_same_view [of "get_pending_awards st'" "get_pending_awards st" sha sig 0 GENESIS_HASH]
    by (simp only: chain_inv_def verify_chain_def)
  moreover have "aw_queued_at (f a) \<le> now \<and> aw_status (f a) \<in> award_statuses" if "a \<in> set (pending_awards st)" for a
    using that assms(1) v(2) [of a] k(1) [of a] by (simp add: chain_inv_def)
  ultimately show ?thesis using assms(2) by (simp add: chain_inv_def assms(3))
qed

lemma status_change_award_after: "status_change (\<lambda>a. if P a then award_after (F a) a else a)"
proof -
  have "chain_view (award_after f a) = chain_view a" for f a
    by (cases f) (auto simp: award_after_def chain_view_def split: send_outcome.split)
  moreover have "aw_status (award_after f a) \<in> award_statuses" if "aw_status a \<in> award_statuses" for f a
    using that by (cases f) (auto simp: award_after_def award_statuses_def split: send_outcome.split)
  ultimately show ?thesis by (simp add: status_change_def)
qed

lemma status_change_settled: "status_change (settled env c known gids as)"
  unfolding settled_def [abs_def] by (rule status_change_award_after)

lemma statuses_distinct [simp]:
  "STATUS_PENDING \<noteq> STATUS_DELETED" "STATUS_PENDING \<noteq> STATUS_STALE" "STATUS_PENDING \<noteq> STATUS_FLUSHED"
  by (simp_all add: STATUS_PENDING_def STATUS_DELETED_def STATUS_STALE_def STATUS_FLUSHED_def)

lemma chain_inv_purge:
  assumes "chain_inv sha sig now st" shows "chain_inv sha sig now (purge_processed_awards_if_safe st)"
proof (cases "pending_awards_exist_by_status st STATUS_PENDING")
  case True
  then show ?thesis using assms by (simp add: purge_processed_awards_if_safe_def)
next
  case False
  let ?st = "purge_processed_awards_if_safe st"
  have "pending_awards ?st = []"
    using False assms by (auto simp: purge_processed_awards_if_safe_def chain_inv_def award_statuses_def
        pending_awards_exist_by_status_def delete_pending_awards_by_statuses_def list_ex_iff filter_empty_conv)
  moreover have "wf_store ?st"
    using assms by (simp add: purge_processed_awards_if_safe_def wf_award_deletes chain_inv_def)
  ultimately show ?thesis by (simp add: chain_inv_def get_pending_awards_def verify_chain_def)
qed

section \<open>A flush\<close>

lemma checked_queue_intact:
  "verify_chain (fe_sha env) (fe_sign env) (get_pending_awards st) = None \<Longrightarrow>
   checked_queue env st = Some (get_pending_awards st, st)"
  by (simp add: checked_queue_def)

text \<open>A property of stores that survives the writes of the cache, a change of the statuses, the purge and
  the check of the queue survives a flush.\<close>

locale flush_invariant =
  fixes J :: "store \<Rightarrow> bool" and env :: flush_env
  assumes wf: "J st \<Longrightarrow> wf_store st"
    and same: "J st \<Longrightarrow> same_queue st st' \<Longrightarrow> J st'"
    and change: "J st \<Longrightarrow> wf_store st' \<Longrightarrow> pending_awards st' = map f (pending_awards st) \<Longrightarrow> status_change f \<Longrightarrow> J st'"
    and purge: "J st \<Longrightarrow> J (purge_processed_awards_if_safe st)"
    and checked: "J st \<Longrightarrow> \<exists>st1. checked_queue env st = Some (get_pending_awards st1, st1) \<and> J st1"
begin

lemma loop:
  assumes "J st" "set as = set (pending_awards st)" "distinct (map aw_achievement as)"
    and "flush_loop env c known gids as n st = (r, st')"
  shows "J st'"
proof -
  obtain pre where "wf_store st'" "pending_awards st' = map (settled env c known gids pre) (pending_awards st)"
    using flush_loop_prefix [OF wf [OF assms(1)] assms(3) _ assms(4)] assms(2) by auto
  then show ?thesis by (rule change [OF assms(1) _ _ status_change_settled])
qed

lemma sending:
  assumes inv: "J st" and p: "pending = get_pending_awards st" and sq: "same_queue st st3"
    and out: "(case flush_loop env c known gids pending (0, 0, 0) st3 of
        (Inl e, st4) \<Rightarrow> (Inl e, st4)
      | (Inr (nf, ns, nd), st4) \<Rightarrow>
         (case (if nf \<noteq> 0 then refresh_sessions env c games st4 else (None, st4)) of
            (Some e, st5) \<Rightarrow> (Inl e, st5)
          | (None, st5) \<Rightarrow> let st6 = purge_processed_awards_if_safe st5 in (Inr (F nf ns nd st6), st6))) = (r, st')"
  shows "J st'"
proof -
  obtain lr st4 where run: "flush_loop env c known gids pending (0, 0, 0) st3 = (lr, st4)"
    by (cases "flush_loop env c known gids pending (0, 0, 0) st3")
  have inv3: "J st3" by (rule same [OF inv sq])
  have q3: "pending_awards st3 = pending_awards st" using sq wf [OF inv] by (simp add: same_queue_def)
  have inv4: "J st4"
    using distinct_get_pending [OF wf [OF inv]] p q3 by (intro loop [OF inv3 _ _ run]) simp_all
  have inv5: "J st5" if "refresh_sessions env c games st4 = (x, st5)" for x st5
    by (rule same [OF inv4 refresh_sessions_queue [OF that]])
  show ?thesis
  proof (cases lr)
    case (Inl e)
    then show ?thesis using out run inv4 by simp
  next
    case (Inr n)
    obtain nf ns nd where n: "n = (nf, ns, nd)" by (cases n)
    obtain x st5 where s: "(if nf \<noteq> 0 then refresh_sessions env c games st4 else (None, st4)) = (x, st5)" by fastforce
    then have "J st5" using inv4 inv5 by (auto split: if_splits)
    then show ?thesis using out run Inr n s purge by (cases x) (auto simp: Let_def)
  qed
qed

lemma flush:
  assumes inv0: "J st0" and run: "flush_pending_awards env st0 = (r, st')"
  shows "J st'"
proof (cases "get_pending_awards st0 = []")
  case True
  then show ?thesis using inv0 run by (simp add: flush_pending_awards_def)
next
  case False
  obtain st where q: "checked_queue env st0 = Some (get_pending_awards st, st)" and inv: "J st"
    using checked [OF inv0] by blast
  let ?agent = "proxy_user_agent (fe_tag env) (fe_fallback env)"
  let ?creds = "resolve_credentials (fe_net env) (fe_host env) (fe_fallback env) (fe_clock env) (fe_tokens env)
      (fe_passwords env) ?agent (fe_tag env) st"
  show ?thesis
  proof (cases "list_ex (is_status STATUS_PENDING) (get_pending_awards st)")
    case none: False
    then show ?thesis using run False q purge [OF inv] by (simp add: flush_pending_awards_def)
  next
    case ex: True
    show ?thesis
    proof (cases ?creds)
      case (Inl e)
      then show ?thesis using run False q ex inv by (simp add: flush_pending_awards_def)
    next
      case (Inr p)
      obtain co st2 where p: "p = (co, st2)" by (cases p)
      have q2: "same_queue st st2"
        using resolve_credentials_keeps [OF Inr [unfolded p]] by (simp add: same_queue_def)
      show ?thesis
      proof (cases co)
        case None
        then show ?thesis using run False q ex Inr p same [OF inv q2] by (simp add: flush_pending_awards_def)
      next
        case (Some c)
        obtain rr st3 where rr: "refresh_and_load_achievement_ids env c
            (filter (is_status STATUS_PENDING) (get_pending_awards st)) st2 = (rr, st3)" by fastforce
        have q3: "same_queue st st3" using same_queue_trans [OF q2 refresh_and_load_queue [OF rr]] .
        show ?thesis
        proof (cases rr)
          case (Refreshed kgg)
          obtain known games gids where kgg: "kgg = (known, games, gids)" by (cases kgg)
          show ?thesis
            by (rule sending [OF inv refl q3, where r = r and c = c and known = known
                  and gids = gids and games = games and F = "\<lambda>nf ns nd st6. \<lparr>fo_flushed = nf,
                    fo_total = int (length (get_pending_awards st)), fo_stale = ns, fo_deleted = nd,
                    fo_remaining = count (is_status STATUS_PENDING) (get_pending_awards st6), fo_error = False\<rparr>"])
              (use run False q ex Inr p Some rr Refreshed kgg in \<open>simp add: flush_pending_awards_def\<close>)
        qed (use run False q ex Inr p Some rr same [OF inv q3] in \<open>simp_all add: flush_pending_awards_def\<close>)
      qed
    qed
  qed
qed

end

interpretation chain: flush_invariant "chain_inv (fe_sha env) (fe_sign env) now" env for env now
proof unfold_locales
  fix st
  assume "chain_inv (fe_sha env) (fe_sign env) now st"
  then show "\<exists>st1. checked_queue env st = Some (get_pending_awards st1, st1) \<and>
      chain_inv (fe_sha env) (fe_sign env) now st1"
    by (intro exI [of _ st]) (simp add: checked_queue_intact chain_inv_def)
qed (fact chain_inv_wf chain_inv_same chain_inv_map chain_inv_purge)+

section \<open>Queueing an award\<close>

lemma get_pending_upsert_new:
  assumes wf: "wf_store st" and new: "ad_achievement d \<notin> aw_achievement ` set (pending_awards st)"
    and d: "ad_achievement d \<noteq> WARNING_ACHIEVEMENT_ID" "ad_id d = None"
    and late: "\<forall>a \<in> set (pending_awards st). aw_queued_at a \<le> ad_queued_at d"
  shows "get_pending_awards (upsert_pending_award d st) = get_pending_awards st @ [award_of (award_id_for st d) d]"
proof -
  have id: "aw_id a < award_id_for st d" if "a \<in> set (pending_awards st)" for a
  proof (cases "is_sqlite st")
    case True
    then show ?thesis using wf that by (simp add: wf_store_def award_id_for_def)
  next
    case False
    then show ?thesis using that d(2) by (simp add: award_id_for_def next_json_id_new)
  qed
  have "aw_queued_at (award_of i d) = ad_queued_at d" for i by (simp add: award_of_def)
  then show ?thesis
    unfolding get_pending_awards_def using upsert_pending_award_list [OF wf d(1)] new late id
    by (simp add: sort_key_last less_eq_prod_def order.strict_implies_order order.not_eq_order_implies_strict)
qed

lemma verify_from_snoc:
  "verify_from sha sig i prev (as @ [a]) = None \<longleftrightarrow>
     verify_from sha sig i prev as = None \<and> award_intact sha sig (last (prev # map chain_link as)) a"
  by (induction as arbitrary: i prev) (auto simp: award_intact_def)

lemma previous_hash_last: "previous_hash st = last (GENESIS_HASH # map chain_link (get_pending_awards st))"
proof (cases "get_pending_awards st = []")
  case False
  then have "get_latest_pending_award st = Some (last (get_pending_awards st))"
    by (simp add: get_latest_pending_award_def split: list.split)
  then show ?thesis using False by (simp add: previous_hash_def chain_link_def last_map)
qed (simp add: previous_hash_def get_latest_pending_award_def)

lemma queued_award_fields [simp]:
  "ad_achievement (queued_award fe now a path body headers prev) = a"
  "ad_queued_at (queued_award fe now a path body headers prev) = now"
  "ad_id (queued_award fe now a path body headers prev) = None"
  by (simp_all add: queued_award_def Let_def)

lemma queued_award_intact:
  "award_intact (fe_sha fe) (fe_sign fe) prev (award_of i (queued_award fe now a path body headers prev))"
  by (simp add: award_intact_def queued_award_def award_of_def canonical_payload_def sign_input_def Let_def)

lemma queue_award_store_cases:
  assumes "queue_award_store fe now path body headers st = Inr st'"
  obtains (same) "st' = st"
  | (queued) a where "award_param path body = Inr a" "a > 0 \<longrightarrow> \<not> pending_award_exists st a"
      "st' = upsert_pending_award (queued_award fe now a path body headers (previous_hash st)) st"
  using assms by (auto simp: queue_award_store_def res_simps split: if_splits)

text \<open>C13: queueing an award of a positive id keeps the chain of the queue intact: when the queue passes the
  check and nothing in it is dated later, the new queue passes it too, with the new award last.\<close>

theorem queued_award_extends_chain:
  assumes inv: "chain_inv (fe_sha fe) (fe_sign fe) now st" and a: "award_param path body = Inr a" "0 < a"
    and run: "queue_award_store fe now path body headers st = Inr st'"
  shows "chain_inv (fe_sha fe) (fe_sign fe) now st' \<and>
    (get_pending_awards st' = get_pending_awards st \<or>
     (\<exists>x. get_pending_awards st' = get_pending_awards st @ [x] \<and> aw_achievement x = a \<and>
        aw_status x = STATUS_PENDING \<and> aw_query x = path \<and> aw_body x = body))"
  using run
proof (cases rule: queue_award_store_cases)
  case same
  then show ?thesis using inv by simp
next
  case (queued b)
  let ?d = "queued_award fe now a path body headers (previous_hash st)"
  have st': "st' = upsert_pending_award ?d st" using queued(1, 3) a(1) by simp
  show ?thesis
  proof (cases "a = WARNING_ACHIEVEMENT_ID")
    case True
    then show ?thesis using inv st' by (simp add: upsert_pending_award_def)
  next
    case False
    have wf: "wf_store st" by (rule chain_inv_wf [OF inv])
    have new: "a \<notin> aw_achievement ` set (pending_awards st)"
      using queued a by (auto simp: pending_award_exists_iff)
    let ?x = "award_of (award_id_for st ?d) ?d"
    have q: "get_pending_awards st' = get_pending_awards st @ [?x]"
      unfolding st' using inv new False by (intro get_pending_upsert_new [OF wf]) (auto simp: chain_inv_def)
    have x: "aw_achievement ?x = a" "aw_status ?x = STATUS_PENDING" "aw_query ?x = path" "aw_body ?x = body"
      "aw_queued_at ?x = now"
      by (simp_all add: award_of_def queued_award_def Let_def)
    have "verify_chain (fe_sha fe) (fe_sign fe) (get_pending_awards st') = None"
      using inv queued_award_intact by (simp add: q verify_chain_def verify_from_snoc previous_hash_last chain_inv_def)
    moreover have "set (pending_awards st') = insert ?x (set (pending_awards st))"
      using arg_cong [OF q, of set] by simp
    ultimately have "chain_inv (fe_sha fe) (fe_sign fe) now st'"
      using inv x wf_upsert_pending_award [OF wf, of ?d] by (simp add: chain_inv_def award_statuses_def st')
    then show ?thesis using q x by blast
  qed
qed

definition quiet_env :: flush_env where
  "quiet_env = \<lparr>fe_net = \<lambda>_ _. NetworkError, fe_post = \<lambda>_ _ _. PostFailed, fe_host = ''https://ra'',
     fe_fallback = ''UA'', fe_tag = ''Proxy'', fe_clock = 5000, fe_sha = \<lambda>s. CHR ''#'' # s, fe_md5 = id,
     fe_sign = \<lambda>s. CHR ''!'' # s, fe_pubkey = [], fe_tokens = [], fe_passwords = []\<rparr>"

theorem queued_award_extends_chain_witness:
  "\<exists>st'. queue_award_store quiet_env 5000 ''/dorequest.php'' ''r=awardachievement&a=7&u=bob'' [] (empty_store True) = Inr st' \<and>
     verify_chain (fe_sha quiet_env) (fe_sign quiet_env) (get_pending_awards st') = None"
proof -
  let ?q = "queue_award_store quiet_env 5000 ''/dorequest.php'' ''r=awardachievement&a=7&u=bob'' [] (empty_store True)"
  have a: "award_param ''/dorequest.php'' ''r=awardachievement&a=7&u=bob'' = Inr 7" by code_simp
  have u: "is_already_unlocked_award (empty_store True) ''/dorequest.php'' ''r=awardachievement&a=7&u=bob'' = Inr False"
    by code_simp
  then obtain st' where run: "?q = Inr st'"
    by (cases "pending_award_exists (empty_store True) 7") (simp_all add: queue_award_store_def a u)
  have "chain_inv (fe_sha quiet_env) (fe_sign quiet_env) 5000 (empty_store True)"
    by (simp add: chain_inv_def get_pending_awards_def verify_chain_def) (simp add: empty_store_def)
  from queued_award_extends_chain [OF this a _ run] show ?thesis using run by (simp add: chain_inv_def)
qed

text \<open>C12: a flush, whatever the server answers, leaves a queue that passes the check with one that does.\<close>

theorem flush_keeps_chain:
  assumes "chain_inv (fe_sha env) (fe_sign env) now st" "flush_pending_awards env st = (r, st')"
  shows "chain_inv (fe_sha env) (fe_sign env) now st'"
  by (rule chain.flush [OF assms])

theorem flush_keeps_chain_witness:
  "verify_chain (fe_sha quiet_env) (fe_sign quiet_env) (get_pending_awards (snd (flush_pending_awards quiet_env
     (sample_store\<lparr>pending_awards := [sample_award\<lparr>aw_status := STATUS_PENDING\<rparr>]\<rparr>)))) = None"
proof -
  let ?st = "sample_store\<lparr>pending_awards := [sample_award\<lparr>aw_status := STATUS_PENDING\<rparr>]\<rparr>"
  have "wf_store ?st"
    by (simp add: sample_store_def wf_store_def empty_store_def sample_award_def WARNING_ACHIEVEMENT_ID_def)
  then have "chain_inv (fe_sha quiet_env) (fe_sign quiet_env) 5000 ?st"
    by (simp add: chain_inv_def get_pending_awards_def verify_chain_def award_statuses_def)
      (simp add: sample_award_def)
  then show ?thesis
    using flush_keeps_chain [of quiet_env 5000 ?st] by (cases "flush_pending_awards quiet_env ?st") (simp add: chain_inv_def)
qed

end
