(* ===== verification/Pending_List.thy ===== *)
theory Pending_List
  imports Queue_Integrity
begin

text \<open>
  The list of queued awards a user sees, and the deletion of one (pending_awards.py).  The titles come
  from the cached patches and achievement sets; the text of a date is not modelled.
\<close>

record patch_info =
  pi_game :: int
  pi_game_title :: json
  pi_title :: json
  pi_points :: json

record award_entry =
  ae_achievement :: int
  ae_game :: "int option"
  ae_game_title :: json
  ae_title :: json
  ae_points :: json
  ae_queued_at :: int

definition titled_items :: "int \<Rightarrow> json \<Rightarrow> json list \<Rightarrow> (int \<times> json \<times> json) list" where
  "titled_items g title items = map (\<lambda>a. (g, title, a)) (filter is_obj items)"

definition game_title_of :: "int \<Rightarrow> json \<Rightarrow> json" where
  "game_title_of g title = py_or title (JStr (''Game '' @ str_of_int g))"

definition patch_titled_achievements :: "cache_entry \<Rightarrow> (int \<times> json \<times> json) list res" where
  "patch_titled_achievements e = (case parse_game_id_from_patch_key (ce_key e) of
       None \<Rightarrow> Inr []
     | Some g \<Rightarrow>
        (case bind_res (loads (ce_body e)) (jget ''PatchData'' JNull) of
           Inl _ \<Rightarrow> Inr []
         | Inr pd0 \<Rightarrow>
            let pd = py_or pd0 (JObj []) in
            bind_res (jget ''Title'' JNull pd) (\<lambda>title.
            bind_res (jget ''Achievements'' (JList []) pd) (\<lambda>as.
            bind_res (json_items as) (\<lambda>items. Inr (titled_items g (game_title_of g title) items))))))"

text \<open>The achievements of the sets of a game: a falsy Sets or Achievements counts as none.\<close>

definition set_achievements :: "json \<Rightarrow> json list res" where
  "set_achievements payload =
     bind_res (json_items (py_or (field ''Sets'' JNull payload) (JList []))) (\<lambda>sets.
     bind_res (map_res (\<lambda>s. json_items (py_or (field ''Achievements'' JNull s) (JList []))) (filter is_obj sets))
       (\<lambda>ls. Inr (concat ls)))"

definition achievementsets_titled_achievements :: "cache_entry \<Rightarrow> (int \<times> json \<times> json) list res" where
  "achievementsets_titled_achievements e = (case loads (ce_body e) of
       Inl _ \<Rightarrow> Inr []
     | Inr payload \<Rightarrow> bind_res (jget ''GameId'' JNull payload) (\<lambda>gv. case positive_int gv of
         None \<Rightarrow> Inr []
       | Some g \<Rightarrow>
          bind_res (case field ''Achievements'' JNull payload of
              JObj ps \<Rightarrow> Inr (map snd ps)
            | JList vs \<Rightarrow> Inr vs
            | _ \<Rightarrow> set_achievements payload)
            (\<lambda>items. Inr (titled_items g (game_title_of g (field ''Title'' JNull payload)) items))))"

fun index_items :: "int list \<Rightarrow> (int \<times> json \<times> json) list \<Rightarrow> (int \<times> patch_info) list \<Rightarrow> (int \<times> patch_info) list" where
  "index_items wanted [] index = index"
| "index_items wanted ((g, title, a) # as) index = (case as_int (field ''ID'' JNull a) of
       None \<Rightarrow> index_items wanted as index
     | Some i \<Rightarrow>
        if i \<notin> set wanted then index_items wanted as index
        else index_items wanted as (setdefault i
          \<lparr>pi_game = g, pi_game_title = title,
           pi_title = py_or (field ''Title'' JNull a) (JStr (''Achievement '' @ str_of_int i)),
           pi_points = field ''Points'' JNull a\<rparr> index))"

text \<open>The search stops after the entry that completed the index.\<close>

fun index_entries ::
  "bool \<Rightarrow> int list \<Rightarrow> cache_entry list \<Rightarrow> (int \<times> patch_info) list \<Rightarrow> ((int \<times> patch_info) list \<times> bool) res" where
  "index_entries sets wanted [] index = Inr (index, False)"
| "index_entries sets wanted (e # es) index =
     (if \<not> mentions_id wanted (ce_body e) then index_entries sets wanted es index
      else bind_res (if sets then achievementsets_titled_achievements e else patch_titled_achievements e) (\<lambda>items.
        let index1 = index_items wanted items index in
        if set wanted \<subseteq> fst ` set index1 then Inr (index1, True) else index_entries sets wanted es index1))"

fun index_prefixes :: "store \<Rightarrow> int list \<Rightarrow> string list \<Rightarrow> (int \<times> patch_info) list \<Rightarrow> (int \<times> patch_info) list res" where
  "index_prefixes st wanted [] index = Inr index"
| "index_prefixes st wanted (p # ps) index =
     bind_res (index_entries (p = prefix_achievementsets) wanted (iter_cache_by_prefix st p) index)
       (\<lambda>(index1, complete). if complete then Inr index1 else index_prefixes st wanted ps index1)"

definition build_patch_index :: "store \<Rightarrow> int list \<Rightarrow> (int \<times> patch_info) list res" where
  "build_patch_index st ids =
     (let wanted = remdups (filter (\<lambda>i. i > 0) ids) in
      if wanted = [] then Inr [] else index_prefixes st wanted (likely_first_prefixes st None) [])"

definition award_entry_of :: "(int \<times> patch_info) list \<Rightarrow> award \<Rightarrow> award_entry" where
  "award_entry_of index a =
     (let info = map_of index (aw_achievement a);
          unknown = JStr ''Unknown Game'';
          plain = JStr (''Achievement '' @ str_of_int (aw_achievement a))
      in \<lparr>ae_achievement = aw_achievement a, ae_game = map_option pi_game info,
          ae_game_title = (case info of None \<Rightarrow> unknown | Some i \<Rightarrow> py_or (pi_game_title i) unknown),
          ae_title = (case info of None \<Rightarrow> plain | Some i \<Rightarrow> py_or (pi_title i) plain),
          ae_points = (case info of None \<Rightarrow> JNull | Some i \<Rightarrow> pi_points i),
          ae_queued_at = aw_queued_at a\<rparr>)"

definition list_pending_awards :: "store \<Rightarrow> award_entry list res" where
  "list_pending_awards st =
     (let pending = filter (\<lambda>a. aw_status a = STATUS_PENDING) (get_pending_awards st) in
      bind_res (build_patch_index st (map aw_achievement pending)) (\<lambda>index.
      Inr (map (award_entry_of index) pending)))"

text \<open>The first award of the achievement is marked as deleted; the row stays until the next purge.\<close>

definition delete_pending_award :: "int \<Rightarrow> store \<Rightarrow> store" where
  "delete_pending_award i st = (case find (\<lambda>a. aw_achievement a = i) (get_pending_awards st) of
       None \<Rightarrow> st | Some a \<Rightarrow> update_pending_award (a\<lparr>aw_status := STATUS_DELETED\<rparr>) st)"

section \<open>Deleting an award\<close>

lemma delete_pending_award_cases:
  assumes wf: "wf_store st"
  obtains (absent) "delete_pending_award i st = st" "i \<notin> aw_achievement ` set (pending_awards st)"
  | (marked) a where "a \<in> set (pending_awards st)" "aw_achievement a = i"
      "pending_awards (delete_pending_award i st) =
         map (\<lambda>y. if y = a then a\<lparr>aw_status := STATUS_DELETED\<rparr> else y) (pending_awards st)"
      "wf_store (delete_pending_award i st)"
proof (cases "find (\<lambda>a. aw_achievement a = i) (get_pending_awards st)")
  case None
  then have "i \<notin> aw_achievement ` set (pending_awards st)"
    unfolding find_None_iff by auto
  then show ?thesis using None absent by (simp add: delete_pending_award_def)
next
  case (Some a)
  then have a: "a \<in> set (pending_awards st)" "aw_achievement a = i"
    by (auto simp: find_Some_iff dest: nth_mem)
  show ?thesis
    using marked [OF a] update_pending_award_at [OF wf a(1), of "a\<lparr>aw_status := STATUS_DELETED\<rparr>"] wf_update [OF wf] Some
    by (simp add: delete_pending_award_def)
qed

lemma status_change_mark: "status_change (\<lambda>y. if y = a then a\<lparr>aw_status := STATUS_DELETED\<rparr> else y)"
  by (simp add: status_change_def chain_view_def award_statuses_def)

lemma pending_after_delete:
  assumes wf: "wf_store st"
  shows "\<exists>f. get_pending_awards (delete_pending_award i st) = map f (get_pending_awards st) \<and>
    (\<forall>a \<in> set (pending_awards st). f a = (if aw_achievement a = i then a\<lparr>aw_status := STATUS_DELETED\<rparr> else a))"
proof (cases rule: delete_pending_award_cases [OF wf, of i])
  case 1
  then show ?thesis by (intro exI [of _ id]) auto
next
  case (2 a)
  let ?f = "\<lambda>y. if y = a then a\<lparr>aw_status := STATUS_DELETED\<rparr> else y"
  have "get_pending_awards (delete_pending_award i st) = map ?f (get_pending_awards st)"
    unfolding get_pending_awards_def 2(3) by (rule sort_key_map) simp
  moreover have "?f b = (if aw_achievement b = i then b\<lparr>aw_status := STATUS_DELETED\<rparr> else b)"
    if "b \<in> set (pending_awards st)" for b
    using that 2(1, 2) wf_storeD(3) [OF wf] by (auto simp: distinct_map dest: inj_onD)
  ultimately show ?thesis by blast
qed

text \<open>The list a user sees names the pending awards of the queue in its order; once an award is deleted
  the list has every other one, still in order, and the row itself stays in the queue.\<close>

theorem deleted_award_leaves_list:
  assumes wf: "wf_store st" and list: "list_pending_awards (delete_pending_award i st) = Inr es"
  shows "map (\<lambda>e. (ae_achievement e, ae_queued_at e)) es = map (\<lambda>a. (aw_achievement a, aw_queued_at a))
      (filter (\<lambda>a. aw_status a = STATUS_PENDING \<and> aw_achievement a \<noteq> i) (get_pending_awards st)) \<and>
    map aw_achievement (get_pending_awards (delete_pending_award i st)) = map aw_achievement (get_pending_awards st)"
proof -
  obtain f where f: "get_pending_awards (delete_pending_award i st) = map f (get_pending_awards st)"
    "\<forall>a \<in> set (get_pending_awards st). f a = (if aw_achievement a = i then a\<lparr>aw_status := STATUS_DELETED\<rparr> else a)"
    using pending_after_delete [OF wf, of i] unfolding set_get_pending [symmetric] by blast
  have view: "(\<lambda>e. (ae_achievement e, ae_queued_at e)) \<circ> award_entry_of index = (\<lambda>a. (aw_achievement a, aw_queued_at a))"
    for index by (simp add: award_entry_of_def Let_def fun_eq_iff)
  have marked: "filter (\<lambda>a. aw_status a = STATUS_PENDING) (map f as) =
      filter (\<lambda>a. aw_status a = STATUS_PENDING \<and> aw_achievement a \<noteq> i) as \<and> map aw_achievement (map f as) = map aw_achievement as"
    if "\<forall>a \<in> set as. f a = (if aw_achievement a = i then a\<lparr>aw_status := STATUS_DELETED\<rparr> else a)" for as
    using that
  proof (induction as)
    case (Cons a as)
    then show ?case using statuses_distinct(1) [THEN not_sym] by simp
  qed simp
  show ?thesis using list marked [OF f(2)] view
    by (auto simp: list_pending_awards_def Let_def res_simps f(1) simp del: map_map) (simp add: comp_def)
qed

theorem deleted_award_leaves_list_witness:
  "map ae_achievement (case list_pending_awards (delete_pending_award 7
     (sample_store\<lparr>pending_awards := [sample_award\<lparr>aw_status := STATUS_PENDING\<rparr>]\<rparr>)) of Inr es \<Rightarrow> es | Inl _ \<Rightarrow> []) = []"
proof -
  let ?st = "sample_store\<lparr>pending_awards := [sample_award\<lparr>aw_status := STATUS_PENDING\<rparr>]\<rparr>"
  have wf: "wf_store ?st"
    by (simp add: sample_store_def wf_store_def empty_store_def sample_award_def WARNING_ACHIEVEMENT_ID_def)
  show ?thesis
  proof (cases "list_pending_awards (delete_pending_award 7 ?st)")
    case (Inr es)
    from deleted_award_leaves_list [OF wf Inr] have "map (\<lambda>e. (ae_achievement e, ae_queued_at e)) es = []"
      by (simp add: get_pending_awards_def sample_award_def)
    then show ?thesis using Inr by simp
  qed simp
qed

end
