(* ===== verification/Server_Invariants.thy ===== *)
theory Server_Invariants
  imports Pending_List
begin

text \<open>
  Invariants of the running server.  A property of stores that survives every write of the response cache
  and every queued award survives every request; the locale proves this once for all handlers.  It is
  interpreted twice: for the integrity of every single award, and for the presence of one award.
\<close>

section \<open>Handlers keep an invariant of the store\<close>

definition keeps :: "(store \<Rightarrow> bool) \<Rightarrow> 'a op \<Rightarrow> bool" where
  "keeps I m = (\<forall>s r s'. I (sv_store s) \<longrightarrow> m s = (r, s') \<longrightarrow> I (sv_store s'))"

lemma keepsD: "keeps I m \<Longrightarrow> I (sv_store s) \<Longrightarrow> m s = (r, s') \<Longrightarrow> I (sv_store s')"
  by (simp add: keeps_def)

lemma keeps_pure: "(\<And>s. sv_store (snd (m s)) = sv_store s) \<Longrightarrow> keeps I m"
  unfolding keeps_def by (metis snd_conv)

lemma keeps_ret [pres_intros]: "keeps I (ret x)"
  by (rule keeps_pure) (simp add: ret_def)

lemma keeps_lift [pres_intros]: "keeps I (lift_res r)"
  by (rule keeps_pure) (simp add: lift_res_def)

lemma keeps_get_store [pres_intros]: "keeps I get_store"
  by (rule keeps_pure) (simp add: get_store_def)

lemma keepsI: "(\<And>s r s'. I (sv_store s) \<Longrightarrow> m s = (r, s') \<Longrightarrow> I (sv_store s')) \<Longrightarrow> keeps I m"
  by (simp add: keeps_def)

lemma keeps_bind [pres_intros]:
  assumes m: "keeps I m" and k: "\<And>x. keeps I (k x)" shows "keeps I (bind_op m k)"
proof (rule keepsI)
  fix s r s'
  assume I: "I (sv_store s)" and run: "bind_op m k s = (r, s')"
  obtain q s1 where q: "m s = (q, s1)" by fastforce
  have "I (sv_store s1)" by (rule keepsD [OF m I q])
  then show "I (sv_store s')" using run q keepsD [OF k] by (cases q) (auto simp: bind_op_def)
qed

lemma keeps_if [pres_intros]: "(b \<Longrightarrow> keeps I m) \<Longrightarrow> (\<not> b \<Longrightarrow> keeps I n) \<Longrightarrow> keeps I (if b then m else n)"
  by simp

lemma keeps_option [pres_intros]:
  "keeps I m \<Longrightarrow> (\<And>x. keeps I (k x)) \<Longrightarrow> keeps I (case v of None \<Rightarrow> m | Some x \<Rightarrow> k x)"
  by (simp split: option.split)

lemma keeps_upstream [pres_intros]:
  "(\<And>a b c d e. keeps I (f a b c d e)) \<Longrightarrow> (\<And>a b c d e. keeps I (g a b c d e)) \<Longrightarrow> keeps I h \<Longrightarrow>
   keeps I (case u of UpSuccess a b c d e \<Rightarrow> f a b c d e | UpHttpError a b c d e \<Rightarrow> g a b c d e | UpNetworkError \<Rightarrow> h)"
  by (simp split: upstream.split)

lemma keeps_prod [pres_intros]: "(\<And>a b. keeps I (f a b)) \<Longrightarrow> keeps I (case p of (a, b) \<Rightarrow> f a b)"
  by (simp split: prod.split)

lemma keeps_on_store:
  "(\<And>clock st st'. I st \<Longrightarrow> f clock st = Inr st' \<Longrightarrow> I st') \<Longrightarrow> keeps I (on_store f)"
  unfolding keeps_def on_store_def by (auto split: sum.splits)

lemma keeps_is_online [pres_intros]: "keeps I (is_online env)"
  by (rule keeps_pure) (simp add: is_online_def bind_op_def refresh_reachability_def Let_def split: prod.split)

lemma keeps_forward [pres_intros]: "keeps I (forward_to_upstream_result env m p b hs)"
  by (rule keeps_pure) (simp add: forward_to_upstream_result_def Let_def split: fwd_answer.split)

lemma keeps_images [pres_intros]: "keeps I (schedule_images ds a g)"
  by (rule keeps_pure) (simp add: schedule_images_def)

lemma keeps_offline_request [pres_intros]: "keeps I (handle_offline_request env p b a)"
  by (rule keeps_pure) (simp add: handle_offline_request_def)

lemma keeps_start_session [pres_intros]: "keeps I (handle_start_session p b)"
  by (rule keeps_pure) (simp add: handle_start_session_def Let_def)

lemma keeps_schedule_refresh [pres_intros]: "keeps I (schedule_post_award_refresh p b hs)"
  by (rule keeps_pure) (simp add: schedule_post_award_refresh_def)

lemma keeps_note_game [pres_intros]: "keeps I (note_game_request p b)"
  by (rule keeps_pure) (simp add: note_game_request_def)

lemma keeps_offline_and [pres_intros]: "keeps I (offline_and env b)"
  unfolding offline_and_def by (intro pres_intros)

lemma keeps_image [pres_intros]: "keeps I (serve_image env path headers)"
  unfolding serve_image_def forward_static_asset_def Let_def by (intro pres_intros)

lemma keeps_rewrite [pres_intros]: "keeps I (rewrite_and_schedule env action body agent game)"
  unfolding rewrite_and_schedule_def by (intro pres_intros)

lemma refresh_unlocks_queue:
  assumes "refresh_unlocks_from_start_session g u b clock st = Inr st'" shows "same_queue st st'"
proof (cases "loads b")
  case (Inr payload)
  show ?thesis
  proof (cases "jget ''Unlocks'' JNull payload")
    case us: (Inr v)
    show ?thesis
      using assms Inr us same_queue_upsert by (cases v) (auto simp: refresh_unlocks_from_start_session_def)
  qed (use assms Inr in \<open>simp add: refresh_unlocks_from_start_session_def\<close>)
qed (use assms in \<open>simp add: refresh_unlocks_from_start_session_def\<close>)

locale store_invariant =
  fixes I :: "store \<Rightarrow> bool" and fe :: flush_env
  assumes same: "I st \<Longrightarrow> same_queue st st' \<Longrightarrow> I st'"
    and queue: "I st \<Longrightarrow> queue_award_store fe clock path body headers st = Inr st' \<Longrightarrow> I st'"
begin

lemma put_keeps: "keeps I (put_cache key body)"
  unfolding put_cache_def by (rule keeps_on_store) (rule same [OF _ same_queue_upsert])

lemma unlocks_keeps:
  "keeps I (on_store (\<lambda>clock st. bind_res (cache_unlocks net host clock g c ua st) (\<lambda>(_, st1). Inr st1)))"
  by (rule keeps_on_store) (auto simp: res_simps intro: same cache_unlocks_queue)

lemma session_keeps:
  "keeps I (on_store (\<lambda>clock st. bind_res (cache_session clock g c st) (\<lambda>(_, st1). Inr st1)))"
  by (rule keeps_on_store) (auto simp: res_simps intro: same cache_session_queue)

lemma start_session_keeps: "keeps I (store_start_session path body response)"
proof -
  have "keeps I (on_store (refresh_unlocks_from_start_session g u b))" for g u b
    by (rule keeps_on_store) (rule same [OF _ refresh_unlocks_queue])
  then show ?thesis unfolding store_start_session_def Let_def by (intro pres_intros put_keeps)
qed

lemma activity_keeps: "keeps I (record_game_activity path body)"
  unfolding keeps_def record_game_activity_def
  by (auto simp: record_game_played_def res_simps Let_def split: option.splits sum.splits if_splits
      intro: same same_queue_upsert)

lemma note_keeps: "keeps I (note_request path body headers action)"
  unfolding note_request_def Let_def by (intro pres_intros put_keeps activity_keeps)

lemma store_response_keeps: "keeps I (store_response env path body action headers response)"
  unfolding store_response_def Let_def by (intro pres_intros put_keeps unlocks_keeps)

lemma online_keeps: "keeps I (handle_online_request env method path body action headers)"
  unfolding handle_online_request_def by (intro pres_intros start_session_keeps store_response_keeps)

lemma login_keeps: "keeps I (serve_login env method path body action headers)"
  unfolding serve_login_def Let_def by (intro pres_intros put_keeps)

lemma award_keeps:
  assumes "pe_flush env = fe" shows "keeps I (handle_award_request env path body headers)"
proof -
  have "keeps I (queue_offline_award env path body headers)"
    unfolding queue_offline_award_def queue_award_def
    by (intro pres_intros keeps_on_store) (use queue assms in blast)
  then show ?thesis unfolding handle_award_request_def by (intro pres_intros)
qed

lemma process_keeps:
  assumes "pe_flush env = fe" shows "keeps I (process_proxy_request env method path body headers)"
  unfolding process_proxy_request_def serve_rest_def forward_to_upstream_def Let_def
  by (intro pres_intros note_keeps award_keeps [OF assms] login_keeps online_keeps)

lemma request_keeps:
  assumes "pe_flush env = fe" shows "keeps I (handle_request env client method len path body headers)"
  unfolding handle_request_def by (intro pres_intros process_keeps [OF assms])

lemma refresh_keeps: "keeps I (refresh_caches_after_online_award env job)"
proof -
  have asleep: "keeps I (\<lambda>s0. bind_op m k (s0\<lparr>sv_net := sleep d (sv_net s0)\<rparr>))" if "keeps I (bind_op m k)"
    for m :: "unit op" and k :: "unit \<Rightarrow> unit op" and d
  proof (rule keepsI)
    fix s r s'
    assume "I (sv_store s)" "bind_op m k (s\<lparr>sv_net := sleep d (sv_net s)\<rparr>) = (r, s')"
    then show "I (sv_store s')"
      using keepsD [OF that, of "s\<lparr>sv_net := sleep d (sv_net s)\<rparr>"] by simp
  qed
  show ?thesis
    unfolding refresh_caches_after_online_award_def Let_def
    by (intro pres_intros asleep unlocks_keeps session_keeps)
qed

end

section \<open>Every award is intact in itself\<close>

definition self_intact :: "(string \<Rightarrow> string) \<Rightarrow> (string \<Rightarrow> string) \<Rightarrow> award \<Rightarrow> bool" where
  "self_intact sha sig a = award_intact sha sig (aw_prev_hash a) a"

definition queue_intact :: "(string \<Rightarrow> string) \<Rightarrow> (string \<Rightarrow> string) \<Rightarrow> store \<Rightarrow> bool" where
  "queue_intact sha sig st = (wf_store st \<and> (\<forall>a \<in> set (pending_awards st). self_intact sha sig a))"

lemma award_intact_self: "award_intact sha sig prev a \<Longrightarrow> self_intact sha sig a"
  by (auto simp: self_intact_def award_intact_def)

lemma self_intact_chain_view: "self_intact sha sig (chain_view a) = self_intact sha sig a"
  by (simp add: self_intact_def award_intact_def)

lemma self_intact_view: "chain_view a = chain_view b \<Longrightarrow> self_intact sha sig a = self_intact sha sig b"
  by (metis self_intact_chain_view)

lemma self_intact_id [simp]: "self_intact sha sig (a\<lparr>aw_id := i\<rparr>) = self_intact sha sig a"
  by (simp add: self_intact_def award_intact_def canonical_payload_def)

lemma upsert_pending_award_elems:
  assumes "wf_store st" "x \<in> set (pending_awards (upsert_pending_award d st))"
  shows "x \<in> set (pending_awards st) \<or> (\<exists>i. x = award_of i d)"
proof (cases "ad_achievement d = WARNING_ACHIEVEMENT_ID")
  case False
  then show ?thesis
    using assms(2) by (auto simp: upsert_pending_award_list [OF assms(1)] split: if_splits)
qed (use assms in \<open>simp add: upsert_pending_award_def\<close>)

lemma queue_intact_update:
  "queue_intact sha sig st \<Longrightarrow> self_intact sha sig a \<Longrightarrow> queue_intact sha sig (update_pending_award a st)"
proof -
  assume I: "queue_intact sha sig st" and a: "self_intact sha sig a"
  have wf: "wf_store st" using I by (simp add: queue_intact_def)
  have "self_intact sha sig x" if "x \<in> set (pending_awards (update_pending_award a st))" for x
    using upsert_pending_award_elems [OF wf that [unfolded update_pending_award_def]] I a
    by (elim disjE exE) (simp_all add: queue_intact_def award_of_dict_id)
  then show ?thesis using wf_update [OF wf] by (simp add: queue_intact_def)
qed

lemma queue_intact_updates:
  "queue_intact sha sig st \<Longrightarrow> \<forall>a \<in> set as. self_intact sha sig a \<Longrightarrow>
   queue_intact sha sig (fold update_pending_award as st)"
  by (induction as arbitrary: st) (simp_all add: queue_intact_update)

lemma intact_fault:
  "\<forall>a \<in> set as. self_intact sha sig a \<Longrightarrow> verify_from sha sig i prev as = Some (f, k) \<Longrightarrow> f = LinkBroken"
  by (induction as arbitrary: i prev) (auto simp: self_intact_def award_intact_def split: if_splits)

lemma verified_self_intact:
  "verify_from sha sig i prev as = None \<Longrightarrow> \<forall>a \<in> set as. self_intact sha sig a"
  by (induction as arbitrary: i prev) (auto simp: verify_from_Cons(1) simp del: verify_from.simps intro: award_intact_self)

text \<open>A queue of awards that are intact in themselves is always accepted by the check, after a repair
  where a link is broken.\<close>

lemma queue_intact_checked:
  assumes inv: "queue_intact (fe_sha env) (fe_sign env) st"
  shows "\<exists>st1. checked_queue env st = Some (get_pending_awards st1, st1) \<and> queue_intact (fe_sha env) (fe_sign env) st1"
proof (cases "verify_chain (fe_sha env) (fe_sign env) (get_pending_awards st)")
  case None
  then show ?thesis using inv by (intro exI [of _ st]) (simp add: checked_queue_intact)
next
  case (Some p)
  let ?as = "get_pending_awards st"
  have self: "\<forall>a \<in> set ?as. self_intact (fe_sha env) (fe_sign env) a" using inv by (simp add: queue_intact_def)
  obtain f k where p: "p = (f, k)" by (cases p)
  have f: "f = LinkBroken" using intact_fault [OF self] Some p by (simp add: verify_chain_def)
  have "repair_pending_chain (fe_sha env) (fe_sign env) (fe_clock env) ?as \<noteq> None"
    using self unfolding repair_pending_chain_def repair_from_None_iff by (auto simp: self_intact_def award_intact_def)
  then obtain bs where bs: "repair_pending_chain (fe_sha env) (fe_sign env) (fe_clock env) ?as = Some bs" by blast
  then have ok: "verify_chain (fe_sha env) (fe_sign env) bs = None"
    unfolding repair_pending_chain_def verify_chain_def by (blast dest: repair_from_props)
  then have "queue_intact (fe_sha env) (fe_sign env) (fold update_pending_award bs st)"
    by (intro queue_intact_updates [OF inv]) (auto simp: verify_chain_def dest: verified_self_intact)
  then show ?thesis using Some p f bs ok by (simp add: checked_queue_def Let_def)
qed

lemma queue_intact_award:
  assumes "queue_intact (fe_sha fe) (fe_sign fe) st" "queue_award_store fe clock path body headers st = Inr st'"
  shows "queue_intact (fe_sha fe) (fe_sign fe) st'"
  using assms(2)
proof (cases rule: queue_award_store_cases)
  case (queued a)
  have wf: "wf_store st" using assms(1) by (simp add: queue_intact_def)
  have "self_intact (fe_sha fe) (fe_sign fe) x" if "x \<in> set (pending_awards st')" for x
    using upsert_pending_award_elems [OF wf that [unfolded queued(3)]] assms(1) award_intact_self [OF queued_award_intact]
    by (elim disjE exE) (simp_all add: queue_intact_def)
  then show ?thesis using wf_upsert_pending_award [OF wf] queued(3) by (simp add: queue_intact_def)
qed (use assms in simp)

lemma queue_intact_same: "queue_intact sha sig st \<Longrightarrow> same_queue st st' \<Longrightarrow> queue_intact sha sig st'"
  by (simp add: queue_intact_def same_queue_def)

lemma queue_intact_change:
  "queue_intact sha sig st \<Longrightarrow> wf_store st' \<Longrightarrow> pending_awards st' = map f (pending_awards st) \<Longrightarrow> status_change f \<Longrightarrow>
   queue_intact sha sig st'"
proof -
  assume I: "queue_intact sha sig st" and st': "wf_store st'" "pending_awards st' = map f (pending_awards st)"
    and f: "status_change f"
  have "self_intact sha sig (f a) = self_intact sha sig a" for a
    by (rule self_intact_view) (use f in \<open>simp add: status_change_def\<close>)
  then show ?thesis using I st' by (simp add: queue_intact_def)
qed

lemma queue_intact_purge: "queue_intact sha sig st \<Longrightarrow> queue_intact sha sig (purge_processed_awards_if_safe st)"
proof -
  assume I: "queue_intact sha sig st"
  have "set (pending_awards (purge_processed_awards_if_safe st)) \<subseteq> set (pending_awards st)"
    by (auto simp: purge_processed_awards_if_safe_def delete_pending_awards_by_statuses_def)
  moreover have "wf_store (purge_processed_awards_if_safe st)"
    using I by (simp add: purge_processed_awards_if_safe_def wf_award_deletes queue_intact_def)
  ultimately show ?thesis using I by (auto simp: queue_intact_def)
qed

interpretation intact: store_invariant "queue_intact (fe_sha fe) (fe_sign fe)" fe for fe
  by unfold_locales (fact queue_intact_same queue_intact_award)+

interpretation intact_flush: flush_invariant "queue_intact (fe_sha env) (fe_sign env)" env for env
proof unfold_locales
  show "wf_store st" if "queue_intact (fe_sha env) (fe_sign env) st" for st
    using that by (simp add: queue_intact_def)
qed (fact queue_intact_same queue_intact_change queue_intact_purge queue_intact_checked)+

section \<open>One award stays\<close>

definition queued_in :: "award \<Rightarrow> store \<Rightarrow> bool" where
  "queued_in x st = (wf_store st \<and> 0 < aw_achievement x \<and> x \<in> set (pending_awards st))"

lemma queued_in_award:
  assumes x: "queued_in x st" and run: "queue_award_store fe clock path body headers st = Inr st'"
  shows "queued_in x st'"
  using run
proof (cases rule: queue_award_store_cases)
  case (queued a)
  let ?d = "queued_award fe clock a path body headers (previous_hash st)"
  have wf: "wf_store st" and mem: "x \<in> set (pending_awards st)" and pos: "0 < aw_achievement x"
    using x by (simp_all add: queued_in_def)
  have other: "aw_achievement x \<noteq> a"
    using queued(2) pos imageI [OF mem, of aw_achievement] by (auto simp: pending_award_exists_iff)
  have "x \<in> set (pending_awards (upsert_pending_award ?d st))"
  proof (cases "a = WARNING_ACHIEVEMENT_ID")
    case False
    then show ?thesis using mem other by (force simp: upsert_pending_award_list [OF wf])
  qed (use mem in \<open>simp add: upsert_pending_award_def\<close>)
  then show ?thesis using pos wf_upsert_pending_award [OF wf] queued(3) by (simp add: queued_in_def)
qed (use x in simp)

interpretation present: store_invariant "queued_in x" fe for x fe
proof unfold_locales
  show "queued_in x st'" if "queued_in x st" "same_queue st st'" for st st'
    using that by (simp add: queued_in_def same_queue_def)
qed (fact queued_in_award)

section \<open>The server as a transition system\<close>

text \<open>A step that serves: a request, a refresh scheduled by an accepted award, a probe, or the passing of
  time.\<close>

inductive serve_step :: "(string \<Rightarrow> string) \<Rightarrow> (string \<Rightarrow> string) \<Rightarrow> server \<Rightarrow> server \<Rightarrow> bool"
  for sha :: "string \<Rightarrow> string" and sig :: "string \<Rightarrow> string" where
  Request: "fe_sha (pe_flush env) = sha \<Longrightarrow> fe_sign (pe_flush env) = sig \<Longrightarrow>
    handle_request env client verb len path body headers s = (r, s') \<Longrightarrow> serve_step sha sig s s'"
| Refresh: "job \<in> set (sv_refreshes s) \<Longrightarrow> refresh_caches_after_online_award env job s = (u, s') \<Longrightarrow>
    serve_step sha sig s s'"
| Probe: "refresh_reachability env force s = (b, s') \<Longrightarrow> serve_step sha sig s s'"
| Wait: "serve_step sha sig s (s\<lparr>sv_net := sleep d (sv_net s)\<rparr>)"

text \<open>Every step: a serving one, a flush, the deletion of an award, and the two sweeps of the cache.\<close>

inductive server_step :: "(string \<Rightarrow> string) \<Rightarrow> (string \<Rightarrow> string) \<Rightarrow> server \<Rightarrow> server \<Rightarrow> bool"
  for sha :: "string \<Rightarrow> string" and sig :: "string \<Rightarrow> string" where
  Serve: "serve_step sha sig s s' \<Longrightarrow> server_step sha sig s s'"
| Flush: "fe_sha (pe_flush env) = sha \<Longrightarrow> fe_sign (pe_flush env) = sig \<Longrightarrow> proxy_flush env s = (r, s') \<Longrightarrow>
    server_step sha sig s s'"
| Delete: "server_step sha sig s (s\<lparr>sv_store := delete_pending_award i (sv_store s)\<rparr>)"
| Clear: "server_step sha sig s (s\<lparr>sv_store := clear_cache (sv_store s)\<rparr>)"
| Evict: "server_step sha sig s (s\<lparr>sv_store := evict_cache_older_than t (sv_store s)\<rparr>)"

inductive_cases serve_stepE: "serve_step sha sig s s'"
inductive_cases server_stepE: "server_step sha sig s s'"

lemma serve_step_present: "serve_step sha sig s s' \<Longrightarrow> queued_in x (sv_store s) \<Longrightarrow> queued_in x (sv_store s')"
proof (induction rule: serve_step.induct)
  case (Request env client verb len path body headers s r s')
  then show ?case using keepsD [OF present.request_keeps [OF refl]] by blast
next
  case (Refresh job s env u s')
  then show ?case using keepsD [OF present.refresh_keeps] by blast
qed (auto simp: refresh_reachability_def Let_def split: prod.splits)

lemma serve_step_intact:
  "serve_step sha sig s s' \<Longrightarrow> queue_intact sha sig (sv_store s) \<Longrightarrow> queue_intact sha sig (sv_store s')"
proof (induction rule: serve_step.induct)
  case (Request env client verb len path body headers s r s')
  then show ?case using keepsD [OF intact.request_keeps [OF refl, of env]] by metis
next
  case (Refresh job s env u s')
  then show ?case
    using keepsD [OF intact.refresh_keeps [of "quiet_env\<lparr>fe_sha := sha, fe_sign := sig\<rparr>" env job]] by simp
qed (auto simp: refresh_reachability_def Let_def split: prod.splits)

lemma swept_queue:
  "pending_awards (clear_cache st) = pending_awards st"
  "pending_awards (evict_cache_older_than t st) = pending_awards st"
  by (simp_all add: clear_cache_def evict_cache_older_than_def)

lemma server_step_intact:
  "server_step sha sig s s' \<Longrightarrow> queue_intact sha sig (sv_store s) \<Longrightarrow> queue_intact sha sig (sv_store s')"
proof (induction rule: server_step.induct)
  case (Serve s s')
  then show ?case by (rule serve_step_intact)
next
  case (Flush env s r s')
  let ?env = "(pe_flush env)\<lparr>fe_clock := wall_now (sv_net s)\<rparr>"
  obtain q st where run: "flush_pending_awards ?env (sv_store s) = (q, st)" by fastforce
  then have "queue_intact (fe_sha ?env) (fe_sign ?env) st"
    using Flush by (intro intact_flush.flush [OF _ run]) simp
  then show ?case using Flush run by (auto simp: proxy_flush_def)
next
  case (Delete s i)
  then have wf: "wf_store (sv_store s)" by (simp add: queue_intact_def)
  show ?case
  proof (cases rule: delete_pending_award_cases [OF wf, of i])
    case (2 a)
    then show ?thesis using Delete queue_intact_change [OF _ 2(4, 3) status_change_mark] by simp
  qed (use Delete in simp)
next
  case (Clear s)
  then show ?case by (simp add: queue_intact_def wf_deletes swept_queue)
next
  case (Evict s t)
  then show ?case by (simp add: queue_intact_def wf_deletes swept_queue)
qed

lemma reachable_intact:
  "(server_step sha sig)\<^sup>*\<^sup>* s s' \<Longrightarrow> queue_intact sha sig (sv_store s) \<Longrightarrow> queue_intact sha sig (sv_store s')"
  by (induction rule: rtranclp_induct) (auto intro: server_step_intact)

definition fresh_server :: server where
  "fresh_server = \<lparr>sv_store = empty_store True,
     sv_net = \<lparr>mono = 1000, wall = 4000, last_request_at = 0, tracker = \<lparr>reachable = False, checked_at = 0\<rparr>,
       limiter = \<lparr>pause_end = 0, bg_depth = 0\<rparr>, usage_log = [], sent_at = []\<rparr>,
     sv_has_internet = False, sv_probes = 0, sv_last_written = Map.empty, sv_active_at = None, sv_images = [],
     sv_refreshes = []\<rparr>"

definition dark_env :: proxy_env where
  "dark_env = \<lparr>pe_upstream = \<lambda>_ _ _ _. FwdRefused, pe_ifaces = Some [], pe_heads = \<lambda>_ _. None, pe_flush = quiet_env,
     pe_base = ''http://127.0.0.1:8080'', pe_media_host = ''https://media'', pe_images = False,
     pe_asset = \<lambda>_. None, pe_media = \<lambda>_. None\<rparr>"

text \<open>From an empty store, whatever requests come, whatever the upstream server answers, however
  often a flush, a refresh, a deletion or a sweep runs in between, the store stays well formed and the
  check never rejects the queue: after a repair of broken links at most, it has a queue to send.\<close>

theorem reachable_queue_accepted:
  assumes "sv_store s0 = empty_store sqlite" "(server_step sha sig)\<^sup>*\<^sup>* s0 s"
    and "fe_sha env = sha" "fe_sign env = sig"
  shows "wf_store (sv_store s) \<and> checked_queue env (sv_store s) \<noteq> None"
proof -
  have "queue_intact sha sig (sv_store s0)" by (simp add: assms(1) queue_intact_def) (simp add: empty_store_def)
  then have "queue_intact (fe_sha env) (fe_sign env) (sv_store s)"
    using reachable_intact [OF assms(2)] assms(3, 4) by simp
  then show ?thesis using queue_intact_checked [of env "sv_store s"] unfolding queue_intact_def by blast
qed

theorem reachable_queue_accepted_witness:
  "checked_queue quiet_env (clear_cache (empty_store True)) \<noteq> None"
proof -
  let ?s = "fresh_server\<lparr>sv_store := clear_cache (sv_store fresh_server)\<rparr>"
  have "(server_step (fe_sha quiet_env) (fe_sign quiet_env))\<^sup>*\<^sup>* fresh_server ?s"
    by (rule r_into_rtranclp) (rule server_step.Clear)
  moreover have "sv_store fresh_server = empty_store True" by (simp add: fresh_server_def)
  ultimately show ?thesis using reachable_queue_accepted [of fresh_server True _ _ ?s quiet_env] by simp
qed

definition entry_hash :: "flush_env \<Rightarrow> string \<Rightarrow> string \<Rightarrow> int \<Rightarrow> string" where
  "entry_hash fe path body t = fe_sha fe (''0|'' @ path @ ''|'' @ body @ ''|'' @ str_of_int t)"

lemma queue_unnumbered:
  "award_param path body = Inr 0 \<Longrightarrow> queue_award_store fe t path body hs st =
     Inr (upsert_pending_award (queued_award fe t 0 path body hs (previous_hash st)) st)"
  by (simp add: queue_award_store_def)

lemma str_of_int_0: "str_of_int 0 = ''0''"
  by code_simp

lemma entry_fields:
  "aw_achievement (award_of i (queued_award fe t 0 path body hs prev)) = 0"
  "aw_body (award_of i (queued_award fe t 0 path body hs prev)) = body"
  "aw_payload_hash (award_of i (queued_award fe t 0 path body hs prev)) = entry_hash fe path body t"
  "aw_prev_hash (award_of i (queued_award fe t 0 path body hs prev)) = prev"
  by (simp_all add: award_of_def queued_award_def entry_hash_def Let_def str_of_int_0)



text \<open>C9: a queued award of an achievement with a positive number stays in the queue as it is, whatever requests,
  refreshes and probes follow: only a flush or its deletion takes it out of the queue or writes it again.\<close>

theorem serving_keeps_award:
  assumes "(serve_step sha sig)\<^sup>*\<^sup>* s s'" "wf_store (sv_store s)"
    and "x \<in> set (pending_awards (sv_store s))" "0 < aw_achievement x"
  shows "x \<in> set (pending_awards (sv_store s'))"
proof -
  have "queued_in x (sv_store s')"
    using assms(1)
  proof (induction rule: rtranclp_induct)
    case base
    then show ?case using assms by (simp add: queued_in_def)
  next
    case (step y z)
    then show ?case using serve_step_present by blast
  qed
  then show ?thesis by (simp add: queued_in_def)
qed

text \<open>A request that queues the award of another achievement.\<close>

definition award_queued :: server where
  "award_queued = fresh_server\<lparr>sv_store := (empty_store True)\<lparr>pending_awards := [sample_award], next_award_id := 9\<rparr>,
     sv_net := (sv_net fresh_server)\<lparr>wall := - 992\<rparr>\<rparr>"

theorem serving_keeps_award_witness:
  "\<exists>r s'. handle_request dark_env ''127.0.0.1'' ''POST'' 22 ''/dorequest.php'' ''r=awardachievement&a=9'' [] award_queued = (r, s') \<and>
     sample_award \<in> set (pending_awards (sv_store s')) \<and> map aw_achievement (pending_awards (sv_store s')) = [7, 9]"
proof -
  obtain r s' where run: "handle_request dark_env ''127.0.0.1'' ''POST'' 22 ''/dorequest.php'' ''r=awardachievement&a=9'' [] award_queued = (r, s')"
    by fastforce
  have "map aw_achievement (pending_awards (sv_store (snd (handle_request dark_env ''127.0.0.1'' ''POST'' 22 ''/dorequest.php'' ''r=awardachievement&a=9'' [] award_queued)))) = [7, 9]"
    by code_simp
  moreover have "(serve_step (fe_sha quiet_env) (fe_sign quiet_env))\<^sup>*\<^sup>* award_queued s'"
    by (rule r_into_rtranclp) (rule serve_step.Request [OF _ _ run]; simp add: dark_env_def)
  moreover have "wf_store (sv_store award_queued)"
    by (simp add: award_queued_def wf_store_def empty_store_def sample_award_def WARNING_ACHIEVEMENT_ID_def)
  moreover have "sample_award \<in> set (pending_awards (sv_store award_queued))" "0 < aw_achievement sample_award"
    by (simp_all add: award_queued_def sample_award_def)
  ultimately show ?thesis using run serving_keeps_award [of _ _ award_queued s' sample_award] by auto
qed

end
