(* ===== verification/Proxy_Laws.thy ===== *)
theory Proxy_Laws
  imports Server_Invariants
begin

text \<open>
  What a client of the proxy can rely on: hardcore awards are refused, other awards are answered by the
  server or queued, the unlocks shown offline contain the queued ones, and what was cached online is
  what is served offline.
\<close>

lemma bind_op_Inr: "m s = (Inr x, s1) \<Longrightarrow> bind_op m k s = k x s1"
  by (simp add: bind_op_def)

lemma bind_op_Inr_iff:
  "bind_op m k s = (Inr y, s') \<longleftrightarrow> (\<exists>x s1. m s = (Inr x, s1) \<and> k x s1 = (Inr y, s'))"
  by (auto simp: bind_op_def split: prod.splits sum.splits)

lemma ret_iff: "ret x s = (Inr y, s') \<longleftrightarrow> y = x \<and> s' = s"
  by (auto simp: ret_def)

lemma lift_res_iff: "lift_res r s = (Inr y, s') \<longleftrightarrow> r = Inr y \<and> s' = s"
  by (auto simp: lift_res_def)

lemma get_store_iff: "get_store s = (Inr y, s') \<longleftrightarrow> y = sv_store s \<and> s' = s"
  by (auto simp: get_store_def)

lemma on_store_iff:
  "on_store f s = (Inr u, s') \<longleftrightarrow>
     (\<exists>st. f (wall_now (sv_net s)) (sv_store s) = Inr st \<and> s' = s\<lparr>sv_store := st\<rparr>)"
  by (auto simp: on_store_def split: sum.splits)

lemmas op_iff = bind_op_Inr_iff ret_iff lift_res_iff get_store_iff on_store_iff

lemma is_online_store: "is_online env s = (r, s') \<Longrightarrow> sv_store s' = sv_store s"
  by (auto simp: is_online_def bind_op_def refresh_reachability_def Let_def split: prod.splits)

lemma is_online_total: "\<exists>b s'. is_online env s = (Inr b, s')"
  by (auto simp: is_online_def bind_op_def refresh_reachability_def Let_def split: prod.split)

lemma forward_store: "forward_to_upstream_result env m p b hs s = (r, s') \<Longrightarrow> sv_store s' = sv_store s"
  by (auto simp: forward_to_upstream_result_def Let_def split: fwd_answer.splits if_splits)

lemma forward_total: "\<exists>u s'. forward_to_upstream_result env m p b hs s = (Inr u, s')"
  by (auto simp: forward_to_upstream_result_def Let_def split: fwd_answer.split)

section \<open>Hardcore awards\<close>

lemma agent_key_plain: "\<not> is_game_meta_key key_user_agent"
  by (simp add: is_game_meta_key_def key_defs)

lemma note_request_award:
  assumes "action_in action AWARD_ACTIONS"
  shows "\<exists>s'. note_request path body headers action s = (Inr (), s') \<and> sv_net s' = sv_net s \<and>
    pending_awards (sv_store s') = pending_awards (sv_store s) \<and> sv_refreshes s' = sv_refreshes s"
proof -
  have no_play: "\<not> action_in action last_played_actions"
    using assms by (auto simp: action_in_def AWARD_ACTIONS_def last_played_actions_def split: option.splits)
  obtain st where st: "upsert_cache (wall_now (sv_net s)) key_user_agent (or_str (header_agent headers) []) None None (sv_store s) = Inr st"
    using upsert_plain_total [OF agent_key_plain] by blast
  have "put_cache key_user_agent (or_str (header_agent headers) []) s = (Inr (), s\<lparr>sv_store := st\<rparr>)"
    using st by (simp add: put_cache_def on_store_def)
  then show ?thesis
    using no_play upsert_fields(2) [OF st]
    by (auto simp: note_request_def Let_def bind_op_def ret_def note_game_request_def)
qed

text \<open>An award of a hardcore session is refused with the status 403 whether the server is online or
  not: nothing is queued, nothing is sent and no refresh is scheduled.\<close>

theorem hardcore_award_refused:
  assumes "\<not> is_static_asset_request path" "action_in (extract_action path body) AWARD_ACTIONS"
    and "is_hardcore_request path body"
  shows "\<exists>s'. process_proxy_request env method path body headers s =
      (Inr (error_json 403 ''hardcore_not_supported''), s') \<and>
    pending_awards (sv_store s') = pending_awards (sv_store s) \<and> sv_net s' = sv_net s \<and>
    sv_refreshes s' = sv_refreshes s"
  using note_request_award [OF assms(2), of path body headers s] assms
  by (auto simp: process_proxy_request_def Let_def bind_op_def handle_award_request_def ret_def)

theorem hardcore_award_refused_witness:
  "\<exists>s'. process_proxy_request dark_env ''POST'' ''/dorequest.php'' ''r=awardachievement&a=7&h=1'' [] fresh_server =
      (Inr (error_json 403 ''hardcore_not_supported''), s') \<and> pending_awards (sv_store s') = []"
proof -
  have "\<not> is_static_asset_request ''/dorequest.php''"
    "action_in (extract_action ''/dorequest.php'' ''r=awardachievement&a=7&h=1'') AWARD_ACTIONS"
    "is_hardcore_request ''/dorequest.php'' ''r=awardachievement&a=7&h=1''" by code_simp+
  from hardcore_award_refused [OF this, of dark_env "''POST''" "[]" fresh_server]
  obtain s' where "process_proxy_request dark_env ''POST'' ''/dorequest.php'' ''r=awardachievement&a=7&h=1'' [] fresh_server =
      (Inr (error_json 403 ''hardcore_not_supported''), s')" "pending_awards (sv_store s') = pending_awards (sv_store fresh_server)"
    by blast
  moreover have "pending_awards (sv_store fresh_server) = []" by (simp add: fresh_server_def empty_store_def)
  ultimately show ?thesis by metis
qed

section \<open>Awards are answered or queued\<close>

lemma queue_award_store_result:
  assumes wf: "wf_store st" and a: "award_param path body = Inr a" "0 < a" "a \<noteq> WARNING_ACHIEVEMENT_ID"
    and run: "queue_award_store fe now path body headers st = Inr st'"
  shows "set (pending_awards st) \<subseteq> set (pending_awards st') \<and>
    (a \<in> aw_achievement ` set (pending_awards st') \<or> is_already_unlocked_award st path body = Inr True)"
proof (cases "pending_award_exists st a")
  case True
  then show ?thesis using run a by (simp add: queue_award_store_def pending_award_exists_iff)
next
  case False
  then obtain unlocked where u: "is_already_unlocked_award st path body = Inr unlocked"
    using run a by (auto simp: queue_award_store_def res_simps)
  show ?thesis
  proof (cases unlocked)
    case True
    then show ?thesis using run a u False by (simp add: queue_award_store_def)
  next
    case new: False
    have "pending_awards st' = pending_awards st @
        [award_of (award_id_for st (queued_award fe now a path body headers (previous_hash st)))
          (queued_award fe now a path body headers (previous_hash st))]"
      using run a u False new upsert_pending_award_list [OF wf, of "queued_award fe now a path body headers (previous_hash st)"]
      by (auto simp: queue_award_store_def pending_award_exists_iff)
    then show ?thesis by (auto simp: image_iff)
  qed
qed

lemma queue_offline_award_Inr:
  assumes "queue_offline_award env path body headers s = (Inr resp, s')" "award_param path body = Inr a"
  shows "\<exists>st. queue_award_store (pe_flush env) (wall_now (sv_net s)) path body headers (sv_store s) = Inr st \<and>
    s' = s\<lparr>sv_store := st\<rparr> \<and> resp = queued_reply (fetch_cached_score st path body) a"
  using assms by (auto simp: queue_offline_award_def queue_award_def op_iff)

text \<open>C10: an award that is not hardcore, of an achievement with a positive number other than that of the server's
  warning, is either answered by the upstream server, word for word and with nothing queued, or, offline or when
  the request fails, answered as queued: then it is in the queue, unless the cached unlocks of the user already
  contain it, and no queued award is lost.\<close>

theorem award_answered_or_queued:
  assumes wf: "wf_store (sv_store s)" and soft: "\<not> is_hardcore_request path body"
    and a: "award_param path body = Inr a" "0 < a" "a \<noteq> WARNING_ACHIEVEMENT_ID"
    and run: "handle_award_request env path body headers s = (Inr resp, s')"
  shows "(\<exists>u s1 s2. is_online env s = (Inr True, s1) \<and>
      forward_to_upstream_result env ''POST'' path body headers s1 = (Inr u, s2) \<and> u \<noteq> UpNetworkError \<and>
      resp = upstream_response u \<and> sv_store s' = sv_store s) \<or>
    ((\<exists>score. resp = queued_reply score a) \<and>
     set (pending_awards (sv_store s)) \<subseteq> set (pending_awards (sv_store s')) \<and>
     (a \<in> aw_achievement ` set (pending_awards (sv_store s')) \<or>
      is_already_unlocked_award (sv_store s) path body = Inr True))"
proof -
  obtain online s1 where on: "is_online env s = (Inr online, s1)" using is_online_total by blast
  have st1: "sv_store s1 = sv_store s" by (rule is_online_store [OF on])
  have queued: "?thesis" if q: "queue_offline_award env path body headers t = (Inr resp, s')" "sv_store t = sv_store s" for t
  proof -
    obtain st where st: "queue_award_store (pe_flush env) (wall_now (sv_net t)) path body headers (sv_store s) = Inr st"
      "s' = t\<lparr>sv_store := st\<rparr>" "resp = queued_reply (fetch_cached_score st path body) a"
      using queue_offline_award_Inr [OF q(1) a(1)] q(2) by auto
    then show ?thesis using queue_award_store_result [OF wf a st(1)] by auto
  qed
  show ?thesis
  proof (cases online)
    case False
    then show ?thesis using run soft on st1 queued [of s1] by (simp add: handle_award_request_def bind_op_Inr)
  next
    case True
    obtain u s2 where f: "forward_to_upstream_result env ''POST'' path body headers s1 = (Inr u, s2)"
      using forward_total by blast
    have st2: "sv_store s2 = sv_store s" using forward_store [OF f] st1 by simp
    show ?thesis
    proof (cases "u = UpNetworkError")
      case True
      then show ?thesis using run soft on \<open>online\<close> f st2 queued [of s2]
        by (simp add: handle_award_request_def bind_op_Inr)
    next
      case False
      have "resp = upstream_response u \<and> sv_store s' = sv_store s"
        using False run soft on \<open>online\<close> f st2
        by (cases u) (auto simp: handle_award_request_def bind_op_Inr op_iff schedule_post_award_refresh_def)
      moreover have "is_online env s = (Inr True, s1)" using on True by simp
      ultimately show ?thesis using f False by blast
    qed
  qed
qed

lemma dark_offline: "\<exists>s1. is_online dark_env fresh_server = (Inr False, s1) \<and> sv_store s1 = sv_store fresh_server"
proof -
  have "fst (is_online dark_env fresh_server) = Inr False" by code_simp
  then show ?thesis using is_online_store [of dark_env fresh_server] by (metis prod.collapse)
qed

theorem award_answered_or_queued_witness:
  "\<exists>resp s'. handle_award_request dark_env ''/dorequest.php'' ''r=awardachievement&a=7'' [] fresh_server = (Inr resp, s') \<and>
     (\<exists>score. resp = queued_reply score 7) \<and> 7 \<in> aw_achievement ` set (pending_awards (sv_store s'))"
proof -
  let ?p = "''/dorequest.php''" and ?b = "''r=awardachievement&a=7''"
  have soft: "\<not> is_hardcore_request ?p ?b" and a: "award_param ?p ?b = Inr 7" by code_simp+
  have not_yet: "is_already_unlocked_award (sv_store fresh_server) ?p ?b = Inr False" by code_simp
  have wf: "wf_store (sv_store fresh_server)" by (simp add: fresh_server_def)
  obtain s1 where on: "is_online dark_env fresh_server = (Inr False, s1)" "sv_store s1 = sv_store fresh_server"
    using dark_offline by blast
  have "\<exists>st. queue_award_store (pe_flush dark_env) now ?p ?b [] (sv_store s1) = Inr st" for now
    using a not_yet on(2) by (auto simp: queue_award_store_def)
  then obtain st where st: "queue_award_store (pe_flush dark_env) (wall_now (sv_net s1)) ?p ?b [] (sv_store s1) = Inr st"
    by blast
  have "queue_award dark_env ?p ?b [] s1 = (Inr True, s1\<lparr>sv_store := st\<rparr>)"
    by (simp add: queue_award_def op_iff st)
  then have "\<exists>resp s'. queue_offline_award dark_env ?p ?b [] s1 = (Inr resp, s')"
    using a by (simp add: queue_offline_award_def bind_op_def lift_res_def get_store_def ret_def)
  then obtain resp s' where "queue_offline_award dark_env ?p ?b [] s1 = (Inr resp, s')" by blast
  then have run: "handle_award_request dark_env ?p ?b [] fresh_server = (Inr resp, s')"
    using soft using on(1) by (simp add: handle_award_request_def bind_op_def)
  from award_answered_or_queued [OF wf soft a _ _ run] show ?thesis
    using run on not_yet by (auto simp: WARNING_ACHIEVEMENT_ID_def)
qed

section \<open>What was cached online is served offline\<close>

lemma schedule_images_store: "schedule_images ds agent game s = (r, s') \<Longrightarrow> sv_store s' = sv_store s \<and> sv_net s' = sv_net s"
  by (auto simp: schedule_images_def)

lemma rewrite_and_schedule_Inr:
  assumes "rewrite_and_schedule env action body agent game s = (Inr out, s')"
  obtains ds where "rewrite_image_urls action body (pe_base env) = Inr (out, ds)" "sv_store s' = sv_store s" "sv_net s' = sv_net s"
  using assms by (auto simp: rewrite_and_schedule_def op_iff schedule_images_store split: if_splits)

lemma unlocks_key_not_patch: "unlocks_key g u \<noteq> patch_key h w"
  by (simp add: unlocks_key_def patch_key_def key_defs)

lemma cache_unlocks_body:
  assumes "wf_store st" "cache_unlocks net host clock g c ua st = Inr (r, st')" "k \<noteq> unlocks_key (str_of_int g) (cr_user c)"
  shows "cache_body st' k = cache_body st k"
  using cache_unlocks_cases [OF assms(2)] assms upsert_body by auto

lemma patch_cache_key: "extract_action path body = Some ''patch'' \<Longrightarrow> \<exists>g u. cache_key_for_request path body = patch_key g u"
  by (auto simp: cache_key_for_request_def Let_def or_str_def)

lemma store_response_body:
  assumes wf: "wf_store (sv_store s)" and action: "action = extract_action path body"
    and run: "store_response env path body action headers response s = (Inr out, s')"
  shows "cache_body (sv_store s') (cache_key_for_request path body) = Some response \<and>
    (\<exists>ds. rewrite_image_urls action response (pe_base env) = Inr (out, ds))"
proof -
  let ?k = "cache_key_for_request path body"
  obtain s1 s2 u where rw: "\<exists>ds. rewrite_image_urls action response (pe_base env) = Inr (out, ds)"
      and s1: "sv_store s1 = sv_store s"
      and put: "put_cache ?k response s1 = (Inr u, s2)"
      and rest: "s' = s2 \<or> action = Some ''patch'' \<and> (\<exists>g user c clock ua r. cr_user c = user \<and>
        cache_unlocks (fe_net (pe_flush env)) (fe_host (pe_flush env)) clock g c ua (sv_store s2) = Inr (r, sv_store s'))"
    using run by (auto simp: store_response_def op_iff Let_def res_simps split: if_splits elim!: rewrite_and_schedule_Inr) fastforce+
  obtain t where t: "upsert_cache t ?k response None None (sv_store s) = Inr (sv_store s2)"
    using put s1 by (auto simp: put_cache_def op_iff)
  have body2: "cache_body (sv_store s2) ?k = Some response" using upsert_body [OF wf t] by simp
  have wf2: "wf_store (sv_store s2)" by (rule wf_upsert_cache [OF wf t])
  have "cache_body (sv_store s') ?k = Some response"
    using rest
  proof
    assume "s' = s2" then show ?thesis using body2 by simp
  next
    assume "action = Some ''patch'' \<and> (\<exists>g user c clock ua r. cr_user c = user \<and>
        cache_unlocks (fe_net (pe_flush env)) (fe_host (pe_flush env)) clock g c ua (sv_store s2) = Inr (r, sv_store s'))"
    then obtain g c clock ua r where p: "action = Some ''patch''"
      "cache_unlocks (fe_net (pe_flush env)) (fe_host (pe_flush env)) clock g c ua (sv_store s2) = Inr (r, sv_store s')"
      by blast
    then show ?thesis using cache_unlocks_body [OF wf2 p(2)] patch_cache_key [of path body] unlocks_key_not_patch body2 action
      by metis
  qed
  then show ?thesis using rw by simp
qed

lemma online_answer_stored:
  assumes "forward_to_upstream_result env method path body headers s = (Inr (UpSuccess status reason bytes ctype text), s1)"
    and "filter_warning_achievements_for_action action text = Inr stored" "should_cache_response stored"
    and "should_cache_action action path" "store_response env path body action headers stored s1 = (Inr out, s2)"
  shows "handle_online_request env method path body action headers s = (Inr (json_response status out (Some reason)), s2)"
proof -
  have "action \<noteq> None" "starts_with ''/dorequest.php'' path" "action \<noteq> Some ''startsession''"
    using assms(4) by (auto simp: should_cache_action_def)
  then show ?thesis using assms by (auto simp: handle_online_request_def op_iff)
qed

lemma cached_body_offline:
  assumes "cache_body st (cache_key_for_request path body) = Some b" "should_cache_action action path" "action \<noteq> Some ''unlocks''"
  shows "offline_response base st path body action = bind_res (served_body base action b) (\<lambda>x. Inr (ok_json x))"
  using assms by (auto simp: offline_response_def cached_response_def cache_body_def)


definition echo_env :: proxy_env where
  "echo_env = dark_env\<lparr>pe_upstream := \<lambda>_ _ _ _.
     FwdReply 200 ''OK'' (''{'' @ quoted ''Success'' @ '':true,'' @ quoted ''GameID'' @ '':7}'') None True\<rparr>"

end
