(* ===== verification/Cache_Queue.thy ===== *)
theory Cache_Queue
  imports Rom_Lookup Budget_Store
begin

text \<open>
  The queue of games that wait to be cached (cache_queue.py), one cache entry per ROM under the key of
  its first hash.  A queued ROM has at least one hash.  The file locks are not modelled.
\<close>

definition CACHE_QUEUE_MAX_ATTEMPTS :: int where "CACHE_QUEUE_MAX_ATTEMPTS = 3"

record queued_rom =
  qr_hash :: string
  qr_others :: "string list"
  qr_source :: "string option"
  qr_label :: string
  qr_queued_at :: int
  qr_attempts :: int

definition rom_hashes :: "queued_rom \<Rightarrow> string list" where
  "rom_hashes r = qr_hash r # qr_others r"

definition rom_key :: "queued_rom \<Rightarrow> string" where
  "rom_key r = cache_queue_key (qr_hash r)"

definition after_failed_attempt :: "queued_rom \<Rightarrow> queued_rom option" where
  "after_failed_attempt r =
     (let retry = r\<lparr>qr_attempts := qr_attempts r + 1\<rparr> in
      if qr_attempts retry < CACHE_QUEUE_MAX_ATTEMPTS then Some retry else None)"

section \<open>The stored text of a ROM\<close>

definition rom_to_json :: "queued_rom \<Rightarrow> string" where
  "rom_to_json r = dumps_compact (JObj [(''hashes'', JList (map JStr (rom_hashes r))),
     (''sourceRomPath'', case qr_source r of None \<Rightarrow> JNull | Some p \<Rightarrow> JStr p),
     (''label'', JStr (qr_label r)), (''queuedAt'', JInt (qr_queued_at r)), (''attempts'', JInt (qr_attempts r))])"

text \<open>The text of a label: the program writes strings only; of the other values a float, a list or a
  dict is taken as its JSON text.\<close>

definition label_text :: "json \<Rightarrow> string" where
  "label_text v = (if \<not> truthy v then [] else case v of
       JStr s \<Rightarrow> s | JInt i \<Rightarrow> str_of_int i | JBool b \<Rightarrow> ''True'' | _ \<Rightarrow> dumps v)"

definition full_text :: "json \<Rightarrow> string option" where
  "full_text v = (case v of JStr s \<Rightarrow> if strip s = [] then None else Some s | _ \<Rightarrow> None)"

definition rom_of_payload :: "json \<Rightarrow> queued_rom option res" where
  "rom_of_payload payload =
     bind_res (jget ''hashes'' (JList []) payload) (\<lambda>hs.
     bind_res (json_items hs) (\<lambda>items.
     case List.map_filter full_text items of
       [] \<Rightarrow> Inr None
     | h # hs' \<Rightarrow>
         bind_res (jget ''sourceRomPath'' JNull payload) (\<lambda>src.
         bind_res (jget ''label'' JNull payload) (\<lambda>label.
         bind_res (jget ''queuedAt'' (JInt 0) payload) (\<lambda>q.
         bind_res (py_int_of q) (\<lambda>queued_at.
         bind_res (jget ''attempts'' (JInt 0) payload) (\<lambda>a.
         bind_res (py_int_of a) (\<lambda>attempts.
         Inr (Some \<lparr>qr_hash = h, qr_others = hs', qr_source = full_text src, qr_label = label_text label,
           qr_queued_at = queued_at, qr_attempts = attempts\<rparr>)))))))))"

definition rom_from_json :: "string \<Rightarrow> queued_rom option" where
  "rom_from_json body = catch (bind_res (loads body) rom_of_payload) None"

section \<open>The estimate of a bulk run\<close>

record queue_estimate =
  qe_candidates :: int
  qe_cached_now :: int
  qe_newly_queued :: int
  qe_queued_after :: int
  qe_eta_minutes :: int

definition estimate_queue :: "int \<Rightarrow> int \<Rightarrow> int \<Rightarrow> int \<Rightarrow> int \<Rightarrow> int \<Rightarrow> queue_estimate" where
  "estimate_queue candidates known remaining queued_now limit minutes =
     (let fresh = max 0 (candidates - known);
          cached_now = min fresh (max 0 remaining);
          newly_queued = fresh - cached_now;
          queued_after = queued_now + newly_queued
      in \<lparr>qe_candidates = candidates, qe_cached_now = cached_now, qe_newly_queued = newly_queued,
          qe_queued_after = queued_after, qe_eta_minutes = - ((- queued_after) div limit) * minutes\<rparr>)"

definition needs_confirmation :: "queue_estimate \<Rightarrow> bool" where
  "needs_confirmation e = (qe_newly_queued e > 0 \<and> qe_queued_after e > CACHE_BUDGET_LIMIT)"

section \<open>The queue in the store\<close>

definition rom_write :: "int \<Rightarrow> queued_rom \<Rightarrow> store \<Rightarrow> store res" where
  "rom_write clock r st = upsert_cache clock (rom_key r) (rom_to_json r) None (qr_source r) st"

definition enqueue :: "int \<Rightarrow> queued_rom \<Rightarrow> store \<Rightarrow> (bool \<times> store) res" where
  "enqueue clock r st =
     (if get_cache st (rom_key r) \<noteq> None then Inr (False, st)
      else bind_res (rom_write clock r st) (\<lambda>st'. Inr (True, st')))"

definition queue_get :: "store \<Rightarrow> string \<Rightarrow> queued_rom option" where
  "queue_get st key = (case get_cache st key of Some e \<Rightarrow> rom_from_json (ce_body e) | None \<Rightarrow> None)"

definition queue_update :: "int \<Rightarrow> queued_rom \<Rightarrow> store \<Rightarrow> store res" where
  "queue_update clock r st = rom_write clock r st"

definition queue_remove :: "queued_rom \<Rightarrow> store \<Rightarrow> store" where
  "queue_remove r st = delete_cache (rom_key r) st"

definition queue_remove_keys :: "string list \<Rightarrow> store \<Rightarrow> store" where
  "queue_remove_keys keys st = fold delete_cache keys st"

definition queue_count :: "store \<Rightarrow> int" where
  "queue_count st = count_cache_by_prefix st prefix_cache_queue"

definition queued_rom_paths :: "store \<Rightarrow> (string \<Rightarrow> string) \<Rightarrow> string set" where
  "queued_rom_paths st norm =
     set (List.map_filter (\<lambda>e. map_option norm (source_path e)) (cache_summaries_by_prefix st prefix_cache_queue))"

lemma oldest_in: "oldest_cache_by_prefix st p = Some e \<Longrightarrow> e \<in> set (api_cache st) \<and> key_match st p (ce_key e)"
proof -
  assume "oldest_cache_by_prefix st p = Some e"
  then obtain es where "sort_key (\<lambda>e. (ce_first_cached_at e, ce_id e))
      (filter (\<lambda>e. key_match st p (ce_key e)) (api_cache st)) = e # es"
    by (auto simp: oldest_cache_by_prefix_def split: list.splits)
  from arg_cong [OF this, of set] show ?thesis by auto
qed

lemma delete_shorter: "e \<in> set (api_cache st) \<Longrightarrow> length (api_cache (delete_cache (ce_key e) st)) < length (api_cache st)"
  by (auto simp: delete_cache_def delete_entries_def intro!: length_filter_less)

text \<open>The oldest readable ROM; entries that cannot be read are deleted on the way.\<close>

function oldest_rom :: "store \<Rightarrow> queued_rom option \<times> store" where
  "oldest_rom st = (case oldest_cache_by_prefix st prefix_cache_queue of
       None \<Rightarrow> (None, st)
     | Some e \<Rightarrow>
        (case rom_from_json (ce_body e) of
           Some r \<Rightarrow> (Some r, st)
         | None \<Rightarrow> oldest_rom (delete_cache (ce_key e) st)))"
  by auto
termination by (relation "measure (\<lambda>st. length (api_cache st))") (auto dest: oldest_in intro: delete_shorter)

declare oldest_rom.simps [simp del]

section \<open>The text of a ROM is read back\<close>

definition rom_plain :: "queued_rom \<Rightarrow> bool" where
  "rom_plain r = ((\<forall>h \<in> set (rom_hashes r). strip h \<noteq> [] \<and> list_all is_ascii h) \<and> list_all is_ascii (qr_label r) \<and>
     (case qr_source r of None \<Rightarrow> True | Some p \<Rightarrow> strip p \<noteq> [] \<and> list_all is_ascii p))"

lemma full_text_hashes: "\<forall>h \<in> set hs. strip h \<noteq> [] \<Longrightarrow> List.map_filter full_text (map JStr hs) = hs"
  by (induction hs) (simp_all add: full_text_def List.map_filter_simps)

text \<open>The text written for a queued ROM is read back as that ROM, for plain names, hashes and paths.\<close>

theorem rom_json_round_trip:
  assumes "rom_plain r"
  shows "rom_from_json (rom_to_json r) = Some r"
proof -
  let ?src = "case qr_source r of None \<Rightarrow> JNull | Some p \<Rightarrow> JStr p"
  have "loads (rom_to_json r) = Inr (JObj [(''hashes'', JList (map JStr (rom_hashes r))), (''sourceRomPath'', ?src),
      (''label'', JStr (qr_label r)), (''queuedAt'', JInt (qr_queued_at r)), (''attempts'', JInt (qr_attempts r))])"
    unfolding rom_to_json_def using assms
    by (intro loads_dumps_compact) (auto simp: rom_plain_def is_ascii_def split: option.splits)
  moreover have "List.map_filter full_text (map JStr (rom_hashes r)) = qr_hash r # qr_others r"
    using assms full_text_hashes [of "rom_hashes r"] by (simp add: rom_plain_def rom_hashes_def)
  moreover have "full_text ?src = qr_source r" "label_text (JStr (qr_label r)) = qr_label r"
    using assms by (auto simp: rom_plain_def full_text_def label_text_def split: option.splits)
  ultimately show ?thesis
    by (simp add: rom_from_json_def rom_of_payload_def json_items_def catch_def)
qed

theorem rom_json_round_trip_witness:
  "rom_from_json (rom_to_json \<lparr>qr_hash = ''ab'', qr_others = [''cd''], qr_source = Some ''/roms/x.nes'', qr_label = ''x.nes'',
     qr_queued_at = 5, qr_attempts = 1\<rparr>) = Some \<lparr>qr_hash = ''ab'', qr_others = [''cd''], qr_source = Some ''/roms/x.nes'',
     qr_label = ''x.nes'', qr_queued_at = 5, qr_attempts = 1\<rparr>"
  by (rule rom_json_round_trip) code_simp

section \<open>The order of the queue\<close>

definition queue_entries :: "store \<Rightarrow> cache_entry list" where
  "queue_entries st = sort_key (\<lambda>e. (ce_first_cached_at e, ce_id e))
     (filter (\<lambda>e. key_match st prefix_cache_queue (ce_key e)) (api_cache st))"

definition queue_keys :: "store \<Rightarrow> string list" where
  "queue_keys st = map ce_key (queue_entries st)"

lemma queue_count_keys: "queue_count st = int (length (queue_keys st))"
  by (simp add: queue_count_def count_cache_by_prefix_def queue_keys_def queue_entries_def)

lemma oldest_queue: "oldest_cache_by_prefix st prefix_cache_queue = (case queue_entries st of [] \<Rightarrow> None | e # _ \<Rightarrow> Some e)"
  by (simp add: oldest_cache_by_prefix_def queue_entries_def)

lemma rom_key_matches [simp]: "key_match st prefix_cache_queue (rom_key r)"
  by (rule key_match_starts) (simp add: rom_key_def cache_queue_key_def prefix_cache_queue_def)

lemma key_match_store: "is_sqlite s = is_sqlite t \<Longrightarrow> key_match s p k = key_match t p k"
  by (simp add: key_match_def)

lemma filter_map_id: "(\<And>x. x \<in> set xs \<Longrightarrow> P x \<Longrightarrow> f x = x) \<Longrightarrow> (\<And>x. x \<in> set xs \<Longrightarrow> P (f x) = P x) \<Longrightarrow>
    filter P (map f xs) = filter P xs"
  by (induction xs) auto

lemma queue_upsert_other:
  assumes "wf_store st" "upsert_cache t k b ca src st = Inr st'" "\<not> key_match st prefix_cache_queue k"
  shows "queue_entries st' = queue_entries st"
proof -
  have "filter (\<lambda>e. key_match st prefix_cache_queue (ce_key e)) (api_cache st') =
      filter (\<lambda>e. key_match st prefix_cache_queue (ce_key e)) (api_cache st)"
    using assms(3) upsert_api_cache [OF assms(1, 2)]
    by (cases "get_cache st k") (auto simp: new_entry_def intro!: filter_map_id split: if_splits)
  then show ?thesis by (simp add: queue_entries_def key_match_store [OF upsert_fields(1) [OF assms(2)]])
qed

lemma queue_upsert_again:
  assumes "wf_store st" "upsert_cache t k b ca src st = Inr st'" "get_cache st k \<noteq> None"
  shows "queue_keys st' = queue_keys st"
proof -
  define f where "f e = (if ce_key e = k then rewritten st b src (or_int ca t) e else e)" for e
  have f: "ce_key (f e) = ce_key e" "ce_id (f e) = ce_id e" "ce_first_cached_at (f e) = ce_first_cached_at e" for e
    by (simp_all add: f_def rewritten_def)
  have "api_cache st' = map f (api_cache st)" using upsert_api_cache [OF assms(1, 2)] assms(3) by (auto simp: f_def)
  then have "queue_entries st' = map f (queue_entries st)"
    by (simp add: queue_entries_def key_match_store [OF upsert_fields(1) [OF assms(2)]] filter_map o_def f sort_key_map)
  then show ?thesis by (simp add: queue_keys_def o_def f)
qed

text \<open>A moment that is not before the first write of any queued ROM.\<close>

definition queue_due :: "store \<Rightarrow> int \<Rightarrow> bool" where
  "queue_due st t = (\<forall>e \<in> set (queue_entries st). ce_first_cached_at e \<le> t)"

lemma fresh_id_greater: "wf_store st \<Longrightarrow> e \<in> set (api_cache st) \<Longrightarrow> ce_id e < fresh_id st"
  using next_json_id_new [of "ce_id e" "map ce_id (api_cache st)"] by (auto simp: wf_store_def fresh_id_def)

lemma queue_upsert_new:
  assumes wf: "wf_store st" and up: "upsert_cache t k b None src st = Inr st'" and new: "get_cache st k = None"
    and m: "key_match st prefix_cache_queue k" and due: "queue_due st t"
  shows "queue_entries st' = queue_entries st @ [new_entry st k b src t]"
proof -
  let ?e = "new_entry st k b src t" and ?P = "\<lambda>e. key_match st prefix_cache_queue (ce_key e)"
  have t: "or_int None t = t" by (simp add: or_int_def)
  have "filter ?P (api_cache st') = filter ?P (api_cache st) @ [?e]"
    using upsert_api_cache [OF wf up] new m t by (simp add: new_entry_def)
  moreover have "sort_key (\<lambda>e. (ce_first_cached_at e, ce_id e)) (filter ?P (api_cache st) @ [?e]) =
      sort_key (\<lambda>e. (ce_first_cached_at e, ce_id e)) (filter ?P (api_cache st)) @ [?e]"
  proof (rule sort_key_last)
    fix x assume "x \<in> set (filter ?P (api_cache st))"
    then show "(ce_first_cached_at x, ce_id x) \<le> (ce_first_cached_at ?e, ce_id ?e)"
      using due fresh_id_greater [OF wf, of x]
      by (force simp: queue_due_def queue_entries_def new_entry_def less_eq_prod_def)
  qed
  ultimately show ?thesis
    by (simp add: queue_entries_def key_match_store [OF upsert_fields(1) [OF up]])
qed

text \<open>At any other moment it comes somewhere between the others, which keep their order.\<close>

lemma sort_key_insert:
  assumes "e \<notin> set xs" shows "\<exists>us vs. sort_key f xs = us @ vs \<and> sort_key f (xs @ [e]) = us @ e # vs"
proof -
  have "e \<in> set (sort_key f (xs @ [e]))" by simp
  then obtain us vs where s: "sort_key f (xs @ [e]) = us @ e # vs" "e \<notin> set us" by (meson split_list_first)
  have "filter (\<lambda>x. x = e) xs = []" using assms by (auto simp: filter_empty_conv)
  then have "filter (\<lambda>x. x = e) (sort_key f (xs @ [e])) = [e]" by (simp add: filter_sort)
  moreover have "filter (\<lambda>x. x = e) us = []" using s(2) by (auto simp: filter_empty_conv)
  ultimately have "e \<notin> set vs" using s by (auto simp: filter_empty_conv)
  then have "filter (\<lambda>x. x \<noteq> e) vs = vs" "filter (\<lambda>x. x \<noteq> e) us = us" using s(2) by (auto simp: filter_id_conv)
  then have "filter (\<lambda>x. x \<noteq> e) (sort_key f (xs @ [e])) = us @ vs" using s(1) by simp
  moreover have "filter (\<lambda>x. x \<noteq> e) xs = xs" using assms by (intro filter_True) auto
  then have "filter (\<lambda>x. x \<noteq> e) (sort_key f (xs @ [e])) = sort_key f xs" by (simp add: filter_sort)
  ultimately show ?thesis using s(1) by metis
qed

lemma queue_upsert_insert:
  assumes wf: "wf_store st" and up: "upsert_cache t k b None src st = Inr st'" and new: "get_cache st k = None"
    and m: "key_match st prefix_cache_queue k"
  shows "\<exists>us vs. queue_entries st = us @ vs \<and> queue_entries st' = us @ new_entry st k b src t # vs"
proof -
  let ?e = "new_entry st k b src t" and ?P = "\<lambda>e. key_match st prefix_cache_queue (ce_key e)"
  have "filter ?P (api_cache st') = filter ?P (api_cache st) @ [?e]"
    using upsert_api_cache [OF wf up] new m by (simp add: new_entry_def or_int_def)
  moreover have "?e \<notin> set (filter ?P (api_cache st))"
    using new by (auto simp: get_cache_None new_entry_def intro: rev_image_eqI)
  ultimately show ?thesis using sort_key_insert [of ?e "filter ?P (api_cache st)"]
    by (simp add: queue_entries_def key_match_store [OF upsert_fields(1) [OF up]])
qed

lemma queue_delete: "queue_entries (delete_cache k st) = filter (\<lambda>e. ce_key e \<noteq> k) (queue_entries st)"
  by (simp add: queue_entries_def delete_cache_def delete_entries_def key_match_def filter_sort conj_commute)

section \<open>A first-in first-out queue\<close>

text \<open>What the callers of the queue rely on: put adds a new key at the end and leaves a known one
  where it is, drop takes one key out, and first is the front.\<close>

locale fifo =
  fixes inv :: "'s \<Rightarrow> bool"
    and due :: "'s \<Rightarrow> int \<Rightarrow> bool"
    and content :: "'s \<Rightarrow> string list"
    and key :: "'r \<Rightarrow> string"
    and put :: "int \<Rightarrow> 'r \<Rightarrow> 's \<Rightarrow> (bool \<times> 's) res"
    and drop_key :: "string \<Rightarrow> 's \<Rightarrow> 's"
    and front :: "'s \<Rightarrow> string option"
  assumes put_new: "inv s \<Longrightarrow> due s t \<Longrightarrow> key r \<notin> set (content s) \<Longrightarrow>
      \<exists>s'. put t r s = Inr (True, s') \<and> inv s' \<and> due s' t \<and> content s' = content s @ [key r]"
    and put_known: "inv s \<Longrightarrow> key r \<in> set (content s) \<Longrightarrow> put t r s = Inr (False, s)"
    and drop_inv: "inv s \<Longrightarrow> inv (drop_key k s)"
    and drop_content: "inv s \<Longrightarrow> content (drop_key k s) = filter (\<lambda>x. x \<noteq> k) (content s)"
    and distinct_content: "inv s \<Longrightarrow> distinct (content s)"
    and front_content: "inv s \<Longrightarrow> front s = (case content s of [] \<Rightarrow> None | k # _ \<Rightarrow> Some k)"
begin

lemma put_all:
  assumes "inv s" "due s t" "distinct (map key rs)" "key ` set rs \<inter> set (content s) = {}"
  shows "\<exists>s'. fold_res (\<lambda>r s. bind_res (put t r s) (\<lambda>(_, s1). Inr s1)) rs s = Inr s' \<and> inv s' \<and> due s' t \<and>
    content s' = content s @ map key rs"
  using assms
proof (induction rs arbitrary: s)
  case (Cons r rs)
  obtain s1 where s1: "put t r s = Inr (True, s1)" "inv s1" "due s1 t" "content s1 = content s @ [key r]"
    using put_new [of s t r] Cons.prems by auto
  have "key ` set rs \<inter> set (content s1) = {}" using Cons.prems s1(4) by auto
  then show ?case using Cons.IH [OF s1(2, 3)] Cons.prems(3) s1 by simp
qed simp

lemma serve_front: "inv s \<Longrightarrow> content s = k # ks \<Longrightarrow> front s = Some k \<and> content (drop_key k s) = ks"
  using distinct_content [of s] drop_content [of s k] front_content [of s]
  by (auto intro: filter_True)

lemma serve_all: "inv s \<Longrightarrow> inv (fold drop_key (content s) s) \<and> content (fold drop_key (content s) s) = []"
proof -
  have "inv (fold drop_key ks s) \<and> content (fold drop_key ks s) = filter (\<lambda>x. x \<notin> set ks) (content s)" if "inv s" for ks
    using that by (induction ks arbitrary: s) (auto simp: drop_inv drop_content intro!: filter_cong)
  from this [of "content s"] show "inv s \<Longrightarrow> ?thesis" by simp
qed

end

definition queue_front :: "store \<Rightarrow> string option" where
  "queue_front st = map_option ce_key (oldest_cache_by_prefix st prefix_cache_queue)"

lemma rom_key_plain: "\<not> is_game_meta_key (rom_key r)"
  by (simp add: is_game_meta_key_def rom_key_def cache_queue_key_def key_defs)

lemma queue_keys_get: "rom_key r \<in> set (queue_keys st) \<longleftrightarrow> get_cache st (rom_key r) \<noteq> None"
proof -
  have "e \<in> set (queue_entries st)" if "e \<in> set (api_cache st)" "ce_key e = rom_key r" for e
    using that rom_key_matches [of st r] by (simp add: queue_entries_def)
  then show ?thesis unfolding get_cache_None
    by (auto simp: queue_keys_def) (auto simp: queue_entries_def)
qed

lemma distinct_queue_keys: "wf_store st \<Longrightarrow> distinct (queue_keys st)"
proof -
  assume wf: "wf_store st"
  have "distinct (map ce_key (sort_key f (filter P (api_cache st))))" for f :: "cache_entry \<Rightarrow> int \<times> int" and P
  proof -
    have "inj_on ce_key (set (filter P (api_cache st)))" "distinct (filter P (api_cache st))"
      using wf_storeD(1) [OF wf] by (auto simp: distinct_map intro: inj_on_subset)
    then show ?thesis by (simp add: distinct_map)
  qed
  then show ?thesis by (simp add: queue_keys_def queue_entries_def)
qed

lemma enqueue_new:
  assumes "wf_store st" "queue_due st t" "rom_key r \<notin> set (queue_keys st)"
  shows "\<exists>st'. enqueue t r st = Inr (True, st') \<and> wf_store st' \<and> queue_due st' t \<and> queue_keys st' = queue_keys st @ [rom_key r]"
proof -
  obtain st' where up: "upsert_cache t (rom_key r) (rom_to_json r) None (qr_source r) st = Inr st'"
    using upsert_plain_total [OF rom_key_plain] by blast
  have new: "get_cache st (rom_key r) = None" using assms(3) by (simp add: queue_keys_get)
  have "queue_entries st' = queue_entries st @ [new_entry st (rom_key r) (rom_to_json r) (qr_source r) t]"
    by (rule queue_upsert_new [OF assms(1) up new rom_key_matches assms(2)])
  moreover from this have "queue_due st' t" using assms(2) by (auto simp: queue_due_def new_entry_def)
  ultimately show ?thesis using up new wf_upsert_cache [OF assms(1) up]
    by (simp add: enqueue_def rom_write_def queue_keys_def new_entry_def)
qed

interpretation rom_queue: fifo wf_store queue_due queue_keys rom_key enqueue delete_cache queue_front
proof
  show "enqueue t r s = Inr (False, s)" if "rom_key r \<in> set (queue_keys s)" for s r t
    using that by (simp add: enqueue_def queue_keys_get)
  show "queue_keys (delete_cache k s) = filter (\<lambda>x. x \<noteq> k) (queue_keys s)" for s k
    by (simp add: queue_keys_def queue_delete filter_map o_def)
  show "queue_front s = (case queue_keys s of [] \<Rightarrow> None | k # _ \<Rightarrow> Some k)" for s
    by (simp add: queue_front_def oldest_queue queue_keys_def split: list.split)
qed (simp_all add: enqueue_new wf_deletes distinct_queue_keys)

lemma oldest_rom_cases:
  assumes "wf_store st" "oldest_rom st = (r, st')"
  shows "wf_store st' \<and> (\<exists>bad. queue_keys st = bad @ queue_keys st') \<and>
    (case r of None \<Rightarrow> queue_entries st' = []
     | Some rom \<Rightarrow> \<exists>e es. queue_entries st' = e # es \<and> rom_from_json (ce_body e) = Some rom)"
  using assms
proof (induction st rule: oldest_rom.induct)
  case (1 st)
  show ?case
  proof (cases "queue_entries st")
    case Nil
    then show ?thesis using 1 by (simp add: oldest_rom.simps [of st] oldest_queue)
  next
    case (Cons e es)
    have old: "oldest_cache_by_prefix st prefix_cache_queue = Some e" by (simp add: oldest_queue Cons)
    show ?thesis
    proof (cases "rom_from_json (ce_body e)")
      case None
      have ks: "queue_keys st = ce_key e # map ce_key es" by (simp add: queue_keys_def Cons)
      have del: "queue_keys (delete_cache (ce_key e) st) = map ce_key es"
        using rom_queue.serve_front [OF 1(2) ks] by simp
      have "oldest_rom (delete_cache (ce_key e) st) = (r, st')"
        using 1(3) old None by (simp add: oldest_rom.simps [of st])
      from 1(1) [OF old None wf_deletes(1) [OF 1(2)] this] show ?thesis using ks del
        by (auto intro: exI [of _ "ce_key e # bad" for bad])
    next
      case (Some rom)
      then have "r = Some rom" "st' = st" using 1(3) old by (simp_all add: oldest_rom.simps [of st])
      then show ?thesis using 1(2) Cons Some by simp
    qed
  qed
qed

lemma enqueue_between:
  assumes wf: "wf_store st" and new: "rom_key r \<notin> set (queue_keys st)"
  shows "\<exists>st' us vs. enqueue t r st = Inr (True, st') \<and> wf_store st' \<and> queue_keys st = us @ vs \<and>
    queue_keys st' = us @ rom_key r # vs \<and> (queue_due st t \<longrightarrow> vs = [] \<and> queue_due st' t)"
proof (cases "queue_due st t")
  case True
  then show ?thesis using enqueue_new [OF wf _ new] by fastforce
next
  case False
  obtain st' where up: "upsert_cache t (rom_key r) (rom_to_json r) None (qr_source r) st = Inr st'"
    using upsert_plain_total [OF rom_key_plain] by blast
  have none: "get_cache st (rom_key r) = None" using new by (simp add: queue_keys_get)
  obtain us vs where "queue_entries st = us @ vs"
    "queue_entries st' = us @ new_entry st (rom_key r) (rom_to_json r) (qr_source r) t # vs"
    using queue_upsert_insert [OF wf up none rom_key_matches] by blast
  then have "queue_keys st = map ce_key us @ map ce_key vs" "queue_keys st' = map ce_key us @ rom_key r # map ce_key vs"
    by (simp_all add: queue_keys_def new_entry_def)
  then show ?thesis using up none False wf_upsert_cache [OF wf up] by (auto simp: enqueue_def rom_write_def)
qed



end
