(* ===== verification/Cache_Drain.thy ===== *)
theory Cache_Drain
  imports Cache_Queue Network Auth
begin

text \<open>
  The loop that works through the queue of games within the caching budget (rom_browser.py, lines
  486-966), and the two callers that cache or queue a ROM.  Requests go through http_get on the network
  state, so the throttle and the pause after a 429 are those of the network.  Outside the model are the
  answers of the server with the time they take, the wish to pause, what other processes do to the
  store while the lock is free, the hashing of files, and the images.  Times are in ms.
\<close>

definition CACHE_PACE_MS :: int where "CACHE_PACE_MS = CACHE_BUDGET_WINDOW_MS div CACHE_BUDGET_LIMIT"
definition PACE_POLL_MS :: int where "PACE_POLL_MS = 1000"

record drain_env =
  de_host :: string
  de_fallback :: string
  de_tag :: string
  de_answers :: "nat \<Rightarrow> string \<Rightarrow> int \<times> answer"
  de_pause :: "int \<Rightarrow> bool"
  de_meanwhile :: "int \<Rightarrow> store \<Rightarrow> store"
  de_lock :: "int \<Rightarrow> bool"

section \<open>One request\<close>

definition send_get :: "drain_env \<Rightarrow> string \<Rightarrow> net_state \<Rightarrow> get_result \<times> net_state" where
  "send_get env url n = http_get url (\<lambda>_. de_answers env (length (sent_at n)) url) n"

definition reply_of :: "get_result \<Rightarrow> reply" where
  "reply_of r = (case r of GotBody b \<Rightarrow> Body b | GotHttpError status \<Rightarrow> HttpError status | _ \<Rightarrow> NetworkError)"

text \<open>The game id of a hash: from the cache, or asked for; None is no match.\<close>

datatype lookup_failure = LookupStatus int | LookupFailed

definition fetch_game_id ::
  "drain_env \<Rightarrow> credentials \<Rightarrow> string \<Rightarrow> string \<Rightarrow> store \<Rightarrow> net_state \<Rightarrow> (lookup_failure + int option) \<times> store \<times> net_state" where
  "fetch_game_id env c agent h st n =
     (let known = (case get_cache st (game_id_key h) of
            None \<Rightarrow> None
          | Some e \<Rightarrow> (case game_id_from_response (ce_body e) of
                Some g \<Rightarrow> Some (Some g)
              | None \<Rightarrow> if wall_now n - ce_cached_at e < GAMEID_MISS_TTL_MS then Some None else None))
      in case known of
           Some answer \<Rightarrow> (Inr answer, st, n)
         | None \<Rightarrow>
            (case send_get env (build_api_url (de_host env) ''gameid'' [(''m'', h), (''u'', cr_user c), (''t'', cr_token c)]) n of
               (GotHttpError status, n1) \<Rightarrow> (Inl (LookupStatus status), st, n1)
             | (GotBody body, n1) \<Rightarrow>
                (case loads body of
                   Inl _ \<Rightarrow> (Inl LookupFailed, st, n1)
                 | Inr payload \<Rightarrow>
                    (case (if is_cacheable_game_id_response body
                           then upsert_cache (wall_now n1) (game_id_key h) body None None st else Inr st) of
                       Inl _ \<Rightarrow> (Inl LookupFailed, st, n1)
                     | Inr st1 \<Rightarrow>
                        (case jget ''GameID'' JNull payload of
                           Inl _ \<Rightarrow> (Inl LookupFailed, st1, n1)
                         | Inr v \<Rightarrow> (Inr (positive_int v), st1, n1))))
             | (_, n1) \<Rightarrow> (Inl LookupFailed, st, n1)))"

fun lookup_hashes ::
  "drain_env \<Rightarrow> credentials \<Rightarrow> string \<Rightarrow> string list \<Rightarrow> store \<Rightarrow> net_state \<Rightarrow>
   (lookup_failure + (int \<times> string) option) \<times> store \<times> net_state" where
  "lookup_hashes env c agent [] st n = (Inr None, st, n)"
| "lookup_hashes env c agent (h # hs) st n =
     (case fetch_game_id env c agent h st n of
        (Inl f, st1, n1) \<Rightarrow> (Inl f, st1, n1)
      | (Inr None, st1, n1) \<Rightarrow> lookup_hashes env c agent hs st1 n1
      | (Inr (Some g), st1, n1) \<Rightarrow> (Inr (Some (g, h)), st1, n1))"

section \<open>One game\<close>

text \<open>cache_game sends the patch request, then, when its answer is accepted, the unlocks request and,
  unless that raised, the sets request; here they run in that order on the network state.\<close>

definition scripted :: "(string \<times> reply) list \<Rightarrow> network" where
  "scripted replies url agent = (case map_of replies url of Some r \<Rightarrow> r | None \<Rightarrow> NetworkError)"

definition game_urls :: "drain_env \<Rightarrow> int \<Rightarrow> string \<Rightarrow> credentials \<Rightarrow> string \<times> string \<times> string" where
  "game_urls env g h c =
     (build_api_url (de_host env) ''patch'' [(''g'', str_of_int g), (''u'', cr_user c), (''t'', cr_token c)],
      build_api_url (de_host env) ''unlocks'' [(''g'', str_of_int g), (''h'', ''0''), (''u'', cr_user c), (''t'', cr_token c)],
      build_api_url (de_host env) ''achievementsets'' [(''m'', h), (''u'', cr_user c), (''t'', cr_token c)])"

definition run_cache_game ::
  "drain_env \<Rightarrow> int \<Rightarrow> string \<Rightarrow> credentials \<Rightarrow> string \<Rightarrow> string option \<Rightarrow> store \<Rightarrow> net_state \<Rightarrow>
   (cache_error option \<times> store) \<times> net_state" where
  "run_cache_game env g h c agent source st n =
     (case game_urls env g h c of (u1, u2, u3) \<Rightarrow>
      case send_get env u1 n of (r1, n1) \<Rightarrow>
        let play = (\<lambda>net t. cache_game net (de_host env) (de_fallback env) t g h c agent source st);
            net1 = scripted [(u1, reply_of r1)]
        in case refresh_game_patch net1 (de_host env) (wall_now n1) g c agent source st of
             Inl _ \<Rightarrow> (play net1 (wall_now n1), n1)
           | Inr (_, st1) \<Rightarrow>
              (case send_get env u2 n1 of (r2, n2) \<Rightarrow>
                let net2 = scripted [(u1, reply_of r1), (u2, reply_of r2)] in
                case cache_unlocks net2 (de_host env) (wall_now n2) g c agent st1 of
                  Inl _ \<Rightarrow> (play net2 (wall_now n2), n2)
                | Inr _ \<Rightarrow>
                   (case send_get env u3 n2 of (r3, n3) \<Rightarrow>
                     (play (scripted [(u1, reply_of r1), (u2, reply_of r2), (u3, reply_of r3)]) (wall_now n3), n3))))"

datatype rom_outcome = OutCached | OutNoMatch | OutAlreadyCached | OutFailed | OutAuthRejected

definition lookup_outcome :: "lookup_failure \<Rightarrow> rom_outcome" where
  "lookup_outcome f = (case f of
       LookupStatus status \<Rightarrow> if status = 401 \<or> status = 403 then OutAuthRejected else OutFailed
     | LookupFailed \<Rightarrow> OutFailed)"

text \<open>What becomes of one queued ROM; a raise of the store leaves the loop.\<close>

definition cache_found_game ::
  "drain_env \<Rightarrow> credentials \<Rightarrow> string \<Rightarrow> queued_rom \<Rightarrow> int \<Rightarrow> string \<Rightarrow> int list \<Rightarrow> store \<Rightarrow> net_state \<Rightarrow>
   (rom_outcome \<times> int option) res \<times> store \<times> net_state" where
  "cache_found_game env c agent rom g h known st n =
     (case persist_game_id_aliases (wall_now n) (rom_hashes rom) (Some h) g st of
        Inl e \<Rightarrow> (Inl e, st, n)
      | Inr st1 \<Rightarrow>
         if g \<in> set known then
           (case remember_source_rom_path (wall_now n) g (cr_user c) (qr_source rom) st1 of
              Inl e \<Rightarrow> (Inl e, st1, n)
            | Inr st2 \<Rightarrow> (Inr (OutAlreadyCached, Some g), st2, n))
         else
           (case run_cache_game env g h c (proxy_user_agent (de_tag env) agent) (qr_source rom) st1 n of
              ((Some CacheGameAuthError, st2), n2) \<Rightarrow> (Inr (OutAuthRejected, Some g), st2, n2)
            | ((Some _, st2), n2) \<Rightarrow> (Inr (OutFailed, Some g), st2, n2)
            | ((None, st2), n2) \<Rightarrow>
               (case get_cache st2 (patch_key (str_of_int g) (cr_user c)) of
                  None \<Rightarrow> (Inr (OutFailed, Some g), st2, n2)
                | Some e \<Rightarrow>
                   if qr_source rom \<noteq> None \<and> qr_source rom \<noteq> Some [] \<and> ce_source e \<noteq> qr_source rom then
                     (case remember_source_rom_path (wall_now n2) g (cr_user c) (qr_source rom) st2 of
                        Inl x \<Rightarrow> (Inl x, st2, n2)
                      | Inr st3 \<Rightarrow> (Inr (OutCached, Some g), st3, n2))
                   else (Inr (OutCached, Some g), st2, n2))))"

definition cache_queued_rom ::
  "drain_env \<Rightarrow> credentials \<Rightarrow> string \<Rightarrow> queued_rom \<Rightarrow> local_answer \<Rightarrow> int list \<Rightarrow> store \<Rightarrow> net_state \<Rightarrow>
   (rom_outcome \<times> int option) res \<times> store \<times> net_state" where
  "cache_queued_rom env c agent rom local known st n = (case local of
       KnownGame g h \<Rightarrow> cache_found_game env c agent rom g h known st n
     | _ \<Rightarrow>
        (case lookup_hashes env c agent (rom_hashes rom) st n of
           (Inl f, st1, n1) \<Rightarrow> (Inr (lookup_outcome f, None), st1, n1)
         | (Inr None, st1, n1) \<Rightarrow> (Inr (OutNoMatch, None), st1, n1)
         | (Inr (Some (g, h)), st1, n1) \<Rightarrow> cache_found_game env c agent rom g h known st1 n1))"

definition record_failed_attempt :: "int \<Rightarrow> queued_rom \<Rightarrow> store \<Rightarrow> store res" where
  "record_failed_attempt clock rom st = (case after_failed_attempt rom of
       None \<Rightarrow> Inr (queue_remove rom st)
     | Some retry \<Rightarrow> queue_update clock retry st)"

section \<open>The pace\<close>

definition past_burst :: "int \<Rightarrow> store \<Rightarrow> int \<Rightarrow> bool" where
  "past_burst clock st requested = (requested \<ge> CACHE_BURST_GAMES \<or> budget_used clock None st \<ge> CACHE_BURST_GAMES)"

function wait_for_pace :: "(int \<Rightarrow> bool) \<Rightarrow> int \<Rightarrow> net_state \<Rightarrow> bool \<times> net_state" where
  "wait_for_pace pause ready_at n =
     (if pause (mono n) then (False, n)
      else if ready_at - mono n \<le> 0 then (True, n)
      else wait_for_pace pause ready_at (sleep (min PACE_POLL_MS (ready_at - mono n)) n))"
  by auto
termination
  by (relation "measure (\<lambda>(pause, ready_at, n). nat (ready_at - mono n))") (auto simp: PACE_POLL_MS_def sleep_def)

declare wait_for_pace.simps [simp del]

section \<open>The loop\<close>

datatype drain_stop = StopEmpty | StopBudget | StopRateLimited | StopPaused | StopFailed | StopAuth | StopBusy

record drain_result =
  dr_cached :: int
  dr_no_match :: int
  dr_stop :: drain_stop
  dr_next_attempt :: "int option"
  dr_time_limited :: bool

text \<open>The variables of the loop.  The reports are what on_outcome hears, the items what on_item hears,
  and the starts are the moments at which a ROM's requests began.\<close>

record drain_state =
  ds_store :: store
  ds_net :: net_state
  ds_keys :: "string list option"
  ds_known :: "int list"
  ds_cached :: int
  ds_no_match :: int
  ds_requested :: int
  ds_next_request_at :: int
  ds_paced :: bool
  ds_started_at :: int
  ds_reports :: "(string \<times> rom_outcome \<times> int option) list"
  ds_items :: "(int \<times> int \<times> string) list"
  ds_starts :: "int list"

datatype drain_next = Stop drain_result drain_state | Next drain_state | Raised exn drain_state

definition drain_clock :: "drain_state \<Rightarrow> int" where "drain_clock s = wall_now (ds_net s)"

definition finish :: "drain_stop \<Rightarrow> int option \<Rightarrow> bool \<Rightarrow> drain_state \<Rightarrow> drain_next" where
  "finish stop next_at limited s = Stop \<lparr>dr_cached = ds_cached s, dr_no_match = ds_no_match s, dr_stop = stop,
     dr_next_attempt = next_at, dr_time_limited = limited\<rparr> s"

definition report :: "queued_rom \<Rightarrow> rom_outcome \<Rightarrow> int option \<Rightarrow> drain_state \<Rightarrow> drain_state" where
  "report rom outcome g s = s\<lparr>ds_reports := ds_reports s @ [(rom_key rom, outcome, g)]\<rparr>"

text \<open>The stop after a 429, with the budget paused as well.\<close>

definition unless_rate_limited :: "drain_state \<Rightarrow> drain_next \<Rightarrow> drain_next" where
  "unless_rate_limited s continue = (case rate_paused_until (drain_clock s) (limiter (ds_net s)) of
       None \<Rightarrow> continue
     | Some until \<Rightarrow>
        (case pause_budget (drain_clock s) until (ds_store s) of
           Inl e \<Rightarrow> Raised e s
         | Inr st \<Rightarrow> finish StopRateLimited (Some until) False (s\<lparr>ds_store := st\<rparr>)))"

fun first_waiting :: "store \<Rightarrow> string list \<Rightarrow> queued_rom option \<times> string list" where
  "first_waiting st [] = (None, [])"
| "first_waiting st (k # ks) = (case queue_get st k of Some r \<Rightarrow> (Some r, k # ks) | None \<Rightarrow> first_waiting st ks)"

definition next_rom :: "drain_state \<Rightarrow> queued_rom option \<times> drain_state" where
  "next_rom s = (case ds_keys s of
       None \<Rightarrow> (case oldest_rom (ds_store s) of (r, st) \<Rightarrow> (r, s\<lparr>ds_store := st\<rparr>))
     | Some ks \<Rightarrow> (case first_waiting (ds_store s) ks of (r, ks') \<Rightarrow> (r, s\<lparr>ds_keys := Some ks'\<rparr>)))"

definition window_progress_total :: "int \<Rightarrow> int \<Rightarrow> int \<Rightarrow> int" where
  "window_progress_total cached_before queued left = cached_before + max 1 (min queued left)"

definition begin_item :: "queued_rom \<Rightarrow> int \<Rightarrow> drain_state \<Rightarrow> drain_state" where
  "begin_item rom left s =
     (let queued = (case ds_keys s of Some ks \<Rightarrow> int (length ks) | None \<Rightarrow> queue_count (ds_store s))
      in s\<lparr>ds_paced := False, ds_next_request_at := mono (ds_net s) + CACHE_PACE_MS,
           ds_items := ds_items s @ [(ds_cached s + 1, window_progress_total (ds_cached s) queued left, qr_label rom)],
           ds_requested := ds_requested s + 1, ds_starts := ds_starts s @ [mono (ds_net s)]\<rparr>)"

definition settle_rom :: "queued_rom \<Rightarrow> rom_outcome \<Rightarrow> int option \<Rightarrow> drain_state \<Rightarrow> drain_next" where
  "settle_rom rom outcome g s =
     (if outcome = OutAuthRejected then finish StopAuth None False s
      else if outcome = OutFailed then
        (case record_failed_attempt (drain_clock s) rom (ds_store s) of
           Inl e \<Rightarrow> Raised e s
         | Inr st \<Rightarrow> finish StopFailed None False (report rom outcome g (s\<lparr>ds_store := st\<rparr>)))
      else Next (report rom outcome g (s\<lparr>ds_store := queue_remove rom (ds_store s),
             ds_cached := ds_cached s + (if outcome = OutCached then 1 else 0),
             ds_known := (if outcome = OutCached then (case g of None \<Rightarrow> [] | Some i \<Rightarrow> [i]) @ ds_known s else ds_known s),
             ds_no_match := ds_no_match s + (if outcome = OutNoMatch then 1 else 0)\<rparr>)))"

definition attempt_rom ::
  "drain_env \<Rightarrow> credentials \<Rightarrow> string \<Rightarrow> queued_rom \<Rightarrow> local_answer \<Rightarrow> drain_state \<Rightarrow> drain_next" where
  "attempt_rom env c agent rom local s =
     (case cache_queued_rom env c agent rom local (ds_known s) (ds_store s) (ds_net s) of
        (Inl e, st, n) \<Rightarrow> Raised e (s\<lparr>ds_store := st, ds_net := n\<rparr>)
      | (Inr (outcome, g), st, n) \<Rightarrow>
         (case (if outcome = OutCached then charge_game (wall_now n) None st else Inr st) of
            Inl e \<Rightarrow> Raised e (s\<lparr>ds_store := st, ds_net := n\<rparr>)
          | Inr st1 \<Rightarrow>
             let s1 = s\<lparr>ds_store := st1, ds_net := n\<rparr> in unless_rate_limited s1 (settle_rom rom outcome g s1)))"

definition request_rom ::
  "drain_env \<Rightarrow> credentials \<Rightarrow> string \<Rightarrow> queued_rom \<Rightarrow> local_answer \<Rightarrow> drain_state \<Rightarrow> drain_next" where
  "request_rom env c agent rom local s =
     (let left = store_remaining (drain_clock s) None (ds_store s) in
      if left = 0 then finish StopBudget (Some (store_next_available_at (drain_clock s) None (ds_store s))) False s
      else if ds_requested s > 0 \<and> \<not> ds_paced s \<and> past_burst (drain_clock s) (ds_store s) (ds_requested s) then
        (case wait_for_pace (de_pause env) (ds_next_request_at s) (ds_net s) of (ready, n) \<Rightarrow>
           let s1 = s\<lparr>ds_net := n, ds_store := de_meanwhile env (mono n) (ds_store s)\<rparr> in
           if \<not> ready \<or> \<not> de_lock env (mono n) then finish StopPaused None False s1
           else Next (s1\<lparr>ds_known := cached_game_ids (ds_store s1) @ ds_known s1, ds_paced := True\<rparr>))
      else attempt_rom env c agent rom local (begin_item rom left s))"

definition drain_step :: "drain_env \<Rightarrow> credentials \<Rightarrow> string \<Rightarrow> drain_state \<Rightarrow> drain_next" where
  "drain_step env c agent s =
     (if de_pause env (mono (ds_net s)) then finish StopPaused None False s
      else unless_rate_limited s
        (if drain_clock s \<ge> ds_started_at s + CACHE_BATCH_MAX_MS
         then finish StopBudget (Some (store_next_available_at (drain_clock s) None (ds_store s))) True s
         else (case next_rom s of
             (None, s1) \<Rightarrow> finish StopEmpty None False s1
           | (Some rom, s1) \<Rightarrow>
              (case local_game_id_answer (ds_store s1) (drain_clock s1) (rom_hashes rom) of
                 NoMatch \<Rightarrow> Next (report rom OutNoMatch None
                   (s1\<lparr>ds_store := queue_remove rom (ds_store s1), ds_no_match := ds_no_match s1 + 1\<rparr>))
               | KnownGame g h \<Rightarrow>
                  if g \<in> set (ds_known s1) then
                    (case remember_source_rom_path (drain_clock s1) g (cr_user c) (qr_source rom) (ds_store s1) of
                       Inl e \<Rightarrow> Raised e s1
                     | Inr st \<Rightarrow> Next (report rom OutAlreadyCached (Some g) (s1\<lparr>ds_store := queue_remove rom st\<rparr>)))
                  else request_rom env c agent rom (KnownGame g h) s1
               | Unknown \<Rightarrow> request_rom env c agent rom Unknown s1))))"

fun drain_loop :: "nat \<Rightarrow> drain_env \<Rightarrow> credentials \<Rightarrow> string \<Rightarrow> drain_state \<Rightarrow> drain_next option" where
  "drain_loop 0 env c agent s = None"
| "drain_loop (Suc k) env c agent s = (case drain_step env c agent s of
       Next s1 \<Rightarrow> drain_loop k env c agent s1 | other \<Rightarrow> Some other)"

text \<open>The order of first occurrence.\<close>

definition unique_keys :: "string list \<Rightarrow> string list" where
  "unique_keys ks = rev (remdups (rev ks))"

definition drain_start :: "string list option \<Rightarrow> store \<Rightarrow> net_state \<Rightarrow> drain_state" where
  "drain_start keys st n = \<lparr>ds_store = st, ds_net = n, ds_keys = map_option unique_keys keys,
     ds_known = cached_game_ids st, ds_cached = 0, ds_no_match = 0, ds_requested = 0, ds_next_request_at = 0,
     ds_paced = False, ds_started_at = wall_now n, ds_reports = [], ds_items = [], ds_starts = []\<rparr>"

definition leave_block :: "drain_state \<Rightarrow> drain_state" where
  "leave_block s = s\<lparr>ds_net := (ds_net s)\<lparr>limiter := leave_background (limiter (ds_net s))\<rparr>\<rparr>"

fun end_of_block :: "drain_next \<Rightarrow> drain_next" where
  "end_of_block (Stop r s) = Stop r (leave_block s)"
| "end_of_block (Raised e s) = Raised e (leave_block s)"
| "end_of_block (Next s) = Next s"

text \<open>With the lock held the loop runs as a background block; without it nothing happens.\<close>

definition drain_cache_queue ::
  "nat \<Rightarrow> drain_env \<Rightarrow> credentials \<Rightarrow> string \<Rightarrow> string list option \<Rightarrow> store \<Rightarrow> net_state \<Rightarrow> drain_next option" where
  "drain_cache_queue fuel env c agent keys st n =
     (if \<not> de_lock env (mono n) then Some (finish StopBusy None False (drain_start keys st n))
      else map_option end_of_block
        (drain_loop fuel env c agent (drain_start keys st (n\<lparr>limiter := enter_background (limiter n)\<rparr>))))"

end
