(* ===== verification/Cache_Frame.thy ===== *)
theory Cache_Frame
  imports Cache_Drain
begin

text \<open>
  What the caching of games leaves of the store, for any relation that survives the writes of single
  entries (locale cache_frame) and the removal of queued ROMs (locale drain_frame).  The drain is followed
  through its steps once, here.
\<close>

section \<open>The writes of one game\<close>

locale cache_frame =
  fixes frame :: "store \<Rightarrow> store \<Rightarrow> bool" and ok_key :: "string \<Rightarrow> bool"
  assumes refl [simp]: "frame st st"
    and trans: "frame x y \<Longrightarrow> frame y z \<Longrightarrow> frame x z"
    and upsert: "upsert_cache t k b ca src st = Inr st' \<Longrightarrow> ok_key k \<Longrightarrow> frame st st'"
    and ok_keys [simp]: "ok_key (patch_key g u)" "ok_key (unlocks_key g u)" "ok_key (start_session_key g u)"
      "ok_key (achievementsets_key g u)" "ok_key (game_id_key h)" "ok_key key_cache_budget"
begin

lemma game:
  assumes "cache_game net host fallback clock g h c ua src st = (err, st')"
  shows "frame st st'"
proof -
  have step1: "frame s t" if "refresh_game_patch net host clock g c a src s = Inr (b, t)" for a s b t
    using that by (rule refresh_game_patch_Inr) (simp add: upsert)
  have step2: "frame s t" if "cache_unlocks net host clock g c a s = Inr (b, t)" for a s b t
    using cache_unlocks_cases [OF that] upsert by fastforce
  have step3: "frame s t" if "cache_achievementsets net host clock h c a s = Inr (b, t)" for a s b t
    using cache_achievementsets_cases [OF that] upsert by fastforce
  have step4: "frame s t" if "cache_session clock g c s = Inr (b, t)" for s b t
    using that by (rule cache_session_Inr) (simp add: upsert)
  show ?thesis
    using assms unfolding cache_game_def Let_def
    by (auto dest!: step1 step2 step3 step4 split: sum.splits) (blast intro: trans)+
qed

lemma fold:
  "(\<And>x s t. f x s = Inr t \<Longrightarrow> frame s t) \<Longrightarrow> fold_res f xs s = Inr t \<Longrightarrow> frame s t"
proof (induction xs arbitrary: s)
  case (Cons x xs)
  then obtain u where "f x s = Inr u" "fold_res f xs u = Inr t" by (auto simp: res_simps)
  then show ?case using Cons trans by blast
qed simp

lemma aliases: "persist_game_id_aliases clock hs used g st = Inr st' \<Longrightarrow> frame st st'"
  unfolding persist_game_id_aliases_def
  by (erule fold [rotated]) (auto intro: upsert split: if_splits)

lemma remember: "remember_source_rom_path clock g u p st = Inr st' \<Longrightarrow> frame st st'"
  by (auto simp: remember_source_rom_path_def intro: upsert split: option.splits)

lemma lookup: "fetch_game_id env c agent h st n = (r, st', n') \<Longrightarrow> frame st st'"
  by (auto simp: fetch_game_id_def Let_def intro: upsert
      split: option.splits if_splits prod.splits get_result.splits sum.splits)

lemma hashes: "lookup_hashes env c agent hs st n = (r, st', n') \<Longrightarrow> frame st st'"
proof (induction hs arbitrary: st n)
  case (Cons h hs)
  then show ?case
    by (auto dest!: lookup split: prod.splits sum.splits option.splits) (blast intro: trans)
qed simp

lemma run_game: "run_cache_game env g h c agent src st n = ((err, st'), n') \<Longrightarrow> frame st st'"
  by (auto simp: run_cache_game_def Let_def dest: game split: prod.splits sum.splits)

lemma found:
  "cache_found_game env c agent rom g h known st n = (r, st', n') \<Longrightarrow> frame st st'"
  unfolding cache_found_game_def
  by (auto dest!: aliases remember run_game
      split: sum.splits if_splits prod.splits option.splits cache_error.splits) (blast intro: trans)+

lemma queued:
  "cache_queued_rom env c agent rom local known st n = (r, st', n') \<Longrightarrow> frame st st'"
  by (auto simp: cache_queued_rom_def dest!: hashes found
      split: local_answer.splits prod.splits sum.splits option.splits) (blast intro: trans)+

lemma budget:
  "charge_game clock now st = Inr st' \<Longrightarrow> frame st st'"
  "pause_budget clock until st = Inr st' \<Longrightarrow> frame st st'"
  by (auto simp: charge_game_def pause_budget_def budget_save_def write_body_def intro: upsert split: if_splits)

end

section \<open>Following the drain\<close>

fun state_of :: "drain_next \<Rightarrow> drain_state" where
  "state_of (Stop r s) = s"
| "state_of (Next s) = s"
| "state_of (Raised e s) = s"

lemma drain_loop_state:
  assumes step: "\<And>s. P s \<Longrightarrow> P (state_of (drain_step env c agent s))"
  shows "P s \<Longrightarrow> drain_loop fuel env c agent s = Some r \<Longrightarrow> P (state_of r)"
proof (induction fuel arbitrary: s)
  case (Suc k)
  then show ?case using step [OF Suc.prems(1)] by (cases "drain_step env c agent s") auto
qed simp

lemma drain_queue_state:
  assumes step: "\<And>s. P s \<Longrightarrow> P (state_of (drain_step env c agent s))"
    and start: "\<And>m. P (drain_start keys st m)" and leave: "\<And>s. P s \<Longrightarrow> P (leave_block s)"
    and run: "drain_cache_queue fuel env c agent keys st n = Some r"
  shows "P (state_of r)"
proof (cases "de_lock env (mono n)")
  case True
  then obtain q where q: "drain_loop fuel env c agent (drain_start keys st (n\<lparr>limiter := enter_background (limiter n)\<rparr>)) = Some q"
    "r = end_of_block q"
    using run by (auto simp: drain_cache_queue_def)
  have "P (state_of q)" by (rule drain_loop_state [OF step start q(1)])
  then show ?thesis using leave q(2) by (cases q) auto
next
  case False
  then show ?thesis using run start by (auto simp: drain_cache_queue_def finish_def)
qed

locale drain_frame = cache_frame +
  assumes ok_rom [simp]: "ok_key (rom_key r)"
    and erase: "key_match st prefix_cache_queue k \<Longrightarrow> frame st (delete_cache k st)"
begin

lemma remove: "frame st (queue_remove r st)"
  by (simp add: queue_remove_def erase)

lemma failed: "record_failed_attempt clock rom st = Inr st' \<Longrightarrow> frame st st'"
  by (auto simp: record_failed_attempt_def queue_update_def rom_write_def remove intro: upsert split: option.splits)

lemma oldest: "oldest_rom st = (r, st') \<Longrightarrow> frame st st'"
proof (induction st rule: oldest_rom.induct)
  case (1 st)
  show ?case
  proof (cases "oldest_cache_by_prefix st prefix_cache_queue")
    case None
    then show ?thesis using 1(2) by (simp add: oldest_rom.simps [of st])
  next
    case (Some e)
    show ?thesis
    proof (cases "rom_from_json (ce_body e)")
      case None
      have "frame st (delete_cache (ce_key e) st)" using oldest_in [OF Some] erase by blast
      moreover have "oldest_rom (delete_cache (ce_key e) st) = (r, st')"
        using 1(2) Some None by (simp add: oldest_rom.simps [of st])
      ultimately show ?thesis using 1(1) [OF Some None] trans by blast
    qed (use 1(2) Some in \<open>simp add: oldest_rom.simps [of st]\<close>)
  qed
qed

definition follows :: "store \<Rightarrow> drain_state \<Rightarrow> bool" where
  "follows st s = frame st (ds_store s)"

lemma next_rom: "follows st s \<Longrightarrow> next_rom s = (r, s1) \<Longrightarrow> follows st s1"
  by (auto simp: next_rom_def follows_def dest!: oldest split: option.splits prod.splits) (blast intro: trans)

lemma unless:
  assumes "follows st s" "follows st (state_of next)" shows "follows st (state_of (unless_rate_limited s next))"
proof -
  have "follows st (s\<lparr>ds_store := st'\<rparr>)" if "pause_budget t u (ds_store s) = Inr st'" for t u st'
    using budget(2) [OF that] assms(1) trans by (simp add: follows_def)
  then show ?thesis using assms by (auto simp: unless_rate_limited_def finish_def split: option.split sum.split)
qed

lemma settle: "follows st s \<Longrightarrow> follows st (state_of (settle_rom rom out g s))"
  using failed [of "drain_clock s" rom "ds_store s"] remove [of "ds_store s" rom] trans
  by (auto simp: settle_rom_def finish_def report_def follows_def split: sum.split)

lemma attempt: "follows st s \<Longrightarrow> follows st (state_of (attempt_rom env c agent rom local s))"
proof -
  assume st: "follows st s"
  obtain q st1 n where q: "cache_queued_rom env c agent rom local (ds_known s) (ds_store s) (ds_net s) = (q, st1, n)"
    by (metis prod_cases3)
  have 1: "frame st st1" using queued [OF q] st trans by (simp add: follows_def)
  have 2: "frame st st2" if "charge_game t None st1 = Inr st2" for t st2 using budget(1) [OF that] 1 trans by blast
  show ?thesis unfolding attempt_rom_def q Let_def
    using 1 2 by (auto simp: follows_def intro!: unless [unfolded follows_def] settle [unfolded follows_def] split: sum.split)
qed

lemma request:
  assumes "follows st s" "\<And>t s. frame s (de_meanwhile env t s)"
  shows "follows st (state_of (request_rom env c agent rom local s))"
proof -
  have "follows st (begin_item rom l s)" for l using assms(1) by (simp add: follows_def begin_item_def Let_def)
  moreover have "frame st (de_meanwhile env t (ds_store s))" for t
    using assms trans by (simp add: follows_def)
  ultimately show ?thesis using assms(1)
    by (auto simp: request_rom_def Let_def finish_def attempt follows_def [of st "_\<lparr>ds_net := _, ds_store := _\<rparr>"]
        follows_def [of st "_\<lparr>ds_net := _, ds_store := _, ds_known := _, ds_paced := _\<rparr>"] split: prod.split)
qed

lemma step:
  assumes "follows st s" "\<And>t s. frame s (de_meanwhile env t s)"
  shows "follows st (state_of (drain_step env c agent s))"
proof -
  obtain r s1 where n: "next_rom s = (r, s1)" by fastforce
  have s1: "follows st s1" using next_rom [OF assms(1) n] .
  have st: "frame st (ds_store s1)" using s1 by (simp add: follows_def)
  have 1: "frame st (queue_remove rom (ds_store s1))" for rom using st remove trans by blast
  have 2: "frame st (queue_remove rom st')" if "remember_source_rom_path t g u p (ds_store s1) = Inr st'" for rom t g u p st'
    using st remember [OF that] remove trans by blast
  show ?thesis unfolding drain_step_def n
    using assms(1) s1 1 2 request [OF s1 assms(2)]
    by (auto simp: finish_def report_def follows_def intro!: unless [unfolded follows_def]
        split: option.split local_answer.split sum.split)
qed

lemma drain:
  assumes "drain_cache_queue fuel env c agent keys st n = Some r" "\<And>t s. frame s (de_meanwhile env t s)"
  shows "frame st (ds_store (state_of r))"
proof -
  have "follows st (state_of r)"
    using assms(1) by (rule drain_queue_state [rotated -1, where P = "follows st"])
      (auto intro: step assms(2), auto simp: follows_def drain_start_def leave_block_def)
  then show ?thesis by (simp add: follows_def)
qed

end

end
