(* ===== verification/Drain_Laws.thy ===== *)
theory Drain_Laws
  imports Cache_Frame
begin

text \<open>
  The drain of the queue: it returns, it sends its requests at the pace and within the budget, and what it
  leaves in the queue is what it has not settled.
\<close>

section \<open>What caching a game leaves of the queue\<close>

definition queue_frame :: "store \<Rightarrow> store \<Rightarrow> bool" where
  "queue_frame st st' = (wf_store st \<longrightarrow> wf_store st' \<and> is_sqlite st' = is_sqlite st \<and> queue_entries st' = queue_entries st)"

lemma queue_frame_refl [simp]: "queue_frame st st"
  by (simp add: queue_frame_def)

lemma queue_frame_trans: "queue_frame r s \<Longrightarrow> queue_frame s t \<Longrightarrow> queue_frame r t"
  by (auto simp: queue_frame_def)

definition no_queue_key :: "string \<Rightarrow> bool" where
  "no_queue_key k = (\<forall>st. \<not> key_match st prefix_cache_queue k)"

lemma no_queue_keyI: "\<not> starts_with prefix_cache_queue (lower k) \<Longrightarrow> no_queue_key k"
  by (simp add: no_queue_key_def key_match_lower plain_prefixes lower_prefixes)

lemma no_queue_keys [simp]:
  "no_queue_key (patch_key g u)" "no_queue_key (unlocks_key g u)" "no_queue_key (start_session_key g u)"
  "no_queue_key (achievementsets_key g u)" "no_queue_key (game_id_key h)" "no_queue_key key_cache_budget"
  by (rule no_queue_keyI; simp add: patch_key_def unlocks_key_def start_session_key_def achievementsets_key_def
      game_id_key_def key_defs lower_eval)+

lemma queue_frame_upsert:
  "upsert_cache t k b ca src st = Inr st' \<Longrightarrow> no_queue_key k \<Longrightarrow> queue_frame st st'"
  by (simp add: queue_frame_def no_queue_key_def wf_upsert_cache queue_upsert_other upsert_fields(1))

interpretation drain_queue: cache_frame queue_frame no_queue_key
  by unfold_locales (auto intro: queue_frame_trans queue_frame_upsert)

lemmas queue_frame_remember = drain_queue.remember
  and queue_frame_queued = drain_queue.queued
  and queue_frame_budget = drain_queue.budget

section \<open>The drain returns\<close>

text \<open>Every readable entry of the queue stands under the key of its ROM.\<close>

definition queue_ok :: "store \<Rightarrow> bool" where
  "queue_ok st = (wf_store st \<and>
     (\<forall>e \<in> set (queue_entries st). \<forall>r. rom_from_json (ce_body e) = Some r \<longrightarrow> rom_key r = ce_key e))"

lemma queue_ok_frame: "queue_frame st st' \<Longrightarrow> queue_ok st \<Longrightarrow> queue_ok st' \<and> queue_entries st' = queue_entries st"
  by (simp add: queue_ok_def queue_frame_def)

lemma queue_ok_delete: "queue_ok st \<Longrightarrow> queue_ok (delete_cache k st)"
  by (simp add: queue_ok_def wf_deletes queue_delete)

lemma delete_front_shorter:
  "k \<in> set (queue_keys st) \<Longrightarrow> length (queue_entries (delete_cache k st)) < length (queue_entries st)"
  by (auto simp: queue_delete queue_keys_def intro: length_filter_less)

lemma queue_entry_unique:
  "wf_store st \<Longrightarrow> x \<in> set (queue_entries st) \<Longrightarrow> y \<in> set (queue_entries st) \<Longrightarrow> ce_key x = ce_key y \<Longrightarrow> x = y"
  using distinct_queue_keys [of st] by (auto simp: queue_keys_def distinct_map dest: inj_onD)

lemma oldest_rom_ok:
  assumes "queue_ok st" "oldest_rom st = (r, st')"
  shows "queue_ok st' \<and> set (queue_entries st') \<subseteq> set (queue_entries st) \<and>
    length (queue_entries st') \<le> length (queue_entries st) \<and>
    (\<forall>rom. r = Some rom \<longrightarrow> rom_key rom \<in> set (queue_keys st')) \<and>
    (r = None \<longrightarrow> queue_entries st' = []) \<and>
    (\<forall>e \<in> set (queue_entries st) - set (queue_entries st'). rom_from_json (ce_body e) = None)"
  using assms
proof (induction st rule: oldest_rom.induct)
  case (1 st)
  show ?case
  proof (cases "queue_entries st")
    case Nil
    then show ?thesis using 1 by (simp add: oldest_rom.simps [of st] oldest_queue)
  next
    case (Cons e es)
    have old: "oldest_cache_by_prefix st prefix_cache_queue = Some e" by (simp add: oldest_queue Cons)
    show ?thesis
    proof (cases "rom_from_json (ce_body e)")
      case None
      have del: "queue_entries (delete_cache (ce_key e) st) = filter (\<lambda>x. ce_key x \<noteq> ce_key e) (queue_entries st)"
        by (rule queue_delete)
      have gone: "x = e" if "x \<in> set (queue_entries st)" "x \<notin> set (queue_entries (delete_cache (ce_key e) st))" for x
        using that Cons del queue_entry_unique [OF _ that(1), of e] 1(2) by (auto simp: queue_ok_def)
      have "oldest_rom (delete_cache (ce_key e) st) = (r, st')" using 1(3) old None by (simp add: oldest_rom.simps [of st])
      note IH = 1(1) [OF old None queue_ok_delete [OF 1(2)] this]
      have "length (queue_entries st') \<le> length (queue_entries st)"
        using IH delete_front_shorter [of "ce_key e" st] Cons by (simp add: queue_keys_def)
      moreover have "set (queue_entries st') \<subseteq> set (queue_entries st)" using IH del by auto
      moreover have "\<forall>x \<in> set (queue_entries st) - set (queue_entries st'). rom_from_json (ce_body x) = None"
        using IH gone None by blast
      ultimately show ?thesis using IH by blast
    next
      case (Some rom)
      then have "r = Some rom" "st' = st" using 1(3) old by (simp_all add: oldest_rom.simps [of st])
      moreover have "rom_key rom = ce_key e" using 1(2) Cons Some by (simp add: queue_ok_def)
      ultimately show ?thesis using 1(2) Cons by (simp add: queue_keys_def)
    qed
  qed
qed

definition rom_keys_only :: "string list option \<Rightarrow> bool" where
  "rom_keys_only keys = (\<forall>ks. keys = Some ks \<longrightarrow> set ks \<subseteq> range rom_key)"

definition drain_inv :: "drain_state \<Rightarrow> bool" where
  "drain_inv s = (queue_ok (ds_store s) \<and> rom_keys_only (ds_keys s))"

definition waiting :: "drain_state \<Rightarrow> nat" where
  "waiting s = length (queue_entries (ds_store s))"

lemma first_waiting_cases:
  "first_waiting st ks = (r, ks') \<Longrightarrow> set ks' \<subseteq> set ks \<and> (\<forall>rom. r = Some rom \<longrightarrow> (\<exists>k \<in> set ks. queue_get st k = Some rom))"
  by (induction ks) (auto split: option.splits)

lemma queue_get_key:
  assumes "queue_ok st" "queue_get st (rom_key q) = Some rom"
  shows "rom_key rom = rom_key q \<and> rom_key rom \<in> set (queue_keys st)"
proof -
  obtain e where e: "get_cache st (rom_key q) = Some e" "rom_from_json (ce_body e) = Some rom"
    using assms(2) by (auto simp: queue_get_def split: option.splits)
  then have "e \<in> set (queue_entries st)" "ce_key e = rom_key q"
    using get_cache_Some [OF e(1)] rom_key_matches [of st q] by (simp_all add: queue_entries_def)
  then show ?thesis using assms(1) e(2) by (force simp: queue_ok_def queue_keys_def)
qed

lemma next_rom_cases:
  assumes "drain_inv s" "next_rom s = (r, s1)"
  shows "drain_inv s1 \<and> set (queue_entries (ds_store s1)) \<subseteq> set (queue_entries (ds_store s)) \<and> waiting s1 \<le> waiting s \<and>
    (\<forall>rom. r = Some rom \<longrightarrow> rom_key rom \<in> set (queue_keys (ds_store s1))) \<and>
    (r = None \<longrightarrow> ds_keys s = None \<longrightarrow> queue_entries (ds_store s1) = []) \<and>
    (\<forall>e \<in> set (queue_entries (ds_store s)) - set (queue_entries (ds_store s1)). rom_from_json (ce_body e) = None) \<and>
    s1 = s\<lparr>ds_store := ds_store s1, ds_keys := ds_keys s1\<rparr>"
proof (cases "ds_keys s")
  case None
  then obtain st where "oldest_rom (ds_store s) = (r, st)" "s1 = s\<lparr>ds_store := st\<rparr>"
    using assms(2) by (auto simp: next_rom_def split: prod.splits)
  then show ?thesis using oldest_rom_ok [of "ds_store s" r st] assms(1) None by (auto simp: drain_inv_def waiting_def)
next
  case (Some ks)
  then obtain ks' where f: "first_waiting (ds_store s) ks = (r, ks')" "s1 = s\<lparr>ds_keys := Some ks'\<rparr>"
    using assms(2) by (auto simp: next_rom_def split: prod.splits)
  have "rom_key rom \<in> set (queue_keys (ds_store s))" if "r = Some rom" for rom
    using first_waiting_cases [OF f(1)] that assms(1) Some queue_get_key
    by (fastforce simp: drain_inv_def rom_keys_only_def)
  then show ?thesis using first_waiting_cases [OF f(1)] f assms(1) Some
    by (auto simp: drain_inv_def waiting_def rom_keys_only_def)
qed

text \<open>What other processes do to the queue while this one waits for its pace: they settle ROMs and add none.\<close>

definition calm :: "drain_env \<Rightarrow> bool" where
  "calm env = (\<forall>t st. queue_ok st \<longrightarrow> queue_ok (de_meanwhile env t st) \<and>
     length (queue_entries (de_meanwhile env t st)) \<le> length (queue_entries st))"

definition drain_rank :: "drain_state \<Rightarrow> nat" where
  "drain_rank s = 2 * waiting s + (if ds_paced s then 0 else 1)"

lemma unless_rate_limited_Next: "unless_rate_limited s next = Next s' \<Longrightarrow> next = Next s'"
  by (auto simp: unless_rate_limited_def finish_def split: option.splits sum.splits)

lemma settle_rom_Next:
  "settle_rom rom out g s = Next s' \<Longrightarrow> ds_store s' = delete_cache (rom_key rom) (ds_store s) \<and> ds_keys s' = ds_keys s \<and>
     ds_paced s' = ds_paced s"
  by (auto simp: settle_rom_def finish_def report_def queue_remove_def split: if_splits sum.splits)

lemma attempt_rom_Next:
  assumes "attempt_rom env c agent rom local s = Next s'"
  shows "\<exists>st. queue_frame (ds_store s) st \<and> ds_store s' = delete_cache (rom_key rom) st \<and> ds_keys s' = ds_keys s \<and>
    ds_paced s' = ds_paced s"
proof -
  obtain out g st n st1 where q: "cache_queued_rom env c agent rom local (ds_known s) (ds_store s) (ds_net s) = (Inr (out, g), st, n)"
    and ch: "(if out = OutCached then charge_game (wall_now n) None st else Inr st) = Inr st1"
    and nx: "unless_rate_limited (s\<lparr>ds_store := st1, ds_net := n\<rparr>) (settle_rom rom out g (s\<lparr>ds_store := st1, ds_net := n\<rparr>)) = Next s'"
    using assms by (auto simp: attempt_rom_def Let_def split: prod.splits sum.splits)
  have "queue_frame (ds_store s) st1"
    using queue_frame_queued [OF q] queue_frame_budget(1) ch queue_frame_trans by (auto split: if_splits)
  then show ?thesis using settle_rom_Next [OF unless_rate_limited_Next [OF nx]] by auto
qed

lemma drain_inv_removed:
  assumes "drain_inv s" "rom_key rom \<in> set (queue_keys (ds_store s))" "queue_frame (ds_store s) st"
    and "ds_store s' = delete_cache (rom_key rom) st" "ds_keys s' = ds_keys s"
  shows "drain_inv s' \<and> waiting s' < waiting s"
proof -
  have "queue_ok st" "queue_entries st = queue_entries (ds_store s)"
    using queue_ok_frame [OF assms(3)] assms(1) by (simp_all add: drain_inv_def)
  then show ?thesis using assms delete_front_shorter [of "rom_key rom" st]
    by (simp add: drain_inv_def waiting_def queue_ok_delete queue_keys_def)
qed

lemma request_rom_Next:
  assumes "request_rom env c agent rom local s = Next s'" "drain_inv s" "rom_key rom \<in> set (queue_keys (ds_store s))" "calm env"
  shows "drain_inv s' \<and> drain_rank s' < drain_rank s"
proof (cases "ds_requested s > 0 \<and> \<not> ds_paced s \<and> past_burst (drain_clock s) (ds_store s) (ds_requested s)")
  case True
  then obtain t where "ds_store s' = de_meanwhile env t (ds_store s)" "ds_keys s' = ds_keys s" "ds_paced s'"
    using assms(1) by (auto simp: request_rom_def Let_def finish_def split: if_splits prod.splits)
  moreover have "queue_ok (de_meanwhile env t (ds_store s)) \<and>
      length (queue_entries (de_meanwhile env t (ds_store s))) \<le> length (queue_entries (ds_store s))"
    using assms(2, 4) by (simp add: drain_inv_def calm_def)
  ultimately show ?thesis using assms(2) True by (auto simp: drain_inv_def drain_rank_def waiting_def)
next
  case False
  let ?s = "begin_item rom (store_remaining (drain_clock s) None (ds_store s)) s"
  have "attempt_rom env c agent rom local ?s = Next s'"
    using assms(1) False by (auto simp: request_rom_def Let_def finish_def split: if_splits)
  then obtain st where "queue_frame (ds_store s) st" "ds_store s' = delete_cache (rom_key rom) st" "ds_keys s' = ds_keys s"
    using attempt_rom_Next by (fastforce simp: begin_item_def Let_def)
  then have "drain_inv s' \<and> waiting s' < waiting s" by (rule drain_inv_removed [OF assms(2, 3)])
  then show ?thesis by (auto simp: drain_rank_def)
qed

lemma drain_step_Next:
  assumes "drain_step env c agent s = Next s'" "drain_inv s" "calm env"
  shows "drain_inv s' \<and> drain_rank s' < drain_rank s"
proof -
  obtain rom s1 where nr: "next_rom s = (Some rom, s1)"
    and body: "(case local_game_id_answer (ds_store s1) (drain_clock s1) (rom_hashes rom) of
         NoMatch \<Rightarrow> Next (report rom OutNoMatch None
           (s1\<lparr>ds_store := queue_remove rom (ds_store s1), ds_no_match := ds_no_match s1 + 1\<rparr>))
       | KnownGame g h \<Rightarrow>
          if g \<in> set (ds_known s1) then
            (case remember_source_rom_path (drain_clock s1) g (cr_user c) (qr_source rom) (ds_store s1) of
               Inl e \<Rightarrow> Raised e s1
             | Inr st \<Rightarrow> Next (report rom OutAlreadyCached (Some g) (s1\<lparr>ds_store := queue_remove rom st\<rparr>)))
          else request_rom env c agent rom (KnownGame g h) s1
       | Unknown \<Rightarrow> request_rom env c agent rom Unknown s1) = Next s'"
    using assms(1)
    by (auto simp: drain_step_def finish_def dest!: unless_rate_limited_Next split: if_splits prod.splits option.splits)
  note N = next_rom_cases [OF assms(2) nr]
  have key: "rom_key rom \<in> set (queue_keys (ds_store s1))" and inv: "drain_inv s1" using N by simp_all
  have paced: "ds_paced s1 = ds_paced s" using N by (metis drain_state.select_convs(9) drain_state.surjective drain_state.update_convs(1, 3))
  have rank: "drain_rank s1 \<le> drain_rank s" using N paced by (simp add: drain_rank_def)
  have removed: "drain_inv s' \<and> drain_rank s' < drain_rank s"
    if "queue_frame (ds_store s1) st" "ds_store s' = delete_cache (rom_key rom) st" "ds_keys s' = ds_keys s1" for st
    using drain_inv_removed [OF inv key that] N rank by (simp add: drain_rank_def)
  show ?thesis
  proof (cases "local_game_id_answer (ds_store s1) (drain_clock s1) (rom_hashes rom)")
    case Unknown
    then show ?thesis using request_rom_Next [OF _ inv key assms(3)] body rank by fastforce
  next
    case NoMatch
    then show ?thesis using body removed [of "ds_store s1"] by (auto simp: report_def queue_remove_def)
  next
    case (KnownGame g h)
    show ?thesis
    proof (cases "g \<in> set (ds_known s1)")
      case True
      then obtain st where "remember_source_rom_path (drain_clock s1) g (cr_user c) (qr_source rom) (ds_store s1) = Inr st"
        and "s' = report rom OutAlreadyCached (Some g) (s1\<lparr>ds_store := queue_remove rom st\<rparr>)"
        using body KnownGame by (auto split: sum.splits)
      then show ?thesis using removed [of st] queue_frame_remember by (auto simp: report_def queue_remove_def)
    next
      case False
      then show ?thesis using request_rom_Next [OF _ inv key assms(3)] body KnownGame rank by fastforce
    qed
  qed
qed

lemma drain_loop_returns:
  "drain_rank s < fuel \<Longrightarrow> drain_inv s \<Longrightarrow> calm env \<Longrightarrow> drain_loop fuel env c agent s \<noteq> None"
proof (induction fuel arbitrary: s)
  case (Suc k)
  show ?case
  proof (cases "drain_step env c agent s")
    case (Next s1)
    then show ?thesis using Suc.IH [of s1] drain_step_Next [OF Next Suc.prems(2, 3)] Suc.prems by simp
  qed simp_all
qed simp

lemma drain_inv_start: "queue_ok st \<Longrightarrow> rom_keys_only keys \<Longrightarrow> drain_inv (drain_start keys st n)"
  by (auto simp: drain_inv_def drain_start_def rom_keys_only_def unique_keys_def)

text \<open>C15: the drain of the queue returns: each turn of its loop ends it, settles a waiting ROM, or waits once
  for the pace, so two turns for each waiting ROM and one more suffice, as long as no other process adds
  ROMs meanwhile.\<close>

theorem drain_returns:
  assumes "queue_ok st" "rom_keys_only keys" "calm env" "2 * nat (queue_count st) + 1 < fuel"
  shows "drain_cache_queue fuel env c agent keys st n \<noteq> None"
proof -
  have "drain_loop fuel env c agent (drain_start keys st (n\<lparr>limiter := enter_background (limiter n)\<rparr>)) \<noteq> None"
    using assms by (intro drain_loop_returns drain_inv_start)
      (simp_all add: drain_rank_def waiting_def drain_start_def queue_count_keys queue_keys_def)
  then show ?thesis by (simp add: drain_cache_queue_def)
qed

definition silent_env :: drain_env where
  "silent_env = \<lparr>de_host = ''https://retroachievements.org'', de_fallback = ''UA'', de_tag = ''RAOfflineProxy'',
     de_answers = \<lambda>_ _. (50, ConnectionFailed), de_pause = \<lambda>_. False, de_meanwhile = \<lambda>_ st. st, de_lock = \<lambda>_. True\<rparr>"

definition idle_net :: net_state where
  "idle_net = \<lparr>mono = 1000, wall = 4000, last_request_at = 0, tracker = \<lparr>reachable = False, checked_at = 0\<rparr>,
     limiter = \<lparr>pause_end = 0, bg_depth = 0\<rparr>, usage_log = [], sent_at = []\<rparr>"

lemma empty_queue [simp]: "queue_entries (empty_store sqlite) = []"
  by (simp add: queue_entries_def empty_store_def)

section \<open>The pace\<close>

text \<open>From the twentieth ROM of a drain on, its requests begin a pace apart.\<close>

definition paced_starts :: "int list \<Rightarrow> bool" where
  "paced_starts ts = (\<forall>i. Suc i < length ts \<longrightarrow> CACHE_BURST_GAMES \<le> int (Suc i) \<longrightarrow> ts ! i + CACHE_PACE_MS \<le> ts ! Suc i)"

definition pace_inv :: "drain_state \<Rightarrow> bool" where
  "pace_inv s = (paced_starts (ds_starts s) \<and> ds_requested s = int (length (ds_starts s)) \<and>
     (ds_starts s \<noteq> [] \<longrightarrow> ds_next_request_at s = last (ds_starts s) + CACHE_PACE_MS) \<and>
     (ds_paced s \<longrightarrow> ds_next_request_at s \<le> mono (ds_net s)))"

text \<open>What every outcome of a step carries on.\<close>

lemma paced_starts_snoc:
  "paced_starts ts \<Longrightarrow> (ts \<noteq> [] \<Longrightarrow> CACHE_BURST_GAMES \<le> int (length ts) \<Longrightarrow> last ts + CACHE_PACE_MS \<le> t) \<Longrightarrow> paced_starts (ts @ [t])"
proof -
  assume ts: "paced_starts ts" and t: "ts \<noteq> [] \<Longrightarrow> CACHE_BURST_GAMES \<le> int (length ts) \<Longrightarrow> last ts + CACHE_PACE_MS \<le> t"
  have "(ts @ [t]) ! i + CACHE_PACE_MS \<le> (ts @ [t]) ! Suc i"
    if i: "Suc i < length (ts @ [t])" "CACHE_BURST_GAMES \<le> int (Suc i)" for i
  proof (cases "Suc i < length ts")
    case True
    then show ?thesis using ts i by (simp add: paced_starts_def nth_append)
  next
    case False
    then have n: "length ts = Suc i" using i by simp
    then have ne: "ts \<noteq> []" by auto
    have "ts ! i = last ts" using n ne by (simp add: last_conv_nth)
    then show ?thesis using t [OF ne] i n by (simp add: nth_append)
  qed
  then show ?thesis by (auto simp: paced_starts_def)
qed

lemma wait_for_pace_ready: "wait_for_pace pause r n = (True, n') \<Longrightarrow> r \<le> mono n'"
  by (induction pause r n rule: wait_for_pace.induct) (subst (asm) wait_for_pace.simps, auto split: if_splits)

lemma unless_rate_limited_state:
  "P s \<Longrightarrow> P (state_of next) \<Longrightarrow> (\<And>st. P s \<Longrightarrow> P (s\<lparr>ds_store := st\<rparr>)) \<Longrightarrow> P (state_of (unless_rate_limited s next))"
  by (simp add: unless_rate_limited_def finish_def split: option.split sum.split)

lemma pace_inv_fields [simp]:
  "pace_inv (s\<lparr>ds_store := st\<rparr>) = pace_inv s" "pace_inv (s\<lparr>ds_keys := ks\<rparr>) = pace_inv s"
  "pace_inv (s\<lparr>ds_known := kn\<rparr>) = pace_inv s" "pace_inv (s\<lparr>ds_reports := rs\<rparr>) = pace_inv s"
  "pace_inv (s\<lparr>ds_cached := i\<rparr>) = pace_inv s" "pace_inv (s\<lparr>ds_no_match := i\<rparr>) = pace_inv s"
  by (simp_all add: pace_inv_def)

lemma next_rom_all: "next_rom s = (r, s1) \<Longrightarrow> ds_keys s1 = None \<longleftrightarrow> ds_keys s = None"
  by (auto simp: next_rom_def split: prod.splits option.splits)

lemma keys_unless:
  "ds_keys s = ks \<Longrightarrow> ds_keys (state_of next) = ks \<Longrightarrow> ds_keys (state_of (unless_rate_limited s next)) = ks"
  by (rule unless_rate_limited_state [where P = "\<lambda>s. ds_keys s = ks"]) simp_all

lemma keys_settle: "ds_keys (state_of (settle_rom rom out g s)) = ds_keys s"
  by (simp add: settle_rom_def finish_def report_def split: sum.split)

lemma keys_attempt: "ds_keys (state_of (attempt_rom env c agent rom local s)) = ds_keys s"
  unfolding attempt_rom_def Let_def by (auto simp: keys_settle intro!: keys_unless split: prod.split sum.split)

lemma keys_request: "ds_keys (state_of (request_rom env c agent rom local s)) = ds_keys s"
  by (simp add: request_rom_def Let_def finish_def keys_attempt begin_item_def split: prod.split)

lemma drain_step_keys: "ds_keys s = None \<Longrightarrow> ds_keys (state_of (drain_step env c agent s)) = None"
  unfolding drain_step_def
  by (auto simp: finish_def report_def keys_request intro!: keys_unless dest: next_rom_all
      split: prod.split option.split local_answer.split sum.split)

lemma pace_inv_settle: "pace_inv s \<Longrightarrow> pace_inv (state_of (settle_rom rom out g s))"
  by (simp add: settle_rom_def finish_def report_def split: sum.split)

lemma pace_inv_unless: "pace_inv s \<Longrightarrow> pace_inv (state_of next) \<Longrightarrow> pace_inv (state_of (unless_rate_limited s next))"
  by (rule unless_rate_limited_state [where P = pace_inv]) simp_all

lemma pace_inv_attempt:
  assumes "pace_inv s" "\<not> ds_paced s"
  shows "pace_inv (state_of (attempt_rom env c agent rom local s))"
proof -
  have net: "pace_inv (s\<lparr>ds_store := st, ds_net := n\<rparr>)" for st n using assms by (simp add: pace_inv_def)
  show ?thesis unfolding attempt_rom_def Let_def
    by (auto simp: net intro!: pace_inv_unless pace_inv_settle split: prod.split sum.split)
qed

lemma pace_inv_request:
  assumes "pace_inv s"
  shows "pace_inv (state_of (request_rom env c agent rom local s))"
proof -
  let ?wait = "ds_requested s > 0 \<and> \<not> ds_paced s \<and> past_burst (drain_clock s) (ds_store s) (ds_requested s)"
  have waited: "pace_inv (s\<lparr>ds_net := n, ds_store := st, ds_known := kn, ds_paced := True\<rparr>)"
    if "wait_for_pace p (ds_next_request_at s) (ds_net s) = (True, n)" for p n st kn
    using assms wait_for_pace_ready [OF that] by (simp add: pace_inv_def)
  have paused: "pace_inv (s\<lparr>ds_net := n, ds_store := st\<rparr>)" if ?wait for n st
    using assms that by (simp add: pace_inv_def)
  have begun: "pace_inv (begin_item rom l s)" if "\<not> ?wait" for l
  proof -
    have "last (ds_starts s) + CACHE_PACE_MS \<le> mono (ds_net s)"
      if "ds_starts s \<noteq> []" "CACHE_BURST_GAMES \<le> int (length (ds_starts s))"
      using that \<open>\<not> ?wait\<close> assms by (auto simp: pace_inv_def past_burst_def)
    then show ?thesis using assms paced_starts_snoc by (simp add: pace_inv_def begin_item_def Let_def)
  qed
  have attempted: "pace_inv (state_of (attempt_rom env c agent rom local (begin_item rom l s)))" if "\<not> ?wait" for l
    using pace_inv_attempt [OF begun [OF that]] by (simp add: begin_item_def Let_def)
  show ?thesis using assms waited paused attempted
    by (auto simp: request_rom_def Let_def finish_def split: prod.split)
qed

lemma next_rom_fields:
  "next_rom s = (r, s1) \<Longrightarrow> \<exists>st ks. s1 = s\<lparr>ds_store := st, ds_keys := ks\<rparr>"
  by (auto simp: next_rom_def split: option.splits prod.splits) (metis drain_state.surjective drain_state.update_convs(1, 3))+

lemma pace_inv_step: "pace_inv s \<Longrightarrow> pace_inv (state_of (drain_step env c agent s))"
  unfolding drain_step_def
  by (auto simp: finish_def report_def intro!: pace_inv_unless pace_inv_request dest!: next_rom_fields
      split: prod.split option.split local_answer.split sum.split)

text \<open>C16: past the first twenty ROMs of a drain, the requests of two ROMs begin at least eighteen seconds
  apart, whatever the server answers, however long it takes and whatever other callers do meanwhile.\<close>

theorem drain_paces_requests:
  assumes "drain_cache_queue fuel env c agent keys st n = Some r"
  shows "paced_starts (ds_starts (state_of r)) \<and> CACHE_PACE_MS = 18000"
proof -
  have "pace_inv (drain_start keys st m)" for m by (simp add: pace_inv_def drain_start_def paced_starts_def)
  moreover have "pace_inv s \<Longrightarrow> pace_inv (leave_block s)" for s by (simp add: pace_inv_def leave_block_def)
  ultimately have "pace_inv (state_of r)" using drain_queue_state [of pace_inv, OF pace_inv_step _ _ assms] by blast
  then show ?thesis by (simp add: pace_inv_def CACHE_PACE_MS_def CACHE_BUDGET_WINDOW_MS_def CACHE_BUDGET_LIMIT_def)
qed

section \<open>The account of the queue\<close>

text \<open>Nobody else touches the queue while the loop waits.\<close>

definition secluded :: "drain_env \<Rightarrow> bool" where
  "secluded env = (\<forall>t st. queue_frame st (de_meanwhile env t st))"

definition reported :: "rom_outcome \<Rightarrow> drain_state \<Rightarrow> int" where
  "reported out s = int (length (filter (\<lambda>(k, o', g). o' = out) (ds_reports s)))"

definition counted :: "drain_state \<Rightarrow> bool" where
  "counted s = (ds_cached s = reported OutCached s \<and> ds_no_match s = reported OutNoMatch s)"

definition drain_account :: "store \<Rightarrow> drain_state \<Rightarrow> bool" where
  "drain_account st0 s =
     ((\<forall>e \<in> set (queue_entries st0). ce_key e \<in> set (queue_keys (ds_store s)) \<or> rom_from_json (ce_body e) = None \<or>
        ce_key e \<in> fst ` set (ds_reports s)) \<and>
      (\<forall>(k, out, g) \<in> set (ds_reports s). out \<noteq> OutFailed \<longrightarrow> k \<notin> set (queue_keys (ds_store s))) \<and>
      set (queue_keys (ds_store s)) \<subseteq> set (queue_keys st0) \<and> counted s)"

definition account_inv :: "store \<Rightarrow> drain_state \<Rightarrow> bool" where
  "account_inv st0 s = (drain_inv s \<and> set (queue_entries (ds_store s)) \<subseteq> set (queue_entries st0) \<and>
     (\<forall>e \<in> set (queue_entries st0). e \<in> set (queue_entries (ds_store s)) \<or> rom_from_json (ce_body e) = None \<or>
        ce_key e \<in> fst ` set (ds_reports s)) \<and>
     (\<forall>(k, out, g) \<in> set (ds_reports s). k \<notin> set (queue_keys (ds_store s))) \<and> counted s)"

lemma account_inv_account: "account_inv st0 s \<Longrightarrow> drain_account st0 s"
  unfolding account_inv_def drain_account_def queue_keys_def by fastforce

lemma account_frame:
  assumes "account_inv st0 s" "queue_frame (ds_store s) st" "ds_store s' = st" "ds_keys s' = ds_keys s"
    and "ds_reports s' = ds_reports s" "ds_cached s' = ds_cached s" "ds_no_match s' = ds_no_match s"
  shows "account_inv st0 s'"
proof -
  have "queue_ok st" "queue_entries st = queue_entries (ds_store s)"
    using queue_ok_frame [OF assms(2)] assms(1) by (simp_all add: account_inv_def drain_inv_def)
  then show ?thesis using assms
    by (simp add: account_inv_def drain_inv_def queue_keys_def counted_def reported_def)
qed

lemma account_settled:
  assumes "account_inv st0 s" "queue_frame (ds_store s) st" "rom_key rom \<in> set (queue_keys (ds_store s))"
    and "ds_store s' = delete_cache (rom_key rom) st" "ds_keys s' = ds_keys s"
    and "ds_reports s' = ds_reports s @ [(rom_key rom, out, g)]"
    and "ds_cached s' = ds_cached s + (if out = OutCached then 1 else 0)"
    and "ds_no_match s' = ds_no_match s + (if out = OutNoMatch then 1 else 0)"
  shows "account_inv st0 s'"
proof -
  have st: "queue_ok st" "queue_entries st = queue_entries (ds_store s)"
    using queue_ok_frame [OF assms(2)] assms(1) by (simp_all add: account_inv_def drain_inv_def)
  have es: "queue_entries (ds_store s') = filter (\<lambda>e. ce_key e \<noteq> rom_key rom) (queue_entries (ds_store s))"
    by (simp add: assms(4) queue_delete st(2))
  have "drain_inv s'" using drain_inv_removed [OF _ assms(3, 2) assms(4, 5)] assms(1) by (simp add: account_inv_def)
  moreover have "counted s'" using assms by (simp add: account_inv_def counted_def reported_def)
  moreover have "set (queue_keys (ds_store s')) \<subseteq> set (queue_keys (ds_store s)) - {rom_key rom}"
    by (auto simp: queue_keys_def es)
  moreover have "\<forall>e \<in> set (queue_entries st0). e \<in> set (queue_entries (ds_store s')) \<or> rom_from_json (ce_body e) = None \<or>
      ce_key e \<in> fst ` set (ds_reports s')"
    using assms(1) by (auto simp: account_inv_def es assms(6))
  ultimately show ?thesis using assms(1) by (fastforce simp: account_inv_def es assms(6))
qed

text \<open>A step either goes on with the account kept, or ends with the account made up.\<close>

definition accounted :: "store \<Rightarrow> drain_next \<Rightarrow> bool" where
  "accounted st0 next = (case next of
       Next s \<Rightarrow> account_inv st0 s
     | Stop r s \<Rightarrow> drain_account st0 s \<and> dr_cached r = ds_cached s \<and> dr_no_match r = ds_no_match s \<and>
         (dr_stop r = StopEmpty \<longrightarrow> ds_keys s = None \<longrightarrow> queue_keys (ds_store s) = [])
     | Raised e s \<Rightarrow> drain_account st0 s)"

lemma accounted_finish:
  "drain_account st0 s \<Longrightarrow> stop \<noteq> StopEmpty \<Longrightarrow> accounted st0 (finish stop a b s)"
  by (simp add: accounted_def finish_def)

lemma accounted_unless:
  assumes "account_inv st0 s" "accounted st0 next"
  shows "accounted st0 (unless_rate_limited s next)"
proof -
  have "drain_account st0 (s\<lparr>ds_store := st\<rparr>)" if "pause_budget clock until (ds_store s) = Inr st" for clock until st
    using account_frame [OF assms(1) queue_frame_budget(2) [OF that], of "s\<lparr>ds_store := st\<rparr>"] account_inv_account by simp
  then show ?thesis using assms account_inv_account [OF assms(1)]
    by (auto simp: unless_rate_limited_def accounted_finish split: option.split sum.split) (simp add: accounted_def)
qed

lemma queue_keys_failed:
  assumes "wf_store st" "rom_key rom \<in> set (queue_keys st)" "record_failed_attempt clock rom st = Inr st'"
  shows "set (queue_keys st) - {rom_key rom} \<subseteq> set (queue_keys st') \<and> set (queue_keys st') \<subseteq> set (queue_keys st)"
proof (cases "after_failed_attempt rom")
  case None
  then show ?thesis using assms(3) by (auto simp: record_failed_attempt_def queue_remove_def queue_keys_def queue_delete)
next
  case (Some retry)
  then have "rom_key retry = rom_key rom"
    by (auto simp: after_failed_attempt_def rom_key_def Let_def split: if_splits)
  moreover have "queue_update clock retry st = Inr st'" using assms(3) Some by (simp add: record_failed_attempt_def)
  ultimately have "queue_keys st' = queue_keys st"
    using queue_upsert_again [OF assms(1)] assms(2) queue_keys_get by (metis queue_update_def rom_write_def)
  then show ?thesis by auto
qed

lemma accounted_settle:
  assumes "account_inv st0 s" "rom_key rom \<in> set (queue_keys (ds_store s))"
  shows "accounted st0 (settle_rom rom out g s)"
proof (cases "out = OutAuthRejected \<or> out = OutFailed")
  case True
  have wf: "wf_store (ds_store s)" using assms(1) by (simp add: account_inv_def drain_inv_def queue_ok_def)
  note A = account_inv_account [OF assms(1)]
  have "drain_account st0 (report rom OutFailed g (s\<lparr>ds_store := st\<rparr>))"
    if "record_failed_attempt (drain_clock s) rom (ds_store s) = Inr st" for st
  proof -
    note K = queue_keys_failed [OF wf assms(2) that]
    have "\<forall>(k, out, g) \<in> set (ds_reports s). k \<notin> set (queue_keys st)" using assms(1) K by (auto simp: account_inv_def)
    moreover have "counted (report rom OutFailed g (s\<lparr>ds_store := st\<rparr>))"
      using assms(1) by (simp add: account_inv_def counted_def reported_def report_def)
    ultimately show ?thesis using A K unfolding drain_account_def report_def by fastforce
  qed
  then show ?thesis using True A
    by (auto simp: settle_rom_def accounted_finish split: sum.split) (simp add: accounted_def)
next
  case False
  then show ?thesis
    using account_settled [OF assms(1) queue_frame_refl assms(2), where out = out and g = g]
    by (simp add: settle_rom_def report_def queue_remove_def accounted_def)
qed

lemma raised_accounted: "account_inv st0 s \<Longrightarrow> accounted st0 (Raised e s)"
  by (simp add: accounted_def account_inv_account)

lemma accounted_attempt:
  assumes inv: "account_inv st0 s" and key: "rom_key rom \<in> set (queue_keys (ds_store s))"
  shows "accounted st0 (attempt_rom env c agent rom local s)"
proof -
  obtain r st n where q: "cache_queued_rom env c agent rom local (ds_known s) (ds_store s) (ds_net s) = (r, st, n)"
    by (cases "cache_queued_rom env c agent rom local (ds_known s) (ds_store s) (ds_net s)") auto
  have moved: "account_inv st0 (s\<lparr>ds_store := t, ds_net := n\<rparr>)" "rom_key rom \<in> set (queue_keys t)"
    if "queue_frame (ds_store s) t" for t
    using account_frame [OF inv that, of "s\<lparr>ds_store := t, ds_net := n\<rparr>"] queue_ok_frame [OF that] inv key
    by (simp_all add: account_inv_def drain_inv_def queue_keys_def)
  note frame = queue_frame_queued [OF q]
  show ?thesis
  proof (cases r)
    case (Inl e)
    then show ?thesis using raised_accounted [OF moved(1) [OF frame]] by (simp add: attempt_rom_def q)
  next
    case (Inr og)
    obtain out g where og: "og = (out, g)" by (cases og)
    have "queue_frame (ds_store s) t" if "(if out = OutCached then charge_game (wall_now n) None st else Inr st) = Inr t" for t
      using that frame queue_frame_budget(1) queue_frame_trans by (auto split: if_splits)
    note m = moved [OF this]
    show ?thesis unfolding attempt_rom_def q Inr og Let_def
      using raised_accounted [OF moved(1) [OF frame]] accounted_unless [OF m(1)] accounted_settle [OF m(1)] m(2)
      by (auto split: sum.split)
  qed
qed

lemma accounted_request:
  assumes inv: "account_inv st0 s" and key: "rom_key rom \<in> set (queue_keys (ds_store s))" and "secluded env"
  shows "accounted st0 (request_rom env c agent rom local s)"
proof -
  have waited: "account_inv st0 s'"
    if "ds_store s' = de_meanwhile env t (ds_store s)" "ds_keys s' = ds_keys s" "ds_reports s' = ds_reports s"
      "ds_cached s' = ds_cached s" "ds_no_match s' = ds_no_match s" for s' t
    by (rule account_frame [OF inv _ refl that(2-5)]) (use assms(3) that(1) in \<open>simp add: secluded_def\<close>)
  have begun: "account_inv st0 (begin_item rom l s)" for l
    using inv by (simp add: begin_item_def Let_def account_inv_def drain_inv_def counted_def reported_def)
  have attempted: "accounted st0 (attempt_rom env c agent rom local (begin_item rom l s))" for l
    by (rule accounted_attempt [OF begun]) (simp add: begin_item_def Let_def key)
  show ?thesis unfolding request_rom_def Let_def
    using attempted account_inv_account [OF inv]
    by (auto simp: accounted_finish account_inv_account waited split: prod.split) (simp add: accounted_def waited)
qed

lemma account_next_rom:
  assumes "account_inv st0 s" "next_rom s = (r, s1)"
  shows "account_inv st0 s1"
proof -
  have N: "drain_inv s1 \<and> set (queue_entries (ds_store s1)) \<subseteq> set (queue_entries (ds_store s)) \<and>
      (\<forall>e \<in> set (queue_entries (ds_store s)) - set (queue_entries (ds_store s1)). rom_from_json (ce_body e) = None)"
    using next_rom_cases [OF _ assms(2)] assms(1) by (simp add: account_inv_def)
  obtain st ks where "s1 = s\<lparr>ds_store := st, ds_keys := ks\<rparr>" using next_rom_fields [OF assms(2)] by blast
  then have "ds_reports s1 = ds_reports s" "counted s1 = counted s" by (simp_all add: counted_def reported_def)
  moreover have "set (queue_keys (ds_store s1)) \<subseteq> set (queue_keys (ds_store s))" using N by (auto simp: queue_keys_def)
  moreover have "\<forall>e \<in> set (queue_entries st0). e \<in> set (queue_entries (ds_store s1)) \<or> rom_from_json (ce_body e) = None \<or>
      ce_key e \<in> fst ` set (ds_reports s)"
    using N assms(1) unfolding account_inv_def by blast
  ultimately show ?thesis using N assms(1) unfolding account_inv_def by auto
qed

lemma accounted_step:
  assumes inv: "account_inv st0 s" and "secluded env"
  shows "accounted st0 (drain_step env c agent s)"
proof -
  obtain r s1 where nr: "next_rom s = (r, s1)" by (cases "next_rom s")
  have inv1: "account_inv st0 s1" by (rule account_next_rom [OF inv nr])
  note N = next_rom_cases [OF _ nr]
  have "accounted st0 (case next_rom s of
      (None, s1) \<Rightarrow> finish StopEmpty None False s1
    | (Some rom, s1) \<Rightarrow>
       (case local_game_id_answer (ds_store s1) (drain_clock s1) (rom_hashes rom) of
          NoMatch \<Rightarrow> Next (report rom OutNoMatch None
            (s1\<lparr>ds_store := queue_remove rom (ds_store s1), ds_no_match := ds_no_match s1 + 1\<rparr>))
        | KnownGame g h \<Rightarrow>
           if g \<in> set (ds_known s1) then
             (case remember_source_rom_path (drain_clock s1) g (cr_user c) (qr_source rom) (ds_store s1) of
                Inl e \<Rightarrow> Raised e s1
              | Inr st \<Rightarrow> Next (report rom OutAlreadyCached (Some g) (s1\<lparr>ds_store := queue_remove rom st\<rparr>)))
           else request_rom env c agent rom (KnownGame g h) s1
        | Unknown \<Rightarrow> request_rom env c agent rom Unknown s1))"
  proof (cases r)
    case None
    have "ds_keys s1 = None \<longrightarrow> queue_keys (ds_store s1) = []"
      using N None inv next_rom_all [OF nr] by (simp add: account_inv_def queue_keys_def)
    then show ?thesis using nr None account_inv_account [OF inv1] by (simp add: accounted_def finish_def)
  next
    case (Some rom)
    have key: "rom_key rom \<in> set (queue_keys (ds_store s1))" using N inv Some by (simp add: account_inv_def)
    have no_match: "account_inv st0 (report rom OutNoMatch None
        (s1\<lparr>ds_store := queue_remove rom (ds_store s1), ds_no_match := ds_no_match s1 + 1\<rparr>))"
      by (rule account_settled [OF inv1 queue_frame_refl key, where out = OutNoMatch and g = None])
        (simp_all add: report_def queue_remove_def)
    have already: "account_inv st0 (report rom OutAlreadyCached (Some g) (s1\<lparr>ds_store := queue_remove rom st\<rparr>))"
      if "remember_source_rom_path t g u p (ds_store s1) = Inr st" for t g u p st
      by (rule account_settled [OF inv1 queue_frame_remember [OF that] key, where out = OutAlreadyCached and g = "Some g"])
        (simp_all add: report_def queue_remove_def)
    show ?thesis unfolding nr Some prod.case option.case
      using no_match already accounted_request [OF inv1 key assms(2)] raised_accounted [OF inv1]
      by (auto simp: accounted_def split: local_answer.split sum.split)
  qed
  then show ?thesis unfolding drain_step_def
    using accounted_unless [OF inv] account_inv_account [OF inv] by (simp add: accounted_finish)
qed

lemma accounted_loop:
  "account_inv st0 s \<Longrightarrow> secluded env \<Longrightarrow> drain_loop fuel env c agent s = Some r \<Longrightarrow> accounted st0 r"
proof (induction fuel arbitrary: s)
  case (Suc k)
  have step: "accounted st0 (drain_step env c agent s)" by (rule accounted_step [OF Suc.prems(1, 2)])
  show ?case
  proof (cases "drain_step env c agent s")
    case (Next s1)
    then show ?thesis using Suc.IH [of s1] Suc.prems step by (simp add: accounted_def)
  qed (use Suc.prems step in auto)
qed simp

text \<open>C14: no queued ROM is lost.  When a drain of the whole queue (not one of a list of chosen ROMs) ends, and no
  other process touched the queue while it waited for its pace, each ROM that waited at its start still waits, or its
  outcome was reported, or its entry could not be read; a ROM reported as cached, known or unknown waits no
  longer and one that was not waiting is not added; the result counts the reports; and a drain that stops as
  empty leaves nothing waiting.\<close>

theorem drain_accounts_for_queue:
  assumes "queue_ok st" "secluded env" "drain_cache_queue fuel env c agent None st n = Some (Stop r s)"
  shows "(\<forall>e \<in> set (queue_entries st). ce_key e \<in> set (queue_keys (ds_store s)) \<or> rom_from_json (ce_body e) = None \<or>
      ce_key e \<in> fst ` set (ds_reports s)) \<and>
    (\<forall>(k, out, g) \<in> set (ds_reports s). out \<noteq> OutFailed \<longrightarrow> k \<notin> set (queue_keys (ds_store s))) \<and>
    set (queue_keys (ds_store s)) \<subseteq> set (queue_keys st) \<and>
    dr_cached r = reported OutCached s \<and> dr_no_match r = reported OutNoMatch s \<and>
    (dr_stop r = StopEmpty \<longrightarrow> queue_keys (ds_store s) = [])"
proof -
  have keys: "ds_keys s = None"
  proof -
    have "ds_keys t = None \<Longrightarrow> ds_keys (state_of (drain_step env c agent t)) = None" for t
      by (simp add: drain_step_keys)
    from drain_queue_state [of "\<lambda>s. ds_keys s = None", OF this _ _ assms(3)] show ?thesis
      by (simp add: drain_start_def leave_block_def)
  qed
  have start: "account_inv st (drain_start None st m)" for m
    using drain_inv_start [OF assms(1), of None]
    by (simp add: account_inv_def rom_keys_only_def) (simp add: drain_start_def counted_def reported_def)
  show ?thesis
  proof (cases "de_lock env (mono n)")
    case False
    then have "s = drain_start None st n" "r = \<lparr>dr_cached = 0, dr_no_match = 0, dr_stop = StopBusy, dr_next_attempt = None, dr_time_limited = False\<rparr>"
      using assms(3) by (auto simp: drain_cache_queue_def finish_def drain_start_def)
    then show ?thesis by (auto simp: drain_start_def queue_keys_def reported_def)
  next
    case True
    then obtain q where q: "drain_loop fuel env c agent (drain_start None st (n\<lparr>limiter := enter_background (limiter n)\<rparr>)) = Some q"
      "Stop r s = end_of_block q"
      using assms(3) by (auto simp: drain_cache_queue_def)
    then obtain s0 where s0: "q = Stop r s0" "s = leave_block s0" by (cases q) auto
    have "accounted st (Stop r s0)" using accounted_loop [OF start assms(2) q(1)] s0 by simp
    then show ?thesis using keys s0
      by (auto simp: accounted_def drain_account_def counted_def reported_def leave_block_def)
  qed
qed

section \<open>A drain that fails\<close>

definition one_rom :: queued_rom where
  "one_rom = \<lparr>qr_hash = ''ab'', qr_others = [], qr_source = None, qr_label = ''x'', qr_queued_at = 5, qr_attempts = 0\<rparr>"

definition one_waiting :: store where
  "one_waiting = (case enqueue 7 one_rom (empty_store True) of Inr (_, st) \<Rightarrow> st | Inl _ \<Rightarrow> empty_store True)"

definition failed_drain :: "drain_next option" where
  "failed_drain = drain_cache_queue 4 silent_env \<lparr>cr_user = ''bob'', cr_token = ''t''\<rparr> ''UA'' None one_waiting idle_net"

lemma one_waiting_ok: "queue_ok one_waiting"
proof -
  have "map (\<lambda>e. (ce_key e, rom_from_json (ce_body e))) (queue_entries one_waiting) = [(rom_key one_rom, Some one_rom)]"
    by code_simp
  then have "\<forall>e \<in> set (queue_entries one_waiting). \<forall>r. rom_from_json (ce_body e) = Some r \<longrightarrow> rom_key r = ce_key e"
    by (auto simp: map_eq_Cons_conv)
  moreover have "wf_store one_waiting"
    using enqueue_new [OF wf_empty_store [of True], of 7 one_rom]
    by (auto simp: one_waiting_def queue_due_def queue_keys_def)
  ultimately show ?thesis by (simp add: queue_ok_def)
qed

lemma failed_drain_result:
  "map_option (\<lambda>r. case r of Stop r s \<Rightarrow> (dr_stop r, ds_starts s, ds_reports s, map ce_key (queue_entries (ds_store s)))
     | _ \<Rightarrow> (StopBusy, [], [], [])) failed_drain =
   Some (StopFailed, [1000], [(rom_key one_rom, OutFailed, None)], [rom_key one_rom])"
  by code_simp

lemma failed_drain_Stop: "\<exists>r s. failed_drain = Some (Stop r s) \<and> ds_starts s = [1000] \<and> ds_reports s = [(rom_key one_rom, OutFailed, None)]"
proof -
  obtain z where z: "failed_drain = Some z" using failed_drain_result by (cases failed_drain) auto
  show ?thesis using failed_drain_result unfolding z by (cases z) simp_all
qed

theorem drain_paces_requests_witness:
  "\<exists>r. failed_drain = Some r \<and> ds_starts (state_of r) = [1000] \<and> paced_starts (ds_starts (state_of r))"
  using failed_drain_Stop drain_paces_requests [of 4 silent_env "\<lparr>cr_user = ''bob'', cr_token = ''t''\<rparr>" "''UA''" None one_waiting idle_net]
  unfolding failed_drain_def by fastforce

theorem drain_accounts_for_queue_witness:
  "\<exists>r s. failed_drain = Some (Stop r s) \<and> ds_reports s = [(rom_key one_rom, OutFailed, None)] \<and>
     set (queue_keys (ds_store s)) \<subseteq> set (queue_keys one_waiting) \<and> dr_cached r = reported OutCached s"
proof -
  have "secluded silent_env" by (simp add: secluded_def silent_env_def)
  then show ?thesis
    using failed_drain_Stop drain_accounts_for_queue [OF one_waiting_ok, of silent_env 4 "\<lparr>cr_user = ''bob'', cr_token = ''t''\<rparr>" "''UA''" idle_net]
    unfolding failed_drain_def by blast
qed

theorem drain_returns_witness: "failed_drain \<noteq> None"
proof -
  have "queue_count one_waiting = 1" by code_simp
  then show ?thesis unfolding failed_drain_def
    by (intro drain_returns one_waiting_ok) (simp_all add: rom_keys_only_def calm_def silent_env_def)
qed

end
