(* ===== verification/Usage_Stats.thy ===== *)
theory Usage_Stats
  imports Cache_Drain
begin

text \<open>
  The usage counters (usage_stats.py) and the daily report (usage_report.py).  Counts of one process are
  pending until they are merged into the shared file; the file is its dict.  Every access to the file is
  an argument that says how it goes: it may be unreadable, and its lock or its write may raise.  The clocks
  are arguments, monotonic times in ms; the answer of the backend, the metadata of the device and the
  digest are parameters.
\<close>

type_synonym counts = "(string \<times> int) list"

definition KEY_LAST_REPORTED_AT :: string where "KEY_LAST_REPORTED_AT = ''last_reported_at''"
definition USAGE_STATS_CONSENT_VERSION :: int where "USAGE_STATS_CONSENT_VERSION = 1"
definition FLUSH_INTERVAL_MS :: int where "FLUSH_INTERVAL_MS = 30000"
definition CONSENT_CACHE_MS :: int where "CONSENT_CACHE_MS = 30000"
definition WINDOW_MS :: int where "WINDOW_MS = 30 * 60 * 1000"
definition MAX_REQUESTS_PER_WINDOW :: string where "MAX_REQUESTS_PER_WINDOW = ''max_requests_per_window''"

definition requests_key :: "string \<Rightarrow> string" where
  "requests_key source = ''requests_'' @ source"

definition is_max_key :: "string \<Rightarrow> bool" where "is_max_key k = starts_with ''max_'' k"

section \<open>Consent\<close>

definition resolve_consent :: "bool option \<Rightarrow> int \<Rightarrow> int \<Rightarrow> bool option" where
  "resolve_consent granted granted_version current_version =
     (if granted = Some True \<and> granted_version < current_version then None else granted)"

definition load_consent :: "json \<Rightarrow> bool option" where
  "load_consent config =
     (case field ''usage_stats_consent'' JNull config of
        JBool granted \<Rightarrow> resolve_consent (Some granted)
          (case as_int (field ''usage_stats_consent_version'' JNull config) of Some v \<Rightarrow> v | None \<Rightarrow> 0)
          USAGE_STATS_CONSENT_VERSION
      | _ \<Rightarrow> None)"

definition consent_status_label :: "bool option \<Rightarrow> string" where
  "consent_status_label consent = (case consent of
       None \<Rightarrow> ''unanswered'' | Some b \<Rightarrow> if b then ''enabled'' else ''disabled'')"

section \<open>The counters of a process\<close>

record pending_counters =
  pc_values :: counts
  pc_window_start :: "int option"
  pc_window_requests :: int

definition fresh_counters :: pending_counters where
  "fresh_counters = \<lparr>pc_values = [], pc_window_start = None, pc_window_requests = 0\<rparr>"

definition count_of :: "counts \<Rightarrow> string \<Rightarrow> int" where
  "count_of c k = (case map_of c k of Some v \<Rightarrow> v | None \<Rightarrow> 0)"

definition add_count :: "string \<Rightarrow> int \<Rightarrow> counts \<Rightarrow> counts" where
  "add_count k by c = (if by = 0 then c else AList.update k (count_of c k + by) c)"

definition status_counter :: "int option \<Rightarrow> string option" where
  "status_counter status = (case status of
       None \<Rightarrow> Some ''failures_network''
     | Some n \<Rightarrow> if n = 429 then Some ''rate_limited'' else if n \<ge> 500 then Some ''failures_server'' else None)"

definition count_request_of :: "string \<Rightarrow> int option \<Rightarrow> int \<Rightarrow> pending_counters \<Rightarrow> pending_counters" where
  "count_request_of source status now p =
     (let restart = (case pc_window_start p of None \<Rightarrow> True | Some start \<Rightarrow> now < start \<or> now - start \<ge> WINDOW_MS);
          requests = (if restart then 1 else pc_window_requests p + 1);
          c1 = add_count (requests_key source) 1 (pc_values p);
          c2 = AList.update MAX_REQUESTS_PER_WINDOW (max (count_of c1 MAX_REQUESTS_PER_WINDOW) requests) c1;
          c3 = (case status_counter status of None \<Rightarrow> c2 | Some k \<Rightarrow> add_count k 1 c2)
      in \<lparr>pc_values = c3, pc_window_start = (if restart then Some now else pc_window_start p),
          pc_window_requests = requests\<rparr>)"

definition stop_value :: "drain_stop \<Rightarrow> string" where
  "stop_value stop = (case stop of
       StopEmpty \<Rightarrow> ''empty'' | StopBudget \<Rightarrow> ''budget_exhausted'' | StopRateLimited \<Rightarrow> ''rate_limited''
     | StopPaused \<Rightarrow> ''paused'' | StopFailed \<Rightarrow> ''failed'' | StopAuth \<Rightarrow> ''auth_rejected'' | StopBusy \<Rightarrow> ''busy'')"

definition count_batch :: "int \<Rightarrow> int \<Rightarrow> string \<Rightarrow> bool \<Rightarrow> int \<Rightarrow> pending_counters \<Rightarrow> pending_counters" where
  "count_batch cached no_match stop limited duration p =
     (if \<not> (cached + no_match > 0 \<or> limited \<or> stop \<in> {''failed'', ''rate_limited''}) then p
      else p\<lparr>pc_values :=
        (if stop = ''empty'' then add_count ''queue_emptied'' 1 else id)
        ((if stop = ''failed'' then add_count ''queue_failed'' 1 else id)
        ((if limited then add_count ''batches_time_limited'' 1 else id)
        (add_count ''queue_no_match'' no_match
        (add_count ''queue_cached'' cached
        (add_count ''batch_ms_total'' (max 0 duration)
        (add_count ''batches'' 1 (pc_values p)))))))\<rparr>)"

section \<open>The shared file\<close>

type_synonym usage_file = "(string \<times> json) list"

text \<open>How an access to the file goes: as it should; the file cannot be read, which reads as an empty one, and
  is written all the same; or the lock or the write raises, and the file stays as it was.\<close>

datatype file_access = FileOk | Unreadable | Blocked

definition read_usage :: "file_access \<Rightarrow> usage_file \<Rightarrow> usage_file" where
  "read_usage access file = (if access = Unreadable then [] else file)"

definition stored_int :: "usage_file \<Rightarrow> string \<Rightarrow> int" where
  "stored_int d k = (case map_of d k of Some v \<Rightarrow> (case as_int v of Some i \<Rightarrow> i | None \<Rightarrow> 0) | None \<Rightarrow> 0)"

definition merge_one :: "string \<times> int \<Rightarrow> usage_file \<Rightarrow> usage_file" where
  "merge_one kv d = (case kv of (k, v) \<Rightarrow>
     AList.update k (JInt (if is_max_key k then max (stored_int d k) v else stored_int d k + v)) d)"

definition merge_counters :: "usage_file \<Rightarrow> counts \<Rightarrow> usage_file" where
  "merge_counters stored pending = fold merge_one pending stored"

definition reportable :: "usage_file \<Rightarrow> counts" where
  "reportable stored = List.map_filter (\<lambda>(k, v). case as_int v of
       Some i \<Rightarrow> if k \<noteq> KEY_LAST_REPORTED_AT \<and> i > 0 then Some (k, i) else None
     | None \<Rightarrow> None) stored"

definition left_after :: "counts \<Rightarrow> string \<Rightarrow> int \<Rightarrow> int" where
  "left_after reported k v = (if is_max_key k \<and> map_of reported k \<noteq> None then 0 else v - count_of reported k)"

definition kept_after :: "counts \<Rightarrow> string \<times> json \<Rightarrow> (string \<times> json) option" where
  "kept_after reported kv = (case kv of (k, v) \<Rightarrow>
     (case as_int v of
        Some i \<Rightarrow> if k \<noteq> KEY_LAST_REPORTED_AT \<and> left_after reported k i > 0
                  then Some (k, JInt (left_after reported k i)) else None
      | None \<Rightarrow> None))"

definition after_report :: "usage_file \<Rightarrow> counts \<Rightarrow> int \<Rightarrow> usage_file" where
  "after_report stored reported reported_at =
     List.map_filter (kept_after reported) stored @ [(KEY_LAST_REPORTED_AT, JInt reported_at)]"

section \<open>The recorder\<close>

record usage_state =
  us_pending :: pending_counters
  us_last_flush :: int
  us_consent :: "bool option"
  us_checked_at :: int
  us_config :: json
  us_file :: usage_file

definition consented :: "int \<Rightarrow> usage_state \<Rightarrow> usage_state" where
  "consented now s = (if now - us_checked_at s \<ge> CONSENT_CACHE_MS
     then s\<lparr>us_consent := load_consent (us_config s), us_checked_at := now\<rparr> else s)"

text \<open>The pending counts are taken before the file is touched.\<close>

definition flush_usage :: "file_access \<Rightarrow> int \<Rightarrow> usage_state \<Rightarrow> usage_state" where
  "flush_usage access now s =
     (let s1 = s\<lparr>us_last_flush := now, us_pending := (us_pending s)\<lparr>pc_values := []\<rparr>\<rparr>
      in if pc_values (us_pending s) = [] \<or> access = Blocked then s1
         else s1\<lparr>us_file := merge_counters (read_usage access (us_file s)) (pc_values (us_pending s))\<rparr>)"

definition flush_is_due :: "int \<Rightarrow> usage_state \<Rightarrow> bool" where
  "flush_is_due now s = (now - us_last_flush s \<ge> FLUSH_INTERVAL_MS)"

definition flush_if_due :: "file_access \<Rightarrow> int \<Rightarrow> usage_state \<Rightarrow> usage_state" where
  "flush_if_due access now s = (if flush_is_due now s then flush_usage access now s else s)"

definition record_usage_request ::
  "file_access \<Rightarrow> string \<Rightarrow> int option \<Rightarrow> int \<Rightarrow> int \<Rightarrow> usage_state \<Rightarrow> usage_state" where
  "record_usage_request access source status now wall_ms s =
     (let s1 = consented now s in
      if us_consent s1 \<noteq> Some True then s1
      else flush_if_due access now (s1\<lparr>us_pending := count_request_of source status wall_ms (us_pending s1)\<rparr>))"

definition record_usage_batch ::
  "file_access \<Rightarrow> int \<Rightarrow> int \<Rightarrow> string \<Rightarrow> bool \<Rightarrow> int \<Rightarrow> int \<Rightarrow> usage_state \<Rightarrow> usage_state" where
  "record_usage_batch access cached no_match stop limited duration now s =
     (let s1 = consented now s in
      if us_consent s1 \<noteq> Some True then s1
      else flush_usage access now
        (s1\<lparr>us_pending := count_batch cached no_match stop limited duration (us_pending s1)\<rparr>))"

text \<open>None, False: the call raises.\<close>

definition usage_snapshot :: "file_access \<Rightarrow> file_access \<Rightarrow> int \<Rightarrow> usage_state \<Rightarrow> usage_file option \<times> usage_state" where
  "usage_snapshot flushing reading now s = (let s1 = flush_usage flushing now s in
     (if reading = Blocked then None else Some (read_usage reading (us_file s1)), s1))"

definition commit_report :: "file_access \<Rightarrow> counts \<Rightarrow> int \<Rightarrow> usage_state \<Rightarrow> bool \<times> usage_state" where
  "commit_report access reported reported_at s = (if access = Blocked then (False, s)
     else (True, s\<lparr>us_file := after_report (read_usage access (us_file s)) reported reported_at\<rparr>))"

definition last_reported_at :: "file_access \<Rightarrow> usage_state \<Rightarrow> int option" where
  "last_reported_at access s = (if access = Blocked then None
     else Some (stored_int (read_usage access (us_file s)) KEY_LAST_REPORTED_AT))"

definition clear_usage :: "file_access \<Rightarrow> usage_state \<Rightarrow> bool \<times> usage_state" where
  "clear_usage access s = (if access = Blocked then (False, s) else (True, s\<lparr>us_file := []\<rparr>))"

definition save_consent :: "file_access \<Rightarrow> bool \<Rightarrow> usage_state \<Rightarrow> bool \<times> usage_state" where
  "save_consent access granted s =
     (let config = set_field ''usage_stats_consent_version'' (JInt USAGE_STATS_CONSENT_VERSION)
            (set_field ''usage_stats_consent'' (JBool granted) (us_config s));
          s1 = s\<lparr>us_config := config, us_checked_at := 0\<rparr>;
          s2 = (if load_consent config \<noteq> Some True then s1\<lparr>us_pending := fresh_counters\<rparr> else s1)
      in if granted then (True, s2) else clear_usage access s2)"

section \<open>The report\<close>

definition DAY_MS :: int where "DAY_MS = 24 * 60 * 60 * 1000"

definition client_id :: "(string \<Rightarrow> string) \<Rightarrow> string \<Rightarrow> string" where
  "client_id sha user = sha (''raofflineproxy-usage:'' @ lower (strip user))"

definition is_report_due :: "int \<Rightarrow> int \<Rightarrow> bool" where
  "is_report_due last_at now = (last_at \<le> 0 \<or> last_at div DAY_MS \<noteq> now div DAY_MS)"

definition count_bucket :: "int \<Rightarrow> string" where
  "count_bucket n =
     (case find (\<lambda>(limit, label). n < limit) [(1::int, ''0''), (10, ''1-9''), (50, ''10-49''), (100, ''50-99''), (250, ''100-249''),
        (500, ''250-499''), (1000, ''500-999''), (2500, ''1000-2499'')] of
        Some (limit, label) \<Rightarrow> label | None \<Rightarrow> ''2500+'')"

definition age_bucket :: "int option \<Rightarrow> string" where
  "age_bucket age = (case age of
       None \<Rightarrow> ''none''
     | Some ms \<Rightarrow>
         (let hours = ms div 3600000 in
          if hours < 1 then ''<1h'' else if hours < 6 then ''1-6h'' else if hours < 24 then ''6-24h''
          else if hours < 24 * 7 then ''1-7d'' else ''7d+''))"

record usage_gauges =
  ug_cached_games :: int
  ug_queued_games :: int
  ug_oldest_queued_age :: "int option"
  ug_pending_awards :: int

text \<open>The oldest ROM is looked for first; unreadable entries of the queue are deleted on the way.\<close>

definition load_gauges :: "store \<Rightarrow> int \<Rightarrow> usage_gauges \<times> store" where
  "load_gauges st now = (case oldest_rom st of (oldest, st1) \<Rightarrow>
     (\<lparr>ug_cached_games = count_cache_by_prefix st1 prefix_patch, ug_queued_games = queue_count st1,
       ug_oldest_queued_age = map_option (\<lambda>r. max 0 (now - qr_queued_at r)) oldest,
       ug_pending_awards = int (length (filter (\<lambda>a. aw_status a = STATUS_PENDING) (get_pending_awards st1)))\<rparr>, st1))"

definition build_usage_payload ::
  "(string \<Rightarrow> string) \<Rightarrow> string \<Rightarrow> json \<Rightarrow> string \<Rightarrow> usage_gauges \<Rightarrow> counts \<Rightarrow> json" where
  "build_usage_payload sha user metadata build g counters =
     (let emulators = py_or (field ''emulator'' JNull metadata) (JList []) in
      JObj [(''schema_version'', JInt 1), (''consent_version'', JInt USAGE_STATS_CONSENT_VERSION),
        (''client_id'', JStr (client_id sha user)), (''platform'', JStr ''linux''),
        (''os'', field ''os'' (JStr ''Linux'') metadata), (''os_version'', field ''os_version'' (JStr ''unknown'') metadata),
        (''device'', field ''device'' (JStr ''unknown'') metadata),
        (''app_version'', field ''app_version'' (JStr ''unknown'') metadata), (''build'', JStr build),
        (''emulators'', if is_list emulators then emulators else JList [JStr (json_text emulators)]),
        (''gauges'', JObj [(''cached_games'', JStr (count_bucket (ug_cached_games g))),
           (''queued_games'', JStr (count_bucket (ug_queued_games g))),
           (''oldest_queued'', JStr (age_bucket (ug_oldest_queued_age g))),
           (''pending_awards'', JStr (count_bucket (ug_pending_awards g)))]),
        (''counters'', JObj (map (\<lambda>(k, v). (k, JInt v)) counters))])"

record report_env =
  re_url :: string
  re_sha :: "string \<Rightarrow> string"
  re_metadata :: json
  re_build :: string
  re_test_channel :: bool
  re_lock :: bool
  re_send :: "json \<Rightarrow> bool res"
  re_last_access :: file_access
  re_flush_access :: file_access
  re_read_access :: file_access
  re_commit_access :: file_access

text \<open>The account a report is made for, when there is one to make.\<close>

definition report_user :: "report_env \<Rightarrow> int \<Rightarrow> store \<Rightarrow> usage_state \<Rightarrow> json option" where
  "report_user env now st s =
     (if re_url env = [] \<or> load_consent (us_config s) \<noteq> Some True \<or> re_test_channel env \<or> \<not> re_lock env then None
      else case last_reported_at (re_last_access env) s of
        None \<Rightarrow> None
      | Some last_at \<Rightarrow> if \<not> is_report_due last_at now then None
          else (case load_login_credentials st of Inr (Some (user, token)) \<Rightarrow> Some user | _ \<Rightarrow> None))"

text \<open>A report: the counts the backend accepted and whether the call says that it was sent, and the state
  after it.  A raise is caught by the caller; what was written before it stays.\<close>

definition report_if_due ::
  "report_env \<Rightarrow> int \<Rightarrow> int \<Rightarrow> store \<Rightarrow> usage_state \<Rightarrow> (counts option \<times> bool) \<times> store \<times> usage_state" where
  "report_if_due env now mono_now st s =
     (case report_user env now st s of
        None \<Rightarrow> ((None, False), st, s)
      | Some user \<Rightarrow>
         (case usage_snapshot (re_flush_access env) (re_read_access env) mono_now s of
            (None, s1) \<Rightarrow> ((None, False), st, s1)
          | (Some file, s1) \<Rightarrow>
             let counters = reportable file in
             case load_gauges st now of (g, st1) \<Rightarrow>
               case re_send env (build_usage_payload (re_sha env) (json_text user) (re_metadata env) (re_build env) g counters) of
                 Inr True \<Rightarrow> (case commit_report (re_commit_access env) counters now s1 of
                   (said, s2) \<Rightarrow> ((Some counters, said), st1, s2))
               | _ \<Rightarrow> ((None, False), st1, s1)))"

end
