(* ===== verification/Usage_Laws.thy ===== *)
theory Usage_Laws
  imports Usage_Stats
begin

text \<open>
  Counting loses nothing: what the reports carried, what the file holds and what is pending add up to
  what was counted.
\<close>

section \<open>Adding\<close>

definition plain_count :: "string \<Rightarrow> bool" where
  "plain_count k = (k \<noteq> KEY_LAST_REPORTED_AT \<and> \<not> is_max_key k)"

lemma plain_requests_key [simp]: "plain_count (requests_key source)"
  by (simp add: plain_count_def requests_key_def is_max_key_def KEY_LAST_REPORTED_AT_def)

lemma count_of_update [simp]: "count_of (AList.update k v c) k' = (if k' = k then v else count_of c k')"
  by (simp add: count_of_def update_conv)

lemma count_of_add [simp]: "count_of (add_count k by c) k' = count_of c k' + (if k' = k then by else 0)"
  by (simp add: add_count_def)

lemma stored_int_update [simp]: "stored_int (AList.update k (JInt v) d) k' = (if k' = k then v else stored_int d k')"
  by (simp add: stored_int_def update_conv)

lemma merge_counters_plain:
  "distinct (map fst pending) \<Longrightarrow> \<not> is_max_key k \<Longrightarrow>
   stored_int (merge_counters d pending) k = stored_int d k + count_of pending k"
proof (induction pending arbitrary: d)
  case Nil
  then show ?case by (simp add: merge_counters_def count_of_def)
next
  case (Cons p pending)
  obtain k' v where p: "p = (k', v)" by (cases p)
  have "stored_int (merge_counters (merge_one p d) pending) k = stored_int (merge_one p d) k + count_of pending k"
    using Cons by simp
  moreover have "count_of pending k' = 0" if "k = k'"
    using Cons.prems that p by (auto simp: count_of_def image_iff split: option.split dest!: map_of_SomeD)
  ultimately show ?case using Cons.prems(2) by (auto simp: merge_counters_def p merge_one_def count_of_def)
qed

text \<open>A maximum merged is the larger one.\<close>

lemma merge_counters_max:
  "distinct (map fst pending) \<Longrightarrow> is_max_key k \<Longrightarrow> k \<in> fst ` set pending \<Longrightarrow>
   stored_int (merge_counters d pending) k = max (stored_int d k) (count_of pending k)"
proof (induction pending arbitrary: d)
  case (Cons p pending)
  obtain k' v where p: "p = (k', v)" by (cases p)
  have other: "k \<notin> fst ` set ps \<Longrightarrow> stored_int (merge_counters d ps) k = stored_int d k" for ps d
    by (induction ps arbitrary: d) (auto simp: merge_counters_def merge_one_def)
  show ?case
  proof (cases "k = k'")
    case True
    then have "k \<notin> fst ` set pending" using Cons.prems(1) p by auto
    from other [OF this] show ?thesis using True Cons.prems(2) by (simp add: merge_counters_def p merge_one_def count_of_def)
  next
    case False
    then show ?thesis using Cons p by (auto simp: merge_counters_def merge_one_def count_of_def)
  qed
qed simp

section \<open>Reporting\<close>

definition file_ok :: "usage_file \<Rightarrow> bool" where
  "file_ok d = (distinct (map fst d) \<and> (\<forall>k. plain_count k \<longrightarrow> 0 \<le> stored_int d k))"

lemma map_of_map_filter:
  assumes "distinct (map fst d)" "\<And>k v p. f (k, v) = Some p \<Longrightarrow> fst p = k"
  shows "map_of (List.map_filter f d) k =
    (case map_of d k of None \<Rightarrow> None | Some v \<Rightarrow> map_option snd (f (k, v)))"
  using assms(1)
proof (induction d arbitrary: k)
  case (Cons x d)
  obtain a v where x: "x = (a, v)" by (cases x)
  have "map_of (List.map_filter f d) a = None" if "map_of d a = None"
    using Cons that x by simp
  moreover have "map_of d a = None" using Cons.prems x by (simp add: map_of_eq_None_iff)
  ultimately show ?case using Cons x assms(2) [of a v]
    by (cases "f (a, v)") (auto simp: List.map_filter_simps)
qed (simp add: List.map_filter_simps)

lemma count_reportable:
  assumes "distinct (map fst d)" "k \<noteq> KEY_LAST_REPORTED_AT"
  shows "count_of (reportable d) k = max 0 (stored_int d k)"
proof -
  have "map_of (reportable d) k = (case map_of d k of None \<Rightarrow> None | Some v \<Rightarrow>
      map_option snd (case as_int v of Some i \<Rightarrow> if k \<noteq> KEY_LAST_REPORTED_AT \<and> i > 0 then Some (k, i) else None | None \<Rightarrow> None))"
    unfolding reportable_def
    by (subst map_of_map_filter [OF assms(1)]) (auto split: option.splits if_splits)
  then show ?thesis using assms(2) by (auto simp: count_of_def stored_int_def split: option.split)
qed

lemma kept_after_key: "kept_after reported (k, v) = Some p \<Longrightarrow> fst p = k \<and> k \<noteq> KEY_LAST_REPORTED_AT"
  by (auto simp: kept_after_def split: option.splits if_splits)

lemma map_of_after_report:
  assumes "distinct (map fst d)" "k \<noteq> KEY_LAST_REPORTED_AT"
  shows "map_of (after_report d reported t) k =
    (case map_of d k of None \<Rightarrow> None | Some v \<Rightarrow> map_option snd (kept_after reported (k, v)))"
  using assms(2) map_of_map_filter [OF assms(1), of "kept_after reported" k] kept_after_key
  by (simp add: after_report_def map_add_def split: option.split)

lemma stored_after_report:
  assumes "distinct (map fst d)" "plain_count k" "0 \<le> count_of reported k"
  shows "stored_int (after_report d reported t) k = max 0 (stored_int d k - count_of reported k)"
  using assms map_of_after_report [OF assms(1), of k reported t]
  by (auto simp: stored_int_def plain_count_def left_after_def kept_after_def split: option.split)

lemma distinct_merge: "distinct (map fst d) \<Longrightarrow> distinct (map fst (merge_counters d pending))"
proof (induction pending arbitrary: d)
  case (Cons p pending)
  then show ?case by (cases p) (simp add: merge_counters_def merge_one_def distinct_update)
qed (simp add: merge_counters_def)

lemma distinct_after_report: "distinct (map fst d) \<Longrightarrow> distinct (map fst (after_report d reported t))"
proof -
  have "fst ` set (List.map_filter (kept_after reported) d) \<subseteq> fst ` set d - {KEY_LAST_REPORTED_AT} \<and>
      distinct (map fst (List.map_filter (kept_after reported) d))" if "distinct (map fst d)"
    using that
  proof (induction d)
    case (Cons x d)
    obtain a v where "x = (a, v)" by (cases x)
    then show ?case using Cons kept_after_key [of reported a v]
      by (cases "kept_after reported (a, v)") (auto simp: List.map_filter_simps)
  qed (simp add: List.map_filter_simps)
  then show "distinct (map fst d) \<Longrightarrow> ?thesis" by (auto simp: after_report_def)
qed

text \<open>A report takes away what it sent and nothing else: a count that was merged into the file while the
  report was under way is left in it, to the unit.\<close>

theorem report_keeps_counts_in_flight:
  assumes "file_ok d" "distinct (map fst extra)" "plain_count k" "0 \<le> count_of extra k"
  shows "stored_int (after_report (merge_counters d extra) (reportable d) t) k = count_of extra k"
proof -
  have d: "distinct (map fst d)" "0 \<le> stored_int d k" using assms by (auto simp: file_ok_def)
  have r: "count_of (reportable d) k = stored_int d k"
    using count_reportable [OF d(1)] d(2) assms(3) by (simp add: plain_count_def)
  show ?thesis
    using stored_after_report [OF distinct_merge [OF d(1)] assms(3), of "reportable d"] r d(2) assms(4)
      merge_counters_plain [OF assms(2), of k d] assms(3)
    by (simp add: plain_count_def)
qed

theorem report_keeps_counts_in_flight_witness:
  "stored_int (after_report (merge_counters [(''batches'', JInt 4)] [(''batches'', 3)]) (reportable [(''batches'', JInt 4)]) 9) ''batches'' = 3"
proof -
  have "file_ok [(''batches'', JInt 4)]" by (simp add: file_ok_def stored_int_def)
  moreover have "plain_count ''batches''" by code_simp
  moreover have "count_of [(''batches'', 3)] ''batches'' = 3" by code_simp
  ultimately show ?thesis using report_keeps_counts_in_flight [of _ "[(''batches'', 3)]" "''batches''" 9] by simp
qed

text \<open>A maximum is not kept: one merged while the report was under way is dropped with the one sent.\<close>

theorem report_drops_maximum_in_flight:
  assumes "distinct (map fst d)" "stored_int d MAX_REQUESTS_PER_WINDOW > 0"
  shows "stored_int (after_report (merge_counters d [(MAX_REQUESTS_PER_WINDOW, m)]) (reportable d) t) MAX_REQUESTS_PER_WINDOW = 0"
proof -
  let ?k = MAX_REQUESTS_PER_WINDOW and ?d = "merge_counters d [(MAX_REQUESTS_PER_WINDOW, m)]"
  have max: "is_max_key ?k" "?k \<noteq> KEY_LAST_REPORTED_AT" by code_simp+
  have "count_of (reportable d) ?k > 0" using count_reportable [OF assms(1) max(2)] assms(2) by simp
  then have sent: "map_of (reportable d) ?k \<noteq> None" by (auto simp: count_of_def split: option.splits)
  then show ?thesis using max map_of_after_report [OF distinct_merge [OF assms(1)] max(2), where reported = "reportable d" and t = t]
    by (auto simp: stored_int_def left_after_def kept_after_def split: option.split)
qed

theorem report_drops_maximum_in_flight_witness:
  "stored_int (after_report (merge_counters [(MAX_REQUESTS_PER_WINDOW, JInt 4)] [(MAX_REQUESTS_PER_WINDOW, 9)])
     (reportable [(MAX_REQUESTS_PER_WINDOW, JInt 4)]) 7) MAX_REQUESTS_PER_WINDOW = 0"
  by (rule report_drops_maximum_in_flight) (simp_all add: stored_int_def)

section \<open>A run of the recorder\<close>

datatype usage_event =
    URequest file_access string "int option" int int
  | UBatch file_access int int string bool int int
  | UFlush file_access int
  | UReport report_env int int store

fun usage_step :: "usage_event \<Rightarrow> counts list \<times> usage_state \<Rightarrow> counts list \<times> usage_state" where
  "usage_step (URequest access source status now wall_ms) (sent, s) =
     (sent, record_usage_request access source status now wall_ms s)"
| "usage_step (UBatch access cached no_match stop limited duration now) (sent, s) =
     (sent, record_usage_batch access cached no_match stop limited duration now s)"
| "usage_step (UFlush access now) (sent, s) = (sent, flush_usage access now s)"
| "usage_step (UReport env now mono_now st) (sent, s) = (case report_if_due env now mono_now st s of
     ((None, _), _, s1) \<Rightarrow> (sent, s1) | ((Some c, _), _, s1) \<Rightarrow> (sent @ [c], s1))"

fun is_request_of :: "string \<Rightarrow> usage_event \<Rightarrow> bool" where
  "is_request_of source (URequest _ src _ _ _) = (src = source)"
| "is_request_of source _ = False"

fun accesses :: "usage_event \<Rightarrow> file_access set" where
  "accesses (URequest access _ _ _ _) = {access}"
| "accesses (UBatch access _ _ _ _ _ _) = {access}"
| "accesses (UFlush access _) = {access}"
| "accesses (UReport env _ _ _) = {re_flush_access env, re_read_access env, re_commit_access env}"

fun commit_raises :: "usage_event \<Rightarrow> bool" where
  "commit_raises (UReport env _ _ _) = (re_commit_access env = Blocked)"
| "commit_raises _ = False"

text \<open>What a fault costs.  A flush whose lock or write raises loses the pending counts, which were taken
  already; one that cannot read the file writes the pending counts over the stored ones.  A report that
  cannot read the file when it commits drops what the file holds beyond what was sent; one whose commit
  raises leaves in the file what was sent.\<close>

definition flush_lost :: "string \<Rightarrow> file_access \<Rightarrow> usage_state \<Rightarrow> int" where
  "flush_lost src access s = (if pc_values (us_pending s) = [] then 0 else case access of
       FileOk \<Rightarrow> 0
     | Unreadable \<Rightarrow> stored_int (us_file s) (requests_key src)
     | Blocked \<Rightarrow> count_of (pc_values (us_pending s)) (requests_key src))"

definition with_request :: "string \<Rightarrow> int option \<Rightarrow> int \<Rightarrow> int \<Rightarrow> usage_state \<Rightarrow> usage_state" where
  "with_request source status now wall_ms s = (consented now s)
     \<lparr>us_pending := count_request_of source status wall_ms (us_pending (consented now s))\<rparr>"

definition with_batch :: "int \<Rightarrow> int \<Rightarrow> string \<Rightarrow> bool \<Rightarrow> int \<Rightarrow> int \<Rightarrow> usage_state \<Rightarrow> usage_state" where
  "with_batch cached no_match stop limited duration now s = (consented now s)
     \<lparr>us_pending := count_batch cached no_match stop limited duration (us_pending (consented now s))\<rparr>"

fun lost_by :: "string \<Rightarrow> usage_event \<Rightarrow> usage_state \<Rightarrow> int" where
  "lost_by src (URequest access source status now wall_ms) s =
     (let s1 = with_request source status now wall_ms s in if flush_is_due now s1 then flush_lost src access s1 else 0)"
| "lost_by src (UBatch access cached no_match stop limited duration now) s =
     flush_lost src access (with_batch cached no_match stop limited duration now s)"
| "lost_by src (UFlush access now) s = flush_lost src access s"
| "lost_by src (UReport env now mono_now st) s =
     (if report_user env now st s = None then 0
      else flush_lost src (re_flush_access env) s +
        (case report_if_due env now mono_now st s of
           ((Some c, _), _) \<Rightarrow> (if re_commit_access env = Unreadable
             then stored_int (us_file (flush_usage (re_flush_access env) mono_now s)) (requests_key src) - count_of c (requests_key src)
             else 0)
         | _ \<Rightarrow> 0))"

fun again_by :: "string \<Rightarrow> usage_event \<Rightarrow> usage_state \<Rightarrow> int" where
  "again_by src (UReport env now mono_now st) s = (case report_if_due env now mono_now st s of
     ((Some c, False), _) \<Rightarrow> count_of c (requests_key src) | _ \<Rightarrow> 0)"
| "again_by src _ s = 0"

text \<open>What the faults of a run cost in all, and what they left to be sent again.\<close>

fun usage_lost :: "string \<Rightarrow> usage_event list \<Rightarrow> usage_state \<Rightarrow> int" where
  "usage_lost src [] s = 0"
| "usage_lost src (e # es) s = lost_by src e s + usage_lost src es (snd (usage_step e ([], s)))"

fun sent_again :: "string \<Rightarrow> usage_event list \<Rightarrow> usage_state \<Rightarrow> int" where
  "sent_again src [] s = 0"
| "sent_again src (e # es) s = again_by src e s + sent_again src es (snd (usage_step e ([], s)))"

definition held :: "string \<Rightarrow> usage_state \<Rightarrow> int" where
  "held source s = stored_int (us_file s) (requests_key source) + count_of (pc_values (us_pending s)) (requests_key source)"

definition usage_ok :: "usage_state \<Rightarrow> bool" where
  "usage_ok s = (distinct (map fst (us_file s)) \<and> distinct (map fst (pc_values (us_pending s))) \<and>
     (\<forall>src. 0 \<le> stored_int (us_file s) (requests_key src) \<and> 0 \<le> count_of (pc_values (us_pending s)) (requests_key src)) \<and>
     us_consent s = Some True \<and> load_consent (us_config s) = Some True)"

lemma distinct_add [simp]: "distinct (map fst c) \<Longrightarrow> distinct (map fst (add_count k by c))"
  by (simp add: add_count_def distinct_update)

lemma requests_key_neq [simp]:
  "requests_key source \<noteq> MAX_REQUESTS_PER_WINDOW" "requests_key src = requests_key source \<longleftrightarrow> src = source"
  "status_counter status = Some k \<Longrightarrow> requests_key source \<noteq> k"
  by (auto simp: requests_key_def MAX_REQUESTS_PER_WINDOW_def status_counter_def split: option.splits if_splits)

lemma count_request_of_values:
  "distinct (map fst (pc_values p)) \<Longrightarrow> distinct (map fst (pc_values (count_request_of source status now p)))"
  "count_of (pc_values (count_request_of source status now p)) (requests_key src) =
     count_of (pc_values p) (requests_key src) + (if src = source then 1 else 0)"
  by (auto simp: count_request_of_def Let_def distinct_update split: option.split)

lemma count_batch_values:
  "distinct (map fst (pc_values p)) \<Longrightarrow> distinct (map fst (pc_values (count_batch c n stop l d p)))"
  "count_of (pc_values (count_batch c n stop l d p)) (requests_key src) = count_of (pc_values p) (requests_key src)"
  by (simp_all add: count_batch_def) (simp add: requests_key_def)

lemma consented_ok: "usage_ok s \<Longrightarrow> usage_ok (consented now s) \<and> held src (consented now s) = held src s"
  by (simp add: consented_def usage_ok_def held_def)

lemma flush_usage_ok:
  assumes "usage_ok s"
  shows "usage_ok (flush_usage access now s) \<and> held src (flush_usage access now s) + flush_lost src access s = held src s \<and>
    0 \<le> flush_lost src access s \<and> pc_values (us_pending (flush_usage access now s)) = []"
proof -
  have m: "stored_int (merge_counters d (pc_values (us_pending s))) (requests_key src) =
      stored_int d (requests_key src) + count_of (pc_values (us_pending s)) (requests_key src)" for d src
    using plain_requests_key assms by (simp add: merge_counters_plain usage_ok_def plain_count_def del: plain_requests_key)
  have empty: "stored_int [] k = 0" "count_of [] k = 0" for k by (simp_all add: stored_int_def count_of_def)
  have nonneg: "0 \<le> stored_int (us_file s) (requests_key src)" "0 \<le> count_of (pc_values (us_pending s)) (requests_key src)"
    for src using assms by (simp_all add: usage_ok_def)
  show ?thesis
    using assms m nonneg empty distinct_merge [of "[]"]
    by (cases access) (auto simp: flush_usage_def read_usage_def flush_lost_def Let_def usage_ok_def held_def distinct_merge)
qed

lemma with_request_ok:
  assumes "usage_ok s"
  shows "usage_ok (with_request source status now w s)"
    and "held src (with_request source status now w s) = held src s + (if src = source then 1 else 0)"
    and "record_usage_request access source status now w s = flush_if_due access now (with_request source status now w s)"
  using consented_ok [OF assms, of now src]
  by (simp_all add: with_request_def usage_ok_def held_def count_request_of_values record_usage_request_def Let_def)

lemma with_batch_ok:
  assumes "usage_ok s"
  shows "usage_ok (with_batch c n stop l d now s)" and "held src (with_batch c n stop l d now s) = held src s"
    and "record_usage_batch access c n stop l d now s = flush_usage access now (with_batch c n stop l d now s)"
  using consented_ok [OF assms, of now src]
  by (simp_all add: with_batch_def usage_ok_def held_def count_batch_values record_usage_batch_def Let_def)

lemma reported_count:
  assumes "usage_ok s"
  shows "count_of (reportable (us_file s)) (requests_key src) = stored_int (us_file s) (requests_key src)"
  using assms count_reportable [of "us_file s" "requests_key src"] plain_requests_key [of src]
  by (simp add: usage_ok_def plain_count_def)

lemma commit_ok:
  assumes "usage_ok s" "c = reportable (read_usage reading (us_file s))" "commit_report access c t s = (said, s')"
  shows "usage_ok s' \<and> said = (access \<noteq> Blocked) \<and> 0 \<le> count_of c (requests_key src) \<and>
    count_of c (requests_key src) \<le> stored_int (us_file s) (requests_key src) \<and>
    count_of c (requests_key src) + held src s' +
      (if access = Unreadable then stored_int (us_file s) (requests_key src) - count_of c (requests_key src) else 0) =
    held src s + (if said then 0 else count_of c (requests_key src))"
proof -
  have d: "distinct (map fst (us_file s))" "0 \<le> stored_int (us_file s) (requests_key src)" for src
    using assms(1) by (simp_all add: usage_ok_def)
  have empty: "stored_int [] k = 0" "count_of (reportable []) k = 0" for k
    by (simp_all add: stored_int_def reportable_def List.map_filter_simps count_of_def)
  have c: "count_of c (requests_key src) = (if reading = Unreadable then 0 else stored_int (us_file s) (requests_key src))" for src
    using reported_count [OF assms(1)] empty by (simp add: assms(2) read_usage_def)
  then have nonneg: "0 \<le> count_of c (requests_key src)" for src using d(2) by simp
  have stored: "stored_int (after_report (read_usage access (us_file s)) c t) (requests_key src) =
      (if access = Unreadable then 0 else stored_int (us_file s) (requests_key src) - count_of c (requests_key src))" for src
    using stored_after_report [OF d(1) plain_requests_key nonneg, where t = t] c d(2)
      stored_after_report [OF _ plain_requests_key nonneg, where d = "[]" and t = t] nonneg empty
    by (auto simp: read_usage_def)
  have "distinct (map fst (after_report (read_usage access (us_file s)) c t))"
    using d(1) by (simp add: read_usage_def distinct_after_report)
  then show ?thesis using assms(1,3) c d(2) stored
    by (cases access) (auto simp: commit_report_def usage_ok_def held_def)
qed

text \<open>The ways a report ends: nothing to report, nothing accepted, or accepted.\<close>

lemma report_ways:
  assumes "report_if_due env now m st s = ((r, said), st', s')"
  shows "(report_user env now st s = None \<and> r = None \<and> s' = s)
    \<or> (report_user env now st s \<noteq> None \<and> r = None \<and> s' = flush_usage (re_flush_access env) m s)
    \<or> (\<exists>c. report_user env now st s \<noteq> None \<and> r = Some c \<and>
         c = reportable (read_usage (re_read_access env) (us_file (flush_usage (re_flush_access env) m s))) \<and>
         commit_report (re_commit_access env) c now (flush_usage (re_flush_access env) m s) = (said, s'))"
  using assms
  by (auto simp: report_if_due_def usage_snapshot_def Let_def split: if_splits sum.splits option.splits prod.splits bool.splits)

lemma usage_step_ok:
  assumes "usage_ok s" "usage_step e (sent, s) = (sent', s')"
  shows "usage_ok s' \<and> (\<Sum>c \<leftarrow> sent'. count_of c (requests_key src)) + held src s' + lost_by src e s =
      (\<Sum>c \<leftarrow> sent. count_of c (requests_key src)) + held src s + (if is_request_of src e then 1 else 0) + again_by src e s"
    and "0 \<le> lost_by src e s \<and> 0 \<le> again_by src e s"
proof -
  have both: "(usage_ok s' \<and> (\<Sum>c \<leftarrow> sent'. count_of c (requests_key src)) + held src s' + lost_by src e s =
      (\<Sum>c \<leftarrow> sent. count_of c (requests_key src)) + held src s + (if is_request_of src e then 1 else 0) + again_by src e s) \<and>
      0 \<le> lost_by src e s \<and> 0 \<le> again_by src e s"
  proof (cases e)
    case (URequest access source status now w)
    note w = with_request_ok [OF assms(1), where source = source and status = status and now = now and w = w]
    show ?thesis using assms(2) URequest flush_usage_ok [OF w(1), of access now src] w(1) w(2) [of src] w(3) [of access]
      by (auto simp: flush_if_due_def Let_def)
  next
    case (UBatch access c n stop l d now)
    note w = with_batch_ok [OF assms(1), where c = c and n = n and stop = stop and l = l and d = d and now = now]
    show ?thesis using assms(2) UBatch flush_usage_ok [OF w(1), of access now src] w(2) [of src] w(3) [of access] by auto
  next
    case (UFlush access now)
    then show ?thesis using assms flush_usage_ok [OF assms(1), of access now src] by auto
  next
    case (UReport env now m st)
    obtain r said st' s1 where r: "report_if_due env now m st s = ((r, said), st', s1)"
      by (cases "report_if_due env now m st s") auto
    have s1: "s1 = s'" using assms(2) UReport r by (cases r) auto
    note flush = flush_usage_ok [OF assms(1), of "re_flush_access env" m src]
    from report_ways [OF r] show ?thesis
    proof (elim disjE exE conjE)
      fix c assume c: "report_user env now st s \<noteq> None" "r = Some c"
        "c = reportable (read_usage (re_read_access env) (us_file (flush_usage (re_flush_access env) m s)))"
        "commit_report (re_commit_access env) c now (flush_usage (re_flush_access env) m s) = (said, s1)"
      show ?thesis using commit_ok [OF conjunct1 [OF flush] c(3,4), of src] flush c(1,2) assms(2) UReport r s1
        by (cases said) auto
    qed (use assms UReport r s1 flush in auto)
  qed
  show "usage_ok s' \<and> (\<Sum>c \<leftarrow> sent'. count_of c (requests_key src)) + held src s' + lost_by src e s =
      (\<Sum>c \<leftarrow> sent. count_of c (requests_key src)) + held src s + (if is_request_of src e then 1 else 0) + again_by src e s"
    using both by blast
  show "0 \<le> lost_by src e s \<and> 0 \<le> again_by src e s" using both by blast
qed

text \<open>The state after a step does not depend on what was sent before.\<close>

lemma usage_step_state: "usage_step e (sent, s) = (sent', s') \<Longrightarrow> snd (usage_step e ([], s)) = s'"
  by (cases e) (auto split: prod.splits option.splits)

lemma no_fault_step:
  "accesses e \<subseteq> {FileOk} \<Longrightarrow> lost_by src e s = 0"
  "\<not> commit_raises e \<Longrightarrow> again_by src e s = 0"
proof -
  show "accesses e \<subseteq> {FileOk} \<Longrightarrow> lost_by src e s = 0"
    by (cases e) (auto simp: flush_lost_def Let_def split: option.splits prod.splits)
  show "\<not> commit_raises e \<Longrightarrow> again_by src e s = 0"
    by (cases e) (auto simp: report_if_due_def commit_report_def Let_def
        split: if_splits sum.splits option.splits prod.splits bool.splits)
qed

lemma no_fault_run:
  "(\<forall>e \<in> set events. accesses e \<subseteq> {FileOk}) \<Longrightarrow> usage_lost src events s = 0"
  "(\<forall>e \<in> set events. \<not> commit_raises e) \<Longrightarrow> sent_again src events s = 0"
  by (induction events arbitrary: s) (simp_all add: no_fault_step)

lemma ledger_run:
  "usage_ok s \<Longrightarrow> fold usage_step events (sent0, s) = (sent, s') \<Longrightarrow>
    (\<Sum>c \<leftarrow> sent. count_of c (requests_key src)) + held src s' + usage_lost src events s =
      (\<Sum>c \<leftarrow> sent0. count_of c (requests_key src)) + held src s + int (length (filter (is_request_of src) events)) +
      sent_again src events s \<and> 0 \<le> usage_lost src events s \<and> 0 \<le> sent_again src events s"
proof (induction events arbitrary: sent0 s)
  case (Cons e events)
  obtain b1 s1 where step: "usage_step e (sent0, s) = (b1, s1)" by (cases "usage_step e (sent0, s)")
  have run: "fold usage_step events (b1, s1) = (sent, s')" using Cons.prems(2) step by simp
  note one = usage_step_ok [OF Cons.prems(1) step, of src]
  show ?case using Cons.IH [OF conjunct1 [OF one(1)] run] one usage_step_state [OF step] by auto
qed simp

text \<open>C18: over any sequence of requests, batches, flushes and reports made while the consent stands, accepted
  or not, from a state without negative counts and whatever accesses to the file fail, the books balance for every source: what the reports
  carried, what the file holds, what is pending and what faults lost add up to the requests counted and what
  was left to be sent again.  A fault costs exactly this: a flush whose lock or write raises loses the
  pending counts, one that cannot read the file loses the stored ones, a commit that cannot read the file
  loses what was not sent, and a commit that raises leaves what was sent to be sent again.  So no request is
  lost while no access fails, and none is reported twice unless a commit raises.\<close>

theorem usage_counts_conserved:
  assumes "usage_ok s" "fold usage_step events ([], s) = (sent, s')"
  shows "(\<Sum>c \<leftarrow> sent. count_of c (requests_key src)) + held src s' + usage_lost src events s =
      held src s + int (length (filter (is_request_of src) events)) + sent_again src events s
    \<and> 0 \<le> usage_lost src events s \<and> 0 \<le> sent_again src events s
    \<and> ((\<forall>e \<in> set events. accesses e \<subseteq> {FileOk}) \<longrightarrow> usage_lost src events s = 0)
    \<and> ((\<forall>e \<in> set events. \<not> commit_raises e) \<longrightarrow> sent_again src events s = 0)"
  using ledger_run [OF assms, of src] no_fault_run by simp

definition counting_state :: usage_state where
  "counting_state = \<lparr>us_pending = fresh_counters, us_last_flush = 0, us_consent = Some True, us_checked_at = 0,
     us_config = JObj [(''usage_stats_consent'', JBool True), (''usage_stats_consent_version'', JInt 1)], us_file = []\<rparr>"

text \<open>A flush that raises loses the one request pending; the one after it is held.\<close>

theorem usage_counts_conserved_witness:
  "held ''app'' (snd (fold usage_step [URequest FileOk ''app'' (Some 200) 5 6, UFlush Blocked 7, URequest FileOk ''app'' None 8 9]
     ([], counting_state))) = 1"
proof -
  let ?es = "[URequest FileOk ''app'' (Some 200) 5 6, UFlush Blocked 7, URequest FileOk ''app'' None 8 9]"
  have "usage_ok counting_state"
    by (simp add: usage_ok_def counting_state_def fresh_counters_def stored_int_def count_of_def load_consent_def
        field_def resolve_consent_def USAGE_STATS_CONSENT_VERSION_def)
  moreover obtain sent s' where run: "fold usage_step ?es ([], counting_state) = (sent, s')"
    by (cases "fold usage_step ?es ([], counting_state)")
  moreover have "sent = []" using run by simp
  moreover have "held ''app'' counting_state = 0"
    by (simp add: held_def counting_state_def fresh_counters_def stored_int_def count_of_def)
  moreover have "usage_lost ''app'' ?es counting_state = 1" by code_simp
  moreover have "sent_again ''app'' ?es counting_state = 0" by simp
  ultimately show ?thesis using usage_counts_conserved [OF _ run, of "''app''"] by (simp only: snd_conv) simp
qed

end
