(* ===== verification/Config_Text.thy ===== *)
theory Config_Text
  imports Py_Prelude
begin

text \<open>
  The text of the emulators' configuration files: reading and rewriting one value of a RetroArch file
  (retroarch_cfg.py), of a batocera.conf (batocera_conf.py), and of one section of an ini file
  (dolphin_cfg.py, ppsspp_cfg.py).  Line ends and blanks are those of ASCII.
\<close>

section \<open>Lines\<close>

text \<open>What text mode reads: each end of a line becomes a line feed.\<close>

fun universal_newlines :: "string \<Rightarrow> string" where
  "universal_newlines [] = []"
| "universal_newlines (c # cs) =
     (if c = CHR 0x0D then newline # universal_newlines (if cs \<noteq> [] \<and> hd cs = newline then tl cs else cs)
      else c # universal_newlines cs)"

definition is_break :: "char \<Rightarrow> bool" where
  "is_break c = (code c \<in> {10, 11, 12, 13, 28, 29, 30})"

fun splitlines :: "string \<Rightarrow> string list" where
  "splitlines [] = []"
| "splitlines (c # cs) =
     (if is_break c then [] # splitlines (if c = CHR 0x0D \<and> cs \<noteq> [] \<and> hd cs = newline then tl cs else cs)
      else (case splitlines cs of [] \<Rightarrow> [[c]] | w # ws \<Rightarrow> (c # w) # ws))"

definition rstrip_newlines :: "string \<Rightarrow> string" where
  "rstrip_newlines s = rev (dropWhile (\<lambda>c. c = newline) (rev s))"

definition final_newline :: "string \<Rightarrow> string \<Rightarrow> string" where
  "final_newline content result = (if ends_with [newline] content then result @ [newline] else result)"

fun first_of :: "('a \<Rightarrow> 'b option) \<Rightarrow> 'a list \<Rightarrow> 'b option" where
  "first_of f [] = None"
| "first_of f (x # xs) = (case f x of Some y \<Rightarrow> Some y | None \<Rightarrow> first_of f xs)"

section \<open>A value of a RetroArch file\<close>

definition unquote :: "string \<Rightarrow> string" where
  "unquote v =
     (if length v \<ge> 2 \<and> hd v = dquote \<and> last v = dquote then butlast (tl v)
      else if starts_with [dquote] v then strip (tl v) else v)"

text \<open>The text after the equals sign of a line for the key; the blanks that may stand around the key are a
  parameter.\<close>

definition after_key :: "(char \<Rightarrow> bool) \<Rightarrow> string \<Rightarrow> string \<Rightarrow> string option" where
  "after_key blank key line =
     (let l = dropWhile blank line in
      if starts_with key l then
        (let r = dropWhile blank (drop (length key) l) in
         if starts_with ''='' r then Some (tl r) else None)
      else None)"

definition config_value :: "string \<Rightarrow> string \<Rightarrow> string option" where
  "config_value key line = map_option (\<lambda>r. unquote (strip r)) (after_key is_space key line)"

definition extract_config_value :: "string \<Rightarrow> string \<Rightarrow> string option" where
  "extract_config_value content key = first_of (config_value key) (splitlines content)"

definition is_blank :: "char \<Rightarrow> bool" where
  "is_blank c = (code c \<in> {9, 32})"

text \<open>The part of a line up to its value, with the blanks after the equals sign.\<close>

definition key_part :: "string \<Rightarrow> string \<Rightarrow> string option" where
  "key_part key line = map_option (\<lambda>r. take (length line - length r) line @ takeWhile is_blank r) (after_key is_blank key line)"

definition in_quotes :: "string \<Rightarrow> string" where
  "in_quotes v = dquote # v @ [dquote]"

definition upsert_line :: "string \<Rightarrow> string \<Rightarrow> string \<Rightarrow> string" where
  "upsert_line key v line = (case key_part key line of Some p \<Rightarrow> p @ in_quotes v | None \<Rightarrow> line)"

definition setting_line :: "string \<Rightarrow> string \<Rightarrow> string" where
  "setting_line key v = key @ '' = '' @ v"

definition upsert_config_value :: "string \<Rightarrow> string \<Rightarrow> string \<Rightarrow> string" where
  "upsert_config_value content key v =
     (let lines = split_on newline content in
      if \<exists>l \<in> set lines. key_part key l \<noteq> None then join [newline] (map (upsert_line key v) lines)
      else (let stripped = rstrip_newlines content in
            (if stripped = [] then [] else stripped @ [newline]) @ setting_line key (in_quotes v) @ [newline]))"

definition is_junk :: "char \<Rightarrow> bool" where
  "is_junk c = (code c < 32 \<or> code c = 127 \<or> is_space c)"

definition orphan_boolean :: "string \<Rightarrow> bool" where
  "orphan_boolean line =
     (rev (dropWhile is_junk (rev (dropWhile is_junk line))) \<in> {in_quotes [], in_quotes ''true'', in_quotes ''false''})"

definition remove_orphan_boolean_lines :: "string \<Rightarrow> string" where
  "remove_orphan_boolean_lines content =
     (let result = join [newline] (filter (\<lambda>l. \<not> orphan_boolean l) (splitlines content)) in
      if result = [] then [] else final_newline content result)"

section \<open>A value of a batocera.conf\<close>

definition conf_value :: "string \<Rightarrow> string \<Rightarrow> string option" where
  "conf_value key line = (if starts_with (key @ ''='') line then Some (drop (length key + 1) line) else None)"

definition extract_value :: "string \<Rightarrow> string \<Rightarrow> string option" where
  "extract_value content key = first_of (conf_value key) (splitlines content)"

fun replace_first :: "string \<Rightarrow> string \<Rightarrow> string list \<Rightarrow> string list" where
  "replace_first key v [] = []"
| "replace_first key v (l # ls) = (if conf_value key l \<noteq> None then (key @ ''='' @ v) # ls else l # replace_first key v ls)"

definition upsert_value :: "string \<Rightarrow> string \<Rightarrow> string \<Rightarrow> string" where
  "upsert_value content key v =
     (let lines = splitlines content in
      if \<exists>l \<in> set lines. conf_value key l \<noteq> None then final_newline content (join [newline] (replace_first key v lines))
      else (let closed = ends_with [newline] content \<or> content = [];
                base = (if closed then content else content @ [newline])
            in base @ key @ ''='' @ v @ (if closed then [newline] else [])))"

fun restore_lines :: "string \<Rightarrow> string option \<Rightarrow> string list \<Rightarrow> string list" where
  "restore_lines key previous [] = []"
| "restore_lines key previous (l # ls) =
     (if conf_value key l \<noteq> None
      then (case previous of Some v \<Rightarrow> [key @ ''='' @ v] | None \<Rightarrow> []) @ restore_lines key None ls
      else l # restore_lines key previous ls)"

definition restore_value :: "string \<Rightarrow> string \<Rightarrow> string option \<Rightarrow> string" where
  "restore_value content key previous =
     (let result = join [newline] (restore_lines key previous (splitlines content)) in
      if result = [] then [] else final_newline content result)"

section \<open>The values of a section\<close>

type_synonym updates = "(string \<times> string option) list"

definition is_header :: "string \<Rightarrow> bool" where
  "is_header line = (starts_with ''['' (strip line) \<and> ends_with '']'' (strip line))"

definition ini_key :: "string \<Rightarrow> string option" where
  "ini_key line = (if CHR ''='' \<in> set (strip line) then Some (strip (before (CHR ''='') (strip line))) else None)"

definition ini_value :: "string \<Rightarrow> string" where
  "ini_value line = strip (after (CHR ''='') (strip line))"

definition setting_lines :: "updates \<Rightarrow> string list" where
  "setting_lines ups = List.map_filter (\<lambda>(k, v). map_option (setting_line k) v) ups"

text \<open>The lines of a section with the first line of each updated key replaced, or dropped for None, and the
  keys that were not met added at its end.\<close>

fun update_body :: "updates \<Rightarrow> string list \<Rightarrow> string list" where
  "update_body rem [] = setting_lines rem"
| "update_body rem (l # ls) =
     (case ini_key l of
        None \<Rightarrow> l # update_body rem ls
      | Some k \<Rightarrow>
         (case map_of rem k of
            None \<Rightarrow> l # update_body rem ls
          | Some v \<Rightarrow> (case v of Some x \<Rightarrow> [setting_line k x] | None \<Rightarrow> []) @ update_body (AList.delete k rem) ls))"

definition update_achievements_section :: "string \<Rightarrow> updates \<Rightarrow> string \<Rightarrow> string" where
  "update_achievements_section content ups sec =
     (let lines = split_on newline content in
      case dropWhile (\<lambda>l. strip l \<noteq> sec) lines of
        [] \<Rightarrow>
          (if setting_lines ups = [] then content
           else rstrip_newlines content @ [newline] @ sec @ [newline] @ join [newline] (setting_lines ups) @ [newline])
      | header # rest \<Rightarrow>
          join [newline] (takeWhile (\<lambda>l. strip l \<noteq> sec) lines @ header #
            update_body ups (takeWhile (\<lambda>l. \<not> is_header l) rest) @ dropWhile (\<lambda>l. \<not> is_header l) rest))"

fun section_value :: "string \<Rightarrow> string \<Rightarrow> bool \<Rightarrow> string list \<Rightarrow> string option" where
  "section_value sec key inside [] = None"
| "section_value sec key inside (l # ls) =
     (if is_header l then section_value sec key (strip l = sec) ls
      else if inside \<and> ini_key l = Some key then Some (ini_value l)
      else section_value sec key inside ls)"

definition extract_achievements_value :: "string \<Rightarrow> string \<Rightarrow> string \<Rightarrow> string option" where
  "extract_achievements_value content key sec = section_value sec key False (splitlines content)"

text \<open>The version of PPSSPP replaces the lines in place and then inserts what is left.\<close>

fun replace_body :: "(string \<times> string) list \<Rightarrow> string list \<Rightarrow> string list \<times> (string \<times> string) list" where
  "replace_body rem [] = ([], rem)"
| "replace_body rem (l # ls) =
     (case Option.bind (ini_key l) (\<lambda>k. map_option (Pair k) (map_of rem k)) of
        None \<Rightarrow> (case replace_body rem ls of (ls', r) \<Rightarrow> (l # ls', r))
      | Some (k, v) \<Rightarrow> (case replace_body (AList.delete k rem) ls of (ls', r) \<Rightarrow> (setting_line k v # ls', r)))"

definition ppsspp_update_section :: "string \<Rightarrow> (string \<times> string) list \<Rightarrow> string \<Rightarrow> string" where
  "ppsspp_update_section content ups sec =
     (let lines = split_on newline content in
      case dropWhile (\<lambda>l. strip l \<noteq> sec) lines of
        [] \<Rightarrow> rstrip_newlines content @ [newline] @ sec @ [newline] @
             join [newline] (map (\<lambda>(k, v). setting_line k v) ups) @ [newline]
      | header # rest \<Rightarrow>
          (case replace_body ups (takeWhile (\<lambda>l. \<not> is_header l) rest) of
             (body, left) \<Rightarrow> join [newline] (takeWhile (\<lambda>l. strip l \<noteq> sec) lines @ header #
               body @ map (\<lambda>(k, v). setting_line k v) left @ dropWhile (\<lambda>l. \<not> is_header l) rest)))"

end
