(* ===== verification/Emulator_Files.thy ===== *)
theory Emulator_Files
  imports Config_Text Auth
begin

text \<open>
  The files the patching of the emulators works on: the configuration files by their path, the saved patch
  state (state.py), and the address of the proxy (config.py).  Paths are texts in the normal form of
  pathlib; the patch state is its parsed value, absent when the file is missing or cannot be parsed.
\<close>

section \<open>The address of the proxy\<close>

definition DEFAULT_PROXY_PORT :: int where "DEFAULT_PROXY_PORT = 8080"
definition SPRUCE_DEFAULT_PROXY_PORT :: int where "SPRUCE_DEFAULT_PROXY_PORT = 8099"
definition MIN_PROXY_PORT :: int where "MIN_PROXY_PORT = 1024"
definition MAX_PROXY_PORT :: int where "MAX_PROXY_PORT = 65535"

definition default_proxy_port :: "bool \<Rightarrow> int" where
  "default_proxy_port spruce = (if spruce then SPRUCE_DEFAULT_PROXY_PORT else DEFAULT_PROXY_PORT)"

definition proxy_port :: "bool \<Rightarrow> json \<Rightarrow> int res" where
  "proxy_port spruce config =
     bind_res (py_int_of (field ''proxy_port'' (JInt (default_proxy_port spruce)) config)) (\<lambda>port.
     if MIN_PROXY_PORT \<le> port \<and> port \<le> MAX_PROXY_PORT then Inr port else Inl ValueError)"

definition proxy_host :: "json \<Rightarrow> string" where
  "proxy_host config = json_text (py_or (field ''proxy_host'' JNull config) (JStr ''127.0.0.1''))"

definition proxy_value :: "bool \<Rightarrow> json \<Rightarrow> string res" where
  "proxy_value spruce config =
     bind_res (proxy_port spruce config) (\<lambda>port. Inr (proxy_host config @ '':'' @ str_of_int port))"

section \<open>Files and the patch state\<close>

record emu_world =
  ew_files :: "string \<Rightarrow> string option"
  ew_state :: "json option"
  ew_store :: store

record emu_env =
  ee_windows :: bool
  ee_proxy :: string
  ee_conf :: "string option"
  ee_ppsspp :: "string option"
  ee_dolphin :: "string option"
  ee_pcsx2 :: "string option"
  ee_duckstation :: "string option"
  ee_flycast :: "string option"
  ee_darkos32 :: "string option"
  ee_login :: "password_login \<Rightarrow> store \<Rightarrow> (credentials option \<times> store) res"

definition exists_file :: "emu_world \<Rightarrow> string \<Rightarrow> bool" where
  "exists_file w path = (ew_files w path \<noteq> None)"

definition read_text :: "emu_world \<Rightarrow> string \<Rightarrow> string" where
  "read_text w path = (case ew_files w path of Some s \<Rightarrow> universal_newlines s | None \<Rightarrow> [])"

definition crlf_text :: "string \<Rightarrow> string" where
  "crlf_text s = concat (map (\<lambda>c. if c = newline then [CHR 0x0D, newline] else [c]) s)"

text \<open>On Windows a file keeps the line ends it had; elsewhere they are line feeds.\<close>

definition write_emulator_config :: "emu_env \<Rightarrow> string \<Rightarrow> string \<Rightarrow> emu_world \<Rightarrow> emu_world" where
  "write_emulator_config env path content w =
     (let raw = (if ee_windows env \<and> (case ew_files w path of Some old \<Rightarrow> contains [CHR 0x0D, newline] old | None \<Rightarrow> False)
                 then crlf_text content else content)
      in w\<lparr>ew_files := (ew_files w)(path \<mapsto> raw)\<rparr>)"

definition write_changed :: "emu_env \<Rightarrow> string \<Rightarrow> string \<Rightarrow> string \<Rightarrow> emu_world \<Rightarrow> emu_world" where
  "write_changed env path original transformed w =
     (if transformed \<noteq> original then write_emulator_config env path transformed w else w)"

definition load_patch_state :: "emu_world \<Rightarrow> json option res" where
  "load_patch_state w = (case ew_state w of
       None \<Rightarrow> Inr None
     | Some (JObj ps) \<Rightarrow> Inr (Some (JObj ps))
     | Some _ \<Rightarrow> Inl ValueError)"

definition save_patch_state :: "json \<Rightarrow> emu_world \<Rightarrow> emu_world" where
  "save_patch_state d w = w\<lparr>ew_state := Some d\<rparr>"

definition clear_patch_state :: "emu_world \<Rightarrow> emu_world" where
  "clear_patch_state w = w\<lparr>ew_state := None\<rparr>"

definition opt_json :: "string option \<Rightarrow> json" where
  "opt_json v = (case v of None \<Rightarrow> JNull | Some s \<Rightarrow> JStr s)"

definition opt_text :: "json \<Rightarrow> string option" where
  "opt_text v = (if v = JNull then None else Some (json_text v))"

lemma opt_text_json [simp]: "opt_text (opt_json v) = v"
  by (simp add: opt_text_def opt_json_def json_text_def split: option.split)

end
