(* ===== verification/Retroarch_Cfg.thy ===== *)
theory Retroarch_Cfg
  imports Emulator_Files
begin

text \<open>
  Pointing RetroArch at the proxy and back (retroarch_cfg.py): the rewritten files, the values saved before
  the first patch, the second file of muOS (the appendconfig) and the second build of dArkOS, and the
  credentials the files hold.
\<close>

definition HOST_KEY :: string where "HOST_KEY = ''cheevos_custom_host''"
definition ENABLE_KEY :: string where "ENABLE_KEY = ''cheevos_enable''"
definition HARDCORE_KEY :: string where "HARDCORE_KEY = ''cheevos_hardcore_mode_enable''"
definition USERNAME_KEY :: string where "USERNAME_KEY = ''cheevos_username''"
definition TOKEN_KEY :: string where "TOKEN_KEY = ''cheevos_token''"
definition PASSWORD_KEY :: string where "PASSWORD_KEY = ''cheevos_password''"
definition SYSTEM_CONF_USERNAME_KEY :: string where "SYSTEM_CONF_USERNAME_KEY = ''global.retroachievements.username''"
definition SYSTEM_CONF_TOKEN_KEY :: string where "SYSTEM_CONF_TOKEN_KEY = ''global.retroachievements.token''"
definition SYSTEM_CONF_PASSWORD_KEY :: string where "SYSTEM_CONF_PASSWORD_KEY = ''global.retroachievements.password''"

section \<open>The texts\<close>

definition detect_hardcore_enabled :: "string \<Rightarrow> bool" where
  "detect_hardcore_enabled content = (extract_config_value content HARDCORE_KEY = Some ''true'')"

definition is_patched_content :: "string \<Rightarrow> string \<Rightarrow> bool" where
  "is_patched_content content proxy = (extract_config_value content HOST_KEY = Some proxy)"

definition build_patched_content :: "string \<Rightarrow> string \<Rightarrow> string" where
  "build_patched_content content proxy =
     upsert_config_value (upsert_config_value (upsert_config_value (remove_orphan_boolean_lines content) HOST_KEY proxy)
       ENABLE_KEY ''true'') HARDCORE_KEY ''false''"

definition build_reverted_content :: "string \<Rightarrow> string option \<Rightarrow> string option \<Rightarrow> bool \<Rightarrow> string" where
  "build_reverted_content content host enable hardcore =
     (let with_enable = upsert_config_value (upsert_config_value (remove_orphan_boolean_lines content) HOST_KEY (or_str host []))
            ENABLE_KEY (or_str enable [])
      in if hardcore then upsert_config_value with_enable HARDCORE_KEY ''true'' else with_enable)"

text \<open>A host of the proxy: its address, or a loopback host with any port.\<close>

definition strip_scheme :: "string \<Rightarrow> string" where
  "strip_scheme a = (if starts_with ''http://'' a then drop 7 a else if starts_with ''https://'' a then drop 8 a else a)"

definition rstrip_slashes :: "string \<Rightarrow> string" where
  "rstrip_slashes a = rev (dropWhile (\<lambda>c. c = CHR ''/'') (rev a))"

definition before_last_colon :: "string \<Rightarrow> string" where
  "before_last_colon a =
     (if CHR '':'' \<in> set a then rev (after (CHR '':'') (rev a)) else a)"

definition strip_brackets :: "string \<Rightarrow> string" where
  "strip_brackets a = (let b = (\<lambda>c. c = CHR ''['' \<or> c = CHR '']'') in rev (dropWhile b (rev (dropWhile b a))))"

definition is_proxy_host :: "string option \<Rightarrow> string \<Rightarrow> bool" where
  "is_proxy_host v proxy = (case v of
       None \<Rightarrow> False
     | Some s \<Rightarrow> s \<noteq> [] \<and> (strip s = proxy \<or>
         strip_brackets (before_last_colon (rstrip_slashes (strip_scheme (strip s)))) \<in> {''127.0.0.1'', ''localhost'', ''::1''}))"

section \<open>The appendconfig\<close>

definition with_name :: "string \<Rightarrow> string \<Rightarrow> string" where
  "with_name path name = rev (dropWhile (\<lambda>c. c \<noteq> CHR ''/'') (rev path)) @ name"

definition cheevos_append_cfg_path :: "string \<Rightarrow> string option" where
  "cheevos_append_cfg_path cfg = (if cfg = [] then None else Some (with_name cfg ''retroarch.cheevos.cfg''))"

definition append_file :: "string \<Rightarrow> emu_world \<Rightarrow> string option" where
  "append_file cfg w = (case cheevos_append_cfg_path cfg of
       Some p \<Rightarrow> if exists_file w p then Some p else None | None \<Rightarrow> None)"

definition patch_cheevos_append_cfg :: "emu_env \<Rightarrow> string \<Rightarrow> emu_world \<Rightarrow> json \<times> emu_world" where
  "patch_cheevos_append_cfg env cfg w = (case append_file cfg w of
       None \<Rightarrow> (JNull, w)
     | Some p \<Rightarrow>
         let original = read_text w p;
             host = extract_config_value original HOST_KEY;
             transformed = build_patched_content original (ee_proxy env)
         in (JObj [(''cfg_path'', JStr p), (''hardcore_was_enabled'', JBool (detect_hardcore_enabled original)),
               (''previous_enable'', opt_json (extract_config_value original ENABLE_KEY)),
               (''previous_host'', opt_json (if is_proxy_host host (ee_proxy env) then Some [] else host)),
               (''changed'', JBool (transformed \<noteq> original))],
             write_changed env p original transformed w))"

text \<open>The cleanup of the appendconfig without a saved state.\<close>

definition clear_cheevos_append_host :: "emu_env \<Rightarrow> string \<Rightarrow> emu_world \<Rightarrow> emu_world" where
  "clear_cheevos_append_host env cfg w = (case append_file cfg w of
       None \<Rightarrow> w
     | Some p \<Rightarrow>
         let current = read_text w p in
         if \<not> is_proxy_host (extract_config_value current HOST_KEY) (ee_proxy env) then w
         else write_changed env p current (upsert_config_value current HOST_KEY []) w)"

definition revert_file :: "emu_env \<Rightarrow> json \<Rightarrow> string \<Rightarrow> emu_world \<Rightarrow> emu_world" where
  "revert_file env entry p w =
     (let current = read_text w p in
      write_changed env p current
        (build_reverted_content current (opt_text (field ''previous_host'' JNull entry)) (opt_text (field ''previous_enable'' JNull entry))
          (truthy (field ''hardcore_was_enabled'' (JBool False) entry))) w)"

definition revert_cheevos_append_cfg :: "emu_env \<Rightarrow> json \<Rightarrow> emu_world \<Rightarrow> emu_world" where
  "revert_cheevos_append_cfg env entry w =
     (let path = field ''cfg_path'' JNull entry in
      if \<not> truthy entry \<or> \<not> truthy path \<or> \<not> exists_file w (json_text path) then w
      else revert_file env entry (json_text path) w)"

section \<open>The main file\<close>

definition present :: "string option \<Rightarrow> bool" where
  "present v = (case v of Some s \<Rightarrow> s \<noteq> [] | None \<Rightarrow> False)"

text \<open>The user and a second value, both not empty.\<close>

definition pair_of :: "string \<Rightarrow> string \<Rightarrow> string \<Rightarrow> (string \<times> string) option" where
  "pair_of user_key key content = (case (extract_config_value content user_key, extract_config_value content key) of
       (Some u, Some v) \<Rightarrow> if u = [] \<or> v = [] then None else Some (u, v)
     | _ \<Rightarrow> None)"

text \<open>A real token is fetched and written ahead, so that RetroArch never logs in with the password.\<close>

definition ensure_cheevos_token :: "emu_env \<Rightarrow> string \<Rightarrow> store \<Rightarrow> (string \<times> store) res" where
  "ensure_cheevos_token env content st =
     (if present (extract_config_value content TOKEN_KEY) then Inr (content, st)
      else case pair_of USERNAME_KEY PASSWORD_KEY content of
        None \<Rightarrow> Inr (content, st)
      | Some (u, p) \<Rightarrow> bind_res (ee_login env \<lparr>pl_user = u, pl_password = p\<rparr> st) (\<lambda>(c, st1).
          case c of
            None \<Rightarrow> Inr (content, st1)
          | Some c \<Rightarrow> if cr_token c = [] then Inr (content, st1)
              else Inr (upsert_config_value (upsert_config_value content TOKEN_KEY (cr_token c)) PASSWORD_KEY [], st1)))"

definition conf_fallback_available :: "emu_env \<Rightarrow> emu_world \<Rightarrow> bool" where
  "conf_fallback_available env w = (case ee_conf env of Some p \<Rightarrow> p \<noteq> [] \<and> exists_file w p | None \<Rightarrow> False)"

record retroarch_result =
  rr_exists :: bool
  rr_hardcore :: bool
  rr_previous_host :: json
  rr_previous_enable :: json
  rr_changed :: bool
  rr_already :: bool

text \<open>The values to save: those of the file, or those saved before when the file was patched already.\<close>

definition saved_values :: "emu_env \<Rightarrow> string \<Rightarrow> string \<Rightarrow> bool \<Rightarrow> json \<Rightarrow> json \<Rightarrow> json \<times> json \<times> json \<times> json" where
  "saved_values env cfg original already saved extra =
     (let host = opt_json (extract_config_value original HOST_KEY);
          enable = opt_json (extract_config_value original ENABLE_KEY);
          hardcore = JBool (detect_hardcore_enabled original)
      in if already \<and> field ''cfg_path'' JNull saved = JStr cfg then
        (let old_host = field ''previous_host'' JNull saved;
             old_extra = field ''cheevos_append_cfg'' JNull saved
         in (if old_host = field ''proxy_host'' JNull saved \<and> old_host = JStr (ee_proxy env) then JStr [] else old_host,
             field ''previous_enable'' JNull saved,
             JBool (truthy (field ''hardcore_was_enabled'' hardcore saved)),
             if truthy old_extra \<and> field ''cfg_path'' JNull old_extra = opt_json (cheevos_append_cfg_path cfg)
             then old_extra else extra))
      else (host, enable, hardcore, extra))"

definition patch_retroarch_cfg :: "emu_env \<Rightarrow> string \<Rightarrow> emu_world \<Rightarrow> (retroarch_result \<times> emu_world) res" where
  "patch_retroarch_cfg env cfg w =
     (if \<not> exists_file w cfg then
        (if \<not> conf_fallback_available env w then Inl FileError
         else Inr (\<lparr>rr_exists = False, rr_hardcore = False, rr_previous_host = JNull, rr_previous_enable = JNull,
                    rr_changed = False, rr_already = False\<rparr>, w))
      else bind_res (load_patch_state w) (\<lambda>loaded.
        let saved = (case loaded of Some s \<Rightarrow> s | None \<Rightarrow> JObj []);
            original = read_text w cfg
        in bind_res (ensure_cheevos_token env (build_patched_content original (ee_proxy env)) (ew_store w)) (\<lambda>(transformed, st).
        let already = (transformed = original \<and> is_patched_content original (ee_proxy env));
            w1 = write_changed env cfg original transformed (w\<lparr>ew_store := st\<rparr>)
        in case patch_cheevos_append_cfg env cfg w1 of (extra, w2) \<Rightarrow>
           case saved_values env cfg original already saved extra of (host, enable, hardcore, extra1) \<Rightarrow>
             Inr (\<lparr>rr_exists = True, rr_hardcore = truthy hardcore, rr_previous_host = host, rr_previous_enable = enable,
                   rr_changed = (transformed \<noteq> original), rr_already = already\<rparr>,
               save_patch_state (JObj [(''cfg_path'', JStr cfg), (''hardcore_was_enabled'', hardcore), (''previous_host'', host),
                 (''previous_enable'', enable), (''proxy_host'', JStr (ee_proxy env)), (''retroarch_cfg'', JStr cfg),
                 (''cheevos_append_cfg'', extra1)]) w2))))"

record revert_result =
  rv_exists :: bool
  rv_changed :: bool
  rv_restored_hardcore :: bool
  rv_previous_host :: json
  rv_used_saved :: bool

text \<open>What the saved state says to restore.  A saved host that is the proxy's own is dropped.\<close>

definition restored_values :: "json option \<Rightarrow> string \<Rightarrow> json \<times> json \<times> bool" where
  "restored_values state current = (case state of
       None \<Rightarrow> (JStr [], opt_json (extract_config_value current ENABLE_KEY), False)
     | Some s \<Rightarrow>
        if \<not> truthy s then (JStr [], JStr [], False)
        else (let host = field ''previous_host'' JNull s in
          (if host = field ''proxy_host'' JNull s then JStr [] else host, field ''previous_enable'' JNull s,
           truthy (field ''hardcore_was_enabled'' (JBool False) s))))"

definition revert_retroarch_cfg ::
  "emu_env \<Rightarrow> string option \<Rightarrow> json option \<Rightarrow> emu_world \<Rightarrow> (revert_result \<times> emu_world) res" where
  "revert_retroarch_cfg env cfg override w =
     bind_res (case override of Some s \<Rightarrow> Inr (Some s) | None \<Rightarrow> load_patch_state w) (\<lambda>state.
     let saved = (case state of Some s \<Rightarrow> s | None \<Rightarrow> JObj []);
         extra = field ''cheevos_append_cfg'' JNull saved;
         forget = (\<lambda>w. if override = None \<and> state \<noteq> None then clear_patch_state w else w)
     in case (if present cfg then cfg else opt_text (field ''cfg_path'' JNull saved)) of
        None \<Rightarrow> Inl RuntimeError
      | Some target \<Rightarrow>
         if \<not> exists_file w target then
           (if \<not> conf_fallback_available env w then Inl FileError
            else Inr (\<lparr>rv_exists = False, rv_changed = False, rv_restored_hardcore = False, rv_previous_host = JStr [],
                       rv_used_saved = (state \<noteq> None)\<rparr>,
                  forget (clear_cheevos_append_host env target (revert_cheevos_append_cfg env extra w))))
         else
           (let current = read_text w target in
            case restored_values state current of (host, enable, hardcore) \<Rightarrow>
              let transformed = build_reverted_content current (opt_text host) (opt_text enable) hardcore
              in Inr (\<lparr>rv_exists = True, rv_changed = (transformed \<noteq> current), rv_restored_hardcore = hardcore,
                       rv_previous_host = host, rv_used_saved = (state \<noteq> None)\<rparr>,
                  forget (clear_cheevos_append_host env target (revert_cheevos_append_cfg env extra
                    (write_changed env target current transformed w))))))"

definition enforce_patched_cfg :: "emu_env \<Rightarrow> string \<Rightarrow> emu_world \<Rightarrow> bool \<times> emu_world" where
  "enforce_patched_cfg env cfg w =
     (if \<not> exists_file w cfg then (False, w)
      else (let current = read_text w cfg; transformed = build_patched_content current (ee_proxy env)
            in (transformed \<noteq> current, write_changed env cfg current transformed w)))"

definition is_retroarch_patched :: "emu_env \<Rightarrow> string \<Rightarrow> emu_world \<Rightarrow> bool" where
  "is_retroarch_patched env cfg w = (exists_file w cfg \<and> is_patched_content (read_text w cfg) (ee_proxy env))"

record retroarch_status =
  rs_exists :: bool
  rs_patched :: bool
  rs_enabled :: bool
  rs_hardcore :: bool
  rs_state_present :: bool

definition status_retroarch_cfg :: "emu_env \<Rightarrow> string \<Rightarrow> emu_world \<Rightarrow> retroarch_status res" where
  "status_retroarch_cfg env cfg w = bind_res (load_patch_state w) (\<lambda>state. Inr
     (if \<not> exists_file w cfg
      then \<lparr>rs_exists = False, rs_patched = False, rs_enabled = False, rs_hardcore = False, rs_state_present = (state \<noteq> None)\<rparr>
      else (let content = read_text w cfg in
        \<lparr>rs_exists = True, rs_patched = is_patched_content content (ee_proxy env),
         rs_enabled = (extract_config_value content ENABLE_KEY = Some ''true''),
         rs_hardcore = detect_hardcore_enabled content, rs_state_present = (state \<noteq> None)\<rparr>)))"

section \<open>The second build of dArkOS\<close>

definition secondary_retroarch_cfgs :: "emu_env \<Rightarrow> string list" where
  "secondary_retroarch_cfgs env = (case ee_darkos32 env of Some p \<Rightarrow> if p = [] then [] else [p] | None \<Rightarrow> [])"

text \<open>The entries of a list of dicts by their path; of two with one path the last counts.\<close>

definition entry_for :: "json list \<Rightarrow> string \<Rightarrow> json option" where
  "entry_for entries p = find (\<lambda>e. field ''cfg_path'' JNull e = JStr p \<and> p \<noteq> []) (rev entries)"

definition patch_secondary_file :: "emu_env \<Rightarrow> json list \<Rightarrow> string \<Rightarrow> emu_world \<Rightarrow> json option \<times> emu_world" where
  "patch_secondary_file env saved p w =
     (if \<not> exists_file w p then (None, w)
      else (let original = read_text w p;
                transformed = build_patched_content original (ee_proxy env);
                already = (transformed = original \<and> is_patched_content original (ee_proxy env));
                fresh = JObj [(''previous_host'', opt_json (extract_config_value original HOST_KEY)),
                  (''previous_enable'', opt_json (extract_config_value original ENABLE_KEY)),
                  (''hardcore_was_enabled'', JBool (detect_hardcore_enabled original))];
                values = (case entry_for saved p of Some e \<Rightarrow> if already then e else fresh | None \<Rightarrow> fresh)
            in (Some (JObj [(''cfg_path'', JStr p), (''previous_host'', field ''previous_host'' JNull values),
                  (''previous_enable'', field ''previous_enable'' JNull values),
                  (''hardcore_was_enabled'', JBool (truthy (field ''hardcore_was_enabled'' (JBool False) values))),
                  (''already_patched'', JBool already), (''changed'', JBool (transformed \<noteq> original))]),
                write_changed env p original transformed w)))"

fun patch_secondary :: "emu_env \<Rightarrow> json list \<Rightarrow> string list \<Rightarrow> emu_world \<Rightarrow> json list \<times> emu_world" where
  "patch_secondary env saved [] w = ([], w)"
| "patch_secondary env saved (p # ps) w = (case patch_secondary_file env saved p w of (e, w1) \<Rightarrow>
     case patch_secondary env saved ps w1 of (es, w2) \<Rightarrow> ((case e of Some x \<Rightarrow> [x] | None \<Rightarrow> []) @ es, w2))"

definition patch_secondary_retroarch_cfgs :: "emu_env \<Rightarrow> json list \<Rightarrow> emu_world \<Rightarrow> json list \<times> emu_world" where
  "patch_secondary_retroarch_cfgs env saved w = patch_secondary env saved (secondary_retroarch_cfgs env) w"

definition store_secondary_retroarch_previous :: "json list \<Rightarrow> json \<Rightarrow> json" where
  "store_secondary_retroarch_previous entries state =
     set_field ''secondary_cfgs'' (JList (map (\<lambda>e. JObj [(''cfg_path'', field ''cfg_path'' JNull e),
       (''previous_host'', field ''previous_host'' JNull e), (''previous_enable'', field ''previous_enable'' JNull e),
       (''hardcore_was_enabled'', field ''hardcore_was_enabled'' (JBool False) e)]) entries)) state"

fun revert_secondary :: "emu_env \<Rightarrow> json list \<Rightarrow> string list \<Rightarrow> emu_world \<Rightarrow> emu_world" where
  "revert_secondary env saved [] w = w"
| "revert_secondary env saved (p # ps) w = revert_secondary env saved ps
     (if exists_file w p then revert_file env (case entry_for saved p of Some e \<Rightarrow> e | None \<Rightarrow> JObj []) p w else w)"

definition revert_secondary_retroarch_cfgs :: "emu_env \<Rightarrow> json list \<Rightarrow> emu_world \<Rightarrow> emu_world" where
  "revert_secondary_retroarch_cfgs env saved w = revert_secondary env saved (secondary_retroarch_cfgs env) w"

fun enforce_all :: "emu_env \<Rightarrow> string list \<Rightarrow> emu_world \<Rightarrow> bool \<times> emu_world" where
  "enforce_all env [] w = (False, w)"
| "enforce_all env (p # ps) w = (case enforce_patched_cfg env p w of (c, w1) \<Rightarrow>
     case enforce_all env ps w1 of (c2, w2) \<Rightarrow> (c \<or> c2, w2))"

definition enforce_secondary_retroarch_cfgs :: "emu_env \<Rightarrow> emu_world \<Rightarrow> bool \<times> emu_world" where
  "enforce_secondary_retroarch_cfgs env w = enforce_all env (secondary_retroarch_cfgs env) w"

section \<open>The credentials of the files\<close>

definition file_pair :: "emu_world \<Rightarrow> string \<Rightarrow> string \<Rightarrow> string option \<Rightarrow> (string \<times> string) option" where
  "file_pair w user_key key path = (case path of
       None \<Rightarrow> None
     | Some p \<Rightarrow> if p = [] \<or> \<not> exists_file w p then None else pair_of user_key key (read_text w p))"

definition load_retroarch_token_credentials :: "emu_world \<Rightarrow> string option \<Rightarrow> credentials option" where
  "load_retroarch_token_credentials w path =
     map_option (\<lambda>(u, t). \<lparr>cr_user = u, cr_token = t\<rparr>) (file_pair w USERNAME_KEY TOKEN_KEY path)"

definition load_retroarch_password_credentials :: "emu_world \<Rightarrow> string option \<Rightarrow> password_login option" where
  "load_retroarch_password_credentials w path =
     map_option (\<lambda>(u, p). \<lparr>pl_user = u, pl_password = p\<rparr>) (file_pair w USERNAME_KEY PASSWORD_KEY path)"

definition load_system_conf_token_credentials :: "emu_env \<Rightarrow> emu_world \<Rightarrow> credentials option" where
  "load_system_conf_token_credentials env w =
     map_option (\<lambda>(u, t). \<lparr>cr_user = u, cr_token = t\<rparr>) (file_pair w SYSTEM_CONF_USERNAME_KEY SYSTEM_CONF_TOKEN_KEY (ee_conf env))"

definition load_system_conf_password_credentials :: "emu_env \<Rightarrow> emu_world \<Rightarrow> password_login option" where
  "load_system_conf_password_credentials env w =
     map_option (\<lambda>(u, p). \<lparr>pl_user = u, pl_password = p\<rparr>) (file_pair w SYSTEM_CONF_USERNAME_KEY SYSTEM_CONF_PASSWORD_KEY (ee_conf env))"

datatype file_credentials = TokenLogin credentials | PasswordLogin password_login

text \<open>Tokens before passwords, and within each the main file, the appendconfig, the system's own settings and
  the second build; at last the password of spruce.\<close>

definition load_retroarch_credentials :: "emu_env \<Rightarrow> password_login option \<Rightarrow> string option \<Rightarrow> emu_world \<Rightarrow> file_credentials option" where
  "load_retroarch_credentials env spruce cfg w =
     (let extra = (if present cfg then Option.bind cfg cheevos_append_cfg_path else None) in
      first_some
        [map_option TokenLogin (load_retroarch_token_credentials w cfg),
         map_option TokenLogin (load_retroarch_token_credentials w extra),
         map_option TokenLogin (load_system_conf_token_credentials env w),
         map_option TokenLogin (load_retroarch_token_credentials w (ee_darkos32 env)),
         map_option PasswordLogin (load_retroarch_password_credentials w cfg),
         map_option PasswordLogin (load_retroarch_password_credentials w extra),
         map_option PasswordLogin (load_system_conf_password_credentials env w),
         map_option PasswordLogin (load_retroarch_password_credentials w (ee_darkos32 env)),
         map_option PasswordLogin spruce])"

end
