(* ===== verification/Emulator_Ini.thy ===== *)
theory Emulator_Ini
  imports Emulator_Files
begin

text \<open>
  Pointing the emulators with a section of their own at the proxy and back (achievements_ini.py with
  pcsx2_cfg.py, duckstation_cfg.py and flycast_cfg.py; dolphin_cfg.py; ppsspp_cfg.py), and the settings of
  Batocera and Knulli (batocera_conf.py).
\<close>

record patch_result =
  pt_exists :: bool
  pt_changed :: bool
  pt_already :: bool
  pt_path :: "string option"
  pt_previous :: json

definition no_patch :: "string option \<Rightarrow> patch_result" where
  "no_patch path = \<lparr>pt_exists = False, pt_changed = False, pt_already = False, pt_path = path, pt_previous = JObj []\<rparr>"

text \<open>The file to work on, when it is known and exists.\<close>

definition target_file :: "string option \<Rightarrow> emu_world \<Rightarrow> string option" where
  "target_file path w = (case path of Some p \<Rightarrow> if exists_file w p then Some p else None | None \<Rightarrow> None)"

text \<open>The values captured first are kept when a patched file is patched again.\<close>

definition state_has :: "string \<Rightarrow> json \<Rightarrow> bool" where
  "state_has k state = (case state of JObj ps \<Rightarrow> map_of ps k \<noteq> None | _ \<Rightarrow> False)"

definition store_previous :: "string \<Rightarrow> string \<Rightarrow> patch_result \<Rightarrow> json \<Rightarrow> json" where
  "store_previous previous_key path_key r state =
     (let state1 = (if pt_already r \<and> state_has previous_key state then state else set_field previous_key (pt_previous r) state)
      in set_field path_key (opt_json (pt_path r)) state1)"

section \<open>Emulators with a host setting\<close>

record host_setting =
  hs_section :: string
  hs_host_key :: string
  hs_hardcore_key :: string
  hs_hardcore_off :: string
  hs_previous_key :: string
  hs_path_key :: string

definition DUCKSTATION :: host_setting where
  "DUCKSTATION = \<lparr>hs_section = ''[Cheevos]'', hs_host_key = ''Host'', hs_hardcore_key = ''ChallengeMode'',
     hs_hardcore_off = ''false'', hs_previous_key = ''duckstation_previous'', hs_path_key = ''duckstation_ini_path''\<rparr>"

definition FLYCAST :: host_setting where
  "FLYCAST = \<lparr>hs_section = ''[achievements]'', hs_host_key = ''HostUrl'', hs_hardcore_key = ''HardcoreMode'',
     hs_hardcore_off = ''no'', hs_previous_key = ''flycast_previous'', hs_path_key = ''flycast_cfg_path''\<rparr>"

definition PCSX2 :: host_setting where
  "PCSX2 = \<lparr>hs_section = ''[Achievements]'', hs_host_key = ''Host'', hs_hardcore_key = ''ChallengeMode'',
     hs_hardcore_off = ''false'', hs_previous_key = ''pcsx2_previous'', hs_path_key = ''pcsx2_ini_path''\<rparr>"

definition captured :: "host_setting \<Rightarrow> string \<Rightarrow> json" where
  "captured hs content = JObj (map (\<lambda>k. (k, opt_json (extract_achievements_value content k (hs_section hs))))
     [hs_host_key hs, hs_hardcore_key hs])"

definition setting_patched :: "host_setting \<Rightarrow> string \<Rightarrow> string \<Rightarrow> string" where
  "setting_patched hs proxy content =
     update_achievements_section content [(hs_host_key hs, Some proxy), (hs_hardcore_key hs, Some (hs_hardcore_off hs))] (hs_section hs)"

definition setting_reverted :: "host_setting \<Rightarrow> string \<Rightarrow> json \<Rightarrow> string \<Rightarrow> string" where
  "setting_reverted hs proxy previous content =
     (let host = field (hs_host_key hs) JNull previous
      in update_achievements_section content
           [(hs_host_key hs, if host = JStr proxy then None else opt_text host),
            (hs_hardcore_key hs, opt_text (field (hs_hardcore_key hs) JNull previous))] (hs_section hs))"

definition patch_setting :: "host_setting \<Rightarrow> string option \<Rightarrow> emu_env \<Rightarrow> emu_world \<Rightarrow> patch_result \<times> emu_world" where
  "patch_setting hs path env w = (case target_file path w of
       None \<Rightarrow> (no_patch path, w)
     | Some p \<Rightarrow>
         let original = read_text w p; transformed = setting_patched hs (ee_proxy env) original
         in (\<lparr>pt_exists = True, pt_changed = (transformed \<noteq> original),
              pt_already = (extract_achievements_value original (hs_host_key hs) (hs_section hs) = Some (ee_proxy env)),
              pt_path = Some p, pt_previous = captured hs original\<rparr>,
             write_changed env p original transformed w))"

definition store_setting_previous :: "host_setting \<Rightarrow> patch_result \<Rightarrow> json \<Rightarrow> json" where
  "store_setting_previous hs = store_previous (hs_previous_key hs) (hs_path_key hs)"

definition revert_setting :: "host_setting \<Rightarrow> string option \<Rightarrow> emu_env \<Rightarrow> json \<Rightarrow> emu_world \<Rightarrow> emu_world" where
  "revert_setting hs path env previous w = (case target_file path w of
       None \<Rightarrow> w
     | Some p \<Rightarrow>
         let current = read_text w p
         in write_changed env p current (setting_reverted hs (ee_proxy env) previous current) w)"

definition patch_duckstation_ini :: "emu_env \<Rightarrow> emu_world \<Rightarrow> patch_result \<times> emu_world" where
  "patch_duckstation_ini env = patch_setting DUCKSTATION (ee_duckstation env) env"
definition revert_duckstation_ini :: "emu_env \<Rightarrow> json \<Rightarrow> emu_world \<Rightarrow> emu_world" where
  "revert_duckstation_ini env = revert_setting DUCKSTATION (ee_duckstation env) env"
definition patch_flycast_cfg :: "emu_env \<Rightarrow> emu_world \<Rightarrow> patch_result \<times> emu_world" where
  "patch_flycast_cfg env = patch_setting FLYCAST (ee_flycast env) env"
definition revert_flycast_cfg :: "emu_env \<Rightarrow> json \<Rightarrow> emu_world \<Rightarrow> emu_world" where
  "revert_flycast_cfg env = revert_setting FLYCAST (ee_flycast env) env"
definition patch_pcsx2_ini :: "emu_env \<Rightarrow> emu_world \<Rightarrow> patch_result \<times> emu_world" where
  "patch_pcsx2_ini env = patch_setting PCSX2 (ee_pcsx2 env) env"
definition revert_pcsx2_ini :: "emu_env \<Rightarrow> json \<Rightarrow> emu_world \<Rightarrow> emu_world" where
  "revert_pcsx2_ini env = revert_setting PCSX2 (ee_pcsx2 env) env"

section \<open>Dolphin\<close>

definition DOLPHIN_SECTION :: string where "DOLPHIN_SECTION = ''[Achievements]''"
definition DOLPHIN_HOST_KEY :: string where "DOLPHIN_HOST_KEY = ''HostUrl''"
definition DOLPHIN_HARDCORE_KEY :: string where "DOLPHIN_HARDCORE_KEY = ''HardcoreEnabled''"

definition build_patched_dolphin_ini :: "string \<Rightarrow> string \<Rightarrow> string" where
  "build_patched_dolphin_ini content proxy =
     update_achievements_section content [(DOLPHIN_HOST_KEY, Some proxy), (DOLPHIN_HARDCORE_KEY, Some ''False'')] DOLPHIN_SECTION"

text \<open>A captured host that is the proxy's own is dropped.\<close>

definition sanitize_previous :: "string \<Rightarrow> string \<Rightarrow> json \<Rightarrow> json" where
  "sanitize_previous host_key own previous =
     (if field host_key JNull previous = JStr own then set_field host_key JNull previous else previous)"

definition build_reverted_dolphin_ini :: "string \<Rightarrow> json \<Rightarrow> string" where
  "build_reverted_dolphin_ini content previous =
     update_achievements_section content [(DOLPHIN_HOST_KEY, opt_text (field DOLPHIN_HOST_KEY JNull previous)),
       (DOLPHIN_HARDCORE_KEY, opt_text (py_or (field DOLPHIN_HARDCORE_KEY JNull previous) (JStr ''False'')))] DOLPHIN_SECTION"

definition patch_dolphin_ini :: "emu_env \<Rightarrow> emu_world \<Rightarrow> patch_result \<times> emu_world" where
  "patch_dolphin_ini env w = (case target_file (ee_dolphin env) w of
       None \<Rightarrow> (no_patch (ee_dolphin env), w)
     | Some p \<Rightarrow>
         let original = read_text w p;
             host = extract_achievements_value original DOLPHIN_HOST_KEY DOLPHIN_SECTION;
             transformed = build_patched_dolphin_ini original (ee_proxy env)
         in (\<lparr>pt_exists = True, pt_changed = (transformed \<noteq> original),
              pt_already = (transformed = original \<and> host = Some (ee_proxy env)), pt_path = Some p,
              pt_previous = JObj [(DOLPHIN_HOST_KEY, opt_json host),
                (DOLPHIN_HARDCORE_KEY, opt_json (extract_achievements_value original DOLPHIN_HARDCORE_KEY DOLPHIN_SECTION))]\<rparr>,
             write_changed env p original transformed w))"

definition store_dolphin_previous :: "patch_result \<Rightarrow> json \<Rightarrow> json" where
  "store_dolphin_previous = store_previous ''dolphin_previous'' ''dolphin_ini_path''"

definition revert_dolphin_ini :: "emu_env \<Rightarrow> json \<Rightarrow> emu_world \<Rightarrow> emu_world" where
  "revert_dolphin_ini env previous w = (case target_file (ee_dolphin env) w of
       None \<Rightarrow> w
     | Some p \<Rightarrow>
         let current = read_text w p
         in write_changed env p current
              (build_reverted_dolphin_ini current (sanitize_previous DOLPHIN_HOST_KEY (ee_proxy env) previous)) w)"

section \<open>PPSSPP\<close>

definition PPSSPP_SECTION :: string where "PPSSPP_SECTION = ''[Achievements]''"
definition PPSSPP_HOST_KEY :: string where "PPSSPP_HOST_KEY = ''AchievementsHost''"
definition CHALLENGE_MODE_KEY :: string where "CHALLENGE_MODE_KEY = ''AchievementsChallengeMode''"

definition build_patched_ppsspp_ini :: "string \<Rightarrow> string \<Rightarrow> string" where
  "build_patched_ppsspp_ini content proxy =
     ppsspp_update_section content [(PPSSPP_HOST_KEY, proxy), (CHALLENGE_MODE_KEY, ''False'')] PPSSPP_SECTION"

definition build_reverted_ppsspp_ini :: "string \<Rightarrow> json \<Rightarrow> string" where
  "build_reverted_ppsspp_ini content previous =
     ppsspp_update_section content [(PPSSPP_HOST_KEY, json_text (py_or (field PPSSPP_HOST_KEY JNull previous) (JStr []))),
       (CHALLENGE_MODE_KEY, json_text (py_or (field CHALLENGE_MODE_KEY JNull previous) (JStr ''False'')))] PPSSPP_SECTION"

definition is_ppsspp_patched :: "emu_env \<Rightarrow> emu_world \<Rightarrow> bool" where
  "is_ppsspp_patched env w = (case target_file (ee_ppsspp env) w of
       None \<Rightarrow> False
     | Some p \<Rightarrow> extract_achievements_value (read_text w p) PPSSPP_HOST_KEY PPSSPP_SECTION = Some (ee_proxy env))"

definition patch_ppsspp_ini :: "emu_env \<Rightarrow> emu_world \<Rightarrow> patch_result \<times> emu_world" where
  "patch_ppsspp_ini env w = (case target_file (ee_ppsspp env) w of
       None \<Rightarrow> (no_patch (ee_ppsspp env), w)
     | Some p \<Rightarrow>
         let original = read_text w p;
             host = extract_achievements_value original PPSSPP_HOST_KEY PPSSPP_SECTION;
             transformed = build_patched_ppsspp_ini original (ee_proxy env)
         in (\<lparr>pt_exists = True, pt_changed = (transformed \<noteq> original),
              pt_already = (transformed = original \<and> host = Some (ee_proxy env)), pt_path = Some p,
              pt_previous = JObj [(PPSSPP_HOST_KEY, opt_json host),
                (CHALLENGE_MODE_KEY, opt_json (extract_achievements_value original CHALLENGE_MODE_KEY PPSSPP_SECTION))]\<rparr>,
             write_changed env p original transformed w))"

definition store_ppsspp_previous :: "patch_result \<Rightarrow> json \<Rightarrow> json" where
  "store_ppsspp_previous = store_previous ''ppsspp_previous'' ''ppsspp_ini_path''"

definition revert_ppsspp_ini :: "emu_env \<Rightarrow> json \<Rightarrow> emu_world \<Rightarrow> emu_world" where
  "revert_ppsspp_ini env previous w = (case target_file (ee_ppsspp env) w of
       None \<Rightarrow> w
     | Some p \<Rightarrow>
         let current = read_text w p
         in write_changed env p current
              (build_reverted_ppsspp_ini current (sanitize_previous PPSSPP_HOST_KEY (ee_proxy env) previous)) w)"

section \<open>Batocera and Knulli\<close>

definition RETROACHIEVEMENTS_KEY :: string where "RETROACHIEVEMENTS_KEY = ''global.retroachievements''"
definition RETROACHIEVEMENTS_HARDCORE_KEY :: string where "RETROACHIEVEMENTS_HARDCORE_KEY = ''global.retroachievements.hardcore''"
definition RETROARCH_CHEEVOS_ENABLE_KEY :: string where "RETROARCH_CHEEVOS_ENABLE_KEY = ''global.retroarch.cheevos_enable''"
definition CHEEVOS_CUSTOM_HOST_KEY :: string where "CHEEVOS_CUSTOM_HOST_KEY = ''global.retroarch.cheevos_custom_host''"
definition CHEEVOS_HARDCORE_KEY :: string where "CHEEVOS_HARDCORE_KEY = ''global.retroarch.cheevos_hardcore_mode_enable''"

definition OBSOLETE_KEYS :: "string list" where
  "OBSOLETE_KEYS = [''global.cheevos_enable'', RETROARCH_CHEEVOS_ENABLE_KEY, CHEEVOS_HARDCORE_KEY]"

definition conf_host :: "string \<Rightarrow> string" where
  "conf_host proxy = in_quotes proxy"

definition build_patched_batocera_conf :: "string \<Rightarrow> string \<Rightarrow> string" where
  "build_patched_batocera_conf content proxy =
     upsert_value (upsert_value (upsert_value (upsert_value (upsert_value
       (fold (\<lambda>k c. restore_value c k None) OBSOLETE_KEYS content)
       RETROACHIEVEMENTS_KEY ''1'') RETROACHIEVEMENTS_HARDCORE_KEY ''0'') RETROARCH_CHEEVOS_ENABLE_KEY (in_quotes ''true''))
       CHEEVOS_CUSTOM_HOST_KEY (conf_host proxy)) CHEEVOS_HARDCORE_KEY (in_quotes ''false'')"

definition build_reverted_batocera_conf :: "string \<Rightarrow> json \<Rightarrow> string" where
  "build_reverted_batocera_conf content previous =
     fold (\<lambda>k c. restore_value c k (opt_text (field k JNull previous)))
       [RETROACHIEVEMENTS_HARDCORE_KEY, RETROARCH_CHEEVOS_ENABLE_KEY, CHEEVOS_CUSTOM_HOST_KEY, CHEEVOS_HARDCORE_KEY] content"

text \<open>These settings are written as they are on every system.\<close>

definition write_conf :: "string \<Rightarrow> string \<Rightarrow> string \<Rightarrow> emu_world \<Rightarrow> emu_world" where
  "write_conf path original transformed w =
     (if transformed \<noteq> original then w\<lparr>ew_files := (ew_files w)(path \<mapsto> transformed)\<rparr> else w)"

definition patch_batocera_conf :: "emu_env \<Rightarrow> emu_world \<Rightarrow> patch_result \<times> emu_world" where
  "patch_batocera_conf env w = (case target_file (ee_conf env) w of
       None \<Rightarrow> (no_patch (ee_conf env), w)
     | Some p \<Rightarrow>
         let original = read_text w p;
             transformed = build_patched_batocera_conf original (ee_proxy env)
         in (\<lparr>pt_exists = True, pt_changed = (transformed \<noteq> original),
              pt_already = (transformed = original \<and> extract_value original CHEEVOS_CUSTOM_HOST_KEY = Some (conf_host (ee_proxy env))),
              pt_path = Some p,
              pt_previous = JObj (map (\<lambda>k. (k, opt_json (extract_value original k)))
                [RETROACHIEVEMENTS_KEY, RETROACHIEVEMENTS_HARDCORE_KEY, RETROARCH_CHEEVOS_ENABLE_KEY, CHEEVOS_CUSTOM_HOST_KEY,
                 CHEEVOS_HARDCORE_KEY])\<rparr>,
             write_conf p original transformed w))"

definition store_batocera_previous :: "patch_result \<Rightarrow> json \<Rightarrow> json" where
  "store_batocera_previous = store_previous ''batocera_previous'' ''batocera_conf_path''"

definition revert_batocera_conf :: "emu_env \<Rightarrow> json \<Rightarrow> emu_world \<Rightarrow> emu_world" where
  "revert_batocera_conf env previous w = (case target_file (ee_conf env) w of
       None \<Rightarrow> w
     | Some p \<Rightarrow>
         let current = read_text w p
         in write_conf p current
              (build_reverted_batocera_conf current
                (sanitize_previous CHEEVOS_CUSTOM_HOST_KEY (conf_host (ee_proxy env)) previous)) w)"

definition enforce_batocera_conf :: "emu_env \<Rightarrow> emu_world \<Rightarrow> bool \<times> emu_world" where
  "enforce_batocera_conf env w = (case target_file (ee_conf env) w of
       None \<Rightarrow> (False, w)
     | Some p \<Rightarrow>
         let current = read_text w p; transformed = build_patched_batocera_conf current (ee_proxy env)
         in (transformed \<noteq> current, write_conf p current transformed w))"

end
