(* ===== verification/Proxy_Setup.thy ===== *)
theory Proxy_Setup
  imports Retroarch_Cfg Emulator_Ini
begin

text \<open>
  Pointing every emulator at the proxy and back (main.py): the order in which the files are patched, the one
  state file they share, and the revert.  The lines printed for the user are not modelled.
\<close>

definition STALE_HOOK_PATH :: string where
  "STALE_HOOK_PATH = ''/userdata/system/scripts/RAOfflineProxy_game_hook.sh''"

definition remove_stale_hook :: "emu_world \<Rightarrow> emu_world" where
  "remove_stale_hook w = w\<lparr>ew_files := (ew_files w)(STALE_HOOK_PATH := None)\<rparr>"

definition state_list :: "string \<Rightarrow> json \<Rightarrow> json list" where
  "state_list k state = (case field k (JList []) state of JList es \<Rightarrow> es | _ \<Rightarrow> [])"

definition loaded_state :: "emu_world \<Rightarrow> json res" where
  "loaded_state w = bind_res (load_patch_state w) (\<lambda>s. Inr (case s of Some d \<Rightarrow> d | None \<Rightarrow> JObj []))"

text \<open>The other emulators, in the order of the source, each with what it captured.\<close>

definition patch_others :: "emu_env \<Rightarrow> emu_world \<Rightarrow> (patch_result \<times> patch_result \<times> patch_result \<times> patch_result \<times> patch_result \<times> patch_result) \<times> emu_world" where
  "patch_others env w =
     (case patch_batocera_conf env w of (batocera, w1) \<Rightarrow>
      case patch_ppsspp_ini env w1 of (ppsspp, w2) \<Rightarrow>
      case patch_dolphin_ini env w2 of (dolphin, w3) \<Rightarrow>
      case patch_pcsx2_ini env w3 of (pcsx2, w4) \<Rightarrow>
      case patch_duckstation_ini env w4 of (duckstation, w5) \<Rightarrow>
      case patch_flycast_cfg env w5 of (flycast, w6) \<Rightarrow> ((batocera, ppsspp, dolphin, pcsx2, duckstation, flycast), w6))"

definition store_others ::
  "patch_result \<times> patch_result \<times> patch_result \<times> patch_result \<times> patch_result \<times> patch_result \<Rightarrow> json \<Rightarrow> json" where
  "store_others rs state = (case rs of (batocera, ppsspp, dolphin, pcsx2, duckstation, flycast) \<Rightarrow>
     store_setting_previous FLYCAST flycast (store_setting_previous DUCKSTATION duckstation (store_setting_previous PCSX2 pcsx2
       (store_dolphin_previous dolphin (store_ppsspp_previous ppsspp (store_batocera_previous batocera state))))))"

definition patch_emulator_configs :: "emu_env \<Rightarrow> string \<Rightarrow> emu_world \<Rightarrow> (retroarch_result \<times> emu_world) res" where
  "patch_emulator_configs env cfg w =
     (let w0 = remove_stale_hook w in
      bind_res (loaded_state w0) (\<lambda>before.
      bind_res (patch_retroarch_cfg env cfg w0) (\<lambda>(result, w1).
      let w2 = snd (enforce_patched_cfg env cfg w1)
      in case patch_secondary_retroarch_cfgs env (state_list ''secondary_cfgs'' before) w2 of (secondary, w3) \<Rightarrow>
         let w4 = snd (enforce_secondary_retroarch_cfgs env w3)
         in case patch_others env w4 of (rs, w5) \<Rightarrow>
            bind_res (loaded_state w5) (\<lambda>state.
              Inr (result, save_patch_state (store_others rs (store_secondary_retroarch_previous secondary state)) w5)))))"

definition revert_others :: "emu_env \<Rightarrow> json \<Rightarrow> emu_world \<Rightarrow> emu_world" where
  "revert_others env state w =
     revert_secondary_retroarch_cfgs env (state_list ''secondary_cfgs'' state)
       (revert_flycast_cfg env (field ''flycast_previous'' (JObj []) state)
       (revert_duckstation_ini env (field ''duckstation_previous'' (JObj []) state)
       (revert_pcsx2_ini env (field ''pcsx2_previous'' (JObj []) state)
       (revert_dolphin_ini env (field ''dolphin_previous'' (JObj []) state)
       (revert_ppsspp_ini env (field ''ppsspp_previous'' (JObj []) state)
       (revert_batocera_conf env (field ''batocera_previous'' (JObj []) state) w))))))"

definition revert_proxy_config :: "emu_env \<Rightarrow> string option \<Rightarrow> emu_world \<Rightarrow> emu_world res" where
  "revert_proxy_config env cfg w =
     (let w0 = remove_stale_hook w in
      bind_res (loaded_state w0) (\<lambda>state.
      let saved_path = field ''cfg_path'' JNull state;
          path = (if truthy saved_path then Some (json_text saved_path) else cfg);
          w1 = revert_others env state w0
      in if truthy state then bind_res (revert_retroarch_cfg env path (Some state) w1) (\<lambda>(r, w2). Inr w2)
         else if present path then Inr (case revert_retroarch_cfg env path None w1 of Inr (r, w2) \<Rightarrow> w2 | Inl e \<Rightarrow> w1)
         else Inr w1))"

end
