(* ===== verification/Config_Laws.thy ===== *)
theory Config_Laws
  imports Config_Text
begin

text \<open>
  What rewriting a configuration file does to the values that are read from it.  A text is plain when its
  only white space is blanks, tabs and line feeds; then the lines of str.splitlines and those between line
  feeds agree up to an empty last one.
\<close>

named_theorems text_simps \<open>reading rewritten text\<close>

section \<open>Plain text\<close>

definition plain_line :: "string \<Rightarrow> bool" where
  "plain_line l = (\<forall>c \<in> set l. is_space c \<longrightarrow> is_blank c)"

definition plain_text :: "string \<Rightarrow> bool" where
  "plain_text s = (\<forall>c \<in> set s. is_space c \<longrightarrow> is_blank c \<or> c = newline)"

definition text_lines :: "string \<Rightarrow> string list" where
  "text_lines s = split_on newline s"

lemma newline_space [simp]: "is_space newline" "\<not> is_blank newline" "is_break newline"
  by (simp_all add: is_space_def is_blank_def is_break_def)

lemma blank_space: "is_blank c \<Longrightarrow> is_space c"
  by (auto simp: is_space_def is_blank_def)

lemma break_space: "is_break c \<Longrightarrow> is_space c"
  by (auto simp: is_space_def is_break_def)

lemma blank_not_break: "is_blank c \<Longrightarrow> \<not> is_break c"
  by (auto simp: is_blank_def is_break_def)

lemma plain_break: "plain_text s \<Longrightarrow> c \<in> set s \<Longrightarrow> is_break c \<longleftrightarrow> c = newline"
  by (auto simp: plain_text_def dest: break_space blank_not_break)

lemma plain_text_parts [simp]:
  "plain_text []" "plain_text (c # s) \<longleftrightarrow> (is_space c \<longrightarrow> is_blank c \<or> c = newline) \<and> plain_text s"
  "plain_text (s @ t) \<longleftrightarrow> plain_text s \<and> plain_text t"
  by (auto simp: plain_text_def)

lemma plain_line_parts [simp]:
  "plain_line []" "plain_line (c # s) \<longleftrightarrow> (is_space c \<longrightarrow> is_blank c) \<and> plain_line s"
  "plain_line (s @ t) \<longleftrightarrow> plain_line s \<and> plain_line t"
  by (auto simp: plain_line_def)

lemma plain_line_iff: "plain_line l \<longleftrightarrow> plain_text l \<and> newline \<notin> set l"
  by (auto simp: plain_line_def plain_text_def)

lemma split_on_append_any: "split_on c (s @ c # t) = split_on c s @ split_on c t"
  by (induction s) (auto split: list.splits)

lemma set_split_on: "l \<in> set (split_on c s) \<Longrightarrow> set l \<subseteq> set s - {c}"
proof (induction s arbitrary: l)
  case (Cons x xs) then show ?case by (fastforce split: list.splits if_splits)
qed simp

lemma text_lines_plain: "plain_text s \<Longrightarrow> l \<in> set (text_lines s) \<Longrightarrow> plain_line l"
  using set_split_on [of l newline s] by (auto simp: text_lines_def plain_text_def plain_line_def)

lemma text_lines_not_Nil [simp]: "text_lines s \<noteq> []"
  by (simp add: text_lines_def)

lemma text_lines_join:
  "ls \<noteq> [] \<Longrightarrow> (\<And>l. l \<in> set ls \<Longrightarrow> newline \<notin> set l) \<Longrightarrow> text_lines (join [newline] ls) = ls"
  unfolding text_lines_def by (rule split_on_join)

lemma plain_join: "(\<And>l. l \<in> set ls \<Longrightarrow> plain_line l) \<Longrightarrow> plain_text (join [newline] ls)"
  by (induction "[newline]" ls rule: join.induct) (auto simp: plain_line_iff)

lemma join_lines [simp]: "join [newline] (text_lines s) = s"
  by (simp add: text_lines_def join_split_on)

lemma text_lines_simps [text_simps]:
  "text_lines [] = [[]]" "newline \<notin> set l \<Longrightarrow> text_lines l = [l]"
  "text_lines (s @ newline # t) = text_lines s @ text_lines t"
  by (simp_all add: text_lines_def split_on_none split_on_append_any)

lemma splitlines_plain:
  "plain_text s \<Longrightarrow> splitlines s = (if last (text_lines s) = [] then butlast (text_lines s) else text_lines s)"
proof (induction s)
  case (Cons c cs)
  have IH: "splitlines cs = (if last (text_lines cs) = [] then butlast (text_lines cs) else text_lines cs)"
    using Cons by simp
  have "c \<noteq> CHR 0x0D" using Cons.prems by (auto simp: is_space_def is_blank_def)
  moreover have "is_break c \<longleftrightarrow> c = newline" using plain_break [OF Cons.prems, of c] by simp
  ultimately show ?case using IH
    by (cases "text_lines cs"; cases "tl (text_lines cs)") (auto simp: text_lines_def split: list.splits)
qed (simp add: text_simps)

text \<open>Reading does not see empty lines at the end.\<close>

lemma first_of_append: "first_of f (xs @ ys) = (case first_of f xs of Some y \<Rightarrow> Some y | None \<Rightarrow> first_of f ys)"
  by (induction xs) (auto split: option.splits)

lemma first_of_None: "first_of f xs = None \<longleftrightarrow> (\<forall>x \<in> set xs. f x = None)"
  by (induction xs) (auto split: option.splits)

lemma first_of_cong: "(\<And>x. x \<in> set xs \<Longrightarrow> f (g x) = h x) \<Longrightarrow> first_of f (map g xs) = first_of h xs"
  by (induction xs) (auto split: option.splits)

lemma first_of_filter: "(\<And>x. x \<in> set xs \<Longrightarrow> \<not> P x \<Longrightarrow> f x = None) \<Longrightarrow> first_of f (filter P xs) = first_of f xs"
  by (induction xs) (auto split: option.splits)

lemma first_of_const:
  "(\<And>x. x \<in> set xs \<Longrightarrow> f x = None \<or> f x = Some v) \<Longrightarrow> \<exists>x \<in> set xs. f x \<noteq> None \<Longrightarrow> first_of f xs = Some v"
proof (induction xs)
  case (Cons x xs)
  then show ?case using Cons.prems(1) [of x] by (cases "f x") auto
qed simp

lemma first_of_butlast: "xs \<noteq> [] \<Longrightarrow> f (last xs) = None \<Longrightarrow> first_of f (butlast xs) = first_of f xs"
  by (induction xs) (auto split: option.splits)

lemma first_of_lines: "plain_text s \<Longrightarrow> f [] = None \<Longrightarrow> first_of f (splitlines s) = first_of f (text_lines s)"
  by (simp add: splitlines_plain first_of_butlast)

lemma text_lines_newlines: "text_lines (s @ replicate n newline) = text_lines s @ replicate n []"
proof (induction n arbitrary: s)
  case (Suc n)
  have "text_lines (s @ newline # replicate n newline) = text_lines s @ text_lines (replicate n newline)"
    by (rule text_lines_simps)
  moreover have "text_lines (replicate n newline) = [] # replicate n []"
    using Suc [of "[]"] by (simp add: text_simps)
  ultimately show ?case by simp
qed simp

lemma leading_newlines: "\<exists>n. s = replicate n newline @ dropWhile (\<lambda>c. c = newline) s"
proof (induction s)
  case (Cons c s)
  then obtain n where n: "s = replicate n newline @ dropWhile (\<lambda>c. c = newline) s" by blast
  show ?case
  proof (cases "c = newline")
    case True
    then have "c # s = replicate (Suc n) newline @ dropWhile (\<lambda>c. c = newline) (c # s)" using n by simp
    then show ?thesis by blast
  next
    case False
    then have "c # s = replicate 0 newline @ dropWhile (\<lambda>c. c = newline) (c # s)" by simp
    then show ?thesis by blast
  qed
qed simp

lemma rstrip_newlines_split: "\<exists>n. s = rstrip_newlines s @ replicate n newline"
proof -
  obtain n where "rev s = replicate n newline @ dropWhile (\<lambda>c. c = newline) (rev s)" using leading_newlines by blast
  from arg_cong [OF this, of rev] show ?thesis by (auto simp: rstrip_newlines_def)
qed

lemma first_of_rstrip:
  assumes "f [] = None"
  shows "first_of f (text_lines (rstrip_newlines s)) = first_of f (text_lines s)"
proof -
  obtain n where "s = rstrip_newlines s @ replicate n newline" using rstrip_newlines_split by blast
  then have "text_lines s = text_lines (rstrip_newlines s) @ replicate n []" by (metis text_lines_newlines)
  moreover have "first_of f (replicate n []) = None" using assms by (simp add: first_of_None)
  ultimately show ?thesis by (simp add: first_of_append split: option.split)
qed

lemma plain_rstrip: "plain_text s \<Longrightarrow> plain_text (rstrip_newlines s)"
  by (metis plain_text_parts(3) rstrip_newlines_split)

section \<open>A key of a RetroArch file\<close>

definition key_clean :: "string \<Rightarrow> bool" where
  "key_clean k = (k \<noteq> [] \<and> (\<forall>c \<in> set k. \<not> is_space c \<and> c \<noteq> CHR ''=''))"

lemma key_clean_hd: "key_clean k \<Longrightarrow> k \<noteq> [] \<and> \<not> is_space (hd k)"
  by (simp add: key_clean_def)

lemma dropWhile_split: "\<exists>u. s = u @ dropWhile P s \<and> (\<forall>c \<in> set u. P c)"
  by (metis set_takeWhileD takeWhile_dropWhile_id)

lemma dropWhile_until: "(\<And>c. c \<in> set u \<Longrightarrow> P c) \<Longrightarrow> v \<noteq> [] \<Longrightarrow> \<not> P (hd v) \<Longrightarrow> dropWhile P (u @ v) = v"
  by (cases v) (simp_all add: dropWhile_append2)

lemma after_key_form:
  assumes "key_clean k" "\<And>c. b c \<Longrightarrow> is_space c"
  shows "after_key b k l = Some r \<longleftrightarrow>
    (\<exists>s t. l = s @ k @ t @ CHR ''='' # r \<and> (\<forall>c \<in> set s. b c) \<and> (\<forall>c \<in> set t. b c))" (is "?L \<longleftrightarrow> ?R")
proof
  assume ?L
  then obtain t where t: "dropWhile b l = k @ t" "starts_with ''='' (dropWhile b t)" "r = tl (dropWhile b t)"
    by (auto simp: after_key_def Let_def starts_with_iff split: if_splits)
  obtain s where s: "l = s @ dropWhile b l" "\<forall>c \<in> set s. b c" using dropWhile_split [of l b] by blast
  obtain u where u: "t = u @ dropWhile b t" "\<forall>c \<in> set u. b c" using dropWhile_split [of t b] by blast
  have "dropWhile b t = CHR ''='' # r" using t by (auto simp: starts_with_iff)
  then have "l = s @ k @ u @ CHR ''='' # r" using s(1) u(1) t(1) by metis
  then show ?R using s(2) u(2) by blast
next
  assume ?R
  then obtain s t where l: "l = s @ k @ t @ CHR ''='' # r" "\<forall>c \<in> set s. b c" "\<forall>c \<in> set t. b c" by blast
  have k: "k \<noteq> []" "\<not> b (hd k)" using key_clean_hd [OF assms(1)] assms(2) by blast+
  have e: "\<not> b (CHR ''='')" using assms(2) [of "CHR ''=''"] by (auto simp: is_space_def)
  have "dropWhile b l = k @ t @ CHR ''='' # r" unfolding l(1) using l(2) k by (intro dropWhile_until) auto
  moreover have "dropWhile b (t @ CHR ''='' # r) = CHR ''='' # r" using l(3) e by (intro dropWhile_until) auto
  ultimately show ?L by (simp add: after_key_def Let_def)
qed

lemma after_key_blank:
  "key_clean k \<Longrightarrow> after_key is_blank k l = Some r \<longleftrightarrow>
    (\<exists>s t. l = s @ k @ t @ CHR ''='' # r \<and> (\<forall>c \<in> set s. is_blank c) \<and> (\<forall>c \<in> set t. is_blank c))"
  by (rule after_key_form [OF _ blank_space])

lemma after_key_space:
  "key_clean k \<Longrightarrow> after_key is_space k l = Some r \<longleftrightarrow>
    (\<exists>s t. l = s @ k @ t @ CHR ''='' # r \<and> (\<forall>c \<in> set s. is_space c) \<and> (\<forall>c \<in> set t. is_space c))"
  by (rule after_key_form) simp_all

lemma after_key_intro:
  "key_clean k \<Longrightarrow> \<forall>c \<in> set s. is_space c \<Longrightarrow> \<forall>c \<in> set t. is_space c \<Longrightarrow> after_key is_space k (s @ k @ t @ CHR ''='' # r) = Some r"
  by (subst after_key_space) (assumption, intro exI conjI, rule refl)

lemma after_key_plain:
  assumes "key_clean k" "plain_line l"
  shows "after_key is_space k l = after_key is_blank k l"
proof -
  have "after_key is_space k l = Some r \<longleftrightarrow> after_key is_blank k l = Some r" for r
  proof
    assume "after_key is_space k l = Some r"
    then obtain s t where l: "l = s @ k @ t @ CHR ''='' # r" "\<forall>c \<in> set s. is_space c" "\<forall>c \<in> set t. is_space c"
      unfolding after_key_space [OF assms(1)] by blast
    then have "\<forall>c \<in> set s. is_blank c" "\<forall>c \<in> set t. is_blank c" using assms(2) by (auto simp: plain_line_def)
    then show "after_key is_blank k l = Some r" unfolding after_key_blank [OF assms(1)] using l(1) by blast
  next
    assume "after_key is_blank k l = Some r"
    then obtain s t where l: "l = s @ k @ t @ CHR ''='' # r" "\<forall>c \<in> set s. is_blank c" "\<forall>c \<in> set t. is_blank c"
      unfolding after_key_blank [OF assms(1)] by blast
    then have "\<forall>c \<in> set s. is_space c" "\<forall>c \<in> set t. is_space c" using blank_space by blast+
    then show "after_key is_space k l = Some r" unfolding after_key_space [OF assms(1)] using l(1) by blast
  qed
  then show ?thesis by (metis option.exhaust)
qed

text \<open>The key of a line is determined by the line.\<close>

lemma after_key_name:
  assumes "key_clean k" "\<And>c. b c \<Longrightarrow> is_space c" "after_key b k l = Some r"
  shows "takeWhile (\<lambda>c. \<not> b c \<and> c \<noteq> CHR ''='') (dropWhile b l) = k"
proof -
  obtain s t where l: "l = s @ k @ t @ CHR ''='' # r" "\<forall>c \<in> set s. b c" "\<forall>c \<in> set t. b c"
    using assms after_key_form [of k b l r] by blast
  have k: "k \<noteq> []" "\<not> b (hd k)" using key_clean_hd [OF assms(1)] assms(2) by blast+
  have all: "\<And>c. c \<in> set k \<Longrightarrow> \<not> b c \<and> c \<noteq> CHR ''=''" using assms(1,2) unfolding key_clean_def by blast
  have "dropWhile b l = k @ t @ CHR ''='' # r" unfolding l(1) using l(2) k(1,2) by (intro dropWhile_until) auto
  moreover have "takeWhile (\<lambda>c. \<not> b c \<and> c \<noteq> CHR ''='') (t @ CHR ''='' # r) = []" using l(3) by (cases t) auto
  ultimately show ?thesis using all takeWhile_append2 [of k "\<lambda>c. \<not> b c \<and> c \<noteq> CHR ''=''"] by simp
qed

lemma key_part_iff: "key_part k l = None \<longleftrightarrow> after_key is_blank k l = None"
  by (simp add: key_part_def)

lemma key_part_form:
  assumes "key_clean k" "after_key is_blank k l = Some r"
  obtains s t where "l = s @ k @ t @ CHR ''='' # r" "\<forall>c \<in> set (s @ t). is_blank c"
    "key_part k l = Some (s @ k @ t @ CHR ''='' # takeWhile is_blank r)"
proof -
  obtain s t where l: "l = s @ k @ t @ CHR ''='' # r" "\<forall>c \<in> set s. is_blank c" "\<forall>c \<in> set t. is_blank c"
    using assms(2) unfolding after_key_blank [OF assms(1)] by blast
  have "take (length l - length r) l = s @ k @ t @ ''=''" using l(1) by simp
  then have "key_part k l = Some (s @ k @ t @ CHR ''='' # takeWhile is_blank r)" using assms(2) by (simp add: key_part_def)
  moreover have "\<forall>c \<in> set (s @ t). is_blank c" using l by auto
  ultimately show ?thesis using l(1) that by blast
qed

lemma strip_blanks_quoted: "\<forall>c \<in> set u. is_blank c \<Longrightarrow> strip (u @ in_quotes v) = in_quotes v"
proof -
  assume u: "\<forall>c \<in> set u. is_blank c"
  have q: "\<not> is_space dquote" by (simp add: is_space_def)
  have "lstrip (u @ in_quotes v) = in_quotes v"
    unfolding lstrip_def using u q by (intro dropWhile_until) (auto simp: in_quotes_def dest: blank_space)
  then show ?thesis using q by (simp add: strip_def rstrip_def in_quotes_def)
qed

lemma unquote_quoted [simp]: "unquote (in_quotes v) = v"
  by (simp add: unquote_def in_quotes_def)

text \<open>The rewritten line.\<close>

lemma config_value_upsert_line:
  assumes "key_clean k" "key_clean k2" "plain_line l"
  shows "config_value k2 (upsert_line k v l) = (if k2 = k then map_option (\<lambda>_. v) (config_value k l) else config_value k2 l)"
proof (cases "after_key is_blank k l")
  case None
  then have "key_part k l = None" "config_value k l = None" using after_key_plain [OF assms(1,3)]
    by (simp_all add: key_part_iff config_value_def)
  then show ?thesis by (simp add: upsert_line_def)
next
  case (Some r)
  then obtain s t where l: "l = s @ k @ t @ CHR ''='' # r" "\<forall>c \<in> set (s @ t). is_blank c"
    and p: "key_part k l = Some (s @ k @ t @ CHR ''='' # takeWhile is_blank r)"
    using key_part_form [OF assms(1)] by blast
  let ?r = "takeWhile is_blank r @ in_quotes v"
  have u: "upsert_line k v l = s @ k @ t @ CHR ''='' # ?r" using p by (simp add: upsert_line_def)
  have "\<forall>c \<in> set s. is_space c" "\<forall>c \<in> set t. is_space c" using l(2) by (auto dest: blank_space)
  then have new: "after_key is_space k (upsert_line k v l) = Some ?r" and old: "after_key is_space k l = Some r"
    by (simp_all only: u) (simp_all only: l(1) after_key_intro [OF assms(1)])
  have "strip ?r = in_quotes v" by (rule strip_blanks_quoted) (auto dest: set_takeWhileD)
  then have same: "config_value k (upsert_line k v l) = Some v" using new by (simp add: config_value_def)
  moreover have "k2 = k" if "after_key is_space k2 (upsert_line k v l) = Some r2" for r2
    using after_key_name [OF assms(1) _ new] after_key_name [OF assms(2) _ that] by simp
  moreover have "k2 = k" if "after_key is_space k2 l = Some r2" for r2
    using after_key_name [OF assms(1) _ old] after_key_name [OF assms(2) _ that] by simp
  ultimately show ?thesis using old
    by (cases "after_key is_space k2 l"; cases "after_key is_space k2 (upsert_line k v l)") (auto simp: config_value_def)
qed

lemma config_value_setting:
  assumes "key_clean k" "key_clean k2"
  shows "config_value k2 (setting_line k (in_quotes v)) = (if k2 = k then Some v else None)"
proof -
  have "after_key is_space k (setting_line k (in_quotes v)) = Some (CHR '' '' # in_quotes v)"
    using after_key_intro [OF assms(1), of "[]" "'' ''"] by (simp add: setting_line_def is_space_def)
  moreover have "strip (CHR '' '' # in_quotes v) = in_quotes v"
    using strip_blanks_quoted [of "'' ''" v] by (simp add: is_blank_def)
  moreover have "k2 = k" if "after_key is_space k2 (setting_line k (in_quotes v)) = Some r2" for r2
    using after_key_name [OF assms(1) _ calculation(1)] after_key_name [OF assms(2) _ that] by simp
  ultimately show ?thesis
    by (cases "after_key is_space k2 (setting_line k (in_quotes v))") (auto simp: config_value_def)
qed


section \<open>Reading a rewritten RetroArch file\<close>

lemma config_value_Nil: "key_clean k \<Longrightarrow> config_value k [] = None"
  by (auto simp: config_value_def after_key_def key_clean_def neq_Nil_conv)

lemma extract_lines: "key_clean k \<Longrightarrow> plain_text s \<Longrightarrow> extract_config_value s k = first_of (config_value k) (text_lines s)"
  by (simp add: extract_config_value_def first_of_lines config_value_Nil)

lemma plain_quoted: "plain_line v \<Longrightarrow> plain_line (in_quotes v)"
  by (simp add: in_quotes_def is_space_def)

lemma plain_setting_line: "key_clean k \<Longrightarrow> plain_line v \<Longrightarrow> plain_line (setting_line k v)"
  by (auto simp: setting_line_def key_clean_def plain_line_def is_blank_def is_space_def)

lemma plain_upsert_line:
  assumes "key_clean k" "plain_line v" "plain_line l"
  shows "plain_line (upsert_line k v l)"
proof (cases "after_key is_blank k l")
  case None then show ?thesis using assms by (simp add: upsert_line_def key_part_def)
next
  case (Some r)
  obtain s t where l: "l = s @ k @ t @ CHR ''='' # r" "\<forall>c \<in> set (s @ t). is_blank c"
    and p: "key_part k l = Some (s @ k @ t @ CHR ''='' # takeWhile is_blank r)"
    using key_part_form [OF assms(1) Some] by blast
  have "plain_line (takeWhile is_blank r)" by (auto simp: plain_line_def dest: set_takeWhileD)
  then show ?thesis using assms(3) plain_quoted [OF assms(2)] p l(1) by (simp add: upsert_line_def)
qed

lemma upsert_config_lines:
  assumes "key_clean k" "plain_line v" "plain_text s"
  shows "plain_text (upsert_config_value s k v) \<and> text_lines (upsert_config_value s k v) =
    (if \<exists>l \<in> set (text_lines s). key_part k l \<noteq> None then map (upsert_line k v) (text_lines s)
     else (if rstrip_newlines s = [] then [] else text_lines (rstrip_newlines s)) @ [setting_line k (in_quotes v), []])"
proof (cases "\<exists>l \<in> set (text_lines s). key_part k l \<noteq> None")
  case True
  have plain: "\<And>l. l \<in> set (text_lines s) \<Longrightarrow> plain_line (upsert_line k v l)"
    using plain_upsert_line [OF assms(1,2)] text_lines_plain [OF assms(3)] by blast
  then have "text_lines (join [newline] (map (upsert_line k v) (text_lines s))) = map (upsert_line k v) (text_lines s)"
    by (intro text_lines_join) (auto simp: plain_line_iff)
  then show ?thesis using True plain by (auto simp: upsert_config_value_def Let_def text_lines_def intro!: plain_join)
next
  case False
  have pl: "plain_line (setting_line k (in_quotes v))" using assms by (intro plain_setting_line plain_quoted)
  then have "text_lines (setting_line k (in_quotes v) @ [newline]) = [setting_line k (in_quotes v), []]"
    using text_lines_simps(3) [of "setting_line k (in_quotes v)" "[]"] by (simp add: text_simps plain_line_iff)
  moreover have "plain_text (rstrip_newlines s)" by (rule plain_rstrip [OF assms(3)])
  ultimately show ?thesis using False pl
    by (auto simp: upsert_config_value_def Let_def text_lines_def [symmetric] text_simps plain_line_iff)
qed

lemma plain_upsert_config: "key_clean k \<Longrightarrow> plain_line v \<Longrightarrow> plain_text s \<Longrightarrow> plain_text (upsert_config_value s k v)"
  using upsert_config_lines by blast

text \<open>The value that was written is read back, and no other value changes.\<close>

lemma extract_upsert_config:
  assumes "key_clean k" "key_clean k2" "plain_line v" "plain_text s"
  shows "extract_config_value (upsert_config_value s k v) k2 = (if k2 = k then Some v else extract_config_value s k2)"
proof -
  note lines = upsert_config_lines [OF assms(1,3,4)] and plain = text_lines_plain [OF assms(4)]
  have new: "extract_config_value (upsert_config_value s k v) k2 = first_of (config_value k2) (text_lines (upsert_config_value s k v))"
    using lines assms(2) by (simp add: extract_lines)
  have part: "key_part k l \<noteq> None \<longleftrightarrow> config_value k l \<noteq> None" if "l \<in> set (text_lines s)" for l
    using after_key_plain [OF assms(1) plain [OF that]] by (simp add: key_part_def config_value_def)
  show ?thesis
  proof (cases "\<exists>l \<in> set (text_lines s). key_part k l \<noteq> None")
    case True
    have line: "config_value k2 (upsert_line k v l) = (if k2 = k then map_option (\<lambda>_. v) (config_value k l) else config_value k2 l)"
      if "l \<in> set (text_lines s)" for l using config_value_upsert_line [OF assms(1,2) plain [OF that]] .
    have "first_of (config_value k2) (map (upsert_line k v) (text_lines s)) =
      first_of (\<lambda>l. if k2 = k then map_option (\<lambda>_. v) (config_value k l) else config_value k2 l) (text_lines s)"
      by (rule first_of_cong) (rule line)
    moreover have "first_of (\<lambda>l. map_option (\<lambda>_. v) (config_value k l)) (text_lines s) = Some v"
      using True part by (intro first_of_const) auto
    ultimately show ?thesis using new lines True assms(2,4) by (auto simp: extract_lines)
  next
    case False
    then have none: "first_of (config_value k) (text_lines s) = None" using part by (auto simp: first_of_None)
    have stripped: "first_of (config_value k2) (if rstrip_newlines s = [] then [] else text_lines (rstrip_newlines s)) =
        first_of (config_value k2) (text_lines s)"
      using first_of_rstrip [of "config_value k2" s] config_value_Nil [OF assms(2)] by (auto simp: text_simps)
    have added: "first_of (config_value k2) [setting_line k (in_quotes v), []] = (if k2 = k then Some v else None)"
      using config_value_setting [OF assms(1,2), of v] config_value_Nil [OF assms(2)] by simp
    have "text_lines (upsert_config_value s k v) =
        (if rstrip_newlines s = [] then [] else text_lines (rstrip_newlines s)) @ [setting_line k (in_quotes v), []]"
      using lines False by simp
    then have "extract_config_value (upsert_config_value s k v) k2 =
      (case first_of (config_value k2) (text_lines s) of Some y \<Rightarrow> Some y | None \<Rightarrow> if k2 = k then Some v else None)"
      unfolding new by (simp only: first_of_append stripped added)
    then show ?thesis using none assms(2,4) by (auto simp: extract_lines split: option.split)
  qed
qed

text \<open>Orphan lines hold no value.\<close>

lemma orphan_no_value: "key_clean k \<Longrightarrow> \<forall>c \<in> set k. \<not> is_junk c \<and> c \<noteq> dquote \<Longrightarrow> orphan_boolean l \<Longrightarrow> config_value k l = None"
proof (rule ccontr)
  assume k: "key_clean k" "\<forall>c \<in> set k. \<not> is_junk c \<and> c \<noteq> dquote" and o1: "orphan_boolean l" and v: "config_value k l \<noteq> None"
  then obtain r where "after_key is_space k l = Some r" by (auto simp: config_value_def)
  then obtain s t where l: "l = s @ k @ t @ CHR ''='' # r" "\<forall>c \<in> set s. is_space c"
    unfolding after_key_space [OF k(1)] by blast
  have "k \<noteq> []" using k(1) by (simp add: key_clean_def)
  then have hk: "\<not> is_junk (hd k)" "hd k \<noteq> dquote" using k(2) by auto
  have "\<forall>c \<in> set s. is_junk c" using l(2) by (auto simp: is_junk_def)
  then have "dropWhile is_junk l = k @ t @ CHR ''='' # r" unfolding l(1) using hk \<open>k \<noteq> []\<close> by (intro dropWhile_until) auto
  moreover have "\<exists>w. dropWhile is_junk l = dquote # w"
  proof -
    obtain u where "rev (dropWhile is_junk l) = u @ dropWhile is_junk (rev (dropWhile is_junk l))"
      using dropWhile_split [of "rev (dropWhile is_junk l)" is_junk] by blast
    from arg_cong [OF this, of rev] have "\<exists>u. dropWhile is_junk l = rev (dropWhile is_junk (rev (dropWhile is_junk l))) @ u"
      by auto
    then show ?thesis using o1 by (auto simp: orphan_boolean_def in_quotes_def)
  qed
  ultimately show False using hk(2) \<open>k \<noteq> []\<close> by (cases k) auto
qed


lemma set_splitlines: "plain_text s \<Longrightarrow> set (splitlines s) \<subseteq> set (text_lines s)"
  by (auto simp: splitlines_plain dest: in_set_butlastD)

lemma final_newline_lines:
  "text_lines (final_newline s r) = text_lines r @ (if ends_with [newline] s then [[]] else [])"
  using text_lines_simps(3) [of r "[]"] by (simp add: final_newline_def text_simps)

lemma plain_final_newline: "plain_text r \<Longrightarrow> plain_text (final_newline s r)"
  by (simp add: final_newline_def)

lemma join_Nil: "join [newline] ls = [] \<Longrightarrow> l \<in> set ls \<Longrightarrow> l = []"
  by (induction "[newline]" ls rule: join.induct) auto

lemma extract_remove_orphans:
  assumes "key_clean k" "\<forall>c \<in> set k. \<not> is_junk c \<and> c \<noteq> dquote" "plain_text s"
  shows "plain_text (remove_orphan_boolean_lines s) \<and>
    extract_config_value (remove_orphan_boolean_lines s) k = extract_config_value s k"
proof -
  let ?ls = "filter (\<lambda>l. \<not> orphan_boolean l) (splitlines s)"
  have plain: "\<And>l. l \<in> set ?ls \<Longrightarrow> plain_line l" using set_splitlines [OF assms(3)] text_lines_plain [OF assms(3)] by auto
  then have pj: "plain_text (join [newline] ?ls)" by (rule plain_join)
  have nil: "config_value k [] = None" by (rule config_value_Nil [OF assms(1)])
  have "first_of (config_value k) ?ls = first_of (config_value k) (splitlines s)"
    using orphan_no_value [OF assms(1,2)] by (intro first_of_filter) auto
  then have kept_same: "first_of (config_value k) ?ls = extract_config_value s k" by (simp add: extract_config_value_def)
  show ?thesis
  proof (cases "join [newline] ?ls = []")
    case True
    then have "\<forall>l \<in> set ?ls. l = []" using join_Nil by blast
    then have "first_of (config_value k) ?ls = None" unfolding first_of_None using nil by metis
    then show ?thesis using True kept_same by (simp add: remove_orphan_boolean_lines_def extract_config_value_def)
  next
    case False
    then have "?ls \<noteq> []" by auto
    then have "text_lines (join [newline] ?ls) = ?ls" using plain by (intro text_lines_join) (auto simp: plain_line_iff)
    then have "first_of (config_value k) (text_lines (final_newline s (join [newline] ?ls))) = first_of (config_value k) ?ls"
      by (simp add: final_newline_lines first_of_append nil split: option.split)
    then show ?thesis
      using False kept_same plain_final_newline [OF pj, of s] assms(1)
      by (simp add: remove_orphan_boolean_lines_def Let_def extract_lines)
  qed
qed

end
