(* ===== verification/Ini_Laws.thy ===== *)
theory Ini_Laws
  imports Config_Laws
begin

text \<open>
  Rewriting the values of one section of an ini file: what is written is read back, a removed key is gone,
  and no other key of that or any other section changes.
\<close>

section \<open>Reading a section\<close>

definition ini_line :: "string \<Rightarrow> string \<Rightarrow> string option" where
  "ini_line k l = (if ini_key l = Some k then Some (ini_value l) else None)"

lemma ini_line_at [simp]:
  "ini_key l = None \<Longrightarrow> ini_line k l = None"
  "ini_key l = Some k2 \<Longrightarrow> ini_line k l = (if k2 = k then Some (ini_value l) else None)"
  by (simp_all add: ini_line_def)

fun inside_after :: "string \<Rightarrow> bool \<Rightarrow> string list \<Rightarrow> bool" where
  "inside_after sec i [] = i"
| "inside_after sec i (l # ls) = inside_after sec (if is_header l then strip l = sec else i) ls"

lemma section_value_append:
  "section_value sec k i (xs @ ys) =
    (case section_value sec k i xs of Some v \<Rightarrow> Some v | None \<Rightarrow> section_value sec k (inside_after sec i xs) ys)"
  by (induction xs arbitrary: i) (auto split: option.split)

lemma ini_blank [simp]: "strip [] = []" "\<not> is_header []" "ini_key [] = None" "ini_line k [] = None"
  by (simp_all add: is_header_def ini_key_def ini_line_def strip_def lstrip_def rstrip_def)

lemma section_value_body: "\<forall>l \<in> set ls. \<not> is_header l \<Longrightarrow> section_value sec k i ls = (if i then first_of (ini_line k) ls else None)"
  by (induction ls) (auto simp: ini_line_def)

lemma inside_after_body: "\<forall>l \<in> set ls. \<not> is_header l \<Longrightarrow> inside_after sec i ls = i"
  by (induction ls) auto

lemma section_value_outside: "\<forall>l \<in> set ls. strip l \<noteq> sec \<Longrightarrow> section_value sec k False ls = None \<and> \<not> inside_after sec False ls"
  by (induction ls) auto

lemma section_value_blank: "section_value sec k i (ls @ replicate n []) = section_value sec k i ls"
proof -
  have "\<forall>l \<in> set (replicate n []). \<not> is_header l" by simp
  moreover have "first_of (ini_line k) (replicate n []) = None" by (simp add: first_of_None)
  ultimately show ?thesis by (simp add: section_value_append section_value_body split: option.split)
qed

lemma extract_section_lines:
  assumes "plain_text s"
  shows "extract_achievements_value s k sec = section_value sec k False (text_lines s)"
proof (cases "last (text_lines s) = []")
  case True
  then have "text_lines s = butlast (text_lines s) @ replicate 1 []" by (metis append_butlast_last_id replicate_0 replicate_Suc One_nat_def text_lines_not_Nil)
  then have "section_value sec k False (text_lines s) = section_value sec k False (butlast (text_lines s))"
    by (metis section_value_blank)
  then show ?thesis using True by (simp add: extract_achievements_value_def splitlines_plain [OF assms])
qed (simp add: extract_achievements_value_def splitlines_plain [OF assms])

section \<open>Clean updates\<close>

definition ini_name :: "string \<Rightarrow> bool" where
  "ini_name k = (key_clean k \<and> hd k \<noteq> CHR ''['')"

definition ini_text :: "string \<Rightarrow> bool" where
  "ini_text v = (plain_line v \<and> strip v = v)"

definition ini_section :: "string \<Rightarrow> bool" where
  "ini_section sec = (plain_line sec \<and> strip sec = sec \<and> is_header sec)"

definition clean_updates :: "updates \<Rightarrow> bool" where
  "clean_updates ups = (distinct (map fst ups) \<and>
     (\<forall>(k, v) \<in> set ups. ini_name k \<and> (case v of Some x \<Rightarrow> ini_text x | None \<Rightarrow> True)))"

lemma strip_setting_line:
  assumes "key_clean k" "strip v = v"
  shows "strip (setting_line k v) = (if v = [] then k @ '' ='' else setting_line k v)"
proof -
  have k: "k \<noteq> []" "\<not> is_space (hd k)" using key_clean_hd [OF assms(1)] by auto
  have l: "lstrip (setting_line k v) = setting_line k v" using k by (cases k) (simp_all add: lstrip_def setting_line_def)
  have eq: "\<not> is_space (CHR ''='')" "is_space (CHR '' '')" by (simp_all add: is_space_def)
  show ?thesis
  proof (cases "v = []")
    case True
    then show ?thesis using l eq by (simp add: strip_def rstrip_def setting_line_def)
  next
    case False
    have "rstrip v = v"
    proof -
      have "rstrip (strip v) = strip v" by (simp add: strip_def rstrip_def dropWhile_idem)
      then show ?thesis using assms(2) by simp
    qed
    then have "dropWhile is_space (rev v) = rev v" by (metis rev_rev_ident rstrip_def)
    then have "\<not> is_space (hd (rev v))" using False by (metis hd_dropWhile rev_is_Nil_conv)
    then have "dropWhile is_space (rev v @ u) = rev v @ u" for u using False by (cases "rev v") simp_all
    then show ?thesis using l False by (simp add: strip_def rstrip_def setting_line_def)
  qed
qed

lemma strip_before:
  assumes "key_clean k"
  shows "strip (k @ '' '') = k"
proof -
  have k: "k \<noteq> []" "\<not> is_space (hd k)" using key_clean_hd [OF assms] by auto
  have "\<not> is_space (last k)" using assms k(1) by (simp add: key_clean_def)
  then have "dropWhile is_space (rev k) = rev k" using k(1) by (cases k rule: rev_cases) simp_all
  moreover have "is_space (CHR '' '')" by (simp add: is_space_def)
  ultimately show ?thesis using k by (cases k) (simp_all add: strip_def rstrip_def lstrip_def)
qed

lemma setting_line_read:
  assumes "ini_name k" "strip v = v"
  shows "ini_key (setting_line k v) = Some k" "ini_value (setting_line k v) = v" "\<not> is_header (setting_line k v)"
proof -
  have k: "key_clean k" "CHR ''='' \<notin> set (k @ '' '')" "hd k \<noteq> CHR ''[''" "k \<noteq> []"
    using assms(1) by (auto simp: ini_name_def key_clean_def)
  note strip = strip_setting_line [OF k(1) assms(2)]
  have shape: "\<exists>r. strip (setting_line k v) = (k @ '' '') @ CHR ''='' # r \<and> strip r = v"
  proof (cases "v = []")
    case True then show ?thesis using strip by simp
  next
    case False
    have "strip (CHR '' '' # v) = v" using assms(2) by (simp add: strip_def lstrip_def is_space_def)
    then show ?thesis using strip False by (simp add: setting_line_def)
  qed
  then obtain r where r: "strip (setting_line k v) = (k @ '' '') @ CHR ''='' # r" "strip r = v" by blast
  have b: "before (CHR ''='') (strip (setting_line k v)) = k @ '' ''" unfolding r(1) by (rule before_append [OF k(2)])
  have a: "after (CHR ''='') (strip (setting_line k v)) = r" unfolding r(1) by (rule after_append [OF k(2)])
  show "ini_key (setting_line k v) = Some k" using b r(1) strip_before [OF k(1)] by (simp add: ini_key_def)
  show "ini_value (setting_line k v) = v" using a r(2) by (simp add: ini_value_def)
  have "starts_with ''['' (strip (setting_line k v)) \<longleftrightarrow> hd k = CHR ''[''" unfolding r(1) using k(4) by (cases k) auto
  then show "\<not> is_header (setting_line k v)" using k(3) by (simp add: is_header_def)
qed

lemma clean_updates_Cons:
  "clean_updates ((k, v) # ups) \<longleftrightarrow> ini_name k \<and> k \<notin> fst ` set ups \<and> (case v of Some x \<Rightarrow> ini_text x | None \<Rightarrow> True) \<and> clean_updates ups"
  by (auto simp: clean_updates_def)

lemma setting_lines_simps [simp]:
  "setting_lines [] = []"
  "setting_lines ((k, v) # ups) = (case v of Some x \<Rightarrow> [setting_line k x] | None \<Rightarrow> []) @ setting_lines ups"
  by (simp_all add: setting_lines_def List.map_filter_simps split: option.split)

lemma clean_line: "ini_name k \<Longrightarrow> ini_text v \<Longrightarrow> \<not> is_header (setting_line k v) \<and> plain_line (setting_line k v)"
  using setting_line_read(3) plain_setting_line by (simp add: ini_text_def ini_name_def)

lemma clean_read: "ini_name k \<Longrightarrow> ini_text v \<Longrightarrow> ini_line k2 (setting_line k v) = (if k2 = k then Some v else None)"
  using setting_line_read(1,2) by (simp add: ini_text_def ini_line_def)

lemma setting_lines_plain: "clean_updates ups \<Longrightarrow> \<forall>l \<in> set (setting_lines ups). \<not> is_header l \<and> plain_line l"
  by (induction ups) (auto simp: clean_updates_Cons clean_line split: option.splits)

lemma setting_lines_read: "clean_updates ups \<Longrightarrow> first_of (ini_line k) (setting_lines ups) = Option.bind (map_of ups k) id"
proof (induction ups)
  case (Cons a ups)
  obtain k1 v1 where a: "a = (k1, v1)" by (cases a)
  then have "k1 \<notin> fst ` set ups" using Cons.prems by (simp add: clean_updates_Cons)
  then have "map_of ups k1 = None" by (simp add: map_of_eq_None_iff)
  then show ?case using Cons a by (cases v1) (auto simp: clean_updates_Cons clean_read)
qed simp

section \<open>The rewritten body\<close>

definition key_count :: "string \<Rightarrow> string list \<Rightarrow> nat" where
  "key_count k ls = length (filter (\<lambda>l. ini_key l = Some k) ls)"

lemma key_count_simps [simp]:
  "key_count k [] = 0" "key_count k (l # ls) = (if ini_key l = Some k then 1 else 0) + key_count k ls"
  "key_count k (xs @ ys) = key_count k xs + key_count k ys"
  by (simp_all add: key_count_def)

lemma key_count_zero: "key_count k ls = 0 \<longleftrightarrow> first_of (ini_line k) ls = None"
  by (induction ls) (auto simp: ini_line_def)

lemma clean_delete: "clean_updates ups \<Longrightarrow> clean_updates (AList.delete k ups)"
  by (induction ups) (auto simp: clean_updates_Cons AList.delete_eq clean_updates_def)

lemma clean_lookup: "clean_updates ups \<Longrightarrow> map_of ups k = Some v \<Longrightarrow> ini_name k \<and> (case v of Some x \<Rightarrow> ini_text x | None \<Rightarrow> True)"
  by (induction ups) (auto simp: clean_updates_Cons split: if_splits)

lemma map_of_delete: "map_of (AList.delete k ups) k2 = (if k2 = k then None else map_of ups k2)"
  by (simp add: AList.delete_conv')

lemma setting_count: "clean_updates ups \<Longrightarrow> key_count k (setting_lines ups) = (case map_of ups k of Some (Some v) \<Rightarrow> 1 | _ \<Rightarrow> 0)"
proof (induction ups)
  case (Cons a ups)
  obtain k1 v1 where a: "a = (k1, v1)" by (cases a)
  then have "k1 \<notin> fst ` set ups" using Cons.prems by (simp add: clean_updates_Cons)
  then have "map_of ups k1 = None" by (simp add: map_of_eq_None_iff)
  then show ?case using Cons a setting_line_read(1) by (cases v1) (auto simp: clean_updates_Cons ini_text_def)
qed simp

lemma update_body_plain:
  "clean_updates ups \<Longrightarrow> \<forall>l \<in> set body. \<not> is_header l \<and> plain_line l \<Longrightarrow>
   \<forall>l \<in> set (update_body ups body). \<not> is_header l \<and> plain_line l"
proof (induction ups body rule: update_body.induct)
  case (2 ups l ls)
  show ?case
  proof (cases "Option.bind (ini_key l) (map_of ups)")
    case None then show ?thesis using 2 by (auto split: option.splits bind_splits)
  next
    case (Some v)
    then obtain k where k: "ini_key l = Some k" "map_of ups k = Some v" by (auto split: bind_splits)
    then show ?thesis using 2(3) [OF k] clean_delete [OF 2(4)] 2(5) clean_lookup [OF 2(4) k(2)] clean_line
      by (auto split: option.splits)
  qed
qed (simp add: setting_lines_plain)

lemma update_body_read:
  assumes "clean_updates ups" "map_of ups k = Some None \<Longrightarrow> key_count k body \<le> 1"
  shows "first_of (ini_line k) (update_body ups body) =
    (case map_of ups k of None \<Rightarrow> first_of (ini_line k) body | Some v \<Rightarrow> v)"
  using assms
proof (induction ups body rule: update_body.induct)
  case (1 ups) then show ?case by (auto simp: setting_lines_read split: option.split)
next
  case (2 ups l ls)
  show ?case
  proof (cases "Option.bind (ini_key l) (map_of ups)")
    case None
    then show ?thesis using 2 by (auto split: option.splits bind_splits if_splits)
  next
    case (Some v)
    then obtain k1 where k1: "ini_key l = Some k1" "map_of ups k1 = Some v" by (auto split: bind_splits)
    have IH: "first_of (ini_line k) (update_body (AList.delete k1 ups) ls) =
        (case map_of (AList.delete k1 ups) k of None \<Rightarrow> first_of (ini_line k) ls | Some v \<Rightarrow> v)"
    proof (rule 2(3) [OF k1 clean_delete [OF 2(4)]])
      assume "map_of (AList.delete k1 ups) k = Some None"
      then have "map_of ups k = Some None" by (simp add: map_of_delete split: if_splits)
      then show "key_count k ls \<le> 1" using 2(5) by simp
    qed
    show ?thesis
    proof (cases "k = k1")
      case True
      then show ?thesis using k1 IH 2(5) clean_lookup [OF 2(4) k1(2)] key_count_zero [of k ls]
        by (cases v) (auto simp: clean_read map_of_delete)
    next
      case False
      then show ?thesis using k1 IH clean_lookup [OF 2(4) k1(2)]
        by (cases v) (auto simp: clean_read map_of_delete split: option.split)
    qed
  qed
qed

lemma update_body_count:
  assumes "clean_updates ups"
  shows "key_count k (update_body ups body) =
    (case map_of ups k of None \<Rightarrow> key_count k body | Some None \<Rightarrow> key_count k body - 1 | Some (Some v) \<Rightarrow> max 1 (key_count k body))"
  using assms
proof (induction ups body rule: update_body.induct)
  case (1 ups) then show ?case by (auto simp: setting_count split: option.split)
next
  case (2 ups l ls)
  show ?case
  proof (cases "Option.bind (ini_key l) (map_of ups)")
    case None
    then show ?thesis using 2 by (auto split: option.splits bind_splits)
  next
    case (Some v)
    then obtain k1 where k1: "ini_key l = Some k1" "map_of ups k1 = Some v" by (auto split: bind_splits)
    have new: "ini_key (setting_line k1 x) = Some k1" if "v = Some x" for x
      using clean_lookup [OF 2(4) k1(2)] setting_line_read(1) that by (simp add: ini_text_def)
    show ?thesis using 2(3) [OF k1 clean_delete [OF 2(4)]] k1 new
      by (cases v) (auto simp: map_of_delete split: option.split)
  qed
qed


section \<open>The rewritten text\<close>

text \<open>The lines before a section, its header and body, and the lines after it.\<close>

definition section_parts :: "string \<Rightarrow> string list \<Rightarrow> (string list \<times> string \<times> string list \<times> string list) option" where
  "section_parts sec ls = (case dropWhile (\<lambda>l. strip l \<noteq> sec) ls of
       [] \<Rightarrow> None
     | h # rest \<Rightarrow> Some (takeWhile (\<lambda>l. strip l \<noteq> sec) ls, h, takeWhile (\<lambda>l. \<not> is_header l) rest,
         dropWhile (\<lambda>l. \<not> is_header l) rest))"

text \<open>One section of that name at most, and one line at most of each key.\<close>

definition ini_ok :: "string \<Rightarrow> string list \<Rightarrow> string \<Rightarrow> bool" where
  "ini_ok sec ks s = (plain_text s \<and> (case section_parts sec (text_lines s) of
       None \<Rightarrow> True
     | Some (pre, h, body, post) \<Rightarrow> (\<forall>l \<in> set post. strip l \<noteq> sec) \<and> (\<forall>k \<in> set ks. key_count k body \<le> 1)))"

lemma section_parts_elim:
  assumes "section_parts sec ls = Some (pre, h, body, post)"
  obtains rest where "dropWhile (\<lambda>l. strip l \<noteq> sec) ls = h # rest" "pre = takeWhile (\<lambda>l. strip l \<noteq> sec) ls"
    "body = takeWhile (\<lambda>l. \<not> is_header l) rest" "post = dropWhile (\<lambda>l. \<not> is_header l) rest"
  using assms that by (auto simp: section_parts_def split: list.splits)

lemma section_parts_Some:
  assumes "section_parts sec ls = Some (pre, h, body, post)"
  shows "ls = pre @ h # body @ post" "\<forall>l \<in> set pre. strip l \<noteq> sec" "strip h = sec" "\<forall>l \<in> set body. \<not> is_header l"
    "post = [] \<or> is_header (hd post)"
proof -
  obtain rest where r: "dropWhile (\<lambda>l. strip l \<noteq> sec) ls = h # rest" "pre = takeWhile (\<lambda>l. strip l \<noteq> sec) ls"
    "body = takeWhile (\<lambda>l. \<not> is_header l) rest" "post = dropWhile (\<lambda>l. \<not> is_header l) rest"
    using section_parts_elim [OF assms] .
  show "ls = pre @ h # body @ post" using r by (metis takeWhile_dropWhile_id)
  show "\<forall>l \<in> set pre. strip l \<noteq> sec" "\<forall>l \<in> set body. \<not> is_header l" using r by (auto dest: set_takeWhileD)
  show "strip h = sec" using r(1) by (metis (mono_tags, lifting) hd_dropWhile list.distinct(1) list.sel(1))
  show "post = [] \<or> is_header (hd post)" using r(4) hd_dropWhile [of "\<lambda>l. \<not> is_header l" rest] by auto
qed

lemma section_parts_intro:
  assumes "\<forall>l \<in> set pre. strip l \<noteq> sec" "strip h = sec" "\<forall>l \<in> set body. \<not> is_header l" "post = [] \<or> is_header (hd post)"
  shows "section_parts sec (pre @ h # body @ post) = Some (pre, h, body, post)"
  using assms by (cases post) (simp_all add: section_parts_def takeWhile_append2 dropWhile_append2)

lemma section_parts_None: "section_parts sec ls = None \<longleftrightarrow> (\<forall>l \<in> set ls. strip l \<noteq> sec)"
proof -
  have "section_parts sec ls = None \<longleftrightarrow> dropWhile (\<lambda>l. strip l \<noteq> sec) ls = []"
    by (simp only: section_parts_def split: list.split) simp
  then show ?thesis by simp
qed

lemma is_header_strip: "is_header l \<longleftrightarrow> is_header (strip l)"
  by (simp add: is_header_def)

lemma plain_rstrip_lines: "l \<in> set (text_lines (rstrip_newlines s)) \<Longrightarrow> l \<in> set (text_lines s)"
proof -
  obtain n where "s = rstrip_newlines s @ replicate n newline" using rstrip_newlines_split by blast
  then have "text_lines s = text_lines (rstrip_newlines s) @ replicate n []" by (metis text_lines_newlines)
  then show "l \<in> set (text_lines (rstrip_newlines s)) \<Longrightarrow> l \<in> set (text_lines s)" by simp
qed

text \<open>The lines of the result.\<close>

lemma updated_lines:
  assumes "ini_section sec" "clean_updates ups" "plain_text s"
  shows "plain_text (update_achievements_section s ups sec) \<and> text_lines (update_achievements_section s ups sec) =
    (case section_parts sec (text_lines s) of
       None \<Rightarrow> if setting_lines ups = [] then text_lines s
         else text_lines (rstrip_newlines s) @ sec # setting_lines ups @ [[]]
     | Some (pre, h, body, post) \<Rightarrow> pre @ h # update_body ups body @ post)"
proof (cases "section_parts sec (text_lines s)")
  case (Some q)
  obtain pre h body post where q: "q = (pre, h, body, post)" by (cases q)
  note parts = section_parts_Some [OF Some [unfolded q]]
  have old: "\<And>l. l \<in> set (pre @ h # body @ post) \<Longrightarrow> plain_line l" using text_lines_plain [OF assms(3)] parts(1) by simp
  have new: "\<And>l. l \<in> set (pre @ h # update_body ups body @ post) \<Longrightarrow> plain_line l"
    using old update_body_plain [OF assms(2), of body] parts(4) by auto
  have u: "update_achievements_section s ups sec = join [newline] (pre @ h # update_body ups body @ post)"
  proof -
    obtain rest where "dropWhile (\<lambda>l. strip l \<noteq> sec) (split_on newline s) = h # rest" "pre = takeWhile (\<lambda>l. strip l \<noteq> sec) (split_on newline s)"
      "body = takeWhile (\<lambda>l. \<not> is_header l) rest" "post = dropWhile (\<lambda>l. \<not> is_header l) rest"
      using section_parts_elim [OF Some [unfolded q text_lines_def]] .
    then show ?thesis by (simp only: update_achievements_section_def Let_def list.case)
  qed
  have "text_lines (join [newline] (pre @ h # update_body ups body @ post)) = pre @ h # update_body ups body @ post"
    using new by (intro text_lines_join) (auto simp: plain_line_iff)
  moreover have "plain_text (join [newline] (pre @ h # update_body ups body @ post))" using new by (rule plain_join)
  ultimately show ?thesis using Some q u by simp
next
  case None
  then have drop: "dropWhile (\<lambda>l. strip l \<noteq> sec) (split_on newline s) = []"
    by (simp add: section_parts_None text_lines_def)
  show ?thesis
  proof (cases "setting_lines ups = []")
    case True
    then have "update_achievements_section s ups sec = s"
      unfolding update_achievements_section_def Let_def drop list.case by simp
    then show ?thesis using None True assms(3) by simp
  next
    case False
    have pl: "\<And>l. l \<in> set (setting_lines ups) \<Longrightarrow> plain_line l" using setting_lines_plain [OF assms(2)] by blast
    let ?j = "join [newline] (setting_lines ups)"
    have j: "text_lines ?j = setting_lines ups" using False pl by (intro text_lines_join) (auto simp: plain_line_iff)
    have sec: "newline \<notin> set sec" "plain_text sec" using assms(1) by (auto simp: ini_section_def plain_line_iff)
    have u: "update_achievements_section s ups sec = rstrip_newlines s @ newline # sec @ newline # ?j @ newline # []"
      unfolding update_achievements_section_def Let_def drop list.case using False by simp
    have "text_lines (rstrip_newlines s @ newline # sec @ newline # ?j @ newline # []) =
        text_lines (rstrip_newlines s) @ sec # setting_lines ups @ [[]]"
      using sec(1) j by (simp add: text_simps)
    moreover have "plain_text ?j" using pl by (rule plain_join)
    ultimately show ?thesis using None False u sec(2) plain_rstrip [OF assms(3)] by simp
  qed
qed

lemma updated_parts:
  assumes "ini_section sec" "clean_updates ups" "plain_text s"
  shows "section_parts sec (text_lines (update_achievements_section s ups sec)) =
    (case section_parts sec (text_lines s) of
       None \<Rightarrow> if setting_lines ups = [] then None
         else Some (text_lines (rstrip_newlines s), sec, setting_lines ups @ [[]], [])
     | Some (pre, h, body, post) \<Rightarrow> Some (pre, h, update_body ups body, post))"
proof (cases "section_parts sec (text_lines s)")
  case (Some q)
  obtain pre h body post where q: "q = (pre, h, body, post)" by (cases q)
  note parts = section_parts_Some [OF Some [unfolded q]]
  have plain: "\<forall>l \<in> set body. plain_line l" using text_lines_plain [OF assms(3)] parts(1) by auto
  have "\<forall>l \<in> set (update_body ups body). \<not> is_header l" using update_body_plain [OF assms(2), of body] parts(4) plain by blast
  then show ?thesis using section_parts_intro [OF parts(2,3) _ parts(5)] updated_lines [OF assms] Some q by simp
next
  case None
  have "\<forall>l \<in> set (text_lines (rstrip_newlines s)). strip l \<noteq> sec"
    using None plain_rstrip_lines by (auto simp: section_parts_None)
  moreover have "\<forall>l \<in> set (setting_lines ups @ [[]]). \<not> is_header l" using setting_lines_plain [OF assms(2)] by auto
  ultimately have "section_parts sec (text_lines (rstrip_newlines s) @ sec # (setting_lines ups @ [[]]) @ []) =
      Some (text_lines (rstrip_newlines s), sec, setting_lines ups @ [[]], [])"
    using assms(1) by (intro section_parts_intro) (simp_all add: ini_section_def)
  then show ?thesis using updated_lines [OF assms] None by simp
qed

lemma updated_ok:
  assumes "ini_section sec" "clean_updates ups" "ini_ok sec ks s"
  shows "ini_ok sec ks (update_achievements_section s ups sec)"
proof -
  have p: "plain_text s" using assms(3) by (simp add: ini_ok_def)
  have count: "key_count k body \<le> 1 \<Longrightarrow> key_count k (update_body ups body) \<le> 1" for k body
    by (auto simp: update_body_count [OF assms(2)] split: option.split)
  have "key_count k (setting_lines ups) \<le> 1" for k by (auto simp: setting_count [OF assms(2)] split: option.split)
  then show ?thesis using assms(3) updated_lines [OF assms(1,2) p] updated_parts [OF assms(1,2) p] count
    by (auto simp: ini_ok_def split: option.splits if_splits)
qed


text \<open>Reading the parts.\<close>

lemma read_parts:
  assumes "section_parts sec ls = Some (pre, h, body, post)" "is_header sec" "\<forall>l \<in> set post. strip l \<noteq> sec"
  shows "section_value sec k False ls = first_of (ini_line k) body"
proof -
  note parts = section_parts_Some [OF assms(1)]
  have h: "is_header h" "strip h = sec" using assms(2) parts(3) is_header_strip [of h] by auto
  have post: "section_value sec k True post = None"
  proof (cases post)
    case (Cons p ps)
    then have "is_header p" "strip p \<noteq> sec" "\<forall>l \<in> set ps. strip l \<noteq> sec" using parts(5) assms(3) by auto
    then show ?thesis using Cons section_value_outside [of ps sec k] by simp
  qed simp
  have "section_value sec k False ls = section_value sec k True (body @ post)"
    unfolding parts(1) using section_value_outside [OF parts(2)] h by (simp add: section_value_append)
  then show ?thesis using post parts(4)
    by (simp add: section_value_append section_value_body inside_after_body split: option.split)
qed

lemma read_other_section:
  assumes "section_parts sec ls = Some (pre, h, body, post)" "is_header sec" "sec2 \<noteq> sec"
  shows "section_value sec2 k False ls =
    (case section_value sec2 k False pre of Some v \<Rightarrow> Some v | None \<Rightarrow> section_value sec2 k False post)"
proof -
  note parts = section_parts_Some [OF assms(1)]
  have h: "is_header h" "strip h \<noteq> sec2" using assms(2,3) parts(3) is_header_strip [of h] by auto
  have i: "section_value sec2 k i (h # body @ post) = section_value sec2 k False post" for i
    using h parts(4) by (simp add: section_value_append section_value_body inside_after_body)
  show ?thesis unfolding parts(1) by (simp only: section_value_append [of _ _ _ pre] i)
qed

lemma read_rstrip: "section_value sec k False (text_lines (rstrip_newlines s)) = section_value sec k False (text_lines s)"
proof -
  obtain n where "s = rstrip_newlines s @ replicate n newline" using rstrip_newlines_split by blast
  then have "text_lines s = text_lines (rstrip_newlines s) @ replicate n []" by (metis text_lines_newlines)
  then show ?thesis by (simp add: section_value_blank)
qed

theorem section_update_read:
  assumes "ini_section sec" "clean_updates ups" "ini_ok sec (map fst ups) s"
  shows "extract_achievements_value (update_achievements_section s ups sec) k sec =
      (case map_of ups k of None \<Rightarrow> extract_achievements_value s k sec | Some v \<Rightarrow> v) \<and>
    (sec2 \<noteq> sec \<longrightarrow> extract_achievements_value (update_achievements_section s ups sec) k sec2 = extract_achievements_value s k sec2)"
proof -
  let ?u = "update_achievements_section s ups sec"
  have p: "plain_text s" and hdr: "is_header sec" using assms by (simp_all add: ini_ok_def ini_section_def)
  note new = updated_lines [OF assms(1,2) p] and newp = updated_parts [OF assms(1,2) p]
  have e: "extract_achievements_value s k x = section_value x k False (text_lines s)"
    "extract_achievements_value ?u k x = section_value x k False (text_lines ?u)" for k x
    using new p by (simp_all add: extract_section_lines)
  show ?thesis
  proof (cases "section_parts sec (text_lines s)")
    case (Some q)
    obtain pre h body post where q: "q = (pre, h, body, post)" by (cases q)
    have post: "\<forall>l \<in> set post. strip l \<noteq> sec" and count: "\<forall>k \<in> fst ` set ups. key_count k body \<le> 1"
      using assms(3) Some q by (simp_all add: ini_ok_def)
    have s: "section_parts sec (text_lines s) = Some (pre, h, body, post)" using Some q by simp
    have u: "section_parts sec (text_lines ?u) = Some (pre, h, update_body ups body, post)" using newp s by simp
    have "map_of ups k = Some None \<Longrightarrow> key_count k body \<le> 1" using count by (force dest: map_of_SomeD)
    then have "section_value sec k False (text_lines ?u) =
        (case map_of ups k of None \<Rightarrow> section_value sec k False (text_lines s) | Some v \<Rightarrow> v)"
      using update_body_read [OF assms(2), of k body] by (simp add: read_parts [OF u hdr post] read_parts [OF s hdr post] split: option.split)
    then show ?thesis by (simp add: e read_other_section [OF u hdr] read_other_section [OF s hdr] split: option.split)
  next
    case None
    then have none: "section_value sec k False (text_lines s) = None"
      using section_value_outside [of "text_lines s" sec k] by (simp add: section_parts_None)
    show ?thesis
    proof (cases "setting_lines ups = []")
      case True
      then have "text_lines ?u = text_lines s" using new None by simp
      from arg_cong [OF this, of "join [newline]"] have "update_achievements_section s ups sec = s" by simp
      moreover have "map_of ups k \<noteq> None \<Longrightarrow> map_of ups k = Some None"
        using setting_lines_read [OF assms(2), of k] True by (cases "map_of ups k") auto
      ultimately show ?thesis using none by (auto simp: e split: option.split)
    next
      case False
      have u: "section_parts sec (text_lines ?u) = Some (text_lines (rstrip_newlines s), sec, setting_lines ups @ [[]], [])"
        using newp None False by simp
      have "section_value sec k False (text_lines ?u) = (case map_of ups k of None \<Rightarrow> None | Some v \<Rightarrow> v)"
        using setting_lines_read [OF assms(2), of k]
        by (simp add: read_parts [OF u hdr] first_of_append split: option.split)
      then show ?thesis using none read_other_section [OF u hdr] by (auto simp: e read_rstrip split: option.split)
    qed
  qed
qed

section \<open>PPSSPP and Dolphin\<close>

definition set_all :: "(string \<times> string) list \<Rightarrow> updates" where
  "set_all ups = map (\<lambda>(k, v). (k, Some v)) ups"

lemma set_all_laws:
  "AList.delete k (set_all us) = set_all (AList.delete k us)" "map_of (set_all us) k = map_option Some (map_of us k)"
  "setting_lines (set_all us) = map (\<lambda>(k, v). setting_line k v) us"
  by (induction us) (auto simp: set_all_def AList.delete_eq)

lemma replace_body_update:
  "replace_body ups body = (b, left) \<Longrightarrow> update_body (set_all ups) body = b @ map (\<lambda>(k, v). setting_line k v) left"
proof (induction ups body arbitrary: b left rule: replace_body.induct)
  case (1 ups) then show ?case by (simp add: set_all_laws)
next
  case (2 ups l ls)
  show ?case
  proof (cases "Option.bind (ini_key l) (\<lambda>k. map_option (Pair k) (map_of ups k))")
    case None
    then have "update_body (set_all ups) (l # ls) = l # update_body (set_all ups) ls"
      by (auto simp: set_all_laws split: bind_splits option.splits)
    moreover obtain b1 where "replace_body ups ls = (b1, left)" "b = l # b1"
      using 2(3) None by (auto split: prod.splits)
    ultimately show ?thesis using 2(1) [OF None] by simp
  next
    case (Some kv)
    then obtain k v where kv: "kv = (k, v)" "ini_key l = Some k" "map_of ups k = Some v" by (auto split: bind_splits)
    then obtain b1 where "replace_body (AList.delete k ups) ls = (b1, left)" "b = setting_line k v # b1"
      using 2(3) by (auto split: prod.splits)
    then show ?thesis using 2(2) [OF Some kv(1) [symmetric]] kv by (simp add: set_all_laws)
  qed
qed

text \<open>The two implementations of the rewriting of a section agree: that of PPSSPP, which replaces lines in
  place and then inserts the keys that were not met, gives the text that Dolphin's builds line by line.\<close>

theorem ppsspp_update_agrees:
  assumes "ups \<noteq> []"
  shows "ppsspp_update_section s ups sec = update_achievements_section s (set_all ups) sec"
proof (cases "dropWhile (\<lambda>l. strip l \<noteq> sec) (split_on newline s)")
  case Nil
  then show ?thesis using assms by (simp only: ppsspp_update_section_def update_achievements_section_def Let_def list.case) (simp add: set_all_laws)
next
  case (Cons h rest)
  obtain b left where r: "replace_body ups (takeWhile (\<lambda>l. \<not> is_header l) rest) = (b, left)" by (cases "replace_body ups (takeWhile (\<lambda>l. \<not> is_header l) rest)")
  have "ppsspp_update_section s ups sec = join [newline] (takeWhile (\<lambda>l. strip l \<noteq> sec) (split_on newline s) @ h #
      b @ map (\<lambda>(k, v). setting_line k v) left @ dropWhile (\<lambda>l. \<not> is_header l) rest)"
    unfolding ppsspp_update_section_def Let_def Cons list.case r prod.case ..
  moreover have "update_achievements_section s (set_all ups) sec = join [newline] (takeWhile (\<lambda>l. strip l \<noteq> sec) (split_on newline s) @ h #
      (b @ map (\<lambda>(k, v). setting_line k v) left) @ dropWhile (\<lambda>l. \<not> is_header l) rest)"
    unfolding update_achievements_section_def Let_def Cons list.case replace_body_update [OF r] ..
  ultimately show ?thesis by simp
qed


theorem ppsspp_update_agrees_witness:
  "ppsspp_update_section [] [(''a'', ''b'')] ''[S]'' = update_achievements_section [] (set_all [(''a'', ''b'')]) ''[S]''"
  by (rule ppsspp_update_agrees) simp

end
