(* ===== verification/Retroarch_Laws.thy ===== *)
theory Retroarch_Laws
  imports Retroarch_Cfg Config_Laws
begin

text \<open>
  Patching RetroArch's files is effective, can be repeated without losing the values saved first, and is
  undone by the revert.
\<close>

section \<open>Texts that a value is settled in\<close>

definition settled :: "string \<Rightarrow> string \<Rightarrow> string \<Rightarrow> bool" where
  "settled k v s = ((\<exists>l \<in> set (text_lines s). key_part k l \<noteq> None) \<and> (\<forall>l \<in> set (text_lines s). upsert_line k v l = l))"

definition no_orphans :: "string \<Rightarrow> bool" where
  "no_orphans s = (\<forall>l \<in> set (text_lines s). \<not> orphan_boolean l)"

lemma settled_fix: "settled k v s \<Longrightarrow> upsert_config_value s k v = s"
proof -
  assume s: "settled k v s"
  then have "map (upsert_line k v) (text_lines s) = text_lines s" by (intro map_idI) (simp add: settled_def)
  then have "join [newline] (map (upsert_line k v) (text_lines s)) = s" by simp
  then show ?thesis using s by (simp add: upsert_config_value_def settled_def text_lines_def)
qed

lemma upsert_line_form:
  assumes "key_clean k" "key_part k l = Some p"
  shows "key_part k (p @ in_quotes v) = Some p"
proof -
  obtain r where r: "after_key is_blank k l = Some r" using assms(2) by (auto simp: key_part_def)
  obtain s t where l: "\<forall>c \<in> set (s @ t). is_blank c" "p = s @ k @ t @ CHR ''='' # takeWhile is_blank r"
    using key_part_form [OF assms(1) r] assms(2) by (metis option.inject)
  have "after_key is_blank k (p @ in_quotes v) = Some (takeWhile is_blank r @ in_quotes v)"
    unfolding after_key_blank [OF assms(1)] using l by (intro exI [of _ s] exI [of _ t]) auto
  moreover have "takeWhile is_blank (takeWhile is_blank r @ in_quotes v) = takeWhile is_blank r"
    by (simp add: takeWhile_append in_quotes_def is_blank_def)
  ultimately show ?thesis using l(2) by (simp add: key_part_def)
qed

lemma upsert_line_idem: "key_clean k \<Longrightarrow> upsert_line k v (upsert_line k v l) = upsert_line k v l"
  by (cases "key_part k l") (simp_all add: upsert_line_def upsert_line_form)

lemma key_part_upsert: "key_clean k \<Longrightarrow> key_part k (upsert_line k v l) = key_part k l"
  by (cases "key_part k l") (simp_all add: upsert_line_def upsert_line_form)

lemma key_part_unique:
  assumes "key_clean k" "key_clean k2" "key_part k l \<noteq> None" "key_part k2 l \<noteq> None"
  shows "k2 = k"
  using assms after_key_name [OF assms(1) blank_space] after_key_name [OF assms(2) blank_space]
  by (fastforce simp: key_part_def)

lemma key_part_upsert_other:
  assumes "key_clean k" "key_clean k2" "k2 \<noteq> k"
  shows "key_part k (upsert_line k2 v l) = key_part k l"
proof (cases "key_part k2 l")
  case (Some p)
  then have "key_part k2 (upsert_line k2 v l) \<noteq> None" by (simp add: key_part_upsert [OF assms(2)])
  then have "key_part k (upsert_line k2 v l) = None" using key_part_unique [OF assms(1,2)] assms(3) by blast
  moreover have "key_part k l = None" using Some key_part_unique [OF assms(1,2)] assms(3) by blast
  ultimately show ?thesis by simp
qed (simp add: upsert_line_def)

lemma upsert_line_other:
  assumes "key_clean k" "key_clean k2" "k2 \<noteq> k" "upsert_line k v l = l"
  shows "upsert_line k v (upsert_line k2 v2 l) = upsert_line k2 v2 l"
proof (cases "key_part k2 l")
  case None then show ?thesis using assms(4) by (simp add: upsert_line_def [of k2])
next
  case (Some p)
  then have "key_part k (upsert_line k2 v2 l) = None"
    using key_part_upsert_other [OF assms(1-3)] key_part_unique [OF assms(1,2)] assms(3) by (metis option.distinct(1))
  then show ?thesis by (simp add: upsert_line_def [of k])
qed

lemma key_part_setting: "key_clean k \<Longrightarrow> key_part k (setting_line k (in_quotes v)) = Some (k @ '' = '')"
proof -
  assume k: "key_clean k"
  have "after_key is_blank k (setting_line k (in_quotes v)) = Some (CHR '' '' # in_quotes v)"
    unfolding after_key_blank [OF k]
    by (intro exI [of _ "[]"] exI [of _ "'' ''"]) (simp add: setting_line_def is_blank_def)
  then show ?thesis by (simp add: key_part_def setting_line_def in_quotes_def is_blank_def)
qed

lemma upsert_setting: "key_clean k \<Longrightarrow> upsert_line k v (setting_line k (in_quotes v)) = setting_line k (in_quotes v)"
  by (simp add: upsert_line_def key_part_setting) (simp add: setting_line_def)

lemma key_part_Nil: "key_clean k \<Longrightarrow> key_part k [] = None"
  by (auto simp: key_part_def after_key_def key_clean_def neq_Nil_conv)

lemma rstrip_lines: "l \<in> set (text_lines (rstrip_newlines s)) \<Longrightarrow> l \<in> set (text_lines s)"
proof -
  obtain n where "s = rstrip_newlines s @ replicate n newline" using rstrip_newlines_split by blast
  then have "text_lines s = text_lines (rstrip_newlines s) @ replicate n []" by (metis text_lines_newlines)
  then show "l \<in> set (text_lines (rstrip_newlines s)) \<Longrightarrow> l \<in> set (text_lines s)" by simp
qed

lemma rstrip_has: "l \<in> set (text_lines s) \<Longrightarrow> l \<noteq> [] \<Longrightarrow> l \<in> set (text_lines (rstrip_newlines s)) \<and> rstrip_newlines s \<noteq> []"
proof -
  obtain n where "s = rstrip_newlines s @ replicate n newline" using rstrip_newlines_split by blast
  then have t: "text_lines s = text_lines (rstrip_newlines s) @ replicate n []" by (metis text_lines_newlines)
  show "l \<in> set (text_lines s) \<Longrightarrow> l \<noteq> [] \<Longrightarrow> l \<in> set (text_lines (rstrip_newlines s)) \<and> rstrip_newlines s \<noteq> []"
    unfolding t by (auto simp: text_simps)
qed

text \<open>The lines of a rewritten text.\<close>

lemma upsert_line_cases:
  assumes "key_clean k" "plain_line v" "plain_text s" "l \<in> set (text_lines (upsert_config_value s k v))"
  shows "(\<exists>l0 \<in> set (text_lines s). l = upsert_line k v l0) \<or> l = setting_line k (in_quotes v) \<or> l = []"
  using assms(4) upsert_config_lines [OF assms(1-3)] rstrip_lines [of _ s]
  by (auto simp: upsert_line_def split: if_splits)

lemma upsert_keeps_line:
  assumes "key_clean k" "plain_line v" "plain_text s" "l \<in> set (text_lines s)" "l \<noteq> []"
  shows "upsert_line k v l \<in> set (text_lines (upsert_config_value s k v))"
proof (cases "\<exists>l \<in> set (text_lines s). key_part k l \<noteq> None")
  case True then show ?thesis using upsert_config_lines [OF assms(1-3)] assms(4) by simp
next
  case False
  then have "upsert_line k v l = l" using assms(4) by (auto simp: upsert_line_def)
  then show ?thesis using upsert_config_lines [OF assms(1-3)] False rstrip_has [OF assms(4,5)] by simp
qed

lemma settled_upsert:
  assumes "key_clean k" "plain_line v" "plain_text s"
  shows "settled k v (upsert_config_value s k v)"
proof -
  have "upsert_line k v l = l" if "l \<in> set (text_lines (upsert_config_value s k v))" for l
    using upsert_line_cases [OF assms that] upsert_line_idem [OF assms(1)] upsert_setting [OF assms(1)] key_part_Nil [OF assms(1)]
    by (auto simp: upsert_line_def [of k v "[]"])
  moreover have "\<exists>l \<in> set (text_lines (upsert_config_value s k v)). key_part k l \<noteq> None"
    using upsert_config_lines [OF assms] key_part_upsert [OF assms(1)] key_part_setting [OF assms(1)] by auto
  ultimately show ?thesis by (simp add: settled_def)
qed

lemma settled_other:
  assumes "key_clean k" "key_clean k2" "k2 \<noteq> k" "plain_line v2" "plain_text s" "settled k v s"
  shows "settled k v (upsert_config_value s k2 v2)"
proof -
  obtain l0 where l0: "l0 \<in> set (text_lines s)" "key_part k l0 \<noteq> None" using assms(6) by (auto simp: settled_def)
  then have "l0 \<noteq> []" using key_part_Nil [OF assms(1)] by auto
  then have "upsert_line k2 v2 l0 \<in> set (text_lines (upsert_config_value s k2 v2))"
    using upsert_keeps_line [OF assms(2,4,5) l0(1)] by blast
  moreover have "key_part k (upsert_line k2 v2 l0) \<noteq> None" using l0(2) key_part_upsert_other [OF assms(1-3)] by simp
  moreover have "upsert_line k v l = l" if l: "l \<in> set (text_lines (upsert_config_value s k2 v2))" for l
  proof -
    consider l1 where "l1 \<in> set (text_lines s)" "l = upsert_line k2 v2 l1" | "l = setting_line k2 (in_quotes v2)" | "l = []"
      using upsert_line_cases [OF assms(2,4,5) l] by blast
    then show ?thesis
    proof cases
      case 1 then show ?thesis using assms(6) upsert_line_other [OF assms(1-3)] by (simp add: settled_def)
    next
      case 2
      then have "key_part k l = None"
        using key_part_unique [OF assms(1,2), of l] key_part_setting [OF assms(2), of v2] assms(3) by (cases "key_part k l") auto
      then show ?thesis by (simp add: upsert_line_def)
    next
      case 3 then show ?thesis using key_part_Nil [OF assms(1)] by (simp add: upsert_line_def)
    qed
  qed
  ultimately show ?thesis by (auto simp: settled_def)
qed


section \<open>Orphan lines\<close>

lemma orphan_Nil: "\<not> orphan_boolean []"
  by (simp add: orphan_boolean_def in_quotes_def)

lemma orphan_no_equals: "orphan_boolean l \<Longrightarrow> CHR ''='' \<notin> set l"
proof
  assume o1: "orphan_boolean l" and e: "CHR ''='' \<in> set l"
  have junk: "\<not> is_junk (CHR ''='')" by (simp add: is_junk_def is_space_def)
  obtain u where u: "l = u @ dropWhile is_junk l" "\<forall>c \<in> set u. is_junk c" using dropWhile_split [of l is_junk] by blast
  obtain v where v: "rev (dropWhile is_junk l) = v @ dropWhile is_junk (rev (dropWhile is_junk l))" "\<forall>c \<in> set v. is_junk c"
    using dropWhile_split [of "rev (dropWhile is_junk l)" is_junk] by blast
  have "CHR ''='' \<in> set (dropWhile is_junk l)" using u junk e by (metis Un_iff set_append)
  then have "CHR ''='' \<in> set (rev (dropWhile is_junk (rev (dropWhile is_junk l))))" using v junk by (metis Un_iff set_append set_rev)
  moreover have "q \<in> {in_quotes [], in_quotes ''true'', in_quotes ''false''} \<Longrightarrow> CHR ''='' \<notin> set q" for q
    by (auto simp: in_quotes_def)
  ultimately show False using o1 unfolding orphan_boolean_def by blast
qed

lemma upserted_no_orphan: "key_clean k \<Longrightarrow> \<not> orphan_boolean l \<Longrightarrow> \<not> orphan_boolean (upsert_line k v l)"
proof (cases "key_part k l")
  case (Some p)
  assume k: "key_clean k"
  obtain r where r: "after_key is_blank k l = Some r" using Some by (auto simp: key_part_def)
  obtain s t where "p = s @ k @ t @ CHR ''='' # takeWhile is_blank r"
    using key_part_form [OF k r] Some by (metis option.inject)
  then have "CHR ''='' \<in> set (upsert_line k v l)" using Some by (simp add: upsert_line_def)
  then show "\<not> orphan_boolean (upsert_line k v l)" using orphan_no_equals by blast
qed (simp add: upsert_line_def)

lemma no_orphans_upsert: "key_clean k \<Longrightarrow> plain_line v \<Longrightarrow> plain_text s \<Longrightarrow> no_orphans s \<Longrightarrow> no_orphans (upsert_config_value s k v)"
  using upsert_line_cases [of k v s] upserted_no_orphan orphan_Nil orphan_no_equals [of "setting_line k (in_quotes v)"]
  by (fastforce simp: no_orphans_def setting_line_def)

lemma removed_lines:
  assumes "plain_text s"
  shows "l \<in> set (text_lines (remove_orphan_boolean_lines s)) \<Longrightarrow> (l \<in> set (text_lines s) \<or> l = []) \<and> \<not> orphan_boolean l"
proof -
  let ?ls = "filter (\<lambda>l. \<not> orphan_boolean l) (splitlines s)"
  have plain: "\<And>l. l \<in> set ?ls \<Longrightarrow> plain_line l" using set_splitlines [OF assms] text_lines_plain [OF assms] by auto
  then have "?ls \<noteq> [] \<Longrightarrow> text_lines (join [newline] ?ls) = ?ls" by (intro text_lines_join) (auto simp: plain_line_iff)
  then have "set (text_lines (remove_orphan_boolean_lines s)) \<subseteq> set ?ls \<union> {[]}"
    by (cases "?ls = []") (auto simp: remove_orphan_boolean_lines_def Let_def text_simps final_newline_lines simp del: filter_empty_conv)
  then show "l \<in> set (text_lines (remove_orphan_boolean_lines s)) \<Longrightarrow> (l \<in> set (text_lines s) \<or> l = []) \<and> \<not> orphan_boolean l"
    using set_splitlines [OF assms] orphan_Nil by fastforce
qed

lemma no_orphans_removed: "plain_text s \<Longrightarrow> no_orphans (remove_orphan_boolean_lines s)"
  using removed_lines by (simp add: no_orphans_def)

text \<open>A text without orphans and with a line that is not empty stays as it is.\<close>

lemma join_last_Nil: "xs \<noteq> [] \<Longrightarrow> join [newline] (xs @ [[]]) = join [newline] xs @ [newline]"
  by (induction "[newline]" xs rule: join.induct) (auto simp: neq_Nil_conv)

lemma ends_newline_iff: "ends_with [newline] s \<longleftrightarrow> s \<noteq> [] \<and> last (text_lines s) = []"
proof
  assume "ends_with [newline] s"
  then obtain t where t: "s = t @ [newline]" by (auto simp: ends_with_iff)
  then show "s \<noteq> [] \<and> last (text_lines s) = []" using text_lines_simps(3) [of t "[]"] by (simp add: text_simps)
next
  assume s: "s \<noteq> [] \<and> last (text_lines s) = []"
  have split: "text_lines s = butlast (text_lines s) @ [[]]" using s by (metis append_butlast_last_id text_lines_not_Nil)
  then have ne: "butlast (text_lines s) \<noteq> []" using s by (metis append_Nil join.simps(2) join_lines)
  have "s = join [newline] (butlast (text_lines s)) @ [newline]" using join_last_Nil [OF ne] split by (metis join_lines)
  then show "ends_with [newline] s" by (metis ends_with_append)
qed

lemma remove_nothing:
  assumes "plain_text s" "no_orphans s" "\<exists>l \<in> set (text_lines s). l \<noteq> []"
  shows "remove_orphan_boolean_lines s = s"
proof -
  have "filter (\<lambda>l. \<not> orphan_boolean l) (splitlines s) = splitlines s"
    using assms(2) set_splitlines [OF assms(1)] by (intro filter_True) (auto simp: no_orphans_def)
  then have r: "remove_orphan_boolean_lines s = (if join [newline] (splitlines s) = [] then [] else final_newline s (join [newline] (splitlines s)))"
    by (simp add: remove_orphan_boolean_lines_def Let_def)
  have s: "s \<noteq> []" using assms(3) by (auto simp: text_simps)
  show ?thesis
  proof (cases "last (text_lines s) = []")
    case True
    have split: "text_lines s = butlast (text_lines s) @ [[]]" using True by (metis append_butlast_last_id text_lines_not_Nil)
    then have ne: "\<exists>l \<in> set (butlast (text_lines s)). l \<noteq> []" using assms(3) by (metis Un_iff empty_iff set_ConsD set_append list.set(1))
    have "join [newline] (butlast (text_lines s)) @ [newline] = s"
      using join_last_Nil [of "butlast (text_lines s)"] split ne by (metis join_lines empty_iff list.set(1))
    moreover have "join [newline] (butlast (text_lines s)) \<noteq> []" using ne join_Nil by blast
    ultimately show ?thesis using r True s by (simp add: splitlines_plain [OF assms(1)] final_newline_def ends_newline_iff)
  next
    case False
    then show ?thesis using r s by (simp add: splitlines_plain [OF assms(1)] final_newline_def ends_newline_iff)
  qed
qed


section \<open>The patched text\<close>

definition cfg_key :: "string \<Rightarrow> bool" where
  "cfg_key k = (key_clean k \<and> (\<forall>c \<in> set k. \<not> is_junk c \<and> c \<noteq> dquote))"

lemma junk_eval: "is_junk c \<longleftrightarrow> code c \<le> 32 \<or> code c = 127"
  by (auto simp: is_junk_def is_space_def)

lemma own_keys:
  "cfg_key HOST_KEY" "cfg_key ENABLE_KEY" "cfg_key HARDCORE_KEY" "cfg_key TOKEN_KEY" "cfg_key USERNAME_KEY" "cfg_key PASSWORD_KEY"
  by (simp_all add: cfg_key_def key_clean_def junk_eval is_space_def HOST_KEY_def ENABLE_KEY_def HARDCORE_KEY_def
      TOKEN_KEY_def USERNAME_KEY_def PASSWORD_KEY_def)

lemma own_keys_differ:
  "HOST_KEY \<noteq> ENABLE_KEY" "HOST_KEY \<noteq> HARDCORE_KEY" "ENABLE_KEY \<noteq> HARDCORE_KEY"
  "TOKEN_KEY \<noteq> HOST_KEY" "TOKEN_KEY \<noteq> ENABLE_KEY" "TOKEN_KEY \<noteq> HARDCORE_KEY"
  "USERNAME_KEY \<noteq> HOST_KEY" "USERNAME_KEY \<noteq> ENABLE_KEY" "USERNAME_KEY \<noteq> HARDCORE_KEY"
  "PASSWORD_KEY \<noteq> HOST_KEY" "PASSWORD_KEY \<noteq> ENABLE_KEY" "PASSWORD_KEY \<noteq> HARDCORE_KEY"
  by (simp_all add: HOST_KEY_def ENABLE_KEY_def HARDCORE_KEY_def TOKEN_KEY_def USERNAME_KEY_def PASSWORD_KEY_def)

lemma own_clean: "key_clean HOST_KEY" "key_clean ENABLE_KEY" "key_clean HARDCORE_KEY"
  using own_keys by (simp_all add: cfg_key_def)

lemma plain_words: "\<not> is_space (CHR ''t'')" "\<not> is_space (CHR ''r'')" "\<not> is_space (CHR ''u'')" "\<not> is_space (CHR ''e'')"
    "\<not> is_space (CHR ''f'')" "\<not> is_space (CHR ''a'')" "\<not> is_space (CHR ''l'')" "\<not> is_space (CHR ''s'')"
  by (simp_all add: is_space_def)

lemma plain_removed: "plain_text s \<Longrightarrow> plain_text (remove_orphan_boolean_lines s)"
  using extract_remove_orphans [of HOST_KEY s] own_keys(1) by (simp add: cfg_key_def)

lemma plain_patched: "plain_line proxy \<Longrightarrow> plain_text s \<Longrightarrow> plain_text (build_patched_content s proxy)"
  by (simp add: build_patched_content_def plain_upsert_config own_clean plain_words plain_removed)

lemma extract_patched:
  assumes "cfg_key k" "plain_line proxy" "plain_text s"
  shows "extract_config_value (build_patched_content s proxy) k =
    (if k = HARDCORE_KEY then Some ''false'' else if k = ENABLE_KEY then Some ''true'' else if k = HOST_KEY then Some proxy
     else extract_config_value s k)"
  using assms extract_remove_orphans [of k s]
  by (simp add: build_patched_content_def extract_upsert_config plain_upsert_config own_clean plain_words plain_removed cfg_key_def)

lemma plain_reverted:
  "plain_line (or_str host []) \<Longrightarrow> plain_line (or_str enable []) \<Longrightarrow> plain_text s \<Longrightarrow> plain_text (build_reverted_content s host enable hardcore)"
  by (simp add: build_reverted_content_def Let_def plain_upsert_config own_clean plain_words plain_removed)

lemma extract_reverted:
  assumes "cfg_key k" "plain_line (or_str host [])" "plain_line (or_str enable [])" "plain_text s"
  shows "extract_config_value (build_reverted_content s host enable hardcore) k =
    (if k = HARDCORE_KEY then (if hardcore then Some ''true'' else extract_config_value s k)
     else if k = ENABLE_KEY then Some (or_str enable []) else if k = HOST_KEY then Some (or_str host [])
     else extract_config_value s k)"
  using assms extract_remove_orphans [of k s] own_keys_differ
  by (auto simp: build_reverted_content_def Let_def extract_upsert_config plain_upsert_config own_clean plain_words plain_removed cfg_key_def)

text \<open>Patching a patched text changes nothing.\<close>

lemma patched_settled:
  assumes "plain_line proxy" "plain_text s"
  shows "settled HOST_KEY proxy (build_patched_content s proxy)" "settled ENABLE_KEY ''true'' (build_patched_content s proxy)"
    "settled HARDCORE_KEY ''false'' (build_patched_content s proxy)" "no_orphans (build_patched_content s proxy)"
  using assms own_keys_differ own_keys_differ [symmetric]
  by (simp_all add: build_patched_content_def settled_other settled_upsert no_orphans_upsert no_orphans_removed plain_upsert_config
      own_clean plain_words plain_removed)

lemma settled_not_empty: "key_clean k \<Longrightarrow> settled k v s \<Longrightarrow> \<exists>l \<in> set (text_lines s). l \<noteq> []"
  using key_part_Nil [of k] unfolding settled_def by metis

lemma build_patched_idem:
  assumes "plain_line proxy" "plain_text s"
  shows "build_patched_content (build_patched_content s proxy) proxy = build_patched_content s proxy"
proof -
  note settled = patched_settled [OF assms]
  have "remove_orphan_boolean_lines (build_patched_content s proxy) = build_patched_content s proxy"
    by (rule remove_nothing [OF plain_patched [OF assms] settled(4) settled_not_empty [OF own_clean(1) settled(1)]])
  then show ?thesis unfolding build_patched_content_def [of "build_patched_content s proxy"] using settled by (simp add: settled_fix)
qed

section \<open>Files\<close>

lemma universal_newlines_plain: "CHR 0x0D \<notin> set s \<Longrightarrow> universal_newlines s = s"
  by (induction s) auto

lemma universal_newlines_crlf: "CHR 0x0D \<notin> set s \<Longrightarrow> universal_newlines (crlf_text s) = s"
  by (induction s) (auto simp: crlf_text_def)

lemma universal_no_cr: "CHR 0x0D \<notin> set (universal_newlines s)"
  by (induction s rule: universal_newlines.induct) auto

lemma plain_no_cr: "plain_text s \<Longrightarrow> CHR 0x0D \<notin> set s"
  by (auto simp: plain_text_def is_space_def is_blank_def)

lemma write_other [simp]: "q \<noteq> p \<Longrightarrow> ew_files (write_emulator_config env p c w) q = ew_files w q"
  by (simp add: write_emulator_config_def Let_def)

lemma write_fields [simp]:
  "ew_state (write_emulator_config env p c w) = ew_state w" "ew_store (write_emulator_config env p c w) = ew_store w"
  by (simp_all add: write_emulator_config_def Let_def)

lemma read_written: "plain_text c \<Longrightarrow> read_text (write_emulator_config env p c w) p = c"
  by (simp add: read_text_def write_emulator_config_def Let_def universal_newlines_plain universal_newlines_crlf plain_no_cr)

lemma read_other: "ew_files w' q = ew_files w q \<Longrightarrow> read_text w' q = read_text w q"
  by (simp add: read_text_def)

lemma exists_other: "ew_files w' q = ew_files w q \<Longrightarrow> exists_file w' q = exists_file w q"
  by (simp add: exists_file_def)

lemma write_changed_other [simp]: "q \<noteq> p \<Longrightarrow> ew_files (write_changed env p a b w) q = ew_files w q"
  by (simp add: write_changed_def)

lemma write_changed_fields [simp]:
  "ew_state (write_changed env p a b w) = ew_state w" "ew_store (write_changed env p a b w) = ew_store w"
  by (simp_all add: write_changed_def)

lemma exists_written [simp]: "exists_file w p \<Longrightarrow> exists_file (write_changed env q a b w) p"
  by (simp add: write_changed_def exists_file_def write_emulator_config_def Let_def)

lemma read_changed: "plain_text b \<Longrightarrow> read_text w p = a \<Longrightarrow> read_text (write_changed env p a b w) p = b"
  by (simp add: write_changed_def read_written)


section \<open>Patching and reverting the file\<close>

lemma set_strip: "set (strip r) \<subseteq> set r"
  by (auto simp: strip_def rstrip_def lstrip_def dest!: set_dropWhileD)

lemma set_tl: "set (tl x) \<subseteq> set x"
  by (cases x) auto

lemma set_unquote: "set (unquote x) \<subseteq> set x"
  unfolding unquote_def using set_tl [of x] set_strip [of "tl x"] in_set_butlastD [of _ "tl x"] by (auto split: if_splits)

lemma plain_config_value: "key_clean k \<Longrightarrow> plain_line l \<Longrightarrow> config_value k l = Some v \<Longrightarrow> plain_line v"
proof -
  assume k: "key_clean k" and l: "plain_line l" and v: "config_value k l = Some v"
  then obtain r where r: "after_key is_space k l = Some r" "v = unquote (strip r)" by (auto simp: config_value_def)
  have "set r \<subseteq> set l" using r(1) unfolding after_key_space [OF k] by auto
  then have "set v \<subseteq> set l" using r(2) set_unquote [of "strip r"] set_strip [of r] by simp
  then show ?thesis using l by (auto simp: plain_line_def)
qed

lemma first_of_Some: "first_of f xs = Some y \<Longrightarrow> \<exists>x \<in> set xs. f x = Some y"
  by (induction xs) (auto split: option.splits)

lemma plain_extracted: "cfg_key k \<Longrightarrow> plain_text s \<Longrightarrow> plain_line (or_str (extract_config_value s k) [])"
  using first_of_Some [of "config_value k" "text_lines s"] plain_config_value text_lines_plain [of s]
  by (cases "extract_config_value s k") (auto simp: or_str_def extract_lines cfg_key_def)

text \<open>A file whose text is plain and that needs no login for a token; the appendconfig, if there is one,
  is plain as well.\<close>

definition patchable :: "emu_env \<Rightarrow> string \<Rightarrow> emu_world \<Rightarrow> bool" where
  "patchable env cfg w = (exists_file w cfg \<and> cfg \<noteq> [] \<and> plain_text (read_text w cfg) \<and> plain_line (ee_proxy env) \<and>
     cheevos_append_cfg_path cfg \<noteq> Some cfg \<and>
     (case append_file cfg w of Some p \<Rightarrow> plain_text (read_text w p) | None \<Rightarrow> True) \<and>
     (present (extract_config_value (read_text w cfg) TOKEN_KEY) \<or> pair_of USERNAME_KEY PASSWORD_KEY (read_text w cfg) = None))"

lemma ensure_nothing:
  assumes "patchable env cfg w"
  shows "ensure_cheevos_token env (build_patched_content (read_text w cfg) (ee_proxy env)) st =
    Inr (build_patched_content (read_text w cfg) (ee_proxy env), st)"
  using assms own_keys own_keys_differ
  by (auto simp: patchable_def ensure_cheevos_token_def pair_of_def extract_patched)

lemma append_path_other: "append_file cfg w = Some p \<Longrightarrow> cheevos_append_cfg_path cfg \<noteq> Some cfg \<Longrightarrow> p \<noteq> cfg"
  by (auto simp: append_file_def split: option.splits if_splits)

lemma patch_append_frame:
  assumes "cheevos_append_cfg_path cfg \<noteq> Some cfg"
  shows "ew_files (snd (patch_cheevos_append_cfg env cfg w)) cfg = ew_files w cfg"
    "ew_state (snd (patch_cheevos_append_cfg env cfg w)) = ew_state w"
  using append_path_other [OF _ assms, of w]
  by (auto simp: patch_cheevos_append_cfg_def Let_def split: option.split)

lemma clear_append_frame:
  assumes "cheevos_append_cfg_path cfg \<noteq> Some cfg"
  shows "ew_files (clear_cheevos_append_host env cfg w) cfg = ew_files w cfg"
    "ew_state (clear_cheevos_append_host env cfg w) = ew_state w"
  using append_path_other [OF _ assms, of w]
  by (auto simp: clear_cheevos_append_host_def Let_def split: option.split)

lemma revert_append_frame:
  "ew_state (revert_cheevos_append_cfg env e w) = ew_state w"
  "field ''cfg_path'' JNull e \<noteq> JStr cfg \<Longrightarrow> opt_text (field ''cfg_path'' JNull e) \<noteq> Some cfg \<Longrightarrow> ew_files (revert_cheevos_append_cfg env e w) cfg = ew_files w cfg"
  by (auto simp: revert_cheevos_append_cfg_def revert_file_def Let_def opt_text_def split: if_splits)

lemma patch_append_entry:
  assumes "cheevos_append_cfg_path cfg \<noteq> Some cfg"
  shows "opt_text (field ''cfg_path'' JNull (fst (patch_cheevos_append_cfg env cfg w))) \<noteq> Some cfg"
    "field ''cfg_path'' JNull (fst (patch_cheevos_append_cfg env cfg w)) \<noteq> JStr cfg"
  using append_path_other [OF _ assms, of w]
  by (auto simp: patch_cheevos_append_cfg_def Let_def field_def opt_text_def json_text_def split: option.split)


text \<open>What the first patch does.\<close>

definition patched_once :: "emu_env \<Rightarrow> string \<Rightarrow> emu_world \<Rightarrow> json \<times> emu_world" where
  "patched_once env cfg w = patch_cheevos_append_cfg env cfg
     (write_changed env cfg (read_text w cfg) (build_patched_content (read_text w cfg) (ee_proxy env)) w)"

definition first_state :: "emu_env \<Rightarrow> string \<Rightarrow> emu_world \<Rightarrow> json" where
  "first_state env cfg w =
     JObj [(''cfg_path'', JStr cfg), (''hardcore_was_enabled'', JBool (detect_hardcore_enabled (read_text w cfg))),
       (''previous_host'', opt_json (extract_config_value (read_text w cfg) HOST_KEY)),
       (''previous_enable'', opt_json (extract_config_value (read_text w cfg) ENABLE_KEY)), (''proxy_host'', JStr (ee_proxy env)),
       (''retroarch_cfg'', JStr cfg), (''cheevos_append_cfg'', fst (patched_once env cfg w))]"

lemma first_patch:
  assumes "patchable env cfg w" "ew_state w = None"
  shows "\<exists>r. patch_retroarch_cfg env cfg w = Inr (r, save_patch_state (first_state env cfg w) (snd (patched_once env cfg w))) \<and>
    rr_previous_host r = opt_json (extract_config_value (read_text w cfg) HOST_KEY) \<and>
    rr_previous_enable r = opt_json (extract_config_value (read_text w cfg) ENABLE_KEY) \<and>
    rr_hardcore r = detect_hardcore_enabled (read_text w cfg)"
proof -
  have "exists_file w cfg" "load_patch_state w = Inr None" "w\<lparr>ew_store := ew_store w\<rparr> = w"
    using assms by (simp_all add: patchable_def load_patch_state_def)
  moreover have "saved_values env cfg c already (JObj []) e =
      (opt_json (extract_config_value c HOST_KEY), opt_json (extract_config_value c ENABLE_KEY), JBool (detect_hardcore_enabled c), e)"
    for c already e by (simp add: saved_values_def field_def)
  ultimately show ?thesis using ensure_nothing [OF assms(1), of "ew_store w"]
    by (simp add: patch_retroarch_cfg_def patched_once_def first_state_def Let_def split_beta)
qed

lemma patched_text:
  assumes "patchable env cfg w"
  shows "exists_file (snd (patched_once env cfg w)) cfg"
    "read_text (snd (patched_once env cfg w)) cfg = build_patched_content (read_text w cfg) (ee_proxy env)"
proof -
  let ?w = "write_changed env cfg (read_text w cfg) (build_patched_content (read_text w cfg) (ee_proxy env)) w"
  have "ew_files (snd (patched_once env cfg w)) cfg = ew_files ?w cfg"
    unfolding patched_once_def using patch_append_frame(1) assms by (simp add: patchable_def)
  then show "exists_file (snd (patched_once env cfg w)) cfg"
    "read_text (snd (patched_once env cfg w)) cfg = build_patched_content (read_text w cfg) (ee_proxy env)"
    using exists_other [of "snd (patched_once env cfg w)" cfg ?w] read_other [of "snd (patched_once env cfg w)" cfg ?w]
      assms read_changed [OF plain_patched, of "ee_proxy env" "read_text w cfg" w cfg "read_text w cfg" env]
    by (simp_all add: patchable_def)
qed

lemma save_files [simp]: "ew_files (save_patch_state d w) = ew_files w" "ew_state (save_patch_state d w) = Some d"
  "read_text (save_patch_state d w) p = read_text w p" "exists_file (save_patch_state d w) p = exists_file w p"
  "append_file cfg (save_patch_state d w) = append_file cfg w"
  by (simp_all add: save_patch_state_def read_text_def exists_file_def append_file_def split: option.split)

lemma clear_files [simp]: "ew_files (clear_patch_state w) = ew_files w" "ew_state (clear_patch_state w) = None"
  by (simp_all add: clear_patch_state_def)

text \<open>C19: patching RetroArch's file, which no patch is on record for, points it at the proxy with achievements
  on and hardcore off, and reverting puts it back: each value reads as before the patch, an absent host or
  switch reads as empty, a host that was the proxy's own is dropped, hardcore is on again only if it was on,
  and the saved state is gone.  This holds for any other key of the file too, so nothing else is touched.
  The file has a token, or lacks the user or the password: with both and no token the patch logs in, writes
  the token it gets and empties the password, and the revert puts neither back.  The white space of the
  file and of its appendconfig, which is another file, is blanks and newlines.\<close>

theorem retroarch_patch_reverted:
  assumes "patchable env cfg w" "ew_state w = None"
  shows "\<exists>r w1 r2 w2. patch_retroarch_cfg env cfg w = Inr (r, w1) \<and> is_retroarch_patched env cfg w1 \<and>
    revert_retroarch_cfg env (Some cfg) None w1 = Inr (r2, w2) \<and> ew_state w2 = None \<and>
    (\<forall>k. cfg_key k \<longrightarrow>
      extract_config_value (read_text w1 cfg) k =
        (if k = HOST_KEY then Some (ee_proxy env) else if k = ENABLE_KEY then Some ''true''
         else if k = HARDCORE_KEY then Some ''false'' else extract_config_value (read_text w cfg) k) \<and>
      extract_config_value (read_text w2 cfg) k =
        (let before = extract_config_value (read_text w cfg) k in
         if k = HOST_KEY then Some (if before = Some (ee_proxy env) then [] else or_str before [])
         else if k = ENABLE_KEY then Some (or_str before [])
         else if k = HARDCORE_KEY then Some (if before = Some ''true'' then ''true'' else ''false'')
         else before))"
proof -
  let ?c = "read_text w cfg" and ?p = "ee_proxy env"
  let ?t = "build_patched_content ?c ?p" and ?w1 = "save_patch_state (first_state env cfg w) (snd (patched_once env cfg w))"
  let ?host = "if extract_config_value ?c HOST_KEY = Some ?p then Some [] else extract_config_value ?c HOST_KEY"
  let ?enable = "extract_config_value ?c ENABLE_KEY"
  let ?old = "build_reverted_content ?t ?host ?enable (detect_hardcore_enabled ?c)"
  have c: "plain_text ?c" "plain_line ?p" "cheevos_append_cfg_path cfg \<noteq> Some cfg" "cfg \<noteq> []" using assms(1) by (simp_all add: patchable_def)
  have t: "read_text ?w1 cfg = ?t" "exists_file ?w1 cfg" using patched_text [OF assms(1)] by simp_all
  have plain: "plain_line (or_str ?host [])" "plain_line (or_str ?enable [])"
    using plain_extracted [OF own_keys(1) c(1)] plain_extracted [OF own_keys(2) c(1)] by (simp_all add: or_str_def)
  have vals: "restored_values (Some (first_state env cfg w)) ?t = (opt_json ?host, opt_json ?enable, detect_hardcore_enabled ?c)"
    by (auto simp: restored_values_def first_state_def field_def Let_def opt_json_def split: option.split)
  have extra: "field ''cheevos_append_cfg'' JNull (first_state env cfg w) = fst (patched_once env cfg w)"
    by (simp add: first_state_def field_def)
  define w2 where "w2 = clear_patch_state (clear_cheevos_append_host env cfg (revert_cheevos_append_cfg env (fst (patched_once env cfg w))
      (write_changed env cfg ?t ?old ?w1)))"
  have state: "load_patch_state ?w1 = Inr (Some (first_state env cfg w))" by (simp add: load_patch_state_def first_state_def)
  have run: "\<exists>r2. revert_retroarch_cfg env (Some cfg) None ?w1 = Inr (r2, w2)"
    unfolding revert_retroarch_cfg_def state w2_def using t vals extra c(4)
    by (simp add: Let_def present_def)
  have "ew_files w2 cfg = ew_files (write_changed env cfg ?t ?old ?w1) cfg"
    using clear_append_frame(1) [OF c(3)] revert_append_frame(2) patch_append_entry [OF c(3)]
    by (simp add: w2_def patched_once_def)
  then have "read_text w2 cfg = read_text (write_changed env cfg ?t ?old ?w1) cfg" by (rule read_other)
  moreover have "read_text (write_changed env cfg ?t ?old ?w1) cfg = ?old"
    by (rule read_changed [OF plain_reverted [OF plain plain_patched [OF c(2,1)]] t(1)])
  ultimately have text2: "read_text w2 cfg = ?old" by (rule trans)
  obtain r where patch: "patch_retroarch_cfg env cfg w = Inr (r, ?w1)" using first_patch [OF assms] by blast
  have patched: "is_retroarch_patched env cfg ?w1"
    using t extract_patched [OF own_keys(1) c(2,1)] own_keys_differ by (simp add: is_retroarch_patched_def is_patched_content_def)
  have v1: "\<forall>k. cfg_key k \<longrightarrow> extract_config_value (read_text ?w1 cfg) k =
        (if k = HOST_KEY then Some ?p else if k = ENABLE_KEY then Some ''true''
         else if k = HARDCORE_KEY then Some ''false'' else extract_config_value ?c k)"
    unfolding t using own_keys_differ by (simp add: extract_patched [OF _ c(2,1)])
  have v2: "\<forall>k. cfg_key k \<longrightarrow> extract_config_value (read_text w2 cfg) k =
        (let before = extract_config_value ?c k in
         if k = HOST_KEY then Some (if before = Some ?p then [] else or_str before [])
         else if k = ENABLE_KEY then Some (or_str before [])
         else if k = HARDCORE_KEY then Some (if before = Some ''true'' then ''true'' else ''false'')
         else before)"
    unfolding text2 using own_keys_differ
    by (simp add: Let_def extract_reverted [OF _ plain plain_patched [OF c(2,1)]] extract_patched [OF _ c(2,1)]
        detect_hardcore_enabled_def or_str_def)
  have gone: "ew_state w2 = None" by (simp add: w2_def)
  obtain r2 where "revert_retroarch_cfg env (Some cfg) None ?w1 = Inr (r2, w2)" using run by blast
  from patch patched this gone v1 v2 show ?thesis by - (intro exI conjI allI impI, assumption+, simp_all only:)
qed


definition sample_env :: emu_env where
  "sample_env = \<lparr>ee_windows = False, ee_proxy = ''127.0.0.1:8080'', ee_conf = None, ee_ppsspp = None, ee_dolphin = None,
     ee_pcsx2 = None, ee_duckstation = None, ee_flycast = None, ee_darkos32 = None, ee_login = (\<lambda>p st. Inr (None, st))\<rparr>"

definition sample_cfg :: string where
  "sample_cfg = ''cheevos_token = abc'' @ [newline] @ ''cheevos_hardcore_mode_enable = true'' @ [newline]"

definition sample_world :: emu_world where
  "sample_world = \<lparr>ew_files = [''/r/retroarch.cfg'' \<mapsto> sample_cfg], ew_state = None, ew_store = empty_store True\<rparr>"

lemma sample_patchable: "patchable sample_env ''/r/retroarch.cfg'' sample_world"
proof -
  have "read_text sample_world ''/r/retroarch.cfg'' = sample_cfg" by code_simp
  moreover have "plain_text sample_cfg" "plain_line (ee_proxy sample_env)" by code_simp+
  moreover have "present (extract_config_value sample_cfg TOKEN_KEY)" by code_simp
  moreover have "cheevos_append_cfg_path ''/r/retroarch.cfg'' = Some ''/r/retroarch.cheevos.cfg''" by code_simp
  ultimately show ?thesis by (simp add: patchable_def exists_file_def sample_world_def append_file_def)
qed

theorem retroarch_patch_reverted_witness:
  "\<exists>r w1 r2 w2. patch_retroarch_cfg sample_env ''/r/retroarch.cfg'' sample_world = Inr (r, w1) \<and>
    is_retroarch_patched sample_env ''/r/retroarch.cfg'' w1 \<and>
    revert_retroarch_cfg sample_env (Some ''/r/retroarch.cfg'') None w1 = Inr (r2, w2) \<and>
    extract_config_value (read_text w2 ''/r/retroarch.cfg'') HARDCORE_KEY = Some ''true''"
proof -
  have "extract_config_value (read_text sample_world ''/r/retroarch.cfg'') HARDCORE_KEY = Some ''true''" by code_simp
  moreover have "ew_state sample_world = None" by (simp add: sample_world_def)
  ultimately show ?thesis
    using retroarch_patch_reverted [OF sample_patchable] own_keys(3) own_keys_differ by (fastforce simp: Let_def)
qed

section \<open>Patching again\<close>

lemma append_patched:
  assumes "append_file cfg w = Some p" "plain_text (read_text w p)" "plain_line (ee_proxy env)"
  shows "read_text (snd (patch_cheevos_append_cfg env cfg w)) p = build_patched_content (read_text w p) (ee_proxy env)"
  using assms read_changed [OF plain_patched [OF assms(3,2)] refl]
  by (simp add: patch_cheevos_append_cfg_def Let_def)

lemma append_file_same:
  "(\<And>q. exists_file w' q = exists_file w q) \<Longrightarrow> append_file cfg w' = append_file cfg w"
  by (simp add: append_file_def split: option.split)

lemma exists_write_changed: "exists_file w p \<Longrightarrow> exists_file (write_changed env p a b w) q = exists_file w q"
  using exists_other [OF write_changed_other, of q p env a b w] by (cases "q = p") simp_all

lemma exists_patched_once:
  assumes "exists_file w cfg"
  shows "exists_file (snd (patched_once env cfg w)) q = exists_file w q"
proof -
  define v where "v = write_changed env cfg (read_text w cfg) (build_patched_content (read_text w cfg) (ee_proxy env)) w"
  have v: "exists_file v q = exists_file w q" for q using exists_write_changed [OF assms] by (simp add: v_def)
  have "exists_file (snd (patch_cheevos_append_cfg env cfg v)) q = exists_file v q" for q
    using exists_write_changed [of v]
    by (auto simp: patch_cheevos_append_cfg_def append_file_def Let_def split: option.split)
  then show ?thesis using v by (simp add: patched_once_def v_def)
qed

text \<open>After a patch the appendconfig is patched as well, and a second run finds nothing to change.\<close>

lemma append_after:
  assumes "patchable env cfg w" "append_file cfg w = Some p"
  shows "read_text (snd (patched_once env cfg w)) p = build_patched_content (read_text w p) (ee_proxy env)"
    "plain_text (read_text w p)"
proof -
  define v where "v = write_changed env cfg (read_text w cfg) (build_patched_content (read_text w cfg) (ee_proxy env)) w"
  have w: "exists_file w cfg" "plain_line (ee_proxy env)" "plain_text (read_text w p)" "p \<noteq> cfg"
    using assms append_path_other [OF assms(2)] by (simp_all add: patchable_def)
  then show "plain_text (read_text w p)" by simp
  have "append_file cfg v = Some p" using append_file_same [of v w] exists_write_changed [OF w(1)] assms(2) by (simp add: v_def)
  moreover have "read_text v p = read_text w p" using w(4) by (intro read_other) (simp add: v_def)
  ultimately show "read_text (snd (patched_once env cfg w)) p = build_patched_content (read_text w p) (ee_proxy env)"
    using append_patched [of cfg v p env] w by (simp add: patched_once_def v_def)
qed

lemma patchable_again:
  assumes "patchable env cfg w"
  shows "patchable env cfg (snd (patched_once env cfg w))"
proof -
  let ?w = "snd (patched_once env cfg w)" and ?c = "read_text w cfg"
  have w: "exists_file w cfg" "plain_line (ee_proxy env)" "plain_text ?c" using assms by (simp_all add: patchable_def)
  have "append_file cfg ?w = append_file cfg w" using exists_patched_once [OF w(1)] by (intro append_file_same) simp
  then have "case append_file cfg ?w of Some p \<Rightarrow> plain_text (read_text ?w p) | None \<Rightarrow> True"
    using append_after [OF assms] plain_patched [OF w(2)] by (simp split: option.split)
  moreover have "extract_config_value (build_patched_content ?c (ee_proxy env)) k = extract_config_value ?c k"
    if "k \<in> {TOKEN_KEY, USERNAME_KEY, PASSWORD_KEY}" for k
    using that extract_patched [OF _ w(2,3)] own_keys own_keys_differ by auto
  ultimately show ?thesis
    using assms patched_text [OF assms] plain_patched [OF w(2,3)] by (simp add: patchable_def pair_of_def)
qed

lemma append_nothing:
  assumes "patchable env cfg w"
  shows "snd (patch_cheevos_append_cfg env cfg (snd (patched_once env cfg w))) = snd (patched_once env cfg w)"
proof -
  let ?w = "snd (patched_once env cfg w)"
  have "append_file cfg ?w = append_file cfg w"
    using exists_patched_once assms by (intro append_file_same) (simp add: patchable_def)
  then show ?thesis using append_after [OF assms] build_patched_idem [of "ee_proxy env"] assms
    by (cases "append_file cfg w") (simp_all add: patch_cheevos_append_cfg_def Let_def write_changed_def patchable_def)
qed

lemma entry_kept:
  assumes "patchable env cfg w"
  shows "(let x = fst (patched_once env cfg w) in
     if truthy x \<and> field ''cfg_path'' JNull x = opt_json (cheevos_append_cfg_path cfg) then x
     else fst (patch_cheevos_append_cfg env cfg (snd (patched_once env cfg w)))) = fst (patched_once env cfg w)"
proof -
  define v where "v = write_changed env cfg (read_text w cfg) (build_patched_content (read_text w cfg) (ee_proxy env)) w"
  have w: "exists_file w cfg" using assms by (simp add: patchable_def)
  have v: "append_file cfg v = append_file cfg w" unfolding v_def by (rule append_file_same) (rule exists_write_changed [OF w])
  have v2: "append_file cfg (snd (patched_once env cfg w)) = append_file cfg w"
    by (rule append_file_same) (rule exists_patched_once [OF w])
  show ?thesis
  proof (cases "append_file cfg w")
    case None
    then show ?thesis using v v2 by (simp add: patched_once_def v_def patch_cheevos_append_cfg_def)
  next
    case (Some p)
    then have "cheevos_append_cfg_path cfg = Some p" by (auto simp: append_file_def split: option.splits if_splits)
    moreover have "append_file cfg v = Some p" using v Some by simp
    ultimately show ?thesis
      by (simp add: patched_once_def v_def [symmetric] patch_cheevos_append_cfg_def [of env cfg v] Let_def field_def opt_json_def)
  qed
qed

text \<open>Patching again changes nothing: no file, and not the values that were saved before the first patch,
  so a revert after any number of patches restores what was there before the first.\<close>

theorem retroarch_repatch_keeps_saved:
  assumes "patchable env cfg w" "ew_state w = None" "extract_config_value (read_text w cfg) HOST_KEY \<noteq> Some (ee_proxy env)"
  shows "\<exists>r w1 r1. patch_retroarch_cfg env cfg w = Inr (r, w1) \<and> patch_retroarch_cfg env cfg w1 = Inr (r1, w1) \<and>
    rr_already r1 \<and> \<not> rr_changed r1 \<and> rr_previous_host r1 = rr_previous_host r \<and>
    rr_previous_enable r1 = rr_previous_enable r \<and> rr_hardcore r1 = rr_hardcore r"
proof -
  let ?S = "first_state env cfg w" and ?v = "snd (patched_once env cfg w)" and ?c = "read_text w cfg"
  let ?t = "build_patched_content ?c (ee_proxy env)"
  let ?w1 = "save_patch_state ?S ?v"
  have c: "plain_text ?c" "plain_line (ee_proxy env)" using assms(1) by (simp_all add: patchable_def)
  have read: "read_text ?w1 cfg = ?t" "exists_file ?w1 cfg" using patched_text [OF assms(1)] by simp_all
  have idem: "build_patched_content ?t (ee_proxy env) = ?t" by (rule build_patched_idem [OF c(2,1)])
  have ensure: "ensure_cheevos_token env ?t st = Inr (?t, st)" for st
    using ensure_nothing [OF patchable_again [OF assms(1)], of st] patched_text(2) [OF assms(1)] idem by simp
  have patched: "is_patched_content ?t (ee_proxy env)"
    using extract_patched [OF own_keys(1) c(2,1)] own_keys_differ by (simp add: is_patched_content_def)
  have same: "?w1\<lparr>ew_store := ew_store ?w1\<rparr> = ?w1" "write_changed env cfg ?t ?t ?w1 = ?w1" by (simp_all add: write_changed_def)
  define e where "e = fst (patch_cheevos_append_cfg env cfg ?w1)"
  have step: "patch_cheevos_append_cfg env cfg (save_patch_state d v) =
      (fst (patch_cheevos_append_cfg env cfg v), save_patch_state d (snd (patch_cheevos_append_cfg env cfg v)))" for d v
    by (simp add: patch_cheevos_append_cfg_def Let_def write_changed_def write_emulator_config_def save_patch_state_def
        append_file_def exists_file_def read_text_def split: option.split)
  from this [of ?S ?v] have append_step: "patch_cheevos_append_cfg env cfg ?w1 = (e, ?w1)"
    using append_nothing [OF assms(1)] by (simp add: e_def)
  have old: "opt_json (extract_config_value ?c HOST_KEY) \<noteq> JStr (ee_proxy env)"
    using assms(3) by (auto simp: opt_json_def split: option.split)
  have "e = fst (patch_cheevos_append_cfg env cfg ?v)" by (simp add: e_def step)
  then have kept_entry: "(let x = fst (patched_once env cfg w) in
      if truthy x \<and> field ''cfg_path'' JNull x = opt_json (cheevos_append_cfg_path cfg) then x else e) = fst (patched_once env cfg w)"
    using entry_kept [OF assms(1)] by (simp only:)
  have vals: "saved_values env cfg ?t True ?S e =
      (opt_json (extract_config_value ?c HOST_KEY), opt_json (extract_config_value ?c ENABLE_KEY),
       JBool (detect_hardcore_enabled ?c), fst (patched_once env cfg w))"
    using old kept_entry by (simp add: saved_values_def first_state_def field_def Let_def)
  have "save_patch_state ?S ?w1 = ?w1" by (simp add: save_patch_state_def)
  then have again: "\<exists>r1. patch_retroarch_cfg env cfg ?w1 = Inr (r1, ?w1) \<and> rr_already r1 \<and> \<not> rr_changed r1 \<and>
      rr_previous_host r1 = opt_json (extract_config_value ?c HOST_KEY) \<and>
      rr_previous_enable r1 = opt_json (extract_config_value ?c ENABLE_KEY) \<and> rr_hardcore r1 = detect_hardcore_enabled ?c"
    unfolding patch_retroarch_cfg_def using read idem ensure patched same append_step vals
    by (simp add: Let_def load_patch_state_def first_state_def)
  then show ?thesis using first_patch [OF assms(1,2)] by fastforce
qed


theorem retroarch_repatch_keeps_saved_witness:
  "\<exists>r w1 r1. patch_retroarch_cfg sample_env ''/r/retroarch.cfg'' sample_world = Inr (r, w1) \<and>
    patch_retroarch_cfg sample_env ''/r/retroarch.cfg'' w1 = Inr (r1, w1) \<and> rr_already r1"
proof -
  have "extract_config_value (read_text sample_world ''/r/retroarch.cfg'') HOST_KEY \<noteq> Some (ee_proxy sample_env)" by code_simp
  moreover have "ew_state sample_world = None" by (simp add: sample_world_def)
  ultimately show ?thesis using retroarch_repatch_keeps_saved [OF sample_patchable] by blast
qed

end
