(* ===== verification/Setup_Laws.thy ===== *)
theory Setup_Laws
  imports Proxy_Setup Ini_Laws Retroarch_Laws
begin

text \<open>
  The emulators' files are put back by the revert after one patch; a second patch of all emulators loses
  the values that were captured by the first.
\<close>

section \<open>Captured values\<close>

lemma strip_set: "set (strip l) \<subseteq> set l"
  by (rule set_strip)

lemma section_value_Some: "section_value sec k i ls = Some v \<Longrightarrow> \<exists>l \<in> set ls. v = ini_value l"
  by (induction ls arbitrary: i) (auto split: if_splits)

lemma ini_value_text: "plain_line l \<Longrightarrow> ini_text (ini_value l)"
proof -
  assume l: "plain_line l"
  have "set (after (CHR ''='') (strip l)) \<subseteq> set l"
    using set_strip [of l] by (auto simp: after_def dest!: in_set_dropD set_dropWhileD)
  then have "set (ini_value l) \<subseteq> set l" using set_strip [of "after (CHR ''='') (strip l)"] by (auto simp: ini_value_def)
  then show ?thesis using l by (auto simp: ini_text_def plain_line_def ini_value_def)
qed

lemma extracted_text: "plain_text s \<Longrightarrow> extract_achievements_value s k sec = Some v \<Longrightarrow> ini_text v"
  using section_value_Some [of sec k False "text_lines s" v] ini_value_text text_lines_plain [of s]
  by (auto simp: extract_section_lines)

definition setting_ok :: "host_setting \<Rightarrow> bool" where
  "setting_ok hs = (ini_section (hs_section hs) \<and> ini_name (hs_host_key hs) \<and> ini_name (hs_hardcore_key hs) \<and>
     hs_host_key hs \<noteq> hs_hardcore_key hs \<and> ini_text (hs_hardcore_off hs))"

lemma settings_ok: "setting_ok DUCKSTATION" "setting_ok FLYCAST" "setting_ok PCSX2"
  by code_simp+

text \<open>C20: for an emulator with a host setting (the three of the program), patching its file, whose host is not
  the proxy already, points it at the proxy with hardcore off, and reverting with the captured values gives
  back every value of every section as it was: what was set is set again, and a key that the patch added is
  gone.  The file's only white space is blanks and newlines, its section stands in it once at most and has each of the two keys
  once at most, and the address of the proxy has no outer blanks.  (A host that is the proxy already is not
  captured, so the revert removes it.)\<close>

theorem ini_patch_reverted:
  assumes hs: "setting_ok hs" and proxy: "ini_text (ee_proxy env)" and present: "exists_file w p"
    and ok: "ini_ok (hs_section hs) [hs_host_key hs, hs_hardcore_key hs] (read_text w p)"
    and foreign: "extract_achievements_value (read_text w p) (hs_host_key hs) (hs_section hs) \<noteq> Some (ee_proxy env)"
  shows "\<exists>r w1. patch_setting hs (Some p) env w = (r, w1) \<and>
    extract_achievements_value (read_text w1 p) (hs_host_key hs) (hs_section hs) = Some (ee_proxy env) \<and>
    extract_achievements_value (read_text w1 p) (hs_hardcore_key hs) (hs_section hs) = Some (hs_hardcore_off hs) \<and>
    (\<forall>k sec. extract_achievements_value (read_text (revert_setting hs (Some p) env (pt_previous r) w1) p) k sec =
       extract_achievements_value (read_text w p) k sec)"
proof -
  let ?sec = "hs_section hs" and ?c = "read_text w p"
  let ?keys = "[hs_host_key hs, hs_hardcore_key hs]"
  let ?old = "\<lambda>k. extract_achievements_value ?c k ?sec"
  define ups where "ups = [(hs_host_key hs, Some (ee_proxy env)), (hs_hardcore_key hs, Some (hs_hardcore_off hs))]"
  define restore where "restore = map (\<lambda>k. (k, ?old k)) ?keys"
  have c: "plain_text ?c" using ok by (simp add: ini_ok_def)
  have sec: "ini_section ?sec" using hs by (simp add: setting_ok_def)
  have ups: "clean_updates ups" using hs proxy by (simp add: clean_updates_Cons setting_ok_def ups_def) (simp add: clean_updates_def)
  have restore: "clean_updates restore" using hs extracted_text [OF c]
    by (auto simp: clean_updates_Cons setting_ok_def restore_def clean_updates_def split: option.split)
  have keys: "map fst ups = ?keys" "map fst restore = ?keys" by (simp_all add: ups_def restore_def)
  define t where "t = update_achievements_section ?c ups ?sec"
  have okt: "ini_ok ?sec ?keys t" unfolding t_def by (rule updated_ok [OF sec ups ok])
  have t: "extract_achievements_value t k s2 =
      (if s2 = ?sec then (case map_of ups k of None \<Rightarrow> ?old k | Some v \<Rightarrow> v) else extract_achievements_value ?c k s2)" for k s2
    using section_update_read [OF sec ups ok [folded keys(1)], of k s2] by (simp add: t_def)
  define u where "u = update_achievements_section t restore ?sec"
  have u: "extract_achievements_value u k s2 = extract_achievements_value ?c k s2" for k s2
    using section_update_read [OF sec restore okt [folded keys(2)], of k s2] t [of k s2] t [of k ?sec]
    by (auto simp: u_def restore_def ups_def split: if_splits)
  define w1 where "w1 = write_changed env p ?c t w"
  have run: "patch_setting hs (Some p) env w =
      (\<lparr>pt_exists = True, pt_changed = (t \<noteq> ?c), pt_already = (?old (hs_host_key hs) = Some (ee_proxy env)), pt_path = Some p,
        pt_previous = captured hs ?c\<rparr>, w1)"
    using present by (simp add: patch_setting_def target_file_def setting_patched_def Let_def t_def ups_def w1_def)
  have plain_t: "plain_text t" "plain_text u"
    using okt updated_ok [OF sec restore okt] by (simp_all add: ini_ok_def u_def)
  have r1: "read_text w1 p = t" unfolding w1_def by (rule read_changed [OF plain_t(1) refl])
  have ne: "hs_hardcore_key hs \<noteq> hs_host_key hs" using hs by (auto simp: setting_ok_def)
  have "setting_reverted hs (ee_proxy env) (captured hs ?c) t = u"
    using foreign ne by (auto simp: setting_reverted_def captured_def field_def u_def restore_def opt_json_def opt_text_def json_text_def split: option.split)
  then have "revert_setting hs (Some p) env (captured hs ?c) w1 = write_changed env p t u w1"
    using present r1 by (simp add: revert_setting_def target_file_def w1_def Let_def)
  then have "read_text (revert_setting hs (Some p) env (captured hs ?c) w1) p = u"
    using read_changed [OF plain_t(2) r1] by simp
  then show ?thesis using run r1 t u ne by (auto simp: ups_def)
qed


definition sample_ini :: string where
  "sample_ini = ''[Cheevos]'' @ [newline] @ ''Enabled = true'' @ [newline] @ ''Host = ra.example'' @ [newline] @ ''[Main]'' @ [newline] @ ''X = 1'' @ [newline]"

definition ini_world :: emu_world where
  "ini_world = \<lparr>ew_files = [''/d/settings.ini'' \<mapsto> sample_ini], ew_state = None, ew_store = empty_store True\<rparr>"

theorem ini_patch_reverted_witness:
  "\<exists>r w1. patch_setting DUCKSTATION (Some ''/d/settings.ini'') sample_env ini_world = (r, w1) \<and>
    extract_achievements_value (read_text (revert_setting DUCKSTATION (Some ''/d/settings.ini'') sample_env (pt_previous r) w1)
      ''/d/settings.ini'') ''Host'' ''[Cheevos]'' = Some ''ra.example''"
proof -
  have content: "read_text ini_world ''/d/settings.ini'' = sample_ini" by code_simp
  have "ini_ok (hs_section DUCKSTATION) [hs_host_key DUCKSTATION, hs_hardcore_key DUCKSTATION] sample_ini" by code_simp
  moreover have "ini_text (ee_proxy sample_env)" by code_simp
  moreover have "extract_achievements_value sample_ini ''Host'' ''[Cheevos]'' = Some ''ra.example''" by code_simp
  moreover have "hs_host_key DUCKSTATION = ''Host''" "hs_section DUCKSTATION = ''[Cheevos]''" "ee_proxy sample_env = ''127.0.0.1:8080''"
    by (simp_all add: DUCKSTATION_def sample_env_def)
  moreover have "exists_file ini_world ''/d/settings.ini''" by (simp add: exists_file_def ini_world_def)
  ultimately show ?thesis
    using ini_patch_reverted [OF settings_ok(1), of sample_env ini_world "''/d/settings.ini''"] content by fastforce
qed

section \<open>The second patch of all emulators\<close>

lemma frame_patch_append: "append_file cfg w \<noteq> Some q \<Longrightarrow> ew_files (snd (patch_cheevos_append_cfg env cfg w)) q = ew_files w q"
  "ew_state (snd (patch_cheevos_append_cfg env cfg w)) = ew_state w"
  by (auto simp: patch_cheevos_append_cfg_def Let_def split: option.split)

lemma append_file_path: "append_file cfg w = Some q \<Longrightarrow> cheevos_append_cfg_path cfg = Some q"
  by (auto simp: append_file_def split: option.splits if_splits)

lemma frame_enforce: "q \<noteq> cfg \<Longrightarrow> ew_files (snd (enforce_patched_cfg env cfg w)) q = ew_files w q"
  "ew_state (snd (enforce_patched_cfg env cfg w)) = ew_state w"
  by (simp_all add: enforce_patched_cfg_def Let_def)

lemma frame_secondary: "q \<notin> set ps \<Longrightarrow> ew_files (snd (patch_secondary env saved ps w)) q = ew_files w q"
  "ew_state (snd (patch_secondary env saved ps w)) = ew_state w"
proof (induction ps arbitrary: w)
  case (Cons p ps)
  { case 1 then show ?case using Cons.IH(1) by (auto simp: patch_secondary_file_def Let_def split_beta) }
  { case 2 then show ?case using Cons.IH(2) by (auto simp: patch_secondary_file_def Let_def split_beta) }
qed simp_all

lemma frame_enforce_all: "q \<notin> set ps \<Longrightarrow> ew_files (snd (enforce_all env ps w)) q = ew_files w q"
  "ew_state (snd (enforce_all env ps w)) = ew_state w"
proof (induction ps arbitrary: w)
  case (Cons p ps)
  { case 1 then show ?case using Cons.IH(1) frame_enforce(1) by (simp add: split_beta) }
  { case 2 then show ?case using Cons.IH(2) frame_enforce(2) by (simp add: split_beta) }
qed simp_all

lemma target_path: "target_file path w = Some p \<Longrightarrow> path = Some p"
  by (auto simp: target_file_def split: option.splits if_splits)

lemma frame_batocera: "ee_conf env \<noteq> Some q \<Longrightarrow> ew_files (snd (patch_batocera_conf env w)) q = ew_files w q"
  "ew_state (snd (patch_batocera_conf env w)) = ew_state w"
  using target_path [of "ee_conf env" w] by (auto simp: patch_batocera_conf_def write_conf_def Let_def split: option.split)

lemma frame_ppsspp: "ee_ppsspp env \<noteq> Some q \<Longrightarrow> ew_files (snd (patch_ppsspp_ini env w)) q = ew_files w q"
  "ew_state (snd (patch_ppsspp_ini env w)) = ew_state w"
  using target_path [of "ee_ppsspp env" w] by (force simp: patch_ppsspp_ini_def Let_def split: option.split)+

lemma frame_states:
  "ew_state (snd (patch_dolphin_ini env w)) = ew_state w" "ew_state (snd (patch_setting hs path env w)) = ew_state w"
  by (auto simp: patch_dolphin_ini_def patch_setting_def Let_def split: option.split)

text \<open>The state file after RetroArch was patched holds its own keys only.\<close>

lemma retroarch_state:
  assumes "patchable env cfg w" "load_patch_state w = Inr st"
  shows "\<exists>r w1 h e hc x. patch_retroarch_cfg env cfg w = Inr (r, w1) \<and>
    ew_state w1 = Some (JObj [(''cfg_path'', JStr cfg), (''hardcore_was_enabled'', hc), (''previous_host'', h), (''previous_enable'', e),
      (''proxy_host'', JStr (ee_proxy env)), (''retroarch_cfg'', JStr cfg), (''cheevos_append_cfg'', x)]) \<and>
    (\<forall>q. q \<noteq> cfg \<longrightarrow> cheevos_append_cfg_path cfg \<noteq> Some q \<longrightarrow> ew_files w1 q = ew_files w q)"
proof -
  let ?c = "read_text w cfg" and ?t = "build_patched_content (read_text w cfg) (ee_proxy env)"
  define v where "v = write_changed env cfg ?c ?t w"
  define saved where "saved = (case st of Some s \<Rightarrow> s | None \<Rightarrow> JObj [])"
  obtain x w2 where a: "patch_cheevos_append_cfg env cfg v = (x, w2)" by (cases "patch_cheevos_append_cfg env cfg v")
  obtain h e hc y where s: "saved_values env cfg ?c (?t = ?c \<and> is_patched_content ?c (ee_proxy env)) saved x = (h, e, hc, y)"
    by (cases "saved_values env cfg ?c (?t = ?c \<and> is_patched_content ?c (ee_proxy env)) saved x") auto
  have w: "w\<lparr>ew_store := ew_store w\<rparr> = w" "exists_file w cfg" using assms(1) by (simp_all add: patchable_def)
  have "\<exists>r. patch_retroarch_cfg env cfg w = Inr (r, save_patch_state (JObj [(''cfg_path'', JStr cfg), (''hardcore_was_enabled'', hc), (''previous_host'', h),
                 (''previous_enable'', e), (''proxy_host'', JStr (ee_proxy env)), (''retroarch_cfg'', JStr cfg),
                 (''cheevos_append_cfg'', y)]) w2)"
    using assms(2) ensure_nothing [OF assms(1), of "ew_store w"] w a s
    by (simp add: patch_retroarch_cfg_def Let_def v_def [symmetric] saved_def)
  moreover have "ew_files w2 q = ew_files w q" if "q \<noteq> cfg" "cheevos_append_cfg_path cfg \<noteq> Some q" for q
    using frame_patch_append(1) [of cfg v q env] append_file_path [of cfg v q] a that by (auto simp: v_def)
  ultimately show ?thesis by (metis save_files(1,2))
qed

lemma patchable_hook: "patchable env cfg w \<Longrightarrow> cfg \<noteq> STALE_HOOK_PATH \<Longrightarrow> cheevos_append_cfg_path cfg \<noteq> Some STALE_HOOK_PATH \<Longrightarrow>
   patchable env cfg (remove_stale_hook w)"
  by (auto simp: patchable_def remove_stale_hook_def exists_file_def read_text_def append_file_def split: option.splits if_splits)

lemma field_set_other: "k2 \<noteq> k \<Longrightarrow> field k d (set_field k2 v s) = field k d s"
  by (auto simp: field_def set_field_def update_conv' split: json.split)

lemma field_set_same: "field k d (set_field k v (JObj ps)) = v"
  by (simp add: field_def set_field_def update_conv')

lemma set_field_obj: "\<exists>ps'. set_field k v (JObj ps) = JObj ps'"
  by (simp add: set_field_def)

lemma state_has_set: "k2 \<noteq> k \<Longrightarrow> state_has k (set_field k2 v s) = state_has k s"
  by (auto simp: state_has_def set_field_def update_conv' split: json.split)

lemma store_previous_other:
  "k \<noteq> pk \<Longrightarrow> k \<noteq> k2 \<Longrightarrow> field k d (store_previous pk k2 r s) = field k d s"
  "k \<noteq> pk \<Longrightarrow> k \<noteq> k2 \<Longrightarrow> state_has k (store_previous pk k2 r s) = state_has k s"
  by (auto simp: store_previous_def Let_def field_set_other state_has_set)

lemma store_previous_obj: "\<exists>ps'. store_previous pk k2 r (JObj ps) = JObj ps'"
  using set_field_obj by (simp add: store_previous_def Let_def) (metis set_field_obj)

lemma store_previous_fresh:
  "\<not> state_has pk (JObj ps) \<Longrightarrow> pk \<noteq> k2 \<Longrightarrow> field pk d (store_previous pk k2 r (JObj ps)) = pt_previous r"
  by (simp add: store_previous_def Let_def field_set_other field_set_same)

text \<open>The other emulators, patched after RetroArch: the value Dolphin had is captured as it stands.\<close>

lemma others_capture_dolphin:
  assumes dolphin: "ee_dolphin env = Some p" "exists_file w p"
      "extract_achievements_value (read_text w p) DOLPHIN_HOST_KEY DOLPHIN_SECTION = Some (ee_proxy env)"
      "extract_achievements_value (read_text w p) DOLPHIN_HARDCORE_KEY DOLPHIN_SECTION = Some ''False''"
    and paths: "ee_conf env \<noteq> Some p" "ee_ppsspp env \<noteq> Some p"
    and w4: "ew_files w4 p = ew_files w p" "ew_state w4 = Some (JObj ps)"
  obtains b pp dol pc du fl w10 where "patch_others env w4 = ((b, pp, dol, pc, du, fl), w10)" and "ew_state w10 = Some (JObj ps)"
    and "pt_previous dol = JObj [(DOLPHIN_HOST_KEY, JStr (ee_proxy env)), (DOLPHIN_HARDCORE_KEY, JStr ''False'')]"
proof -
  obtain b w5 where b: "patch_batocera_conf env w4 = (b, w5)" by (cases "patch_batocera_conf env w4")
  obtain pp w6 where pp: "patch_ppsspp_ini env w5 = (pp, w6)" by (cases "patch_ppsspp_ini env w5")
  have f6: "ew_files w6 p = ew_files w p" "ew_state w6 = Some (JObj ps)"
    using frame_batocera(1) [of env p w4] frame_ppsspp(1) [of env p w5] frame_batocera(2) [of env w4] frame_ppsspp(2) [of env w5] b pp paths w4 by simp_all
  obtain dol w7 where dol: "patch_dolphin_ini env w6 = (dol, w7)" by (cases "patch_dolphin_ini env w6")
  have "read_text w6 p = read_text w p" "exists_file w6 p" using read_other [OF f6(1)] exists_other [OF f6(1)] dolphin(2) by simp_all
  then have cap: "pt_previous dol = JObj [(DOLPHIN_HOST_KEY, JStr (ee_proxy env)), (DOLPHIN_HARDCORE_KEY, JStr ''False'')]"
    using dol dolphin(1,3,4) by (simp add: patch_dolphin_ini_def target_file_def Let_def opt_json_def) (metis patch_result.select_convs(5))
  obtain pc w8 where pc: "patch_pcsx2_ini env w7 = (pc, w8)" by (cases "patch_pcsx2_ini env w7")
  obtain du w9 where du: "patch_duckstation_ini env w8 = (du, w9)" by (cases "patch_duckstation_ini env w8")
  obtain fl w10 where fl: "patch_flycast_cfg env w9 = (fl, w10)" by (cases "patch_flycast_cfg env w9")
  have s10: "ew_state w10 = Some (JObj ps)"
    using f6(2) frame_states(1) [of env w6] frame_states(2) [of PCSX2 "ee_pcsx2 env" env w7]
      frame_states(2) [of DUCKSTATION "ee_duckstation env" env w8] frame_states(2) [of FLYCAST "ee_flycast env" env w9] dol pc du fl
    by (simp add: patch_duckstation_ini_def patch_flycast_cfg_def patch_pcsx2_ini_def)
  have "patch_others env w4 = ((b, pp, dol, pc, du, fl), w10)" using b pp dol pc du fl by (simp add: patch_others_def)
  then show ?thesis using that s10 cap by blast
qed

lemma stored_dolphin_previous:
  assumes "\<not> state_has ''dolphin_previous'' (JObj ps)"
  shows "field ''dolphin_previous'' JNull (store_others (b, pp, dol, pc, du, fl) (store_secondary_retroarch_previous es (JObj ps))) = pt_previous dol"
proof -
  obtain ps1 where "store_secondary_retroarch_previous es (JObj ps) = JObj ps1" "\<not> state_has ''dolphin_previous'' (JObj ps1)"
    using assms by (auto simp: store_secondary_retroarch_previous_def set_field_def state_has_def update_conv')
  moreover obtain ps2 where "store_ppsspp_previous pp (store_batocera_previous b (JObj ps1)) = JObj ps2"
    using store_previous_obj by (metis store_batocera_previous_def store_ppsspp_previous_def)
  moreover have "state_has ''dolphin_previous'' (store_ppsspp_previous pp (store_batocera_previous b (JObj ps1))) =
      state_has ''dolphin_previous'' (JObj ps1)"
    by (simp add: store_batocera_previous_def store_ppsspp_previous_def store_previous_other)
  ultimately show ?thesis
    by (simp add: store_others_def store_setting_previous_def FLYCAST_def DUCKSTATION_def PCSX2_def store_previous_other
        store_dolphin_previous_def store_previous_fresh)
qed

text \<open>C21: the state file that all emulators share is rewritten by the patch of RetroArch's file, which drops
  what was captured for the others.  So a second patch of all emulators captures Dolphin's file again, as it
  is now: of a file that points at the proxy with hardcore off, the proxy's own values, whatever had been
  saved before.  The host and the hardcore mode the user had are lost.\<close>

theorem setup_again_captures_proxy:
  assumes patchable: "patchable env cfg w" and state: "ew_state w = Some (JObj old)"
    and dolphin: "ee_dolphin env = Some p" "exists_file w p"
      "extract_achievements_value (read_text w p) DOLPHIN_HOST_KEY DOLPHIN_SECTION = Some (ee_proxy env)"
      "extract_achievements_value (read_text w p) DOLPHIN_HARDCORE_KEY DOLPHIN_SECTION = Some ''False''"
    and paths: "STALE_HOOK_PATH \<notin> {cfg, p}" "cheevos_append_cfg_path cfg \<notin> {Some p, Some STALE_HOOK_PATH}" "p \<noteq> cfg"
      "ee_conf env \<noteq> Some p" "ee_ppsspp env \<noteq> Some p" "ee_darkos32 env \<noteq> Some p"
  shows "\<exists>r w' d. patch_emulator_configs env cfg w = Inr (r, w') \<and> ew_state w' = Some d \<and>
    field ''dolphin_previous'' JNull d = JObj [(DOLPHIN_HOST_KEY, JStr (ee_proxy env)), (DOLPHIN_HARDCORE_KEY, JStr ''False'')]"
proof -
  define w0 where "w0 = remove_stale_hook w"
  have p0: "patchable env cfg w0" unfolding w0_def using patchable_hook [OF patchable] paths by auto
  have s0: "load_patch_state w0 = Inr (Some (JObj old))" using state by (simp add: load_patch_state_def w0_def remove_stale_hook_def)
  obtain r w1 h e hc x where r: "patch_retroarch_cfg env cfg w0 = Inr (r, w1)"
    and s1: "ew_state w1 = Some (JObj [(''cfg_path'', JStr cfg), (''hardcore_was_enabled'', hc), (''previous_host'', h), (''previous_enable'', e),
      (''proxy_host'', JStr (ee_proxy env)), (''retroarch_cfg'', JStr cfg), (''cheevos_append_cfg'', x)])"
    and f1: "\<forall>q. q \<noteq> cfg \<longrightarrow> cheevos_append_cfg_path cfg \<noteq> Some q \<longrightarrow> ew_files w1 q = ew_files w0 q"
    using retroarch_state [OF p0 s0] by blast
  define ps where "ps = [(''cfg_path'', JStr cfg), (''hardcore_was_enabled'', hc), (''previous_host'', h), (''previous_enable'', e),
      (''proxy_host'', JStr (ee_proxy env)), (''retroarch_cfg'', JStr cfg), (''cheevos_append_cfg'', x)]"
  define w2 where "w2 = snd (enforce_patched_cfg env cfg w1)"
  obtain es w3 where e3: "patch_secondary_retroarch_cfgs env (state_list ''secondary_cfgs'' (JObj old)) w2 = (es, w3)"
    by (cases "patch_secondary_retroarch_cfgs env (state_list ''secondary_cfgs'' (JObj old)) w2")
  define w4 where "w4 = snd (enforce_secondary_retroarch_cfgs env w3)"
  have second: "p \<notin> set (secondary_retroarch_cfgs env)"
    using paths(6) by (auto simp: secondary_retroarch_cfgs_def split: option.splits if_splits)
  have w3: "ew_files w3 p = ew_files w2 p" "ew_state w3 = ew_state w2"
    using frame_secondary(1) [OF second, of env _ w2] frame_secondary(2) [of env _ "secondary_retroarch_cfgs env" w2] e3
    by (metis patch_secondary_retroarch_cfgs_def snd_conv)+
  have w4: "ew_files w4 p = ew_files w p" "ew_state w4 = Some (JObj ps)"
    using w3 frame_enforce(1) [of p cfg env w1] frame_enforce_all(1) [OF second] frame_enforce_all(2) f1 paths s1
    by (auto simp: w4_def w2_def enforce_secondary_retroarch_cfgs_def w0_def remove_stale_hook_def ps_def frame_enforce(2))
  obtain b pp dol pc du fl w10 where others: "patch_others env w4 = ((b, pp, dol, pc, du, fl), w10)"
    and s10: "ew_state w10 = Some (JObj ps)"
    and cap: "pt_previous dol = JObj [(DOLPHIN_HOST_KEY, JStr (ee_proxy env)), (DOLPHIN_HARDCORE_KEY, JStr ''False'')]"
    using others_capture_dolphin [OF dolphin paths(4,5) w4] by blast
  define d where "d = store_others (b, pp, dol, pc, du, fl) (store_secondary_retroarch_previous es (JObj ps))"
  have "patch_emulator_configs env cfg w = Inr (r, save_patch_state d w10)"
    using s0 r e3 others s10
    by (simp add: patch_emulator_configs_def Let_def w0_def [symmetric] loaded_state_def w2_def [symmetric] w4_def [symmetric]
        load_patch_state_def d_def)
  moreover have "field ''dolphin_previous'' JNull d = pt_previous dol"
    unfolding d_def by (rule stored_dolphin_previous) (simp add: state_has_def ps_def)
  ultimately show ?thesis using cap by (auto intro!: exI)
qed


definition dolphin_env :: emu_env where
  "dolphin_env = sample_env\<lparr>ee_dolphin := Some ''/d/ra.ini''\<rparr>"

definition dolphin_text :: string where
  "dolphin_text = ''[Achievements]'' @ [newline] @ ''HostUrl = 127.0.0.1:8080'' @ [newline] @ ''HardcoreEnabled = False'' @ [newline]"

definition dolphin_world :: emu_world where
  "dolphin_world = sample_world\<lparr>ew_files := [''/r/retroarch.cfg'' \<mapsto> sample_cfg, ''/d/ra.ini'' \<mapsto> dolphin_text],
     ew_state := Some (JObj [(''dolphin_previous'', JObj [(DOLPHIN_HOST_KEY, JStr ''ra.example''), (DOLPHIN_HARDCORE_KEY, JStr ''True'')])])\<rparr>"

lemma dolphin_patchable: "patchable dolphin_env ''/r/retroarch.cfg'' dolphin_world"
proof -
  have "read_text dolphin_world ''/r/retroarch.cfg'' = sample_cfg" by code_simp
  moreover have "plain_text sample_cfg" "plain_line (ee_proxy dolphin_env)" by code_simp+
  moreover have "present (extract_config_value sample_cfg TOKEN_KEY)" by code_simp
  moreover have "cheevos_append_cfg_path ''/r/retroarch.cfg'' = Some ''/r/retroarch.cheevos.cfg''" by code_simp
  ultimately show ?thesis by (simp add: patchable_def exists_file_def dolphin_world_def sample_world_def append_file_def)
qed

theorem setup_again_captures_proxy_witness:
  "\<exists>r w' d. patch_emulator_configs dolphin_env ''/r/retroarch.cfg'' dolphin_world = Inr (r, w') \<and> ew_state w' = Some d \<and>
    field ''dolphin_previous'' JNull d = JObj [(DOLPHIN_HOST_KEY, JStr ''127.0.0.1:8080''), (DOLPHIN_HARDCORE_KEY, JStr ''False'')]"
proof -
  have "read_text dolphin_world ''/d/ra.ini'' = dolphin_text" by code_simp
  moreover have "extract_achievements_value dolphin_text DOLPHIN_HOST_KEY DOLPHIN_SECTION = Some ''127.0.0.1:8080''"
    "extract_achievements_value dolphin_text DOLPHIN_HARDCORE_KEY DOLPHIN_SECTION = Some ''False''" by code_simp+
  moreover have "exists_file dolphin_world ''/d/ra.ini''" by (simp add: exists_file_def dolphin_world_def)
  moreover have "cheevos_append_cfg_path ''/r/retroarch.cfg'' = Some ''/r/retroarch.cheevos.cfg''" by code_simp
  moreover have "ee_proxy dolphin_env = ''127.0.0.1:8080''" "ee_dolphin dolphin_env = Some ''/d/ra.ini''" "ee_conf dolphin_env = None"
    "ee_ppsspp dolphin_env = None" "ee_darkos32 dolphin_env = None" by (simp_all add: dolphin_env_def sample_env_def)
  moreover obtain old where "ew_state dolphin_world = Some (JObj old)" by (simp add: dolphin_world_def)
  ultimately show ?thesis
    using setup_again_captures_proxy [OF dolphin_patchable, of old "''/d/ra.ini''"] by (simp add: STALE_HOOK_PATH_def)
qed

section \<open>The second patch of a batocera.conf\<close>

text \<open>A second patch of a batocera.conf is not recognised as one: the first adds the host between two keys
  that every patch moves to the end, so the second changes the order of the lines, counts as a first patch,
  and captures hardcore as off where the file had it on.\<close>

theorem batocera_patched_twice:
  "let first = build_patched_batocera_conf (RETROACHIEVEMENTS_HARDCORE_KEY @ ''=1'') ''127.0.0.1:8080''
   in build_patched_batocera_conf first ''127.0.0.1:8080'' \<noteq> first \<and>
      extract_value first RETROACHIEVEMENTS_HARDCORE_KEY = Some ''0''"
  by code_simp

end
