(* ===== verification/Bulk_Cache.thy ===== *)
theory Bulk_Cache
  imports Drain_Laws
begin

text \<open>
  Caching many ROMs at once (smart_cache.py, lines 80-318) and one by hand (rom_browser.py, lines 520-668):
  every file is hashed and queued unless the cache already answers it, then the queue is drained within
  the budget, and on_rom_result hears what became of each path.  The hash of a file with the time it takes,
  the answers of should_abort, by the number of the poll and the moment, and the readers of the settings are parameters; paths and exceptions are
  their texts, and the messages beside a result are not modelled.
\<close>

section \<open>Looking at the cache before asking\<close>

definition known_rom_paths :: "store \<Rightarrow> string set" where
  "known_rom_paths st = load_cached_rom_paths st \<union> queued_rom_paths st normalize_cached_rom_path"

definition estimate_queue_for_paths :: "int \<Rightarrow> store \<Rightarrow> string list \<Rightarrow> queue_estimate" where
  "estimate_queue_for_paths clock st paths =
     estimate_queue (int (length paths))
       (int (length (filter (\<lambda>p. normalize_cached_rom_path p \<in> known_rom_paths st) paths)))
       (store_remaining clock None st) (queue_count st) CACHE_BUDGET_LIMIT (CACHE_BUDGET_WINDOW_MS div 60000)"

record smart_status =
  ss_found :: bool
  ss_candidates :: int
  ss_reason :: "string option"
  ss_history :: "string option"

definition smart_cache_paths :: "store \<Rightarrow> string list \<Rightarrow> string list" where
  "smart_cache_paths st history = filter (\<lambda>p. normalize_cached_rom_path p \<notin> load_cached_rom_paths st) history"

text \<open>The history with its source is a parameter.\<close>

definition should_offer_smart_cache :: "string option \<Rightarrow> string list \<Rightarrow> bool \<Rightarrow> bool \<Rightarrow> store \<Rightarrow> smart_status" where
  "should_offer_smart_cache source history online credentials st =
     (let nothing = (\<lambda>reason from. \<lparr>ss_found = False, ss_candidates = 0, ss_reason = Some reason, ss_history = from\<rparr>) in
      if \<not> online \<or> \<not> credentials then nothing (if \<not> online then ''offline'' else ''missing_credentials'') None
      else case source of
        None \<Rightarrow> nothing ''content_history_missing'' None
      | Some h \<Rightarrow>
         (let paths = smart_cache_paths st history in
          if paths = [] then nothing (if history \<noteq> [] \<and> length paths = 0 then ''all_history_entries_cached''
              else ''no_valid_history_entries'') (Some h)
          else \<lparr>ss_found = (int (length paths) > 0), ss_candidates = int (length paths), ss_reason = None,
                 ss_history = Some h\<rparr>))"

text \<open>A hashed ROM is queued unless its game is cached or it is known to have none.  The flag is what
  on_queued hears.\<close>

definition enqueue_rom_if_needed ::
  "int \<Rightarrow> string \<Rightarrow> string list \<Rightarrow> int list \<Rightarrow> string \<Rightarrow> store \<Rightarrow> ((queued_rom \<times> bool) option \<times> store) res" where
  "enqueue_rom_if_needed clock h hs known path st =
     (case local_game_id_answer st clock (h # hs) of
        NoMatch \<Rightarrow> Inr (None, st)
      | answer \<Rightarrow>
         if (case answer of KnownGame g _ \<Rightarrow> g \<in> set known | _ \<Rightarrow> False) then Inr (None, st)
         else (let rom = \<lparr>qr_hash = h, qr_others = hs, qr_source = Some (normalize_cached_rom_path path),
                          qr_label = path_name path, qr_queued_at = clock, qr_attempts = 0\<rparr>
               in bind_res (enqueue clock rom st) (\<lambda>(added, st'). Inr (Some (rom, added), st'))))"

section \<open>A bulk run\<close>

record bulk_env =
  bk_drain :: drain_env
  bk_login :: network
  bk_tokens :: "credentials option list"
  bk_passwords :: "password_login option list"
  bk_hash :: "string \<Rightarrow> string + string list"
  bk_hash_ms :: "string \<Rightarrow> int"
  bk_abort :: "nat \<Rightarrow> int \<Rightarrow> bool"

datatype rom_result = ResultOk | ResultFail | ResultQueued

record bulk_result =
  br_scanned :: int
  br_total :: int
  br_cached :: int
  br_skipped :: int
  br_queued :: int

text \<open>The variables of a run.  The waiting paths are paths_by_key, the results are what on_rom_result
  hears, the progress what on_progress hears: phase, current, total, cached and label.\<close>

record bulk_state =
  bs_store :: store
  bs_net :: net_state
  bs_polls :: nat
  bs_queued_run :: "string list"
  bs_waiting :: "(string \<times> string list) list"
  bs_scanned :: int
  bs_skipped :: int
  bs_cached :: int
  bs_results :: "(string \<times> rom_result) list"
  bs_progress :: "(string \<times> int \<times> int \<times> int \<times> string) list"

definition bulk_start :: "store \<Rightarrow> net_state \<Rightarrow> bulk_state" where
  "bulk_start st n = \<lparr>bs_store = st, bs_net = n, bs_polls = 0, bs_queued_run = [], bs_waiting = [], bs_scanned = 0,
     bs_skipped = 0, bs_cached = 0, bs_results = [], bs_progress = []\<rparr>"

fun add_path :: "string \<Rightarrow> string \<Rightarrow> (string \<times> string list) list \<Rightarrow> (string \<times> string list) list" where
  "add_path k p [] = [(k, [p])]"
| "add_path k p ((k', ps) # ws) = (if k' = k then (k', ps @ [p]) # ws else (k', ps) # add_path k p ws)"

definition paths_of :: "string \<Rightarrow> (string \<times> string list) list \<Rightarrow> string list" where
  "paths_of k ws = (case map_of ws k of Some ps \<Rightarrow> ps | None \<Rightarrow> [])"

definition poll :: "bulk_env \<Rightarrow> bulk_state \<Rightarrow> bool \<times> bulk_state" where
  "poll env s = (bk_abort env (bs_polls s) (mono (bs_net s)), s\<lparr>bs_polls := bs_polls s + 1\<rparr>)"

definition rom_result :: "string \<Rightarrow> rom_result \<Rightarrow> bulk_state \<Rightarrow> bulk_state" where
  "rom_result p r s = s\<lparr>bs_results := bs_results s @ [(p, r)]\<rparr>"

definition skip_path :: "string \<Rightarrow> rom_result \<Rightarrow> bulk_state \<Rightarrow> bulk_state" where
  "skip_path p r s = rom_result p r (s\<lparr>bs_skipped := bs_skipped s + 1\<rparr>)"

definition begin_path :: "bulk_env \<Rightarrow> int \<Rightarrow> string \<Rightarrow> bulk_state \<Rightarrow> bulk_state" where
  "begin_path env tot p s = s\<lparr>bs_scanned := bs_scanned s + 1,
     bs_progress := bs_progress s @ [(''hashing'', bs_scanned s + 1, tot, 0, path_name p)],
     bs_net := sleep (bk_hash_ms env p) (bs_net s)\<rparr>"

text \<open>One path: hashed, answered or queued.  A raise of the store leaves the run.\<close>

definition hash_path :: "bulk_env \<Rightarrow> int list \<Rightarrow> string \<Rightarrow> bulk_state \<Rightarrow> exn option \<times> bulk_state" where
  "hash_path env known p s = (case bk_hash env p of
       Inl _ \<Rightarrow> (None, skip_path p ResultFail s)
     | Inr [] \<Rightarrow> (None, skip_path p ResultFail s)
     | Inr (h # hs) \<Rightarrow>
        (case enqueue_rom_if_needed (wall_now (bs_net s)) h hs known p (bs_store s) of
           Inl e \<Rightarrow> (Some e, s)
         | Inr (None, st) \<Rightarrow>
             (None, skip_path p (if local_game_id_answer st (wall_now (bs_net s)) (h # hs) = NoMatch then ResultFail
                                 else ResultOk) (s\<lparr>bs_store := st\<rparr>))
         | Inr (Some (rom, added), st) \<Rightarrow>
             (None, s\<lparr>bs_store := st, bs_waiting := add_path (rom_key rom) p (bs_waiting s),
                      bs_queued_run := (if added then bs_queued_run s @ [rom_key rom] else bs_queued_run s)\<rparr>)))"

fun hash_paths :: "bulk_env \<Rightarrow> int list \<Rightarrow> int \<Rightarrow> string list \<Rightarrow> bulk_state \<Rightarrow> exn option \<times> bulk_state" where
  "hash_paths env known tot [] s = (None, s)"
| "hash_paths env known tot (p # ps) s = (case poll env s of
       (True, s1) \<Rightarrow> (None, s1)
     | (False, s1) \<Rightarrow>
        (case hash_path env known p (begin_path env tot p s1) of
           (Some e, s2) \<Rightarrow> (Some e, s2)
         | (None, s2) \<Rightarrow> hash_paths env known tot ps s2))"

text \<open>What on_outcome does with one report of the drain.\<close>

definition on_outcome :: "string \<times> rom_outcome \<times> int option \<Rightarrow> bulk_state \<Rightarrow> bulk_state" where
  "on_outcome r s = (case r of (k, outcome, _) \<Rightarrow>
     if outcome = OutFailed then s
     else s\<lparr>bs_skipped := (if outcome = OutCached then bs_skipped s else bs_skipped s + 1),
            bs_results := bs_results s @ map (\<lambda>p. (p,
              if outcome = OutCached \<or> outcome = OutAlreadyCached then ResultOk else ResultFail)) (paths_of k (bs_waiting s)),
            bs_waiting := AList.delete k (bs_waiting s)\<rparr>)"

definition on_item :: "int \<times> int \<times> string \<Rightarrow> string \<times> int \<times> int \<times> int \<times> string" where
  "on_item i = (case i of (current, of_all, label) \<Rightarrow> (''caching'', current, of_all, current - 1, label))"

definition take_drained :: "drain_state \<Rightarrow> bulk_state \<Rightarrow> bulk_state" where
  "take_drained d s = fold on_outcome (ds_reports d)
     (s\<lparr>bs_store := ds_store d, bs_net := ds_net d, bs_progress := bs_progress s @ map on_item (ds_items d)\<rparr>)"

text \<open>The first batch, right away.  The fuel is that of the drain; None is its end.\<close>

definition first_batch ::
  "nat \<Rightarrow> bulk_env \<Rightarrow> credentials \<Rightarrow> string \<Rightarrow> bool \<Rightarrow> bulk_state \<Rightarrow> (exn option \<times> bulk_state) option" where
  "first_batch fuel env c agent now s =
     (if \<not> now then Some (None, s)
      else case poll env s of (stopped, s1) \<Rightarrow>
        if stopped \<or> bs_waiting s1 = [] then Some (None, s1)
        else case drain_cache_queue fuel (bk_drain env) c agent (Some (map fst (bs_waiting s1))) (bs_store s1) (bs_net s1) of
          None \<Rightarrow> None
        | Some (Stop r d) \<Rightarrow> Some (None, (take_drained d s1)\<lparr>bs_cached := dr_cached r\<rparr>)
        | Some (Raised e d) \<Rightarrow> Some (Some e, take_drained d s1)
        | Some (Next d) \<Rightarrow> None)"

text \<open>The paths whose ROM the run leaves undecided.\<close>

definition leftover :: "bool \<Rightarrow> string \<times> string list \<Rightarrow> bulk_state \<times> int \<Rightarrow> bulk_state \<times> int" where
  "leftover aborted w x = (case w of (k, ps) \<Rightarrow> case x of (s, queued) \<Rightarrow>
     if queue_get (bs_store s) k \<noteq> None
     then (s\<lparr>bs_results := bs_results s @ map (\<lambda>p. (p, ResultQueued)) ps\<rparr>, queued + int (length ps))
     else if \<not> aborted
     then (s\<lparr>bs_skipped := bs_skipped s + int (length ps), bs_results := bs_results s @ map (\<lambda>p. (p, ResultFail)) ps\<rparr>, queued)
     else (s, queued))"

definition end_run :: "bulk_env \<Rightarrow> int \<Rightarrow> bulk_state \<Rightarrow> bulk_result \<times> bulk_state" where
  "end_run env tot s = (case poll env s of (aborted, s1) \<Rightarrow>
     let s2 = (if aborted then s1\<lparr>bs_store := queue_remove_keys (bs_queued_run s1) (bs_store s1)\<rparr> else s1) in
     case fold (leftover aborted) (bs_waiting s2) (s2, 0) of (s3, queued) \<Rightarrow>
       (\<lparr>br_scanned = bs_scanned s3, br_total = tot, br_cached = bs_cached s3, br_skipped = bs_skipped s3,
         br_queued = queued\<rparr>, s3))"

definition bulk_credentials :: "bulk_env \<Rightarrow> string \<Rightarrow> store \<Rightarrow> net_state \<Rightarrow> (credentials option \<times> store) res" where
  "bulk_credentials env agent st n =
     resolve_credentials (bk_login env) (de_host (bk_drain env)) (de_fallback (bk_drain env)) (wall_now n)
       (bk_tokens env) (bk_passwords env) agent (de_tag (bk_drain env)) st"

definition bulk_agent :: "bulk_env \<Rightarrow> string" where
  "bulk_agent env = self_user_agent (de_tag (bk_drain env)) (de_fallback (bk_drain env))"

definition run_cache_paths ::
  "nat \<Rightarrow> bulk_env \<Rightarrow> string list \<Rightarrow> bool \<Rightarrow> store \<Rightarrow> net_state \<Rightarrow> (bulk_result res \<times> bulk_state) option" where
  "run_cache_paths fuel env paths now st n =
     (let tot = int (length paths); agent = bulk_agent env; s0 = bulk_start st n in
      if tot = 0 then Some (Inr \<lparr>br_scanned = 0, br_total = 0, br_cached = 0, br_skipped = 0, br_queued = 0\<rparr>, s0)
      else case bulk_credentials env agent st n of
        Inl e \<Rightarrow> Some (Inl e, s0)
      | Inr (None, st1) \<Rightarrow> Some (Inl RuntimeError, bulk_start st1 n)
      | Inr (Some c, st1) \<Rightarrow>
         (case hash_paths env (cached_game_ids st1) tot paths (bulk_start st1 n) of
            (Some e, s1) \<Rightarrow> Some (Inl e, s1)
          | (None, s1) \<Rightarrow>
             (case first_batch fuel env c agent now s1 of
                None \<Rightarrow> None
              | Some (Some e, s2) \<Rightarrow> Some (Inl e, s2)
              | Some (None, s2) \<Rightarrow> (case end_run env tot s2 of (r, s3) \<Rightarrow> Some (Inr r, s3)))))"

definition run_smart_cache ::
  "nat \<Rightarrow> bulk_env \<Rightarrow> string list \<Rightarrow> string list option \<Rightarrow> bool \<Rightarrow> store \<Rightarrow> net_state \<Rightarrow> (bulk_result res \<times> bulk_state) option" where
  "run_smart_cache fuel env history paths now st n =
     run_cache_paths fuel env (case paths of None \<Rightarrow> smart_cache_paths st history | Some ps \<Rightarrow> ps) now st n"

end
