(* ===== verification/Bulk_Laws.thy ===== *)
theory Bulk_Laws
  imports Bulk_Cache "HOL-Library.Multiset"
begin

text \<open>
  A bulk run: every path it took up is reported once, and a run that is called off leaves the queue as it
  found it.
\<close>

section \<open>Every path is accounted for\<close>

lemma paths_of_pairs [simp]: "image_mset fst (image_mset (\<lambda>p. (p, c)) M) = M"
  by (simp add: multiset.map_comp comp_def)

definition waiting_paths :: "bulk_state \<Rightarrow> string multiset" where
  "waiting_paths s = mset (concat (map snd (bs_waiting s)))"

definition reported_paths :: "bulk_state \<Rightarrow> string multiset" where
  "reported_paths s = mset (map fst (bs_results s))"

text \<open>The paths taken up so far are reported or wait under one key.\<close>

definition bulk_inv :: "string multiset \<Rightarrow> bulk_state \<Rightarrow> bool" where
  "bulk_inv M s = (reported_paths s + waiting_paths s = M \<and> distinct (map fst (bs_waiting s)) \<and>
     (\<forall>x \<in> set (bs_results s). snd x \<noteq> ResultQueued))"

lemma add_path_keys: "set (map fst (add_path k p ws)) = insert k (set (map fst ws))"
  by (induction k p ws rule: add_path.induct) auto

lemma add_path_distinct: "distinct (map fst ws) \<Longrightarrow> distinct (map fst (add_path k p ws))"
proof (induction k p ws rule: add_path.induct)
  case (2 k p k' ps ws)
  then show ?case using add_path_keys [of k p ws] by auto
qed simp

lemma add_path_mset: "mset (concat (map snd (add_path k p ws))) = add_mset p (mset (concat (map snd ws)))"
  by (induction k p ws rule: add_path.induct) simp_all

lemma delete_mset:
  "distinct (map fst ws) \<Longrightarrow> mset (paths_of k ws) + mset (concat (map snd (AList.delete k ws))) = mset (concat (map snd ws))"
proof (induction ws)
  case (Cons w ws)
  obtain k' ps where w: "w = (k', ps)" by (cases w)
  show ?case
  proof (cases "k' = k")
    case True
    then have "k \<notin> fst ` set ws" using Cons.prems w by auto
    then have "AList.delete k ws = ws" by (simp add: delete_id)
    then show ?thesis using w True by (simp add: paths_of_def)
  next
    case False
    then show ?thesis using w Cons by (simp add: paths_of_def ac_simps)
  qed
qed (simp add: paths_of_def)

lemma distinct_delete_keys: "distinct (map fst ws) \<Longrightarrow> distinct (map fst (AList.delete k ws))"
  by (rule distinct_delete)

lemma bulk_inv_skip: "bulk_inv M s \<Longrightarrow> r \<noteq> ResultQueued \<Longrightarrow> bulk_inv (add_mset p M) (skip_path p r s)"
  by (auto simp: bulk_inv_def skip_path_def rom_result_def reported_paths_def waiting_paths_def)

lemma bulk_inv_frame:
  "bulk_inv M s \<Longrightarrow> bs_results s' = bs_results s \<Longrightarrow> bs_waiting s' = bs_waiting s \<Longrightarrow> bulk_inv M s'"
  by (simp add: bulk_inv_def reported_paths_def waiting_paths_def)

lemma bulk_inv_updates [simp]:
  "bulk_inv M (s\<lparr>bs_store := a\<rparr>) = bulk_inv M s" "bulk_inv M (s\<lparr>bs_polls := b\<rparr>) = bulk_inv M s"
  "bulk_inv M (s\<lparr>bs_cached := c\<rparr>) = bulk_inv M s" "bulk_inv M (s\<lparr>bs_scanned := d\<rparr>) = bulk_inv M s"
  "bulk_inv M (s\<lparr>bs_net := e\<rparr>) = bulk_inv M s" "bulk_inv M (s\<lparr>bs_progress := f\<rparr>) = bulk_inv M s"
  by (simp_all add: bulk_inv_def reported_paths_def waiting_paths_def)

lemma bulk_inv_hash:
  assumes "bulk_inv M s" "hash_path env known p s = (None, s')"
  shows "bulk_inv (add_mset p M) s' \<and> bs_scanned s' = bs_scanned s"
proof -
  have frame: "bulk_inv M (s\<lparr>bs_store := st\<rparr>)" for st using assms(1) by simp
  have add: "bulk_inv (add_mset p M) (s\<lparr>bs_store := st, bs_waiting := add_path k p (bs_waiting s), bs_queued_run := q\<rparr>)"
    "bulk_inv (add_mset p M) (s\<lparr>bs_store := st, bs_waiting := add_path k p (bs_waiting s)\<rparr>)" for st k q
    using assms(1) by (simp_all add: bulk_inv_def reported_paths_def waiting_paths_def add_path_mset add_path_distinct)
  show ?thesis using assms bulk_inv_skip [OF assms(1)] bulk_inv_skip [OF frame] add
    by (auto simp: hash_path_def skip_path_def rom_result_def split: sum.splits list.splits option.splits prod.splits if_splits)
qed

lemma bulk_inv_paths:
  assumes "bulk_inv M s" "hash_paths env known tot ps s = (None, s')"
  shows "\<exists>k \<le> length ps. bs_scanned s' = bs_scanned s + int k \<and> bulk_inv (M + mset (take k ps)) s' \<and>
    ((\<forall>i t. \<not> bk_abort env i t) \<longrightarrow> k = length ps)"
  using assms
proof (induction ps arbitrary: s M)
  case (Cons p ps)
  show ?case
  proof (cases "bk_abort env (bs_polls s) (mono (bs_net s))")
    case True
    then have "s' = s\<lparr>bs_polls := bs_polls s + 1\<rparr>" using Cons.prems by (simp add: poll_def)
    then show ?thesis using True bulk_inv_frame [OF Cons.prems(1), of s'] by (intro exI [of _ 0]) auto
  next
    case False
    define s1 where "s1 = begin_path env tot p (s\<lparr>bs_polls := bs_polls s + 1\<rparr>)"
    have i1: "bulk_inv M s1" and n1: "bs_scanned s1 = bs_scanned s + 1"
      using bulk_inv_frame [OF Cons.prems(1), of s1] by (simp_all add: s1_def begin_path_def)
    obtain s2 where s2: "hash_path env known p s1 = (None, s2)" "hash_paths env known tot ps s2 = (None, s')"
      using Cons.prems(2) False by (auto simp: poll_def s1_def split: prod.splits option.splits)
    from bulk_inv_hash [OF i1 s2(1)] Cons.IH [OF _ s2(2), of "add_mset p M"] n1
    obtain k where "k \<le> length ps" "bs_scanned s' = bs_scanned s + 1 + int k"
      "bulk_inv (add_mset p M + mset (take k ps)) s'" "(\<forall>i t. \<not> bk_abort env i t) \<longrightarrow> k = length ps" by auto
    then show ?thesis by (intro exI [of _ "Suc k"]) auto
  qed
qed simp

lemma bulk_inv_outcome:
  assumes "bulk_inv M s" shows "bulk_inv M (on_outcome r s)"
proof -
  obtain k out g where r: "r = (k, out, g)" by (metis prod_cases3)
  have d: "distinct (map fst (bs_waiting s))" using assms by (simp add: bulk_inv_def)
  have M: "reported_paths s + (mset (paths_of k (bs_waiting s)) + mset (concat (map snd (AList.delete k (bs_waiting s))))) = M"
    using assms by (simp add: bulk_inv_def waiting_paths_def delete_mset [OF d])
  show ?thesis
    using assms M distinct_delete_keys [OF d, of k]
    by (auto simp: r on_outcome_def bulk_inv_def reported_paths_def waiting_paths_def union_assoc)
qed

lemma on_outcome_fields [simp]:
  "bs_scanned (on_outcome r s) = bs_scanned s" "bs_store (on_outcome r s) = bs_store s"
  "bs_queued_run (on_outcome r s) = bs_queued_run s" "bs_polls (on_outcome r s) = bs_polls s"
  "bs_net (on_outcome r s) = bs_net s"
  by (cases r; simp add: on_outcome_def)+

lemma fold_outcome_fields [simp]:
  "bs_scanned (fold on_outcome rs s) = bs_scanned s" "bs_store (fold on_outcome rs s) = bs_store s"
  "bs_queued_run (fold on_outcome rs s) = bs_queued_run s" "bs_polls (fold on_outcome rs s) = bs_polls s"
  by (induction rs arbitrary: s) simp_all

lemma bulk_inv_outcomes: "bulk_inv M s \<Longrightarrow> bulk_inv M (fold on_outcome rs s)"
  by (induction rs arbitrary: s) (simp_all add: bulk_inv_outcome)

lemma bulk_inv_drained: "bulk_inv M s \<Longrightarrow> bulk_inv M (take_drained d s) \<and> bs_scanned (take_drained d s) = bs_scanned s"
  by (simp add: take_drained_def bulk_inv_outcomes bulk_inv_frame)

lemma bulk_inv_batch:
  assumes "bulk_inv M s" "first_batch fuel env c agent now s = Some (None, s')"
  shows "bulk_inv M s' \<and> bs_scanned s' = bs_scanned s"
proof -
  have i: "bulk_inv M (s\<lparr>bs_polls := bs_polls s + 1\<rparr>)" using assms(1) by simp
  show ?thesis
    using assms i bulk_inv_drained [OF i]
    by (auto simp: first_batch_def poll_def split: if_splits option.splits drain_next.splits)
qed

section \<open>The end of a run\<close>

text \<open>The last poll of a run, at its end.\<close>

definition called_off :: "bulk_env \<Rightarrow> bulk_state \<Rightarrow> bool" where
  "called_off env s = bk_abort env (bs_polls s - 1) (mono (bs_net s))"

definition queued_results :: "(string \<times> rom_result) list \<Rightarrow> int" where
  "queued_results rs = int (length (filter (\<lambda>x. snd x = ResultQueued) rs))"

lemma queued_results_append [simp]: "queued_results (xs @ ys) = queued_results xs + queued_results ys"
  by (simp add: queued_results_def)

lemma queued_results_map [simp]:
  "queued_results (map (\<lambda>p. (p, r)) ps) = (if r = ResultQueued then int (length ps) else 0)"
  by (simp add: queued_results_def)

lemma leftover_all:
  assumes "fold (leftover aborted) ws (s, q) = (s', q')"
  shows "bs_store s' = bs_store s \<and> bs_scanned s' = bs_scanned s \<and>
    reported_paths s' \<subseteq># reported_paths s + mset (concat (map snd ws)) \<and>
    (\<not> aborted \<longrightarrow> reported_paths s' = reported_paths s + mset (concat (map snd ws))) \<and>
    queued_results (bs_results s') - q' = queued_results (bs_results s) - q"
  using assms
proof (induction ws arbitrary: s q)
  case (Cons w ws)
  obtain k ps where w: "w = (k, ps)" by (cases w)
  obtain s1 q1 where 1: "leftover aborted w (s, q) = (s1, q1)" by (cases "leftover aborted w (s, q)")
  have rest: "fold (leftover aborted) ws (s1, q1) = (s', q')" using Cons.prems 1 by simp
  have one: "bs_store s1 = bs_store s \<and> bs_scanned s1 = bs_scanned s \<and>
      (reported_paths s1 = reported_paths s + mset ps \<or> aborted \<and> reported_paths s1 = reported_paths s) \<and>
      queued_results (bs_results s1) - q1 = queued_results (bs_results s) - q"
    using 1 by (auto simp: leftover_def w reported_paths_def o_def split: if_splits)
  have le: "reported_paths s1 \<subseteq># reported_paths s + mset ps" using one by auto
  have "reported_paths s' \<subseteq># reported_paths s1 + mset (concat (map snd ws))" using Cons.IH [OF rest] by simp
  also have "\<dots> \<subseteq># reported_paths s + mset ps + mset (concat (map snd ws))" using le by simp
  finally have "reported_paths s' \<subseteq># reported_paths s + mset (concat (map snd (w # ws)))" by (simp add: w union_assoc)
  then show ?case using Cons.IH [OF rest] one w by (auto simp: union_assoc)
qed simp
lemma leftover_polls: "fold (leftover aborted) ws (s, q) = (s', q') \<Longrightarrow> bs_polls s' = bs_polls s \<and> bs_net s' = bs_net s"
  by (induction ws arbitrary: s q) (auto simp: leftover_def split: prod.splits if_splits)

lemma leftover_queued:
  assumes "fold (leftover aborted) ws (s, q) = (s', q')"
  shows "\<forall>x \<in> set (bs_results s'). x \<in> set (bs_results s) \<or> snd x \<noteq> ResultQueued \<or>
    (\<exists>w \<in> set ws. fst x \<in> set (snd w) \<and> queue_get (bs_store s') (fst w) \<noteq> None)"
  using assms
proof (induction ws arbitrary: s q)
  case (Cons w ws)
  obtain s1 q1 where 1: "leftover aborted w (s, q) = (s1, q1)" by (cases "leftover aborted w (s, q)")
  have rest: "fold (leftover aborted) ws (s1, q1) = (s', q')" using Cons.prems 1 by simp
  have st: "bs_store s' = bs_store s" using leftover_all [OF Cons.prems] by simp
  have "\<forall>x \<in> set (bs_results s1). x \<in> set (bs_results s) \<or> snd x \<noteq> ResultQueued \<or>
      fst x \<in> set (snd w) \<and> queue_get (bs_store s') (fst w) \<noteq> None"
    using 1 by (auto simp: st leftover_def split: prod.splits if_splits)
  with Cons.IH [OF rest] show ?case unfolding list.set by blast
qed simp

lemma run_reports:
  assumes run: "run_cache_paths fuel env paths now st n = Some (Inr r, s)"
  shows "0 \<le> br_scanned r \<and> br_scanned r \<le> int (length paths) \<and>
    reported_paths s \<subseteq># mset (take (nat (br_scanned r)) paths) \<and>
    (\<not> called_off env s \<longrightarrow> reported_paths s = mset (take (nat (br_scanned r)) paths)) \<and>
    ((\<forall>i t. \<not> bk_abort env i t) \<longrightarrow> br_scanned r = int (length paths)) \<and>
    queued_results (bs_results s) = br_queued r"
proof (cases "paths = []")
  case True
  then show ?thesis using run
    by (auto simp: run_cache_paths_def Let_def bulk_start_def reported_paths_def queued_results_def)
next
  case False
  obtain c st1 s1 s2 where
    1: "hash_paths env (cached_game_ids st1) (int (length paths)) paths (bulk_start st1 n) = (None, s1)" and
    2: "first_batch fuel env c (bulk_agent env) now s1 = Some (None, s2)" and
    3: "end_run env (int (length paths)) s2 = (r, s)"
    using run False by (auto simp: run_cache_paths_def Let_def split: sum.splits option.splits prod.splits)
  have "bulk_inv {#} (bulk_start st1 n)" "bs_scanned (bulk_start st1 n) = 0"
    by (simp_all add: bulk_inv_def reported_paths_def waiting_paths_def bulk_start_def)
  from bulk_inv_paths [OF this(1) 1] this(2) obtain k where
    k: "k \<le> length paths" "bs_scanned s1 = int k" "bulk_inv (mset (take k paths)) s1"
    "(\<forall>i t. \<not> bk_abort env i t) \<longrightarrow> k = length paths" by auto
  from bulk_inv_batch [OF k(3) 2] have i: "bulk_inv (mset (take k paths)) s2" "bs_scanned s2 = int k" using k by auto
  define stopped where "stopped = bk_abort env (bs_polls s2) (mono (bs_net s2))"
  define s3 where "s3 = (let t = s2\<lparr>bs_polls := bs_polls s2 + 1\<rparr> in
      if stopped then t\<lparr>bs_store := queue_remove_keys (bs_queued_run t) (bs_store t)\<rparr> else t)"
  have s3: "reported_paths s3 = reported_paths s2" "bs_waiting s3 = bs_waiting s2" "bs_scanned s3 = bs_scanned s2"
    "bs_polls s3 = Suc (bs_polls s2)" "bs_net s3 = bs_net s2" "bs_results s3 = bs_results s2"
    by (simp_all add: s3_def Let_def reported_paths_def)
  obtain q where f: "fold (leftover stopped) (bs_waiting s3) (s3, 0) = (s, q)" and
    r: "br_scanned r = bs_scanned s" "br_queued r = q"
    using 3 by (auto simp: end_run_def poll_def Let_def s3_def stopped_def split: prod.splits if_splits)
  have none: "queued_results (bs_results s3) = 0"
    using i(1) by (auto simp: s3 bulk_inv_def queued_results_def filter_empty_conv)
  have all: "reported_paths s3 + mset (concat (map snd (bs_waiting s3))) = mset (take k paths)"
    using i(1) by (simp add: s3 bulk_inv_def waiting_paths_def)
  show ?thesis using leftover_all [OF f] all none r s3 i(2) k(1,4) by (simp add: stopped_def called_off_def leftover_polls [OF f])
qed

text \<open>C3: of the paths it took up, a bulk run that is not called off reports each exactly once, in every case of
  hashing, answers of the cache, the drain and its end; one that is called off reports none twice.  Without
  a wish to stop it takes up every path.  Its count of queued paths is that of the paths it reports as queued.\<close>

theorem each_path_reported_once:
  assumes run: "run_cache_paths fuel env paths now st n = Some (Inr r, s)"
  shows "0 \<le> br_scanned r \<and> br_scanned r \<le> int (length paths) \<and>
    reported_paths s \<subseteq># mset (take (nat (br_scanned r)) paths) \<and>
    (\<not> called_off env s \<longrightarrow> reported_paths s = mset (take (nat (br_scanned r)) paths)) \<and>
    ((\<forall>i t. \<not> bk_abort env i t) \<longrightarrow> br_scanned r = int (length paths)) \<and>
    queued_results (bs_results s) = br_queued r"
  using assms by (rule run_reports)

section \<open>A run that is called off\<close>

text \<open>Beyond the ROMs the run queued itself, the cache is as it was.\<close>

definition only_queued :: "store \<Rightarrow> bulk_state \<Rightarrow> bool" where
  "only_queued st0 s = (wf_store (bs_store s) \<and>
     (\<forall>k. if k \<in> set (bs_queued_run s) then get_cache st0 k = None else get_cache (bs_store s) k = get_cache st0 k))"

lemma enqueue_cases:
  assumes "enqueue t r st = Inr (added, st')" "wf_store st"
  shows "wf_store st' \<and> (if added then get_cache st (rom_key r) = None \<and> (\<forall>k. k \<noteq> rom_key r \<longrightarrow> get_cache st' k = get_cache st k)
    else st' = st) \<and> get_cache st' (rom_key r) \<noteq> None"
  using assms get_cache_upsert [OF assms(2)] wf_upsert_cache [OF assms(2)]
  by (auto simp: enqueue_def rom_write_def res_simps split: if_splits)

lemma enqueue_if_needed_cases:
  assumes "enqueue_rom_if_needed clock h hs known p st = Inr (x, st')"
  shows "(case x of None \<Rightarrow> st' = st | Some (rom, added) \<Rightarrow> rom_hashes rom = h # hs \<and> enqueue clock rom st = Inr (added, st'))"
  using assms
  by (auto simp: enqueue_rom_if_needed_def Let_def res_simps rom_hashes_def split: local_answer.splits if_splits)

lemma only_queued_hash:
  assumes "only_queued st0 s" "hash_path env known p s = (None, s')"
  shows "only_queued st0 s'"
proof (cases "bk_hash env p")
  case (Inl e)
  then show ?thesis using assms by (auto simp: hash_path_def skip_path_def rom_result_def only_queued_def)
next
  case (Inr cs)
  show ?thesis
  proof (cases cs)
    case Nil
    then show ?thesis using assms Inr by (auto simp: hash_path_def skip_path_def rom_result_def only_queued_def)
  next
    case (Cons h hs)
    obtain x st where e: "enqueue_rom_if_needed (wall_now (bs_net s)) h hs known p (bs_store s) = Inr (x, st)"
      using assms(2) Inr Cons by (auto simp: hash_path_def split: sum.splits)
    show ?thesis
    proof (cases x)
      case None
      then show ?thesis using assms Inr Cons e enqueue_if_needed_cases [OF e]
        by (auto simp: hash_path_def skip_path_def rom_result_def only_queued_def)
    next
      case (Some y)
      obtain rom added where y: "x = Some (rom, added)" using Some by (cases y) auto
      have q: "enqueue (wall_now (bs_net s)) rom (bs_store s) = Inr (added, st)"
        using enqueue_if_needed_cases [OF e] by (simp add: y)
      have wf: "wf_store (bs_store s)" using assms(1) by (simp add: only_queued_def)
      note c = enqueue_cases [OF q wf]
      have s': "s' = s\<lparr>bs_store := st, bs_waiting := add_path (rom_key rom) p (bs_waiting s),
          bs_queued_run := (if added then bs_queued_run s @ [rom_key rom] else bs_queued_run s)\<rparr>"
        using assms(2) Inr Cons e by (simp add: hash_path_def y)
      show ?thesis
      proof (cases added)
        case True
        then have "get_cache (bs_store s) (rom_key rom) = None" using c by simp
        then have "get_cache st0 (rom_key rom) = None" using assms(1) unfolding only_queued_def by metis
        then show ?thesis using assms(1) c True by (auto simp: s' only_queued_def)
      next
        case False
        then show ?thesis using assms(1) c by (simp add: s' only_queued_def)
      qed
    qed
  qed
qed

lemma only_queued_paths:
  "only_queued st0 s \<Longrightarrow> hash_paths env known tot ps s = (None, s') \<Longrightarrow> only_queued st0 s'"
proof (induction ps arbitrary: s)
  case (Cons p ps)
  have u: "only_queued st0 (s\<lparr>bs_polls := i\<rparr>)" "only_queued st0 (begin_path env tot p (s\<lparr>bs_polls := i\<rparr>))" for i
    using Cons.prems(1) by (simp_all add: only_queued_def begin_path_def)
  show ?case
  proof (cases "bk_abort env (bs_polls s) (mono (bs_net s))")
    case True
    then show ?thesis using Cons.prems(2) u(1) by (auto simp: poll_def)
  next
    case False
    then obtain s2 where "hash_path env known p (begin_path env tot p (s\<lparr>bs_polls := bs_polls s + 1\<rparr>)) = (None, s2)"
      "hash_paths env known tot ps s2 = (None, s')"
      using Cons.prems(2) by (auto simp: poll_def split: prod.splits option.splits)
    then show ?thesis using only_queued_hash [OF u(2)] Cons.IH by blast
  qed
qed simp

lemma get_cache_remove_keys:
  "wf_store st \<Longrightarrow> wf_store (queue_remove_keys ks st) \<and>
   get_cache (queue_remove_keys ks st) k = (if k \<in> set ks then None else get_cache st k)"
  unfolding queue_remove_keys_def
  by (induction ks arbitrary: st) (simp_all add: wf_deletes get_cache_delete)

text \<open>C6: a run that only fills the queue and is called off leaves every entry of the cache as it was: the ROMs
  it queued are taken out again, and those that waited before it stay.  As it was means after the run resolved
  the credentials it needs, which may itself keep a login in the cache.\<close>

theorem aborted_run_leaves_cache:
  assumes "run_cache_paths fuel env paths False st n = Some (Inr r, s)"
    and "bulk_credentials env (bulk_agent env) st n = Inr (Some c, st1)" "wf_store st1" "paths \<noteq> []"
    and "called_off env s"
  shows "get_cache (bs_store s) k = get_cache st1 k"
proof -
  obtain s1 where h: "hash_paths env (cached_game_ids st1) (int (length paths)) paths (bulk_start st1 n) = (None, s1)"
    and e: "end_run env (int (length paths)) s1 = (r, s)"
    using assms by (auto simp: run_cache_paths_def Let_def first_batch_def split: option.splits prod.splits)
  have "only_queued st1 (bulk_start st1 n)" using assms(3) by (simp add: only_queued_def bulk_start_def)
  then have o: "only_queued st1 s1" using h by (rule only_queued_paths)
  define s2 where "s2 = (let t = s1\<lparr>bs_polls := bs_polls s1 + 1\<rparr> in
      if bk_abort env (bs_polls s1) (mono (bs_net s1)) then t\<lparr>bs_store := queue_remove_keys (bs_queued_run t) (bs_store t)\<rparr> else t)"
  obtain q where f: "fold (leftover (bk_abort env (bs_polls s1) (mono (bs_net s1)))) (bs_waiting s2) (s2, 0) = (s, q)"
    using e by (auto simp: end_run_def poll_def Let_def s2_def split: prod.splits if_splits)
  have "bs_polls s = Suc (bs_polls s1)" "bs_net s = bs_net s1" using leftover_polls [OF f] by (simp_all add: s2_def Let_def)
  then have "bs_store s = queue_remove_keys (bs_queued_run s1) (bs_store s1)"
    using leftover_all [OF f] assms(5) by (simp add: s2_def Let_def called_off_def)
  then show ?thesis using o get_cache_remove_keys [of "bs_store s1" "bs_queued_run s1" k]
    by (cases "k \<in> set (bs_queued_run s1)") (auto simp: only_queued_def split: if_splits)
qed

section \<open>A run on two files\<close>

definition sample_bulk :: "(nat \<Rightarrow> int \<Rightarrow> bool) \<Rightarrow> bulk_env" where
  "sample_bulk abort = \<lparr>bk_drain = silent_env, bk_login = (\<lambda>_ _. NetworkError),
     bk_tokens = [Some \<lparr>cr_user = ''bob'', cr_token = ''t''\<rparr>], bk_passwords = [],
     bk_hash = (\<lambda>p. if p = ''/r/nes/b.nes'' then Inl ''broken'' else Inr [''ab'']), bk_hash_ms = (\<lambda>_. 20), bk_abort = abort\<rparr>"

definition sample_paths :: "string list" where "sample_paths = [''/r/nes/a.nes'', ''/r/nes/b.nes'']"

definition sample_run :: "(nat \<Rightarrow> int \<Rightarrow> bool) \<Rightarrow> (bulk_result res \<times> bulk_state) option" where
  "sample_run abort = run_cache_paths 4 (sample_bulk abort) sample_paths False (empty_store True) idle_net"

definition logged_in :: store where
  "logged_in = (case upsert_cache 5000 (login_key ''bob'') (login_body ''bob'' ''t'') None None (empty_store True) of
     Inr st \<Rightarrow> st | Inl _ \<Rightarrow> empty_store True)"

definition sample_rom :: queued_rom where
  "sample_rom = \<lparr>qr_hash = ''ab'', qr_others = [], qr_source = Some ''/nes/a.nes'', qr_label = ''a.nes'',
     qr_queued_at = 5020, qr_attempts = 0\<rparr>"

lemma logged_in_facts:
  "cached_game_ids logged_in = []" "local_game_id_answer logged_in 5020 [''ab''] = Unknown" "queue_entries logged_in = []"
  "get_cache logged_in (rom_key sample_rom) = None"
  by code_simp+

lemma sample_credentials:
  "bulk_credentials (sample_bulk a) agent (empty_store True) idle_net = Inr (Some \<lparr>cr_user = ''bob'', cr_token = ''t''\<rparr>, logged_in)"
  "wf_store logged_in"
proof -
  obtain st where st: "upsert_cache 5000 (login_key ''bob'') (login_body ''bob'' ''t'') None None (empty_store True) = Inr st"
    using upsert_plain_total [OF login_plain [unfolded plain_key_def]] by blast
  then show "bulk_credentials (sample_bulk a) agent (empty_store True) idle_net = Inr (Some \<lparr>cr_user = ''bob'', cr_token = ''t''\<rparr>, logged_in)"
    by (simp add: bulk_credentials_def resolve_credentials_def sample_bulk_def cache_token_credentials_def logged_in_def
        idle_net_def wall_now_def)
  show "wf_store logged_in" using wf_upsert_cache [OF wf_empty_store st] st by (simp add: logged_in_def)
qed

lemma sample_fields:
  "bk_hash_ms (sample_bulk a) p = 20" "bk_abort (sample_bulk a) = a" "mono idle_net = 1000" "wall idle_net = 4000"
  "bk_hash (sample_bulk a) ''/r/nes/b.nes'' = Inl ''broken''"
  by (simp_all add: sample_bulk_def idle_net_def)

lemma sample_enqueued:
  "\<exists>st. enqueue 5020 sample_rom logged_in = Inr (True, st) \<and> queue_get st (rom_key sample_rom) \<noteq> None"
proof -
  obtain st where up: "upsert_cache 5020 (rom_key sample_rom) (rom_to_json sample_rom) None (Some ''/nes/a.nes'') logged_in = Inr st"
    using upsert_plain_total [OF rom_key_plain] by blast
  have "rom_from_json (rom_to_json sample_rom) = Some sample_rom" by (rule rom_json_round_trip) code_simp
  moreover have "\<exists>e. get_cache st (rom_key sample_rom) = Some e \<and> ce_body e = rom_to_json sample_rom"
    using upsert_then_get' [OF sample_credentials(2) up] by auto
  ultimately show ?thesis using up logged_in_facts(4)
    by (auto simp: enqueue_def rom_write_def sample_rom_def queue_get_def)
qed

lemma sample_run_result:
  "\<exists>r s. sample_run (\<lambda>_ _. False) = Some (Inr r, s) \<and> br_queued r = 1 \<and>
     bs_results s = [(''/r/nes/b.nes'', ResultFail), (''/r/nes/a.nes'', ResultQueued)]"
  "\<exists>r s. sample_run (\<lambda>i _. i \<ge> 1) = Some (Inr r, s) \<and> bs_polls s = 3"
proof -
  obtain st where st: "enqueue 5020 sample_rom logged_in = Inr (True, st)" "queue_get st (rom_key sample_rom) \<noteq> None"
    using sample_enqueued by blast
  have names: "normalize_cached_rom_path ''/r/nes/a.nes'' = ''/nes/a.nes''" "path_name ''/r/nes/a.nes'' = ''a.nes''"
    by code_simp+
  have "enqueue_rom_if_needed 5020 ''ab'' [] [] ''/r/nes/a.nes'' logged_in = Inr (Some (sample_rom, True), st)"
    using st(1) by (simp add: enqueue_rom_if_needed_def logged_in_facts names sample_rom_def del: local_game_id_answer.simps)
  then have h: "hash_path (sample_bulk a) [] ''/r/nes/a.nes'' s = (None, s\<lparr>bs_store := st, bs_waiting := [(rom_key sample_rom, [''/r/nes/a.nes''])],
      bs_queued_run := [rom_key sample_rom]\<rparr>)"
    if "bs_store s = logged_in" "wall_now (bs_net s) = 5020" "bs_waiting s = []" "bs_queued_run s = []" for s a
    using that by (simp add: hash_path_def sample_bulk_def)
  note defs = sample_run_def sample_paths_def run_cache_paths_def sample_credentials logged_in_facts poll_def bulk_start_def
    begin_path_def sleep_def wall_now_def sample_fields h first_batch_def end_run_def leftover_def st(2)
  show "\<exists>r s. sample_run (\<lambda>_ _. False) = Some (Inr r, s) \<and> br_queued r = 1 \<and>
      bs_results s = [(''/r/nes/b.nes'', ResultFail), (''/r/nes/a.nes'', ResultQueued)]"
    by (simp add: defs) (simp add: defs hash_path_def skip_path_def rom_result_def)
  show "\<exists>r s. sample_run (\<lambda>i _. i \<ge> 1) = Some (Inr r, s) \<and> bs_polls s = 3"
    by (simp add: defs) (simp add: Let_def)
qed

theorem each_path_reported_once_witness:
  "\<exists>r s. sample_run (\<lambda>_ _. False) = Some (Inr r, s) \<and> br_queued r = 1 \<and> br_scanned r = 2 \<and>
     reported_paths s = {#''/r/nes/a.nes'', ''/r/nes/b.nes''#} \<and> queued_results (bs_results s) = 1"
proof -
  obtain r s where run: "sample_run (\<lambda>_ _. False) = Some (Inr r, s)" "br_queued r = 1"
    using sample_run_result(1) by blast
  show ?thesis
    using run each_path_reported_once [of 4 "sample_bulk (\<lambda>_ _. False)" sample_paths False "empty_store True" idle_net r s]
    by (simp add: sample_run_def sample_bulk_def sample_paths_def called_off_def)
qed

theorem aborted_run_leaves_cache_witness:
  "\<exists>r s. sample_run (\<lambda>i _. i \<ge> 1) = Some (Inr r, s) \<and> get_cache (bs_store s) (rom_key sample_rom) = None"
proof -
  obtain r s where run: "sample_run (\<lambda>i _. i \<ge> 1) = Some (Inr r, s)" "bs_polls s = 3"
    using sample_run_result(2) by blast
  show ?thesis
    using run sample_credentials logged_in_facts(4) aborted_run_leaves_cache [of 4 "sample_bulk (\<lambda>i _. i \<ge> 1)" sample_paths "empty_store True" idle_net r s
        "\<lparr>cr_user = ''bob'', cr_token = ''t''\<rparr>" logged_in "rom_key sample_rom"]
    by (simp add: sample_run_def sample_paths_def) (simp add: sample_bulk_def called_off_def)
qed

end
