(* ===== verification/File_Walk.thy ===== *)
theory File_Walk
  imports Rom_Lookup "HOL-Library.Multiset"
begin

text \<open>
  The files of a directory that may be ROMs (rom_browser.py, lines 191-265 and 345-356).  A directory is
  what iterdir answers for its path: None when that raises, else its entries with whether they are
  directories, links followed; so a link may lead back to a directory above.  The extensions of ROMs are
  those of the native hasher, a parameter.
\<close>

record dir_entry =
  dn_name :: string
  dn_is_dir :: bool

type_synonym disk = "string \<Rightarrow> dir_entry list option"

definition MAX_SCAN_ENTRIES :: int where "MAX_SCAN_ENTRIES = 5000"
definition MAX_SCAN_DEPTH :: nat where "MAX_SCAN_DEPTH = 12"
definition EXCLUDED_BROWSER_DIR_NAMES :: "string list" where "EXCLUDED_BROWSER_DIR_NAMES = [''Imgs'']"
definition SUPPORTED_ARCHIVE_EXTENSIONS :: "string list" where "SUPPORTED_ARCHIVE_EXTENSIONS = [''.zip'', ''.7z'']"

definition join_path :: "string \<Rightarrow> string \<Rightarrow> string" where
  "join_path d n = (if d \<noteq> [] \<and> last d = CHR ''/'' then d @ n else d @ ''/'' @ n)"

definition is_supported_browser_file :: "string list \<Rightarrow> string \<Rightarrow> bool" where
  "is_supported_browser_file extensions p =
     (let suffix = lower (path_suffix p) in suffix \<in> set extensions \<or> suffix \<in> set SUPPORTED_ARCHIVE_EXTENSIONS)"

definition browser_order :: "dir_entry list \<Rightarrow> dir_entry list" where
  "browser_order = sort_key (\<lambda>e. (\<not> dn_is_dir e, lower (dn_name e)))"

definition hidden :: "dir_entry \<Rightarrow> bool" where
  "hidden e = starts_with ''.'' (dn_name e)"

section \<open>One directory\<close>

text \<open>Directories first; a raise of iterdir leaves the function.\<close>

definition list_browser_entries_fast :: "string list \<Rightarrow> disk \<Rightarrow> string \<Rightarrow> (string \<times> bool) list res" where
  "list_browser_entries_fast extensions disk d = (case disk d of
       None \<Rightarrow> Inl FileError
     | Some entries \<Rightarrow>
        (let seen = filter (\<lambda>e. \<not> hidden e) (browser_order entries)
         in Inr (map (\<lambda>e. (join_path d (dn_name e), True))
                   (filter (\<lambda>e. dn_is_dir e \<and> dn_name e \<notin> set EXCLUDED_BROWSER_DIR_NAMES) seen) @
                 map (\<lambda>e. (join_path d (dn_name e), False))
                   (filter (\<lambda>e. \<not> dn_is_dir e \<and> is_supported_browser_file extensions (join_path d (dn_name e))) seen))))"

definition list_browser_files_fast :: "string list \<Rightarrow> disk \<Rightarrow> string \<Rightarrow> string list res" where
  "list_browser_files_fast extensions disk d =
     bind_res (list_browser_entries_fast extensions disk d) (\<lambda>es. Inr (map fst (filter (\<lambda>e. \<not> snd e) es)))"

section \<open>A directory and what is below it\<close>

text \<open>The inner loop over the entries: the result so far and the stack of directories to visit.\<close>

fun walk_entries ::
  "string list \<Rightarrow> int \<Rightarrow> string \<Rightarrow> nat \<Rightarrow> dir_entry list \<Rightarrow> string list \<Rightarrow> (string \<times> nat) list \<Rightarrow> string list \<times> (string \<times> nat) list" where
  "walk_entries extensions cap d depth [] result stack = (result, stack)"
| "walk_entries extensions cap d depth (e # es) result stack =
     (if int (length result) \<ge> cap then (result, stack)
      else if hidden e then walk_entries extensions cap d depth es result stack
      else if dn_is_dir e then
        walk_entries extensions cap d depth es result
          (if dn_name e \<notin> set EXCLUDED_BROWSER_DIR_NAMES \<and> depth < MAX_SCAN_DEPTH
           then (join_path d (dn_name e), depth + 1) # stack else stack)
      else walk_entries extensions cap d depth es
        (if is_supported_browser_file extensions (join_path d (dn_name e)) then result @ [join_path d (dn_name e)] else result) stack)"

lemma walk_entries_stack:
  "walk_entries extensions cap d depth es result stack = (result', stack') \<Longrightarrow>
   \<exists>new. stack' = new @ stack \<and> (\<forall>x \<in> set new. snd x = depth + 1 \<and> depth < MAX_SCAN_DEPTH)"
  by (induction extensions cap d depth es result stack rule: walk_entries.induct) (auto split: if_splits)

text \<open>The stack with its top first.  Each turn replaces a directory by directories one level deeper, and
  none is deeper than the limit, so the loop ends even when links form a cycle.\<close>

definition room :: "(string \<times> nat) list \<Rightarrow> nat multiset" where
  "room stack = mset (map (\<lambda>x. Suc MAX_SCAN_DEPTH - snd x) stack)"

lemma room_less:
  assumes "walk_entries extensions cap d depth es result stack = (result', stack')"
  shows "(room stack', room ((d, depth) # stack)) \<in> mult less_than"
proof -
  obtain new where new: "stack' = new @ stack" "\<forall>x \<in> set new. snd x = depth + 1 \<and> depth < MAX_SCAN_DEPTH"
    using walk_entries_stack [OF assms] by blast
  have r: "room stack' = room stack + mset (map (\<lambda>x. Suc MAX_SCAN_DEPTH - snd x) new)"
    "room ((d, depth) # stack) = room stack + {#Suc MAX_SCAN_DEPTH - depth#}"
    by (simp_all add: room_def new(1))
  show ?thesis unfolding r by (rule one_step_implies_mult) (use new(2) in auto)
qed

function walk :: "string list \<Rightarrow> disk \<Rightarrow> int \<Rightarrow> string list \<Rightarrow> (string \<times> nat) list \<Rightarrow> string list" where
  "walk extensions disk cap result [] = result"
| "walk extensions disk cap result ((d, depth) # stack) =
     (if int (length result) \<ge> cap then result
      else case disk d of
        None \<Rightarrow> walk extensions disk cap result stack
      | Some entries \<Rightarrow>
         (case walk_entries extensions cap d depth (browser_order entries) result stack of
            (result', stack') \<Rightarrow> walk extensions disk cap result' stack'))"
  by pat_completeness auto
termination
proof (relation "inv_image (mult less_than) (\<lambda>(extensions, disk, cap, result, stack). room stack)")
  show "wf (inv_image (mult less_than) (\<lambda>(extensions, disk, cap, result, stack). room stack))"
    by (intro wf_inv_image wf_mult wf_less_than)
  show "((extensions, disk, cap, result, stack), extensions, disk, cap, result, (d, depth) # stack)
      \<in> inv_image (mult less_than) (\<lambda>(extensions, disk, cap, result, stack). room stack)"
    for extensions :: "string list" and disk :: disk and cap :: int and result :: "string list" and d depth stack
    using room_less [of extensions cap d depth "[]" result stack] by simp
qed (auto split: prod.split dest: room_less)

definition list_scannable_files_recursive :: "string list \<Rightarrow> disk \<Rightarrow> string \<Rightarrow> string list" where
  "list_scannable_files_recursive extensions disk root = walk extensions disk MAX_SCAN_ENTRIES [] [(root, 0)]"

section \<open>What the walk finds\<close>

text \<open>The files in a directory and below, to a depth: first its own, then those of its directories from the
  last to the first.\<close>

definition files_in :: "string list \<Rightarrow> string \<Rightarrow> dir_entry list \<Rightarrow> string list" where
  "files_in extensions d es = filter (is_supported_browser_file extensions)
     (map (\<lambda>e. join_path d (dn_name e)) (filter (\<lambda>e. \<not> hidden e \<and> \<not> dn_is_dir e) es))"

definition dirs_in :: "string \<Rightarrow> dir_entry list \<Rightarrow> string list" where
  "dirs_in d es = map (\<lambda>e. join_path d (dn_name e))
     (filter (\<lambda>e. \<not> hidden e \<and> dn_is_dir e \<and> dn_name e \<notin> set EXCLUDED_BROWSER_DIR_NAMES) es)"

fun files_below :: "string list \<Rightarrow> disk \<Rightarrow> nat \<Rightarrow> string \<Rightarrow> string list" where
  "files_below extensions disk levels d = (case disk d of
       None \<Rightarrow> []
     | Some entries \<Rightarrow> files_in extensions d (browser_order entries) @
         (case levels of 0 \<Rightarrow> []
          | Suc n \<Rightarrow> concat (map (files_below extensions disk n) (rev (dirs_in d (browser_order entries))))))"

declare files_below.simps [simp del]

definition files_of_stack :: "string list \<Rightarrow> disk \<Rightarrow> (string \<times> nat) list \<Rightarrow> string list" where
  "files_of_stack extensions disk stack = concat (map (\<lambda>(d, depth). files_below extensions disk (MAX_SCAN_DEPTH - depth) d) stack)"

definition below :: "string \<Rightarrow> nat \<Rightarrow> dir_entry list \<Rightarrow> (string \<times> nat) list" where
  "below d depth es = (if depth < MAX_SCAN_DEPTH then map (\<lambda>p. (p, depth + 1)) (rev (dirs_in d es)) else [])"

lemma files_in_Cons:
  "files_in extensions d (e # es) =
    (if \<not> hidden e \<and> \<not> dn_is_dir e \<and> is_supported_browser_file extensions (join_path d (dn_name e))
     then [join_path d (dn_name e)] else []) @ files_in extensions d es"
  by (simp add: files_in_def)

lemma below_Cons:
  "below d depth (e # es) = below d depth es @
    (if \<not> hidden e \<and> dn_is_dir e \<and> dn_name e \<notin> set EXCLUDED_BROWSER_DIR_NAMES \<and> depth < MAX_SCAN_DEPTH
     then [(join_path d (dn_name e), depth + 1)] else [])"
  by (simp add: below_def dirs_in_def)

lemma walk_entries_exact:
  assumes "walk_entries extensions (int cap) d depth es result stack = (result', stack')" "length result \<le> cap"
  shows "result' = take cap (result @ files_in extensions d es) \<and> (length result' < cap \<longrightarrow> stack' = below d depth es @ stack)"
  using assms
proof (induction es arbitrary: result stack)
  case Nil
  then show ?case by (auto simp: files_in_def below_def dirs_in_def)
next
  case (Cons e es)
  show ?case
  proof (cases "length result \<ge> cap")
    case True
    then show ?thesis using Cons.prems by auto
  next
    case False
    show ?thesis
    proof (cases "\<not> hidden e \<and> \<not> dn_is_dir e \<and> is_supported_browser_file extensions (join_path d (dn_name e))")
      case True
      then have "walk_entries extensions (int cap) d depth es (result @ [join_path d (dn_name e)]) stack = (result', stack')"
        using Cons.prems(1) False by simp
      from Cons.IH [OF this] False True show ?thesis by (simp add: files_in_Cons below_Cons)
    next
      case other: False
      then show ?thesis using Cons.prems Cons.IH False
        by (auto simp: files_in_Cons below_Cons split: if_splits)
    qed
  qed
qed

lemma files_of_below:
  "disk d = Some entries \<Longrightarrow> depth \<le> MAX_SCAN_DEPTH \<Longrightarrow>
   files_of_stack extensions disk (below d depth (browser_order entries)) =
     (case MAX_SCAN_DEPTH - depth of 0 \<Rightarrow> []
      | Suc n \<Rightarrow> concat (map (files_below extensions disk n) (rev (dirs_in d (browser_order entries)))))"
  by (auto simp: files_of_stack_def below_def o_def split: nat.split intro!: arg_cong [where f = concat] map_cong)
    (metis Suc_diff_Suc diff_Suc_Suc diff_Suc_1 less_or_eq_imp_le)+

lemma walk_full: "cap \<le> length result \<Longrightarrow> walk extensions disk (int cap) result stack = result"
  by (cases "(extensions, disk, int cap, result, stack)" rule: walk.cases) auto

lemma walk_exact:
  "length result \<le> cap \<Longrightarrow> \<forall>x \<in> set stack. snd x \<le> MAX_SCAN_DEPTH \<Longrightarrow>
   walk extensions disk (int cap) result stack = take cap (result @ files_of_stack extensions disk stack)"
proof (induction extensions disk "int cap" result stack rule: walk.induct)
  case (2 extensions disk result d depth stack)
  show ?case
  proof (cases "length result \<ge> cap")
    case True
    then show ?thesis using 2(3) by simp
  next
    case False
    show ?thesis
    proof (cases "disk d")
      case None
      then show ?thesis using 2 False by (simp add: files_of_stack_def files_below.simps)
    next
      case (Some entries)
      obtain result' stack' where w: "walk_entries extensions (int cap) d depth (browser_order entries) result stack = (result', stack')"
        by fastforce
      note x = walk_entries_exact [OF w 2(3)]
      have le: "length result' \<le> cap" using x by simp
      show ?thesis
      proof (cases "length result' < cap")
        case full: False
        then have "result' = take cap (result @ files_in extensions d (browser_order entries))" "walk extensions disk (int cap) result' stack' = result'"
          using x walk_full [of cap result'] by simp_all
        moreover have "length (result @ files_in extensions d (browser_order entries)) \<ge> cap" using full x by simp
        ultimately show ?thesis using False Some w
          by (simp add: files_of_stack_def files_below.simps [of extensions disk _ d])
      next
        case True
        then have r: "result' = result @ files_in extensions d (browser_order entries)" and st: "stack' = below d depth (browser_order entries) @ stack"
          using x by auto
        have deep: "\<forall>y \<in> set stack'. snd y \<le> MAX_SCAN_DEPTH" using 2(4) by (auto simp: st below_def)
        have "files_of_stack extensions disk stack' = files_of_stack extensions disk (below d depth (browser_order entries)) @ files_of_stack extensions disk stack"
          by (simp add: st files_of_stack_def)
        moreover have "files_of_stack extensions disk ((d, depth) # stack) = files_in extensions d (browser_order entries) @
            files_of_stack extensions disk (below d depth (browser_order entries)) @ files_of_stack extensions disk stack"
          using Some files_of_below [of disk d entries depth extensions] 2(4) by (simp add: files_of_stack_def files_below.simps [of extensions disk _ d])
        ultimately show ?thesis using "2.hyps"(2) [OF _ Some w [symmetric] le deep] False Some w by (simp add: r)
      qed
    qed
  qed
qed (simp add: files_of_stack_def)

lemma scan_files:
  "list_scannable_files_recursive extensions disk root = take (nat MAX_SCAN_ENTRIES) (files_below extensions disk MAX_SCAN_DEPTH root)"
  using walk_exact [of "[]" "nat MAX_SCAN_ENTRIES" "[(root, 0)]"]
  by (simp add: list_scannable_files_recursive_def files_of_stack_def MAX_SCAN_ENTRIES_def)

text \<open>The scan of a folder ends, links in a circle included, and lists exactly the visible files with a known
  extension down to the deepest level, outside excluded and hidden directories, in the order of a recursive
  walk and cut off at the limit of entries.\<close>

theorem scan_lists_files_below:
  "list_scannable_files_recursive extensions disk root = take (nat MAX_SCAN_ENTRIES) (files_below extensions disk MAX_SCAN_DEPTH root)"
  by (rule scan_files)

end
