(* ===== verification/Watch_Folders.thy ===== *)
theory Watch_Folders
  imports Bulk_Laws File_Walk
begin

text \<open>
  The watched folders (watch_folders.py): the list in the settings, the time of each folder's last complete
  scan, the markers of the files that are handled, and a scan, which hashes and queues the files without
  a marker.  The settings are their parsed value; expanding a path and the look at the disk are parameters.
\<close>

definition RESCAN_INTERVAL_MS :: int where "RESCAN_INTERVAL_MS = CACHE_BUDGET_WINDOW_MS"

record folder_scan =
  fs_folder :: string
  fs_files :: int
  fs_new :: int
  fs_handled :: int
  fs_queued :: int

definition scan_complete :: "folder_scan \<Rightarrow> bool" where
  "scan_complete s = (fs_handled s = fs_new s)"

section \<open>The list of folders\<close>

definition watched_folders :: "json \<Rightarrow> string list" where
  "watched_folders config = (case field ''watched_folders'' JNull config of
       JList vs \<Rightarrow> List.map_filter full_text vs | _ \<Rightarrow> [])"

definition configured_watched_folders :: "string option \<Rightarrow> string list" where
  "configured_watched_folders text = (case text of
       None \<Rightarrow> []
     | Some t \<Rightarrow> (case loads t of Inl _ \<Rightarrow> [] | Inr data \<Rightarrow> if is_obj data then watched_folders data else []))"

definition with_folders :: "string list \<Rightarrow> json \<Rightarrow> json" where
  "with_folders fs config = set_field ''watched_folders'' (JList (map JStr fs)) config"

text \<open>The settings are saved when the answer is True.\<close>

definition watch_folder :: "(string \<Rightarrow> string) \<Rightarrow> string \<Rightarrow> json \<Rightarrow> bool \<times> json" where
  "watch_folder norm path config =
     (let folder = norm path; folders = watched_folders config in
      if folder \<in> set folders then (False, config) else (True, with_folders (folders @ [folder]) config))"

section \<open>The last scans\<close>

definition scan_time :: "string \<times> json \<Rightarrow> (string \<times> int) option res" where
  "scan_time kv = (case snd kv of
       JInt i \<Rightarrow> Inr (Some (fst kv, i))
     | JBool b \<Rightarrow> Inr (Some (fst kv, if b then 1 else 0))
     | JFloat s \<Rightarrow> bind_res (py_int_of (JFloat s)) (\<lambda>i. Inr (Some (fst kv, i)))
     | _ \<Rightarrow> Inr None)"

definition last_scans :: "store \<Rightarrow> (string \<times> int) list res" where
  "last_scans st = (case get_cache st key_watch_scans of
       None \<Rightarrow> Inr []
     | Some e \<Rightarrow> (case loads (ce_body e) of
          Inr (JObj kvs) \<Rightarrow> bind_res (map_res scan_time kvs) (\<lambda>ts. Inr (List.map_filter id ts))
        | _ \<Rightarrow> Inr []))"

definition scans_json :: "(string \<times> int) list \<Rightarrow> string" where
  "scans_json scans = dumps (JObj (map (\<lambda>(f, t). (f, JInt t)) scans))"

definition record_scan :: "int \<Rightarrow> string \<Rightarrow> int \<Rightarrow> store \<Rightarrow> store res" where
  "record_scan clock folder at st = bind_res (last_scans st) (\<lambda>scans.
     upsert_cache clock key_watch_scans (scans_json (AList.update folder at scans)) None None st)"

definition forget_scan :: "int \<Rightarrow> string \<Rightarrow> store \<Rightarrow> store res" where
  "forget_scan clock folder st = bind_res (last_scans st) (\<lambda>scans.
     if map_of scans folder = None then Inr st
     else upsert_cache clock key_watch_scans (scans_json (AList.delete folder scans)) None None st)"

definition due_folders :: "(string \<Rightarrow> bool) \<Rightarrow> store \<Rightarrow> string list \<Rightarrow> int \<Rightarrow> string list res" where
  "due_folders is_dir st folders now = bind_res (last_scans st) (\<lambda>scans.
     Inr (filter (\<lambda>f. is_dir f \<and> now - (case map_of scans f of None \<Rightarrow> 0 | Some t \<Rightarrow> t) \<ge> RESCAN_INTERVAL_MS) folders))"

section \<open>The markers of handled files\<close>

definition rstrip_chars :: "char list \<Rightarrow> string \<Rightarrow> string" where
  "rstrip_chars cs s = rev (dropWhile (\<lambda>c. c \<in> set cs) (rev s))"

definition folder_prefix :: "bool \<Rightarrow> string \<Rightarrow> string" where
  "folder_prefix windows folder =
     (if windows then rstrip_chars [backslash, CHR ''/''] folder @ [backslash] else rstrip_chars ''/'' folder @ ''/'')"

definition seen_paths :: "bool \<Rightarrow> store \<Rightarrow> string \<Rightarrow> string list" where
  "seen_paths windows st folder =
     (let prefix = watch_seen_key (folder_prefix windows folder)
      in map (drop (length prefix_watch_seen)) (filter (starts_with prefix) (cache_keys_by_prefix st prefix)))"

definition mark_seen :: "int \<Rightarrow> string list \<Rightarrow> store \<Rightarrow> store res" where
  "mark_seen clock paths st = fold_res (\<lambda>p. upsert_cache clock (watch_seen_key p) ''{}'' None None) paths st"

definition forget_seen :: "string list \<Rightarrow> store \<Rightarrow> store" where
  "forget_seen paths st = fold (\<lambda>p. delete_cache (watch_seen_key p)) paths st"

definition unwatch_folder ::
  "bool \<Rightarrow> (string \<Rightarrow> string) \<Rightarrow> int \<Rightarrow> string \<Rightarrow> json \<Rightarrow> store \<Rightarrow> (bool \<times> json \<times> store) res" where
  "unwatch_folder windows norm clock path config st =
     (let folder = norm path; folders = watched_folders config;
          st1 = forget_seen (seen_paths windows st folder) st
      in bind_res (forget_scan clock folder st1) (\<lambda>st2.
         Inr (if folder \<notin> set folders then (False, config, st2)
              else (True, with_folders (filter (\<lambda>f. f \<noteq> folder) folders) config, st2))))"

section \<open>A scan\<close>

record watch_env =
  we_bulk :: bulk_env
  we_windows :: bool
  we_extensions :: "string list"
  we_disk :: disk

text \<open>The paths of the files as the code writes them.  The disk names a directory with slashes on every system;
  on Windows a path is read with both separators and written with backslashes.\<close>

definition to_slashes :: "string \<Rightarrow> string" where
  "to_slashes = map (\<lambda>c. if c = backslash then CHR ''/'' else c)"

definition to_backslashes :: "string \<Rightarrow> string" where
  "to_backslashes = map (\<lambda>c. if c = CHR ''/'' then backslash else c)"

definition listed_paths :: "watch_env \<Rightarrow> string \<Rightarrow> string list" where
  "listed_paths env folder =
     (if we_windows env
      then map to_backslashes (list_scannable_files_recursive (we_extensions env) (we_disk env) (to_slashes folder))
      else list_scannable_files_recursive (we_extensions env) (we_disk env) folder)"

definition scan_new :: "watch_env \<Rightarrow> string \<Rightarrow> store \<Rightarrow> string list \<times> string list" where
  "scan_new env folder st =
     (let unseen = filter (\<lambda>p. p \<notin> set (seen_paths (we_windows env) st folder)) (listed_paths env folder)
      in partition (\<lambda>p. normalize_cached_rom_path p \<in> known_rom_paths st) unseen)"

definition end_scan :: "watch_env \<Rightarrow> string \<Rightarrow> store \<Rightarrow> int \<Rightarrow> bulk_result \<Rightarrow> bulk_state \<Rightarrow> folder_scan res \<times> store \<times> net_state" where
  "end_scan env folder st0 new r s =
     (let files = listed_paths env folder;
          handled = map fst (bs_results s); clock = wall_now (bs_net s);
          gone = filter (\<lambda>p. p \<notin> set files) (seen_paths (we_windows env) st0 folder)
      in case mark_seen clock handled (bs_store s) of
           Inl e \<Rightarrow> (Inl e, bs_store s, bs_net s)
         | Inr st1 \<Rightarrow>
            (let st2 = (if int (length files) < MAX_SCAN_ENTRIES then forget_seen gone st1 else st1);
                 scan = \<lparr>fs_folder = folder, fs_files = int (length files), fs_new = new,
                         fs_handled = int (length handled), fs_queued = br_queued r\<rparr>
             in if \<not> scan_complete scan then (Inr scan, st2, bs_net s)
                else (case record_scan clock folder clock st2 of
                        Inl e \<Rightarrow> (Inl e, st2, bs_net s)
                      | Inr st3 \<Rightarrow> (Inr scan, st3, bs_net s))))"

definition scan_folder :: "watch_env \<Rightarrow> string \<Rightarrow> store \<Rightarrow> net_state \<Rightarrow> folder_scan res \<times> store \<times> net_state" where
  "scan_folder env folder st n = (case scan_new env folder st of (known, new) \<Rightarrow>
     case mark_seen (wall_now n) known st of
       Inl e \<Rightarrow> (Inl e, st, n)
     | Inr st1 \<Rightarrow>
        (case run_cache_paths 0 (we_bulk env) new False st1 n of
           None \<Rightarrow> (Inl RuntimeError, st1, n)
         | Some (Inl e, s) \<Rightarrow> (Inl e, bs_store s, bs_net s)
         | Some (Inr r, s) \<Rightarrow> end_scan env folder st (int (length new)) r s))"

section \<open>Which files have a marker\<close>

text \<open>The markers read for a folder are those of the paths below it and of no other folder, whatever the
  letters of its name mean to the LIKE operator.\<close>

theorem seen_paths_exact:
  "p \<in> set (seen_paths windows st folder) \<longleftrightarrow>
     get_cache st (watch_seen_key p) \<noteq> None \<and> starts_with (folder_prefix windows folder) p"
proof -
  have k: "starts_with (watch_seen_key x) k \<longleftrightarrow> (\<exists>q. k = watch_seen_key q \<and> starts_with x q)" for x k
    by (auto simp: watch_seen_key_def starts_with_iff)
  have d: "drop (length prefix_watch_seen) (watch_seen_key q) = q" for q by (simp add: watch_seen_key_def)
  have "p \<in> set (seen_paths windows st folder) \<longleftrightarrow>
      watch_seen_key p \<in> ce_key ` set (api_cache st) \<and> starts_with (folder_prefix windows folder) p"
  proof
    assume "p \<in> set (seen_paths windows st folder)"
    then obtain key where "p = drop (length prefix_watch_seen) key" "key \<in> ce_key ` set (api_cache st)"
      "starts_with (watch_seen_key (folder_prefix windows folder)) key"
      by (auto simp: seen_paths_def Let_def cache_keys_by_prefix_def)
    then show "watch_seen_key p \<in> ce_key ` set (api_cache st) \<and> starts_with (folder_prefix windows folder) p"
      unfolding k using d by force
  next
    assume a: "watch_seen_key p \<in> ce_key ` set (api_cache st) \<and> starts_with (folder_prefix windows folder) p"
    then have s: "starts_with (watch_seen_key (folder_prefix windows folder)) (watch_seen_key p)" unfolding k by auto
    have "watch_seen_key p \<in> set (filter (starts_with (watch_seen_key (folder_prefix windows folder)))
        (cache_keys_by_prefix st (watch_seen_key (folder_prefix windows folder))))"
      using a s key_match_starts [OF s, of st] by (simp add: cache_keys_by_prefix_def)
    then show "p \<in> set (seen_paths windows st folder)"
      unfolding seen_paths_def Let_def set_map using d [of p] by (metis rev_image_eqI)
  qed
  then show ?thesis unfolding get_cache_None by simp
qed

end
