(* ===== verification/Bulk_Frame.thy ===== *)
theory Bulk_Frame
  imports Bulk_Laws
begin

text \<open>
  What a bulk run leaves of the store, for any relation that survives the writes it makes: those of the
  drain, the login, and the queue.
\<close>

locale bulk_frame = drain_frame +
  assumes ok_login [simp]: "ok_key (login_key u)"
begin

lemma login: "login_and_cache_token net host fb clock p agent tag st = Inr (r, st') \<Longrightarrow> frame st st'"
  by (auto simp: login_and_cache_token_def Let_def res_simps intro: upsert split: reply.splits sum.splits if_splits)

lemma resolve:
  assumes "resolve_credentials net host fb clock ts ps agent tag st = Inr (r, st')"
  shows "frame st st'"
proof (cases "first_some ts")
  case (Some c)
  then show ?thesis using assms
    by (auto simp: resolve_credentials_def cache_token_credentials_def res_simps intro: upsert split: if_splits)
next
  case None
  have "st' = st \<or> (\<exists>p n. login_and_cache_token net host fb clock p agent tag st = Inr (n, st'))"
    using assms(1) None
    by (cases "first_some ps"; cases "load_login_credentials st")
      (auto simp: resolve_credentials_def Let_def bind_res_def split: option.splits if_splits sum.splits)
  then show ?thesis using login refl by blast
qed

lemma credentials: "bulk_credentials env agent st n = Inr (r, st') \<Longrightarrow> frame st st'"
  unfolding bulk_credentials_def by (rule resolve)

lemma enqueued: "enqueue t r st = Inr (added, st') \<Longrightarrow> frame st st'"
  by (auto simp: enqueue_def rom_write_def res_simps intro: upsert split: if_splits)

lemma hash:
  assumes "hash_path env known p s = (e, s')" shows "frame (bs_store s) (bs_store s')"
proof -
  have "frame (bs_store s) st" if "enqueue_rom_if_needed t h hs known p (bs_store s) = Inr (x, st)" for t h hs x st
    using enqueue_if_needed_cases [OF that] enqueued by (cases x) auto
  then show ?thesis using assms
    by (auto simp: hash_path_def skip_path_def rom_result_def split: sum.splits list.splits option.splits prod.splits if_splits)
qed

lemma hash_all: "hash_paths env known tot ps s = (e, s') \<Longrightarrow> frame (bs_store s) (bs_store s')"
proof (induction ps arbitrary: s)
  case (Cons p ps)
  obtain e2 s2 where h: "hash_path env known p (begin_path env tot p (s\<lparr>bs_polls := bs_polls s + 1\<rparr>)) = (e2, s2)" by fastforce
  then have "frame (bs_store s) (bs_store s2)" using hash [OF h] by (simp add: begin_path_def)
  then show ?case using Cons h trans
    by (auto simp: poll_def split: bool.splits option.splits)
qed simp

lemma remove_keys: "set ks \<subseteq> range rom_key \<Longrightarrow> frame st (queue_remove_keys ks st)"
  unfolding queue_remove_keys_def
proof (induction ks arbitrary: st)
  case (Cons k ks)
  have "frame st (delete_cache k st)" using Cons.prems by (auto intro: erase)
  moreover have "frame (delete_cache k st) (fold delete_cache ks (delete_cache k st))" using Cons by simp
  ultimately show ?case using trans by simp
qed simp

lemma first:
  assumes "first_batch fuel env c agent now s = Some (e, s')" "now \<Longrightarrow> (\<And>t s. frame s (de_meanwhile (bk_drain env) t s))"
  shows "frame (bs_store s) (bs_store s')"
proof -
  have "frame (bs_store s) (ds_store (state_of r))"
    if "now" "drain_cache_queue fuel (bk_drain env) c agent ks (bs_store s) n = Some r" for ks n r
    using drain [OF that(2) assms(2) [OF that(1)]] .
  then show ?thesis using assms(1)
    by (force simp: first_batch_def poll_def take_drained_def split: if_splits option.splits drain_next.splits)
qed

end

lemma queued_run_hash: "hash_path env known p s = (e, s') \<Longrightarrow> set (bs_queued_run s') \<subseteq> set (bs_queued_run s) \<union> range rom_key"
  by (auto simp: hash_path_def skip_path_def rom_result_def split: sum.splits list.splits option.splits prod.splits if_splits)

lemma queued_run_paths:
  "hash_paths env known tot ps s = (e, s') \<Longrightarrow> set (bs_queued_run s') \<subseteq> set (bs_queued_run s) \<union> range rom_key"
proof (induction ps arbitrary: s)
  case (Cons p ps)
  obtain e2 s2 where h: "hash_path env known p (begin_path env tot p (s\<lparr>bs_polls := bs_polls s + 1\<rparr>)) = (e2, s2)" by fastforce
  then have "set (bs_queued_run s2) \<subseteq> set (bs_queued_run s) \<union> range rom_key"
    using queued_run_hash [OF h] by (simp add: begin_path_def)
  then show ?case using Cons h by (fastforce simp: poll_def split: bool.splits option.splits)
qed simp

lemma queued_run_first: "first_batch fuel env c agent now s = Some (e, s') \<Longrightarrow> bs_queued_run s' = bs_queued_run s"
  by (auto simp: first_batch_def poll_def take_drained_def split: if_splits option.splits drain_next.splits)

context bulk_frame
begin

lemma last: "end_run env tot s = (r, s') \<Longrightarrow> set (bs_queued_run s) \<subseteq> range rom_key \<Longrightarrow> frame (bs_store s) (bs_store s')"
  using leftover_all remove_keys [of "bs_queued_run s" "bs_store s"]
  by (fastforce simp: end_run_def poll_def Let_def split: prod.splits if_splits)

lemma run:
  assumes "run_cache_paths fuel env ps now st n = Some (r, s)" "now \<Longrightarrow> (\<And>t s. frame s (de_meanwhile (bk_drain env) t s))"
  shows "frame st (bs_store s)"
proof (cases "ps = [] \<or> (\<exists>e. bulk_credentials env (bulk_agent env) st n = Inl e)")
  case True
  then show ?thesis using assms by (auto simp: run_cache_paths_def Let_def bulk_start_def split: if_splits)
next
  case False
  then obtain c st1 where c: "bulk_credentials env (bulk_agent env) st n = Inr (c, st1)"
    by (cases "bulk_credentials env (bulk_agent env) st n") auto
  have o1: "frame st st1" using credentials [OF c] .
  obtain e s1 where h: "hash_paths env (cached_game_ids st1) (int (length ps)) ps (bulk_start st1 n) = (e, s1)" by fastforce
  have o2: "frame st1 (bs_store s1)" using hash_all [OF h] by (simp add: bulk_start_def)
  have q1: "set (bs_queued_run s1) \<subseteq> range rom_key" using queued_run_paths [OF h] by (simp add: bulk_start_def)
  have o3: "frame (bs_store s1) (bs_store s2)" if "first_batch fuel env c0 (bulk_agent env) now s1 = Some (e2, s2)" for c0 e2 s2
    using first [OF that assms(2)] .
  have o4: "frame (bs_store s2) (bs_store s3)" if "first_batch fuel env c0 (bulk_agent env) now s1 = Some (e2, s2)"
    "end_run env tot s2 = (r2, s3)" for c0 e2 s2 tot r2 s3
    using last [OF that(2)] queued_run_first [OF that(1)] q1 by simp
  show ?thesis
  proof (cases c)
    case None
    then show ?thesis using assms(1) False c o1 by (auto simp: run_cache_paths_def Let_def bulk_start_def)
  next
    case (Some c0)
    then consider "s = s1" | e2 s2 where "first_batch fuel env c0 (bulk_agent env) now s1 = Some (e2, s2)" "s = s2"
      | e2 s2 r2 where "first_batch fuel env c0 (bulk_agent env) now s1 = Some (e2, s2)" "end_run env (int (length ps)) s2 = (r2, s)"
      using assms(1) False c h by (auto simp: run_cache_paths_def Let_def split: option.splits prod.splits)
    then show ?thesis
    proof cases
      case 1
      then show ?thesis using o1 o2 trans by blast
    next
      case 2
      then show ?thesis using o1 o2 o3 trans by blast
    next
      case 3
      show ?thesis using trans [OF trans [OF trans [OF o1 o2] o3 [OF 3(1)]] o4 [OF 3]] .
    qed
  qed
qed

end

end
