(* ===== verification/Watch_Laws.thy ===== *)
theory Watch_Laws
  imports Watch_Folders Bulk_Frame
begin

text \<open>
  A complete scan of a watched folder leaves a marker on every file it listed, so no later scan hashes one of
  them again.
\<close>

section \<open>What a bulk run leaves of the markers\<close>

definition other_keys :: "store \<Rightarrow> store \<Rightarrow> bool" where
  "other_keys st st' = (wf_store st \<longrightarrow> wf_store st' \<and> (\<forall>p. get_cache st' (watch_seen_key p) = get_cache st (watch_seen_key p)))"

lemma other_keys_refl [simp]: "other_keys st st"
  by (simp add: other_keys_def)

lemma other_keys_trans: "other_keys r s \<Longrightarrow> other_keys s t \<Longrightarrow> other_keys r t"
  by (auto simp: other_keys_def)

lemma other_keys_upsert:
  "upsert_cache t k b ca src st = Inr st' \<Longrightarrow> \<not> starts_with prefix_watch_seen k \<Longrightarrow> other_keys st st'"
  by (auto simp: other_keys_def wf_upsert_cache get_cache_upsert watch_seen_key_def)

lemma other_keys_delete: "\<not> starts_with prefix_watch_seen k \<Longrightarrow> other_keys st (delete_cache k st)"
  by (auto simp: other_keys_def wf_deletes get_cache_delete watch_seen_key_def)

lemma not_seen_keys [simp]:
  "\<not> starts_with prefix_watch_seen (rom_key r)" "\<not> starts_with prefix_watch_seen (login_key u)"
  "\<not> starts_with prefix_watch_seen key_watch_scans" "\<not> starts_with prefix_watch_seen (patch_key g u)"
  "\<not> starts_with prefix_watch_seen (unlocks_key g u)" "\<not> starts_with prefix_watch_seen (start_session_key g u)"
  "\<not> starts_with prefix_watch_seen (achievementsets_key g u)" "\<not> starts_with prefix_watch_seen (game_id_key h)"
  "\<not> starts_with prefix_watch_seen key_cache_budget"
  by (simp_all add: rom_key_def cache_queue_key_def login_key_def patch_key_def unlocks_key_def start_session_key_def
      achievementsets_key_def game_id_key_def key_defs)

lemma queue_match_not_seen: "key_match st prefix_cache_queue k \<Longrightarrow> \<not> starts_with prefix_watch_seen k"
proof
  assume m: "key_match st prefix_cache_queue k" and "starts_with prefix_watch_seen k"
  then obtain t where "k = prefix_watch_seen @ t" by (auto simp: starts_with_iff)
  then have "no_queue_key k" by (intro no_queue_keyI) (simp add: key_defs lower_eval)
  then show False using m by (simp add: no_queue_key_def)
qed

interpretation other_keys_bulk: bulk_frame other_keys "\<lambda>k. \<not> starts_with prefix_watch_seen k"
  by unfold_locales (auto intro: other_keys_trans other_keys_upsert other_keys_delete dest: queue_match_not_seen)

lemmas other_keys_run = other_keys_bulk.run [where now = False, simplified]

section \<open>The paths below a folder\<close>

lemma rev_split: "s = rev (dropWhile P (rev s)) @ rev (takeWhile P (rev s))"
  by (simp only: rev_append [symmetric] takeWhile_dropWhile_id rev_rev_ident)

lemma starts_with_trans: "starts_with p q \<Longrightarrow> starts_with q s \<Longrightarrow> starts_with p s"
  by (auto simp: starts_with_iff)

lemma slashes_split: "\<exists>m. d = rstrip_chars ''/'' d @ replicate m CHR ''/''"
proof -
  let ?t = "takeWhile (\<lambda>c. c = CHR ''/'') (rev d)"
  have "rev ?t = replicate (length ?t) CHR ''/''"
    by (rule replicate_eqI) (auto dest: set_takeWhileD)
  moreover have "rstrip_chars ''/'' d = rev (dropWhile (\<lambda>c. c = CHR ''/'') (rev d))" by (simp add: rstrip_chars_def)
  ultimately show ?thesis using rev_split [of d "\<lambda>c. c = CHR ''/''"] by metis
qed

lemma join_path_split: "\<exists>t. join_path d n = rstrip_chars ''/'' d @ CHR ''/'' # t"
proof -
  obtain m where m: "d = rstrip_chars ''/'' d @ replicate m CHR ''/''" using slashes_split by blast
  show ?thesis
  proof (cases m)
    case 0
    then have r: "rstrip_chars ''/'' d = d" using m by simp
    have False if "d \<noteq> []" "last d = CHR ''/''"
    proof -
      have "hd (rev d) = CHR ''/''" "rev d \<noteq> []" using that by (simp_all add: hd_rev)
      then obtain xs where xs: "rev d = CHR ''/'' # xs" by (cases "rev d") auto
      have "length (rstrip_chars ''/'' d) \<le> length xs" by (simp add: rstrip_chars_def xs length_dropWhile_le)
      also have "length xs < length d" using arg_cong [OF xs, of length] by simp
      finally show False by (simp add: r)
    qed
    then show ?thesis by (auto simp: join_path_def r)
  next
    case (Suc k)
    then have m': "d = rstrip_chars ''/'' d @ CHR ''/'' # replicate k CHR ''/''" using m by simp
    have "last d = CHR ''/''" by (subst m') (simp add: last_replicate)
    moreover have "d \<noteq> []" by (subst m') simp
    ultimately have "join_path d n = d @ n" by (simp add: join_path_def)
    also have "\<dots> = rstrip_chars ''/'' d @ CHR ''/'' # (replicate k CHR ''/'' @ n)" by (subst m') simp
    finally show ?thesis by blast
  qed
qed

lemma folder_prefix_join:
  "starts_with (folder_prefix False d) (join_path d n)"
  "starts_with (folder_prefix False d) (folder_prefix False (join_path d n))"
proof -
  obtain t where t: "join_path d n = rstrip_chars ''/'' d @ CHR ''/'' # t" using join_path_split by blast
  show "starts_with (folder_prefix False d) (join_path d n)" by (simp add: t folder_prefix_def starts_with_iff)
  have "\<exists>u. rstrip_chars ''/'' (join_path d n) @ ''/'' = rstrip_chars ''/'' d @ CHR ''/'' # u"
  proof (cases "\<forall>c \<in> set t. c = CHR ''/''")
    case True
    then have "rstrip_chars ''/'' (join_path d n) = rstrip_chars ''/'' d"
      using dropWhile_append2 [of "rev t" "\<lambda>c. c = CHR ''/''" "CHR ''/'' # rev (rstrip_chars ''/'' d)"]
      by (simp add: t rstrip_chars_def dropWhile_idem)
    then show ?thesis by simp
  next
    case False
    then have "rstrip_chars ''/'' (join_path d n) = rstrip_chars ''/'' d @ CHR ''/'' # rstrip_chars ''/'' t"
      unfolding t by (auto simp: rstrip_chars_def dropWhile_append1)
    then show ?thesis by simp
  qed
  then show "starts_with (folder_prefix False d) (folder_prefix False (join_path d n))"
    by (auto simp: folder_prefix_def starts_with_iff)
qed

lemma files_below_prefix: "p \<in> set (files_below ext disk levels d) \<Longrightarrow> starts_with (folder_prefix False d) p"
proof (induction levels arbitrary: d)
  case 0
  then show ?case using folder_prefix_join(1) by (auto simp: files_below.simps [of ext disk 0] files_in_def split: option.splits)
next
  case (Suc n)
  then show ?case using folder_prefix_join starts_with_trans
    by (auto simp: files_below.simps [of ext disk "Suc n"] files_in_def dirs_in_def split: option.splits) blast
qed

lemma scanned_prefix:
  "p \<in> set (list_scannable_files_recursive ext disk folder) \<Longrightarrow> starts_with (folder_prefix False folder) p"
  unfolding scan_files by (rule files_below_prefix) (rule in_set_takeD)

text \<open>On Windows the folder is written with backslashes, as an absolute path is there.\<close>

definition proper_folder :: "watch_env \<Rightarrow> string \<Rightarrow> bool" where
  "proper_folder env folder = (we_windows env \<longrightarrow> CHR ''/'' \<notin> set folder)"

lemma dropWhile_map_commute: "(\<And>x. x \<in> set xs \<Longrightarrow> P (f x) \<longleftrightarrow> Q x) \<Longrightarrow> dropWhile P (map f xs) = map f (dropWhile Q xs)"
  by (induction xs) auto

lemma windows_prefix:
  assumes "CHR ''/'' \<notin> set folder"
  shows "to_backslashes (folder_prefix False (to_slashes folder)) = folder_prefix True folder"
proof -
  have "rstrip_chars ''/'' (to_slashes folder) = to_slashes (rstrip_chars [backslash, CHR ''/''] folder)"
    unfolding rstrip_chars_def to_slashes_def rev_map
    by (subst dropWhile_map_commute [where Q = "\<lambda>c. c \<in> set [backslash, CHR ''/'']"]) (auto simp: rev_map)
  moreover have "to_backslashes (to_slashes xs) = xs" if "CHR ''/'' \<notin> set xs" for xs
    using that by (auto simp: to_backslashes_def to_slashes_def intro!: map_idI)
  moreover have "CHR ''/'' \<notin> set (rstrip_chars [backslash, CHR ''/''] folder)"
    using assms set_dropWhileD by (fastforce simp: rstrip_chars_def)
  ultimately show ?thesis by (simp add: folder_prefix_def) (simp add: to_backslashes_def)
qed

lemma listed_prefix:
  assumes "p \<in> set (listed_paths env folder)" "proper_folder env folder"
  shows "starts_with (folder_prefix (we_windows env) folder) p"
proof (cases "we_windows env")
  case True
  then obtain q where q: "p = to_backslashes q" "q \<in> set (list_scannable_files_recursive (we_extensions env) (we_disk env) (to_slashes folder))"
    using assms(1) by (auto simp: listed_paths_def)
  obtain r where "q = folder_prefix False (to_slashes folder) @ r" using scanned_prefix [OF q(2)] by (auto simp: starts_with_iff)
  then have "p = to_backslashes (folder_prefix False (to_slashes folder)) @ to_backslashes r" by (simp add: q(1) to_backslashes_def)
  then show ?thesis using windows_prefix assms(2) True by (simp add: proper_folder_def starts_with_iff)
qed (use assms(1) scanned_prefix in \<open>simp add: listed_paths_def\<close>)

section \<open>Marking and forgetting\<close>

lemma mark_seen_cases:
  assumes "mark_seen clock ps st = Inr st'" "wf_store st"
  shows "wf_store st' \<and> (\<forall>k. get_cache st' k = None \<longleftrightarrow> get_cache st k = None \<and> k \<notin> watch_seen_key ` set ps)"
  using assms unfolding mark_seen_def
proof (induction ps arbitrary: st)
  case (Cons p ps)
  then obtain st1 where up: "upsert_cache clock (watch_seen_key p) ''{}'' None None st = Inr st1"
    and rest: "fold_res (\<lambda>p. upsert_cache clock (watch_seen_key p) ''{}'' None None) ps st1 = Inr st'"
    by (auto simp: res_simps)
  show ?case using Cons.IH [OF rest wf_upsert_cache [OF Cons.prems(2) up]] get_cache_upsert [OF Cons.prems(2) up] by auto
qed simp

lemma forget_seen_cases:
  "wf_store st \<Longrightarrow> wf_store (forget_seen ps st) \<and>
   get_cache (forget_seen ps st) k = (if k \<in> watch_seen_key ` set ps then None else get_cache st k)"
  unfolding forget_seen_def by (induction ps arbitrary: st) (auto simp: wf_deletes get_cache_delete)

lemma other_keys_record: "record_scan clock f t st = Inr st' \<Longrightarrow> other_keys st st'"
  by (auto simp: record_scan_def bind_res_def intro: other_keys_upsert split: sum.splits)

section \<open>The next scan\<close>

lemma watch_seen_inj [simp]: "watch_seen_key p = watch_seen_key q \<longleftrightarrow> p = q"
  by (simp add: watch_seen_key_def)

definition marked :: "store \<Rightarrow> string \<Rightarrow> bool" where
  "marked st p = (get_cache st (watch_seen_key p) \<noteq> None)"

lemma mark_seen_marked:
  assumes "mark_seen clock ps st = Inr st'" "wf_store st"
  shows "wf_store st' \<and> (\<forall>p. marked st' p \<longleftrightarrow> marked st p \<or> p \<in> set ps)"
  using mark_seen_cases [OF assms] by (simp add: marked_def image_iff)

lemma forget_seen_marked:
  "wf_store st \<Longrightarrow> wf_store (forget_seen ps st) \<and> (\<forall>p. marked (forget_seen ps st) p \<longleftrightarrow> marked st p \<and> p \<notin> set ps)"
  by (simp add: forget_seen_cases marked_def image_iff)

lemma all_handled:
  assumes "mset (map fst rs) \<subseteq># mset (take k ps)" "length rs = length ps"
  shows "set (map fst rs) = set ps"
proof -
  have "size (mset (map fst rs)) \<le> size (mset (take k ps))" using assms(1) by (rule size_mset_mono)
  then have "length (take k ps) = length ps" using assms(2) by simp
  then have t: "take k ps = ps" by (simp add: take_all_iff)
  have "mset (map fst rs) = mset ps"
  proof (rule ccontr)
    assume "mset (map fst rs) \<noteq> mset ps"
    then have "mset (map fst rs) \<subset># mset ps" using assms(1) t by (simp add: subset_mset.less_le)
    then have "size (mset (map fst rs)) < size (mset ps)" by (rule mset_subset_size)
    then show False using assms(2) by simp
  qed
  then show ?thesis by (rule mset_eq_setD)
qed

lemma end_scan_marks:
  assumes "end_scan env folder st0 new r s = (Inr scan, st', n')" "wf_store (bs_store s)"
  shows "wf_store st' \<and> fs_new scan = new \<and> fs_handled scan = int (length (bs_results s)) \<and>
    (\<forall>p \<in> set (listed_paths env folder).
      marked (bs_store s) p \<or> p \<in> set (map fst (bs_results s)) \<longrightarrow> marked st' p)"
proof -
  let ?files = "listed_paths env folder"
  let ?gone = "filter (\<lambda>p. p \<notin> set ?files) (seen_paths (we_windows env) st0 folder)"
  obtain st1 where m: "mark_seen (wall_now (bs_net s)) (map fst (bs_results s)) (bs_store s) = Inr st1"
    using assms(1) by (auto simp: end_scan_def Let_def split: sum.splits)
  note m' = mark_seen_marked [OF m assms(2)]
  define st2 where "st2 = (if int (length ?files) < MAX_SCAN_ENTRIES then forget_seen ?gone st1 else st1)"
  have wf2: "wf_store st2" and k2: "\<forall>p \<in> set ?files. marked st1 p \<longrightarrow> marked st2 p"
    using m' forget_seen_marked [of st1 ?gone] by (simp_all add: st2_def)
  have e: "fs_new scan = new \<and> fs_handled scan = int (length (bs_results s)) \<and>
      (st' = st2 \<or> record_scan (wall_now (bs_net s)) folder (wall_now (bs_net s)) st2 = Inr st')"
    using assms(1) m by (auto simp: end_scan_def Let_def st2_def split: sum.splits if_splits)
  then have "other_keys st2 st'" using other_keys_record by auto
  then have "wf_store st' \<and> (\<forall>p. marked st' p \<longleftrightarrow> marked st2 p)" using wf2 by (simp add: other_keys_def marked_def)
  then show ?thesis using e k2 m' by simp
qed

text \<open>C7: after a complete scan of a folder every file it listed is marked, and as long as the markers stay, the
  next scan of the same files hashes and queues nothing, whatever became of the ROMs that were queued.  This
  holds on Windows too, for a folder written with backslashes, as the code keeps it there.\<close>

theorem rescan_hashes_nothing:
  assumes wf: "wf_store st" and folder: "proper_folder env folder"
    and scan: "scan_folder env folder st n = (Inr scan, st1, n1)" "scan_complete scan"
    and same: "we_disk env2 = we_disk env" "we_extensions env2 = we_extensions env" "we_windows env2 = we_windows env"
    and kept: "\<forall>p. get_cache st1 (watch_seen_key p) \<noteq> None \<longrightarrow> get_cache st2 (watch_seen_key p) \<noteq> None"
  shows "scan_new env2 folder st2 = ([], [])"
proof -
  let ?files = "listed_paths env folder"
  obtain known new where sn: "scan_new env folder st = (known, new)" by fastforce
  obtain sm r s where m: "mark_seen (wall_now n) known st = Inr sm"
    and run: "run_cache_paths 0 (we_bulk env) new False sm n = Some (Inr r, s)"
    and e: "end_scan env folder st (int (length new)) r s = (Inr scan, st1, n1)"
    using scan(1) sn by (auto simp: scan_folder_def split: sum.splits option.splits prod.splits)
  note m' = mark_seen_marked [OF m wf]
  have o: "wf_store (bs_store s) \<and> (\<forall>p. marked (bs_store s) p \<longleftrightarrow> marked sm p)"
    using other_keys_run [OF run] m' by (simp add: other_keys_def marked_def)
  note e' = end_scan_marks [OF e conjunct1 [OF o]]
  have "length (bs_results s) = length new" using e' scan(2) by (simp add: scan_complete_def)
  then have h: "set (map fst (bs_results s)) = set new"
    using run_reports [OF run] by (intro all_handled [of _ "nat (br_scanned r)"]) (simp_all add: reported_paths_def)
  have "marked st1 p" if p: "p \<in> set ?files" for p
  proof -
    have "p \<in> set (seen_paths (we_windows env) st folder) \<or> p \<in> set known \<or> p \<in> set new"
      using sn p by (auto simp: scan_new_def Let_def)
    moreover have "marked st p" if "p \<in> set (seen_paths (we_windows env) st folder)" using that by (simp add: seen_paths_exact marked_def)
    ultimately have "marked (bs_store s) p \<or> p \<in> set (map fst (bs_results s))"
      using o m' h by metis
    then show ?thesis using e' p by blast
  qed
  with kept have "p \<in> set (seen_paths (we_windows env) st2 folder)" if "p \<in> set ?files" for p
    using that listed_prefix [OF that folder] by (simp add: seen_paths_exact marked_def)
  moreover have "listed_paths env2 folder = ?files" by (simp add: listed_paths_def same)
  ultimately show ?thesis by (simp add: scan_new_def Let_def same(3) filter_empty_conv)
qed

section \<open>A folder with one broken file\<close>

definition sample_watch :: watch_env where
  "sample_watch = \<lparr>we_bulk = sample_bulk (\<lambda>_ _. False), we_windows = False, we_extensions = [''.nes''],
     we_disk = (\<lambda>d. if d = ''/r/nes'' then Some [\<lparr>dn_name = ''b.nes'', dn_is_dir = False\<rparr>] else None)\<rparr>"

definition marked_store :: store where
  "marked_store = (case mark_seen 5020 [''/r/nes/b.nes''] logged_in of Inr st \<Rightarrow> st | Inl _ \<Rightarrow> logged_in)"

lemma sample_scan_facts:
  "list_scannable_files_recursive [''.nes''] (we_disk sample_watch) ''/r/nes'' = [''/r/nes/b.nes'']"
  "scan_new sample_watch ''/r/nes'' (empty_store True) = ([], [''/r/nes/b.nes''])"
  "seen_paths False (empty_store True) ''/r/nes'' = []"
  "(case mark_seen 5020 [''/r/nes/b.nes''] logged_in of Inr _ \<Rightarrow> True | Inl _ \<Rightarrow> False)"
  "get_cache logged_in key_watch_scans = None"
  by code_simp+

lemma first_record:
  assumes "get_cache st key_watch_scans = None" shows "\<exists>st'. record_scan clock folder at st = Inr st'"
proof -
  have "\<not> is_game_meta_key key_watch_scans" by code_simp
  then show ?thesis using assms upsert_plain_total by (simp add: record_scan_def last_scans_def)
qed

lemma sample_scan_run:
  "\<exists>r s. run_cache_paths 0 (sample_bulk (\<lambda>_ _. False)) [''/r/nes/b.nes''] False (empty_store True) idle_net = Some (Inr r, s) \<and>
     bs_results s = [(''/r/nes/b.nes'', ResultFail)] \<and> bs_store s = logged_in \<and> wall_now (bs_net s) = 5020"
  by (simp add: run_cache_paths_def sample_credentials logged_in_facts poll_def bulk_start_def begin_path_def sleep_def
      wall_now_def sample_fields hash_path_def skip_path_def rom_result_def first_batch_def end_run_def)

lemma sample_scan_result:
  "\<exists>scan st n. scan_folder sample_watch ''/r/nes'' (empty_store True) idle_net = (Inr scan, st, n) \<and> scan_complete scan \<and> fs_new scan = 1"
proof -
  obtain r s where run: "run_cache_paths 0 (sample_bulk (\<lambda>_ _. False)) [''/r/nes/b.nes''] False (empty_store True) idle_net = Some (Inr r, s)"
    and s: "bs_results s = [(''/r/nes/b.nes'', ResultFail)]" "bs_store s = logged_in" "wall_now (bs_net s) = 5020"
    using sample_scan_run by blast
  have m: "mark_seen 5020 [''/r/nes/b.nes''] logged_in = Inr marked_store"
    using sample_scan_facts(4) by (auto simp: marked_store_def split: sum.splits)
  have "key_watch_scans \<noteq> watch_seen_key p" for p by (simp add: key_watch_scans_def watch_seen_key_def prefix_watch_seen_def)
  then have "get_cache marked_store key_watch_scans = None"
    using mark_seen_cases [OF m sample_credentials(2)] sample_scan_facts(5) by auto
  then obtain st where st: "record_scan 5020 ''/r/nes'' 5020 marked_store = Inr st" using first_record by blast
  have w: "we_bulk sample_watch = sample_bulk (\<lambda>_ _. False)" "we_windows sample_watch = False" "we_extensions sample_watch = [''.nes'']"
    by (simp_all add: sample_watch_def)
  show ?thesis
    by (simp add: scan_folder_def listed_paths_def sample_scan_facts mark_seen_def [of _ "[]"] w run end_scan_def s m st scan_complete_def
        MAX_SCAN_ENTRIES_def forget_seen_def)
qed

theorem rescan_hashes_nothing_witness:
  "\<exists>scan st n. scan_folder sample_watch ''/r/nes'' (empty_store True) idle_net = (Inr scan, st, n) \<and> fs_new scan = 1 \<and>
     scan_new sample_watch ''/r/nes'' st = ([], [])"
proof -
  obtain scan st n where s: "scan_folder sample_watch ''/r/nes'' (empty_store True) idle_net = (Inr scan, st, n)"
    "scan_complete scan" "fs_new scan = 1"
    using sample_scan_result by blast
  have w: "proper_folder sample_watch ''/r/nes''" by (simp add: sample_watch_def proper_folder_def)
  have "scan_new sample_watch ''/r/nes'' st = ([], [])"
    using rescan_hashes_nothing [OF wf_empty_store w s(1, 2) refl refl refl] by blast
  then show ?thesis using s by blast
qed

end
