(* ===== verification/Workers.thy ===== *)
theory Workers
  imports Watch_Laws Server_Invariants Usage_Laws
begin

text \<open>
  The threads beside the proxy and the start of the service (proxy_service.py, lines 974-1381): the
  connectivity monitor, the hourly refresh of games played lately, the daily report, the worker of the
  cache queue and the watcher of folders.  One definition per round.  The monitor and the start work on
  the server's state.  The other rounds see what other threads do as functions of the monotonic clock:
  the last activity, the connection, the stop event and the locks.  A thread that meets an exception
  its loop does not catch ends.  Times are in ms.
\<close>

definition REFRESH_PLAYED_WINDOW_DAYS :: int where "REFRESH_PLAYED_WINDOW_DAYS = 7"
definition ONLINE_REFRESH_IDLE_DELAY_MS :: int where "ONLINE_REFRESH_IDLE_DELAY_MS = 5 * 60 * 1000"
definition REFRESH_PLAYED_WINDOW_MS :: int where "REFRESH_PLAYED_WINDOW_MS = REFRESH_PLAYED_WINDOW_DAYS * 24 * 60 * 60 * 1000"

section \<open>The connectivity monitor\<close>

text \<open>The inodes of the watched files; a file that cannot be looked at has none.\<close>

definition capture_file_inodes :: "(string \<Rightarrow> int option) \<Rightarrow> string list \<Rightarrow> (string \<times> int) list" where
  "capture_file_inodes stat paths = List.map_filter (\<lambda>p. map_option (\<lambda>i. (p, i)) (stat p)) paths"

definition files_replaced_underneath :: "(string \<Rightarrow> int option) \<Rightarrow> (string \<times> int) list \<Rightarrow> bool" where
  "files_replaced_underneath stat inodes = list_ex (\<lambda>(p, i). stat p \<noteq> Some i) inodes"

text \<open>The monitor's last answer and the online states it saved.\<close>

record monitor =
  mo_was_online :: bool
  mo_saved :: "bool list"
  mo_inodes :: "(string \<times> int) list"

definition monitor_start :: "proxy_env \<Rightarrow> (string \<times> int) list \<Rightarrow> monitor op" where
  "monitor_start env inodes = bind_op (refresh_reachability env True) (\<lambda>online.
     ret \<lparr>mo_was_online = online, mo_saved = [online], mo_inodes = inodes\<rparr>)"

text \<open>One turn of the loop; None is the exit of the process after a reinstall.\<close>

definition monitor_round :: "proxy_env \<Rightarrow> (string \<Rightarrow> int option) \<Rightarrow> monitor \<Rightarrow> monitor option op" where
  "monitor_round env stat m =
     (if mo_inodes m \<noteq> [] \<and> files_replaced_underneath stat (mo_inodes m) then ret None
      else bind_op (refresh_reachability env True) (\<lambda>online.
        bind_op (if online \<and> \<not> mo_was_online m then bind_op (proxy_flush env) (\<lambda>_. ret ()) else ret ()) (\<lambda>_.
        ret (Some (m\<lparr>mo_was_online := online,
          mo_saved := (if online \<noteq> mo_was_online m then mo_saved m @ [online] else mo_saved m)\<rparr>)))))"

definition MONITOR_INTERVAL_MS :: int where "MONITOR_INTERVAL_MS = 15000"

text \<open>The thread over a number of turns.  Its loop catches nothing, so a raise ends it, as the exit does.\<close>

fun monitor_run :: "proxy_env \<Rightarrow> (nat \<Rightarrow> string \<Rightarrow> int option) \<Rightarrow> nat \<Rightarrow> monitor \<Rightarrow> server \<Rightarrow> monitor option res \<times> server" where
  "monitor_run env stat 0 m s = (Inr (Some m), s)"
| "monitor_run env stat (Suc k) m s =
     (case monitor_round env (stat k) m (s\<lparr>sv_net := sleep MONITOR_INTERVAL_MS (sv_net s)\<rparr>) of
        (Inl e, s1) \<Rightarrow> (Inl e, s1)
      | (Inr None, s1) \<Rightarrow> (Inr None, s1)
      | (Inr (Some m1), s1) \<Rightarrow> monitor_run env stat k m1 s1)"

section \<open>The start of the service\<close>

text \<open>From the moment the socket listens to the start of the threads: the keys of the cache are migrated
  and a first flush is tried when the server can be reached.  A raise stops the service.\<close>

definition service_start :: "proxy_env \<Rightarrow> bool op" where
  "service_start env = bind_op (on_store (\<lambda>_. migrate_user_case_in_cache_keys)) (\<lambda>_.
     bind_op (refresh_reachability env True) (\<lambda>online.
     bind_op (if online then bind_op (proxy_flush env) (\<lambda>_. ret ()) else ret ()) (\<lambda>_. ret online)))"

section \<open>What the other threads see\<close>

record worker_env =
  wk_bulk :: bulk_env
  wk_active_at :: "int \<Rightarrow> int option"
  wk_online :: "int \<Rightarrow> bool"
  wk_stop :: "int \<Rightarrow> bool"
  wk_bulk_run :: "int \<Rightarrow> bool"

definition idle_delay :: "int option \<Rightarrow> int \<Rightarrow> int" where
  "idle_delay active now = (case active of
       None \<Rightarrow> 0 | Some t \<Rightarrow> max 0 (ONLINE_REFRESH_IDLE_DELAY_MS - (now - t)))"

definition is_idle :: "worker_env \<Rightarrow> int \<Rightarrow> bool" where
  "is_idle env t = (idle_delay (wk_active_at env t) t \<le> 0)"

section \<open>The periodic refresh\<close>

fun due_refresh_game_ids :: "string list \<Rightarrow> int set \<Rightarrow> int list \<Rightarrow> int list" where
  "due_refresh_game_ids [] played due = due"
| "due_refresh_game_ids (k # ks) played due = (case parse_game_id_from_patch_key k of
       Some g \<Rightarrow> due_refresh_game_ids ks played (if g \<in> played \<and> g \<notin> set due then due @ [g] else due)
     | None \<Rightarrow> due_refresh_game_ids ks played due)"

text \<open>One game: its patch, its unlocks and its session; a failure keeps what was stored before it.\<close>

definition refresh_one ::
  "drain_env \<Rightarrow> credentials \<Rightarrow> string \<Rightarrow> int \<Rightarrow> store \<Rightarrow> net_state \<Rightarrow> bool \<times> store \<times> net_state" where
  "refresh_one env c agent g st n = (case game_urls env g [] c of (u1, u2, _) \<Rightarrow>
     case send_get env u1 n of (r1, n1) \<Rightarrow>
     case refresh_game_patch (scripted [(u1, reply_of r1)]) (de_host env) (wall_now n1) g c agent None st of
       Inl _ \<Rightarrow> (False, st, n1)
     | Inr (_, st1) \<Rightarrow>
        (case send_get env u2 n1 of (r2, n2) \<Rightarrow>
         case cache_unlocks (scripted [(u2, reply_of r2)]) (de_host env) (wall_now n2) g c agent st1 of
           Inl _ \<Rightarrow> (False, st1, n2)
         | Inr (_, st2) \<Rightarrow>
            (case cache_session (wall_now n2) g c st2 of
               Inl _ \<Rightarrow> (False, st2, n2)
             | Inr (_, st3) \<Rightarrow> (True, st3, n2))))"

fun refresh_games ::
  "worker_env \<Rightarrow> credentials \<Rightarrow> string \<Rightarrow> int list \<Rightarrow> int \<Rightarrow> store \<Rightarrow> net_state \<Rightarrow> int \<times> store \<times> net_state" where
  "refresh_games env c agent [] k st n = (k, st, n)"
| "refresh_games env c agent (g # gs) k st n =
     (if \<not> is_idle env (mono n) then (k, st, n)
      else case refresh_one (bk_drain (wk_bulk env)) c agent g st n of (ok, st1, n1) \<Rightarrow>
        let k1 = (if ok then k + 1 else k) in
        if rate_paused_until (wall_now n1) (limiter n1) \<noteq> None then (k1, st1, n1)
        else refresh_games env c agent gs k1 st1 n1)"

text \<open>Waits out the idle delay once; False when the thread is to stop or the player came back.\<close>

definition wait_until_idle :: "worker_env \<Rightarrow> net_state \<Rightarrow> bool \<times> net_state" where
  "wait_until_idle env n =
     (let delay = idle_delay (wk_active_at env (mono n)) (mono n); n1 = sleep delay n in
      if delay \<le> 0 then (True, n)
      else if wk_stop env (mono n1) then (False, n1)
      else (wk_online env (mono n1) \<and> is_idle env (mono n1), n1))"

definition CACHE_TTL_MS :: int where "CACHE_TTL_MS = 60 * 24 * 3600 * 1000"

text \<open>A round with the number of refreshed games, or None when it was skipped.\<close>

definition refresh_round :: "worker_env \<Rightarrow> store \<Rightarrow> net_state \<Rightarrow> int option res \<times> store \<times> net_state" where
  "refresh_round env st n =
     (let agent = bulk_agent (wk_bulk env) in
      if \<not> wk_online env (mono n) then (Inr None, st, n)
      else case bulk_credentials (wk_bulk env) agent st n of
        Inl e \<Rightarrow> (Inl e, st, n)
      | Inr (None, st1) \<Rightarrow> (Inr None, st1, n)
      | Inr (Some c, st1) \<Rightarrow>
         if rate_paused_until (wall_now n) (limiter n) \<noteq> None then (Inr None, st1, n)
         else case wait_until_idle env n of (False, n1) \<Rightarrow> (Inr None, st1, n1)
           | (True, n1) \<Rightarrow>
              (let due = due_refresh_game_ids (cache_keys_by_prefix st1 prefix_patch)
                     (load_recently_played_game_ids st1 (wall_now n1 - REFRESH_PLAYED_WINDOW_MS)) []
               in case refresh_games env c agent due 0 st1 (n1\<lparr>limiter := enter_background (limiter n1)\<rparr>) of
                    (k, st2, n2) \<Rightarrow>
                      let n3 = n2\<lparr>limiter := leave_background (limiter n2)\<rparr> in
                      (Inr (Some k), evict_cache_older_than (wall_now n3 - CACHE_TTL_MS) st2, n3)))"

section \<open>The usage reporter\<close>

definition reporter_round ::
  "worker_env \<Rightarrow> report_env \<Rightarrow> store \<Rightarrow> net_state \<Rightarrow> usage_state \<Rightarrow> (counts option \<times> bool) \<times> store \<times> usage_state" where
  "reporter_round env rep st n u =
     (if wk_online env (mono n) then report_if_due rep (wall_now n) (mono n) st u else ((None, False), st, u))"

section \<open>The worker of the cache queue\<close>

definition queue_can_work :: "worker_env \<Rightarrow> int \<Rightarrow> bool" where
  "queue_can_work env t = (\<not> wk_bulk_run env t \<and> is_idle env t \<and> wk_online env t)"

text \<open>The drain as this worker starts it: it pauses as soon as the thread is to stop or may not work.\<close>

definition worker_drain_env :: "worker_env \<Rightarrow> drain_env" where
  "worker_drain_env env = (bk_drain (wk_bulk env))\<lparr>de_pause := (\<lambda>t. wk_stop env t \<or> \<not> queue_can_work env t)\<rparr>"

definition queue_round :: "nat \<Rightarrow> worker_env \<Rightarrow> store \<Rightarrow> net_state \<Rightarrow> (drain_result option res \<times> store \<times> net_state) option" where
  "queue_round fuel env st n =
     (let now = wall_now n; agent = bulk_agent (wk_bulk env) in
      if queue_count st = 0 then Some (Inr None, st, n)
      else if store_next_available_at now (Some now) st > now \<or> \<not> queue_can_work env (mono n) then Some (Inr None, st, n)
      else case bulk_credentials (wk_bulk env) agent st n of
        Inl e \<Rightarrow> Some (Inl e, st, n)
      | Inr (None, st1) \<Rightarrow> Some (Inr None, st1, n)
      | Inr (Some c, st1) \<Rightarrow>
         (case drain_cache_queue fuel (worker_drain_env env) c agent None st1 n of
            None \<Rightarrow> None
          | Some (Stop r d) \<Rightarrow> Some (Inr (Some r), ds_store d, ds_net d)
          | Some (Raised e d) \<Rightarrow> Some (Inl e, ds_store d, ds_net d)
          | Some (Next d) \<Rightarrow> None))"

section \<open>The watcher of folders\<close>

record watcher_env =
  fw_worker :: worker_env
  fw_watch :: watch_env
  fw_config :: "string option"
  fw_is_dir :: "string \<Rightarrow> bool"

definition watcher_can_work :: "worker_env \<Rightarrow> int \<Rightarrow> bool" where
  "watcher_can_work env t = (\<not> wk_bulk_run env t \<and> is_idle env t)"

definition watcher_should_stop :: "worker_env \<Rightarrow> int \<Rightarrow> bool" where
  "watcher_should_stop env t = (wk_stop env t \<or> \<not> is_idle env t)"

text \<open>The scan as the watcher starts it, with its own test for stopping.\<close>

definition watcher_scan_env :: "watcher_env \<Rightarrow> watch_env" where
  "watcher_scan_env env = (fw_watch env)\<lparr>we_bulk := (we_bulk (fw_watch env))
     \<lparr>bk_abort := (\<lambda>_ t. watcher_should_stop (fw_worker env) t)\<rparr>\<rparr>"

fun scan_folders ::
  "watcher_env \<Rightarrow> string list \<Rightarrow> folder_scan list \<Rightarrow> store \<Rightarrow> net_state \<Rightarrow> folder_scan list res \<times> store \<times> net_state" where
  "scan_folders env [] scans st n = (Inr scans, st, n)"
| "scan_folders env (f # fs) scans st n =
     (if wk_stop (fw_worker env) (mono n) \<or> \<not> watcher_can_work (fw_worker env) (mono n) then (Inr scans, st, n)
      else case scan_folder (watcher_scan_env env) f st n of
        (Inl e, st1, n1) \<Rightarrow> (Inl e, st1, n1)
      | (Inr scan, st1, n1) \<Rightarrow> scan_folders env fs (scans @ [scan]) st1 n1)"

definition watcher_round :: "watcher_env \<Rightarrow> store \<Rightarrow> net_state \<Rightarrow> folder_scan list res \<times> store \<times> net_state" where
  "watcher_round env st n =
     (let watched = configured_watched_folders (fw_config env); bulk = we_bulk (fw_watch env) in
      if watched = [] then (Inr [], st, n)
      else case due_folders (fw_is_dir env) st watched (wall_now n) of
        Inl e \<Rightarrow> (Inl e, st, n)
      | Inr folders \<Rightarrow>
         if folders = [] \<or> \<not> watcher_can_work (fw_worker env) (mono n) then (Inr [], st, n)
         else case bulk_credentials bulk (bulk_agent bulk) st n of
           Inl e \<Rightarrow> (Inl e, st, n)
         | Inr (None, st1) \<Rightarrow> (Inr [], st1, n)
         | Inr (Some c, st1) \<Rightarrow> scan_folders env folders [] st1 n)"

end
