(* ===== verification/Rom_Browser.thy ===== *)
theory Rom_Browser
  imports Bulk_Laws File_Walk
begin

text \<open>
  What the game browser shows and adds (rom_browser.py): the list of cached games, their achievements,
  unlocks and badges, whether a file is cached, and the caching of one ROM by hand.  Joining an URL, the
  local copy of an image and the hash of a file are parameters; a title is its JSON value.
\<close>

section \<open>The cached games\<close>

record cached_game =
  cg_game_id :: int
  cg_title :: json
  cg_image_url :: "string option"

definition lstrip_slashes :: "string \<Rightarrow> string" where
  "lstrip_slashes s = dropWhile (\<lambda>c. c = CHR ''/'') s"

definition normalize_preview_url :: "(string \<Rightarrow> string \<Rightarrow> string) \<Rightarrow> string \<Rightarrow> json \<Rightarrow> string option res" where
  "normalize_preview_url urljoin host img =
     (if \<not> truthy img then Inr None
      else case img of
        JStr s \<Rightarrow> Inr (Some (urljoin (host @ ''/'') (lstrip_slashes s)))
      | _ \<Rightarrow> Inl AttributeError)"

definition game_entry :: "(string \<Rightarrow> string \<Rightarrow> string) \<Rightarrow> string \<Rightarrow> game_info \<Rightarrow> cached_game res" where
  "game_entry urljoin host m = bind_res (normalize_preview_url urljoin host (gi_image m)) (\<lambda>url.
     Inr \<lparr>cg_game_id = gi_game_id m,
          cg_title = py_or (gi_title m) (JStr (''Game '' @ str_of_int (gi_game_id m))), cg_image_url = url\<rparr>)"

text \<open>The dict of games is the list of its entries in their order.\<close>

definition set_default_game :: "cached_game \<Rightarrow> cached_game list \<Rightarrow> cached_game list" where
  "set_default_game g gs = (if cg_game_id g \<in> cg_game_id ` set gs then gs else gs @ [g])"

definition cached_games_from_meta ::
  "(string \<Rightarrow> string \<Rightarrow> string) \<Rightarrow> string \<Rightarrow> game_info list \<Rightarrow> cached_game list res" where
  "cached_games_from_meta urljoin host metas =
     fold_res (\<lambda>m gs. bind_res (game_entry urljoin host m) (\<lambda>g. Inr (set_default_game g gs)))
       (sort_key (\<lambda>m. \<not> starts_with prefix_patch (gi_key m)) metas) []"

definition title_text :: "cached_game \<Rightarrow> string res" where
  "title_text g = (case cg_title g of JStr s \<Rightarrow> Inr (lower s) | _ \<Rightarrow> Inl AttributeError)"

definition list_cached_games :: "(string \<Rightarrow> string \<Rightarrow> string) \<Rightarrow> string \<Rightarrow> store \<Rightarrow> cached_game list res" where
  "list_cached_games urljoin host st =
     bind_res (cached_game_meta st None) (\<lambda>metas.
     bind_res (cached_games_from_meta urljoin host metas) (\<lambda>games.
     bind_res (map_res title_text games) (\<lambda>titles.
     Inr (map snd (sort_key fst (zip titles games))))))"

definition find_cached_game :: "(string \<Rightarrow> string \<Rightarrow> string) \<Rightarrow> string \<Rightarrow> store \<Rightarrow> int \<Rightarrow> cached_game option res" where
  "find_cached_game urljoin host st g =
     bind_res (cached_game_meta st (Some g)) (\<lambda>metas.
     bind_res (cached_games_from_meta urljoin host metas) (\<lambda>games. Inr (find (\<lambda>x. cg_game_id x = g) games)))"

section \<open>The achievements of a game\<close>

text \<open>The values a loop over a list or the values of a dict sees; the characters of a string are no dicts.\<close>

definition loop_values :: "json \<Rightarrow> json list" where
  "loop_values v = (case v of JList vs \<Rightarrow> vs | JObj kvs \<Rightarrow> map snd kvs | _ \<Rightarrow> [])"

text \<open>A dict updated with another.\<close>

definition updated_with :: "(string \<times> json) list \<Rightarrow> (string \<times> json) list \<Rightarrow> (string \<times> json) list" where
  "updated_with existing d = fold (\<lambda>(k, v). AList.update k v) existing d"

fun merge_achievements :: "json list \<Rightarrow> (int \<times> (string \<times> json) list) list \<Rightarrow> (int \<times> (string \<times> json) list) list" where
  "merge_achievements [] m = m"
| "merge_achievements (a # as) m = (case a of
       JObj kvs \<Rightarrow>
        (case positive_int (field ''ID'' JNull a) of
           Some i \<Rightarrow> merge_achievements as
             (AList.update i (updated_with (case map_of m i of Some x \<Rightarrow> x | None \<Rightarrow> []) kvs) m)
         | None \<Rightarrow> merge_achievements as m)
     | _ \<Rightarrow> merge_achievements as m)"

fun merge_cached_achievement_entries ::
  "(json \<Rightarrow> json res) \<Rightarrow> cache_entry list \<Rightarrow> (int \<times> (string \<times> json) list) list \<Rightarrow> (int \<times> (string \<times> json) list) list res" where
  "merge_cached_achievement_entries sel [] m = Inr m"
| "merge_cached_achievement_entries sel (e # es) m = (case loads (ce_body e) of
       Inl _ \<Rightarrow> merge_cached_achievement_entries sel es m
     | Inr payload \<Rightarrow> bind_res (sel payload) (\<lambda>achievements.
         merge_cached_achievement_entries sel es (merge_achievements (loop_values achievements) m)))"

definition achievementsets_payload_achievements :: "int \<Rightarrow> json \<Rightarrow> json res" where
  "achievementsets_payload_achievements g payload =
     bind_res (jget ''GameId'' JNull payload) (\<lambda>game.
       if \<not> eq_int game g then Inr JNull
       else (case field ''Achievements'' JNull payload of
          JList vs \<Rightarrow> Inr (JList vs)
        | JObj kvs \<Rightarrow> Inr (JObj kvs)
        | _ \<Rightarrow>
           (case field ''Sets'' JNull payload of
              JList sets \<Rightarrow> Inr (JList (filter is_obj (concat (map (\<lambda>s. loop_values (field ''Achievements'' JNull s))
                (filter is_obj sets)))))
            | _ \<Rightarrow> Inr JNull)))"

definition cached_achievements_by_id :: "store \<Rightarrow> int \<Rightarrow> (int \<times> (string \<times> json) list) list res" where
  "cached_achievements_by_id st g =
     bind_res (merge_cached_achievement_entries
         (\<lambda>payload. bind_res (jget ''PatchData'' (JObj []) payload) (jget ''Achievements'' JNull))
         (iter_cache_by_prefix st (patch_prefix (str_of_int g))) []) (\<lambda>m.
     bind_res (achievementsets_keys_for_game st g) (\<lambda>keys.
     merge_cached_achievement_entries (achievementsets_payload_achievements g) (List.map_filter (get_cache st) keys) m))"

definition cached_unlock_titles :: "store \<Rightarrow> int \<Rightarrow> string list res" where
  "cached_unlock_titles st g = bind_res (game_unlock_ids st g) (\<lambda>ids. case ids of
       None \<Rightarrow> Inr []
     | Some is \<Rightarrow> bind_res (cached_achievements_by_id st g) (\<lambda>m.
         let titles = List.map_filter (\<lambda>(i, a). case field ''Title'' JNull (JObj a) of JStr t \<Rightarrow> Some (i, t) | _ \<Rightarrow> None) m
         in Inr (List.map_filter (map_of titles) is)))"

definition badge_text :: "json \<Rightarrow> string option" where
  "badge_text v = (case v of JStr s \<Rightarrow> if s = [] then None else Some s | _ \<Rightarrow> None)"

definition cached_unlock_badge_paths :: "(string \<Rightarrow> string option) \<Rightarrow> store \<Rightarrow> int \<Rightarrow> (string \<times> string) list res" where
  "cached_unlock_badge_paths asset st g = bind_res (cached_achievements_by_id st g) (\<lambda>m.
     Inr (fold (\<lambda>(i, a) paths.
       (case (badge_text (field ''Title'' JNull (JObj a)), badge_text (field ''BadgeName'' JNull (JObj a))) of
          (Some title, Some badge) \<Rightarrow>
            (case asset (''/Badge/'' @ badge @ ''.png'') of
               Some p \<Rightarrow> AList.update title p paths | None \<Rightarrow> paths)
        | _ \<Rightarrow> paths)) m []))"

section \<open>The counts of the list\<close>

fun count_unlock_entries ::
  "award list \<Rightarrow> game_ids \<Rightarrow> cache_entry list \<Rightarrow> (int \<times> int) list \<Rightarrow> (int \<times> int) list res" where
  "count_unlock_entries pending gids [] counts = Inr counts"
| "count_unlock_entries pending gids (e # es) counts =
     (case (parse_game_id_from_unlock_key (ce_key e), parse_user_from_unlocks_key (ce_key e), loads (ce_body e)) of
        (Some g, Some user, Inr payload) \<Rightarrow> bind_res (jget ''UserUnlocks'' JNull payload) (\<lambda>v.
          case v of
            JList vs \<Rightarrow> count_unlock_entries pending gids es
              (AList.update g (int (length (merge_start_session_unlock_ids (List.map_filter as_int vs) pending gids g user))) counts)
          | _ \<Rightarrow> count_unlock_entries pending gids es counts)
      | _ \<Rightarrow> count_unlock_entries pending gids es counts)"

fun count_session_entries ::
  "award list \<Rightarrow> game_ids \<Rightarrow> cache_entry list \<Rightarrow> (int \<times> int) list \<Rightarrow> (int \<times> int) list res" where
  "count_session_entries pending gids [] counts = Inr counts"
| "count_session_entries pending gids (e # es) counts =
     (case (parse_game_id_from_start_session_key (ce_key e), parse_user_from_start_session_key (ce_key e), loads (ce_body e)) of
        (Some g, Some user, Inr payload) \<Rightarrow>
          if g \<in> fst ` set counts then count_session_entries pending gids es counts
          else bind_res (session_unlock_ids payload) (\<lambda>ids. count_session_entries pending gids es
            (AList.update g (int (length (merge_start_session_unlock_ids ids pending gids g user))) counts))
      | _ \<Rightarrow> count_session_entries pending gids es counts)"

definition cached_unlock_counts :: "store \<Rightarrow> (int \<times> int) list res" where
  "cached_unlock_counts st =
     (let pending = get_pending_awards st in
      bind_res (find_achievement_game_ids st (pending_unlock_achievement_ids pending None) None) (\<lambda>gids.
      bind_res (count_unlock_entries pending gids (iter_cache_by_prefix st prefix_unlocks) []) (\<lambda>counts.
      count_session_entries pending gids (iter_cache_by_prefix st prefix_startsession) counts)))"

section \<open>One file\<close>

fun any_hash_cached :: "store \<Rightarrow> int list \<Rightarrow> string list \<Rightarrow> bool res" where
  "any_hash_cached st ids [] = Inr False"
| "any_hash_cached st ids (h # hs) = bind_res (cached_game_id_for_hash st h) (\<lambda>g.
     if (case g of Some i \<Rightarrow> i \<in> set ids | None \<Rightarrow> False) then Inr True else any_hash_cached st ids hs)"

definition browser_file_is_cached ::
  "(string \<Rightarrow> string + string list) \<Rightarrow> string \<Rightarrow> store \<Rightarrow> int list option \<Rightarrow> bool res" where
  "browser_file_is_cached hash path st ids =
     bind_res (case ids of Some is \<Rightarrow> Inr is | None \<Rightarrow> collect_cached_game_ids st) (\<lambda>is.
       case hash path of Inl _ \<Rightarrow> Inr False | Inr hs \<Rightarrow> any_hash_cached st is hs)"

text \<open>The results of adding a ROM, one per return of the source.\<close>

datatype add_result =
    LoginRequired
  | HashFailed
  | HashUnreadable
  | NoGameMatch
  | AlreadyCached int "cached_game option"
  | LoginRejected
  | RomQueued "int option"
  | NotCached rom_outcome
  | PatchMissing
  | RomCached cached_game

definition add_success :: "add_result \<Rightarrow> bool" where
  "add_success r = (case r of AlreadyCached _ _ \<Rightarrow> True | RomQueued _ \<Rightarrow> True | RomCached _ \<Rightarrow> True | _ \<Rightarrow> False)"

definition already_cached_result ::
  "(string \<Rightarrow> string \<Rightarrow> string) \<Rightarrow> string \<Rightarrow> store \<Rightarrow> int \<Rightarrow> add_result res" where
  "already_cached_result urljoin host st g = bind_res (find_cached_game urljoin host st g) (\<lambda>game. Inr (AlreadyCached g game))"

text \<open>What is made of the drain of the one ROM.\<close>

definition settle_added ::
  "(string \<Rightarrow> string \<Rightarrow> string) \<Rightarrow> string \<Rightarrow> bool \<Rightarrow> queued_rom \<Rightarrow> drain_result \<Rightarrow> drain_state \<Rightarrow> add_result res \<times> store" where
  "settle_added urljoin host added rom r d =
     (case map_of (rev (ds_reports d)) (rom_key rom) of
        None \<Rightarrow>
          if dr_stop r = StopAuth
          then (Inr LoginRejected, if added then queue_remove rom (ds_store d) else ds_store d)
          else (Inr (RomQueued (dr_next_attempt r)), ds_store d)
      | Some (outcome, g) \<Rightarrow>
          (let st = (if outcome = OutFailed \<and> added then queue_remove rom (ds_store d) else ds_store d) in
           case g of
             None \<Rightarrow> (Inr (NotCached outcome), st)
           | Some i \<Rightarrow>
              if outcome = OutAlreadyCached then (already_cached_result urljoin host st i, st)
              else if outcome \<noteq> OutCached then (Inr (NotCached outcome), st)
              else (bind_res (find_cached_game urljoin host st i) (\<lambda>game.
                      Inr (case game of None \<Rightarrow> PatchMissing | Some x \<Rightarrow> RomCached x)), st)))"

text \<open>The ROM is queued and the queue drained for it alone.\<close>

definition queue_added ::
  "nat \<Rightarrow> bulk_env \<Rightarrow> (string \<Rightarrow> string \<Rightarrow> string) \<Rightarrow> string \<Rightarrow> credentials \<Rightarrow> queued_rom \<Rightarrow> store \<Rightarrow> net_state \<Rightarrow>
   (add_result res \<times> store) option" where
  "queue_added fuel env urljoin host c rom st n = (case enqueue (wall_now n) rom st of
       Inl e \<Rightarrow> Some (Inl e, st)
     | Inr (added, st1) \<Rightarrow>
        (case drain_cache_queue fuel (bk_drain env) c (bulk_agent env) (Some [rom_key rom]) st1 n of
           None \<Rightarrow> None
         | Some (Raised e d) \<Rightarrow> Some (Inl e, ds_store d)
         | Some (Next d) \<Rightarrow> None
         | Some (Stop r d) \<Rightarrow> Some (settle_added urljoin host added rom r d)))"

definition add_rom_to_cache ::
  "nat \<Rightarrow> bulk_env \<Rightarrow> (string \<Rightarrow> string \<Rightarrow> string) \<Rightarrow> string \<Rightarrow> string \<Rightarrow> store \<Rightarrow> net_state \<Rightarrow> (add_result res \<times> store) option" where
  "add_rom_to_cache fuel env urljoin host path st n = (case bulk_credentials env (bulk_agent env) st n of
       Inl e \<Rightarrow> Some (Inl e, st)
     | Inr (None, st1) \<Rightarrow> Some (Inr LoginRequired, st1)
     | Inr (Some c, st1) \<Rightarrow>
        (case bk_hash env path of
           Inl _ \<Rightarrow> Some (Inr HashFailed, st1)
         | Inr [] \<Rightarrow> Some (Inr HashUnreadable, st1)
         | Inr (h # hs) \<Rightarrow>
            (let n1 = sleep (bk_hash_ms env path) n; clock = wall_now n1;
                 rom = \<lparr>qr_hash = h, qr_others = hs, qr_source = Some (normalize_cached_rom_path path),
                        qr_label = path_name path, qr_queued_at = clock, qr_attempts = 0\<rparr>
             in case local_game_id_answer st1 clock (h # hs) of
                  NoMatch \<Rightarrow> Some (Inr NoGameMatch, st1)
                | Unknown \<Rightarrow> queue_added fuel env urljoin host c rom st1 n1
                | KnownGame g _ \<Rightarrow>
                   if g \<in> set (cached_game_ids st1) then
                     (case remember_source_rom_path clock g (cr_user c) (Some path) st1 of
                        Inl e \<Rightarrow> Some (Inl e, st1)
                      | Inr st2 \<Rightarrow> Some (already_cached_result urljoin host st2 g, st2))
                   else queue_added fuel env urljoin host c rom st1 n1)))"

section \<open>The game found is the game listed\<close>

lemma games_of_one:
  assumes "fold_res (\<lambda>m gs. bind_res (game_entry urljoin host m) (\<lambda>x. Inr (set_default_game x gs))) ms acc = Inr gs"
  shows "fold_res (\<lambda>m gs. bind_res (game_entry urljoin host m) (\<lambda>x. Inr (set_default_game x gs)))
      (filter (\<lambda>m. gi_game_id m = g) ms) (filter (\<lambda>x. cg_game_id x = g) acc) = Inr (filter (\<lambda>x. cg_game_id x = g) gs) \<and>
    (distinct (map cg_game_id acc) \<longrightarrow> distinct (map cg_game_id gs))"
  using assms
proof (induction ms arbitrary: acc)
  case (Cons m ms)
  obtain x where x: "game_entry urljoin host m = Inr x"
    and rest: "fold_res (\<lambda>m gs. bind_res (game_entry urljoin host m) (\<lambda>x. Inr (set_default_game x gs))) ms (set_default_game x acc) = Inr gs"
    using Cons.prems by (auto simp: res_simps)
  have id: "cg_game_id x = gi_game_id m" using x by (auto simp: game_entry_def res_simps)
  have "filter (\<lambda>x. cg_game_id x = g) (set_default_game x acc) =
      (if gi_game_id m = g then set_default_game x (filter (\<lambda>x. cg_game_id x = g) acc) else filter (\<lambda>x. cg_game_id x = g) acc)"
    by (auto simp: set_default_game_def id)
  moreover have "distinct (map cg_game_id acc) \<longrightarrow> distinct (map cg_game_id (set_default_game x acc))"
    by (auto simp: set_default_game_def)
  ultimately show ?case using Cons.IH [OF rest] x by (auto split: if_splits)
qed simp

lemma cached_games_of_one:
  assumes "cached_games_from_meta urljoin host ms = Inr gs"
  shows "cached_games_from_meta urljoin host (filter (\<lambda>m. gi_game_id m = g) ms) = Inr (filter (\<lambda>x. cg_game_id x = g) gs)"
    and "distinct (map cg_game_id gs)"
  using games_of_one [OF assms [unfolded cached_games_from_meta_def], of g]
  by (simp_all add: cached_games_from_meta_def filter_sort)

lemma game_meta_of_one:
  "cached_game_meta st None = Inr ms \<Longrightarrow> cached_game_meta st (Some g) = Inr (filter (\<lambda>m. gi_game_id m = g) ms)"
  by (auto simp: cached_game_meta_def Let_def res_simps split: if_splits)

lemma find_filter_same: "find P (filter P xs) = find P xs"
  by (induction xs) auto

lemma find_same:
  assumes "distinct (map f xs)" "distinct (map f ys)" "set xs = set ys"
  shows "find (\<lambda>x. f x = g) xs = find (\<lambda>x. f x = g) ys"
proof -
  have "find (\<lambda>x. f x = g) zs = Some z \<longleftrightarrow> z \<in> set zs \<and> f z = g" if "distinct (map f zs)" for zs z
    using that by (induction zs) (auto simp: rev_image_eqI)
  then have "find (\<lambda>x. f x = g) xs = Some z \<longleftrightarrow> find (\<lambda>x. f x = g) ys = Some z" for z using assms by simp
  then show ?thesis by (metis option.exhaust)
qed

lemma map_res_length: "map_res f xs = Inr ys \<Longrightarrow> length ys = length xs"
  by (induction xs arbitrary: ys) (auto simp: res_simps)

text \<open>C8: the list of cached games has one entry per game, and asking for one game gives the entry of the list,
  also when patches and sets of several accounts name the game differently.\<close>

theorem found_game_is_listed:
  assumes "list_cached_games urljoin host st = Inr games"
  shows "distinct (map cg_game_id games) \<and>
    find_cached_game urljoin host st g = Inr (find (\<lambda>x. cg_game_id x = g) games)"
proof -
  obtain ms gs ts where ms: "cached_game_meta st None = Inr ms" and gs: "cached_games_from_meta urljoin host ms = Inr gs"
    and ts: "map_res title_text gs = Inr ts" and games: "games = map snd (sort_key fst (zip ts gs))"
    using assms by (auto simp: list_cached_games_def res_simps)
  note one = cached_games_of_one [OF gs]
  have "mset games = image_mset snd (mset (zip ts gs))" by (simp add: games)
  also have "\<dots> = mset (map snd (zip ts gs))" by (rule mset_map [symmetric])
  finally have "mset games = mset gs" using map_res_length [OF ts] by simp
  then have set_eq: "set games = set gs" and "mset (map cg_game_id games) = mset (map cg_game_id gs)"
    by (auto dest: mset_eq_setD)
  then have d: "distinct (map cg_game_id games)" using one(2) mset_eq_imp_distinct_iff by blast
  have "find_cached_game urljoin host st g = Inr (find (\<lambda>x. cg_game_id x = g) gs)"
    using game_meta_of_one [OF ms] one(1) by (simp add: find_cached_game_def find_filter_same)
  then show ?thesis using d find_same [OF d one(2) set_eq] by simp
qed

definition twice_named :: store where
  "twice_named = (empty_store True)\<lparr>meta_rows :=
     [\<lparr>mr_key = ''achievementsets:ab:bob'', mr_game_id = Some 7, mr_title = JStr ''Set'', mr_image = JNull\<rparr>,
      \<lparr>mr_key = ''patch:7:bob'', mr_game_id = Some 7, mr_title = JStr ''Zelda'', mr_image = JNull\<rparr>,
      \<lparr>mr_key = ''patch:3:bob'', mr_game_id = Some 3, mr_title = JNull, mr_image = JStr ''/Images/1.png''\<rparr>]\<rparr>"

theorem found_game_is_listed_witness:
  "map_sum id (map cg_title) (list_cached_games (@) ''h'' twice_named) = Inr [JStr ''Game 3'', JStr ''Zelda''] \<and>
   find_cached_game (@) ''h'' twice_named 7 = Inr (Some \<lparr>cg_game_id = 7, cg_title = JStr ''Zelda'', cg_image_url = None\<rparr>)"
proof -
  have l: "list_cached_games (@) ''h'' twice_named = Inr [\<lparr>cg_game_id = 3, cg_title = JStr ''Game 3'',
      cg_image_url = Some ''h/Images/1.png''\<rparr>, \<lparr>cg_game_id = 7, cg_title = JStr ''Zelda'', cg_image_url = None\<rparr>]"
    by code_simp
  then show ?thesis using found_game_is_listed [OF l, of 7] by simp
qed

end
