(* ===== verification/Queue_Progress.thy ===== *)
theory Queue_Progress
  imports Drain_Laws
begin

text \<open>
  Two more laws of the drain: it starts the requests of a ROM only at a moment at which it is not asked to
  pause, and a drain that ends with a failure uses up one of the attempts that the waiting ROMs have left,
  so ROMs that always fail leave the queue.
\<close>

section \<open>The moments at which requests start\<close>

definition unpaused :: "drain_env \<Rightarrow> drain_state \<Rightarrow> bool" where
  "unpaused env s = (\<forall>t \<in> set (ds_starts s). \<not> de_pause env t)"

lemma unpaused_fields [simp]:
  "unpaused env (s\<lparr>ds_store := st\<rparr>) = unpaused env s" "unpaused env (s\<lparr>ds_net := n\<rparr>) = unpaused env s"
  "unpaused env (s\<lparr>ds_keys := ks\<rparr>) = unpaused env s" "unpaused env (s\<lparr>ds_known := kn\<rparr>) = unpaused env s"
  "unpaused env (s\<lparr>ds_reports := rs\<rparr>) = unpaused env s" "unpaused env (s\<lparr>ds_cached := i\<rparr>) = unpaused env s"
  "unpaused env (s\<lparr>ds_no_match := i\<rparr>) = unpaused env s" "unpaused env (s\<lparr>ds_paced := b\<rparr>) = unpaused env s"
  by (simp_all add: unpaused_def)

lemma unpaused_unless:
  "unpaused env s \<Longrightarrow> unpaused env (state_of next) \<Longrightarrow> unpaused env (state_of (unless_rate_limited s next))"
  by (rule unless_rate_limited_state [where P = "unpaused env"]) simp_all

lemma unpaused_attempt: "unpaused env s \<Longrightarrow> unpaused env (state_of (attempt_rom e c agent rom local s))"
  unfolding attempt_rom_def Let_def
  by (auto simp: settle_rom_def finish_def report_def intro!: unpaused_unless split: prod.split sum.split)

lemma unpaused_request:
  assumes "unpaused env s" "\<not> de_pause env (mono (ds_net s))"
  shows "unpaused env (state_of (request_rom env c agent rom local s))"
proof -
  have "unpaused env (begin_item rom l s)" for l
    using assms by (simp add: unpaused_def begin_item_def Let_def)
  then show ?thesis using assms(1) unpaused_attempt
    by (auto simp: request_rom_def Let_def finish_def split: prod.split)
qed

lemma unpaused_step:
  assumes "unpaused env s" shows "unpaused env (state_of (drain_step env c agent s))"
proof (cases "de_pause env (mono (ds_net s))")
  case False
  have "unpaused env s1 \<and> \<not> de_pause env (mono (ds_net s1))" if "next_rom s = (r, s1)" for r s1
    using next_rom_fields [OF that] assms False by auto
  then show ?thesis using assms False unfolding drain_step_def
    by (auto simp: finish_def report_def intro!: unpaused_unless unpaused_request
        split: prod.split option.split local_answer.split sum.split)
qed (use assms in \<open>simp add: drain_step_def finish_def\<close>)

lemma starts_unpaused:
  assumes "drain_cache_queue fuel env c agent keys st n = Some r" shows "unpaused env (state_of r)"
proof -
  have "unpaused env (drain_start keys st m)" for m by (simp add: unpaused_def drain_start_def)
  moreover have "unpaused env s \<Longrightarrow> unpaused env (leave_block s)" for s by (simp add: leave_block_def)
  ultimately show ?thesis using drain_queue_state [of "unpaused env", OF unpaused_step _ _ assms] by blast
qed

section \<open>The attempts that are left\<close>

definition attempts_left :: "cache_entry \<Rightarrow> nat" where
  "attempts_left e = (case rom_from_json (ce_body e) of
       None \<Rightarrow> 0 | Some r \<Rightarrow> 1 + nat (CACHE_QUEUE_MAX_ATTEMPTS - 1 - qr_attempts r))"

definition queue_attempts :: "store \<Rightarrow> nat" where
  "queue_attempts st = sum attempts_left (set (queue_entries st))"

definition queue_plain :: "store \<Rightarrow> bool" where
  "queue_plain st = (\<forall>e \<in> set (queue_entries st). \<forall>r. rom_from_json (ce_body e) = Some r \<longrightarrow> rom_plain r)"

lemma queue_attempts_mono: "set (queue_entries st') \<subseteq> set (queue_entries st) \<Longrightarrow> queue_attempts st' \<le> queue_attempts st"
  unfolding queue_attempts_def by (rule sum_mono2) auto

lemma image_replace:
  assumes "e \<in> A" "\<And>x. x \<in> A \<Longrightarrow> P x \<longleftrightarrow> x = e"
  shows "(\<lambda>x. if P x then n x else x) ` A = insert (n e) (A - {e})"
proof -
  have "(\<lambda>x. if P x then n x else x) ` A = (\<lambda>x. if x = e then n x else x) ` A"
    by (rule image_cong [OF refl]) (simp add: assms(2))
  then show ?thesis using assms(1) by auto
qed

lemma queue_rewritten:
  assumes wf: "wf_store st" and e: "e \<in> set (queue_entries st)" "ce_key e = rom_key r"
    and up: "queue_update t r st = Inr st'"
  shows "\<exists>e'. ce_key e' = ce_key e \<and> ce_body e' = rom_to_json r \<and> set (queue_entries st') = insert e' (set (queue_entries st) - {e})"
proof -
  let ?new = "rewritten st (rom_to_json r) (qr_source r) t"
  have k: "get_cache st (rom_key r) \<noteq> None" using e queue_keys_get [of r st] by (force simp: queue_keys_def)
  have up': "upsert_cache t (rom_key r) (rom_to_json r) None (qr_source r) st = Inr st'"
    using up by (simp add: queue_update_def rom_write_def)
  define f where "f x = (if ce_key x = rom_key r then ?new x else x)" for x
  have cache: "api_cache st' = map f (api_cache st)"
    using upsert_api_cache [OF wf up'] k by (auto simp: or_int_def f_def)
  have fk: "ce_key (f x) = ce_key x" for x by (simp add: f_def rewritten_def)
  have "set (queue_entries st') = {x \<in> f ` set (api_cache st). key_match st prefix_cache_queue (ce_key x)}"
    by (simp add: queue_entries_def key_match_store [OF upsert_fields(1) [OF up']] cache)
  also have "\<dots> = f ` set (queue_entries st)" by (auto simp: queue_entries_def fk)
  also have "\<dots> = insert (?new e) (set (queue_entries st) - {e})"
    unfolding f_def
  proof (rule image_replace [OF e(1)])
    show "ce_key x = rom_key r \<longleftrightarrow> x = e" if "x \<in> set (queue_entries st)" for x
      using queue_entry_unique [OF wf that e(1)] e(2) by metis
  qed
  finally show ?thesis by (intro exI [of _ "?new e"]) (simp add: rewritten_def)
qed

lemma failed_attempt_counts:
  assumes ok: "queue_ok st" and plain: "queue_plain st" and e: "e \<in> set (queue_entries st)" "rom_from_json (ce_body e) = Some rom"
    and run: "record_failed_attempt t rom st = Inr st'"
  shows "queue_attempts st' < queue_attempts st \<and> queue_ok st' \<and> queue_plain st'"
proof -
  have wf: "wf_store st" and key: "ce_key e = rom_key rom" using ok e by (auto simp: queue_ok_def)
  have split: "queue_attempts st = attempts_left e + sum attempts_left (set (queue_entries st) - {e})"
    unfolding queue_attempts_def by (rule sum.remove) (use e in auto)
  show ?thesis
  proof (cases "after_failed_attempt rom")
    case None
    then have st': "st' = delete_cache (rom_key rom) st" using run by (simp add: record_failed_attempt_def queue_remove_def)
    have "x = e" if "x \<in> set (queue_entries st)" "ce_key x = rom_key rom" for x
      using queue_entry_unique [OF wf that(1) e(1)] that(2) key by simp
    then have "set (queue_entries st') = set (queue_entries st) - {e}"
      unfolding st' queue_delete set_filter using key by blast
    moreover have "attempts_left e > 0" by (simp add: attempts_left_def e(2))
    moreover have "queue_plain st'" using plain calculation(1) by (auto simp: queue_plain_def)
    ultimately show ?thesis using split queue_ok_delete [OF ok] by (simp add: queue_attempts_def st')
  next
    case (Some retry)
    then have r: "retry = rom\<lparr>qr_attempts := qr_attempts rom + 1\<rparr>" "qr_attempts rom + 1 < CACHE_QUEUE_MAX_ATTEMPTS"
      by (auto simp: after_failed_attempt_def Let_def split: if_splits)
    have up: "queue_update t retry st = Inr st'" using run Some by (simp add: record_failed_attempt_def)
    obtain e' where e': "ce_key e' = ce_key e" "ce_body e' = rom_to_json retry"
      "set (queue_entries st') = insert e' (set (queue_entries st) - {e})"
      using queue_rewritten [OF wf e(1) _ up] key r(1) by (auto simp: rom_key_def)
    have "rom_plain rom" using plain e by (simp add: queue_plain_def)
    then have pr: "rom_plain retry" by (simp add: r(1) rom_plain_def rom_hashes_def)
    have read: "rom_from_json (ce_body e') = Some retry" unfolding e'(2) by (rule rom_json_round_trip [OF pr])
    have "queue_attempts st' \<le> attempts_left e' + sum attempts_left (set (queue_entries st) - {e})"
      unfolding queue_attempts_def e'(3) by (simp add: sum.insert_if)
    moreover have "attempts_left e' < attempts_left e" using r by (simp add: attempts_left_def read e(2))
    moreover have "queue_ok st'"
      using ok wf_upsert_cache [OF wf] up e' read key r(1)
      by (auto simp: queue_ok_def queue_update_def rom_write_def rom_key_def)
    moreover have "queue_plain st'" using plain e'(3) read pr by (auto simp: queue_plain_def)
    ultimately show ?thesis using split by linarith
  qed
qed

section \<open>A drain that fails\<close>

text \<open>A readable front of the queue stands in it with the text it was read from.\<close>

definition stands :: "queued_rom \<Rightarrow> store \<Rightarrow> bool" where
  "stands rom st = (\<exists>e \<in> set (queue_entries st). rom_from_json (ce_body e) = Some rom)"

lemma stands_key: "queue_ok st \<Longrightarrow> stands rom st \<Longrightarrow> rom_key rom \<in> set (queue_keys st)"
  by (force simp: stands_def queue_ok_def queue_keys_def)

lemma first_waiting_stands:
  "set ks \<subseteq> range rom_key \<Longrightarrow> first_waiting st ks = (Some rom, ks') \<Longrightarrow> stands rom st"
proof (induction ks)
  case (Cons k ks)
  then obtain q where k: "k = rom_key q" by auto
  show ?case
  proof (cases "queue_get st k")
    case (Some r)
    then obtain e where e: "get_cache st k = Some e" "rom_from_json (ce_body e) = Some r"
      by (auto simp: queue_get_def split: option.splits)
    then have "e \<in> set (queue_entries st)"
      using get_cache_Some [OF e(1)] rom_key_matches [of st q] k by (simp add: queue_entries_def)
    then show ?thesis using Cons.prems Some e by (auto simp: stands_def)
  qed (use Cons in auto)
qed simp

lemma next_rom_stands:
  assumes "drain_inv s" "next_rom s = (Some rom, s1)" shows "stands rom (ds_store s1)"
proof (cases "ds_keys s")
  case None
  then have o: "oldest_rom (ds_store s) = (Some rom, ds_store s1)"
    using assms(2) by (auto simp: next_rom_def split: prod.splits)
  show ?thesis using oldest_rom_cases [OF _ o] assms(1) by (force simp: stands_def drain_inv_def queue_ok_def)
next
  case (Some ks)
  then show ?thesis using assms first_waiting_stands
    by (fastforce simp: next_rom_def drain_inv_def rom_keys_only_def split: prod.splits)
qed

lemma stands_frame: "queue_frame st st' \<Longrightarrow> wf_store st \<Longrightarrow> stands rom st \<Longrightarrow> stands rom st'"
  by (simp add: stands_def queue_frame_def)

text \<open>Others may take ROMs out of the queue, but neither add nor rewrite one.\<close>

definition taking :: "store \<Rightarrow> store \<Rightarrow> bool" where
  "taking st st' = (queue_ok st \<longrightarrow> queue_ok st' \<and> set (queue_entries st') \<subseteq> set (queue_entries st))"

definition nobody_adds :: "drain_env \<Rightarrow> bool" where
  "nobody_adds env = (\<forall>t st. taking st (de_meanwhile env t st))"

text \<open>What a step leaves: the waiting ROMs are some of those at the start, and after a failure one attempt
  is used up.\<close>

definition within :: "store \<Rightarrow> drain_state \<Rightarrow> bool" where
  "within st0 s = (drain_inv s \<and> set (queue_entries (ds_store s)) \<subseteq> set (queue_entries st0))"

definition used_up :: "store \<Rightarrow> drain_next \<Rightarrow> bool" where
  "used_up st0 next = (case next of
       Next s \<Rightarrow> within st0 s
     | Stop r s \<Rightarrow> if dr_stop r = StopFailed
         then queue_attempts (ds_store s) < queue_attempts st0 \<and> queue_ok (ds_store s) \<and> queue_plain (ds_store s)
         else within st0 s
     | Raised e s \<Rightarrow> within st0 s)"

lemma within_frame:
  "within st0 s \<Longrightarrow> queue_frame (ds_store s) (ds_store s') \<Longrightarrow> ds_keys s' = ds_keys s \<Longrightarrow> within st0 s'"
  using queue_ok_frame [of "ds_store s" "ds_store s'"] by (simp add: within_def drain_inv_def)

lemma within_taking: "within st0 s \<Longrightarrow> taking (ds_store s) (ds_store s') \<Longrightarrow> ds_keys s' = ds_keys s \<Longrightarrow> within st0 s'"
  by (auto simp: within_def drain_inv_def taking_def)

lemma used_up_finish [simp]: "used_up st0 (finish stop a b s) \<longleftrightarrow> (if stop = StopFailed
    then queue_attempts (ds_store s) < queue_attempts st0 \<and> queue_ok (ds_store s) \<and> queue_plain (ds_store s)
    else within st0 s)"
  by (simp add: used_up_def finish_def)

lemma used_up_unless: "within st0 s \<Longrightarrow> used_up st0 next \<Longrightarrow> used_up st0 (unless_rate_limited s next)"
  using within_frame [of st0 s] queue_frame_budget(2)
  by (fastforce simp: unless_rate_limited_def used_up_def [of _ "Raised e s" for e s] split: option.split sum.split)

lemma used_up_settle:
  assumes w: "within st0 s" and "queue_plain st0" and st: "stands rom (ds_store s)"
  shows "used_up st0 (settle_rom rom out g s)"
proof -
  have plain: "queue_plain (ds_store s)" using assms(1, 2) by (auto simp: within_def queue_plain_def)
  have less: "queue_attempts (ds_store s) \<le> queue_attempts st0" using w by (simp add: within_def queue_attempts_mono)
  have ok: "queue_ok (ds_store s)" using w by (simp add: within_def drain_inv_def)
  obtain e where e: "e \<in> set (queue_entries (ds_store s))" "rom_from_json (ce_body e) = Some rom"
    using st by (auto simp: stands_def)
  have removed: "within st0 s'" if "ds_store s' = delete_cache (rom_key rom) (ds_store s)" "ds_keys s' = ds_keys s" for s'
    using w that queue_ok_delete [OF ok] by (auto simp: within_def drain_inv_def queue_delete)
  show ?thesis
    using failed_attempt_counts [OF ok plain e] less removed w
    by (force simp: settle_rom_def report_def queue_remove_def used_up_def finish_def split: sum.split)
qed

lemma used_up_attempt:
  assumes w: "within st0 s" and "queue_plain st0" and st: "stands rom (ds_store s)"
  shows "used_up st0 (attempt_rom env c agent rom local s)"
proof -
  obtain r st n where q: "cache_queued_rom env c agent rom local (ds_known s) (ds_store s) (ds_net s) = (r, st, n)"
    by (cases "cache_queued_rom env c agent rom local (ds_known s) (ds_store s) (ds_net s)") auto
  have wf: "wf_store (ds_store s)" using w by (simp add: within_def drain_inv_def queue_ok_def)
  have moved: "within st0 (s\<lparr>ds_store := t, ds_net := n\<rparr>)" "stands rom t" if "queue_frame (ds_store s) t" for t
    using within_frame [OF w, of "s\<lparr>ds_store := t, ds_net := n\<rparr>"] stands_frame [OF that wf st] that by simp_all
  note frame = queue_frame_queued [OF q]
  show ?thesis
  proof (cases r)
    case (Inl e)
    then show ?thesis using moved(1) [OF frame] by (simp add: attempt_rom_def q used_up_def)
  next
    case (Inr og)
    obtain out g where og: "og = (out, g)" by (cases og)
    have "queue_frame (ds_store s) t" if "(if out = OutCached then charge_game (wall_now n) None st else Inr st) = Inr t" for t
      using that frame queue_frame_budget(1) queue_frame_trans by (auto split: if_splits)
    note m = moved [OF this]
    show ?thesis unfolding attempt_rom_def q Inr og Let_def
      using used_up_settle [OF m(1) assms(2), where rom = rom] m moved(1) [OF frame]
      by (auto intro!: used_up_unless split: sum.split) (simp_all add: used_up_def)
  qed
qed

lemma used_up_request:
  assumes w: "within st0 s" and "queue_plain st0" "stands rom (ds_store s)" "nobody_adds env"
  shows "used_up st0 (request_rom env c agent rom local s)"
proof -
  have waited: "within st0 s'" if "ds_store s' = de_meanwhile env t (ds_store s)" "ds_keys s' = ds_keys s" for s' t
    by (rule within_taking [OF w _ that(2)]) (use assms(4) that(1) in \<open>simp add: nobody_adds_def\<close>)
  have begun: "within st0 (begin_item rom l s)" for l
    using w by (simp add: begin_item_def Let_def within_def drain_inv_def)
  have attempted: "used_up st0 (attempt_rom env c agent rom local (begin_item rom l s))" for l
    by (rule used_up_attempt [OF begun assms(2)]) (simp add: begin_item_def Let_def assms(3))
  show ?thesis unfolding request_rom_def Let_def
    using attempted w by (auto simp: waited split: prod.split) (simp add: used_up_def waited)
qed

lemma used_up_step:
  assumes w: "within st0 s" and "queue_plain st0" "nobody_adds env"
  shows "used_up st0 (drain_step env c agent s)"
proof -
  obtain r s1 where nr: "next_rom s = (r, s1)" by (cases "next_rom s")
  have inv: "drain_inv s" using w by (simp add: within_def)
  have w1: "within st0 s1" using next_rom_cases [OF inv nr] w by (auto simp: within_def)
  have dropped: "within st0 s'" if "queue_frame (ds_store s1) t" "ds_store s' = delete_cache k t" "ds_keys s' = ds_keys s1" for s' t k
    using queue_ok_frame [OF that(1)] w1 that by (auto simp: within_def drain_inv_def queue_ok_delete queue_delete)
  have unknown: "within st0 (report rom OutNoMatch None
      (s1\<lparr>ds_store := queue_remove rom (ds_store s1), ds_no_match := ds_no_match s1 + 1\<rparr>))" for rom
    by (rule dropped [OF queue_frame_refl]) (simp_all add: report_def queue_remove_def)
  have answered: "within st0 (report rom OutAlreadyCached (Some g) (s1\<lparr>ds_store := queue_remove rom t\<rparr>))"
    if "remember_source_rom_path x g u p (ds_store s1) = Inr t" for rom t x g u p
    by (rule dropped [OF queue_frame_remember [OF that]]) (simp_all add: report_def queue_remove_def)
  have st: "stands rom (ds_store s1)" if "r = Some rom" for rom using next_rom_stands [OF inv] nr that by simp
  show ?thesis unfolding drain_step_def nr
    using used_up_request [OF w1 assms(2) st assms(3)] unknown answered w w1
    by (auto simp: used_up_def [of _ "Next s" for s] used_up_def [of _ "Raised e s" for e s]
        intro!: used_up_unless split: prod.split option.split local_answer.split sum.split)
qed

lemma used_up_loop:
  "within st0 s \<Longrightarrow> queue_plain st0 \<Longrightarrow> nobody_adds env \<Longrightarrow> drain_loop fuel env c agent s = Some r \<Longrightarrow> used_up st0 r"
proof (induction fuel arbitrary: s)
  case (Suc k)
  have step: "used_up st0 (drain_step env c agent s)" by (rule used_up_step [OF Suc.prems(1-3)])
  show ?case
  proof (cases "drain_step env c agent s")
    case (Next s1)
    then show ?thesis using Suc.IH [of s1] Suc.prems step by (simp add: used_up_def)
  qed (use Suc.prems step in auto)
qed simp

lemma used_up_drain:
  assumes "queue_ok st" "queue_plain st" "rom_keys_only keys" "nobody_adds env"
    and "drain_cache_queue fuel env c agent keys st n = Some next"
  shows "used_up st next"
proof -
  have start: "within st (drain_start keys st m)" for m
    using drain_inv_start [OF assms(1, 3)] by (simp add: within_def) (simp add: drain_start_def)
  have left: "within st s \<Longrightarrow> within st (leave_block s)" for s by (simp add: within_def drain_inv_def leave_block_def)
  show ?thesis
  proof (cases "de_lock env (mono n)")
    case True
    then obtain q where q: "drain_loop fuel env c agent (drain_start keys st (n\<lparr>limiter := enter_background (limiter n)\<rparr>)) = Some q"
      "next = end_of_block q" using assms(5) by (auto simp: drain_cache_queue_def)
    have "used_up st q" by (rule used_up_loop [OF start assms(2, 4) q(1)])
    then show ?thesis using left by (cases q) (auto simp: q(2) used_up_def leave_block_def split: if_splits)
  qed (use assms(5) start in \<open>auto simp: drain_cache_queue_def\<close>)
qed

text \<open>Any number of drains of any process, each of whatever part of the queue and ended in whatever way, and
  between them whatever neither adds a ROM nor rewrites one; counted are the drains that end with a failed
  ROM.\<close>

inductive drains_failing :: "nat \<Rightarrow> store \<Rightarrow> store \<Rightarrow> bool" where
  NoDrain: "drains_failing 0 st st"
| OneMore: "drain_cache_queue fuel env c agent keys st n = Some next \<Longrightarrow> rom_keys_only keys \<Longrightarrow> nobody_adds env \<Longrightarrow>
    drains_failing k (ds_store (state_of next)) st' \<Longrightarrow>
    drains_failing ((case next of Stop r s \<Rightarrow> if dr_stop r = StopFailed then 1 else 0 | _ \<Rightarrow> 0) + k) st st'"
| Meanwhile: "taking st st1 \<Longrightarrow> drains_failing k st1 st' \<Longrightarrow> drains_failing k st st'"

lemma fewer_plain:
  "set (queue_entries st') \<subseteq> set (queue_entries st) \<Longrightarrow> queue_plain st \<Longrightarrow> queue_plain st' \<and> queue_attempts st' \<le> queue_attempts st"
  by (auto simp: queue_plain_def queue_attempts_mono)

lemma drains_failing_bound:
  "drains_failing k st st' \<Longrightarrow> queue_ok st \<Longrightarrow> queue_plain st \<Longrightarrow> k + queue_attempts st' \<le> queue_attempts st"
proof (induction rule: drains_failing.induct)
  case (OneMore fuel env c agent keys st n nxt k st')
  have "used_up st nxt" by (rule used_up_drain [OF OneMore.prems OneMore.hyps(2, 3, 1)])
  then have "queue_ok (ds_store (state_of nxt)) \<and> queue_plain (ds_store (state_of nxt)) \<and>
      (case nxt of Stop r s \<Rightarrow> if dr_stop r = StopFailed then 1 else 0 | _ \<Rightarrow> 0) + queue_attempts (ds_store (state_of nxt))
        \<le> queue_attempts st"
    using fewer_plain [OF _ OneMore.prems(2)]
    by (cases nxt) (auto simp: used_up_def within_def drain_inv_def split: if_splits)
  then show ?case using OneMore.IH by simp
next
  case (Meanwhile st st1 k st')
  then show ?case using fewer_plain [of st1 st] by (auto simp: taking_def)
qed simp

lemma queue_attempts_count:
  assumes "\<forall>e \<in> set (queue_entries st). \<forall>r. rom_from_json (ce_body e) = Some r \<longrightarrow> 0 \<le> qr_attempts r"
  shows "int (queue_attempts st) \<le> CACHE_QUEUE_MAX_ATTEMPTS * queue_count st"
proof -
  have "attempts_left e \<le> 3" if "e \<in> set (queue_entries st)" for e
    using assms that by (auto simp: attempts_left_def CACHE_QUEUE_MAX_ATTEMPTS_def split: option.split)
  then have "queue_attempts st \<le> card (set (queue_entries st)) * 3"
    unfolding queue_attempts_def using sum_bounded_above [of "set (queue_entries st)" attempts_left 3] by simp
  also have "\<dots> \<le> length (queue_entries st) * 3" using card_length by simp
  finally have "int (queue_attempts st) \<le> int (length (queue_entries st) * 3)" using of_nat_mono by blast
  then show ?thesis by (simp add: queue_count_keys queue_keys_def CACHE_QUEUE_MAX_ATTEMPTS_def)
qed

text \<open>C4: ROMs that always fail do not wait for ever.  Take any number of drains of any process, each of
  whatever part of the queue and ended in whatever way, with anything between them and while they wait that
  neither adds a ROM to the queue nor rewrites one (it may take ROMs out): among them at most three for each
  ROM that waits at the start end with a failed ROM.  This holds for a well-formed queue whose ROMs have
  texts (hashes, labels, paths) of ASCII characters, the hashes and paths not blank, and attempts that were
  not counted below zero.\<close>

theorem failing_roms_leave:
  assumes "drains_failing k st st'" "queue_ok st" "queue_plain st"
    and "\<forall>e \<in> set (queue_entries st). \<forall>r. rom_from_json (ce_body e) = Some r \<longrightarrow> 0 \<le> qr_attempts r"
  shows "int k \<le> CACHE_QUEUE_MAX_ATTEMPTS * queue_count st \<and> CACHE_QUEUE_MAX_ATTEMPTS = 3"
proof -
  have "k \<le> queue_attempts st" using drains_failing_bound [OF assms(1-3)] by simp
  then show ?thesis using queue_attempts_count [OF assms(4)] by (simp add: CACHE_QUEUE_MAX_ATTEMPTS_def)
qed

lemma one_waiting_plain:
  "queue_plain one_waiting"
  "\<forall>e \<in> set (queue_entries one_waiting). \<forall>r. rom_from_json (ce_body e) = Some r \<longrightarrow> 0 \<le> qr_attempts r"
proof -
  have m: "map (\<lambda>e. rom_from_json (ce_body e)) (queue_entries one_waiting) = [Some one_rom]" by code_simp
  have "rom_plain one_rom" by code_simp
  then show "queue_plain one_waiting"
    "\<forall>e \<in> set (queue_entries one_waiting). \<forall>r. rom_from_json (ce_body e) = Some r \<longrightarrow> 0 \<le> qr_attempts r"
    using m by (auto simp: queue_plain_def map_eq_Cons_conv one_rom_def)
qed

theorem failing_roms_leave_witness:
  "\<exists>st'. drains_failing 1 one_waiting st' \<and> queue_count one_waiting = 1 \<and> (1::int) \<le> CACHE_QUEUE_MAX_ATTEMPTS * queue_count one_waiting"
proof -
  obtain r s where rs: "failed_drain = Some (Stop r s)" using failed_drain_Stop by blast
  have failed: "dr_stop r = StopFailed" using failed_drain_result unfolding rs by simp
  have alone: "nobody_adds silent_env" by (simp add: nobody_adds_def taking_def silent_env_def)
  have "drains_failing 1 one_waiting (ds_store s)"
    using drains_failing.OneMore [OF rs [unfolded failed_drain_def] _ alone drains_failing.NoDrain] failed
    by (simp add: rom_keys_only_def)
  moreover from this have "int 1 \<le> CACHE_QUEUE_MAX_ATTEMPTS * queue_count one_waiting"
    using failing_roms_leave [OF _ one_waiting_ok one_waiting_plain] by blast
  moreover have "queue_count one_waiting = 1" by code_simp
  ultimately show ?thesis by auto
qed

end
