(* ===== verification/Service_Laws.thy ===== *)
theory Service_Laws
  imports Worker_Laws Queue_Progress
begin

text \<open>
  The whole service: the migration of the cache keys at its start, and the server together with its
  threads, bulk runs and ROMs added by hand as one transition system.
\<close>

section \<open>The migration of the keys\<close>

lemma rename_keys:
  assumes "wf_store st" "get_cache st new = None" "rename_cache_key old new st = Inr st'"
  shows "ce_key ` set (api_cache st') = (\<lambda>k. if k = old then new else k) ` ce_key ` set (api_cache st)"
    and "map ce_id (api_cache st') = map ce_id (api_cache st)"
    and "map ce_key (api_cache st') = map (\<lambda>k. if k = old then new else k) (map ce_key (api_cache st))"
proof -
  have e: "api_cache st' = map (\<lambda>e. if ce_key e = old then e\<lparr>ce_key := new\<rparr> else e) (api_cache st)"
    using assms(3) update_first_map [OF wf_storeD(1) [OF assms(1)]]
    by (auto simp: rename_cache_key_def split: if_splits)
  show m: "map ce_key (api_cache st') = map (\<lambda>k. if k = old then new else k) (map ce_key (api_cache st))"
    by (simp add: e)
  show "map ce_id (api_cache st') = map ce_id (api_cache st)" by (simp add: e)
  show "ce_key ` set (api_cache st') = (\<lambda>k. if k = old then new else k) ` ce_key ` set (api_cache st)"
    by (metis m list.set_map)
qed

lemma distinct_rename: "distinct ks \<Longrightarrow> new \<notin> set ks \<Longrightarrow> distinct (map (\<lambda>k. if k = old then new else k) ks)"
  by (auto simp: distinct_map inj_on_def)

lemma same_queue_rename:
  assumes "get_cache st new = None" "rename_cache_key old new st = Inr st'"
  shows "same_queue st st'"
  unfolding same_queue_def
proof
  assume wf: "wf_store st"
  note k = rename_keys [OF wf assms]
  have new: "new \<notin> set (map ce_key (api_cache st))" using assms(1) by (simp add: get_cache_None)
  have keys: "distinct (map ce_key (api_cache st'))"
    unfolding k(3) by (rule distinct_rename [OF _ new]) (use wf in \<open>simp add: wf_store_def\<close>)
  have ids: "distinct (map ce_id (api_cache st'))" unfolding k(2) using wf by (simp add: wf_store_def)
  have q: "pending_awards st' = pending_awards st" "next_award_id st' = next_award_id st"
    "next_cache_id st' = next_cache_id st" "is_sqlite st' = is_sqlite st"
    using assms(2) by (auto simp: rename_cache_key_def split: if_splits)
  have fresh: "\<forall>e \<in> set (api_cache st'). ce_id e < next_cache_id st'" if "is_sqlite st"
  proof -
    have "ce_id ` set (api_cache st') = ce_id ` set (api_cache st)"
      by (metis k(2) list.set_map)
    moreover have "\<forall>i \<in> ce_id ` set (api_cache st). i < next_cache_id st"
      using wf that by (simp add: wf_store_def)
    ultimately show ?thesis
      unfolding q by blast
  qed
  have rows: "distinct (map mr_key (meta_rows st')) \<and> mr_key ` set (meta_rows st') \<subseteq> ce_key ` set (api_cache st')"
    if sq: "is_sqlite st"
  proof -
    let ?f = "\<lambda>k. if k = old then new else k"
    have d: "distinct (map mr_key (meta_rows st))" "mr_key ` set (meta_rows st) \<subseteq> ce_key ` set (api_cache st)"
      using wf sq by (simp_all add: wf_store_def)
    have "map mr_key (meta_rows st') = map ?f (map mr_key (meta_rows st))"
    proof (cases "get_cache st old = None")
      case True
      then have "old \<notin> mr_key ` set (meta_rows st)" using d(2) by (auto simp: get_cache_None)
      then show ?thesis using assms(2) sq True
        by (auto simp: rename_cache_key_def split: if_splits intro!: map_cong [OF refl])
    qed (use assms(2) sq in \<open>auto simp: rename_cache_key_def split: if_splits\<close>)
    moreover have "distinct (map ?f (map mr_key (meta_rows st)))"
      by (rule distinct_rename) (use d new in auto)
    ultimately show ?thesis using d(2) k(1) by (metis (no_types, lifting) image_mono list.set_map)
  qed
  show "wf_store st' \<and> pending_awards st' = pending_awards st"
    using wf keys ids fresh rows q by (simp add: wf_store_def)
qed

lemma same_queue_migrate: "migrate_key p old st = Inr st' \<Longrightarrow> same_queue st st'"
  by (auto simp: migrate_key_def intro: same_queue_delete same_queue_rename split: option.splits if_splits)

lemma same_queue_migration:
  assumes "migrate_user_case_in_cache_keys st = Inr st'" shows "same_queue st st'"
proof -
  have fold: "same_queue s t" if f: "\<And>x s t. f x s = Inr t \<Longrightarrow> same_queue s t" and "fold_res f xs s = Inr t"
    for f :: "string \<Rightarrow> store \<Rightarrow> store res" and xs s t
    using that(2) by (induction xs arbitrary: s) (auto simp: res_simps dest!: f intro: same_queue_trans)
  have one: "same_queue s t" if "fold_res (migrate_key p) ks s = Inr t" for p ks s t
    using fold [of "migrate_key p" ks s t] that same_queue_migrate by blast
  show ?thesis
    using fold [of "\<lambda>p s. fold_res (migrate_key p) (cache_keys_by_prefix s p) s"] one assms
    unfolding migrate_user_case_in_cache_keys_def by blast
qed

section \<open>The service as a transition system\<close>

text \<open>What a thread beside the proxy makes of the store and of its clocks.\<close>

definition beside :: "store \<Rightarrow> net_state \<Rightarrow> server \<Rightarrow> server" where
  "beside st n s = s\<lparr>sv_store := st, sv_net := n\<rparr>"

text \<open>The other processes that write while a drain waits may do what keeps the queue of awards intact.\<close>

definition fair_drain :: "(string \<Rightarrow> string) \<Rightarrow> (string \<Rightarrow> string) \<Rightarrow> drain_env \<Rightarrow> bool" where
  "fair_drain sha sig env = (\<forall>t st. queue_intact sha sig st \<longrightarrow> queue_intact sha sig (de_meanwhile env t st))"

inductive service_step :: "(string \<Rightarrow> string) \<Rightarrow> (string \<Rightarrow> string) \<Rightarrow> server \<Rightarrow> server \<Rightarrow> bool"
  for sha :: "string \<Rightarrow> string" and sig :: "string \<Rightarrow> string" where
  Server: "server_step sha sig s s' \<Longrightarrow> service_step sha sig s s'"
| Start: "fe_sha (pe_flush env) = sha \<Longrightarrow> fe_sign (pe_flush env) = sig \<Longrightarrow> service_start env s = (r, s') \<Longrightarrow>
    service_step sha sig s s'"
| Monitor: "fe_sha (pe_flush env) = sha \<Longrightarrow> fe_sign (pe_flush env) = sig \<Longrightarrow> monitor_run env stat k m s = (r, s') \<Longrightarrow>
    service_step sha sig s s'"
| RefreshGames: "refresh_round env (sv_store s) (sv_net s) = (r, st, n) \<Longrightarrow> service_step sha sig s (beside st n s)"
| Report: "reporter_round env rep (sv_store s) (sv_net s) u = (r, st, u') \<Longrightarrow> service_step sha sig s (beside st (sv_net s) s)"
| DrainQueue: "fair_drain sha sig (bk_drain (wk_bulk env)) \<Longrightarrow> queue_round fuel env (sv_store s) (sv_net s) = Some (r, st, n) \<Longrightarrow>
    service_step sha sig s (beside st n s)"
| WatchFolders: "watcher_round env (sv_store s) (sv_net s) = (r, st, n) \<Longrightarrow> service_step sha sig s (beside st n s)"
| BulkRun: "fair_drain sha sig (bk_drain env) \<Longrightarrow>
    run_cache_paths fuel env paths now (sv_store s) (sv_net s) = Some (r, b) \<Longrightarrow>
    service_step sha sig s (beside (bs_store b) (bs_net b) s)"
| AddRom: "fair_drain sha sig (bk_drain env) \<Longrightarrow>
    add_rom_to_cache fuel env urljoin host path (sv_store s) (sv_net s) = Some (r, st) \<Longrightarrow>
    service_step sha sig s (beside st (sv_net s) s)"

inductive_cases service_stepE: "service_step sha sig s s'"

section \<open>What every step keeps\<close>

context store_invariant
begin

lemma reported: "reporter_round env rep st n u = (r, st', u') \<Longrightarrow> I st \<longrightarrow> I st'"
  by (auto simp: reporter_round_def report_if_due_def load_gauges_def Let_def dest: holds.oldest
      split: if_splits sum.splits option.splits prod.splits bool.splits)

lemma added:
  assumes "add_rom_to_cache fuel env urljoin host path st n = Some (r, st')" "I st"
    and "\<And>t s. I s \<longrightarrow> I (de_meanwhile (bk_drain env) t s)"
  shows "I st'"
proof -
  have settled: "I st3" if "settle_added urljoin host added rom x d = (q, st3)" "I (ds_store d)" for added rom x d q st3
    using that holds.remove by (auto simp: settle_added_def Let_def split: option.splits if_splits)
  have drained: "I (ds_store (state_of q))" if "drain_cache_queue fuel (bk_drain env) c a keys st2 n1 = Some q" "I st2" for c a keys st2 n1 q
    using holds.drain [OF that(1)] assms(3) that(2) by blast
  have queued: "I st3" if "queue_added fuel env urljoin host c rom st1 n1 = Some (q, st3)" "I st1" for c rom st1 n1 q st3
  proof (cases "enqueue (wall_now n1) rom st1")
    case (Inr x)
    obtain b st2 where x: "x = (b, st2)" by fastforce
    then have "I st2" using holds.enqueued Inr that(2) by blast
    then show ?thesis using that(1) drained settled Inr x
      by (auto simp: queue_added_def split: option.splits drain_next.splits) fastforce+
  qed (use that in \<open>simp add: queue_added_def\<close>)
  have logged: "I st1" if "bulk_credentials env (bulk_agent env) st n = Inr (c, st1)" for c st1
    using holds.credentials [OF that] assms(2) by blast
  show ?thesis
    using assms(1, 2) unfolding add_rom_to_cache_def Let_def
    by (auto split: sum.splits option.splits list.splits local_answer.splits if_splits
        simp del: local_game_id_answer.simps dest!: logged queued dest: holds.remember)
qed

end

lemma flush_keeps_intact:
  "fe_sha (pe_flush env) = sha \<Longrightarrow> fe_sign (pe_flush env) = sig \<Longrightarrow> keeps (queue_intact sha sig) (proxy_flush env)"
  by (rule keepsI) (metis server_step.Flush server_step_intact)

lemma keeps_probe [pres_intros]: "keeps I (refresh_reachability env force)"
  by (rule keeps_pure) (simp add: refresh_reachability_def Let_def split: prod.split)

lemma start_keeps:
  assumes "fe_sha (pe_flush env) = sha" "fe_sign (pe_flush env) = sig"
  shows "keeps (queue_intact sha sig) (service_start env)"
proof -
  have "keeps (queue_intact sha sig) (on_store (\<lambda>_. migrate_user_case_in_cache_keys))"
    by (rule keeps_on_store) (blast dest: same_queue_migration intro: queue_intact_same)
  then show ?thesis unfolding service_start_def by (intro pres_intros flush_keeps_intact [OF assms])
qed

lemma monitor_keeps:
  "monitor_run env stat k m s = (r, s') \<Longrightarrow> queue_intact sha sig (sv_store s) \<Longrightarrow>
   fe_sha (pe_flush env) = sha \<Longrightarrow> fe_sign (pe_flush env) = sig \<Longrightarrow> queue_intact sha sig (sv_store s')"
proof (induction env stat k m s rule: monitor_run.induct)
  case (2 env stat k m s)
  have "keeps (queue_intact sha sig) (monitor_round env (stat k) m)"
    unfolding monitor_round_def by (intro pres_intros flush_keeps_intact 2(4, 5))
  then have "queue_intact sha sig (sv_store s1)" if "monitor_round env (stat k) m (s\<lparr>sv_net := sleep MONITOR_INTERVAL_MS (sv_net s)\<rparr>) = (q, s1)" for q s1
    using 2(3) that keepsD [where m = "monitor_round env (stat k) m" and s = "s\<lparr>sv_net := sleep MONITOR_INTERVAL_MS (sv_net s)\<rparr>"]
    by auto
  then show ?case using 2 by (auto split: prod.splits sum.splits option.splits)
qed simp

text \<open>The digests of the awards as an environment with those digests and nothing else of interest.\<close>

interpretation any: store_invariant "queue_intact sha sig" "quiet_env\<lparr>fe_sha := sha, fe_sign := sig\<rparr>" for sha sig
  using intact.store_invariant_axioms [of "quiet_env\<lparr>fe_sha := sha, fe_sign := sig\<rparr>"] by simp

lemma service_step_intact:
  "service_step sha sig s s' \<Longrightarrow> queue_intact sha sig (sv_store s) \<Longrightarrow> queue_intact sha sig (sv_store s')"
proof (induction rule: service_step.induct)
  case (Server s s')
  then show ?case by (rule server_step_intact)
next
  case (Start env s r s')
  then show ?case using keepsD [OF start_keeps] by metis
next
  case (Monitor env stat k m s r s')
  then show ?case using monitor_keeps by metis
next
  case (RefreshGames env s r st n)
  then show ?case using any.refresh by (simp add: beside_def)
next
  case (Report env rep s u r st u')
  then show ?case using any.reported by (simp add: beside_def)
next
  case (DrainQueue env fuel s r st n)
  then show ?case using any.drained by (simp add: beside_def fair_drain_def)
next
  case (WatchFolders env s r st n)
  then show ?case using any.watcher by (simp add: beside_def)
next
  case (BulkRun env fuel paths now s r b)
  then show ?case using any.holds.run by (simp add: beside_def fair_drain_def)
next
  case (AddRom env fuel urljoin host path s r st)
  then show ?case using any.added by (simp add: beside_def fair_drain_def)
qed

text \<open>C1: whatever the requests and the threads of the service do in whatever order - the migration at the
  start, the monitor with its flushes, the refresh, the report, the worker of the queue, the watcher of
  folders, a bulk run, a ROM added by hand - a store that was empty at first stays well formed and its queue
  of awards is never rejected by the check, after a repair of broken links at most.\<close>

theorem service_keeps_store:
  assumes "sv_store s0 = empty_store sqlite" "(service_step sha sig)\<^sup>*\<^sup>* s0 s"
    and "fe_sha env = sha" "fe_sign env = sig"
  shows "wf_store (sv_store s) \<and> checked_queue env (sv_store s) \<noteq> None"
proof -
  have "queue_intact sha sig (sv_store s0)" by (simp add: assms(1) queue_intact_def) (simp add: empty_store_def)
  with assms(2) have "queue_intact sha sig (sv_store s)"
    by (induction rule: rtranclp_induct) (auto intro: service_step_intact)
  then show ?thesis using queue_intact_checked [of env "sv_store s"] assms(3, 4) unfolding queue_intact_def by blast
qed

definition sample_worker :: worker_env where
  "sample_worker = \<lparr>wk_bulk = sample_bulk (\<lambda>_ _. False), wk_active_at = (\<lambda>_. None), wk_online = (\<lambda>_. True),
     wk_stop = (\<lambda>_. False), wk_bulk_run = (\<lambda>_. False)\<rparr>"

theorem service_keeps_store_witness:
  "\<exists>s1 r st n. service_start dark_env fresh_server = (Inr False, s1) \<and>
     refresh_round sample_worker (sv_store s1) (sv_net s1) = (r, st, n) \<and> checked_queue quiet_env st \<noteq> None"
proof -
  obtain q s1 where s1: "service_start dark_env fresh_server = (q, s1)" by fastforce
  have "fst (service_start dark_env fresh_server) = Inr False" by code_simp
  then have q: "q = Inr False" using s1 by simp
  obtain r st n where r: "refresh_round sample_worker (sv_store s1) (sv_net s1) = (r, st, n)" by (metis prod_cases3)
  have "service_step (fe_sha quiet_env) (fe_sign quiet_env) fresh_server s1"
    by (rule service_step.Start [OF _ _ s1]) (simp_all add: dark_env_def)
  moreover have "service_step (fe_sha quiet_env) (fe_sign quiet_env) s1 (beside st n s1)"
    by (rule service_step.RefreshGames [OF r])
  ultimately have "(service_step (fe_sha quiet_env) (fe_sign quiet_env))\<^sup>*\<^sup>* fresh_server (beside st n s1)"
    by (meson r_into_rtranclp rtranclp_trans)
  moreover have "sv_store fresh_server = empty_store True" by (simp add: fresh_server_def)
  ultimately have "checked_queue quiet_env (sv_store (beside st n s1)) \<noteq> None"
    using service_keeps_store [of fresh_server True _ _ "beside st n s1" quiet_env] by simp
  then show ?thesis using s1 r q by (auto simp: beside_def)
qed

section \<open>The worker of the queue and the player\<close>

text \<open>C2: the worker of the queue never gets in the way of a game: it begins the requests of a ROM only at a
  moment at which the player has been idle for five minutes, the server can be reached, no bulk run is under
  way and the service is not stopping - also when any of that changes while it works.\<close>

theorem worker_requests_only_idle:
  assumes "drain_cache_queue fuel (worker_drain_env env) c agent keys st n = Some r" "t \<in> set (ds_starts (state_of r))"
  shows "\<not> wk_stop env t \<and> \<not> wk_bulk_run env t \<and> wk_online env t \<and>
    (\<forall>a. wk_active_at env t = Some a \<longrightarrow> a + 5 * 60 * 1000 \<le> t)"
  using starts_unpaused [OF assms(1)] assms(2)
  by (auto simp: unpaused_def worker_drain_env_def queue_can_work_def is_idle_def idle_delay_def
      ONLINE_REFRESH_IDLE_DELAY_MS_def)

definition silent_worker :: worker_env where
  "silent_worker = sample_worker\<lparr>wk_bulk := (wk_bulk sample_worker)\<lparr>bk_drain := silent_env\<rparr>\<rparr>"

theorem worker_requests_only_idle_witness:
  "\<exists>r. drain_cache_queue 4 (worker_drain_env silent_worker) \<lparr>cr_user = ''bob'', cr_token = ''t''\<rparr> ''UA'' None one_waiting idle_net
      = Some r \<and> ds_starts (state_of r) = [1000] \<and> wk_online silent_worker 1000"
proof -
  have env: "worker_drain_env silent_worker = silent_env"
    by (simp add: worker_drain_env_def silent_worker_def sample_worker_def silent_env_def queue_can_work_def is_idle_def idle_delay_def)
  obtain r s where r: "failed_drain = Some (Stop r s)" "ds_starts s = [1000]" using failed_drain_Stop by blast
  then have run: "drain_cache_queue 4 (worker_drain_env silent_worker) \<lparr>cr_user = ''bob'', cr_token = ''t''\<rparr> ''UA'' None one_waiting idle_net
      = Some (Stop r s)" unfolding env failed_drain_def by simp
  from worker_requests_only_idle [OF this, of 1000] show ?thesis using run r(2) by simp
qed

section \<open>A connection lost while the queue is sent\<close>

lemma flush_raises:
  assumes q: "get_pending_awards st = a # as" "verify_chain (fe_sha fe) (fe_sign fe) (a # as) = None"
    and c: "resolve_credentials (fe_net fe) (fe_host fe) (fe_fallback fe) (fe_clock fe) (fe_tokens fe) (fe_passwords fe)
      (proxy_user_agent (fe_tag fe) (fe_fallback fe)) (fe_tag fe) st = Inr (Some c, st2)"
    and r: "refresh_and_load_achievement_ids fe c (filter (is_status STATUS_PENDING) (a # as)) st2 = (Refreshed (known, games, gids), st3)"
    and d: "aw_status a = STATUS_PENDING" "decide_award fe c known gids a = Inl e"
  shows "flush_pending_awards fe st = (Inl e, st3)"
proof -
  have "checked_queue fe st = Some (a # as, st)" using q by (simp add: checked_queue_def)
  then show ?thesis using q(1) c r d by (simp add: flush_pending_awards_def is_status_def)
qed

text \<open>C5: a connection that is lost while the queue is being sent ends the thread that watches for the next one.
  When the watched database file is still the one it was, the server can be reached again, the queue passes its
  checks and the credentials and achievements are loaded, but the first award of the queue, a softcore one to be
  sent, is sent in vain, the error of the request leaves the flush and
  the thread: however many turns it would have had, it has made its last, so the awards that wait are not sent by it
  before the service is started anew.\<close>

theorem lost_connection_ends_monitor:
  fixes env s1
  defines "fe \<equiv> (pe_flush env)\<lparr>fe_clock := wall_now (sv_net s1)\<rparr>"
  assumes "\<not> mo_was_online m" "\<forall>(p, i) \<in> set (mo_inodes m). stat k p = Some i"
    and probe: "refresh_reachability env True (s\<lparr>sv_net := sleep MONITOR_INTERVAL_MS (sv_net s)\<rparr>) = (Inr True, s1)"
    and q: "get_pending_awards (sv_store s1) = a # as" "verify_chain (fe_sha fe) (fe_sign fe) (a # as) = None"
    and c: "resolve_credentials (fe_net fe) (fe_host fe) (fe_fallback fe) (fe_clock fe) (fe_tokens fe) (fe_passwords fe)
      (proxy_user_agent (fe_tag fe) (fe_fallback fe)) (fe_tag fe) (sv_store s1) = Inr (Some c, st2)"
    and r: "refresh_and_load_achievement_ids fe c (filter (is_status STATUS_PENDING) (a # as)) st2 = (Refreshed (known, games, gids), st3)"
    and a: "aw_status a = STATUS_PENDING" "\<not> is_hardcore_award a" "aw_achievement a \<in> set known \<or> map_of gids (aw_achievement a) = None"
    and b: "build_award_request_body (fe_md5 fe) (fe_pubkey fe) a (fe_clock fe) (Some (cr_token c)) = Inr body"
    and lost: "fe_post fe (fe_host fe @ aw_query a) body
      (proxy_user_agent (fe_tag fe) (or_agent (aw_user_agent a) (fe_fallback fe))) = PostFailed"
  shows "monitor_run env stat (Suc k) m s = (Inl UpstreamError, s1\<lparr>sv_store := st3\<rparr>)"
proof -
  have "decide_award fe c known gids a = Inl UpstreamError"
    using a b lost by (auto simp: decide_award_def send_award_def STATUS_PENDING_def STATUS_DELETED_def STATUS_STALE_def STATUS_FLUSHED_def)
  from flush_raises [OF q c r a(1) this]
  have "proxy_flush env s1 = (Inl UpstreamError, s1\<lparr>sv_store := st3\<rparr>)" by (simp add: proxy_flush_def fe_def)
  moreover have "\<not> files_replaced_underneath (stat k) (mo_inodes m)"
    using assms(3) by (auto simp: files_replaced_underneath_def list_ex_iff)
  ultimately show ?thesis using assms(2) probe by (simp add: monitor_round_def bind_op_def)
qed

text \<open>A server that can be reached for the probe and not for the award.\<close>

definition flaky_env :: proxy_env where
  "flaky_env = dark_env\<lparr>pe_ifaces := None, pe_heads := (\<lambda>_ _. Some 200),
     pe_flush := quiet_env\<lparr>fe_tokens := [Some \<lparr>cr_user = ''bob'', cr_token = ''t''\<rparr>]\<rparr>\<rparr>"

definition waiting_award :: award where
  "waiting_award = \<lparr>aw_id = 1, aw_achievement = 7, aw_query = ''/dorequest.php'', aw_body = ''r=awardachievement&a=7&u=bob'',
     aw_user_agent = ''UA'', aw_queued_at = 5000, aw_retries = 0, aw_error = None, aw_status = STATUS_PENDING,
     aw_payload_hash = ''#7|/dorequest.php|r=awardachievement&a=7&u=bob|5000'', aw_prev_hash = GENESIS_HASH,
     aw_signature = ''!#7|/dorequest.php|r=awardachievement&a=7&u=bob|5000:genesis'', aw_signed_at = 5000\<rparr>"

definition award_waiting :: store where
  "award_waiting = (empty_store True)\<lparr>pending_awards := [waiting_award], next_award_id := 2\<rparr>"

definition waiting_server :: server where
  "waiting_server = fresh_server\<lparr>sv_store := award_waiting\<rparr>"

definition offline_monitor :: monitor where
  "offline_monitor = \<lparr>mo_was_online = False, mo_saved = [False], mo_inodes = [(''/raofflineproxy.db'', 12)]\<rparr>"

theorem lost_connection_ends_monitor_witness:
  "\<forall>k. fst (monitor_run flaky_env (\<lambda>_ _. Some 12) (Suc k) offline_monitor waiting_server) = Inl UpstreamError \<and>
   map aw_status (get_pending_awards award_waiting) = [STATUS_PENDING]"
proof -
  let ?s = "waiting_server\<lparr>sv_net := sleep MONITOR_INTERVAL_MS (sv_net waiting_server)\<rparr>"
  define s1 where "s1 = ?s\<lparr>sv_has_internet := True, sv_net := mark True (Some 16000) (sv_net ?s), sv_probes := 1\<rparr>"
  define fe where "fe = (pe_flush flaky_env)\<lparr>fe_clock := wall_now (sv_net s1)\<rparr>"
  have probe: "refresh_reachability flaky_env True ?s = (Inr True, s1)"
    by (simp add: refresh_reachability_def flaky_env_def probe_retroachievements_def should_probe_def head_upstream_def
        has_active_network_interface_def PROBE_ATTEMPTS_def eval_nat_numeral s1_def mark_def is_retroachievements_reachable_def
        sleep_def MONITOR_INTERVAL_MS_def waiting_server_def fresh_server_def)
  have st: "sv_store s1 = award_waiting" by (simp add: s1_def waiting_server_def)
  have fe: "fe = (pe_flush flaky_env)\<lparr>fe_clock := 20000\<rparr>"
    by (simp add: fe_def s1_def wall_now_def mark_def sleep_def MONITOR_INTERVAL_MS_def waiting_server_def fresh_server_def)
  have fields: "fe_sha fe = fe_sha quiet_env" "fe_sign fe = fe_sign quiet_env" "fe_post fe u b x = PostFailed" for u b x
    by (simp_all add: fe flaky_env_def quiet_env_def)
  have a: "get_pending_awards award_waiting = [waiting_award]" by (simp add: get_pending_awards_def award_waiting_def)
  have h: "\<not> is_hardcore_award waiting_award" by code_simp
  have p: "aw_status waiting_award = STATUS_PENDING" "aw_achievement waiting_award = 7" by (simp_all add: waiting_award_def)
  have "verify_chain (fe_sha quiet_env) (fe_sign quiet_env) [waiting_award] = None"
  proof -
    have "str_of_int 5000 = ''5000''" "str_of_int 7 = ''7''"
      by (simp_all add: str_of_int_def str_of_nat.simps digit_char_def) code_simp+
    then have "canonical_payload waiting_award = ''7|/dorequest.php|r=awardachievement&a=7&u=bob|5000''"
      by (simp add: canonical_payload_def waiting_award_def)
    then show ?thesis
      by (simp add: verify_chain_def quiet_env_def sign_input_def waiting_award_def GENESIS_HASH_def)
  qed
  then have chain: "verify_chain (fe_sha fe) (fe_sign fe) [waiting_award] = None" by (simp only: fields)
  have "case resolve_credentials (fe_net fe) (fe_host fe) (fe_fallback fe) (fe_clock fe) (fe_tokens fe) (fe_passwords fe)
      (proxy_user_agent (fe_tag fe) (fe_fallback fe)) (fe_tag fe) award_waiting of
      Inr (Some c, st2) \<Rightarrow> find_achievement_game_ids st2 [7] None = Inr [] \<and> cr_token c = ''t'' | _ \<Rightarrow> False"
    unfolding fe by code_simp
  then obtain c st2 where c: "resolve_credentials (fe_net fe) (fe_host fe) (fe_fallback fe) (fe_clock fe) (fe_tokens fe) (fe_passwords fe)
      (proxy_user_agent (fe_tag fe) (fe_fallback fe)) (fe_tag fe) award_waiting = Inr (Some c, st2)"
    and none: "find_achievement_game_ids st2 [7] None = Inr []" and token: "cr_token c = ''t''" by (auto split: sum.splits prod.splits option.splits)
  have r: "refresh_and_load_achievement_ids fe c (filter (is_status STATUS_PENDING) [waiting_award]) st2 = (Refreshed ([], [], []), st2)"
    using none p by (simp add: refresh_and_load_achievement_ids_def is_status_def)
  have t: "cr_token c = ''t''" using token by simp
  have "case build_award_request_body id [] waiting_award 20000 (Some ''t'') of Inl _ \<Rightarrow> False | Inr _ \<Rightarrow> True"
    by code_simp
  then obtain body where b: "build_award_request_body (fe_md5 fe) (fe_pubkey fe) waiting_award (fe_clock fe) (Some (cr_token c)) = Inr body"
    by (auto simp: t fe flaky_env_def quiet_env_def split: sum.splits)
  have m: "\<not> mo_was_online offline_monitor" "\<forall>(p, i) \<in> set (mo_inodes offline_monitor). (\<lambda>_ _. Some 12) k p = Some i"
    for k :: nat by (simp_all add: offline_monitor_def)
  have "monitor_run flaky_env (\<lambda>_ _. Some 12) (Suc k) offline_monitor waiting_server = (Inl UpstreamError, s1\<lparr>sv_store := st2\<rparr>)" for k
    by (rule lost_connection_ends_monitor [where env = flaky_env and ?s1.0 = s1, folded fe_def, unfolded st, OF m probe a chain c r p(1) h _ b fields(3)])
      simp
  then show ?thesis using a p(1) by (simp del: monitor_run.simps)
qed

end
