(* ===== verification/Update_Check.thy ===== *)
theory Update_Check
  imports Cache_Queue "HOL-Library.Product_Lexorder"
begin

text \<open>
  The search for a newer version (update.py): version names and their order, the releases and the nightly
  build as GitHub lists them, the choice of the newest eligible one, and the answer kept for a day in the
  update status file.  What GitHub answers to each request is a parameter, and so is the version that runs
  (config.py reads it from the environment); the file is its parsed value.
\<close>

section \<open>Versions\<close>

definition STABLE_NIGHTLY_NUMBER :: int where "STABLE_NIGHTLY_NUMBER = -1"
definition UPDATE_CHECK_INTERVAL_SECONDS :: int where "UPDATE_CHECK_INTERVAL_SECONDS = 86400"
definition RELEASES_FETCH_RETRIES :: nat where "RELEASES_FETCH_RETRIES = 3"
definition NIGHTLY_VERSION_SEPARATOR :: string where "NIGHTLY_VERSION_SEPARATOR = ''-nightly.''"

datatype parsed_version = ParsedVersion
  (pv_major: int) (pv_minor: int) (pv_patch: int)
  (pv_stage_rank: int) (pv_stage_number: int) (pv_nightly_number: int)

text \<open>The dataclass is ordered by its fields, first to last.\<close>

definition version_key :: "parsed_version \<Rightarrow> int \<times> int \<times> int \<times> int \<times> int \<times> int" where
  "version_key v = (pv_major v, pv_minor v, pv_patch v, pv_stage_rank v, pv_stage_number v, pv_nightly_number v)"

lemma version_key_inject: "version_key u = version_key v \<longleftrightarrow> u = v"
  by (cases u; cases v) (auto simp: version_key_def)

instantiation parsed_version :: linorder
begin

definition less_eq_parsed_version :: "parsed_version \<Rightarrow> parsed_version \<Rightarrow> bool" where
  "less_eq_parsed_version u v = (version_key u \<le> version_key v)"

definition less_parsed_version :: "parsed_version \<Rightarrow> parsed_version \<Rightarrow> bool" where
  "less_parsed_version u v = (version_key u < version_key v)"

instance
  by standard (auto simp: less_eq_parsed_version_def less_parsed_version_def version_key_inject[symmetric])

end

definition is_nightly :: "parsed_version \<Rightarrow> bool" where
  "is_nightly v = (pv_nightly_number v \<noteq> STABLE_NIGHTLY_NUMBER)"

text \<open>str.partition: the text before the first separator, whether there is one, the text after it.\<close>

fun partition_text :: "string \<Rightarrow> string \<Rightarrow> string \<times> bool \<times> string" where
  "partition_text p [] = ([], False, [])"
| "partition_text p (c # cs) =
     (if starts_with p (c # cs) then ([], True, drop (length p) (c # cs))
      else (let (a, found, b) = partition_text p cs in (c # a, found, b)))"

definition prerelease_stage :: "string \<Rightarrow> (int \<times> string) option" where
  "prerelease_stage t =
     (if starts_with ''alpha'' t then Some (0, removeprefix ''alpha'' t)
      else if starts_with ''beta'' t then Some (1, removeprefix ''beta'' t)
      else None)"

definition parse_base_version :: "string \<Rightarrow> parsed_version option" where
  "parse_base_version s = (case split_on CHR ''.'' (before CHR ''-'' s) of
       [a, b, c] \<Rightarrow>
         (case (py_int a, py_int b, py_int c) of
            (Some major, Some minor, Some patch) \<Rightarrow>
              (if CHR ''-'' \<notin> set s
               then Some (ParsedVersion major minor patch 2 (2 ^ 31 - 1) STABLE_NIGHTLY_NUMBER)
               else (case prerelease_stage (lower (after CHR ''-'' s)) of
                       None \<Rightarrow> None
                     | Some (rank, number) \<Rightarrow>
                        (if number = [] then None
                         else map_option (\<lambda>n. ParsedVersion major minor patch rank n STABLE_NIGHTLY_NUMBER) (py_int number))))
          | _ \<Rightarrow> None)
     | _ \<Rightarrow> None)"

definition with_nightly :: "int \<Rightarrow> parsed_version \<Rightarrow> parsed_version" where
  "with_nightly n v =
     ParsedVersion (pv_major v) (pv_minor v) (pv_patch v) (pv_stage_rank v) (pv_stage_number v) n"

definition parse_version :: "string \<Rightarrow> parsed_version option" where
  "parse_version raw =
     (let (base, found, number) = partition_text NIGHTLY_VERSION_SEPARATOR (removeprefix ''v'' (strip raw)) in
      case parse_base_version base of
        None \<Rightarrow> None
      | Some v \<Rightarrow>
          (if \<not> found then Some v
           else if isdigit number then Some (with_nightly (int (nat_of_digits number)) v)
           else None))"

section \<open>What GitHub lists\<close>

datatype fetch_answer = Body string | HttpStatus int | NoAnswer

definition should_retry_release_fetch :: "int \<Rightarrow> bool" where
  "should_retry_release_fetch c = (c = 429 \<or> c \<ge> 500)"

text \<open>The loop over the attempts: net k is the answer to attempt k.\<close>

fun fetch_body :: "nat \<Rightarrow> (nat \<Rightarrow> fetch_answer) \<Rightarrow> nat \<Rightarrow> string option" where
  "fetch_body 0 net k = None"
| "fetch_body (Suc left) net k = (case net k of
       Body b \<Rightarrow> Some b
     | HttpStatus c \<Rightarrow> if should_retry_release_fetch c then fetch_body left net (Suc k) else None
     | NoAnswer \<Rightarrow> fetch_body left net (Suc k))"

text \<open>JNull stands for None, as it does for the value null.\<close>

definition fetch_github_json :: "(nat \<Rightarrow> fetch_answer) \<Rightarrow> json" where
  "fetch_github_json net = (case fetch_body RELEASES_FETCH_RETRIES net 1 of
       None \<Rightarrow> JNull
     | Some b \<Rightarrow> catch (loads b) JNull)"

definition platform_asset :: "string \<Rightarrow> (string \<times> string) option" where
  "platform_asset platform = map_of
     [(''knulli'', ''knulli'', ''.sh''), (''onion'', ''onion'', ''.zip''), (''spruce'', ''spruce'', ''.zip''),
      (''muos'', ''muos'', ''.muxapp''), (''rocknix'', ''rocknix'', ''.sh''),
      (''allium'', ''allium'', ''.zip''), (''darkos'', ''darkos'', ''.sh'')] platform"

definition asset_fits :: "string \<Rightarrow> string \<Rightarrow> bool" where
  "asset_fits platform name = (case platform_asset platform of
       None \<Rightarrow> False | Some (word, suffix) \<Rightarrow> contains word (lower name) \<and> ends_with suffix (lower name))"

fun find_platform_asset_url :: "string \<Rightarrow> json list \<Rightarrow> string option res" where
  "find_platform_asset_url platform [] = Inr None"
| "find_platform_asset_url platform (a # as) =
     bind_res (jget ''name'' JNull a) (\<lambda>name.
     bind_res (jget ''browser_download_url'' JNull a) (\<lambda>url.
       if asset_fits platform (label_text name) \<and> strip (label_text url) \<noteq> []
       then Inr (Some (strip (label_text url)))
       else find_platform_asset_url platform as))"

record release_candidate =
  rc_version :: string
  rc_parsed :: parsed_version
  rc_url :: string
  rc_asset :: string

definition parse_release :: "string \<Rightarrow> json \<Rightarrow> string \<Rightarrow> release_candidate option res" where
  "parse_release platform release raw =
     bind_res (jget ''draft'' JNull release) (\<lambda>draft.
     if truthy draft then Inr None
     else
       let name = removeprefix ''v'' (strip raw) in
       case parse_version name of
         None \<Rightarrow> Inr None
       | Some v \<Rightarrow>
           bind_res (jget ''html_url'' JNull release) (\<lambda>page.
           if strip (label_text page) = [] then Inr None
           else
             bind_res (jget ''assets'' JNull release) (\<lambda>assets.
             bind_res (json_items (py_or assets (JList []))) (\<lambda>items.
             bind_res (find_platform_asset_url platform items) (\<lambda>url.
               Inr (map_option (\<lambda>u. \<lparr>rc_version = name, rc_parsed = v,
                     rc_url = strip (label_text page), rc_asset = u\<rparr>) url))))))"

definition tagged_release :: "string \<Rightarrow> json \<Rightarrow> release_candidate option res" where
  "tagged_release platform release =
     bind_res (jget ''tag_name'' JNull release) (\<lambda>tag. parse_release platform release (label_text tag))"

definition fetch_releases :: "(nat \<Rightarrow> fetch_answer) \<Rightarrow> string \<Rightarrow> release_candidate list option res" where
  "fetch_releases net platform =
     (let data = fetch_github_json net in
      if data = JNull then Inr None
      else bind_res (json_items data) (\<lambda>releases.
           bind_res (map_res (tagged_release platform) releases) (\<lambda>found.
             Inr (Some (List.map_filter id found)))))"

definition nightly_version_name :: "json \<Rightarrow> string" where
  "nightly_version_name release = last (split_on CHR '' '' (strip (label_text (field ''name'' JNull release))))"

definition fetch_nightly_releases :: "(nat \<Rightarrow> fetch_answer) \<Rightarrow> string \<Rightarrow> release_candidate list res" where
  "fetch_nightly_releases net platform =
     (let data = fetch_github_json net in
      if \<not> is_obj data then Inr []
      else bind_res (parse_release platform data (nightly_version_name data)) (\<lambda>found.
             Inr (case found of
                    Some c \<Rightarrow> if is_nightly (rc_parsed c) then [c] else []
                  | None \<Rightarrow> [])))"

section \<open>The newest eligible release\<close>

record github =
  gh_releases :: "nat \<Rightarrow> fetch_answer"
  gh_nightly :: "nat \<Rightarrow> fetch_answer"

text \<open>max with a key: the first of the greatest elements.\<close>

fun newest :: "release_candidate \<Rightarrow> release_candidate list \<Rightarrow> release_candidate" where
  "newest best [] = best"
| "newest best (c # cs) = newest (if rc_parsed best < rc_parsed c then c else best) cs"

definition eligible :: "parsed_version \<Rightarrow> release_candidate \<Rightarrow> bool" where
  "eligible current c = (current < rc_parsed c \<and> (is_nightly current \<or> \<not> is_nightly (rc_parsed c)))"

definition pick_newest :: "parsed_version \<Rightarrow> release_candidate list \<Rightarrow> release_candidate option" where
  "pick_newest current cs = (case filter (eligible current) cs of
       [] \<Rightarrow> None | c # rest \<Rightarrow> Some (newest c rest))"

text \<open>Whether GitHub answered, and the release to offer.\<close>

definition fetch_latest_release ::
  "github \<Rightarrow> string \<Rightarrow> string \<Rightarrow> (bool \<times> release_candidate option) res" where
  "fetch_latest_release gh platform running = (case parse_version running of
       None \<Rightarrow> Inr (True, None)
     | Some current \<Rightarrow>
         bind_res (fetch_releases (gh_releases gh) platform) (\<lambda>releases. case releases of
           None \<Rightarrow> Inr (False, None)
         | Some listed \<Rightarrow>
             bind_res (if is_nightly current then fetch_nightly_releases (gh_nightly gh) platform else Inr [])
               (\<lambda>nightly. Inr (True, pick_newest current (listed @ nightly)))))"

section \<open>The answer and its cache\<close>

record update_info =
  ui_current :: string
  ui_available :: bool
  ui_latest :: "string option"
  ui_release_url :: "string option"
  ui_asset_url :: "string option"
  ui_checked_at :: int

definition opt_json :: "string option \<Rightarrow> json" where
  "opt_json s = (case s of None \<Rightarrow> JNull | Some t \<Rightarrow> JStr t)"

definition info_dict :: "update_info \<Rightarrow> json" where
  "info_dict i = JObj [(''current_version'', JStr (ui_current i)), (''update_available'', JBool (ui_available i)),
     (''latest_version'', opt_json (ui_latest i)), (''release_url'', opt_json (ui_release_url i)),
     (''asset_url'', opt_json (ui_asset_url i)), (''checked_at'', JInt (ui_checked_at i))]"

text \<open>The state file: absent, or what it holds; a file that is not JSON counts as absent.\<close>

definition load_update_status :: "json option \<Rightarrow> json option res" where
  "load_update_status f = (case f of
       None \<Rightarrow> Inr None | Some v \<Rightarrow> if is_obj v then Inr (Some v) else Inl ValueError)"

definition status_payload :: "json option \<Rightarrow> json res" where
  "status_payload f = bind_res (load_update_status f) (\<lambda>v.
     Inr (case v of None \<Rightarrow> JObj [] | Some d \<Rightarrow> py_or d (JObj [])))"

definition load_cached_update_status :: "string \<Rightarrow> json option \<Rightarrow> json option res" where
  "load_cached_update_status platform f = bind_res (status_payload f) (\<lambda>d.
     let c = field platform JNull d in Inr (if is_obj c then Some c else None))"

definition save_cached_update_status :: "string \<Rightarrow> update_info \<Rightarrow> json option \<Rightarrow> json option res" where
  "save_cached_update_status platform i f = bind_res (status_payload f) (\<lambda>d.
     Inr (Some (set_field platform (info_dict i) d)))"

definition resolve_cached_update_available :: "string \<Rightarrow> string option \<Rightarrow> bool \<Rightarrow> bool" where
  "resolve_cached_update_available running latest cached = (case latest of
       None \<Rightarrow> False
     | Some l \<Rightarrow>
         (case (parse_version running, parse_version l) of
            (Some current, Some v) \<Rightarrow> current < v
          | _ \<Rightarrow> cached))"

definition or_none :: "string \<Rightarrow> string option" where
  "or_none s = (if s = [] then None else Some s)"

definition checked_time :: "json \<Rightarrow> int res" where
  "checked_time d = (let t = field ''checked_at'' JNull d in if truthy t then py_int_of t else Inr 0)"

definition dict_to_update_info :: "string \<Rightarrow> json \<Rightarrow> update_info res" where
  "dict_to_update_info running d =
     (let latest = or_none (label_text (field ''latest_version'' JNull d));
          available = resolve_cached_update_available running latest (truthy (field ''update_available'' JNull d));
          shown = (\<lambda>s. if available then s else None)
      in bind_res (checked_time d) (\<lambda>t.
           Inr \<lparr>ui_current = running, ui_available = available, ui_latest = shown latest,
             ui_release_url = shown (or_none (label_text (field ''release_url'' JNull d))),
             ui_asset_url = shown (or_none (label_text (field ''asset_url'' JNull d))),
             ui_checked_at = t\<rparr>))"

definition validate_platform :: "string \<Rightarrow> string res" where
  "validate_platform p =
     (if platform_asset (lower (strip p)) = None then Inl ValueError else Inr (lower (strip p)))"

definition unknown_update :: "string \<Rightarrow> update_info" where
  "unknown_update running = \<lparr>ui_current = running, ui_available = False, ui_latest = None,
     ui_release_url = None, ui_asset_url = None, ui_checked_at = 0\<rparr>"

definition offered_update :: "string \<Rightarrow> int \<Rightarrow> release_candidate option \<Rightarrow> update_info" where
  "offered_update running now latest = \<lparr>ui_current = running, ui_available = (latest \<noteq> None),
     ui_latest = map_option rc_version latest, ui_release_url = map_option rc_url latest,
     ui_asset_url = map_option rc_asset latest, ui_checked_at = now\<rparr>"

definition fresh_update :: "json option \<Rightarrow> int \<Rightarrow> bool \<Rightarrow> bool res" where
  "fresh_update cached now force = (case cached of
       None \<Rightarrow> Inr False
     | Some d \<Rightarrow>
         (if force then Inr False
          else bind_res (checked_time d) (\<lambda>t. Inr (t > 0 \<and> now - t < UPDATE_CHECK_INTERVAL_SECONDS))))"

text \<open>The answer and the state file afterwards.\<close>

definition update_status ::
  "github \<Rightarrow> string \<Rightarrow> int \<Rightarrow> string \<Rightarrow> bool \<Rightarrow> json option \<Rightarrow> (update_info \<times> json option) res" where
  "update_status gh running now platform force f =
     bind_res (validate_platform platform) (\<lambda>p.
     bind_res (load_cached_update_status p f) (\<lambda>cached.
     bind_res (fresh_update cached now force) (\<lambda>fresh.
     if fresh then bind_res (dict_to_update_info running (the cached)) (\<lambda>i. Inr (i, f))
     else
       bind_res (fetch_latest_release gh p running) (\<lambda>(ok, latest).
       if \<not> ok then
         (case cached of
            Some d \<Rightarrow> bind_res (dict_to_update_info running d) (\<lambda>i. Inr (i, f))
          | None \<Rightarrow> Inr (unknown_update running, f))
       else
         let i = offered_update running now latest
         in bind_res (save_cached_update_status p i f) (\<lambda>f1. Inr (i, f1))))))"

end
