(* ===== verification/Update_Laws.thy ===== *)
theory Update_Laws
  imports Update_Check
begin

text \<open>
  What the update check promises: version names are ordered as their stages are, the release offered is the
  newest eligible one, and an answer stands for a day.
\<close>

section \<open>Version names\<close>

definition version_text :: "nat \<Rightarrow> nat \<Rightarrow> nat \<Rightarrow> string" where
  "version_text a b c = str_of_nat a @ CHR ''.'' # str_of_nat b @ CHR ''.'' # str_of_nat c"

lemma digits_avoid:
  assumes "\<not> is_digit x"
  shows "x \<notin> set (str_of_nat n)"
  using assms str_of_nat_set by blast

lemma version_text_set: "x \<in> set (version_text a b c) \<Longrightarrow> is_digit x \<or> x = CHR ''.''"
  by (auto simp: version_text_def dest: str_of_nat_set)

lemma version_text_avoid:
  assumes "\<not> is_digit x" and "x \<noteq> CHR ''.''"
  shows "x \<notin> set (version_text a b c)"
  using assms version_text_set by blast

lemma split_version_text [simp]:
  "split_on CHR ''.'' (version_text a b c) = [str_of_nat a, str_of_nat b, str_of_nat c]"
  by (simp add: version_text_def split_on_append split_on_none digits_avoid is_digit_def)

lemma py_int_str_of_nat [simp]: "py_int (str_of_nat n) = Some (int n)"
  by (simp add: py_int_digits str_of_nat_digits)

lemma before_absent: "c \<notin> set s \<Longrightarrow> before c s = s"
  unfolding before_def by (induction s) auto

lemma parse_base_release [simp]:
  "parse_base_version (version_text a b c) =
     Some (ParsedVersion (int a) (int b) (int c) 2 (2 ^ 31 - 1) STABLE_NIGHTLY_NUMBER)"
proof -
  have none: "CHR ''-'' \<notin> set (version_text a b c)"
    by (rule version_text_avoid) (simp_all add: is_digit_def)
  then have "before CHR ''-'' (version_text a b c) = version_text a b c"
    by (rule before_absent)
  then show ?thesis
    using none by (simp add: parse_base_version_def)
qed

lemma parse_base_stage:
  assumes "prerelease_stage (lower t) = Some (rank, str_of_nat n)"
  shows "parse_base_version (version_text a b c @ CHR ''-'' # t) =
     Some (ParsedVersion (int a) (int b) (int c) rank (int n) STABLE_NIGHTLY_NUMBER)"
proof -
  have none: "CHR ''-'' \<notin> set (version_text a b c)"
    by (rule version_text_avoid) (simp_all add: is_digit_def)
  then show ?thesis
    using assms by (simp add: parse_base_version_def)
qed

lemma partition_absent:
  assumes "x \<in> set p" and "x \<notin> set s"
  shows "partition_text p s = (s, False, [])"
  using assms(2)
proof (induction s)
  case (Cons c cs)
  then have "\<not> starts_with p (c # cs)"
    using assms(1) by (metis Un_iff set_append starts_with_iff)
  then show ?case using Cons by simp
qed simp

lemma partition_present:
  assumes "p = d # ds" and "d \<notin> set s"
  shows "partition_text p (s @ p @ t) = (s, True, t)"
  using assms(2)
proof (induction s)
  case Nil
  have "starts_with p (d # ds @ t)"
    using assms(1) starts_with_append[of p t] by simp
  then show ?case using assms(1) by simp
next
  case (Cons c cs)
  then show ?case using assms(1) by simp
qed

lemma lower_stage_text:
  "lower (''alpha'' @ str_of_nat n) = ''alpha'' @ str_of_nat n"
  "lower (''beta'' @ str_of_nat n) = ''beta'' @ str_of_nat n"
proof -
  have "lower (str_of_nat n) = str_of_nat n"
    unfolding lower_def by (rule map_idI) (auto dest: str_of_nat_set)
  then show "lower (''alpha'' @ str_of_nat n) = ''alpha'' @ str_of_nat n"
    "lower (''beta'' @ str_of_nat n) = ''beta'' @ str_of_nat n"
    by (simp_all add: lower_def lower_char_def is_upper_def)
qed

lemma strip_version:
  assumes "\<And>c. c \<in> set s \<Longrightarrow> \<not> is_space c"
  shows "strip (version_text a b c @ s) = version_text a b c @ s"
  by (rule strip_no_space) (use assms in \<open>auto simp: list_all_iff is_space_def is_digit_def dest: version_text_set\<close>)

lemma no_v_version [simp]: "removeprefix ''v'' (version_text a b c @ s) = version_text a b c @ s"
proof -
  have "CHR ''v'' \<notin> set (version_text a b c)"
    by (rule version_text_avoid) (simp_all add: is_digit_def)
  moreover have "version_text a b c \<noteq> []" by (simp add: version_text_def)
  ultimately have "\<not> starts_with ''v'' (version_text a b c @ s)"
    by (cases "version_text a b c") auto
  then show ?thesis by (simp add: removeprefix_def)
qed

lemma parse_version_release:
  "parse_version (version_text a b c) =
     Some (ParsedVersion (int a) (int b) (int c) 2 (2 ^ 31 - 1) STABLE_NIGHTLY_NUMBER)"
proof -
  have "CHR ''n'' \<notin> set (version_text a b c)"
    by (rule version_text_avoid) (simp_all add: is_digit_def)
  then have "partition_text NIGHTLY_VERSION_SEPARATOR (version_text a b c) = (version_text a b c, False, [])"
    by (intro partition_absent[where x = "CHR ''n''"]) (simp_all add: NIGHTLY_VERSION_SEPARATOR_def)
  then show ?thesis
    using strip_version[of "[]"] no_v_version[of a b c "[]"] by (simp add: parse_version_def)
qed

lemma parse_version_stage:
  assumes "t = w @ str_of_nat n" and "(w, rank) = (''alpha'', 0) \<or> (w, rank) = (''beta'', 1)"
  shows "parse_version (version_text a b c @ CHR ''-'' # t) =
     Some (ParsedVersion (int a) (int b) (int c) rank (int n) STABLE_NIGHTLY_NUMBER)"
proof -
  let ?v = "version_text a b c @ CHR ''-'' # t"
  have "CHR ''n'' \<notin> set (version_text a b c)" "CHR ''n'' \<notin> set (str_of_nat n)"
    by (rule version_text_avoid digits_avoid; simp add: is_digit_def)+
  then have "CHR ''n'' \<notin> set ?v" using assms by auto
  then have "partition_text NIGHTLY_VERSION_SEPARATOR ?v = (?v, False, [])"
    by (intro partition_absent[where x = "CHR ''n''"]) (simp_all add: NIGHTLY_VERSION_SEPARATOR_def)
  moreover have "strip ?v = ?v"
    by (rule strip_version) (use assms in \<open>auto simp: is_space_def is_digit_def dest!: str_of_nat_set\<close>)
  moreover have "prerelease_stage (lower t) = Some (rank, str_of_nat n)"
    using assms lower_stage_text[of n] by (elim disjE) (simp_all add: prerelease_stage_def removeprefix_def)
  ultimately show ?thesis
    by (simp add: parse_version_def parse_base_stage)
qed

lemma parse_version_nightly:
  "parse_version (version_text a b c @ NIGHTLY_VERSION_SEPARATOR @ str_of_nat n) =
     Some (ParsedVersion (int a) (int b) (int c) 2 (2 ^ 31 - 1) (int n))"
proof -
  have "CHR ''-'' \<notin> set (version_text a b c)"
    by (rule version_text_avoid) (simp_all add: is_digit_def)
  then have "partition_text NIGHTLY_VERSION_SEPARATOR (version_text a b c @ NIGHTLY_VERSION_SEPARATOR @ str_of_nat n)
      = (version_text a b c, True, str_of_nat n)"
    by (intro partition_present[where d = "CHR ''-''" and ds = "''nightly.''"]) (simp_all add: NIGHTLY_VERSION_SEPARATOR_def)
  moreover have "strip (version_text a b c @ NIGHTLY_VERSION_SEPARATOR @ str_of_nat n)
      = version_text a b c @ NIGHTLY_VERSION_SEPARATOR @ str_of_nat n"
    by (rule strip_version)
      (auto simp: NIGHTLY_VERSION_SEPARATOR_def is_space_def is_digit_def dest!: str_of_nat_set)
  ultimately show ?thesis
    by (simp add: parse_version_def str_of_nat_digits with_nightly_def)
qed

text \<open>
  Of one version number the alpha builds come first, then the betas, the release and the nightly builds
  after it, each stage in the order of its numbers; a larger version number comes after all of them.
\<close>

theorem version_stages_ordered:
  defines "v s \<equiv> the (parse_version s)"
  shows "v (version_text a b c @ ''-alpha'' @ str_of_nat i) < v (version_text a b c @ ''-beta'' @ str_of_nat j)
    \<and> v (version_text a b c @ ''-beta'' @ str_of_nat j) < v (version_text a b c)
    \<and> v (version_text a b c) < v (version_text a b c @ NIGHTLY_VERSION_SEPARATOR @ str_of_nat n)
    \<and> v (version_text a b c @ NIGHTLY_VERSION_SEPARATOR @ str_of_nat n)
        < v (version_text a b (Suc c) @ ''-alpha'' @ str_of_nat i)
    \<and> (v (version_text a b c @ ''-alpha'' @ str_of_nat i) < v (version_text a b c @ ''-alpha'' @ str_of_nat j) \<longleftrightarrow> i < j)
    \<and> (v (version_text a b c) < v (version_text a' b' c') \<longleftrightarrow> (a, b, c) < (a', b', c'))"
  unfolding v_def
  using parse_version_stage[of "''alpha'' @ str_of_nat i" "''alpha''" i 0]
    parse_version_stage[of "''alpha'' @ str_of_nat j" "''alpha''" j 0]
    parse_version_stage[of "''beta'' @ str_of_nat j" "''beta''" j 1]
  by (auto simp: parse_version_release parse_version_nightly less_parsed_version_def version_key_def
      STABLE_NIGHTLY_NUMBER_def)

section \<open>The release offered\<close>

lemma newest_in: "newest b cs \<in> set (b # cs)"
  by (induction cs arbitrary: b) auto

lemma newest_greatest: "d \<in> set (b # cs) \<Longrightarrow> rc_parsed d \<le> rc_parsed (newest b cs)"
proof (induction cs arbitrary: b d)
  case (Cons c cs)
  show ?case
  proof (cases "rc_parsed b < rc_parsed c")
    case True
    then show ?thesis
      using Cons.prems Cons.IH[of c c] Cons.IH[of d c] by (auto intro: order_trans less_imp_le)
  next
    case False
    then show ?thesis
      using Cons.prems Cons.IH[of b b] Cons.IH[of d b] by (auto simp: not_less intro: order_trans)
  qed
qed simp

lemma pick_newest_None: "pick_newest cur cs = None \<longleftrightarrow> (\<forall>c \<in> set cs. \<not> eligible cur c)"
  by (cases "filter (eligible cur) cs") (auto simp: pick_newest_def filter_empty_conv filter_eq_Cons_iff)

lemma pick_newest_Some:
  assumes "pick_newest cur cs = Some c"
  shows "c \<in> set cs \<and> eligible cur c \<and> (\<forall>d \<in> set cs. eligible cur d \<longrightarrow> rc_parsed d \<le> rc_parsed c)"
proof -
  obtain b rest where f: "filter (eligible cur) cs = b # rest" and c: "c = newest b rest"
    using assms by (auto simp: pick_newest_def split: list.splits)
  have "c \<in> set (filter (eligible cur) cs)"
    unfolding f c by (rule newest_in)
  moreover have "rc_parsed d \<le> rc_parsed c" if "d \<in> set (filter (eligible cur) cs)" for d
    using that unfolding f c by (rule newest_greatest)
  ultimately show ?thesis by auto
qed

section \<open>Samples\<close>

definition sample_release :: "string \<Rightarrow> json" where
  "sample_release tag = JObj [(''draft'', JBool False), (''tag_name'', JStr tag), (''html_url'', JStr (''https://r/'' @ tag)),
     (''assets'', JList [JObj [(''name'', JStr ''onion.zip''), (''browser_download_url'', JStr ''https://a/z'')],
        JObj [(''name'', JStr ''RAOfflineProxy-knulli.sh''), (''browser_download_url'', JStr (''https://a/'' @ tag))]])]"

definition sample_github :: github where
  "sample_github = \<lparr>gh_releases = (\<lambda>k. if k = 1 then HttpStatus 503
       else Body (dumps (JList [sample_release ''v2.3.0-beta2'', sample_release ''v2.3.0'', sample_release ''v2.2.9'']))),
     gh_nightly = (\<lambda>_. NoAnswer)\<rparr>"

definition sample_candidate :: "string \<Rightarrow> release_candidate" where
  "sample_candidate tag = \<lparr>rc_version = removeprefix ''v'' tag, rc_parsed = the (parse_version tag),
     rc_url = ''https://r/'' @ tag, rc_asset = ''https://a/'' @ tag\<rparr>"

lemma sample_parse:
  "tagged_release ''knulli'' (sample_release ''v2.3.0-beta2'') = Inr (Some (sample_candidate ''v2.3.0-beta2''))"
  "tagged_release ''knulli'' (sample_release ''v2.3.0'') = Inr (Some (sample_candidate ''v2.3.0''))"
  "tagged_release ''knulli'' (sample_release ''v2.2.9'') = Inr (Some (sample_candidate ''v2.2.9''))"
  by code_simp+

lemma sample_releases:
  "fetch_releases (gh_releases sample_github) ''knulli'' =
     Inr (Some [sample_candidate ''v2.3.0-beta2'', sample_candidate ''v2.3.0'', sample_candidate ''v2.2.9''])"
proof -
  have "json_plain (JList [sample_release ''v2.3.0-beta2'', sample_release ''v2.3.0'', sample_release ''v2.2.9''])"
    by code_simp
  then have "fetch_github_json (gh_releases sample_github) =
      JList [sample_release ''v2.3.0-beta2'', sample_release ''v2.3.0'', sample_release ''v2.2.9'']"
    by (simp add: fetch_github_json_def sample_github_def RELEASES_FETCH_RETRIES_def numeral_3_eq_3
        should_retry_release_fetch_def)
  then show ?thesis
    by (simp add: fetch_releases_def json_items_def sample_parse map_filter_simps)
qed

lemma sample_nightly: "fetch_nightly_releases (gh_nightly sample_github) ''knulli'' = Inr []"
  by code_simp

lemma sample_order:
  "parse_version ''2.3.0-alpha1'' = Some (ParsedVersion 2 3 0 0 1 (- 1))"
  "rc_parsed (sample_candidate ''v2.3.0-beta2'') = ParsedVersion 2 3 0 1 2 (- 1)"
  "rc_parsed (sample_candidate ''v2.3.0'') = ParsedVersion 2 3 0 2 2147483647 (- 1)"
  "rc_parsed (sample_candidate ''v2.2.9'') = ParsedVersion 2 2 9 2 2147483647 (- 1)"
  by code_simp+


text \<open>C40: 
  The release offered is listed for the platform, newer than the running version, not a nightly build
  unless a nightly build is running, and no other such release is newer than it; nothing is offered only
  when there is none.
\<close>

theorem update_offers_newest:
  assumes run: "parse_version running = Some cur"
    and listed: "fetch_releases (gh_releases gh) p = Inr (Some listed)"
    and nightly: "fetch_nightly_releases (gh_nightly gh) p = Inr nightly"
  defines "offers \<equiv> {c \<in> set listed \<union> (if is_nightly cur then set nightly else {}).
      cur < rc_parsed c \<and> (is_nightly (rc_parsed c) \<longrightarrow> is_nightly cur)}"
  shows "\<exists>latest. fetch_latest_release gh p running = Inr (True, latest)
    \<and> (latest = None \<longleftrightarrow> offers = {})
    \<and> (\<forall>c. latest = Some c \<longrightarrow> c \<in> offers \<and> (\<forall>d \<in> offers. rc_parsed d \<le> rc_parsed c))"
proof -
  let ?cs = "listed @ (if is_nightly cur then nightly else [])"
  have offers: "offers = {c \<in> set ?cs. eligible cur c}"
    by (auto simp: offers_def eligible_def)
  have "fetch_latest_release gh p running = Inr (True, pick_newest cur ?cs)"
    using run listed nightly by (simp add: fetch_latest_release_def)
  moreover have "pick_newest cur ?cs = None \<longleftrightarrow> offers = {}"
    unfolding offers pick_newest_None by blast
  moreover have "c \<in> offers \<and> (\<forall>d \<in> offers. rc_parsed d \<le> rc_parsed c)" if "pick_newest cur ?cs = Some c" for c
    using pick_newest_Some[OF that] unfolding offers by blast
  ultimately show ?thesis by (intro exI[of _ "pick_newest cur ?cs"] conjI allI impI) simp_all
qed

lemma update_offers_newest_witness:
  "\<exists>latest. fetch_latest_release sample_github ''knulli'' ''2.3.0-alpha1'' = Inr (True, latest) \<and> latest \<noteq> None"
proof -
  let ?cs = "[sample_candidate ''v2.3.0-beta2'', sample_candidate ''v2.3.0'', sample_candidate ''v2.2.9'']"
  let ?offers = "{c \<in> set ?cs \<union> (if is_nightly (ParsedVersion 2 3 0 0 1 (- 1)) then set [] else {}).
      ParsedVersion 2 3 0 0 1 (- 1) < rc_parsed c \<and> (is_nightly (rc_parsed c) \<longrightarrow> is_nightly (ParsedVersion 2 3 0 0 1 (- 1)))}"
  have "sample_candidate ''v2.3.0'' \<in> ?offers"
    by (simp add: sample_order less_parsed_version_def version_key_def is_nightly_def STABLE_NIGHTLY_NUMBER_def)
  then show ?thesis
    using update_offers_newest[OF sample_order(1) sample_releases sample_nightly] by blast
qed

section \<open>The answer kept\<close>

text \<open>A release that is listed has a version that parses and two addresses that are not empty.\<close>

definition sound_release :: "release_candidate \<Rightarrow> bool" where
  "sound_release c = (parse_version (rc_version c) = Some (rc_parsed c) \<and> rc_url c \<noteq> [] \<and> rc_asset c \<noteq> [])"

lemma asset_url_full: "find_platform_asset_url p as = Inr (Some u) \<Longrightarrow> u \<noteq> []"
  by (induction as) (auto simp: bind_res_Inr_iff split: if_splits)

lemma parse_release_sound: "parse_release p r t = Inr (Some c) \<Longrightarrow> sound_release c"
  by (auto simp: parse_release_def bind_res_Inr_iff Let_def sound_release_def dest: asset_url_full
      split: if_splits option.splits)

lemma releases_sound: "fetch_releases net p = Inr (Some cs) \<Longrightarrow> c \<in> set cs \<Longrightarrow> sound_release c"
  by (auto simp: fetch_releases_def tagged_release_def bind_res_Inr_iff Let_def set_map_filter
      dest!: map_res_set intro: parse_release_sound split: if_splits)

lemma nightly_sound:
  assumes "fetch_nightly_releases net p = Inr cs" and "c \<in> set cs"
  shows "sound_release c"
proof (cases "is_obj (fetch_github_json net)")
  case True
  then obtain found where "parse_release p (fetch_github_json net) (nightly_version_name (fetch_github_json net)) = Inr found"
    and "cs = (case found of Some c \<Rightarrow> if is_nightly (rc_parsed c) then [c] else [] | None \<Rightarrow> [])"
    using assms(1) by (auto simp: fetch_nightly_releases_def bind_res_Inr_iff Let_def)
  then show ?thesis
    using assms(2) parse_release_sound by (cases found) (auto split: if_splits)
qed (use assms in \<open>simp add: fetch_nightly_releases_def Let_def\<close>)

lemma latest_sound:
  assumes "fetch_latest_release gh p running = Inr (True, Some c)"
  shows "sound_release c \<and> (\<exists>cur. parse_version running = Some cur \<and> cur < rc_parsed c)"
proof -
  obtain cur listed nightly where "parse_version running = Some cur"
    and l: "fetch_releases (gh_releases gh) p = Inr (Some listed)"
    and n: "(if is_nightly cur then fetch_nightly_releases (gh_nightly gh) p else Inr []) = Inr nightly"
    and c: "pick_newest cur (listed @ nightly) = Some c"
    using assms
    by (auto simp: fetch_latest_release_def bind_res_Inr_iff split: option.splits)
  moreover have "c \<in> set listed \<or> c \<in> set nightly" "cur < rc_parsed c"
    using pick_newest_Some[OF c] by (auto simp: eligible_def)
  moreover have "sound_release c"
    using calculation(5) l n releases_sound nightly_sound by (auto split: if_splits)
  ultimately show ?thesis by blast
qed

lemma label_text_simps [simp]: "label_text (JStr s) = s" "label_text JNull = []"
  by (auto simp: label_text_def)

lemma parse_empty_version: "parse_version [] = None"
  by code_simp

lemma offered_reads_back:
  assumes "latest = None \<or> (\<exists>c cur. latest = Some c \<and> sound_release c \<and> parse_version running = Some cur
      \<and> cur < rc_parsed c)"
  shows "dict_to_update_info running (info_dict (offered_update running now latest)) =
    Inr (offered_update running now latest)"
proof (cases latest)
  case (Some c)
  then have "rc_version c \<noteq> []"
    using assms parse_empty_version by (auto simp: sound_release_def)
  then show ?thesis
    using Some assms
    by (auto simp: dict_to_update_info_def info_dict_def offered_update_def opt_json_def field_def or_none_def
        resolve_cached_update_available_def sound_release_def checked_time_def)
next
  case None
  then show ?thesis
    by (auto simp: dict_to_update_info_def info_dict_def offered_update_def opt_json_def field_def or_none_def
        resolve_cached_update_available_def checked_time_def)
qed

lemma status_payload_obj: "status_payload f = Inr d \<Longrightarrow> \<exists>ps. d = JObj ps"
  by (cases f) (auto simp: status_payload_def load_update_status_def bind_res_Inr_iff py_or_def is_obj_def
      split: if_splits json.splits)

lemma saved_update_loads:
  assumes "save_cached_update_status p i f = Inr f1"
  shows "load_cached_update_status p f1 = Inr (Some (info_dict i))"
proof -
  obtain d where d: "status_payload f = Inr d" and f1: "f1 = Some (set_field p (info_dict i) d)"
    using assms by (auto simp: save_cached_update_status_def bind_res_Inr_iff)
  obtain ps where ps: "d = JObj ps"
    using status_payload_obj[OF d] by blast
  have "AList.update p (info_dict i) ps \<noteq> []"
    by (cases ps) auto
  then have "status_payload f1 = Inr (JObj (AList.update p (info_dict i) ps))"
    unfolding f1 ps by (simp add: status_payload_def load_update_status_def is_obj_def set_field_def py_or_def)
  moreover have "is_obj (info_dict i)" by (simp add: info_dict_def is_obj_def)
  ultimately show ?thesis
    by (simp add: load_cached_update_status_def field_def update_conv')
qed

text \<open>
  An answer that carries a time of checking is given again, without a question to GitHub, until a day
  has passed, unless a new check is forced.
\<close>

theorem checked_update_kept:
  assumes "update_status gh running now platform force f = Inr (i, f1)"
    and "0 < ui_checked_at i" and "later - ui_checked_at i < UPDATE_CHECK_INTERVAL_SECONDS"
  shows "update_status gh' running later platform False f1 = Inr (i, f1)"
proof -
  obtain p cached fresh where p: "validate_platform platform = Inr p"
    and c: "load_cached_update_status p f = Inr cached" and fr: "fresh_update cached now force = Inr fresh"
    using assms(1) by (auto simp: update_status_def bind_res_Inr_iff)
  have again: "update_status gh' running later platform False f1 = Inr (i, f1)"
    if "load_cached_update_status p f1 = Inr (Some d)" "dict_to_update_info running d = Inr i" for d
  proof -
    have "checked_time d = Inr (ui_checked_at i)"
      using that(2) by (auto simp: dict_to_update_info_def bind_res_Inr_iff Let_def)
    then show ?thesis
      using that p assms(2,3) by (simp add: update_status_def fresh_update_def)
  qed
  consider (cached) d where "cached = Some d" "dict_to_update_info running d = Inr i" "f1 = f"
    | (unknown) "i = unknown_update running"
    | (offered) latest where "fetch_latest_release gh p running = Inr (True, latest)"
        "i = offered_update running now latest" "save_cached_update_status p i f = Inr f1"
    using assms(1) p c fr
    by (auto simp: update_status_def bind_res_Inr_iff Let_def fresh_update_def split: if_splits option.splits)
  then show ?thesis
  proof cases
    case cached
    then show ?thesis using again[of d] c by simp
  next
    case unknown
    then show ?thesis using assms(2) by (simp add: unknown_update_def)
  next
    case offered
    have "latest = None \<or> (\<exists>c cur. latest = Some c \<and> sound_release c \<and> parse_version running = Some cur
      \<and> cur < rc_parsed c)"
      using offered(1) latest_sound by (cases latest) auto
    then have "dict_to_update_info running (info_dict i) = Inr i"
      unfolding offered(2) by (rule offered_reads_back)
    then show ?thesis
      using again[of "info_dict i"] saved_update_loads[OF offered(3)] by simp
  qed
qed

lemma sample_offer:
  "update_status sample_github ''2.3.0-alpha1'' 1000 '' Knulli '' False None =
     Inr (offered_update ''2.3.0-alpha1'' 1000 (Some (sample_candidate ''v2.3.0'')),
       Some (JObj [(''knulli'', info_dict (offered_update ''2.3.0-alpha1'' 1000 (Some (sample_candidate ''v2.3.0''))))]))"
proof -
  have p: "validate_platform '' Knulli '' = Inr ''knulli''"
    by code_simp
  have "fetch_latest_release sample_github ''knulli'' ''2.3.0-alpha1'' = Inr (True, Some (sample_candidate ''v2.3.0''))"
    by (simp add: fetch_latest_release_def sample_order sample_releases pick_newest_def eligible_def is_nightly_def
        STABLE_NIGHTLY_NUMBER_def less_parsed_version_def version_key_def)
  moreover have "load_cached_update_status ''knulli'' None = Inr None"
    by code_simp
  ultimately show ?thesis
    using p by (simp add: update_status_def fresh_update_def save_cached_update_status_def status_payload_def
        load_update_status_def set_field_def Let_def)
qed

theorem checked_update_kept_witness:
  "update_status \<lparr>gh_releases = \<lambda>_. NoAnswer, gh_nightly = \<lambda>_. NoAnswer\<rparr> ''2.3.0-alpha1'' 87399 '' Knulli '' False
       (Some (JObj [(''knulli'', info_dict (offered_update ''2.3.0-alpha1'' 1000 (Some (sample_candidate ''v2.3.0''))))])) =
     Inr (offered_update ''2.3.0-alpha1'' 1000 (Some (sample_candidate ''v2.3.0'')),
       Some (JObj [(''knulli'', info_dict (offered_update ''2.3.0-alpha1'' 1000 (Some (sample_candidate ''v2.3.0''))))]))"
  by (rule checked_update_kept[OF sample_offer])
    (simp_all add: offered_update_def UPDATE_CHECK_INTERVAL_SECONDS_def)

end
