(* ===== verification/Update_Install.thy ===== *)
theory Update_Install
  imports Update_Check Config_Text "HOL-Library.Finite_Map"
begin

text \<open>
  Installing an update (update.py): the download with its attempts, and the exchange of the application's
  directory for the one in the archive, with the data directory carried over and a rollback when a step
  fails.  The file system is the tree below the application's parent directory.  Which steps fail, and what
  a removal leaves of a tree it cannot remove, are parameters; so is what the archive unpacks to.
\<close>

section \<open>Downloading\<close>

definition INSTALLER_DOWNLOAD_RETRIES :: nat where "INSTALLER_DOWNLOAD_RETRIES = 3"

text \<open>An attempt reads the body and writes the file; FileError stands for the errors that are tried again.\<close>

fun download_attempts :: "nat \<Rightarrow> (nat \<Rightarrow> string res) \<Rightarrow> nat \<Rightarrow> string res" where
  "download_attempts 0 attempt k = Inl RuntimeError"
| "download_attempts (Suc left) attempt k = (case attempt k of
       Inr body \<Rightarrow> Inr body
     | Inl e \<Rightarrow> if e = FileError then download_attempts left attempt (Suc k) else Inl e)"

text \<open>The file in place afterwards and its mode; atomic_write_executable replaces it in one step.\<close>

definition download_update :: "bool \<Rightarrow> (nat \<Rightarrow> string res) \<Rightarrow> (string \<times> nat) res" where
  "download_update executable attempt =
     bind_res (download_attempts INSTALLER_DOWNLOAD_RETRIES attempt 1)
       (\<lambda>body. Inr (body, if executable then 493 else 420))"

definition download_knulli_update_installer :: "(nat \<Rightarrow> string res) \<Rightarrow> (string \<times> nat) res" where
  "download_knulli_update_installer = download_update True"

definition download_onion_update_archive :: "(nat \<Rightarrow> string res) \<Rightarrow> (string \<times> nat) res" where
  "download_onion_update_archive = download_update False"

definition download_muos_update_archive :: "(nat \<Rightarrow> string res) \<Rightarrow> (string \<times> nat) res" where
  "download_muos_update_archive = download_update False"

section \<open>The file tree\<close>

datatype fs_node = FileNode string | DirNode "(string, fs_node) fmap"

fun node_at :: "string list \<Rightarrow> fs_node \<Rightarrow> fs_node option" where
  "node_at [] t = Some t"
| "node_at (n # p) (DirNode es) = (case fmlookup es n of None \<Rightarrow> None | Some t \<Rightarrow> node_at p t)"
| "node_at (n # p) (FileNode _) = None"

fun put_at :: "string list \<Rightarrow> fs_node \<Rightarrow> fs_node \<Rightarrow> fs_node" where
  "put_at [] u t = u"
| "put_at [n] u (DirNode es) = DirNode (fmupd n u es)"
| "put_at (n # m # p) u (DirNode es) = (case fmlookup es n of
       None \<Rightarrow> DirNode es | Some t \<Rightarrow> DirNode (fmupd n (put_at (m # p) u t) es))"
| "put_at (n # p) u (FileNode s) = FileNode s"

fun del_at :: "string list \<Rightarrow> fs_node \<Rightarrow> fs_node" where
  "del_at [] t = t"
| "del_at [n] (DirNode es) = DirNode (fmdrop n es)"
| "del_at (n # m # p) (DirNode es) = (case fmlookup es n of
       None \<Rightarrow> DirNode es | Some t \<Rightarrow> DirNode (fmupd n (del_at (m # p) t) es))"
| "del_at (n # p) (FileNode s) = FileNode s"

definition is_dir :: "fs_node option \<Rightarrow> bool" where
  "is_dir t = (case t of Some (DirNode _) \<Rightarrow> True | _ \<Rightarrow> False)"

section \<open>Operations that may fail\<close>

record disk_faults =
  df_fails :: "nat \<Rightarrow> bool"
  df_left :: "nat \<Rightarrow> fs_node \<Rightarrow> fs_node option"

record disk_state =
  dk_tree :: fs_node
  dk_step :: nat
  dk_archive :: bool

type_synonym 'a disk_op = "disk_state \<Rightarrow> 'a res \<times> disk_state"

definition next_op :: "'a disk_op \<Rightarrow> ('a \<Rightarrow> 'b disk_op) \<Rightarrow> 'b disk_op" where
  "next_op m k s = (case m s of (Inl e, s1) \<Rightarrow> (Inl e, s1) | (Inr x, s1) \<Rightarrow> k x s1)"

definition try_except :: "'a disk_op \<Rightarrow> unit disk_op \<Rightarrow> 'a disk_op" where
  "try_except m handler s = (case m s of
       (Inr x, s1) \<Rightarrow> (Inr x, s1)
     | (Inl e, s1) \<Rightarrow> (case handler s1 of (Inl d, s2) \<Rightarrow> (Inl d, s2) | (Inr _, s2) \<Rightarrow> (Inl e, s2)))"

definition try_finally :: "'a disk_op \<Rightarrow> unit disk_op \<Rightarrow> 'a disk_op" where
  "try_finally m cleanup s = (case m s of (r, s1) \<Rightarrow>
     (case cleanup s1 of (Inl d, s2) \<Rightarrow> (Inl d, s2) | (Inr _, s2) \<Rightarrow> (r, s2)))"

definition exists_at :: "string list \<Rightarrow> disk_state \<Rightarrow> bool" where
  "exists_at p s = (node_at p (dk_tree s) \<noteq> None)"

definition when_exists :: "string list \<Rightarrow> unit disk_op \<Rightarrow> unit disk_op" where
  "when_exists p m s = (if exists_at p s then m s else (Inr (), s))"

definition stepped :: "disk_state \<Rightarrow> disk_state" where
  "stepped s = s\<lparr>dk_step := Suc (dk_step s)\<rparr>"

text \<open>os.replace: a directory replaces nothing but an empty directory.\<close>

definition replaceable :: "fs_node \<Rightarrow> fs_node option \<Rightarrow> bool" where
  "replaceable u old = (case (u, old) of
       (_, None) \<Rightarrow> True
     | (FileNode _, Some (FileNode _)) \<Rightarrow> True
     | (DirNode _, Some (DirNode es)) \<Rightarrow> es = fmempty
     | _ \<Rightarrow> False)"

definition os_replace :: "disk_faults \<Rightarrow> string list \<Rightarrow> string list \<Rightarrow> unit disk_op" where
  "os_replace flt src dst s =
     (if df_fails flt (dk_step s) then (Inl FileError, stepped s)
      else case node_at src (dk_tree s) of
        None \<Rightarrow> (Inl FileError, stepped s)
      | Some u \<Rightarrow>
          (if is_dir (node_at (butlast dst) (dk_tree s)) \<and> replaceable u (node_at dst (dk_tree s))
           then (Inr (), (stepped s)\<lparr>dk_tree := put_at dst u (del_at src (dk_tree s))\<rparr>)
           else (Inl FileError, stepped s)))"

text \<open>shutil.rmtree: it removes directories only, and may leave a part of one.\<close>

definition rmtree :: "disk_faults \<Rightarrow> bool \<Rightarrow> string list \<Rightarrow> unit disk_op" where
  "rmtree flt ignore_errors p s =
     (let failed = (if ignore_errors then Inr () else Inl FileError) in
      case node_at p (dk_tree s) of
        Some (DirNode es) \<Rightarrow>
          (case df_left flt (dk_step s) (DirNode es) of
             None \<Rightarrow> (Inr (), (stepped s)\<lparr>dk_tree := del_at p (dk_tree s)\<rparr>)
           | Some rest \<Rightarrow> (failed, (stepped s)\<lparr>dk_tree := put_at p rest (dk_tree s)\<rparr>))
      | _ \<Rightarrow> (failed, stepped s))"

definition mkdir :: "disk_faults \<Rightarrow> string list \<Rightarrow> unit disk_op" where
  "mkdir flt p s =
     (if df_fails flt (dk_step s) then (Inl FileError, stepped s)
      else case node_at p (dk_tree s) of
        None \<Rightarrow> (Inr (), (stepped s)\<lparr>dk_tree := put_at p (DirNode fmempty) (dk_tree s)\<rparr>)
      | Some (DirNode _) \<Rightarrow> (Inr (), stepped s)
      | Some (FileNode _) \<Rightarrow> (Inl FileError, stepped s))"

definition unlink :: "disk_faults \<Rightarrow> string list \<Rightarrow> unit disk_op" where
  "unlink flt p s =
     (if df_fails flt (dk_step s) \<or> is_dir (node_at p (dk_tree s)) then (Inl FileError, stepped s)
      else (Inr (), (stepped s)\<lparr>dk_tree := del_at p (dk_tree s)\<rparr>))"

definition unlink_archive :: "disk_faults \<Rightarrow> unit disk_op" where
  "unlink_archive flt s =
     (if \<not> dk_archive s then (Inr (), s)
      else if df_fails flt (dk_step s) then (Inl FileError, stepped s)
      else (Inr (), (stepped s)\<lparr>dk_archive := False\<rparr>))"

section \<open>Tidying up\<close>

definition CLEANUP_RETRIES :: nat where "CLEANUP_RETRIES = 3"

text \<open>The last of the attempts is made without ignore_errors.\<close>

fun remove_attempts :: "disk_faults \<Rightarrow> string list \<Rightarrow> nat \<Rightarrow> unit disk_op" where
  "remove_attempts flt p 0 s = (Inr (), s)"
| "remove_attempts flt p (Suc left) s =
     (if \<not> exists_at p s then (Inr (), s)
      else next_op (rmtree flt (left \<noteq> 0) p)
        (\<lambda>_ s1. if \<not> exists_at p s1 then (Inr (), s1) else remove_attempts flt p left s1) s)"

definition remove_tree_best_effort :: "disk_faults \<Rightarrow> string list \<Rightarrow> unit disk_op" where
  "remove_tree_best_effort flt p = remove_attempts flt p CLEANUP_RETRIES"

definition clear_stale_update_status :: "disk_faults \<Rightarrow> string list \<Rightarrow> unit disk_op" where
  "clear_stale_update_status flt app =
     (let p = app @ [''data'', ''update_status.json''] in when_exists p (unlink flt p))"

section \<open>Keeping the data\<close>

definition read_onion_app_version :: "fs_node \<Rightarrow> string option res" where
  "read_onion_app_version app = (case node_at [''common.sh''] app of
       None \<Rightarrow> Inr None
     | Some (DirNode _) \<Rightarrow> Inl FileError
     | Some (FileNode t) \<Rightarrow>
         Inr (case filter (starts_with ''APP_VERSION='') (splitlines t) of
                [] \<Rightarrow> None
              | l # _ \<Rightarrow> Some (removeprefix ''v'' (strip (after CHR ''='' l)))))"

definition should_preserve_onion_data :: "string \<Rightarrow> fs_node \<Rightarrow> bool res" where
  "should_preserve_onion_data running app = bind_res (read_onion_app_version app) (\<lambda>next_version.
     Inr (case (parse_version running, Option.bind next_version parse_version) of
            (Some a, Some b) \<Rightarrow> pv_major a = pv_major b
          | _ \<Rightarrow> False))"

section \<open>The exchange\<close>

definition update_dir :: "string \<Rightarrow> string list" where "update_dir n = [CHR ''.'' # n @ ''.update'']"
definition backup_dir :: "string \<Rightarrow> string list" where "backup_dir n = [CHR ''.'' # n @ ''.backup'']"
definition preserved_dir :: "string \<Rightarrow> string list" where "preserved_dir n = [CHR ''.'' # n @ ''.data'']"

definition clear_leftovers :: "disk_faults \<Rightarrow> string \<Rightarrow> unit disk_op" where
  "clear_leftovers flt n =
     next_op (when_exists (update_dir n) (rmtree flt False (update_dir n))) (\<lambda>_.
     next_op (when_exists (backup_dir n) (rmtree flt False (backup_dir n))) (\<lambda>_.
     when_exists (preserved_dir n) (rmtree flt False (preserved_dir n))))"

text \<open>What the archive unpacks to, and whether it unpacks to the end.\<close>

definition extract_archive :: "fs_node \<times> bool \<Rightarrow> string list \<Rightarrow> unit disk_op" where
  "extract_archive archive p s =
     (if snd archive then Inr () else Inl ValueError, s\<lparr>dk_tree := put_at p (fst archive) (dk_tree s)\<rparr>)"

definition carry_data :: "disk_faults \<Rightarrow> string \<Rightarrow> unit disk_op" where
  "carry_data flt n =
     next_op (os_replace flt (backup_dir n @ [''data'']) (preserved_dir n)) (\<lambda>_.
     next_op (when_exists [n, ''data''] (rmtree flt False [n, ''data''])) (\<lambda>_.
     os_replace flt (preserved_dir n) [n, ''data'']))"

definition swap_in :: "disk_faults \<Rightarrow> bool \<Rightarrow> string list \<Rightarrow> string \<Rightarrow> unit disk_op" where
  "swap_in flt preserve extracted n =
     next_op (os_replace flt extracted [n]) (\<lambda>_ s.
       if preserve \<and> exists_at (backup_dir n @ [''data'']) s then carry_data flt n s else (Inr (), s))"

definition roll_back :: "disk_faults \<Rightarrow> string \<Rightarrow> unit disk_op" where
  "roll_back flt n = when_exists (backup_dir n)
     (next_op (\<lambda>s. if exists_at (preserved_dir n) s \<and> \<not> exists_at (backup_dir n @ [''data'']) s
                    then os_replace flt (preserved_dir n) (backup_dir n @ [''data'']) s else (Inr (), s)) (\<lambda>_.
      next_op (when_exists [n] (rmtree flt True [n])) (\<lambda>_.
      os_replace flt (backup_dir n) [n])))"

definition tidy_up :: "disk_faults \<Rightarrow> string \<Rightarrow> unit disk_op" where
  "tidy_up flt n =
     next_op (remove_tree_best_effort flt (update_dir n)) (\<lambda>_.
     next_op (remove_tree_best_effort flt (backup_dir n)) (\<lambda>_.
     remove_tree_best_effort flt (preserved_dir n)))"

definition need_app :: "string list \<Rightarrow> fs_node disk_op" where
  "need_app p s = (case node_at p (dk_tree s) of None \<Rightarrow> (Inl RuntimeError, s) | Some t \<Rightarrow> (Inr t, s))"

definition install_onion_update_archive ::
  "disk_faults \<Rightarrow> string \<Rightarrow> fs_node \<times> bool \<Rightarrow> string \<Rightarrow> string \<Rightarrow> unit disk_op" where
  "install_onion_update_archive flt running archive n root =
     (let extracted = update_dir n @ [root, n] in
      next_op (clear_leftovers flt n) (\<lambda>_.
      next_op (mkdir flt (update_dir n)) (\<lambda>_.
      next_op (extract_archive archive (update_dir n)) (\<lambda>_.
      next_op (need_app extracted) (\<lambda>app.
      next_op (\<lambda>s. (should_preserve_onion_data running app, s)) (\<lambda>preserve.
      next_op (when_exists [n] (os_replace flt [n] (backup_dir n))) (\<lambda>_.
      next_op (try_finally (try_except (swap_in flt preserve extracted n) (roll_back flt n)) (tidy_up flt n)) (\<lambda>_.
      clear_stale_update_status flt [n]))))))))"

definition install_muos_update_archive :: "disk_faults \<Rightarrow> fs_node \<times> bool \<Rightarrow> string \<Rightarrow> unit disk_op" where
  "install_muos_update_archive flt archive n =
     (let extracted = update_dir n @ [n] in
      next_op (clear_leftovers flt n) (\<lambda>_.
      next_op (mkdir flt (update_dir n)) (\<lambda>_.
      next_op (try_finally
        (next_op (extract_archive archive (update_dir n)) (\<lambda>_.
         next_op (need_app extracted) (\<lambda>_.
         next_op (when_exists [n] (os_replace flt [n] (backup_dir n))) (\<lambda>_.
         try_except (swap_in flt True extracted n) (roll_back flt n)))))
        (next_op (tidy_up flt n) (\<lambda>_. unlink_archive flt))) (\<lambda>_.
      clear_stale_update_status flt [n]))))"

end
