(* ===== verification/Install_Laws.thy ===== *)
theory Install_Laws
  imports Update_Install
begin

text \<open>
  What installing an update promises: without a fault the new version is in place with the data of the
  old one; when one step fails the old version is back; and the two faults after which neither holds.
\<close>

section \<open>The tree\<close>

lemma node_at_append: "node_at (p @ q) t = Option.bind (node_at p t) (node_at q)"
  by (induction p t rule: node_at.induct) (auto split: option.split)

lemma del_at_below [simp]:
  "q \<noteq> [] \<Longrightarrow> fmlookup es n = Some t \<Longrightarrow> del_at (n # q) (DirNode es) = DirNode (fmupd n (del_at q t) es)"
  by (cases q) auto

lemma put_at_below [simp]:
  "q \<noteq> [] \<Longrightarrow> fmlookup es n = Some t \<Longrightarrow> put_at (n # q) u (DirNode es) = DirNode (fmupd n (put_at q u t) es)"
  by (cases q) auto

lemma fmupd_same: "fmlookup es n = Some t \<Longrightarrow> fmupd n t es = es"
  by (rule fmap_ext) auto

lemma fmdrop_absent: "fmlookup es n = None \<Longrightarrow> fmdrop n es = es"
  by (rule fmap_ext) auto

lemma del_at_absent: "node_at p t = None \<Longrightarrow> del_at p t = t"
  by (induction p t rule: del_at.induct) (auto simp: fmdrop_absent fmupd_same split: option.splits)

lemma fmupd_fmupd [simp]: "fmupd n u (fmupd n t es) = fmupd n u es"
  by (rule fmap_ext) auto

lemma del_at_dir: "\<exists>es'. del_at p (DirNode es) = DirNode es'"
proof (cases p)
  case (Cons n q)
  then show ?thesis by (cases q; cases "fmlookup es n") auto
qed simp

lemma fmdrop_fmupd_other: "m \<noteq> n \<Longrightarrow> fmdrop m (fmupd n t es) = fmupd n t (fmdrop m es)"
  by (rule fmap_ext) auto

lemma fmdrop_fmupd_here [simp]: "fmdrop n (fmupd n t es) = fmdrop n es"
  by (rule fmap_ext) auto

lemma slots_differ [simp]:
  "CHR ''.'' # n @ ''.update'' \<noteq> n" "CHR ''.'' # n @ ''.backup'' \<noteq> n" "CHR ''.'' # n @ ''.data'' \<noteq> n"
  "n \<noteq> CHR ''.'' # n @ ''.update''" "n \<noteq> CHR ''.'' # n @ ''.backup''" "n \<noteq> CHR ''.'' # n @ ''.data''"
  by (auto dest: arg_cong[of _ _ length])

abbreviation disk :: "(string, fs_node) fmap \<Rightarrow> nat \<Rightarrow> bool \<Rightarrow> disk_state" where
  "disk es k a \<equiv> \<lparr>dk_tree = DirNode es, dk_step = k, dk_archive = a\<rparr>"

text \<open>The parent directory without the three working directories.\<close>

definition without_slots :: "string \<Rightarrow> (string, fs_node) fmap \<Rightarrow> (string, fs_node) fmap" where
  "without_slots n es = fmdrop (hd (preserved_dir n)) (fmdrop (hd (backup_dir n)) (fmdrop (hd (update_dir n)) es))"

definition slots_are_dirs :: "string \<Rightarrow> (string, fs_node) fmap \<Rightarrow> bool" where
  "slots_are_dirs n es = (\<forall>p \<in> {update_dir n, backup_dir n, preserved_dir n}.
     fmlookup es (hd p) = None \<or> is_dir (fmlookup es (hd p)))"

lemma node_at_entry [simp]: "node_at [m] (DirNode es) = fmlookup es m"
  by (simp split: option.split)

lemmas slot_defs = update_dir_def backup_dir_def preserved_dir_def without_slots_def
lemmas disk_defs = next_op_def when_exists_def exists_at_def stepped_def is_dir_def

definition removes_all :: "disk_faults \<Rightarrow> bool" where
  "removes_all flt = (\<forall>k t. df_left flt k t = None)"

lemma rmtree_all:
  assumes "removes_all flt" and "is_dir (node_at p (dk_tree s))"
  shows "rmtree flt ie p s = (Inr (), (stepped s)\<lparr>dk_tree := del_at p (dk_tree s)\<rparr>)"
  using assms by (auto simp: rmtree_def removes_all_def is_dir_def split: option.splits fs_node.splits)

lemma replaceable_simps [simp]: "replaceable u None" "replaceable (DirNode x) (Some (DirNode es)) \<longleftrightarrow> es = fmempty"
  by (cases u) (simp_all add: replaceable_def)

lemma clear_slot:
  assumes "removes_all flt" and "fmlookup es m = None \<or> is_dir (fmlookup es m)"
  shows "\<exists>k'. k \<le> k' \<and> when_exists [m] (rmtree flt False [m]) (disk es k a) =
    (Inr (), (disk (fmdrop m es) k' a))"
  using assms(2)
  by (auto simp: when_exists_def exists_at_def rmtree_all[OF assms(1)] stepped_def fmdrop_absent is_dir_def
      split: option.splits)

lemma clear_all_slots:
  assumes all: "removes_all flt" and dirs: "slots_are_dirs n es"
  shows "\<exists>k'. k \<le> k' \<and> clear_leftovers flt n (disk es k a) =
    (Inr (), (disk (without_slots n es) k' a))"
proof -
  let ?u = "hd (update_dir n)" and ?b = "hd (backup_dir n)" and ?d = "hd (preserved_dir n)"
  have d1: "fmlookup es ?u = None \<or> is_dir (fmlookup es ?u)"
    and d2: "fmlookup (fmdrop ?u es) ?b = None \<or> is_dir (fmlookup (fmdrop ?u es) ?b)"
    and d3: "fmlookup (fmdrop ?b (fmdrop ?u es)) ?d = None \<or> is_dir (fmlookup (fmdrop ?b (fmdrop ?u es)) ?d)"
    using dirs by (auto simp: slots_are_dirs_def slot_defs)
  obtain k1 where k1: "k \<le> k1" "when_exists [?u] (rmtree flt False [?u]) (disk es k a) =
      (Inr (), (disk (fmdrop ?u es) k1 a))"
    using clear_slot[OF all d1] by blast
  obtain k2 where k2: "k1 \<le> k2" "when_exists [?b] (rmtree flt False [?b]) (disk (fmdrop ?u es) k1 a) =
      (Inr (), (disk (fmdrop ?b (fmdrop ?u es)) k2 a))"
    using clear_slot[OF all d2] by blast
  obtain k3 where k3: "k2 \<le> k3" "when_exists [?d] (rmtree flt False [?d])
        (disk (fmdrop ?b (fmdrop ?u es)) k2 a) =
      (Inr (), (disk (without_slots n es) k3 a))"
    using clear_slot[OF all d3] by (auto simp: without_slots_def)
  show ?thesis
    using k1 k2 k3 by (intro exI[of _ k3]) (simp add: clear_leftovers_def next_op_def slot_defs)
qed

lemma tidy_slot:
  assumes "removes_all flt" and "fmlookup es m = None \<or> is_dir (fmlookup es m)"
  shows "\<exists>k'. k \<le> k' \<and> remove_tree_best_effort flt [m] (disk es k a) =
    (Inr (), (disk (fmdrop m es) k' a))"
  using assms(2)
  by (auto simp: remove_tree_best_effort_def CLEANUP_RETRIES_def numeral_3_eq_3 exists_at_def next_op_def
      rmtree_all[OF assms(1)] stepped_def fmdrop_absent is_dir_def split: option.splits)

lemma tidy_all:
  assumes all: "removes_all flt" and dirs: "slots_are_dirs n es"
  shows "\<exists>k'. k \<le> k' \<and> tidy_up flt n (disk es k a) =
    (Inr (), (disk (without_slots n es) k' a))"
proof -
  let ?u = "hd (update_dir n)" and ?b = "hd (backup_dir n)" and ?d = "hd (preserved_dir n)"
  have d1: "fmlookup es ?u = None \<or> is_dir (fmlookup es ?u)"
    and d2: "fmlookup (fmdrop ?u es) ?b = None \<or> is_dir (fmlookup (fmdrop ?u es) ?b)"
    and d3: "fmlookup (fmdrop ?b (fmdrop ?u es)) ?d = None \<or> is_dir (fmlookup (fmdrop ?b (fmdrop ?u es)) ?d)"
    using dirs by (auto simp: slots_are_dirs_def slot_defs)
  obtain k1 where k1: "k \<le> k1" "remove_tree_best_effort flt [?u] (disk es k a) =
      (Inr (), (disk (fmdrop ?u es) k1 a))"
    using tidy_slot[OF all d1] by blast
  obtain k2 where k2: "k1 \<le> k2" "remove_tree_best_effort flt [?b] (disk (fmdrop ?u es) k1 a) =
      (Inr (), (disk (fmdrop ?b (fmdrop ?u es)) k2 a))"
    using tidy_slot[OF all d2] by blast
  obtain k3 where k3: "k2 \<le> k3" "remove_tree_best_effort flt [?d]
        (disk (fmdrop ?b (fmdrop ?u es)) k2 a) =
      (Inr (), (disk (without_slots n es) k3 a))"
    using tidy_slot[OF all d3] by (auto simp: without_slots_def)
  show ?thesis
    using k1 k2 k3 by (intro exI[of _ k3]) (simp add: tidy_up_def next_op_def slot_defs)
qed

section \<open>The exchange without a fault\<close>

definition never_fails :: "disk_faults \<Rightarrow> bool" where
  "never_fails flt = (\<forall>k. \<not> df_fails flt k)"

text \<open>The new version's directory with the data of the old one, where it is to be kept.\<close>

definition with_old_data ::
  "bool \<Rightarrow> (string, fs_node) fmap \<Rightarrow> (string, fs_node) fmap \<Rightarrow> (string, fs_node) fmap" where
  "with_old_data preserve old new = (case fmlookup old ''data'' of
       Some d \<Rightarrow> if preserve then fmupd ''data'' d new else new
     | None \<Rightarrow> new)"

definition data_not_file :: "(string, fs_node) fmap \<Rightarrow> bool" where
  "data_not_file new = (fmlookup new ''data'' = None \<or> is_dir (fmlookup new ''data''))"

text \<open>
  What a swap that stops half way leaves: the old version set aside, or all of it but its data, which is in
  the directory for preserved data then.
\<close>

definition recoverable :: "string \<Rightarrow> (string, fs_node) fmap \<Rightarrow> (string, fs_node) fmap \<Rightarrow> bool" where
  "recoverable n old es =
     ((fmlookup es (hd (backup_dir n)) = Some (DirNode old) \<and> fmlookup es (hd (preserved_dir n)) = None
       \<or> (\<exists>d. fmlookup old ''data'' = Some d \<and> fmlookup es (hd (backup_dir n)) = Some (DirNode (fmdrop ''data'' old))
            \<and> fmlookup es (hd (preserved_dir n)) = Some d))
      \<and> (fmlookup es n = None \<or> is_dir (fmlookup es n)) \<and> is_dir (fmlookup es (hd (update_dir n))))"

definition failed_between :: "disk_faults \<Rightarrow> nat \<Rightarrow> nat \<Rightarrow> bool" where
  "failed_between flt i j = (\<exists>k. i \<le> k \<and> k < j \<and> df_fails flt k)"

definition others_same :: "string \<Rightarrow> (string, fs_node) fmap \<Rightarrow> (string, fs_node) fmap \<Rightarrow> bool" where
  "others_same n es es' = (\<forall>m. m \<notin> {n, hd (update_dir n), hd (backup_dir n), hd (preserved_dir n)} \<longrightarrow>
     fmlookup es' m = fmlookup es m)"

lemma others_same_trans: "others_same n es es1 \<Longrightarrow> others_same n es1 es' \<Longrightarrow> others_same n es es'"
  by (auto simp: others_same_def)

lemma carry_outcome:
  assumes all: "removes_all flt" and n: "fmlookup es n = Some (DirNode new)"
    and slots: "is_dir (fmlookup es (hd (update_dir n)))" "fmlookup es (hd (backup_dir n)) = Some (DirNode old)"
      "fmlookup es (hd (preserved_dir n)) = None"
    and d: "fmlookup old ''data'' = Some d" and new: "data_not_file new"
  shows "\<exists>r es' k'. k \<le> k' \<and> carry_data flt n (disk es k a) =
      (r, (disk es' k' a)) \<and> others_same n es es'
    \<and> (r = Inr () \<and> slots_are_dirs n es' \<and> fmlookup es' n = Some (DirNode (fmupd ''data'' d new))
       \<or> r = Inl FileError \<and> recoverable n old es' \<and> failed_between flt k k')"
proof -
  let ?b = "hd (backup_dir n)" and ?d = "hd (preserved_dir n)"
  define es2 where "es2 = fmupd ?d d (fmupd ?b (DirNode (fmdrop ''data'' old)) es)"
  have second: "os_replace flt (backup_dir n @ [''data'']) (preserved_dir n) (disk es k a) =
      (if df_fails flt k then (Inl FileError, (disk es (Suc k) a))
       else (Inr (), (disk es2 (Suc k) a)))"
    using slots d by (auto simp: os_replace_def slot_defs is_dir_def stepped_def es2_def)
  show ?thesis
  proof (cases "df_fails flt k")
    case True
    have "recoverable n old es"
      using slots n by (simp add: recoverable_def is_dir_def)
    moreover have "failed_between flt k (Suc k)"
      using True by (auto simp: failed_between_def)
    ultimately show ?thesis
      using second True by (intro exI[of _ "Inl FileError"] exI[of _ es] exI[of _ "Suc k"])
        (simp add: carry_data_def next_op_def others_same_def)
  next
    case started: False
    have n2: "fmlookup es2 n = Some (DirNode new)"
      using n by (simp add: es2_def slot_defs)
    define es3 where "es3 = fmupd n (DirNode (fmdrop ''data'' new)) es2"
    obtain k3 where third: "when_exists [n, ''data''] (rmtree flt False [n, ''data'']) (disk es2 (Suc k) a) =
        (Inr (), (disk es3 k3 a))" and k3: "Suc k \<le> k3"
    proof (cases "fmlookup new ''data''")
      case None
      then show ?thesis
        using n2 that[of "Suc k"] by (auto simp: when_exists_def exists_at_def es3_def fmdrop_absent fmupd_same)
    next
      case (Some x)
      then show ?thesis
        using n2 new that
        by (auto simp: when_exists_def exists_at_def rmtree_all[OF all] stepped_def es3_def data_not_file_def)
    qed
    define es4 where "es4 = fmupd n (DirNode (fmupd ''data'' d (fmdrop ''data'' new))) (fmdrop ?d es3)"
    have fourth: "os_replace flt (preserved_dir n) [n, ''data''] (disk es3 k3 a) =
        (if df_fails flt k3 then (Inl FileError, (disk es3 (Suc k3) a))
         else (Inr (), (disk es4 (Suc k3) a)))"
      using n2
      by (auto simp: os_replace_def slot_defs is_dir_def stepped_def es3_def es4_def es2_def)
    have run: "carry_data flt n (disk es k a) =
        (if df_fails flt k3 then (Inl FileError, (disk es3 (Suc k3) a))
         else (Inr (), (disk es4 (Suc k3) a)))"
      using second third fourth started by (simp add: carry_data_def next_op_def)
    have same: "others_same n es es3" "others_same n es es4"
      by (auto simp: others_same_def es4_def es3_def es2_def)
    show ?thesis
    proof (cases "df_fails flt k3")
      case True
      have "recoverable n old es3"
        using slots d by (auto simp: recoverable_def es3_def es2_def slot_defs is_dir_def)
      moreover have "failed_between flt k (Suc k3)"
        using True k3 by (auto simp: failed_between_def intro!: exI[of _ k3])
      ultimately show ?thesis
        using run same True k3 by (intro exI[of _ "Inl FileError"] exI[of _ es3] exI[of _ "Suc k3"]) simp
    next
      case False
      have "slots_are_dirs n es4"
        using slots by (simp add: slots_are_dirs_def slot_defs es4_def es3_def es2_def is_dir_def)
      moreover have "fmlookup es4 n = Some (DirNode (fmupd ''data'' d new))"
        by (simp add: es4_def) (rule fmap_ext, simp)
      ultimately show ?thesis
        using run same False k3 by (intro exI[of _ "Inr ()"] exI[of _ es4] exI[of _ "Suc k3"]) simp
    qed
  qed
qed

lemma without_slots_same:
  "others_same n es es' \<Longrightarrow> fmdrop n (without_slots n es') = fmdrop n (without_slots n es)"
  by (rule fmap_ext) (auto simp: others_same_def slot_defs)

lemma swap_outcome:
  assumes all: "removes_all flt"
    and q: "q \<noteq> []" "fmlookup es (hd (update_dir n)) = Some a0" "node_at q a0 = Some (DirNode new)"
    and slots: "fmlookup es n = None" "fmlookup es (hd (backup_dir n)) = Some (DirNode old)"
      "fmlookup es (hd (preserved_dir n)) = None"
    and new: "data_not_file new"
  shows "\<exists>r es' k'. k \<le> k' \<and> swap_in flt preserve (update_dir n @ q) n (disk es k a) =
      (r, (disk es' k' a)) \<and> others_same n es es'
    \<and> (r = Inr () \<and> slots_are_dirs n es' \<and> fmlookup es' n = Some (DirNode (with_old_data preserve old new))
       \<or> r = Inl FileError \<and> recoverable n old es' \<and> failed_between flt k k')"
proof -
  let ?u = "hd (update_dir n)"
  obtain as0 where a0: "a0 = DirNode as0"
    using q by (cases a0; cases q) auto
  then obtain as1 where a1: "del_at q a0 = DirNode as1"
    using del_at_dir by blast
  define es1 where "es1 = fmupd n (DirNode new) (fmupd ?u (DirNode as1) es)"
  have first: "os_replace flt (update_dir n @ q) [n] (disk es k a) =
      (if df_fails flt k then (Inl FileError, (disk es (Suc k) a))
       else (Inr (), (disk es1 (Suc k) a)))"
    using q slots a1
    by (auto simp: os_replace_def slot_defs is_dir_def stepped_def es1_def)
  have same1: "others_same n es es1"
    by (simp add: others_same_def es1_def)
  have at1: "fmlookup es1 n = Some (DirNode new)" "is_dir (fmlookup es1 ?u)" "fmlookup es1 (hd (backup_dir n)) = Some (DirNode old)"
      "fmlookup es1 (hd (preserved_dir n)) = None"
    using slots by (simp_all add: es1_def slot_defs is_dir_def)
  consider (failed) "df_fails flt k" | (plain) "\<not> df_fails flt k" "\<not> (preserve \<and> fmlookup old ''data'' \<noteq> None)"
    | (data) d where "\<not> df_fails flt k" preserve "fmlookup old ''data'' = Some d" by blast
  then show ?thesis
  proof cases
    case failed
    have "recoverable n old es"
      using slots q a0 by (simp add: recoverable_def is_dir_def)
    moreover have "failed_between flt k (Suc k)"
      using failed by (auto simp: failed_between_def)
    ultimately show ?thesis
      using first failed by (intro exI[of _ "Inl FileError"] exI[of _ es] exI[of _ "Suc k"])
        (simp add: swap_in_def next_op_def others_same_def)
  next
    case plain
    then have "with_old_data preserve old new = new"
      by (auto simp: with_old_data_def split: option.split)
    moreover have "slots_are_dirs n es1"
      using at1 by (simp add: slots_are_dirs_def slot_defs is_dir_def)
    moreover have "\<not> (preserve \<and> exists_at (backup_dir n @ [''data'']) (disk es1 (Suc k) a))"
      using plain at1 by (auto simp: exists_at_def slot_defs)
    ultimately show ?thesis
      using first plain at1 same1
      by (intro exI[of _ "Inr ()"] exI[of _ es1] exI[of _ "Suc k"]) (auto simp: swap_in_def next_op_def)
  next
    case data
    have w: "with_old_data preserve old new = fmupd ''data'' d new"
      using data by (simp add: with_old_data_def)
    have "exists_at (backup_dir n @ [''data'']) (disk es1 (Suc k) a)"
      using data at1 by (auto simp: exists_at_def slot_defs)
    then have run: "swap_in flt preserve (update_dir n @ q) n (disk es k a) =
        carry_data flt n (disk es1 (Suc k) a)"
      using first data by (simp add: swap_in_def next_op_def)
    obtain r es' k' where "Suc k \<le> k'" "carry_data flt n (disk es1 (Suc k) a) =
        (r, (disk es' k' a))" "others_same n es1 es'"
      and r: "r = Inr () \<and> slots_are_dirs n es' \<and> fmlookup es' n = Some (DirNode (fmupd ''data'' d new))
       \<or> r = Inl FileError \<and> recoverable n old es' \<and> failed_between flt (Suc k) k'"
      using carry_outcome[OF all at1 data(3) new] by blast
    moreover have "failed_between flt (Suc k) k' \<Longrightarrow> failed_between flt k k'"
      by (auto simp: failed_between_def intro: Suc_leD)
    ultimately show ?thesis
      using run same1 w by (intro exI[of _ r] exI[of _ es'] exI[of _ k']) (auto simp: others_same_def)
  qed
qed

section \<open>A whole update\<close>

text \<open>An update the archive of which holds the application's directory below the path q.\<close>

definition status_file :: "string list" where "status_file = [''data'', ''update_status.json'']"

lemma clear_stale_outcome:
  assumes "fmlookup es n = Some (DirNode app)" and "\<not> is_dir (node_at status_file (DirNode app))"
  obtains r es' k' where "k \<le> k'" "clear_stale_update_status flt [n] (disk es k a) =
      (r, (disk es' k' a))"
    "r = Inr () \<and> es' = fmupd n (del_at status_file (DirNode app)) es \<or> r = Inl FileError \<and> es' = es \<and> failed_between flt k k'"
proof (cases "node_at status_file (DirNode app)")
  case None
  then show ?thesis
    using assms(1) that[of k "Inr ()" es]
    by (simp add: clear_stale_update_status_def Let_def when_exists_def exists_at_def status_file_def del_at_absent fmupd_same
        del: del_at.simps)
next
  case (Some t)
  define es' where "es' = fmupd n (del_at status_file (DirNode app)) es"
  have "clear_stale_update_status flt [n] (disk es k a) =
      (if df_fails flt k then (Inl FileError, (disk es (Suc k) a))
       else (Inr (), (disk es' (Suc k) a)))"
    using assms Some unfolding es'_def
    by (auto simp: clear_stale_update_status_def Let_def when_exists_def exists_at_def status_file_def unlink_def
        stepped_def is_dir_def simp del: del_at.simps)
  moreover have "df_fails flt k \<Longrightarrow> failed_between flt k (Suc k)"
    by (auto simp: failed_between_def)
  ultimately show ?thesis
    using that[of "Suc k" "if df_fails flt k then Inl FileError else Inr ()" "if df_fails flt k then es else es'"]
    by (auto simp: es'_def split: if_splits)
qed

text \<open>The tree after clearing, unpacking and setting the old version aside.\<close>

definition unpacked :: "string \<Rightarrow> fs_node \<Rightarrow> (string, fs_node) fmap \<Rightarrow> (string, fs_node) fmap" where
  "unpacked n archive es = fmupd (hd (update_dir n)) archive (without_slots n es)"

definition set_aside :: "string \<Rightarrow> fs_node \<Rightarrow> (string, fs_node) fmap \<Rightarrow> (string, fs_node) fmap \<Rightarrow> (string, fs_node) fmap" where
  "set_aside n archive old es = fmupd (hd (backup_dir n)) (DirNode old)
     (fmdrop n (unpacked n archive es))"

definition one_fault :: "disk_faults \<Rightarrow> bool" where
  "one_fault flt = (\<forall>i j. df_fails flt i \<longrightarrow> df_fails flt j \<longrightarrow> i = j)"

definition calm_from :: "disk_faults \<Rightarrow> nat \<Rightarrow> bool" where
  "calm_from flt k = (\<forall>i. k \<le> i \<longrightarrow> \<not> df_fails flt i)"

lemma calm_after: "one_fault flt \<Longrightarrow> failed_between flt j k \<Longrightarrow> calm_from flt k"
  unfolding one_fault_def failed_between_def calm_from_def by (metis not_less)

lemma calm_later: "calm_from flt k \<Longrightarrow> k \<le> k' \<Longrightarrow> calm_from flt k'"
  by (auto simp: calm_from_def)

lemma calm_now [simp]: "calm_from flt k \<Longrightarrow> k \<le> i \<Longrightarrow> \<not> df_fails flt i"
  by (simp add: calm_from_def)

lemma when_exists_true: "exists_at p s \<Longrightarrow> when_exists p m s = m s"
  by (simp add: when_exists_def)

lemma roll_back_app:
  assumes all: "removes_all flt" and calm: "calm_from flt k"
    and app: "fmlookup es n = None \<or> is_dir (fmlookup es n)"
    and slots: "is_dir (fmlookup es (hd (update_dir n)))" "fmlookup es (hd (backup_dir n)) = Some (DirNode old)"
      "fmlookup es (hd (preserved_dir n)) = None"
  obtains es' k' where "k \<le> k'"
    "next_op (when_exists [n] (rmtree flt True [n])) (\<lambda>_. os_replace flt (backup_dir n) [n])
       (disk es k a) = (Inr (), (disk es' k' a))"
    "others_same n es es'" "fmlookup es' n = Some (DirNode old)" "slots_are_dirs n es'"
proof -
  define es1 where "es1 = fmupd n (DirNode old) (fmdrop (hd (backup_dir n)) (fmdrop n es))"
  have "others_same n es es1" "fmlookup es1 n = Some (DirNode old)" "slots_are_dirs n es1"
    using slots by (auto simp: es1_def others_same_def slots_are_dirs_def slot_defs)
  moreover obtain k1 where "k \<le> k1" "when_exists [n] (rmtree flt True [n]) (disk es k a) =
      (Inr (), (disk (fmdrop n es) k1 a))"
    using app that
    by (cases "fmlookup es n") (auto simp: when_exists_def exists_at_def rmtree_all[OF all] stepped_def fmdrop_absent)
  moreover have "os_replace flt (backup_dir n) [n] (disk (fmdrop n es) k1 a) =
      (Inr (), (disk es1 (Suc k1) a))" if "k \<le> k1" for k1
    using slots calm that by (simp add: os_replace_def slot_defs is_dir_def stepped_def es1_def)
  ultimately show ?thesis
    using that[of "Suc k1" es1] by (auto simp: next_op_def)
qed

lemma roll_back_restores:
  assumes all: "removes_all flt" and calm: "calm_from flt k" and rec: "recoverable n old es"
  obtains es' k' where "k \<le> k'"
    "roll_back flt n (disk es k a) = (Inr (), (disk es' k' a))"
    "others_same n es es'" "fmlookup es' n = Some (DirNode old)" "slots_are_dirs n es'"
proof -
  have app: "fmlookup es n = None \<or> is_dir (fmlookup es n)" and u: "is_dir (fmlookup es (hd (update_dir n)))"
    using rec by (auto simp: recoverable_def)
  have here: "exists_at (backup_dir n) (disk es k a)"
    using rec by (auto simp: recoverable_def exists_at_def backup_dir_def)
  consider (whole) "fmlookup es (hd (backup_dir n)) = Some (DirNode old)" "fmlookup es (hd (preserved_dir n)) = None"
    | (parted) d where "fmlookup old ''data'' = Some d" "fmlookup es (hd (backup_dir n)) = Some (DirNode (fmdrop ''data'' old))"
      "fmlookup es (hd (preserved_dir n)) = Some d"
    using rec by (auto simp: recoverable_def)
  then show ?thesis
  proof cases
    case whole
    then have "roll_back flt n (disk es k a) =
        next_op (when_exists [n] (rmtree flt True [n])) (\<lambda>_. os_replace flt (backup_dir n) [n])
          (disk es k a)"
      unfolding roll_back_def when_exists_true[OF here] by (simp add: exists_at_def slot_defs next_op_def)
    then show ?thesis
      using roll_back_app[OF all calm app u whole, of a] that by metis
  next
    case parted
    define es1 where "es1 = fmupd (hd (backup_dir n)) (DirNode old) (fmdrop (hd (preserved_dir n)) es)"
    have "fmupd ''data'' d (fmdrop ''data'' old) = old"
      using parted(1) by (intro fmap_ext) auto
    then have "roll_back flt n (disk es k a) =
        next_op (when_exists [n] (rmtree flt True [n])) (\<lambda>_. os_replace flt (backup_dir n) [n])
          (disk es1 (Suc k) a)"
      using parted calm
      unfolding roll_back_def when_exists_true[OF here]
      by (simp add: exists_at_def slot_defs next_op_def os_replace_def is_dir_def stepped_def es1_def)
    moreover have "fmlookup es1 n = None \<or> is_dir (fmlookup es1 n)" "is_dir (fmlookup es1 (hd (update_dir n)))"
      "fmlookup es1 (hd (backup_dir n)) = Some (DirNode old)" "fmlookup es1 (hd (preserved_dir n)) = None"
      using app u by (simp_all add: es1_def slot_defs)
    moreover have "others_same n es es1"
      by (simp add: others_same_def es1_def)
    moreover have "calm_from flt (Suc k)"
      using calm by (rule calm_later) simp
    ultimately obtain es' k' where "Suc k \<le> k'" "roll_back flt n (disk es k a) =
        (Inr (), (disk es' k' a))"
      "others_same n es es1" "others_same n es1 es'" "fmlookup es' n = Some (DirNode old)" "slots_are_dirs n es'"
      using roll_back_app[OF all, of "Suc k" es1 n old a] by metis
    then show ?thesis
      using that[of k' es'] by (auto intro: others_same_trans)
  qed
qed

text \<open>The exchange with its rollback and the tidying up.\<close>

lemma exchange_outcome:
  assumes all: "removes_all flt" and one: "one_fault flt"
    and q: "q \<noteq> []" "fmlookup es (hd (update_dir n)) = Some a0" "node_at q a0 = Some (DirNode new)"
    and slots: "fmlookup es n = None" "fmlookup es (hd (backup_dir n)) = Some (DirNode old)"
      "fmlookup es (hd (preserved_dir n)) = None"
    and new: "data_not_file new"
  obtains r es' k' where "k \<le> k'"
    "try_except (swap_in flt preserve (update_dir n @ q) n) (roll_back flt n) (disk es k a) =
      (r, (disk es' k' a))"
    "others_same n es es'" "slots_are_dirs n es'"
    "r = Inr () \<and> fmlookup es' n = Some (DirNode (with_old_data preserve old new))
      \<or> r = Inl FileError \<and> fmlookup es' n = Some (DirNode old) \<and> failed_between flt k k'"
proof -
  obtain r es1 k1 where k1: "k \<le> k1" and run: "swap_in flt preserve (update_dir n @ q) n (disk es k a) =
      (r, (disk es1 k1 a))" and same: "others_same n es es1"
    and r: "r = Inr () \<and> slots_are_dirs n es1 \<and> fmlookup es1 n = Some (DirNode (with_old_data preserve old new))
       \<or> r = Inl FileError \<and> recoverable n old es1 \<and> failed_between flt k k1"
    using swap_outcome[OF all q slots new] by blast
  from r show ?thesis
  proof (elim disjE conjE)
    assume "r = Inr ()" "slots_are_dirs n es1" "fmlookup es1 n = Some (DirNode (with_old_data preserve old new))"
    then show ?thesis
      using that[of k1 r es1] k1 run same by (simp add: try_except_def)
  next
    assume bad: "r = Inl FileError" "recoverable n old es1" "failed_between flt k k1"
    obtain es2 k2 where "k1 \<le> k2" "roll_back flt n (disk es1 k1 a) =
        (Inr (), (disk es2 k2 a))"
      "others_same n es1 es2" "fmlookup es2 n = Some (DirNode old)" "slots_are_dirs n es2"
      using roll_back_restores[OF all calm_after[OF one bad(3)] bad(2)] by metis
    moreover have "failed_between flt k k2"
      using bad(3) \<open>k1 \<le> k2\<close> by (auto simp: failed_between_def)
    ultimately show ?thesis
      using that[of k2 r es2] k1 run same bad(1) by (simp add: try_except_def others_same_trans[OF same])
  qed
qed

lemma set_aside_slots:
  "fmlookup (set_aside n archive old es) (hd (update_dir n)) = Some archive" "fmlookup (set_aside n archive old es) n = None"
  "fmlookup (set_aside n archive old es) (hd (backup_dir n)) = Some (DirNode old)"
  "fmlookup (set_aside n archive old es) (hd (preserved_dir n)) = None"
  "others_same n es (set_aside n archive old es)"
  by (auto simp: set_aside_def unpacked_def slot_defs others_same_def)

lemma last_steps_outcome:
  assumes all: "removes_all flt" and one: "one_fault flt"
    and q: "q \<noteq> []" "node_at q archive = Some (DirNode new)" and new: "data_not_file new"
    and status: "\<not> is_dir (node_at status_file (DirNode (with_old_data preserve old new)))"
  obtains r es' k' where "k \<le> k'"
    "next_op (try_finally (try_except (swap_in flt preserve (update_dir n @ q) n) (roll_back flt n)) (tidy_up flt n))
       (\<lambda>_. clear_stale_update_status flt [n]) (disk (set_aside n archive old es) k a) =
      (r, (disk es' k' a))"
    "others_same n es es'" "without_slots n es' = es'"
    "r = Inr () \<and> fmlookup es' n = Some (del_at status_file (DirNode (with_old_data preserve old new)))
      \<or> r = Inl FileError \<and> fmlookup es' n \<in> {Some (DirNode old), Some (DirNode (with_old_data preserve old new))}
        \<and> failed_between flt k k'"
proof -
  obtain r1 es1 k1 where k1: "k \<le> k1"
    and exch: "try_except (swap_in flt preserve (update_dir n @ q) n) (roll_back flt n)
      (disk (set_aside n archive old es) k a) =
      (r1, (disk es1 k1 a))"
    and same1: "others_same n (set_aside n archive old es) es1" and dirs: "slots_are_dirs n es1"
    and r1: "r1 = Inr () \<and> fmlookup es1 n = Some (DirNode (with_old_data preserve old new))
      \<or> r1 = Inl FileError \<and> fmlookup es1 n = Some (DirNode old) \<and> failed_between flt k k1"
    using exchange_outcome[OF all one q(1) set_aside_slots(1) q(2) set_aside_slots(2,3,4) new] by metis
  define es2 where "es2 = without_slots n es1"
  obtain k2 where k2: "k1 \<le> k2" and tidy: "tidy_up flt n (disk es1 k1 a) =
      (Inr (), (disk es2 k2 a))"
    using tidy_all[OF all dirs] unfolding es2_def by blast
  have same2: "others_same n es es2"
    using others_same_trans[OF set_aside_slots(5) same1] by (simp add: others_same_def es2_def without_slots_def)
  have slots2: "without_slots n es2 = es2"
    unfolding es2_def by (rule fmap_ext) (simp add: slot_defs)
  have app2: "fmlookup es2 n = fmlookup es1 n"
    by (simp add: es2_def slot_defs)
  from r1 show ?thesis
  proof (elim disjE conjE)
    assume good: "r1 = Inr ()" "fmlookup es1 n = Some (DirNode (with_old_data preserve old new))"
    have here: "fmlookup es2 n = Some (DirNode (with_old_data preserve old new))"
      using app2 good by simp
    obtain r3 es3 k3 where k3: "k2 \<le> k3"
      and stale: "clear_stale_update_status flt [n] (disk es2 k2 a) =
        (r3, (disk es3 k3 a))"
      and r3: "r3 = Inr () \<and> es3 = fmupd n (del_at status_file (DirNode (with_old_data preserve old new))) es2
        \<or> r3 = Inl FileError \<and> es3 = es2 \<and> failed_between flt k2 k3"
      using clear_stale_outcome[OF here status] by metis
    have "others_same n es es3" "without_slots n es3 = es3"
      using r3 same2 slots2 by (auto simp: others_same_def slot_defs fmdrop_fmupd_other)
    moreover have "failed_between flt k2 k3 \<Longrightarrow> failed_between flt k k3"
      using k1 k2 by (auto simp: failed_between_def intro: order_trans)
    ultimately show ?thesis
      using that[of k3 r3 es3] exch tidy stale r3 k1 k2 k3 good(1) here
      by (auto simp: next_op_def try_finally_def)
  next
    assume bad: "r1 = Inl FileError" "fmlookup es1 n = Some (DirNode old)" "failed_between flt k k1"
    have "failed_between flt k k2"
      using bad(3) k2 by (auto simp: failed_between_def)
    then show ?thesis
      using that[of k2 r1 es2] exch tidy bad app2 same2 slots2 k1 k2
      by (simp add: next_op_def try_finally_def)
  qed
qed

lemma onion_from_aside:
  assumes "clear_leftovers flt n s = (Inr (), s1)" and "mkdir flt (update_dir n) s1 = (Inr (), s2)"
    and "extract_archive archive (update_dir n) s2 = (Inr (), s3)"
    and "need_app (update_dir n @ [root, n]) s3 = (Inr app, s3)" and "should_preserve_onion_data running app = Inr preserve"
    and "when_exists [n] (os_replace flt [n] (backup_dir n)) s3 = (Inr (), s4)"
  shows "install_onion_update_archive flt running archive n root s =
    next_op (try_finally (try_except (swap_in flt preserve (update_dir n @ [root, n]) n) (roll_back flt n)) (tidy_up flt n))
      (\<lambda>_. clear_stale_update_status flt [n]) s4"
  using assms by (simp add: install_onion_update_archive_def Let_def next_op_def)

text \<open>The steps up to setting the old version aside; the faults that matter are those of steps k1 and Suc k1.\<close>

definition may_go_on :: "disk_faults \<Rightarrow> nat \<Rightarrow> string \<Rightarrow> fs_node \<times> bool \<Rightarrow> string list \<Rightarrow> bool" where
  "may_go_on flt k1 running archive q = (\<not> df_fails flt k1 \<and> \<not> df_fails flt (Suc k1) \<and> snd archive
     \<and> (\<exists>app p. node_at q (fst archive) = Some app \<and> should_preserve_onion_data running app = Inr p))"

lemma first_steps:
  fixes archive :: "fs_node \<times> bool"
  assumes all: "removes_all flt" and dirs: "slots_are_dirs n es" and old: "fmlookup es n = Some (DirNode old)"
  defines "w \<equiv> without_slots n es" and "u \<equiv> unpacked n (fst archive) es"
  obtains k1 where
    "clear_leftovers flt n (disk es k a) = (Inr (), (disk w k1 a))"
    "mkdir flt (update_dir n) (disk w k1 a) =
      (if df_fails flt k1 then (Inl FileError, (disk w (Suc k1) a))
       else (Inr (), (disk (fmupd (hd (update_dir n)) (DirNode fmempty) w) (Suc k1) a)))"
    "extract_archive archive (update_dir n) (disk (fmupd (hd (update_dir n)) (DirNode fmempty) w) (Suc k1) a) =
      (if snd archive then Inr () else Inl ValueError, (disk u (Suc k1) a))"
    "need_app (update_dir n @ q) (disk u (Suc k1) a) =
      (of_option RuntimeError (node_at q (fst archive)), (disk u (Suc k1) a))"
    "when_exists [n] (os_replace flt [n] (backup_dir n)) (disk u (Suc k1) a) =
      (if df_fails flt (Suc k1) then (Inl FileError, (disk u (Suc (Suc k1)) a))
       else (Inr (), (disk (set_aside n (fst archive) old es) (Suc (Suc k1)) a)))"
    "others_same n es w" "others_same n es u" "fmlookup w n = Some (DirNode old)" "fmlookup u n = Some (DirNode old)"
proof -
  obtain k1 where clear: "clear_leftovers flt n (disk es k a) =
      (Inr (), (disk w k1 a))"
    using clear_all_slots[OF all dirs] unfolding w_def by blast
  have u: "fmlookup u n = Some (DirNode old)"
    using old by (simp add: u_def unpacked_def slot_defs)
  show ?thesis
  proof (rule that[of k1, OF clear])
    show "need_app (update_dir n @ q) (disk u (Suc k1) a) =
      (of_option RuntimeError (node_at q (fst archive)), (disk u (Suc k1) a))"
      by (simp add: need_app_def update_dir_def u_def unpacked_def of_option_def split: option.split)
    show "when_exists [n] (os_replace flt [n] (backup_dir n)) (disk u (Suc k1) a) =
      (if df_fails flt (Suc k1) then (Inl FileError, (disk u (Suc (Suc k1)) a))
       else (Inr (), (disk (set_aside n (fst archive) old es) (Suc (Suc k1)) a)))"
      using u by (simp add: when_exists_def exists_at_def os_replace_def is_dir_def stepped_def set_aside_def slot_defs
          u_def unpacked_def)
  qed (use old u in \<open>simp_all add: mkdir_def slot_defs stepped_def extract_archive_def w_def u_def unpacked_def others_same_def\<close>)
qed

lemma onion_outcome:
  assumes all: "removes_all flt" and dirs: "slots_are_dirs n es" and old: "fmlookup es n = Some (DirNode old)"
  obtains k1 where
    "may_go_on flt k1 running archive [root, n] \<Longrightarrow>
      \<exists>app preserve. node_at [root, n] (fst archive) = Some app \<and> should_preserve_onion_data running app = Inr preserve
      \<and> install_onion_update_archive flt running archive n root (disk es k a) =
        next_op (try_finally (try_except (swap_in flt preserve (update_dir n @ [root, n]) n) (roll_back flt n)) (tidy_up flt n))
          (\<lambda>_. clear_stale_update_status flt [n])
          (disk (set_aside n (fst archive) old es) (Suc (Suc k1)) a)"
    "\<not> may_go_on flt k1 running archive [root, n] \<Longrightarrow>
      \<exists>e es' k'. install_onion_update_archive flt running archive n root (disk es k a) =
        (Inl e, (disk es' k' a)) \<and> others_same n es es' \<and> fmlookup es' n = Some (DirNode old)"
proof -
  obtain k1 where steps: "clear_leftovers flt n (disk es k a) =
      (Inr (), (disk (without_slots n es) k1 a))"
    "mkdir flt (update_dir n) (disk (without_slots n es) k1 a) =
      (if df_fails flt k1 then (Inl FileError, (disk (without_slots n es) (Suc k1) a))
       else (Inr (), (disk (fmupd (hd (update_dir n)) (DirNode fmempty) (without_slots n es)) (Suc k1) a)))"
    "extract_archive archive (update_dir n) (disk (fmupd (hd (update_dir n)) (DirNode fmempty) (without_slots n es)) (Suc k1) a) =
      (if snd archive then Inr () else Inl ValueError, (disk (unpacked n (fst archive) es) (Suc k1) a))"
    "need_app (update_dir n @ [root, n]) (disk (unpacked n (fst archive) es) (Suc k1) a) =
      (of_option RuntimeError (node_at [root, n] (fst archive)), (disk (unpacked n (fst archive) es) (Suc k1) a))"
    "when_exists [n] (os_replace flt [n] (backup_dir n)) (disk (unpacked n (fst archive) es) (Suc k1) a) =
      (if df_fails flt (Suc k1) then (Inl FileError, (disk (unpacked n (fst archive) es) (Suc (Suc k1)) a))
       else (Inr (), (disk (set_aside n (fst archive) old es) (Suc (Suc k1)) a)))"
    and same: "others_same n es (without_slots n es)" "others_same n es (unpacked n (fst archive) es)"
      "fmlookup (without_slots n es) n = Some (DirNode old)" "fmlookup (unpacked n (fst archive) es) n = Some (DirNode old)"
    using first_steps[OF all dirs old, where archive = archive and q = "[root, n]"] by metis
  note run = install_onion_update_archive_def Let_def next_op_def steps(1-4)
  show ?thesis
  proof (rule that[of k1])
    assume go: "may_go_on flt k1 running archive [root, n]"
    then obtain app p where app: "node_at [root, n] (fst archive) = Some app" "should_preserve_onion_data running app = Inr p"
      by (auto simp: may_go_on_def)
    then have "install_onion_update_archive flt running archive n root (disk es k a) =
        next_op (try_finally (try_except (swap_in flt p (update_dir n @ [root, n]) n) (roll_back flt n)) (tidy_up flt n))
          (\<lambda>_. clear_stale_update_status flt [n])
          (disk (set_aside n (fst archive) old es) (Suc (Suc k1)) a)"
      using go steps(5) by (simp add: run may_go_on_def del: node_at.simps)
    then show "\<exists>app preserve. node_at [root, n] (fst archive) = Some app \<and> should_preserve_onion_data running app = Inr preserve
      \<and> install_onion_update_archive flt running archive n root (disk es k a) =
        next_op (try_finally (try_except (swap_in flt preserve (update_dir n @ [root, n]) n) (roll_back flt n)) (tidy_up flt n))
          (\<lambda>_. clear_stale_update_status flt [n])
          (disk (set_aside n (fst archive) old es) (Suc (Suc k1)) a)"
      using app by blast
  next
    assume "\<not> may_go_on flt k1 running archive [root, n]"
    then consider "df_fails flt k1" | "\<not> df_fails flt k1" "\<not> snd archive"
      | "\<not> df_fails flt k1" "snd archive" "node_at [root, n] (fst archive) = None"
      | app e where "\<not> df_fails flt k1" "snd archive" "node_at [root, n] (fst archive) = Some app" "should_preserve_onion_data running app = Inl e"
      | app p where "\<not> df_fails flt k1" "df_fails flt (Suc k1)" "snd archive" "node_at [root, n] (fst archive) = Some app" "should_preserve_onion_data running app = Inr p"
      by (metis (no_types) may_go_on_def option.exhaust sum.exhaust)
    then show "\<exists>e es' k'. install_onion_update_archive flt running archive n root (disk es k a) =
        (Inl e, (disk es' k' a)) \<and> others_same n es es' \<and> fmlookup es' n = Some (DirNode old)"
      using steps(5) same by cases (simp_all add: run del: node_at.simps)
  qed
qed

lemma rebuilt:
  assumes "others_same n es es'" and "without_slots n es' = es'" and "fmlookup es' n = Some t"
  shows "es' = fmupd n t (without_slots n es)"
proof (rule fmap_ext)
  fix m
  have gone: "fmlookup es' m = None" if "m \<in> {hd (update_dir n), hd (backup_dir n), hd (preserved_dir n)}"
    by (subst assms(2)[symmetric]) (use that in \<open>auto simp: slot_defs\<close>)
  show "fmlookup es' m = fmlookup (fmupd n t (without_slots n es)) m"
  proof (cases "m \<in> {hd (update_dir n), hd (backup_dir n), hd (preserved_dir n)}")
    case True
    then show ?thesis using gone by (auto simp: slot_defs)
  next
    case False
    then show ?thesis using assms(1,3) by (auto simp: others_same_def slot_defs)
  qed
qed

text \<open>The archive holds the application's directory, and neither version has a directory named as the status file.\<close>

definition sound_archive ::
  "string list \<Rightarrow> (string, fs_node) fmap \<Rightarrow> (string, fs_node) fmap \<Rightarrow> fs_node \<Rightarrow> bool" where
  "sound_archive q old new archive = (node_at q archive = Some (DirNode new) \<and> data_not_file new
     \<and> (\<forall>p. \<not> is_dir (node_at status_file (DirNode (with_old_data p old new)))))"

lemma onion_all_or_nothing:
  assumes all: "removes_all flt" and one: "one_fault flt" and dirs: "slots_are_dirs n es"
    and old: "fmlookup es n = Some (DirNode old)" and sound: "sound_archive [root, n] old new (fst archive)"
  obtains r es' k' where
    "install_onion_update_archive flt running archive n root (disk es k a) = (r, disk es' k' a)" "others_same n es es'"
    "r = Inr () \<and> without_slots n es' = es' \<and> (\<exists>p. should_preserve_onion_data running (DirNode new) = Inr p
        \<and> fmlookup es' n = Some (del_at status_file (DirNode (with_old_data p old new))))
      \<or> r \<noteq> Inr () \<and> (fmlookup es' n = Some (DirNode old)
          \<or> (\<exists>p. should_preserve_onion_data running (DirNode new) = Inr p
              \<and> fmlookup es' n = Some (DirNode (with_old_data p old new))))
        \<and> ((\<exists>i. df_fails flt i) \<or> \<not> snd archive \<or> (\<exists>e. should_preserve_onion_data running (DirNode new) = Inl e))"
proof -
  have app: "node_at [root, n] (fst archive) = Some (DirNode new)" and new: "data_not_file new"
    and status: "\<And>p. \<not> is_dir (node_at status_file (DirNode (with_old_data p old new)))"
    using sound by (auto simp: sound_archive_def simp del: node_at.simps)
  obtain k1 where go: "may_go_on flt k1 running archive [root, n] \<Longrightarrow>
      \<exists>app preserve. node_at [root, n] (fst archive) = Some app \<and> should_preserve_onion_data running app = Inr preserve
      \<and> install_onion_update_archive flt running archive n root (disk es k a) =
        next_op (try_finally (try_except (swap_in flt preserve (update_dir n @ [root, n]) n) (roll_back flt n)) (tidy_up flt n))
          (\<lambda>_. clear_stale_update_status flt [n]) (disk (set_aside n (fst archive) old es) (Suc (Suc k1)) a)"
    and stop: "\<not> may_go_on flt k1 running archive [root, n] \<Longrightarrow>
      \<exists>e es' k'. install_onion_update_archive flt running archive n root (disk es k a) = (Inl e, disk es' k' a)
        \<and> others_same n es es' \<and> fmlookup es' n = Some (DirNode old)"
    using onion_outcome[OF all dirs old] by metis
  show ?thesis
  proof (cases "may_go_on flt k1 running archive [root, n]")
    case False
    then obtain e es' k' where "install_onion_update_archive flt running archive n root (disk es k a) = (Inl e, disk es' k' a)"
      "others_same n es es'" "fmlookup es' n = Some (DirNode old)"
      using stop by blast
    moreover have "(\<exists>i. df_fails flt i) \<or> \<not> snd archive \<or> (\<exists>e. should_preserve_onion_data running (DirNode new) = Inl e)"
      using False app by (cases "should_preserve_onion_data running (DirNode new)") (auto simp: may_go_on_def simp del: node_at.simps)
    ultimately show ?thesis
      using that[of "Inl e" es' k'] by simp
  next
    case True
    then obtain p where p: "should_preserve_onion_data running (DirNode new) = Inr p"
      and run: "install_onion_update_archive flt running archive n root (disk es k a) =
        next_op (try_finally (try_except (swap_in flt p (update_dir n @ [root, n]) n) (roll_back flt n)) (tidy_up flt n))
          (\<lambda>_. clear_stale_update_status flt [n]) (disk (set_aside n (fst archive) old es) (Suc (Suc k1)) a)"
      using go app by (metis option.inject)
    obtain r es' k' where "install_onion_update_archive flt running archive n root (disk es k a) = (r, disk es' k' a)"
      "others_same n es es'" "without_slots n es' = es'"
      "r = Inr () \<and> fmlookup es' n = Some (del_at status_file (DirNode (with_old_data p old new)))
        \<or> r = Inl FileError \<and> fmlookup es' n \<in> {Some (DirNode old), Some (DirNode (with_old_data p old new))}
          \<and> failed_between flt (Suc (Suc k1)) k'"
      using last_steps_outcome[OF all one _ app new status, where preserve = p and n = n and es = es
          and k = "Suc (Suc k1)" and a = a] unfolding run by blast
    then show ?thesis
      using that[of r es' k'] p by (auto simp: failed_between_def simp del: node_at.simps del_at.simps)
  qed
qed

text \<open>
  An update that meets no fault puts the new version in place.  The data directory of the old version is
  carried over when the archive's version has the same major number, the stale answer of the update check
  is dropped, the three working directories are gone and nothing else has changed.
\<close>

theorem update_carries_data_over:
  assumes "removes_all flt" and "never_fails flt" and "slots_are_dirs n es"
    and "fmlookup es n = Some (DirNode old)" and "sound_archive [root, n] old new archive"
    and "should_preserve_onion_data running (DirNode new) = Inr preserve"
  shows "\<exists>k'. install_onion_update_archive flt running (archive, True) n root
      \<lparr>dk_tree = DirNode es, dk_step = k, dk_archive = a\<rparr> =
    (Inr (), \<lparr>dk_tree = DirNode (fmupd n (del_at status_file (DirNode (with_old_data preserve old new))) (without_slots n es)),
       dk_step = k', dk_archive = a\<rparr>)"
proof -
  have one: "one_fault flt"
    using assms(2) by (simp add: one_fault_def never_fails_def)
  have sound: "sound_archive [root, n] old new (fst (archive, True))"
    using assms(5) by simp
  have calm: "\<not> (\<exists>i. df_fails flt i)"
    using assms(2) by (simp add: never_fails_def)
  obtain r es' k' where run: "install_onion_update_archive flt running (archive, True) n root (disk es k a) = (r, disk es' k' a)"
    and same: "others_same n es es'"
    and outcome: "r = Inr () \<and> without_slots n es' = es' \<and> (\<exists>p. should_preserve_onion_data running (DirNode new) = Inr p
        \<and> fmlookup es' n = Some (del_at status_file (DirNode (with_old_data p old new))))
      \<or> r \<noteq> Inr () \<and> ((\<exists>i. df_fails flt i) \<or> \<not> snd (archive, True) \<or> (\<exists>e. should_preserve_onion_data running (DirNode new) = Inl e))"
    using onion_all_or_nothing[OF assms(1) one assms(3,4) sound, of running k a] by metis
  have "\<not> ((\<exists>i. df_fails flt i) \<or> \<not> snd (archive, True) \<or> (\<exists>e. should_preserve_onion_data running (DirNode new) = Inl e))"
    using calm assms(6) by simp
  then obtain p where r: "r = Inr ()" and slots: "without_slots n es' = es'"
    and p: "should_preserve_onion_data running (DirNode new) = Inr p"
    and app0: "fmlookup es' n = Some (del_at status_file (DirNode (with_old_data p old new)))"
    using outcome by blast
  have app: "fmlookup es' n = Some (del_at status_file (DirNode (with_old_data preserve old new)))"
    using app0 p assms(6) by (metis Inr_inject)
  have "es' = fmupd n (del_at status_file (DirNode (with_old_data preserve old new))) (without_slots n es)"
    by (rule rebuilt[OF same slots app])
  then show ?thesis
    using run r by blast
qed

text \<open>C38: 
  When at most one step fails and nothing removed is left over, an update that ends in an error has put the
  old version back as it was, or the new one is in place with the data that was to be kept; the other
  entries of the parent directory are untouched.
\<close>

theorem failed_update_restores:
  assumes "removes_all flt" and "one_fault flt" and "slots_are_dirs n es"
    and "fmlookup es n = Some (DirNode old)" and "sound_archive [root, n] old new (fst archive)"
    and "install_onion_update_archive flt running archive n root \<lparr>dk_tree = DirNode es, dk_step = k, dk_archive = a\<rparr> = (Inl e, s')"
  shows "\<exists>es'. dk_tree s' = DirNode es' \<and> others_same n es es' \<and> (fmlookup es' n = Some (DirNode old)
    \<or> (\<exists>p. should_preserve_onion_data running (DirNode new) = Inr p \<and> fmlookup es' n = Some (DirNode (with_old_data p old new))))"
proof -
  obtain es' k' where "s' = disk es' k' a" "others_same n es es'"
    "fmlookup es' n = Some (DirNode old)
      \<or> (\<exists>p. should_preserve_onion_data running (DirNode new) = Inr p \<and> fmlookup es' n = Some (DirNode (with_old_data p old new)))"
    using onion_all_or_nothing[OF assms(1-5), of running k a] assms(6) by (metis Inl_Inr_False prod.inject)
  then show ?thesis by auto
qed

section \<open>The update on muOS\<close>

lemma unlink_archive_works:
  assumes "never_fails flt"
  obtains k' where "unlink_archive flt (disk es k a) = (Inr (), disk es k' False)"
  using assms that by (cases a) (auto simp: unlink_archive_def never_fails_def stepped_def)

text \<open>
  On muOS the data is carried over whatever the versions are, and the downloaded archive is gone.
\<close>

theorem muos_update_carries_data_over:
  assumes all: "removes_all flt" and never: "never_fails flt" and dirs: "slots_are_dirs n es"
    and old: "fmlookup es n = Some (DirNode old)" and sound: "sound_archive [n] old new archive"
  shows "\<exists>k'. install_muos_update_archive flt (archive, True) n \<lparr>dk_tree = DirNode es, dk_step = k, dk_archive = a\<rparr> =
    (Inr (), \<lparr>dk_tree = DirNode (fmupd n (del_at status_file (DirNode (with_old_data True old new))) (without_slots n es)),
       dk_step = k', dk_archive = False\<rparr>)"
proof -
  let ?new = "DirNode (with_old_data True old new)"
  have app: "node_at [n] archive = Some (DirNode new)" and new: "data_not_file new"
    and status: "\<not> is_dir (node_at status_file ?new)"
    using sound by (auto simp: sound_archive_def simp del: node_at.simps node_at_entry)
  have one: "one_fault flt" and calm: "\<And>i j. \<not> failed_between flt i j" "\<And>i. \<not> df_fails flt i"
    using never by (simp_all add: one_fault_def never_fails_def failed_between_def)
  obtain k1 where steps: "clear_leftovers flt n (disk es k a) = (Inr (), disk (without_slots n es) k1 a)"
    "mkdir flt (update_dir n) (disk (without_slots n es) k1 a) =
      (Inr (), disk (fmupd (hd (update_dir n)) (DirNode fmempty) (without_slots n es)) (Suc k1) a)"
    "extract_archive (archive, True) (update_dir n) (disk (fmupd (hd (update_dir n)) (DirNode fmempty) (without_slots n es)) (Suc k1) a) =
      (Inr (), disk (unpacked n archive es) (Suc k1) a)"
    "need_app (update_dir n @ [n]) (disk (unpacked n archive es) (Suc k1) a) = (Inr (DirNode new), disk (unpacked n archive es) (Suc k1) a)"
    "when_exists [n] (os_replace flt [n] (backup_dir n)) (disk (unpacked n archive es) (Suc k1) a) =
      (Inr (), disk (set_aside n archive old es) (Suc (Suc k1)) a)"
    using first_steps[OF all dirs old, where archive = "(archive, True)" and q = "[n]" and k = k and a = a] calm(2) app
    by (auto simp del: node_at.simps node_at_entry)
  obtain r1 es1 k2 where exch: "try_except (swap_in flt True (update_dir n @ [n]) n) (roll_back flt n)
      (disk (set_aside n archive old es) (Suc (Suc k1)) a) = (r1, disk es1 k2 a)"
    and same: "others_same n (set_aside n archive old es) es1" and dirs1: "slots_are_dirs n es1"
    and r1: "r1 = Inr () \<and> fmlookup es1 n = Some ?new"
    using exchange_outcome[OF all one _ set_aside_slots(1) app set_aside_slots(2,3,4) new] calm(1) by (metis list.distinct(1))
  define es2 where "es2 = without_slots n es1"
  obtain k3 where tidy: "tidy_up flt n (disk es1 k2 a) = (Inr (), disk es2 k3 a)"
    using tidy_all[OF all dirs1] unfolding es2_def by blast
  obtain k4 where gone: "unlink_archive flt (disk es2 k3 a) = (Inr (), disk es2 k4 False)"
    using unlink_archive_works[OF never] by blast
  have app2: "fmlookup es2 n = Some ?new"
    using r1 by (simp add: es2_def slot_defs)
  obtain k5 where stale: "clear_stale_update_status flt [n] (disk es2 k4 False) =
      (Inr (), disk (fmupd n (del_at status_file ?new) es2) k5 False)"
    using clear_stale_outcome[OF app2 status, of k4 flt False] calm(1) by metis
  have "others_same n es es2" "without_slots n es2 = es2"
    using others_same_trans[OF set_aside_slots(5) same]
    by (auto simp: others_same_def es2_def slot_defs intro!: fmap_ext)
  then have "es2 = fmupd n ?new (without_slots n es)"
    using app2 by (rule rebuilt)
  then have "fmupd n (del_at status_file ?new) es2 = fmupd n (del_at status_file ?new) (without_slots n es)"
    by simp
  then show ?thesis
    using steps exch tidy gone stale r1
    by (intro exI[of _ k5]) (simp add: install_muos_update_archive_def Let_def next_op_def try_finally_def)
qed

section \<open>Two faults\<close>

text \<open>The faults of an update in which the removals of steps i and j leave the given parts.\<close>

definition leaves_at :: "(nat \<times> (string, fs_node) fmap) list \<Rightarrow> disk_faults" where
  "leaves_at ps = \<lparr>df_fails = \<lambda>_. False, df_left = \<lambda>k _. map_option DirNode (map_of ps k)\<rparr>"

lemma steps_without_slots:
  assumes "without_slots n es = es"
  shows "fmlookup es (hd (update_dir n)) = None" "fmlookup es (hd (backup_dir n)) = None" "fmlookup es (hd (preserved_dir n)) = None"
    "clear_leftovers flt n (disk es k a) = (Inr (), disk es k a)"
proof -
  show none: "fmlookup es (hd (update_dir n)) = None" "fmlookup es (hd (backup_dir n)) = None" "fmlookup es (hd (preserved_dir n)) = None"
    by (subst assms[symmetric], simp add: slot_defs)+
  then show "clear_leftovers flt n (disk es k a) = (Inr (), disk es k a)"
    by (simp add: clear_leftovers_def next_op_def when_exists_def exists_at_def slot_defs)
qed

text \<open>C39: 
  The removal of the new version's own data directory fails, and so does the removal of the new version in
  the rollback: the backup cannot be put back, it is tidied away all the same, and the directory of the
  application is what the removal left of the new version.  The old version and its data are gone.
\<close>

theorem failed_removal_loses_data:
  assumes es: "without_slots n es = es" "fmlookup es n = Some (DirNode old)"
    and data: "fmlookup old ''data'' = Some d" "fmlookup new ''data'' = Some (DirNode own)"
    and app: "node_at [root, n] archive = Some (DirNode new)"
    and same: "should_preserve_onion_data running (DirNode new) = Inr True"
    and rest: "rest \<noteq> fmempty"
  shows "\<exists>k'. install_onion_update_archive (leaves_at [(k + 4, own), (k + 6, rest)]) running (archive, True) n root
      \<lparr>dk_tree = DirNode es, dk_step = k, dk_archive = a\<rparr> =
    (Inl FileError, \<lparr>dk_tree = DirNode (fmupd n (DirNode rest) es), dk_step = k', dk_archive = a\<rparr>)"
proof -
  let ?flt = "leaves_at [(k + 4, own), (k + 6, rest)]"
    and ?u = "hd (update_dir n)" and ?b = "hd (backup_dir n)" and ?p = "hd (preserved_dir n)"
  note slots = steps_without_slots[OF es(1)]
  obtain as0 where "archive = DirNode as0" using app by (cases archive) auto
  then obtain as1 where as1: "del_at [root, n] archive = DirNode as1" using del_at_dir by blast
  define es3 where "es3 = fmupd ?b (DirNode old) (fmdrop n (fmupd ?u archive es))"
  define es4 where "es4 = fmupd n (DirNode new) (fmupd ?u (DirNode as1) es3)"
  define es6 where "es6 = fmupd n (DirNode (fmupd ''data'' (DirNode own) new)) (fmupd ?p d (fmupd ?b (DirNode (fmdrop ''data'' old)) es4))"
  define es8 where "es8 = fmupd n (DirNode rest) (fmupd ?b (DirNode old) (fmdrop ?p es6))"
  have restored: "fmupd ''data'' d (fmdrop ''data'' old) = old"
    using data(1) by (intro fmap_ext) auto
  have "install_onion_update_archive ?flt running (archive, True) n root (disk es k a) =
      next_op (try_finally (try_except (swap_in ?flt True (update_dir n @ [root, n]) n) (roll_back ?flt n)) (tidy_up ?flt n))
        (\<lambda>_. clear_stale_update_status ?flt [n]) (disk es3 (k + 2) a)"
    by (rule onion_from_aside[OF slots(4), where app = "DirNode new" and ?s2.0 = "disk (fmupd ?u (DirNode fmempty) es) (k + 1) a"
          and ?s3.0 = "disk (fmupd ?u archive es) (k + 1) a"])
      (use slots es app same in \<open>simp_all add: mkdir_def leaves_at_def slot_defs stepped_def extract_archive_def need_app_def
          when_exists_def exists_at_def os_replace_def is_dir_def es3_def\<close>)
  moreover have "swap_in ?flt True (update_dir n @ [root, n]) n (disk es3 (k + 2) a) = (Inl FileError, disk es6 (k + 5) a)"
    using slots es app data as1
    by (simp add: swap_in_def carry_data_def next_op_def os_replace_def leaves_at_def slot_defs is_dir_def stepped_def
        exists_at_def when_exists_def rmtree_def es3_def es4_def es6_def numeral_eq_Suc)
  moreover have "roll_back ?flt n (disk es6 (k + 5) a) = (Inl FileError, disk es8 (k + 8) a)"
    using slots es data rest restored
    by (simp add: roll_back_def next_op_def os_replace_def leaves_at_def slot_defs is_dir_def stepped_def
        exists_at_def when_exists_def rmtree_def es3_def es4_def es6_def es8_def numeral_eq_Suc)
  moreover have "tidy_up ?flt n (disk es8 (k + 8) a) = (Inr (), disk (fmupd n (DirNode rest) es) (k + 10) a)"
  proof -
    have "fmdrop ?b (fmdrop ?u es8) = fmupd n (DirNode rest) es"
      using slots by (intro fmap_ext) (simp add: slot_defs es8_def es6_def es4_def es3_def)
    moreover have "fmlookup es8 ?u = Some (DirNode as1)" "fmlookup es8 ?b = Some (DirNode old)" "fmlookup es8 ?p = None"
      by (simp_all add: slot_defs es8_def es6_def es4_def es3_def)
    ultimately show ?thesis
      using slots by (simp add: tidy_up_def next_op_def remove_tree_best_effort_def CLEANUP_RETRIES_def numeral_3_eq_3
        exists_at_def rmtree_def leaves_at_def stepped_def slot_defs)
  qed
  ultimately show ?thesis
    by (simp add: next_op_def try_finally_def try_except_def)
qed

text \<open>
  The removal of a working directory that leaves something each time does not end quietly, as its comment
  has it: the last attempt raises, and the update ends in an error though the new version is in place.
\<close>

theorem stubborn_leftover_raises:
  assumes "fmlookup es m = Some (DirNode x)" and "\<And>k t. df_left flt k t = Some (DirNode x)"
  shows "remove_tree_best_effort flt [m] \<lparr>dk_tree = DirNode es, dk_step = k, dk_archive = a\<rparr> =
    (Inl FileError, \<lparr>dk_tree = DirNode es, dk_step = Suc (Suc (Suc k)), dk_archive = a\<rparr>)"
  using assms by (simp add: remove_tree_best_effort_def CLEANUP_RETRIES_def numeral_3_eq_3 next_op_def exists_at_def
      rmtree_def stepped_def fmupd_same)

section \<open>Samples\<close>

definition sample_old :: "(string, fs_node) fmap" where
  "sample_old = fmupd ''data'' (DirNode (fmupd ''proxy.sqlite3'' (FileNode ''awards'')
     (fmupd ''update_status.json'' (FileNode ''{}'') fmempty))) (fmupd ''old.txt'' (FileNode []) fmempty)"

definition sample_new :: "(string, fs_node) fmap" where
  "sample_new = fmupd ''data'' (DirNode fmempty) (fmupd ''common.sh'' (FileNode ''APP_VERSION=v2.4.0'') fmempty)"

definition sample_archive :: fs_node where
  "sample_archive = DirNode (fmupd ''App'' (DirNode (fmupd ''Proxy'' (DirNode sample_new) fmempty)) fmempty)"

definition sample_parent :: "(string, fs_node) fmap" where
  "sample_parent = fmupd ''Proxy'' (DirNode sample_old) (fmupd ''Other'' (FileNode ''x'') fmempty)"

definition faults_at :: "nat list \<Rightarrow> disk_faults" where
  "faults_at ks = \<lparr>df_fails = \<lambda>k. k \<in> set ks, df_left = \<lambda>_ _. None\<rparr>"

lemma sample_faults: "removes_all (faults_at ks)" "never_fails (faults_at [])" "one_fault (faults_at [k])"
  by (simp_all add: removes_all_def never_fails_def one_fault_def faults_at_def)

lemma sample_keeps: "should_preserve_onion_data ''2.3.0'' (DirNode sample_new) = Inr True"
proof -
  have "splitlines ''APP_VERSION=v2.4.0'' = [''APP_VERSION=v2.4.0'']" by code_simp
  moreover have "parse_version ''2.3.0'' = Some (ParsedVersion 2 3 0 2 2147483647 (- 1))"
    "parse_version ''2.4.0'' = Some (ParsedVersion 2 4 0 2 2147483647 (- 1))"
    "removeprefix ''v'' (strip (after CHR ''='' ''APP_VERSION=v2.4.0'')) = ''2.4.0''"
    by code_simp+
  ultimately show ?thesis
    by (simp add: should_preserve_onion_data_def read_onion_app_version_def sample_new_def)
qed

lemma sample_sound: "sound_archive [''App'', ''Proxy''] sample_old sample_new sample_archive"
  by (simp add: sound_archive_def sample_archive_def sample_old_def sample_new_def data_not_file_def is_dir_def
      with_old_data_def status_file_def)

lemma sample_places: "slots_are_dirs ''Proxy'' sample_parent" "without_slots ''Proxy'' sample_parent = sample_parent"
  "fmlookup sample_parent ''Proxy'' = Some (DirNode sample_old)"
  by (simp_all add: sample_parent_def slots_are_dirs_def slot_defs fmdrop_absent)

theorem update_carries_data_over_witness:
  "\<exists>k'. install_onion_update_archive (faults_at []) ''2.3.0'' (sample_archive, True) ''Proxy'' ''App''
      \<lparr>dk_tree = DirNode sample_parent, dk_step = 0, dk_archive = True\<rparr> =
    (Inr (), \<lparr>dk_tree = DirNode (fmupd ''Proxy'' (del_at status_file (DirNode (with_old_data True sample_old sample_new)))
       (without_slots ''Proxy'' sample_parent)), dk_step = k', dk_archive = True\<rparr>)"
  by (rule update_carries_data_over[OF sample_faults(1,2) sample_places(1,3) sample_sound sample_keeps])

theorem failed_removal_loses_data_witness:
  "\<exists>k'. install_onion_update_archive (leaves_at [(0 + 4, fmempty), (0 + 6, sample_new)]) ''2.3.0'' (sample_archive, True) ''Proxy'' ''App''
      \<lparr>dk_tree = DirNode sample_parent, dk_step = 0, dk_archive = True\<rparr> =
    (Inl FileError, \<lparr>dk_tree = DirNode (fmupd ''Proxy'' (DirNode sample_new) sample_parent), dk_step = k', dk_archive = True\<rparr>)"
  by (rule failed_removal_loses_data[OF sample_places(2,3), where new = sample_new and
        d = "DirNode (fmupd ''proxy.sqlite3'' (FileNode ''awards'') (fmupd ''update_status.json'' (FileNode ''{}'') fmempty))"])
    (use sample_keeps in \<open>simp_all add: sample_old_def sample_new_def sample_archive_def\<close>)

lemma sample_failed:
  "fst (install_onion_update_archive (faults_at [3]) ''2.3.0'' (sample_archive, True) ''Proxy'' ''App'' (disk sample_parent 0 True)) =
     Inl FileError"
proof -
  let ?es = "sample_parent"
  have new: "node_at [''App'', ''Proxy''] sample_archive = Some (DirNode sample_new)"
    by (simp add: sample_archive_def)
  have "install_onion_update_archive (faults_at [3]) ''2.3.0'' (sample_archive, True) ''Proxy'' ''App'' (disk ?es 0 True) =
      next_op (try_finally (try_except (swap_in (faults_at [3]) True (update_dir ''Proxy'' @ [''App'', ''Proxy'']) ''Proxy'')
          (roll_back (faults_at [3]) ''Proxy'')) (tidy_up (faults_at [3]) ''Proxy''))
        (\<lambda>_. clear_stale_update_status (faults_at [3]) [''Proxy''])
        (disk (set_aside ''Proxy'' sample_archive sample_old ?es) 2 True)"
    by (rule onion_from_aside[OF steps_without_slots(4)[OF sample_places(2)], where app = "DirNode sample_new"
          and ?s2.0 = "disk (fmupd (hd (update_dir ''Proxy'')) (DirNode fmempty) ?es) 1 True"
          and ?s3.0 = "disk (unpacked ''Proxy'' sample_archive ?es) 1 True"])
      (use sample_keeps new sample_places in \<open>simp_all add: mkdir_def faults_at_def stepped_def extract_archive_def need_app_def
        when_exists_def exists_at_def os_replace_def is_dir_def set_aside_def unpacked_def update_dir_def backup_dir_def
        steps_without_slots(1,2)[OF sample_places(2), unfolded slot_defs, simplified]\<close>)
  moreover have "fst (next_op (try_finally (try_except (swap_in (faults_at [3]) True (update_dir ''Proxy'' @ [''App'', ''Proxy'']) ''Proxy'')
          (roll_back (faults_at [3]) ''Proxy'')) (tidy_up (faults_at [3]) ''Proxy''))
        (\<lambda>_. clear_stale_update_status (faults_at [3]) [''Proxy''])
        (disk (set_aside ''Proxy'' sample_archive sample_old ?es) 2 True)) = Inl FileError"
    by code_simp
  ultimately show ?thesis by simp
qed

theorem failed_update_restores_witness:
  "\<exists>es'. dk_tree (snd (install_onion_update_archive (faults_at [3]) ''2.3.0'' (sample_archive, True) ''Proxy'' ''App'' (disk sample_parent 0 True)))
      = DirNode es' \<and> others_same ''Proxy'' sample_parent es' \<and> (fmlookup es' ''Proxy'' = Some (DirNode sample_old)
    \<or> (\<exists>p. should_preserve_onion_data ''2.3.0'' (DirNode sample_new) = Inr p
        \<and> fmlookup es' ''Proxy'' = Some (DirNode (with_old_data p sample_old sample_new))))"
proof -
  have sound: "sound_archive [''App'', ''Proxy''] sample_old sample_new (fst (sample_archive, True))"
    using sample_sound by simp
  show ?thesis
    by (rule failed_update_restores[OF sample_faults(1,3) sample_places(1,3) sound, where k = 0 and a = True and e = FileError])
      (use sample_failed in \<open>simp add: prod_eq_iff\<close>)
qed

end
