(* ===== verification/Gamelist_Cache.thy ===== *)
theory Gamelist_Cache
  imports Config_Text "HOL-Library.Product_Lexorder"
begin

text \<open>
  What the game history of PCSX2 and DuckStation is read from (smart_cache.py): gamelist.cache, a binary
  list of the known games, and playtime.dat, the times they were last played.  Bytes are characters; text
  is decoded with errors="replace", as CPython does it.
\<close>

section \<open>Bytes\<close>

definition be_nat :: "string \<Rightarrow> nat" where
  "be_nat bs = foldl (\<lambda>a c. 256 * a + code c) 0 bs"

definition le_nat :: "string \<Rightarrow> nat" where
  "le_nat bs = be_nat (rev bs)"

text \<open>struct.unpack_from("<I", data, offset); None where it raises.\<close>

definition le32_at :: "string \<Rightarrow> nat \<Rightarrow> nat option" where
  "le32_at data off = (if off + 4 \<le> length data then Some (le_nat (take 4 (drop off data))) else None)"

definition is_cont :: "char \<Rightarrow> bool" where
  "is_cont c = (128 \<le> code c \<and> code c < 192)"

text \<open>The second byte a lead byte of three or four may have.\<close>

definition second_ok :: "char \<Rightarrow> char \<Rightarrow> bool" where
  "second_ok c d = (is_cont d \<and> (code c = 224 \<longrightarrow> 160 \<le> code d) \<and> (code c = 237 \<longrightarrow> code d < 160)
     \<and> (code c = 240 \<longrightarrow> 144 \<le> code d) \<and> (code c = 244 \<longrightarrow> code d < 144))"

definition replacement :: string where
  "replacement = [CHR 0xEF, CHR 0xBF, CHR 0xBD]"

text \<open>How many bytes a well-formed sequence has, and how many of its bytes are there.\<close>

definition utf8_width :: "char \<Rightarrow> nat" where
  "utf8_width c = (if code c < 128 then 1 else if 194 \<le> code c \<and> code c < 224 then 2
     else if 224 \<le> code c \<and> code c < 240 then 3 else if 240 \<le> code c \<and> code c < 245 then 4 else 0)"

definition utf8_present :: "char \<Rightarrow> string \<Rightarrow> nat" where
  "utf8_present c rest =
     (if utf8_width c \<le> 1 then 1
      else case rest of
        [] \<Rightarrow> 1
      | d # ds \<Rightarrow>
          if \<not> (if utf8_width c = 2 then is_cont d else second_ok c d) then 1
          else 2 + length (takeWhile is_cont (take (utf8_width c - 2) ds)))"

lemma utf8_present_bounds: "1 \<le> utf8_present c rest" "utf8_present c rest \<le> Suc (length rest)"
proof -
  show "1 \<le> utf8_present c rest"
    by (auto simp: utf8_present_def split: list.split)
  have "length (takeWhile is_cont (take k ds)) \<le> length ds" for k ds
    by (rule order_trans[OF length_takeWhile_le]) simp
  then show "utf8_present c rest \<le> Suc (length rest)"
    by (auto simp: utf8_present_def split: list.split)
qed

function decode_replace :: "string \<Rightarrow> string" where
  "decode_replace [] = []"
| "decode_replace (c # rest) =
     (let n = utf8_present c rest in
      (if n = utf8_width c then take n (c # rest) else replacement) @ decode_replace (drop n (c # rest)))"
  by pat_completeness auto
termination
proof (relation "measure length")
  show "(drop n (c # rest), c # rest) \<in> measure length" if "n = utf8_present c rest" for n c rest
    using that utf8_present_bounds[of c rest] by simp
qed simp

lemma decode_ascii:
  assumes "list_all is_ascii s"
  shows "decode_replace s = s"
  using assms
proof (induction s)
  case (Cons c s)
  then have "utf8_width c = 1" "utf8_present c s = 1"
    by (simp_all add: utf8_width_def utf8_present_def is_ascii_def)
  then show ?case using Cons by simp
qed simp

section \<open>The list of games\<close>

datatype gamelist = PCSX2 | DuckStation

fun gamelist_signature :: "gamelist \<Rightarrow> nat" where
  "gamelist_signature PCSX2 = 0x45434C47"
| "gamelist_signature DuckStation = 0x45434C48"

fun gamelist_version :: "gamelist \<Rightarrow> nat" where
  "gamelist_version PCSX2 = 34"
| "gamelist_version DuckStation = 41"

text \<open>Of an entry: the bytes before its strings, the number of strings, the bytes after them.\<close>

fun entry_lead :: "gamelist \<Rightarrow> nat" where
  "entry_lead PCSX2 = 0"
| "entry_lead DuckStation = 1 + 1"

fun entry_strings :: "gamelist \<Rightarrow> nat" where
  "entry_strings PCSX2 = 5"
| "entry_strings DuckStation = 3"

fun entry_tail :: "gamelist \<Rightarrow> nat" where
  "entry_tail PCSX2 = 1 + 1 + 8 + 8 + 4 + 1"
| "entry_tail DuckStation = 8 + 8 + 8 + 8 + 1 + 16"

definition known_cache_version :: "gamelist \<Rightarrow> string \<Rightarrow> bool" where
  "known_cache_version g data = (8 \<le> length data
     \<and> le32_at data 0 = Some (gamelist_signature g) \<and> le32_at data 4 = Some (gamelist_version g))"

fun read_strings :: "nat \<Rightarrow> string \<Rightarrow> nat \<Rightarrow> (string list \<times> nat) option" where
  "read_strings 0 data off = Some ([], off)"
| "read_strings (Suc k) data off = (case le32_at data off of
       None \<Rightarrow> None
     | Some n \<Rightarrow>
        (if off + 4 + n > length data then None
         else map_option (\<lambda>(ss, e). (decode_replace (take n (drop (off + 4) data)) # ss, e))
                (read_strings k data (off + 4 + n))))"

lemma read_strings_end: "read_strings k data off = Some (ss, e) \<Longrightarrow> off \<le> e \<and> length ss = k"
  by (induction k arbitrary: off ss) (force split: option.splits if_splits)+

text \<open>Path objects are their text; norm is str(Path(...)).\<close>

definition set_first :: "string \<Rightarrow> string \<Rightarrow> (string \<times> string) list \<Rightarrow> (string \<times> string) list" where
  "set_first k v d = (if map_of d k = None then d @ [(k, v)] else d)"

definition add_entry :: "(string \<Rightarrow> string) \<Rightarrow> string list \<Rightarrow> (string \<times> string) list \<Rightarrow> (string \<times> string) list" where
  "add_entry norm ss files = (if ss ! 1 \<noteq> [] \<and> ss ! 0 \<noteq> [] then set_first (ss ! 1) (norm (ss ! 0)) files else files)"

function gamelist_loop :: "(string \<Rightarrow> string) \<Rightarrow> gamelist \<Rightarrow> string \<Rightarrow> nat \<Rightarrow> (string \<times> string) list \<Rightarrow> (string \<times> string) list" where
  "gamelist_loop norm g data off files =
     (if off \<ge> length data then files
      else case read_strings (entry_strings g) data (off + entry_lead g) of
        None \<Rightarrow> files
      | Some (ss, e) \<Rightarrow>
          (if e + entry_tail g > length data then files
           else gamelist_loop norm g data (e + entry_tail g) (add_entry norm ss files)))"
  by pat_completeness auto
termination
proof (relation "measure (\<lambda>(norm, g, data, off, files). length data - off)")
  show "((norm, g, data, e + entry_tail g, add_entry norm ss files), norm, g, data, off, files)
      \<in> measure (\<lambda>(norm, g, data, off, files). length data - off)"
    if "\<not> length data \<le> off" "read_strings (entry_strings g) data (off + entry_lead g) = Some x" "(ss, e) = x"
      "\<not> length data < e + entry_tail g" for norm :: "string \<Rightarrow> string" and g data off x ss e and files :: "(string \<times> string) list"
  proof -
    have "off < e + entry_tail g"
      using that read_strings_end[of "entry_strings g" data "off + entry_lead g" ss e] by (cases g) auto
    then show ?thesis using that by simp
  qed
qed simp

declare gamelist_loop.simps [simp del]

definition parse_gamelist_cache :: "(string \<Rightarrow> string) \<Rightarrow> gamelist \<Rightarrow> string \<Rightarrow> (string \<times> string) list" where
  "parse_gamelist_cache norm g data = (if known_cache_version g data then gamelist_loop norm g data 8 [] else [])"

definition parse_pcsx2_gamelist_cache :: "(string \<Rightarrow> string) \<Rightarrow> string \<Rightarrow> (string \<times> string) list" where
  "parse_pcsx2_gamelist_cache norm = parse_gamelist_cache norm PCSX2"

definition parse_duckstation_gamelist_cache :: "(string \<Rightarrow> string) \<Rightarrow> string \<Rightarrow> (string \<times> string) list" where
  "parse_duckstation_gamelist_cache norm = parse_gamelist_cache norm DuckStation"

section \<open>The times of playing\<close>

text \<open>str.split without a separator.\<close>

function split_space :: "string \<Rightarrow> string list" where
  "split_space s =
     (let t = lstrip s in
      if t = [] then [] else takeWhile (\<lambda>c. \<not> is_space c) t # split_space (dropWhile (\<lambda>c. \<not> is_space c) t))"
  by pat_completeness auto
termination
proof (relation "measure length")
  show "(dropWhile (\<lambda>c. \<not> is_space c) t, s) \<in> measure length" if "t = lstrip s" "t \<noteq> []" for t s
  proof -
    have "length t \<le> length s"
      unfolding that(1) lstrip_def by (rule length_dropWhile_le)
    moreover have "\<not> is_space (hd t)"
      using that lstrip_hd by blast
    then have "length (dropWhile (\<lambda>c. \<not> is_space c) t) < length t"
      using that(2) by (cases t) (auto intro: le_imp_less_Suc length_dropWhile_le)
    ultimately show ?thesis by simp
  qed
qed simp

declare split_space.simps [simp del]

definition played_line :: "string \<Rightarrow> (nat \<times> string) option" where
  "played_line line = (case split_space line of
       [serial, secs, last_played] \<Rightarrow>
         (if isdigit last_played \<and> nat_of_digits last_played \<noteq> 0 then Some (nat_of_digits last_played, serial) else None)
     | _ \<Rightarrow> None)"

definition parse_pcsx2_playtime :: "string \<Rightarrow> string list" where
  "parse_pcsx2_playtime content = map snd (rev (sort (List.map_filter played_line (splitlines content))))"

definition played_paths :: "(string \<Rightarrow> bool) \<Rightarrow> (string \<times> string) list \<Rightarrow> string list \<Rightarrow> string list" where
  "played_paths present files serials = filter present (List.map_filter (map_of files) serials)"

end
