(* ===== verification/History_Paths.thy ===== *)
theory History_Paths
  imports Bulk_Cache File_Walk Gamelist_Cache
begin

text \<open>
  The games played lately (smart_cache.py, lines 319-936): the histories of muOS and RetroArch, the recent
  list of PPSSPP, the saves of Dolphin matched with the discs and WAD files it knows, and the play times of
  PCSX2 and DuckStation.  A path is the text of its Path object.  What the disk holds, the home directory,
  the configuration files that were found and the time are one parameter; times are milliseconds.
\<close>

unbundle bit_operations_syntax

record history_env =
  hi_read :: "string \<Rightarrow> string option"
  hi_exists :: "string \<Rightarrow> bool"
  hi_is_file :: "string \<Rightarrow> bool"
  hi_is_dir :: "string \<Rightarrow> bool"
  hi_entries :: disk
  hi_below :: "string \<Rightarrow> string list"
  hi_mtime :: "string \<Rightarrow> int option"
  hi_norm :: "string \<Rightarrow> string"
  hi_expand :: "string \<Rightarrow> string"
  hi_now :: int
  hi_retroarch_cfg :: string
  hi_ppsspp_ini :: "string option"
  hi_dolphin_dir :: "string option"
  hi_pcsx2_ini :: "string option"
  hi_duckstation_ini :: "string option"

definition MUOS_HISTORY_DIR :: string where "MUOS_HISTORY_DIR = ''/run/muos/storage/info/history''"
definition DOLPHIN_RECENT_WINDOW_MS :: int where "DOLPHIN_RECENT_WINDOW_MS = 60 * 24 * 60 * 60 * 1000"

section \<open>Text\<close>

definition path_parent :: "string \<Rightarrow> string" where
  "path_parent p = (let r = dropWhile (\<lambda>c. c \<noteq> CHR ''/'') (rev p) in
     if r = [] then ''.'' else if tl r = [] then ''/'' else rev (tl r))"

definition upper_char :: "char \<Rightarrow> char" where
  "upper_char c = (if is_lower c then char_of (code c - 32) else c)"

definition upper :: "string \<Rightarrow> string" where
  "upper s = map upper_char s"

definition strip_quotes :: "string \<Rightarrow> string" where
  "strip_quotes s = rev (dropWhile (\<lambda>c. c = dquote) (rev (dropWhile (\<lambda>c. c = dquote) s)))"

text \<open>read_text with errors="replace"; None where it raises.\<close>

definition text_of :: "history_env \<Rightarrow> string \<Rightarrow> string option" where
  "text_of env p = map_option (\<lambda>b. universal_newlines (decode_replace b)) (hi_read env p)"

text \<open>The paths not seen yet that are files, in order.\<close>

definition add_file :: "history_env \<Rightarrow> string \<Rightarrow> string list \<Rightarrow> string list" where
  "add_file env p ps = (if p \<in> set ps \<or> \<not> hi_exists env p \<or> \<not> hi_is_file env p then ps else ps @ [p])"

section \<open>muOS and RetroArch\<close>

definition load_muos_history_paths :: "history_env \<Rightarrow> string list" where
  "load_muos_history_paths env = (case hi_entries env MUOS_HISTORY_DIR of
       None \<Rightarrow> []
     | Some es \<Rightarrow> fold (\<lambda>e ps.
         if \<not> ends_with ''.cfg'' (dn_name e) then ps
         else case text_of env (join_path MUOS_HISTORY_DIR (dn_name e)) of
           None \<Rightarrow> ps
         | Some t \<Rightarrow> (case splitlines t of [] \<Rightarrow> ps | l # _ \<Rightarrow> add_file env (hi_norm env (strip l)) ps))
         (sort_key dn_name es) [])"

definition read_retroarch_cfg_values :: "history_env \<Rightarrow> string \<Rightarrow> (string \<times> string) list res" where
  "read_retroarch_cfg_values env p =
     (if \<not> hi_exists env p then Inr []
      else bind_res (of_option FileError (text_of env p)) (\<lambda>t.
        Inr (fold (\<lambda>raw vs.
          let line = strip raw in
          if line = [] \<or> starts_with ''#'' line \<or> CHR ''='' \<notin> set line then vs
          else AList.update (strip (before CHR ''='' line)) (strip_quotes (strip (after CHR ''='' line))) vs) (splitlines t) [])))"

definition cfg_setting :: "string \<Rightarrow> (string \<times> string) list \<Rightarrow> string option" where
  "cfg_setting k vs = (let v = strip_quotes (strip (case map_of vs k of None \<Rightarrow> [] | Some x \<Rightarrow> x))
     in if v \<noteq> [] \<and> v \<noteq> ''default'' then Some v else None)"

definition history_candidates :: "history_env \<Rightarrow> (string \<times> string) list \<Rightarrow> string list" where
  "history_candidates env vs =
     (let up = path_parent (hi_retroarch_cfg env); lpl = (\<lambda>d. join_path d ''content_history.lpl'') in
      (case cfg_setting ''content_history_path'' vs of None \<Rightarrow> [] | Some p \<Rightarrow> [hi_expand env p]) @
      (case cfg_setting ''playlist_directory'' vs of
         None \<Rightarrow> []
       | Some d \<Rightarrow> [lpl (hi_expand env d), lpl (join_path (hi_expand env d) ''builtin'')]) @
      [lpl up, lpl (join_path up ''playlists''), lpl (join_path up ''playlists/builtin''),
       lpl (join_path (path_parent up) ''playlists''),
       lpl (join_path (path_parent (path_parent up)) ''Saves/CurrentProfile/lists'')])"

definition find_content_history_lpl :: "history_env \<Rightarrow> string option res" where
  "find_content_history_lpl env = bind_res (read_retroarch_cfg_values env (hi_retroarch_cfg env)) (\<lambda>vs.
     Inr (find (hi_exists env) (history_candidates env vs)))"

definition add_item :: "history_env \<Rightarrow> json \<Rightarrow> string list \<Rightarrow> string list" where
  "add_item env item ps = (case item of
       JObj _ \<Rightarrow> (case field ''path'' JNull item of
           JStr raw \<Rightarrow> if strip raw = [] then ps else add_file env (hi_expand env raw) ps
         | _ \<Rightarrow> ps)
     | _ \<Rightarrow> ps)"

text \<open>The call of get is outside the try block: JSON that is not an object raises.\<close>

definition load_retroarch_history_paths :: "history_env \<Rightarrow> string list res" where
  "load_retroarch_history_paths env = bind_res (find_content_history_lpl env) (\<lambda>found.
     case Option.bind found (text_of env) of
       None \<Rightarrow> Inr []
     | Some t \<Rightarrow>
        (case loads t of
           Inl _ \<Rightarrow> Inr []
         | Inr payload \<Rightarrow> bind_res (jget ''items'' JNull payload) (\<lambda>items. case items of
               JList vs \<Rightarrow> Inr (fold (add_item env) vs [])
             | _ \<Rightarrow> Inr [])))"

section \<open>PPSSPP\<close>

record recent_scan =
  rs_inside :: bool
  rs_found :: "(nat \<times> string) list"

definition recent_line :: "history_env \<Rightarrow> string \<Rightarrow> recent_scan \<Rightarrow> recent_scan" where
  "recent_line env line s =
     (let t = strip line in
      if starts_with ''['' t \<and> ends_with '']'' t then s\<lparr>rs_inside := (t = ''[Recent]'')\<rparr>
      else if \<not> rs_inside s \<or> CHR ''='' \<notin> set t then s
      else
        let key = strip (before CHR ''='' t); index = drop (length ''FileName'') key; raw = strip (after CHR ''='' t) in
        if \<not> starts_with ''FileName'' key \<or> \<not> isdigit index \<or> raw = [] then s
        else
          let p = hi_expand env raw in
          if p \<in> snd ` set (rs_found s) \<or> \<not> hi_exists env p \<or> \<not> hi_is_file env p then s
          else s\<lparr>rs_found := rs_found s @ [(nat_of_digits index, p)]\<rparr>)"

definition parse_ppsspp_recent_paths :: "history_env \<Rightarrow> string \<Rightarrow> string list" where
  "parse_ppsspp_recent_paths env content =
     map snd (sort_key fst (rs_found (fold (recent_line env) (splitlines content) \<lparr>rs_inside = False, rs_found = []\<rparr>)))"

definition load_ppsspp_recent_paths :: "history_env \<Rightarrow> string list" where
  "load_ppsspp_recent_paths env = (case hi_ppsspp_ini env of
       None \<Rightarrow> []
     | Some p \<Rightarrow> (if \<not> hi_exists env p then []
         else case text_of env p of None \<Rightarrow> [] | Some t \<Rightarrow> parse_ppsspp_recent_paths env t))"

section \<open>PCSX2 and DuckStation\<close>

definition played_games :: "history_env \<Rightarrow> (string \<Rightarrow> (string \<times> string) list) \<Rightarrow> string \<Rightarrow> string \<Rightarrow> string list" where
  "played_games env parse playtime cache = (case (text_of env playtime, hi_read env cache) of
       (Some t, Some data) \<Rightarrow> played_paths (hi_exists env) (parse data) (parse_pcsx2_playtime t)
     | _ \<Rightarrow> [])"

definition load_pcsx2_recent_paths :: "history_env \<Rightarrow> string list" where
  "load_pcsx2_recent_paths env = (case hi_pcsx2_ini env of
       None \<Rightarrow> []
     | Some ini \<Rightarrow>
        (let inis = path_parent ini
         in played_games env (parse_pcsx2_gamelist_cache (hi_norm env)) (join_path inis ''playtime.dat'')
              (join_path (path_parent inis) ''cache/gamelist.cache'')))"

definition load_duckstation_recent_paths :: "history_env \<Rightarrow> string list" where
  "load_duckstation_recent_paths env = (case hi_duckstation_ini env of
       None \<Rightarrow> []
     | Some ini \<Rightarrow>
        (let d = path_parent ini
         in played_games env (parse_duckstation_gamelist_cache (hi_norm env)) (join_path d ''playtime.dat'')
              (join_path d ''cache/gamelist.cache'')))"

section \<open>Dolphin\<close>

definition read_dolphin_ini_section :: "string \<Rightarrow> string \<Rightarrow> (string \<times> string) list" where
  "read_dolphin_ini_section content sec = snd (fold (\<lambda>line (inside, vs).
     let t = strip line in
     if starts_with ''['' t \<and> ends_with '']'' t then (t = sec, vs)
     else if \<not> inside \<or> CHR ''='' \<notin> set t then (inside, vs)
     else (inside, AList.update (strip (before CHR ''='' t)) (strip (after CHR ''='' t)) vs)) (splitlines content) (False, []))"

definition ini_text :: "(string \<times> string) list \<Rightarrow> string \<Rightarrow> string" where
  "ini_text vs k = strip (case map_of vs k of None \<Rightarrow> [] | Some v \<Rightarrow> v)"

definition dolphin_iso_search_dirs :: "history_env \<Rightarrow> (string \<times> string) list \<Rightarrow> string list" where
  "dolphin_iso_search_dirs env vs =
     (let n = (case py_int (case map_of vs ''ISOPaths'' of None \<Rightarrow> ''0'' | Some v \<Rightarrow> v) of None \<Rightarrow> 0 | Some i \<Rightarrow> i);
          raws = map (\<lambda>i. ini_text vs (''ISOPath'' @ str_of_nat i)) [0..<nat n]
      in filter (hi_is_dir env) (map (hi_expand env) (filter (\<lambda>r. r \<noteq> []) raws)))"

text \<open>Game codes with the newest time of each.\<close>

definition newer_code :: "string \<times> int \<Rightarrow> (string \<times> int) list \<Rightarrow> (string \<times> int) list" where
  "newer_code ct codes = (case map_of codes (fst ct) of
       Some m \<Rightarrow> if snd ct > m then AList.update (fst ct) (snd ct) codes else codes
     | None \<Rightarrow> AList.update (fst ct) (snd ct) codes)"

definition merge_recent_codes :: "(string \<times> int) list \<Rightarrow> (string \<times> int) list \<Rightarrow> (string \<times> int) list" where
  "merge_recent_codes source target = fold newer_code source target"

definition gci_code :: "string \<Rightarrow> string option" where
  "gci_code name =
     (if 8 \<le> length name \<and> list_all is_digit (take 2 name) \<and> name ! 2 = CHR ''-'' \<and> list_all is_alnum (take 4 (drop 3 name))
        \<and> name ! 7 = CHR ''-'' \<and> ends_with ''.gci'' (lower (drop 8 name)) \<and> newline \<notin> set (drop 8 name)
      then Some (upper (take 4 (drop 3 name))) else None)"

definition with_mtime :: "history_env \<Rightarrow> (string \<times> string) list \<Rightarrow> (string \<times> int) list" where
  "with_mtime env cps = List.map_filter (\<lambda>(c, p). map_option (\<lambda>m. (c, m)) (hi_mtime env p)) cps"

definition scan_dolphin_gci_codes :: "history_env \<Rightarrow> string \<Rightarrow> (string \<times> int) list" where
  "scan_dolphin_gci_codes env root =
     (if \<not> hi_is_dir env root then []
      else
        let saves = filter (\<lambda>p. ends_with ''.gci'' (path_name p) \<and> hi_is_file env p) (hi_below env root)
        in merge_recent_codes (with_mtime env (List.map_filter (\<lambda>p. map_option (\<lambda>c. (c, p)) (gci_code (path_name p))) saves)) [])"

fun from_hex :: "string \<Rightarrow> string option" where
  "from_hex [] = Some []"
| "from_hex [c] = None"
| "from_hex (c # d # s) = (case (hex_val c, hex_val d, from_hex s) of
       (Some h, Some l, Some bs) \<Rightarrow> Some (char_of (16 * h + l) # bs)
     | _ \<Rightarrow> None)"

definition title_code :: "string \<Rightarrow> string option" where
  "title_code raw = (if length raw = 4 \<and> list_all (\<lambda>c. 32 \<le> code c \<and> code c \<le> 126) raw then Some (upper raw) else None)"

definition decode_wii_title_id_to_game_code :: "string \<Rightarrow> string option" where
  "decode_wii_title_id_to_game_code s = Option.bind (from_hex s) title_code"

definition wii_title_id :: "string \<Rightarrow> bool" where
  "wii_title_id s = (length s = 8 \<and> list_all (\<lambda>c. hex_val c \<noteq> None) s)"

definition scan_dolphin_wii_title_codes :: "history_env \<Rightarrow> string \<Rightarrow> (string \<times> int) list" where
  "scan_dolphin_wii_title_codes env root =
     (if \<not> hi_is_dir env root then []
      else case hi_entries env root of
        None \<Rightarrow> []
      | Some es \<Rightarrow>
         (let titles = filter (\<lambda>n. wii_title_id n) (map dn_name (filter dn_is_dir es))
          in merge_recent_codes (with_mtime env
               (List.map_filter (\<lambda>n. map_option (\<lambda>c. (c, join_path root n)) (decode_wii_title_id_to_game_code n)) titles)) []))"

definition WIA_RVZ_DISC_HEADER_OFFSET :: nat where "WIA_RVZ_DISC_HEADER_OFFSET = 0x48 + 16"
definition WIA_RVZ_MAGICS :: "string list" where "WIA_RVZ_MAGICS = [''WIA'' @ [CHR 0x01], ''RVZ'' @ [CHR 0x01]]"
definition DISC_ROM_SUFFIXES :: "string list" where "DISC_ROM_SUFFIXES = [''.rvz'', ''.wia'', ''.iso'', ''.gcm'']"

text \<open>isalnum and isupper on ASCII text.\<close>

definition disc_code :: "string \<Rightarrow> string option" where
  "disc_code data =
     (let bytes = take 6 (if take 4 data \<in> set WIA_RVZ_MAGICS then drop WIA_RVZ_DISC_HEADER_OFFSET data else data) in
      if length bytes = 6 \<and> list_all is_alnum bytes \<and> list_all (\<lambda>c. \<not> is_lower c) bytes \<and> list_ex is_upper bytes
      then Some (take 4 bytes) else None)"

definition read_dolphin_disc_code :: "history_env \<Rightarrow> string \<Rightarrow> string option" where
  "read_dolphin_disc_code env p = Option.bind (hi_read env p) disc_code"

definition align_up_64 :: "int \<Rightarrow> int" where
  "align_up_64 v = (v + 63) AND NOT 63"

definition bytes_at :: "string \<Rightarrow> nat \<Rightarrow> nat \<Rightarrow> string" where
  "bytes_at data off n = take n (drop off data)"

definition WAD_RSA2048_SIG_TYPE :: nat where "WAD_RSA2048_SIG_TYPE = 0x10001"
definition WAD_TMD_TITLE_ID_OFFSET :: nat where "WAD_TMD_TITLE_ID_OFFSET = 0x18C"

definition tmd_start :: "string \<Rightarrow> nat" where
  "tmd_start data =
     (let cert = align_up_64 0x20;
          crl = align_up_64 (cert + int (be_nat (bytes_at data 0x08 4)));
          ticket = align_up_64 (crl + int (be_nat (bytes_at data 0x0C 4)))
      in nat (align_up_64 (ticket + int (be_nat (bytes_at data 0x10 4)))))"

text \<open>The second half of the title id; written as hexadecimal digits and read again it is itself.\<close>

definition wad_game_code :: "string \<Rightarrow> string option" where
  "wad_game_code data =
     (if length data < 0x20 then None
      else if be_nat (bytes_at data (tmd_start data) 4) \<noteq> WAD_RSA2048_SIG_TYPE then None
      else
        let title = bytes_at data (tmd_start data + WAD_TMD_TITLE_ID_OFFSET) 8 in
        if length title \<noteq> 8 then None else title_code (drop 4 title))"

definition read_wad_game_code :: "history_env \<Rightarrow> string \<Rightarrow> string option" where
  "read_wad_game_code env p = Option.bind (hi_read env p) wad_game_code"

text \<open>The first file of each code.\<close>

definition scan_library :: "(string \<Rightarrow> string option) \<Rightarrow> string list \<Rightarrow> (string \<times> string) list" where
  "scan_library read paths = fold (\<lambda>p lib. case read p of None \<Rightarrow> lib | Some c \<Rightarrow> set_first c p lib) paths []"

definition scan_dolphin_disc_library :: "history_env \<Rightarrow> string list \<Rightarrow> (string \<times> string) list" where
  "scan_dolphin_disc_library env dirs = scan_library (read_dolphin_disc_code env)
     (filter (\<lambda>p. hi_is_file env p \<and> lower (path_suffix p) \<in> set DISC_ROM_SUFFIXES) (concat (map (hi_below env) dirs)))"

definition scan_dolphin_wad_library :: "history_env \<Rightarrow> string list \<Rightarrow> (string \<times> string) list" where
  "scan_dolphin_wad_library env dirs = scan_library (read_wad_game_code env)
     (filter (\<lambda>p. ends_with ''.wad'' (path_name p) \<and> hi_is_file env p) (concat (map (hi_below env) dirs)))"

definition dolphin_library :: "history_env \<Rightarrow> (string \<times> string) list \<Rightarrow> (string \<times> string) list" where
  "dolphin_library env general =
     (let dirs = dolphin_iso_search_dirs env general
      in fold (\<lambda>(c, p). set_first c p) (scan_dolphin_wad_library env dirs) (scan_dolphin_disc_library env dirs))"

definition dolphin_codes :: "history_env \<Rightarrow> string \<Rightarrow> (string \<times> string) list \<Rightarrow> (string \<times> int) list" where
  "dolphin_codes env dir core =
     (let title = (\<lambda>high. join_path dir (''Wii/title/'' @ high));
          gci = (\<lambda>k codes. let d = ini_text core k in
             if d = [] then codes else merge_recent_codes (scan_dolphin_gci_codes env (hi_norm env d)) codes)
      in merge_recent_codes (scan_dolphin_wii_title_codes env (title ''00010001''))
           (merge_recent_codes (scan_dolphin_wii_title_codes env (title ''00010000''))
             (gci ''GCIFolderBPath'' (gci ''GCIFolderAPath'' []))))"

definition matched_files :: "(string \<times> string) list \<Rightarrow> (string \<times> int) list \<Rightarrow> string list" where
  "matched_files lib codes = fold (\<lambda>p ps. if p \<in> set ps then ps else ps @ [p])
     (List.map_filter (\<lambda>(c, _). map_of lib c) (sort_key (\<lambda>(_, m). - m) codes)) []"

text \<open>The early returns for no code, no directory and no library give what the rest gives: nothing.\<close>

definition load_dolphin_recent_paths :: "history_env \<Rightarrow> string list" where
  "load_dolphin_recent_paths env = (case hi_dolphin_dir env of
       None \<Rightarrow> []
     | Some dir \<Rightarrow>
        (let ini = join_path dir ''Dolphin.ini'' in
         if \<not> hi_exists env ini then []
         else case text_of env ini of
           None \<Rightarrow> []
         | Some t \<Rightarrow> matched_files (dolphin_library env (read_dolphin_ini_section t ''[General]''))
             (filter (\<lambda>(_, m). m \<ge> hi_now env - DOLPHIN_RECENT_WINDOW_MS)
               (dolphin_codes env dir (read_dolphin_ini_section t ''[Core]'')))))"

section \<open>All of them\<close>

definition load_content_history_paths :: "history_env \<Rightarrow> string list res" where
  "load_content_history_paths env =
     bind_res (if hi_exists env MUOS_HISTORY_DIR then Inr (load_muos_history_paths env)
               else load_retroarch_history_paths env) (\<lambda>paths.
       Inr (fold (\<lambda>p ps. if p \<in> set ps then ps else ps @ [p])
         (load_ppsspp_recent_paths env @ load_dolphin_recent_paths env @ load_pcsx2_recent_paths env
            @ load_duckstation_recent_paths env) paths))"

definition find_history_source :: "history_env \<Rightarrow> string option res" where
  "find_history_source env =
     (if hi_exists env MUOS_HISTORY_DIR then Inr (Some MUOS_HISTORY_DIR)
      else bind_res (find_content_history_lpl env) (\<lambda>found. Inr (case found of
        Some p \<Rightarrow> Some p
      | None \<Rightarrow> find (hi_exists env)
          (List.map_filter id [hi_ppsspp_ini env, map_option (\<lambda>d. join_path d ''Dolphin.ini'') (hi_dolphin_dir env)]))))"

section \<open>Messages\<close>

definition format_eta :: "int \<Rightarrow> string" where
  "format_eta minutes = (if minutes < 60 then str_of_int minutes @ '' minutes''
     else str_of_int (minutes div 60) @ '' h '' @ str_of_int (minutes mod 60) @ '' min'')"

definition cache_completion_message :: "bulk_result \<Rightarrow> bool \<Rightarrow> bool \<Rightarrow> string" where
  "cache_completion_message r aborted running =
     (let summary = (if aborted then ''Aborted: cached'' else ''Cached'') @ '' '' @ str_of_int (br_cached r) @ '', queued ''
            @ str_of_int (br_queued r) @ '', skipped '' @ str_of_int (br_skipped r) in
      if br_queued r \<le> 0 then summary
      else if \<not> running then summary @ newline # ''Caching starts when the proxy is running.''
      else summary @ newline # ''Queued games are cached in the background, up to '' @ str_of_int CACHE_BUDGET_LIMIT
             @ '' every 30 minutes.'')"

end
