(* ===== verification/Gamelist_Laws.thy ===== *)
theory Gamelist_Laws
  imports Gamelist_Cache
begin

text \<open>
  A list of games as the emulators write it reads back, and one that is cut off gives the games before the
  cut.
\<close>

lemma be_nat_Nil [simp]: "be_nat [] = 0"
  by (simp add: be_nat_def)

lemma be_nat_snoc [simp]: "be_nat (bs @ [c]) = 256 * be_nat bs + code c"
  by (simp add: be_nat_def)

text \<open>A length as the emulators write it: four bytes, the low one first.\<close>

definition le32_bytes :: "nat \<Rightarrow> string" where
  "le32_bytes n = map char_of [n mod 256, n div 256 mod 256, n div 65536 mod 256, n div 16777216 mod 256]"

lemma length_le32_bytes [simp]: "length (le32_bytes n) = 4"
  by (simp add: le32_bytes_def)

lemma le_nat_bytes [simp]:
  assumes "n < 2 ^ 32"
  shows "le_nat (le32_bytes n) = n"
proof -
  define a b c where "a = n div 256" and "b = a div 256" and "c = b div 256"
  have parts: "n div 65536 = b" "n div 16777216 = c"
    using div_mult2_eq[of n 256 256] div_mult2_eq[of n 256 65536] div_mult2_eq[of a 256 256]
    by (simp_all add: a_def b_def c_def)
  moreover have "n div 16777216 < 256"
    using assms by (simp add: less_mult_imp_div_less)
  ultimately have "c mod 256 = c" by simp
  moreover have "256 * c + b mod 256 = b" "256 * b + a mod 256 = a" "256 * a + n mod 256 = n"
    by (simp_all add: a_def b_def c_def)
  ultimately show ?thesis
    by (simp add: le_nat_def be_nat_def le32_bytes_def parts a_def[symmetric])
qed

definition be32_bytes :: "nat \<Rightarrow> string" where
  "be32_bytes n = rev (le32_bytes n)"

lemma be32_bytes [simp]: "length (be32_bytes n) = 4" "n < 2 ^ 32 \<Longrightarrow> be_nat (be32_bytes n) = n"
  using le_nat_bytes[of n] by (simp_all add: be32_bytes_def le_nat_def)

lemma le32_at_bytes: "n < 2 ^ 32 \<Longrightarrow> le32_at (pre @ le32_bytes n @ post) (length pre) = Some n"
  by (simp add: le32_at_def)

definition string_bytes :: "string \<Rightarrow> string" where
  "string_bytes s = le32_bytes (length s) @ s"

lemma read_strings_written:
  assumes "list_all (\<lambda>s. length s < 2 ^ 32) ss"
  shows "read_strings (length ss) (pre @ concat (map string_bytes ss) @ post) (length pre) =
    Some (map decode_replace ss, length pre + length (concat (map string_bytes ss)))"
  using assms
proof (induction ss arbitrary: pre)
  case (Cons s ss)
  let ?data = "pre @ concat (map string_bytes (s # ss)) @ post" and ?pre = "pre @ string_bytes s"
  have "le32_at ?data (length pre) = Some (length s)"
    using Cons.prems le32_at_bytes[of "length s" pre "s @ concat (map string_bytes ss) @ post"]
    by (simp add: string_bytes_def[of s])
  moreover have "take (length s) (drop (length pre + 4) ?data) = s"
    by (simp add: string_bytes_def[of s])
  moreover have "read_strings (length ss) ?data (length pre + 4 + length s) =
      Some (map decode_replace ss, length ?pre + length (concat (map string_bytes ss)))"
    using Cons.IH[of ?pre] Cons.prems by (simp add: string_bytes_def[of s] add.assoc)
  ultimately show ?case
    by (simp add: string_bytes_def[of s])
qed simp

lemma read_strings_longer:
  "read_strings k data off = Some r \<Longrightarrow> read_strings k (data @ more) off = Some r"
proof (induction k arbitrary: off r)
  case (Suc k)
  then obtain n ss e where n: "le32_at data off = Some n" and fits: "off + 4 + n \<le> length data"
    and rec: "read_strings k data (off + 4 + n) = Some (ss, e)" and r: "r = (decode_replace (take n (drop (off + 4) data)) # ss, e)"
    by (auto split: option.splits if_splits)
  have "le32_at (data @ more) off = Some n"
    using n by (auto simp: le32_at_def split: if_splits)
  moreover have "take n (drop (off + 4) (data @ more)) = take n (drop (off + 4) data)"
    using fits by simp
  ultimately show ?case
    using Suc.IH[OF rec] fits r by simp
qed simp

text \<open>An entry: the bytes before its strings, its strings, the bytes after them.\<close>

type_synonym written_entry = "string \<times> string list \<times> string"

definition entry_bytes :: "written_entry \<Rightarrow> string" where
  "entry_bytes e = (case e of (lead, ss, tail) \<Rightarrow> lead @ concat (map string_bytes ss) @ tail)"

definition wf_entry :: "gamelist \<Rightarrow> written_entry \<Rightarrow> bool" where
  "wf_entry g e = (case e of (lead, ss, tail) \<Rightarrow> length lead = entry_lead g \<and> length ss = entry_strings g
     \<and> length tail = entry_tail g \<and> list_all (\<lambda>s. length s < 2 ^ 32) ss)"

definition header_bytes :: "gamelist \<Rightarrow> string" where
  "header_bytes g = le32_bytes (gamelist_signature g) @ le32_bytes (gamelist_version g)"

definition entry_files :: "(string \<Rightarrow> string) \<Rightarrow> written_entry list \<Rightarrow> (string \<times> string) list \<Rightarrow> (string \<times> string) list" where
  "entry_files norm es files = fold (\<lambda>(_, ss, _). add_entry norm (map decode_replace ss)) es files"

lemma entry_read:
  assumes "wf_entry g (lead, ss, tail)"
  shows "read_strings (entry_strings g) (pre @ entry_bytes (lead, ss, tail) @ post) (length pre + entry_lead g) =
    Some (map decode_replace ss, length pre + length (entry_bytes (lead, ss, tail)) - entry_tail g)"
  using assms read_strings_written[of ss "pre @ lead" "tail @ post"]
  by (simp add: wf_entry_def entry_bytes_def)

lemma entry_longer: "wf_entry g e \<Longrightarrow> entry_tail g \<le> length (entry_bytes e) \<and> 0 < entry_tail g"
  by (cases g) (auto simp: wf_entry_def entry_bytes_def split: prod.splits)

lemma loop_entry:
  assumes "wf_entry g (lead, ss, tail)"
  shows "gamelist_loop norm g (pre @ entry_bytes (lead, ss, tail) @ post) (length pre) files =
    gamelist_loop norm g (pre @ entry_bytes (lead, ss, tail) @ post) (length (pre @ entry_bytes (lead, ss, tail)))
      (add_entry norm (map decode_replace ss) files)"
proof -
  have "0 < length (entry_bytes (lead, ss, tail))"
    using entry_longer[OF assms] by linarith
  then show ?thesis
    using entry_read[OF assms, of pre post] entry_longer[OF assms]
    by (subst gamelist_loop.simps) simp
qed

lemma loop_cut:
  assumes e: "wf_entry g e" and m: "m < length (entry_bytes e)"
  shows "gamelist_loop norm g (pre @ take m (entry_bytes e)) (length pre) files = files"
proof (cases "read_strings (entry_strings g) (pre @ take m (entry_bytes e)) (length pre + entry_lead g)")
  case (Some r)
  obtain lead ss tail where eq: "e = (lead, ss, tail)" by (cases e) auto
  have "read_strings (entry_strings g) ((pre @ take m (entry_bytes e)) @ drop m (entry_bytes e)) (length pre + entry_lead g) = Some r"
    by (rule read_strings_longer[OF Some])
  then have "snd r + entry_tail g = length pre + length (entry_bytes e)"
    using entry_read[OF e[unfolded eq], of pre "[]"] entry_longer[OF e] eq by auto
  then show ?thesis
    using Some m by (subst gamelist_loop.simps) (auto split: prod.split)
qed (subst gamelist_loop.simps, simp)

lemma loop_entries:
  assumes "list_all (wf_entry g) es" and "wf_entry g e" and "m < length (entry_bytes e)"
  shows "gamelist_loop norm g (pre @ concat (map entry_bytes es) @ take m (entry_bytes e)) (length pre) files =
    entry_files norm es files"
  using assms(1)
proof (induction es arbitrary: pre files)
  case Nil
  then show ?case
    using loop_cut[OF assms(2,3)] by (simp add: entry_files_def)
next
  case (Cons x es)
  obtain lead ss tail where x: "x = (lead, ss, tail)" by (cases x) auto
  then have "wf_entry g (lead, ss, tail)" using Cons.prems by simp
  from loop_entry[OF this, of norm pre "concat (map entry_bytes es) @ take m (entry_bytes e)" files]
  show ?case
    using Cons.IH[of "pre @ entry_bytes x" "add_entry norm (map decode_replace ss) files"] Cons.prems
    by (simp add: x entry_files_def)
qed

lemma known_header: "known_cache_version g (header_bytes g @ post)"
  using le32_at_bytes[of "gamelist_version g" "le32_bytes (gamelist_signature g)" post]
    le32_at_bytes[of "gamelist_signature g" "[]" "le32_bytes (gamelist_version g) @ post"]
  by (cases g) (simp_all add: known_cache_version_def header_bytes_def)

lemma parse_entries:
  assumes "list_all (wf_entry g) es" and "wf_entry g e" and "m < length (entry_bytes e)"
  shows "parse_gamelist_cache norm g (header_bytes g @ concat (map entry_bytes es) @ take m (entry_bytes e)) =
    entry_files norm es []"
proof -
  have "length (header_bytes g) = 8" by (simp add: header_bytes_def)
  then show ?thesis
    using loop_entries[OF assms, of norm "header_bytes g" "[]"] known_header[of g]
    by (simp add: parse_gamelist_cache_def)
qed

section \<open>Lists as the emulators write them\<close>

text \<open>The fields of an entry in the order of the format, written from its description: numbers with the low
  byte first, a text with its length before it.\<close>

fun le_bytes :: "nat \<Rightarrow> nat \<Rightarrow> string" where
  "le_bytes 0 n = []"
| "le_bytes (Suc k) n = char_of (n mod 256) # le_bytes k (n div 256)"

definition text_field :: "string \<Rightarrow> string" where
  "text_field s = le_bytes 4 (length s) @ s"

record game_texts =
  gt_path :: string
  gt_serial :: string
  gt_title :: string

text \<open>PCSX2: two more titles, type, region, size, time, CRC, compatibility.  DuckStation: type, region, hash,
  size, uncompressed size, time, index in the disc set, hash of the achievements.\<close>

datatype written_game =
    PCSX2Game game_texts string string nat nat nat nat nat nat
  | DuckStationGame nat nat game_texts nat int nat nat int string

fun texts_of :: "written_game \<Rightarrow> game_texts" where
  "texts_of (PCSX2Game t _ _ _ _ _ _ _ _) = t"
| "texts_of (DuckStationGame _ _ t _ _ _ _ _ _) = t"

fun game_bytes :: "written_game \<Rightarrow> string" where
  "game_bytes (PCSX2Game t sort_title en_title type region bytes time crc compatibility) =
     text_field (gt_path t) @ text_field (gt_serial t) @ text_field (gt_title t) @ text_field sort_title @ text_field en_title @
     le_bytes 1 type @ le_bytes 1 region @ le_bytes 8 bytes @ le_bytes 8 time @ le_bytes 4 crc @ le_bytes 1 compatibility"
| "game_bytes (DuckStationGame type region t hash bytes uncompressed time disc achievements) =
     le_bytes 1 type @ le_bytes 1 region @
     text_field (gt_path t) @ text_field (gt_serial t) @ text_field (gt_title t) @
     le_bytes 8 hash @ le_bytes 8 (nat (bytes mod 2 ^ 64)) @ le_bytes 8 uncompressed @ le_bytes 8 time @
     le_bytes 1 (nat (disc mod 256)) @ achievements"

definition texts_fit :: "game_texts \<Rightarrow> bool" where
  "texts_fit t = (length (gt_path t) < 2 ^ 32 \<and> length (gt_serial t) < 2 ^ 32 \<and> length (gt_title t) < 2 ^ 32)"

fun game_ok :: "gamelist \<Rightarrow> written_game \<Rightarrow> bool" where
  "game_ok PCSX2 (PCSX2Game t sort_title en_title _ _ _ _ _ _) =
     (texts_fit t \<and> length sort_title < 2 ^ 32 \<and> length en_title < 2 ^ 32)"
| "game_ok DuckStation (DuckStationGame _ _ t _ _ _ _ _ achievements) = (texts_fit t \<and> length achievements = 16)"
| "game_ok _ _ = False"

fun gamelist_start :: "gamelist \<Rightarrow> string" where
  "gamelist_start PCSX2 = ''GLCE'' @ le_bytes 4 34"
| "gamelist_start DuckStation = ''HLCE'' @ le_bytes 4 41"

text \<open>The file of a serial: that of the first game that has it, when neither is empty.\<close>

definition file_of_serial :: "(string \<Rightarrow> string) \<Rightarrow> written_game list \<Rightarrow> string \<Rightarrow> string option" where
  "file_of_serial norm games serial = map_option (\<lambda>x. norm (decode_replace (gt_path (texts_of x))))
     (find (\<lambda>x. decode_replace (gt_serial (texts_of x)) = serial \<and> serial \<noteq> [] \<and> decode_replace (gt_path (texts_of x)) \<noteq> []) games)"

lemma length_le_bytes [simp]: "length (le_bytes k n) = k"
  by (induction k arbitrary: n) simp_all

lemma le_bytes_32: "le_bytes 4 n = le32_bytes n"
proof -
  have "(4::nat) = Suc (Suc (Suc (Suc 0)))" by simp
  then have "le_bytes 4 n = le_bytes (Suc (Suc (Suc (Suc 0)))) n" by (rule arg_cong)
  also have "\<dots> = le32_bytes n" by (simp add: le32_bytes_def div_mult2_eq [symmetric])
  finally show ?thesis .
qed

lemma text_field_bytes: "text_field s = string_bytes s"
  by (simp add: text_field_def string_bytes_def le_bytes_32)

lemma gamelist_start_bytes: "gamelist_start g = header_bytes g"
proof -
  have "''GLCE'' = le32_bytes 0x45434C47" "''HLCE'' = le32_bytes 0x45434C48"
    by (simp_all add: le32_bytes_def char_of_def bit_Suc_0_iff)
  then show ?thesis by (cases g) (simp_all only: gamelist_start.simps header_bytes_def le_bytes_32 gamelist_signature.simps gamelist_version.simps)
qed

fun entry_of :: "written_game \<Rightarrow> written_entry" where
  "entry_of (PCSX2Game t sort_title en_title type region bytes time crc compatibility) =
     ([], [gt_path t, gt_serial t, gt_title t, sort_title, en_title],
      le_bytes 1 type @ le_bytes 1 region @ le_bytes 8 bytes @ le_bytes 8 time @ le_bytes 4 crc @ le_bytes 1 compatibility)"
| "entry_of (DuckStationGame type region t hash bytes uncompressed time disc achievements) =
     (le_bytes 1 type @ le_bytes 1 region, [gt_path t, gt_serial t, gt_title t],
      le_bytes 8 hash @ le_bytes 8 (nat (bytes mod 2 ^ 64)) @ le_bytes 8 uncompressed @ le_bytes 8 time @
      le_bytes 1 (nat (disc mod 256)) @ achievements)"

lemma entry_of_bytes: "entry_bytes (entry_of x) = game_bytes x"
  by (cases x) (simp_all add: entry_bytes_def text_field_bytes)

lemma entry_of_wf: "game_ok g x \<Longrightarrow> wf_entry g (entry_of x)"
  by (cases "(g, x)" rule: game_ok.cases) (simp_all add: wf_entry_def texts_fit_def)

lemma entry_of_add:
  "entry_files norm (entry_of x # es) files = entry_files norm es
     (if decode_replace (gt_serial (texts_of x)) \<noteq> [] \<and> decode_replace (gt_path (texts_of x)) \<noteq> []
      then set_first (decode_replace (gt_serial (texts_of x))) (norm (decode_replace (gt_path (texts_of x)))) files else files)"
  by (cases x) (simp_all add: entry_files_def add_entry_def)

lemma set_first_lookup: "map_of (set_first k v d) s = (case map_of d s of None \<Rightarrow> if s = k then Some v else None | Some w \<Rightarrow> Some w)"
  by (auto simp: set_first_def map_add_def split: option.split)

lemma set_first_distinct: "distinct (map fst d) \<Longrightarrow> distinct (map fst (set_first k v d))"
  by (auto simp: set_first_def map_of_eq_None_iff)

lemma entry_files_lookup:
  "distinct (map fst files) \<Longrightarrow> distinct (map fst (entry_files norm (map entry_of xs) files)) \<and>
   map_of (entry_files norm (map entry_of xs) files) s =
     (case map_of files s of None \<Rightarrow> file_of_serial norm xs s | Some v \<Rightarrow> Some v)"
proof (induction xs arbitrary: files)
  case Nil
  then show ?case by (simp add: entry_files_def file_of_serial_def split: option.split)
next
  case (Cons x xs)
  show ?case
  proof (cases "decode_replace (gt_serial (texts_of x)) \<noteq> [] \<and> decode_replace (gt_path (texts_of x)) \<noteq> []")
    case True
    then show ?thesis using Cons.IH [OF set_first_distinct [OF Cons.prems]]
      by (auto simp: entry_of_add set_first_lookup file_of_serial_def split: option.split)
  next
    case False
    then show ?thesis using Cons.IH [OF Cons.prems] by (auto simp: entry_of_add file_of_serial_def split: option.split)
  qed
qed

text \<open>C35: 
  From a list that PCSX2 or DuckStation wrote in the known version, whole or cut off inside an entry, every
  game before the cut that has a serial and a file is read with them, the first of two with one serial, and
  nothing else is.
\<close>

theorem cut_gamelist_read:
  fixes norm :: "string \<Rightarrow> string"
  assumes "list_all (game_ok g) games" and "game_ok g torn" and "m < length (game_bytes torn)"
  defines "files \<equiv> parse_gamelist_cache norm g (gamelist_start g @ concat (map game_bytes games) @ take m (game_bytes torn))"
  shows "map_of files serial = file_of_serial norm games serial \<and> distinct (map fst files)"
proof -
  have bytes: "map game_bytes games = map entry_bytes (map entry_of games)" by (simp add: entry_of_bytes)
  have "list_all (wf_entry g) (map entry_of games)" using assms(1) by (auto simp: list_all_iff entry_of_wf)
  then have "files = entry_files norm (map entry_of games) []"
    unfolding files_def gamelist_start_bytes bytes entry_of_bytes [symmetric, of torn]
    by (rule parse_entries [OF _ entry_of_wf [OF assms(2)]]) (simp add: entry_of_bytes assms(3))
  then show ?thesis using entry_files_lookup [of "[]" norm games serial] by simp
qed

definition sample_game :: "string \<Rightarrow> string \<Rightarrow> written_game" where
  "sample_game path serial = PCSX2Game \<lparr>gt_path = path, gt_serial = serial, gt_title = ''T''\<rparr> ''T'' ''T'' 0 0 9 9 9 0"

theorem cut_gamelist_read_witness:
  "map (map_of (parse_gamelist_cache id PCSX2 (''GLCE'' @ le_bytes 4 34 @
      concat (map game_bytes [sample_game ''/a.iso'' ''SLUS-1'', sample_game ''/b.iso'' [], sample_game ''/c.iso'' ''SLUS-1''])
      @ take 9 (game_bytes (sample_game ''/d.iso'' ''SLES-2''))))) [''SLUS-1'', ''SLES-2''] = [Some ''/a.iso'', None]"
proof -
  let ?games = "[sample_game ''/a.iso'' ''SLUS-1'', sample_game ''/b.iso'' [], sample_game ''/c.iso'' ''SLUS-1'']"
  have "decode_replace ''/a.iso'' = ''/a.iso''" "decode_replace ''SLUS-1'' = ''SLUS-1''" "decode_replace [] = []"
    by (rule decode_ascii, simp add: is_ascii_def)+
  then have files: "file_of_serial id ?games ''SLUS-1'' = Some ''/a.iso''" "file_of_serial id ?games ''SLES-2'' = None"
    by (simp_all add: file_of_serial_def sample_game_def)
  have ok: "list_all (game_ok PCSX2) ?games" "game_ok PCSX2 (sample_game ''/d.iso'' ''SLES-2'')"
    "9 < length (game_bytes (sample_game ''/d.iso'' ''SLES-2''))"
    by (simp_all add: sample_game_def texts_fit_def text_field_def)
  show ?thesis using cut_gamelist_read [OF ok, of id "''SLUS-1''"] cut_gamelist_read [OF ok, of id "''SLES-2''"] files by simp
qed

end
