(* ===== verification/History_Laws.thy ===== *)
theory History_Laws
  imports History_Paths Gamelist_Laws
begin

text \<open>
  What the history of played games promises: every path once and on the disk, the games of Dolphin exactly
  those with a recent save and a known file, and the game code of a WAD file wherever its sections end.
\<close>

section \<open>Every path once\<close>

definition add_new :: "string \<Rightarrow> string list \<Rightarrow> string list" where
  "add_new p ps = (if p \<in> set ps then ps else ps @ [p])"

lemma fold_keeps:
  assumes "I s" and "\<And>x s. x \<in> set xs \<Longrightarrow> I s \<Longrightarrow> I (f x s)"
  shows "I (fold f xs s)"
  using assms by (induction xs arbitrary: s) auto

lemma fold_add_new:
  "distinct ps \<Longrightarrow> distinct (fold add_new qs ps) \<and> set (fold add_new qs ps) = set ps \<union> set qs"
  by (induction qs arbitrary: ps) (auto simp: add_new_def)

definition good_paths :: "history_env \<Rightarrow> string list \<Rightarrow> bool" where
  "good_paths env ps = (distinct ps \<and> (\<forall>p \<in> set ps. hi_exists env p \<or> hi_is_file env p))"

lemma good_add_file [intro]: "good_paths env ps \<Longrightarrow> good_paths env (add_file env p ps)"
  by (auto simp: good_paths_def add_file_def)

lemma good_Nil [simp]: "good_paths env []"
  by (simp add: good_paths_def)

lemma muos_good: "good_paths env (load_muos_history_paths env)"
  unfolding load_muos_history_paths_def
  by (auto split: option.split list.split intro!: fold_keeps[where I = "good_paths env"])

lemma add_item_good: "good_paths env ps \<Longrightarrow> good_paths env (add_item env v ps)"
  by (auto simp: add_item_def split: json.split)

lemma retroarch_good:
  assumes "load_retroarch_history_paths env = Inr ps"
  shows "good_paths env ps"
proof -
  obtain found where run: "(case Option.bind found (text_of env) of
       None \<Rightarrow> Inr []
     | Some t \<Rightarrow> (case loads t of
           Inl _ \<Rightarrow> Inr []
         | Inr payload \<Rightarrow> bind_res (jget ''items'' JNull payload) (\<lambda>items. case items of
               JList vs \<Rightarrow> Inr (fold (add_item env) vs [])
             | _ \<Rightarrow> Inr []))) = Inr ps"
    using assms by (auto simp: load_retroarch_history_paths_def bind_res_Inr_iff)
  have items: "good_paths env (fold (add_item env) vs [])" for vs
    by (rule fold_keeps[where I = "good_paths env"]) (auto intro: add_item_good)
  show ?thesis
  proof (cases "Option.bind found (text_of env)")
    case (Some t)
    then show ?thesis
    proof (cases "loads t")
      case (Inr payload)
      then obtain v where "(case v of JList vs \<Rightarrow> Inr (fold (add_item env) vs []) | _ \<Rightarrow> Inr []) = (Inr ps :: string list res)"
        using run Some by (auto simp: bind_res_Inr_iff)
      then show ?thesis
        using items by (cases v) auto
    qed (use run Some in simp)
  qed (use run in simp)
qed

lemma recent_line_found:
  "rs_found (recent_line env line s) = rs_found s
    \<or> (\<exists>i p. rs_found (recent_line env line s) = rs_found s @ [(i, p)] \<and> hi_exists env p)"
  by (simp add: recent_line_def Let_def)

lemma ppsspp_found:
  assumes "p \<in> set (load_ppsspp_recent_paths env)"
  shows "hi_exists env p"
proof -
  let ?I = "\<lambda>s. \<forall>x \<in> set (rs_found s). hi_exists env (snd x)"
  have step: "?I (recent_line env line s)" if "?I s" for line s
    using that recent_line_found[of env line s] by auto
  have "?I (fold (recent_line env) ls \<lparr>rs_inside = False, rs_found = []\<rparr>)" for ls
    by (rule fold_keeps[where I = ?I]) (simp, rule step)
  then have parsed: "\<forall>p \<in> set (parse_ppsspp_recent_paths env t). hi_exists env p" for t
    unfolding parse_ppsspp_recent_paths_def by simp
  have "load_ppsspp_recent_paths env = [] \<or> (\<exists>t. load_ppsspp_recent_paths env = parse_ppsspp_recent_paths env t)"
    by (simp add: load_ppsspp_recent_paths_def split: option.split) blast
  then show ?thesis using assms parsed by auto
qed

lemma played_found:
  "p \<in> set (load_pcsx2_recent_paths env) \<union> set (load_duckstation_recent_paths env) \<Longrightarrow> hi_exists env p"
  by (auto simp: load_pcsx2_recent_paths_def load_duckstation_recent_paths_def played_games_def played_paths_def Let_def
      split: option.splits)

lemma set_first_snd: "snd ` set (set_first k v d) \<subseteq> insert v (snd ` set d)"
  by (auto simp: set_first_def)

lemma library_files: "snd ` set (scan_library read ps) \<subseteq> set ps"
proof -
  have "snd ` set (case read p of None \<Rightarrow> lib | Some c \<Rightarrow> set_first c p lib) \<subseteq> set ps"
    if "p \<in> set ps" "snd ` set lib \<subseteq> set ps" for p lib
  proof (cases "read p")
    case (Some c)
    have "insert p (snd ` set lib) \<subseteq> set ps" using that by simp
    then have "snd ` set (set_first c p lib) \<subseteq> set ps"
      by (rule order_trans[OF set_first_snd])
    then show ?thesis using Some by simp
  qed (use that in simp)
  then show ?thesis
    unfolding scan_library_def by (intro fold_keeps[where I = "\<lambda>lib. snd ` set lib \<subseteq> set ps"]) simp_all
qed

lemma dolphin_library_files: "p \<in> snd ` set (dolphin_library env vs) \<Longrightarrow> hi_is_file env p"
proof -
  let ?ds = "dolphin_iso_search_dirs env vs"
  let ?I = "\<lambda>lib. snd ` set lib \<subseteq> {p. hi_is_file env p}"
  have scans: "?I (scan_dolphin_wad_library env ?ds)" "?I (scan_dolphin_disc_library env ?ds)"
    unfolding scan_dolphin_wad_library_def scan_dolphin_disc_library_def
    by (rule order_trans[OF library_files], simp add: Collect_mono)+
  have "?I ((\<lambda>(c, p). set_first c p) x lib)" if "x \<in> set (scan_dolphin_wad_library env ?ds)" "?I lib" for x lib
  proof -
    have "snd x \<in> {p. hi_is_file env p}"
      using that(1) scans(1) by blast
    then have "insert (snd x) (snd ` set lib) \<subseteq> {p. hi_is_file env p}"
      using that(2) by simp
    then have "?I (set_first (fst x) (snd x) lib)"
      by (rule order_trans[OF set_first_snd])
    then show ?thesis by (simp add: case_prod_beta)
  qed
  then have "?I (dolphin_library env vs)"
    unfolding dolphin_library_def Let_def by (intro fold_keeps[where I = ?I] scans(2)) simp_all
  then show "p \<in> snd ` set (dolphin_library env vs) \<Longrightarrow> hi_is_file env p" by blast
qed

lemma matched_files_set:
  "set (matched_files lib codes) = {p. \<exists>c m. (c, m) \<in> set codes \<and> map_of lib c = Some p}"
proof -
  have "set (matched_files lib codes) = set (List.map_filter (\<lambda>(c, _). map_of lib c) (sort_key (\<lambda>(_, m). - m) codes))"
    using fold_add_new[of "[]"] by (simp add: matched_files_def add_new_def[abs_def])
  then show ?thesis
    by (force simp: set_map_filter)
qed

lemma dolphin_shape:
  "load_dolphin_recent_paths env = [] \<or> (\<exists>vs codes. load_dolphin_recent_paths env = matched_files (dolphin_library env vs) codes)"
  by (simp add: load_dolphin_recent_paths_def Let_def split: option.split) blast

lemma dolphin_found:
  assumes "p \<in> set (load_dolphin_recent_paths env)"
  shows "hi_is_file env p"
proof -
  obtain vs codes where "p \<in> set (matched_files (dolphin_library env vs) codes)"
    using assms dolphin_shape[of env] by auto
  then obtain c where "map_of (dolphin_library env vs) c = Some p"
    by (auto simp: matched_files_set)
  then have "p \<in> snd ` set (dolphin_library env vs)"
    by (force dest: map_of_SomeD)
  then show ?thesis by (rule dolphin_library_files)
qed

text \<open>
  The history lists no path twice, and every path of it is there on the disk.
\<close>

theorem history_lists_each_once:
  assumes "load_content_history_paths env = Inr ps"
  shows "distinct ps \<and> (\<forall>p \<in> set ps. hi_exists env p \<or> hi_is_file env p)"
proof -
  let ?extra = "load_ppsspp_recent_paths env @ load_dolphin_recent_paths env @ load_pcsx2_recent_paths env @ load_duckstation_recent_paths env"
  obtain base where "(if hi_exists env MUOS_HISTORY_DIR then Inr (load_muos_history_paths env)
      else load_retroarch_history_paths env) = Inr base" and ps: "ps = fold add_new ?extra base"
    using assms unfolding load_content_history_paths_def bind_res_Inr_iff add_new_def[abs_def] by blast
  then have base: "good_paths env base"
    using muos_good retroarch_good by (cases "hi_exists env MUOS_HISTORY_DIR") auto
  have "\<forall>p \<in> set ?extra. hi_exists env p \<or> hi_is_file env p"
    using ppsspp_found dolphin_found played_found by auto
  then show ?thesis
    using base fold_add_new[of base ?extra] unfolding ps good_paths_def by blast
qed

section \<open>The games of Dolphin\<close>

lemma fold_add_new_snoc: "fold add_new (ps @ [p]) [] = add_new p (fold add_new ps [])"
  by simp

text \<open>The code that put a file at its place; the files of newer codes are before it.\<close>

definition newest_first :: "(string \<Rightarrow> string option) \<Rightarrow> (string \<times> int) list \<Rightarrow> string list \<Rightarrow> bool" where
  "newest_first lib codes ps = (\<forall>i < length ps. \<exists>(c, m) \<in> set codes. lib c = Some (ps ! i)
     \<and> (\<forall>(d, n) \<in> set codes. m < n \<longrightarrow> (\<forall>p. lib d = Some p \<longrightarrow> p \<in> set (take i ps))))"

lemma matched_order:
  assumes "sorted_wrt (\<lambda>(_, m) (_, n). n \<le> m) codes"
  shows "newest_first lib codes (fold add_new (List.map_filter (\<lambda>(c, _). lib c) codes) [])"
  using assms
proof (induction codes rule: rev_induct)
  case (snoc x codes)
  obtain c m where x: "x = (c, m)" by (cases x) auto
  let ?ps = "fold add_new (List.map_filter (\<lambda>(c, _). lib c) codes) []"
  have older: "m \<le> n" if "(d, n) \<in> set codes" for d n
    using snoc.prems that x by (auto simp: sorted_wrt_append)
  have IH: "newest_first lib codes ?ps"
    using snoc by (simp add: sorted_wrt_append)
  have all: "p \<in> set ?ps" if "(d, n) \<in> set codes" "lib d = Some p" for d n p
  proof -
    have "p \<in> set (List.map_filter (\<lambda>(c, _). lib c) codes)"
      unfolding set_map_filter using that by (auto intro!: bexI[of _ "(d, n)"])
    then show ?thesis using fold_add_new[of "[]"] by simp
  qed
  have keep: "newest_first lib (codes @ [x]) ?ps"
    unfolding newest_first_def
  proof (intro allI impI)
    fix i assume "i < length ?ps"
    then obtain e k where "(e, k) \<in> set codes" "lib e = Some (?ps ! i)"
      "\<forall>(d, n) \<in> set codes. k < n \<longrightarrow> (\<forall>p. lib d = Some p \<longrightarrow> p \<in> set (take i ?ps))"
      using IH unfolding newest_first_def by blast
    then show "\<exists>(c, m) \<in> set (codes @ [x]). lib c = Some (?ps ! i)
        \<and> (\<forall>(d, n) \<in> set (codes @ [x]). m < n \<longrightarrow> (\<forall>p. lib d = Some p \<longrightarrow> p \<in> set (take i ?ps)))"
      using older[of e k] by (intro bexI[of _ "(e, k)"]) (auto simp: x)
  qed
  show ?case
  proof (cases "lib c")
    case None
    then show ?thesis using keep x by (simp add: map_filter_def)
  next
    case (Some p)
    then have "fold add_new (List.map_filter (\<lambda>(c, _). lib c) (codes @ [x])) [] = add_new p ?ps"
      by (simp add: x map_filter_def)
    moreover have "newest_first lib (codes @ [x]) (?ps @ [p])" if "p \<notin> set ?ps"
      unfolding newest_first_def
    proof (intro allI impI)
      fix i assume i: "i < length (?ps @ [p])"
      show "\<exists>(c, m) \<in> set (codes @ [x]). lib c = Some ((?ps @ [p]) ! i)
        \<and> (\<forall>(d, n) \<in> set (codes @ [x]). m < n \<longrightarrow> (\<forall>q. lib d = Some q \<longrightarrow> q \<in> set (take i (?ps @ [p]))))"
      proof (cases "i < length ?ps")
        case True
        then show ?thesis
          using keep unfolding newest_first_def by (auto simp: nth_append)
      next
        case False
        then have "i = length ?ps" using i by simp
        then show ?thesis
          using Some all by (intro bexI[of _ "(c, m)"]) (auto simp: x)
      qed
    qed
    ultimately show ?thesis
      using keep by (cases "p \<in> set ?ps") (simp_all add: add_new_def[of p])
  qed
qed (simp add: newest_first_def)

lemma sort_by_time: "sorted_wrt (\<lambda>(_, m) (_, n). n \<le> m) (sort_key (\<lambda>(_, m). - m) (codes :: (string \<times> int) list))"
proof -
  have "sorted (map (\<lambda>(_, m). - m) (sort_key (\<lambda>(_, m). - m) codes))" by simp
  then show ?thesis
    unfolding sorted_wrt_map by (rule sorted_wrt_mono_rel[rotated]) auto
qed

text \<open>The saves of a game, wherever Dolphin keeps them: a GCI file in or below one of the two memory card folders,
  named with the game's code, or a title directory of the Wii's memory, named with it in hexadecimal.\<close>

definition gci_save :: "history_env \<Rightarrow> string \<Rightarrow> string \<Rightarrow> int \<Rightarrow> bool" where
  "gci_save env root c m = (hi_is_dir env root \<and> (\<exists>p \<in> set (hi_below env root). hi_is_file env p \<and>
     ends_with ''.gci'' (path_name p) \<and> gci_code (path_name p) = Some c \<and> hi_mtime env p = Some m))"

definition title_save :: "history_env \<Rightarrow> string \<Rightarrow> string \<Rightarrow> int \<Rightarrow> bool" where
  "title_save env root c m = (hi_is_dir env root \<and> (\<exists>es e. hi_entries env root = Some es \<and> e \<in> set es \<and> dn_is_dir e \<and>
     wii_title_id (dn_name e) \<and> decode_wii_title_id_to_game_code (dn_name e) = Some c \<and>
     hi_mtime env (join_path root (dn_name e)) = Some m))"

definition saved_at :: "history_env \<Rightarrow> string \<Rightarrow> (string \<times> string) list \<Rightarrow> string \<Rightarrow> int \<Rightarrow> bool" where
  "saved_at env dir core c m =
     ((\<exists>k \<in> {''GCIFolderAPath'', ''GCIFolderBPath''}. ini_text core k \<noteq> [] \<and> gci_save env (hi_norm env (ini_text core k)) c m) \<or>
      (\<exists>high \<in> {''00010000'', ''00010001''}. title_save env (join_path dir (''Wii/title/'' @ high)) c m))"

definition last_saved_at :: "history_env \<Rightarrow> string \<Rightarrow> (string \<times> string) list \<Rightarrow> string \<Rightarrow> int \<Rightarrow> bool" where
  "last_saved_at env dir core c m = (saved_at env dir core c m \<and> (\<forall>n. saved_at env dir core c n \<longrightarrow> n \<le> m))"

text \<open>The file of a game: the first disc image below the configured directories with its code, else the first
  WAD file.\<close>

definition game_file :: "history_env \<Rightarrow> (string \<times> string) list \<Rightarrow> string \<Rightarrow> string option" where
  "game_file env general c =
     (let files = filter (hi_is_file env) (concat (map (hi_below env) (dolphin_iso_search_dirs env general))) in
      case find (\<lambda>p. lower (path_suffix p) \<in> {''.rvz'', ''.wia'', ''.iso'', ''.gcm''} \<and> read_dolphin_disc_code env p = Some c) files of
        Some p \<Rightarrow> Some p
      | None \<Rightarrow> find (\<lambda>p. ends_with ''.wad'' (path_name p) \<and> read_wad_game_code env p = Some c) files)"

text \<open>A list of codes that holds the newest time of each code of a relation.\<close>

definition top_of :: "(string \<Rightarrow> int \<Rightarrow> bool) \<Rightarrow> string \<Rightarrow> int option \<Rightarrow> bool" where
  "top_of R c v = (case v of None \<Rightarrow> \<forall>m. \<not> R c m | Some m \<Rightarrow> R c m \<and> (\<forall>n. R c n \<longrightarrow> n \<le> m))"

lemma top_of_simps [simp]:
  "top_of R c None \<longleftrightarrow> (\<forall>m. \<not> R c m)" "top_of R c (Some m) \<longleftrightarrow> R c m \<and> (\<forall>n. R c n \<longrightarrow> n \<le> m)"
  by (simp_all add: top_of_def)

definition newest_of :: "(string \<times> int) list \<Rightarrow> (string \<Rightarrow> int \<Rightarrow> bool) \<Rightarrow> bool" where
  "newest_of codes R = (distinct (map fst codes) \<and> (\<forall>c. top_of R c (map_of codes c)))"

lemma newest_ofD:
  "newest_of codes R \<Longrightarrow> (c, m) \<in> set codes \<longleftrightarrow> R c m \<and> (\<forall>n. R c n \<longrightarrow> n \<le> m)"
proof -
  assume n: "newest_of codes R"
  then have "distinct (map fst codes)" by (simp add: newest_of_def)
  then have "(c, m) \<in> set codes \<longleftrightarrow> map_of codes c = Some m" by simp
  moreover have "top_of R c (map_of codes c)" using n by (simp add: newest_of_def)
  ultimately show ?thesis by (cases "map_of codes c") (auto intro: antisym)
qed

lemma newest_of_cong:
  assumes "newest_of codes R" "\<And>c m. R c m \<longleftrightarrow> S c m" shows "newest_of codes S"
proof -
  have "R = S" using assms(2) by (intro ext) simp
  then show ?thesis using assms(1) by simp
qed

lemma newest_newer:
  assumes "newest_of codes R" shows "newest_of (newer_code (a, t) codes) (\<lambda>c m. R c m \<or> (c, m) = (a, t))"
proof -
  have d: "distinct (map fst codes)" and at: "top_of R c (map_of codes c)" for c
    using assms by (simp_all add: newest_of_def)
  have "distinct (map fst (newer_code (a, t) codes))"
    using d by (simp add: newer_code_def distinct_update split: option.split)
  moreover have "top_of (\<lambda>c m. R c m \<or> (c, m) = (a, t)) c (map_of (newer_code (a, t) codes) c)" for c
    using at [of c] by (cases "c = a"; cases "map_of codes c") (auto simp: newer_code_def update_conv split: option.split)
  ultimately show ?thesis unfolding newest_of_def by blast
qed

lemma newest_fold:
  "newest_of codes R \<Longrightarrow> newest_of (merge_recent_codes src codes) (\<lambda>c m. R c m \<or> (c, m) \<in> set src)"
proof (induction src arbitrary: codes R)
  case (Cons x src)
  obtain a t where x: "x = (a, t)" by (cases x)
  have "merge_recent_codes src (newer_code (a, t) codes) = merge_recent_codes (x # src) codes"
    by (simp add: x merge_recent_codes_def)
  then have "newest_of (merge_recent_codes (x # src) codes) (\<lambda>c m. (R c m \<or> (c, m) = (a, t)) \<or> (c, m) \<in> set src)"
    using Cons.IH [OF newest_newer [OF Cons.prems, of a t]] by simp
  then show ?case by (rule newest_of_cong) (auto simp: x)
qed (simp add: merge_recent_codes_def)

lemma newest_merge:
  assumes "newest_of codes R" "newest_of src S"
  shows "newest_of (merge_recent_codes src codes) (\<lambda>c m. R c m \<or> S c m)"
proof -
  have src: "(c, m) \<in> set src \<longleftrightarrow> S c m \<and> (\<forall>n. S c n \<longrightarrow> n \<le> m)" for c m by (rule newest_ofD [OF assms(2)])
  have top: "\<exists>m. (c, m) \<in> set src \<and> n \<le> m" if S: "S c n" for c n
  proof (cases "map_of src c")
    case None
    have "top_of S c (map_of src c)" using assms(2) by (simp add: newest_of_def)
    then show ?thesis using S None by simp
  next
    case (Some m)
    have "top_of S c (map_of src c)" using assms(2) by (simp add: newest_of_def)
    then have "n \<le> m" using S Some by simp
    then show ?thesis using map_of_SomeD [OF Some] by blast
  qed
  have m: "newest_of (merge_recent_codes src codes) (\<lambda>c m. R c m \<or> (c, m) \<in> set src)"
    by (rule newest_fold [OF assms(1)])
  have "top_of (\<lambda>c m. R c m \<or> S c m) c (map_of (merge_recent_codes src codes) c)" for c
  proof -
    have at: "top_of (\<lambda>c m. R c m \<or> (c, m) \<in> set src) c (map_of (merge_recent_codes src codes) c)"
      using m by (simp add: newest_of_def)
    show ?thesis
    proof (cases "map_of (merge_recent_codes src codes) c")
      case None
      then show ?thesis using at top by fastforce
    next
      case (Some m)
      have "n \<le> m" if "S c n" for n using top [OF that] at Some by fastforce
      then show ?thesis using at Some src by auto
    qed
  qed
  then show ?thesis using m by (simp add: newest_of_def)
qed

lemma newest_list: "newest_of (merge_recent_codes src []) (\<lambda>c m. (c, m) \<in> set src)"
  using newest_fold [of "[]" "\<lambda>_ _. False" src] by (simp add: newest_of_def)

lemma newest_Nil: "(\<And>c m. \<not> R c m) \<Longrightarrow> newest_of [] R"
  by (simp add: newest_of_def)

lemma gci_codes_newest: "newest_of (scan_dolphin_gci_codes env root) (gci_save env root)"
proof (cases "hi_is_dir env root")
  case True
  let ?saves = "filter (\<lambda>p. ends_with ''.gci'' (path_name p) \<and> hi_is_file env p) (hi_below env root)"
  let ?src = "with_mtime env (List.map_filter (\<lambda>p. map_option (\<lambda>c. (c, p)) (gci_code (path_name p))) ?saves)"
  have "(c, m) \<in> set ?src \<longleftrightarrow> gci_save env root c m" for c m
    using True by (force simp: with_mtime_def set_map_filter gci_save_def)
  from newest_of_cong [OF newest_list this] show ?thesis
    using True by (simp add: scan_dolphin_gci_codes_def Let_def)
qed (simp add: scan_dolphin_gci_codes_def gci_save_def newest_Nil)

lemma title_codes_newest: "newest_of (scan_dolphin_wii_title_codes env root) (title_save env root)"
proof (cases "hi_is_dir env root \<and> hi_entries env root \<noteq> None")
  case True
  then obtain es where es: "hi_entries env root = Some es" by auto
  let ?titles = "filter (\<lambda>n. wii_title_id n) (map dn_name (filter dn_is_dir es))"
  let ?src = "with_mtime env (List.map_filter (\<lambda>n. map_option (\<lambda>c. (c, join_path root n)) (decode_wii_title_id_to_game_code n)) ?titles)"
  have "(c, m) \<in> set ?src \<longleftrightarrow> title_save env root c m" for c m
    using True es by (force simp: with_mtime_def set_map_filter title_save_def)
  from newest_of_cong [OF newest_list this] show ?thesis
    using True es by (simp add: scan_dolphin_wii_title_codes_def Let_def)
qed (auto simp: scan_dolphin_wii_title_codes_def title_save_def intro: newest_Nil)

lemma dolphin_codes_newest: "newest_of (dolphin_codes env dir core) (saved_at env dir core)"
proof -
  let ?gci = "\<lambda>k codes. if ini_text core k = [] then codes
    else merge_recent_codes (scan_dolphin_gci_codes env (hi_norm env (ini_text core k))) codes"
  let ?G = "\<lambda>k c m. ini_text core k \<noteq> [] \<and> gci_save env (hi_norm env (ini_text core k)) c m"
  have gci: "newest_of (?gci k codes) (\<lambda>c m. R c m \<or> ?G k c m)" if "newest_of codes R" for k codes R
    using that newest_merge [OF that gci_codes_newest] by simp
  have none: "newest_of [] (\<lambda>_ _. False)" by (rule newest_Nil) simp
  note all = newest_merge [OF newest_merge [OF gci [OF gci [OF none]] title_codes_newest] title_codes_newest]
  show ?thesis unfolding dolphin_codes_def Let_def
    by (rule newest_of_cong [OF all]) (auto simp: saved_at_def)
qed

lemma fold_set_first_lookup:
  "map_of (fold (\<lambda>(c, p). set_first c p) w d) c = (case map_of d c of None \<Rightarrow> map_of w c | Some p \<Rightarrow> Some p)"
  by (induction w arbitrary: d) (auto simp: set_first_lookup split: option.split)

lemma scan_library_lookup: "map_of (scan_library read ps) c = find (\<lambda>p. read p = Some c) ps"
proof -
  have "map_of (fold (\<lambda>p lib. case read p of None \<Rightarrow> lib | Some c \<Rightarrow> set_first c p lib) ps lib) c =
      (case map_of lib c of None \<Rightarrow> find (\<lambda>p. read p = Some c) ps | Some p \<Rightarrow> Some p)" for lib
    by (induction ps arbitrary: lib) (auto simp: set_first_lookup split: option.split)
  from this [of "[]"] show ?thesis by (simp add: scan_library_def)
qed

lemma find_kept: "find P (filter Q xs) = find (\<lambda>x. Q x \<and> P x) xs"
  by (induction xs) auto

lemma library_game_file: "map_of (dolphin_library env general) c = game_file env general c"
proof -
  have s: "set DISC_ROM_SUFFIXES = {''.rvz'', ''.wia'', ''.iso'', ''.gcm''}" by (simp add: DISC_ROM_SUFFIXES_def)
  show ?thesis
    unfolding dolphin_library_def Let_def fold_set_first_lookup scan_dolphin_disc_library_def scan_dolphin_wad_library_def
      scan_library_lookup game_file_def find_kept s
    by (simp add: conj_comms conj_assoc conj_left_commute cong: option.case_cong)
qed

text \<open>C36: 
  From the saves of Dolphin the files listed, each once, are those of the games whose last save, in either
  memory card folder or in the memory of the Wii, was made in the last sixty days: of a game with several saves
  the newest counts, and its file is the first disc image, else the first WAD file, with the game's code.  The
  last saved come first: whatever game was saved after the one a file stands for is listed before it.  This
  holds when the directory of Dolphin has its settings file, which can be read; the code of a save, a disc image
  or a WAD file is the one the program's readers of names and headers find.
\<close>

theorem dolphin_games_exact:
  assumes "hi_dolphin_dir env = Some dir" and "text_of env (join_path dir ''Dolphin.ini'') = Some t"
    and "hi_exists env (join_path dir ''Dolphin.ini'')"
  defines "final \<equiv> last_saved_at env dir (read_dolphin_ini_section t ''[Core]'')"
    and "game \<equiv> game_file env (read_dolphin_ini_section t ''[General]'')"
    and "paths \<equiv> load_dolphin_recent_paths env"
  shows "set paths = {p. \<exists>c m. final c m \<and> hi_now env - m \<le> 60 * 24 * 60 * 60 * 1000 \<and> game c = Some p} \<and> distinct paths
    \<and> (\<forall>i < length paths. \<exists>c m. final c m \<and> game c = Some (paths ! i)
         \<and> (\<forall>d n p. final d n \<and> m < n \<and> game d = Some p \<longrightarrow> p \<in> set (take i paths)))"
proof -
  define lib where "lib = map_of (dolphin_library env (read_dolphin_ini_section t ''[General]''))"
  define codes where "codes = dolphin_codes env dir (read_dolphin_ini_section t ''[Core]'')"
  define recent where "recent = filter (\<lambda>(_, m). hi_now env - m \<le> DOLPHIN_RECENT_WINDOW_MS) codes"
  have "(\<lambda>(_ :: string, m). m \<ge> hi_now env - DOLPHIN_RECENT_WINDOW_MS) = (\<lambda>(_, m). hi_now env - m \<le> DOLPHIN_RECENT_WINDOW_MS)"
    by (auto simp: fun_eq_iff)
  then have paths: "paths = matched_files (dolphin_library env (read_dolphin_ini_section t ''[General]'')) recent"
    using assms(1-3) by (simp add: paths_def load_dolphin_recent_paths_def recent_def codes_def)
  have order: "newest_first lib (sort_key (\<lambda>(_, m). - m) recent) paths"
    using matched_order[OF sort_by_time] unfolding paths matched_files_def lib_def add_new_def[abs_def] .
  have game: "lib c = game c" for c by (simp add: lib_def game_def library_game_file)
  have "(c, m) \<in> set codes \<longleftrightarrow> final c m" for c m
    unfolding codes_def final_def last_saved_at_def by (rule newest_ofD [OF dolphin_codes_newest])
  then have rec: "(c, m) \<in> set recent \<longleftrightarrow> final c m \<and> hi_now env - m \<le> 60 * 24 * 60 * 60 * 1000" for c m
    by (auto simp: recent_def DOLPHIN_RECENT_WINDOW_MS_def)
  have "set paths = {p. \<exists>c m. final c m \<and> hi_now env - m \<le> 60 * 24 * 60 * 60 * 1000 \<and> game c = Some p}"
    unfolding paths matched_files_set lib_def [symmetric] by (auto simp: rec game)
  moreover have "distinct paths"
    using fold_add_new [of "[]"] unfolding paths matched_files_def add_new_def [abs_def] by simp
  moreover have "\<exists>c m. final c m \<and> game c = Some (paths ! i)
      \<and> (\<forall>d n p. final d n \<and> m < n \<and> game d = Some p \<longrightarrow> p \<in> set (take i paths))" if i: "i < length paths" for i
  proof -
    obtain c m where c: "(c, m) \<in> set recent" "lib c = Some (paths ! i)"
      "\<forall>(d, n) \<in> set recent. m < n \<longrightarrow> (\<forall>p. lib d = Some p \<longrightarrow> p \<in> set (take i paths))"
      using order i unfolding newest_first_def by fastforce
    have later: "p \<in> set (take i paths)" if "final d n" "m < n" "game d = Some p" for d n p
    proof -
      have "(d, n) \<in> set recent" using that c(1) by (auto simp: rec)
      then show ?thesis using c(3) that by (auto simp: game)
    qed
    have "final c m" "game c = Some (paths ! i)" using c(1,2) by (simp_all add: rec game)
    then show ?thesis using later by blast
  qed
  ultimately show ?thesis by blast
qed

section \<open>The game code of a WAD file\<close>

lemma align_up_64: "align_up_64 v = (v + 63) div 64 * 64"
proof -
  have "(v + 63) AND NOT (mask 6) = push_bit 6 (drop_bit 6 (v + 63))"
    by (rule bit_eqI) (auto simp: bit_and_iff bit_not_iff bit_mask_iff bit_push_bit_iff bit_drop_bit_eq)
  moreover have "mask 6 = (63 :: int)" by (simp add: mask_eq_exp_minus_1)
  ultimately show ?thesis
    by (simp add: align_up_64_def push_bit_eq_mult drop_bit_eq_div)
qed

lemma align_up_64_bounds: "v \<le> align_up_64 v" "align_up_64 v < v + 64" "64 dvd align_up_64 v"
proof -
  have "align_up_64 v = v + 63 - (v + 63) mod 64"
    unfolding align_up_64 by (simp add: minus_mod_eq_div_mult)
  moreover have "0 \<le> (v + 63) mod 64" "(v + 63) mod 64 < 64" by simp_all
  ultimately show "v \<le> align_up_64 v" "align_up_64 v < v + 64" by linarith+
  show "64 dvd align_up_64 v" unfolding align_up_64 by simp
qed

lemma align_sum:
  assumes "64 dvd a"
  shows "align_up_64 (a + v) = a + align_up_64 v"
proof -
  obtain k where a: "a = 64 * k" using assms by (auto simp: dvd_def)
  have "64 * k + v + 63 = (v + 63) + k * 64" by simp
  then have "(64 * k + v + 63) div 64 = (v + 63) div 64 + k"
    by (simp only: div_mult_self1)
  then show ?thesis unfolding align_up_64 a by simp
qed

text \<open>A WAD file: every section padded to a multiple of 64 bytes, the TMD with its signature and title id.\<close>

definition pad64 :: "string \<Rightarrow> string" where
  "pad64 s = s @ replicate (nat (align_up_64 (int (length s))) - length s) CHR 0x00"

record wad_parts =
  wp_head :: string
  wp_cert :: string
  wp_crl :: string
  wp_ticket :: string
  wp_reserved :: string
  wp_signature :: string
  wp_title :: string
  wp_rest :: string

definition wf_wad :: "wad_parts \<Rightarrow> bool" where
  "wf_wad w = (length (wp_head w) = 8 \<and> length (wp_reserved w) = 12 \<and> length (wp_title w) = 8
     \<and> length (wp_signature w) = WAD_TMD_TITLE_ID_OFFSET - 4
     \<and> length (wp_cert w) < 2 ^ 32 \<and> length (wp_crl w) < 2 ^ 32 \<and> length (wp_ticket w) < 2 ^ 32)"

definition wad_header :: "wad_parts \<Rightarrow> string" where
  "wad_header w = wp_head w @ be32_bytes (length (wp_cert w)) @ be32_bytes (length (wp_crl w))
     @ be32_bytes (length (wp_ticket w)) @ wp_reserved w"

definition wad_tmd :: "wad_parts \<Rightarrow> string" where
  "wad_tmd w = be32_bytes WAD_RSA2048_SIG_TYPE @ wp_signature w @ wp_title w @ wp_rest w"

definition wad_bytes :: "wad_parts \<Rightarrow> string" where
  "wad_bytes w = pad64 (wad_header w) @ pad64 (wp_cert w) @ pad64 (wp_crl w) @ pad64 (wp_ticket w) @ wad_tmd w"

lemma length_pad64: "int (length (pad64 s)) = align_up_64 (int (length s))"
  using align_up_64_bounds(1)[of "int (length s)"] by (simp add: pad64_def)

lemma bytes_at_append: "bytes_at (p @ x) (length p + i) n = bytes_at x i n"
  by (simp add: bytes_at_def)

lemma header_fields:
  assumes "wf_wad w"
  shows "bytes_at (wad_bytes w) 0x08 4 = be32_bytes (length (wp_cert w))"
    "bytes_at (wad_bytes w) 0x0C 4 = be32_bytes (length (wp_crl w))"
    "bytes_at (wad_bytes w) 0x10 4 = be32_bytes (length (wp_ticket w))" "length (wad_header w) = 0x20"
  using assms by (simp_all add: bytes_at_def wad_bytes_def pad64_def wad_header_def wf_wad_def)

lemma tmd_start_exact:
  assumes "wf_wad w"
  shows "tmd_start (wad_bytes w) = length (pad64 (wad_header w) @ pad64 (wp_cert w) @ pad64 (wp_crl w) @ pad64 (wp_ticket w))"
proof -
  let ?h = "align_up_64 0x20" and ?a = "align_up_64 (int (length (wp_cert w)))"
    and ?b = "align_up_64 (int (length (wp_crl w)))" and ?c = "align_up_64 (int (length (wp_ticket w)))"
  have "tmd_start (wad_bytes w) = nat (?h + ?a + ?b + ?c)"
    using assms by (simp add: tmd_start_def header_fields wf_wad_def align_sum align_up_64_bounds(3) add.assoc)
  moreover have "int (length (pad64 (wad_header w) @ pad64 (wp_cert w) @ pad64 (wp_crl w) @ pad64 (wp_ticket w))) = ?h + ?a + ?b + ?c"
    using header_fields(4)[OF assms] by (simp add: length_pad64)
  ultimately show ?thesis by linarith
qed

text \<open>C37: 
  The game code of a WAD file is the second half of the title id in its TMD, whatever the sizes of the
  sections before it are.
\<close>

theorem wad_code_found:
  assumes "wf_wad w"
  shows "wad_game_code (wad_bytes w) = title_code (drop 4 (wp_title w))"
proof -
  let ?pre = "pad64 (wad_header w) @ pad64 (wp_cert w) @ pad64 (wp_crl w) @ pad64 (wp_ticket w)"
  have data: "wad_bytes w = ?pre @ wad_tmd w" by (simp add: wad_bytes_def)
  have at: "bytes_at (wad_bytes w) (tmd_start (wad_bytes w) + i) n = bytes_at (wad_tmd w) i n" for i n
    unfolding tmd_start_exact[OF assms] unfolding data by (rule bytes_at_append)
  have "bytes_at (wad_tmd w) 0 4 = be32_bytes WAD_RSA2048_SIG_TYPE"
    by (simp add: bytes_at_def wad_tmd_def)
  moreover have "bytes_at (wad_tmd w) WAD_TMD_TITLE_ID_OFFSET 8 = wp_title w"
    using assms by (simp add: bytes_at_def wad_tmd_def wf_wad_def WAD_TMD_TITLE_ID_OFFSET_def)
  moreover have "0x20 \<le> length (wad_bytes w)"
    using header_fields(4)[OF assms] by (simp add: wad_bytes_def pad64_def)
  ultimately show ?thesis
    using at[of 0 4] at[of WAD_TMD_TITLE_ID_OFFSET 8] assms
    by (simp add: wad_game_code_def wf_wad_def WAD_RSA2048_SIG_TYPE_def)
qed

section \<open>Samples\<close>

definition sample_wad :: wad_parts where
  "sample_wad = \<lparr>wp_head = replicate 8 CHR 0x00, wp_cert = replicate 65 CHR 0x01, wp_crl = [], wp_ticket = ''t'',
     wp_reserved = replicate 12 CHR 0x00, wp_signature = replicate (WAD_TMD_TITLE_ID_OFFSET - 4) CHR 0x02,
     wp_title = [CHR 0x00, CHR 0x01, CHR 0x00, CHR 0x01] @ ''wabe'', wp_rest = []\<rparr>"

theorem wad_code_found_witness: "wad_game_code (wad_bytes sample_wad) = Some ''WABE''"
proof -
  have "title_code (drop 4 (wp_title sample_wad)) = Some ''WABE''"
    by code_simp
  then show ?thesis
    by (subst wad_code_found) (simp_all add: sample_wad_def wf_wad_def)
qed

text \<open>Dolphin with two discs.  One game was saved lately in the second memory card folder and, long ago, in the
  first; the save of the other is old.\<close>

definition sample_ini :: string where
  "sample_ini = join [newline] [''[General]'', ''ISOPaths = 1'', ''ISOPath0 = /g'', ''[Core]'', ''GCIFolderAPath = /s'',
     ''GCIFolderBPath = /t'']"

definition sample_history :: history_env where
  "sample_history = \<lparr>
     hi_read = (\<lambda>p. if p = ''/d/Dolphin.ini'' then Some sample_ini else if p = ''/g/a.iso'' then Some ''GALE01''
       else if p = ''/g/b.iso'' then Some ''GBBE01'' else None),
     hi_exists = (\<lambda>p. p = ''/d/Dolphin.ini''),
     hi_is_file = (\<lambda>p. p \<in> {''/g/a.iso'', ''/g/b.iso'', ''/s/01-GALE-x.gci'', ''/s/01-GBBE-x.gci'', ''/t/01-GALE-x.gci''}),
     hi_is_dir = (\<lambda>p. p \<in> {''/g'', ''/s'', ''/t''}), hi_entries = (\<lambda>_. None),
     hi_below = (\<lambda>p. if p = ''/g'' then [''/g/a.iso'', ''/g/b.iso''] else if p = ''/s'' then [''/s/01-GALE-x.gci'', ''/s/01-GBBE-x.gci'']
       else if p = ''/t'' then [''/t/01-GALE-x.gci''] else []),
     hi_mtime = (\<lambda>p. if p = ''/t/01-GALE-x.gci'' then Some 5999999999 else Some 5), hi_norm = id, hi_expand = id, hi_now = 6000000000,
     hi_retroarch_cfg = ''/r/retroarch.cfg'', hi_ppsspp_ini = None, hi_dolphin_dir = Some ''/d'', hi_pcsx2_ini = None,
     hi_duckstation_ini = None\<rparr>"

lemma sample_saves:
  "saved_at sample_history ''/d'' (read_dolphin_ini_section sample_ini ''[Core]'') c m \<longleftrightarrow>
     (c, m) \<in> {(''GALE'', 5), (''GBBE'', 5), (''GALE'', 5999999999)}"
proof -
  have ini: "ini_text (read_dolphin_ini_section sample_ini ''[Core]'') ''GCIFolderAPath'' = ''/s''"
    "ini_text (read_dolphin_ini_section sample_ini ''[Core]'') ''GCIFolderBPath'' = ''/t''"
    by code_simp+
  have codes: "gci_code (path_name ''/s/01-GALE-x.gci'') = Some ''GALE''" "gci_code (path_name ''/s/01-GBBE-x.gci'') = Some ''GBBE''"
    "gci_code (path_name ''/t/01-GALE-x.gci'') = Some ''GALE''" "ends_with ''.gci'' (path_name ''/s/01-GALE-x.gci'')"
    "ends_with ''.gci'' (path_name ''/s/01-GBBE-x.gci'')" "ends_with ''.gci'' (path_name ''/t/01-GALE-x.gci'')"
    by code_simp+
  have no_title: "\<not> title_save sample_history root c m" for root
    by (simp add: title_save_def sample_history_def)
  have a: "gci_save sample_history ''/s'' c m \<longleftrightarrow> (c, m) \<in> {(''GALE'', 5), (''GBBE'', 5)}"
    using codes by (auto simp: gci_save_def sample_history_def)
  have b: "gci_save sample_history ''/t'' c m \<longleftrightarrow> (c, m) = (''GALE'', 5999999999)"
    using codes by (auto simp: gci_save_def sample_history_def)
  have "hi_norm sample_history = id" by (simp add: sample_history_def)
  then show ?thesis using a b no_title by (auto simp: saved_at_def ini)
qed

theorem dolphin_games_exact_witness: "load_dolphin_recent_paths sample_history = [''/g/a.iso'']"
proof -
  let ?final = "last_saved_at sample_history ''/d'' (read_dolphin_ini_section sample_ini ''[Core]'')"
  let ?game = "game_file sample_history (read_dolphin_ini_section sample_ini ''[General]'')"
  have t: "text_of sample_history (join_path ''/d'' ''Dolphin.ini'') = Some sample_ini"
    by code_simp
  have final: "?final c m \<longleftrightarrow> (c, m) \<in> {(''GBBE'', 5), (''GALE'', 5999999999)}" for c m
    by (auto simp: last_saved_at_def sample_saves)
  have game: "?game ''GALE'' = Some ''/g/a.iso''" by code_simp
  have dir: "hi_dolphin_dir sample_history = Some ''/d''" "hi_exists sample_history (join_path ''/d'' ''Dolphin.ini'')"
    and now: "hi_now sample_history = 6000000000"
    by (simp_all add: sample_history_def join_path_def)
  note listed = dolphin_games_exact [OF dir(1) t dir(2)]
  note shown = listed [THEN conjunct1] listed [THEN conjunct2, THEN conjunct1]
  have recent: "?final c m \<and> hi_now sample_history - m \<le> 60 * 24 * 60 * 60 * 1000 \<longleftrightarrow> (c, m) = (''GALE'', 5999999999)" for c m
    unfolding final now by auto
  have "p \<in> set (load_dolphin_recent_paths sample_history) \<longleftrightarrow> (\<exists>c m. (c, m) = (''GALE'', 5999999999 :: int) \<and> ?game c = Some p)" for p
    unfolding shown(1) mem_Collect_eq conj_assoc [symmetric] recent ..
  then have "p \<in> set (load_dolphin_recent_paths sample_history) \<longleftrightarrow> p = ''/g/a.iso''" for p
    by (simp only: prod.inject ex_simps simp_thms game option.inject) (rule eq_commute)
  then have "set (load_dolphin_recent_paths sample_history) = {''/g/a.iso''}" by blast
  then show ?thesis using shown(2)
    by (cases "load_dolphin_recent_paths sample_history" rule: remdups_adj.cases) auto
qed

theorem history_lists_each_once_witness:
  "load_content_history_paths sample_history = Inr [''/g/a.iso'']
   \<and> (hi_exists sample_history ''/g/a.iso'' \<or> hi_is_file sample_history ''/g/a.iso'')"
proof -
  have listed: "load_content_history_paths sample_history = Inr [''/g/a.iso'']"
    by code_simp
  then show ?thesis
    using history_lists_each_once[OF listed] by simp
qed

end
