(* ===== verification/Rvz_Reader.thy ===== *)
theory Rvz_Reader
  imports Gamelist_Cache "HOL-Library.Word"
begin

text \<open>
  The reader of RVZ disc images (rvz_datasource.py): the headers and tables of the container, the groups of
  the image with their packed form and its pseudo-random filling, the clusters of Wii partitions with
  their hash headers, and reading at an offset with the caches between.  Bytes are characters.  SHA-1, zstd
  and AES are parameters; a struct.error and an RvzParseError are both ValueError here.
\<close>

unbundle bit_operations_syntax

record codecs =
  cd_sha1 :: "string \<Rightarrow> string"
  cd_zstd :: "string \<Rightarrow> int \<Rightarrow> string option"
  cd_frame_size :: "string \<Rightarrow> int option"
  cd_aes :: "string \<Rightarrow> string \<Rightarrow> string \<Rightarrow> string option"

section \<open>Constants\<close>

definition RVZ_MAGIC :: string where "RVZ_MAGIC = ''RVZ'' @ [CHR 0x01]"
definition HEADER_1_SIZE :: int where "HEADER_1_SIZE = 0x48"
definition HEADER_2_MIN_SIZE :: int where "HEADER_2_MIN_SIZE = 0xD5"
definition COMPRESSION_NONE :: int where "COMPRESSION_NONE = 0"
definition COMPRESSION_ZSTD :: int where "COMPRESSION_ZSTD = 5"
definition DISC_HEADER_SIZE :: int where "DISC_HEADER_SIZE = 0x80"
definition PARTITION_ENTRY_SIZE :: int where "PARTITION_ENTRY_SIZE = 0x30"
definition RAW_DATA_ENTRY_SIZE :: int where "RAW_DATA_ENTRY_SIZE = 0x18"
definition GROUP_ENTRY_SIZE :: int where "GROUP_ENTRY_SIZE = 0x0C"
definition HASH_EXCEPTION_ENTRY_SIZE :: int where "HASH_EXCEPTION_ENTRY_SIZE = 0x16"
definition GROUP_COMPRESSED_BIT :: int where "GROUP_COMPRESSED_BIT = 0x80000000"
definition GROUP_SIZE_MASK :: int where "GROUP_SIZE_MASK = 0x7FFFFFFF"
definition SECTOR_SIZE :: int where "SECTOR_SIZE = 0x8000"
definition SEED_SIZE :: int where "SEED_SIZE = 68"
definition WII_CLUSTER_HEADER_SIZE :: int where "WII_CLUSTER_HEADER_SIZE = 0x400"
definition WII_CLUSTER_DATA_SIZE :: int where "WII_CLUSTER_DATA_SIZE = 0x7C00"
definition WII_CLUSTER_TOTAL_SIZE :: int where "WII_CLUSTER_TOTAL_SIZE = WII_CLUSTER_HEADER_SIZE + WII_CLUSTER_DATA_SIZE"
definition WII_GROUP_BLOCK_COUNT :: int where "WII_GROUP_BLOCK_COUNT = 64"
definition WII_GROUP_DATA_SIZE :: int where "WII_GROUP_DATA_SIZE = WII_CLUSTER_DATA_SIZE * WII_GROUP_BLOCK_COUNT"
definition WII_GROUP_TOTAL_SIZE :: int where "WII_GROUP_TOTAL_SIZE = WII_CLUSTER_TOTAL_SIZE * WII_GROUP_BLOCK_COUNT"
definition ZERO_IV :: string where "ZERO_IV = replicate 16 CHR 0x00"

section \<open>Bytes\<close>

definition slice :: "string \<Rightarrow> int \<Rightarrow> int \<Rightarrow> string" where
  "slice data a b = take (nat (b - a)) (drop (nat a) data)"

definition zeros :: "int \<Rightarrow> string" where
  "zeros n = replicate (nat n) CHR 0x00"

text \<open>struct.unpack_from of n bytes, the high one first.\<close>

definition be_at :: "nat \<Rightarrow> string \<Rightarrow> int \<Rightarrow> int res" where
  "be_at n data off = (if nat off + n \<le> length data then Inr (int (be_nat (take n (drop (nat off) data)))) else Inl ValueError)"

definition be_u16 :: "string \<Rightarrow> int \<Rightarrow> int res" where "be_u16 = be_at 2"
definition be_u32 :: "string \<Rightarrow> int \<Rightarrow> int res" where "be_u32 = be_at 4"
definition be_u64 :: "string \<Rightarrow> int \<Rightarrow> int res" where "be_u64 = be_at 8"

definition align_to_4 :: "int \<Rightarrow> int" where
  "align_to_4 v = (v + 3) AND NOT 3"

text \<open>The file behind a FileReadSource.\<close>

definition source_read :: "string \<Rightarrow> int \<Rightarrow> int \<Rightarrow> string" where
  "source_read file off n = take (nat n) (drop (nat off) file)"

function read_fully :: "string \<Rightarrow> int \<Rightarrow> int \<Rightarrow> string res" where
  "read_fully file off n =
     (if n \<le> 0 then Inr []
      else let chunk = source_read file off n in
        if chunk = [] then Inl ValueError
        else bind_res (read_fully file (off + int (length chunk)) (n - int (length chunk))) (\<lambda>more. Inr (chunk @ more)))"
  by pat_completeness auto
termination by (relation "measure (\<lambda>(file, off, n). nat n)") auto

declare read_fully.simps [simp del]

section \<open>The tables\<close>

record raw_entry =
  re_start :: int
  re_end :: int
  re_group :: int
  re_count :: int

record group_entry =
  ge_offset :: int
  ge_size :: int
  ge_packed :: int

definition uses_file_compression :: "group_entry \<Rightarrow> bool" where
  "uses_file_compression g = (ge_size g AND GROUP_COMPRESSED_BIT \<noteq> 0)"

record data_entry =
  de_first :: int
  de_sectors :: int
  de_group :: int
  de_count :: int

record wii_partition =
  pt_key :: string
  pt_entries :: "data_entry list"
  pt_first :: int
  pt_total :: int

definition raw_data_offset :: "wii_partition \<Rightarrow> int" where
  "raw_data_offset p = pt_first p * SECTOR_SIZE"

definition decrypted_size :: "wii_partition \<Rightarrow> int" where
  "decrypted_size p = pt_total p * WII_CLUSTER_DATA_SIZE"

definition raw_entry_at :: "string \<Rightarrow> int \<Rightarrow> raw_entry res" where
  "raw_entry_at data off =
     bind_res (be_u64 data off) (\<lambda>raw_offset.
     bind_res (be_u64 data (off + 8)) (\<lambda>raw_size.
     bind_res (be_u32 data (off + 16)) (\<lambda>group.
     bind_res (be_u32 data (off + 20)) (\<lambda>cnt.
       let skipped = raw_offset mod SECTOR_SIZE; start = raw_offset - skipped
       in Inr \<lparr>re_start = start, re_end = start + raw_size + skipped, re_group = group, re_count = cnt\<rparr>))))"

definition parse_raw_entries :: "string \<Rightarrow> int \<Rightarrow> raw_entry list res" where
  "parse_raw_entries data cnt = map_res (\<lambda>i. raw_entry_at data (i * RAW_DATA_ENTRY_SIZE)) [0..cnt - 1]"

definition group_entry_at :: "string \<Rightarrow> int \<Rightarrow> group_entry res" where
  "group_entry_at data off =
     bind_res (be_u32 data off) (\<lambda>a. bind_res (be_u32 data (off + 4)) (\<lambda>b. bind_res (be_u32 data (off + 8)) (\<lambda>c.
       Inr \<lparr>ge_offset = a, ge_size = b, ge_packed = c\<rparr>)))"

definition parse_group_entries :: "string \<Rightarrow> int \<Rightarrow> group_entry list res" where
  "parse_group_entries data cnt = map_res (\<lambda>i. group_entry_at data (i * GROUP_ENTRY_SIZE)) [0..cnt - 1]"

definition data_entry_at :: "string \<Rightarrow> int \<Rightarrow> data_entry res" where
  "data_entry_at entry off =
     bind_res (be_u32 entry off) (\<lambda>a. bind_res (be_u32 entry (off + 4)) (\<lambda>b.
     bind_res (be_u32 entry (off + 8)) (\<lambda>c. bind_res (be_u32 entry (off + 12)) (\<lambda>d.
       Inr \<lparr>de_first = a, de_sectors = b, de_group = c, de_count = d\<rparr>))))"

definition padded :: "string \<Rightarrow> int \<Rightarrow> string" where
  "padded s n = s @ zeros (n - int (length s))"

definition partition_of :: "string \<Rightarrow> wii_partition option res" where
  "partition_of raw =
     (let entry = padded (slice raw 0 PARTITION_ENTRY_SIZE) PARTITION_ENTRY_SIZE in
      bind_res (map_res (data_entry_at entry) [16, 32]) (\<lambda>found.
        case filter (\<lambda>d. de_sectors d > 0) found of
          [] \<Rightarrow> Inr None
        | d # ds \<Rightarrow>
            Inr (Some \<lparr>pt_key = slice entry 0 16, pt_entries = d # ds, pt_first = de_first d,
              pt_total = (case ds of [] \<Rightarrow> de_sectors d | e # _ \<Rightarrow> (de_first e - de_first d) + de_sectors e)\<rparr>)))"

definition parse_partition_entries :: "string \<Rightarrow> int \<Rightarrow> int \<Rightarrow> wii_partition list res" where
  "parse_partition_entries data cnt esize =
     bind_res (map_res (\<lambda>i. partition_of (slice data (i * esize) (i * esize + esize))) [0..cnt - 1])
       (\<lambda>ps. Inr (List.map_filter id ps))"

section \<open>Compression\<close>

definition decompress :: "codecs \<Rightarrow> string \<Rightarrow> int \<Rightarrow> int \<Rightarrow> string res" where
  "decompress cd encoded kind expected =
     (if kind = COMPRESSION_NONE then Inr encoded
      else if kind = COMPRESSION_ZSTD then of_option ValueError (cd_zstd cd encoded expected)
      else Inl ValueError)"

definition decompress_unknown_size :: "codecs \<Rightarrow> string \<Rightarrow> string res" where
  "decompress_unknown_size cd encoded =
     bind_res (of_option ValueError (cd_frame_size cd encoded)) (\<lambda>n. of_option ValueError (cd_zstd cd encoded n))"

definition read_metadata_block :: "codecs \<Rightarrow> string \<Rightarrow> int \<Rightarrow> int \<Rightarrow> int \<Rightarrow> int \<Rightarrow> string res" where
  "read_metadata_block cd file off stored kind expected =
     bind_res (read_fully file off stored) (\<lambda>encoded. decompress cd encoded kind expected)"

section \<open>The pseudo-random filling\<close>

definition lfg_word :: "32 word list \<Rightarrow> 32 word" where
  "lfg_word b = (let i = length b in
     push_bit 23 (b ! (i - 17)) XOR drop_bit 9 (b ! (i - 16)) XOR b ! (i - 1))"

definition lfg_fill :: "32 word list \<Rightarrow> 32 word list" where
  "lfg_fill seed = ((\<lambda>b. b @ [lfg_word b]) ^^ (521 - 17)) seed"

definition advance_lagged_fibonacci :: "32 word list \<Rightarrow> 32 word list" where
  "advance_lagged_fibonacci buffer =
     (let n = length buffer;
          b = fold (\<lambda>i b. b[i := b ! i XOR b ! (i + n - 32)]) [0..<32] buffer
      in fold (\<lambda>i b. b[i := b ! i XOR b ! (i - 32)]) [32..<n] b)"

definition word_bytes :: "32 word \<Rightarrow> string" where
  "word_bytes w = map (\<lambda>v :: 32 word. char_of (unat (v AND 0xFF)))
     [drop_bit 24 w, drop_bit 18 w, drop_bit 8 w, w]"

text \<open>The bytes written, the buffer and the index of the next word afterwards.\<close>

function write_lagged_fibonacci_bytes ::
  "32 word list \<Rightarrow> nat \<Rightarrow> nat \<Rightarrow> string \<times> 32 word list \<times> nat" where
  "write_lagged_fibonacci_bytes buffer n wi =
     (if n = 0 then ([], buffer, wi)
      else
        let (b, i) = (if wi = length buffer then (advance_lagged_fibonacci buffer, 0) else (buffer, wi));
            (more, b2, i2) = write_lagged_fibonacci_bytes b (n - min 4 n) (i + 1)
        in (take (min 4 n) (word_bytes (b ! i)) @ more, b2, i2))"
  by pat_completeness auto
termination by (relation "measure (\<lambda>(buffer, n, wi). n)") auto

declare write_lagged_fibonacci_bytes.simps [simp del]

definition lfg_start :: "32 word list \<Rightarrow> 32 word list" where
  "lfg_start seed = (advance_lagged_fibonacci ^^ 4) (lfg_fill seed)"

definition generate_rvz_bytes :: "32 word list \<Rightarrow> nat \<Rightarrow> int \<Rightarrow> string" where
  "generate_rvz_bytes seed n absolute =
     (let skip = nat (absolute mod SECTOR_SIZE);
          (b, i) = (if skip > 0 then snd (write_lagged_fibonacci_bytes (lfg_start seed) skip 0) else (lfg_start seed, 0))
      in fst (write_lagged_fibonacci_bytes b n i))"

section \<open>The packed form of a group\<close>

definition read_seed :: "string \<Rightarrow> 32 word list" where
  "read_seed bytes = map (\<lambda>i. of_nat (be_nat (take 4 (drop (4 * i) bytes)))) [0..<17]"

text \<open>The records from the rest of the input, with the output still missing and the place of it.\<close>

function decode_records :: "string \<Rightarrow> nat \<Rightarrow> int \<Rightarrow> string res" where
  "decode_records packed missing place =
     (if packed = [] \<or> missing = 0 then (if missing = 0 then Inr [] else Inl ValueError)
      else if length packed < 4 then Inl ValueError
      else
        let head = be_nat (take 4 packed); rest = drop 4 packed; n = head mod 2 ^ 31 in
        if head < 2 ^ 31 then
          (if n > length rest \<or> n > missing then Inl ValueError
           else bind_res (decode_records (drop n rest) (missing - n) (place + int n)) (\<lambda>more. Inr (take n rest @ more)))
        else
          (if nat SEED_SIZE > length rest \<or> n > missing then Inl ValueError
           else bind_res (decode_records (drop (nat SEED_SIZE) rest) (missing - n) (place + int n))
             (\<lambda>more. Inr (generate_rvz_bytes (read_seed (take (nat SEED_SIZE) rest)) n place @ more))))"
  by pat_completeness auto
termination by (relation "measure (\<lambda>(packed, missing, place). length packed)") auto

declare decode_records.simps [simp del]

definition decode_rvz_packed :: "string \<Rightarrow> int \<Rightarrow> int \<Rightarrow> string res" where
  "decode_rvz_packed packed logical start = decode_records packed (nat logical) start"

section \<open>Hash exceptions and headers\<close>

type_synonym hash_exception = "int \<times> string"

definition exception_at :: "string \<Rightarrow> int \<Rightarrow> hash_exception res" where
  "exception_at data off = bind_res (be_u16 data off) (\<lambda>o1.
     Inr (o1, slice data (off + 2) (off + HASH_EXCEPTION_ENTRY_SIZE)))"

fun exception_lists :: "nat \<Rightarrow> string \<Rightarrow> int \<Rightarrow> (hash_exception list list \<times> int) res" where
  "exception_lists 0 data off = Inr ([], off)"
| "exception_lists (Suc k) data off =
     bind_res (be_u16 data off) (\<lambda>cnt.
     bind_res (map_res (\<lambda>i. exception_at data (off + 2 + i * HASH_EXCEPTION_ENTRY_SIZE)) [0..cnt - 1]) (\<lambda>es.
     bind_res (exception_lists k data (off + 2 + cnt * HASH_EXCEPTION_ENTRY_SIZE)) (\<lambda>(ls, e). Inr (es # ls, e))))"

definition parse_exception_lists :: "string \<Rightarrow> int \<Rightarrow> bool \<Rightarrow> (hash_exception list list \<times> int) res" where
  "parse_exception_lists data cnt align_last =
     bind_res (exception_lists (nat cnt) data 0) (\<lambda>(ls, e).
       Inr (ls, if align_last \<and> cnt > 0 then align_to_4 e else e))"

definition write_at :: "string \<Rightarrow> nat \<Rightarrow> string \<Rightarrow> string" where
  "write_at data off bytes = take off data @ bytes @ drop (off + length bytes) data"

text \<open>The hashes of one block into its header, and their hash into the first header of the subgroup.\<close>

definition hash_block :: "codecs \<Rightarrow> string list \<Rightarrow> nat \<Rightarrow> string list \<Rightarrow> string list" where
  "hash_block cd blocks i headers =
     (let h = fold (\<lambda>c h. write_at h (c * 20) (cd_sha1 cd (take 0x400 (drop (c * 0x400) (blocks ! i))))) [0..<31] (headers ! i);
          hs = headers[i := h]; g = i div 8 * 8
      in hs[g := write_at (hs ! g) (0x280 + i mod 8 * 20) (cd_sha1 cd (take 620 h))])"

text \<open>The hash of a subgroup, and the first header's table into the seven others.\<close>

definition copy_subgroup :: "codecs \<Rightarrow> nat \<Rightarrow> string list \<times> string list \<Rightarrow> string list \<times> string list" where
  "copy_subgroup cd g st = (case st of (headers, hashes) \<Rightarrow>
     let source = headers ! (g * 8) in
     (fold (\<lambda>i hs. hs[g * 8 + i := write_at (hs ! (g * 8 + i)) 0x280 (take 0xC0 (drop 0x280 source))]) [1..<8] headers,
      hashes @ [cd_sha1 cd (take 160 (drop 0x280 source))]))"

definition build_wii_hash_blocks :: "codecs \<Rightarrow> string list \<Rightarrow> string list" where
  "build_wii_hash_blocks cd blocks =
     (let headers = fold (hash_block cd blocks) [0..<64] (replicate 64 (zeros WII_CLUSTER_HEADER_SIZE));
          (copied, hashes) = fold (copy_subgroup cd) [0..<8] (headers, []);
          h2 = concat hashes
      in map (\<lambda>h. fold (\<lambda>i h. write_at h (0x340 + i * 20) (take 20 (drop (i * 20) h2))) [0..<8] h) copied)"

fun apply_wii_hash_exceptions :: "string list \<Rightarrow> hash_exception list \<Rightarrow> string list res" where
  "apply_wii_hash_exceptions hs [] = Inr hs"
| "apply_wii_hash_exceptions hs ((off, h) # es) =
     (let i = off div WII_CLUSTER_HEADER_SIZE; j = off mod WII_CLUSTER_HEADER_SIZE in
      if \<not> (0 \<le> i \<and> i < int (length hs)) \<or> j + int (length h) > WII_CLUSTER_HEADER_SIZE then Inl ValueError
      else apply_wii_hash_exceptions (hs[nat i := write_at (hs ! nat i) (nat j) h]) es)"

section \<open>The reader and its caches\<close>

record rvz =
  rv_file :: string
  rv_length :: int
  rv_header :: string
  rv_chunk :: int
  rv_kind :: int
  rv_raw :: "raw_entry list"
  rv_groups :: "group_entry list"
  rv_partitions :: "wii_partition list"

type_synonym partition_group = "string \<times> hash_exception list list"

text \<open>The group caches of the partitions are one table, by partition and start of the group.\<close>

record rvz_cache =
  vc_raw :: "(int \<times> string) option"
  vc_part :: "(int \<times> partition_group) option"
  vc_wii :: "((wii_partition \<times> int) \<times> string) list"

type_synonym 'a rvz_op = "rvz_cache \<Rightarrow> 'a res \<times> rvz_cache"

definition give :: "'a \<Rightarrow> 'a rvz_op" where "give x c = (Inr x, c)"
definition of_res :: "'a res \<Rightarrow> 'a rvz_op" where "of_res r c = (r, c)"

definition then_op :: "'a rvz_op \<Rightarrow> ('a \<Rightarrow> 'b rvz_op) \<Rightarrow> 'b rvz_op" where
  "then_op m k c = (case m c of (Inl e, c1) \<Rightarrow> (Inl e, c1) | (Inr x, c1) \<Rightarrow> k x c1)"

definition group_at :: "rvz \<Rightarrow> int \<Rightarrow> group_entry res" where
  "group_at v i = (if 0 \<le> i \<and> i < int (length (rv_groups v)) then Inr (rv_groups v ! nat i) else Inl IndexError)"

text \<open>The data of a raw group, read from the file.\<close>

definition fetch_group :: "codecs \<Rightarrow> rvz \<Rightarrow> int \<Rightarrow> int \<Rightarrow> int \<Rightarrow> string res" where
  "fetch_group cd v i logical start =
     bind_res (group_at v i) (\<lambda>g.
       let stored = ge_size g AND GROUP_SIZE_MASK in
       if stored = 0 then Inr (zeros logical)
       else
         bind_res (read_fully (rv_file v) (push_bit 2 (ge_offset g)) stored) (\<lambda>encoded.
         bind_res (if uses_file_compression g
                   then decompress cd encoded (rv_kind v) (if ge_packed g > 0 then ge_packed g else logical)
                   else Inr encoded) (\<lambda>data.
           if ge_packed g > 0 then decode_rvz_packed data logical start
           else if int (length data) < logical then Inl ValueError
           else Inr (take (nat logical) data))))"

definition read_group :: "codecs \<Rightarrow> rvz \<Rightarrow> int \<Rightarrow> int \<Rightarrow> int \<Rightarrow> string rvz_op" where
  "read_group cd v i logical start c =
     (case vc_raw c of
        Some (j, d) \<Rightarrow>
          (if j = i \<and> int (length d) \<ge> logical then (Inr d, c)
           else (case fetch_group cd v i logical start of Inl e \<Rightarrow> (Inl e, c) | Inr x \<Rightarrow> (Inr x, c\<lparr>vc_raw := Some (i, x)\<rparr>)))
      | None \<Rightarrow> (case fetch_group cd v i logical start of Inl e \<Rightarrow> (Inl e, c) | Inr x \<Rightarrow> (Inr x, c\<lparr>vc_raw := Some (i, x)\<rparr>)))"

text \<open>The data of a group of a partition with its lists of exceptions; None where the data is too short.\<close>

definition fetch_partition_group :: "codecs \<Rightarrow> rvz \<Rightarrow> int \<Rightarrow> int \<Rightarrow> int \<Rightarrow> int \<Rightarrow> partition_group option res" where
  "fetch_partition_group cd v i logical start nl =
     bind_res (group_at v i) (\<lambda>g.
       let stored = ge_size g AND GROUP_SIZE_MASK in
       if stored = 0 then Inr (Some (zeros logical, replicate (nat nl) []))
       else
         bind_res (read_fully (rv_file v) (push_bit 2 (ge_offset g)) stored) (\<lambda>encoded.
         bind_res (if uses_file_compression g then decompress_unknown_size cd encoded else Inr encoded) (\<lambda>data.
         bind_res (parse_exception_lists data nl (\<not> uses_file_compression g)) (\<lambda>(ls, e).
           let packed = drop (nat e) data in
           if ge_packed g > 0
           then bind_res (decode_rvz_packed (padded (take (nat (ge_packed g)) packed) (ge_packed g)) logical start)
                  (\<lambda>d. Inr (Some (d, ls)))
           else if int (length packed) < logical then Inr None
           else Inr (Some (take (nat logical) packed, ls))))))"

definition read_partition_group :: "codecs \<Rightarrow> rvz \<Rightarrow> int \<Rightarrow> int \<Rightarrow> int \<Rightarrow> int \<Rightarrow> partition_group option rvz_op" where
  "read_partition_group cd v i logical start nl c =
     (let fetch = (case fetch_partition_group cd v i logical start nl of
            Inl e \<Rightarrow> (Inl e, c)
          | Inr None \<Rightarrow> (Inr None, c)
          | Inr (Some pg) \<Rightarrow> (Inr (Some pg), c\<lparr>vc_part := Some (i, pg)\<rparr>)) in
      case vc_part c of
        Some (j, pg) \<Rightarrow> (if j = i \<and> int (length (fst pg)) \<ge> logical then (Inr (Some pg), c) else fetch)
      | None \<Rightarrow> fetch)"

section \<open>Partitions of a Wii disc\<close>

definition wii_chunk_size :: "rvz \<Rightarrow> int" where
  "wii_chunk_size v = rv_chunk v * WII_CLUSTER_DATA_SIZE div SECTOR_SIZE"

definition entry_offset :: "wii_partition \<Rightarrow> data_entry \<Rightarrow> int" where
  "entry_offset p d = (de_first d - pt_first p) * WII_CLUSTER_DATA_SIZE"

definition entry_size :: "data_entry \<Rightarrow> int" where
  "entry_size d = de_sectors d * WII_CLUSTER_DATA_SIZE"

definition read_chunk :: "codecs \<Rightarrow> rvz \<Rightarrow> wii_partition \<Rightarrow> data_entry \<Rightarrow> int \<Rightarrow> partition_group option rvz_op" where
  "read_chunk cd v p d k =
     (let start = entry_offset p d + k * wii_chunk_size v in
      read_partition_group cd v (de_group d + k) (min (wii_chunk_size v) (entry_offset p d + entry_size d - start)) start
        (max 1 (wii_chunk_size v div WII_GROUP_DATA_SIZE)))"

text \<open>A block of 0x7C00 bytes; None where the source returns False.  A chunk size of zero divides by zero.\<close>

fun read_wii_partition_decrypted :: "codecs \<Rightarrow> rvz \<Rightarrow> wii_partition \<Rightarrow> data_entry list \<Rightarrow> int \<Rightarrow> string option rvz_op" where
  "read_wii_partition_decrypted cd v p [] off = give None"
| "read_wii_partition_decrypted cd v p (d # ds) off =
     (if \<not> (entry_offset p d \<le> off \<and> off < entry_offset p d + entry_size d) then read_wii_partition_decrypted cd v p ds off
      else if wii_chunk_size v = 0 then of_res (Inl ValueError)
      else
        let k = (off - entry_offset p d) div wii_chunk_size v in
        if k \<ge> de_count d then give None
        else then_op (read_chunk cd v p d k) (\<lambda>g. give (case g of
            None \<Rightarrow> None
          | Some (data, _) \<Rightarrow>
             (let at = off - (entry_offset p d + k * wii_chunk_size v) in
              if at + WII_CLUSTER_DATA_SIZE > int (length data) then None
              else Some (slice data at (at + WII_CLUSTER_DATA_SIZE))))))"

fun read_blocks :: "codecs \<Rightarrow> rvz \<Rightarrow> wii_partition \<Rightarrow> int \<Rightarrow> int list \<Rightarrow> string list option rvz_op" where
  "read_blocks cd v p start [] = give (Some [])"
| "read_blocks cd v p start (i # is) =
     (let off = start + i * WII_CLUSTER_DATA_SIZE in
      then_op (if off \<ge> decrypted_size p then give (Some (zeros WII_CLUSTER_DATA_SIZE))
               else read_wii_partition_decrypted cd v p (pt_entries p) off) (\<lambda>b. case b of
        None \<Rightarrow> give None
      | Some block \<Rightarrow> then_op (read_blocks cd v p start is) (\<lambda>r. give (map_option (\<lambda>bs. block # bs) r))))"

definition chunk_exceptions :: "rvz \<Rightarrow> int \<Rightarrow> int \<Rightarrow> partition_group \<Rightarrow> hash_exception list" where
  "chunk_exceptions v group_start start pg =
     (let nl = max 1 (wii_chunk_size v div WII_GROUP_DATA_SIZE);
          i = (if nl = 1 then 0 else (group_start - start) div WII_GROUP_DATA_SIZE);
          add = start mod WII_GROUP_DATA_SIZE div WII_CLUSTER_DATA_SIZE * WII_CLUSTER_HEADER_SIZE
      in if \<not> (0 \<le> i \<and> i < int (length (snd pg))) then []
         else map (\<lambda>(o1, h). (o1 + add, h)) (snd pg ! nat i))"

fun collect_chunks :: "codecs \<Rightarrow> rvz \<Rightarrow> wii_partition \<Rightarrow> data_entry \<Rightarrow> int \<Rightarrow> int list \<Rightarrow> hash_exception list rvz_op" where
  "collect_chunks cd v p d group_start [] = give []"
| "collect_chunks cd v p d group_start (k # ks) =
     (if k \<ge> de_count d then collect_chunks cd v p d group_start ks
      else then_op (read_chunk cd v p d k) (\<lambda>g.
        then_op (collect_chunks cd v p d group_start ks) (\<lambda>es. give (case g of
            None \<Rightarrow> es
          | Some pg \<Rightarrow> chunk_exceptions v group_start (entry_offset p d + k * wii_chunk_size v) pg @ es))))"

fun collect_wii_hash_exceptions :: "codecs \<Rightarrow> rvz \<Rightarrow> wii_partition \<Rightarrow> data_entry list \<Rightarrow> int \<Rightarrow> hash_exception list rvz_op" where
  "collect_wii_hash_exceptions cd v p [] group_start = give []"
| "collect_wii_hash_exceptions cd v p (d # ds) group_start =
     (let a = max (entry_offset p d) group_start;
          b = min (entry_offset p d + entry_size d) (group_start + WII_GROUP_DATA_SIZE)
      in if a \<ge> b then collect_wii_hash_exceptions cd v p ds group_start
         else if wii_chunk_size v = 0 then of_res (Inl ValueError)
         else then_op (collect_chunks cd v p d group_start
                [(a - entry_offset p d) div wii_chunk_size v .. (b - entry_offset p d - 1) div wii_chunk_size v]) (\<lambda>es.
              then_op (collect_wii_hash_exceptions cd v p ds group_start) (\<lambda>fs. give (es @ fs))))"

definition encrypt_block :: "codecs \<Rightarrow> string \<Rightarrow> string \<times> string \<Rightarrow> string res" where
  "encrypt_block cd key hb = (case hb of (header, block) \<Rightarrow>
     bind_res (of_option ValueError (cd_aes cd key ZERO_IV header)) (\<lambda>eh.
     bind_res (of_option ValueError (cd_aes cd key (slice eh 0x3D0 (0x3D0 + 16)) block)) (\<lambda>eb. Inr (eh @ eb))))"

definition get_encrypted_wii_group :: "codecs \<Rightarrow> rvz \<Rightarrow> wii_partition \<Rightarrow> int \<Rightarrow> string option rvz_op" where
  "get_encrypted_wii_group cd v p group_start c =
     (case map_of (vc_wii c) (p, group_start) of
        Some g \<Rightarrow> (Inr (Some g), c)
      | None \<Rightarrow>
          then_op (read_blocks cd v p group_start [0..WII_GROUP_BLOCK_COUNT - 1]) (\<lambda>r. case r of
            None \<Rightarrow> give None
          | Some blocks \<Rightarrow>
              then_op (collect_wii_hash_exceptions cd v p (pt_entries p) group_start) (\<lambda>es.
              then_op (of_res (apply_wii_hash_exceptions (build_wii_hash_blocks cd blocks) es)) (\<lambda>hs.
              then_op (of_res (map_res (encrypt_block cd (pt_key p)) (zip hs blocks))) (\<lambda>bs c1.
                (Inr (Some (concat bs)), c1\<lparr>vc_wii := AList.update (p, group_start) (concat bs) (vc_wii c1)\<rparr>))))) c)"

text \<open>Every turn of the loop adds a byte or more, so the number of bytes asked for is fuel enough.\<close>

fun read_wii_bytes :: "nat \<Rightarrow> codecs \<Rightarrow> rvz \<Rightarrow> wii_partition \<Rightarrow> int \<Rightarrow> int \<Rightarrow> string rvz_op" where
  "read_wii_bytes 0 cd v p off target = give []"
| "read_wii_bytes (Suc fuel) cd v p off target =
     (if off \<ge> target then give []
      else
        let group_start = (off - raw_data_offset p) div WII_GROUP_TOTAL_SIZE * WII_GROUP_DATA_SIZE in
        then_op (get_encrypted_wii_group cd v p group_start) (\<lambda>g. case g of
          None \<Rightarrow> give []
        | Some data \<Rightarrow>
           (let raw_start = raw_data_offset p + group_start div WII_CLUSTER_DATA_SIZE * SECTOR_SIZE;
                at = off - raw_start; n = min (int (length data) - at) (target - off)
            in then_op (read_wii_bytes fuel cd v p (off + n) target) (\<lambda>more. give (slice data at (at + n) @ more)))))"

definition partition_end :: "wii_partition \<Rightarrow> int" where
  "partition_end p = raw_data_offset p + pt_total p * SECTOR_SIZE"

definition read_wii_partition_bytes :: "codecs \<Rightarrow> rvz \<Rightarrow> wii_partition \<Rightarrow> int \<Rightarrow> int \<Rightarrow> string rvz_op" where
  "read_wii_partition_bytes cd v p off n =
     (let target = min (off + n) (partition_end p) in read_wii_bytes (nat (target - off)) cd v p off target)"

section \<open>Reading\<close>

definition find_wii_partition :: "rvz \<Rightarrow> int \<Rightarrow> wii_partition option" where
  "find_wii_partition v off = find (\<lambda>p. raw_data_offset p \<le> off \<and> off < partition_end p) (rv_partitions v)"

definition find_raw_entry :: "rvz \<Rightarrow> int \<Rightarrow> raw_entry option" where
  "find_raw_entry v off = find (\<lambda>e. re_start e \<le> off \<and> off < re_end e) (rv_raw v)"

definition group_start_of :: "rvz \<Rightarrow> raw_entry \<Rightarrow> int \<Rightarrow> int" where
  "group_start_of v e k = re_start e + k * rv_chunk v"

definition group_size_of :: "rvz \<Rightarrow> raw_entry \<Rightarrow> int \<Rightarrow> int" where
  "group_size_of v e k = min (rv_chunk v) (re_end e - group_start_of v e k)"

text \<open>The loop after the disc header, with the bytes still to read; each turn reads one or more.\<close>

fun read_loop :: "nat \<Rightarrow> codecs \<Rightarrow> rvz \<Rightarrow> int \<Rightarrow> int \<Rightarrow> string rvz_op" where
  "read_loop 0 cd v off left = give []"
| "read_loop (Suc fuel) cd v off left =
     (if left \<le> 0 then give []
      else case find_wii_partition v off of
        Some p \<Rightarrow>
          then_op (read_wii_partition_bytes cd v p off left) (\<lambda>chunk.
            if chunk = [] then give []
            else then_op (read_loop fuel cd v (off + int (length chunk)) (left - int (length chunk))) (\<lambda>more. give (chunk @ more)))
      | None \<Rightarrow>
         (case find_raw_entry v off of
            None \<Rightarrow> give []
          | Some e \<Rightarrow>
             (let k = (off - re_start e) div rv_chunk v; start = group_start_of v e k; logical = group_size_of v e k in
              if k \<ge> re_count e then give []
              else then_op (read_group cd v (re_group e + k) logical start) (\<lambda>data.
                let n = min (logical - (off - start)) left; part = slice data (off - start) (off - start + n)
                in then_op (read_loop fuel cd v (off + n) (left - int (length part))) (\<lambda>more. give (part @ more))))))"

definition rvz_read :: "codecs \<Rightarrow> rvz \<Rightarrow> int \<Rightarrow> int \<Rightarrow> string rvz_op" where
  "rvz_read cd v off n =
     (if off < 0 \<or> n \<le> 0 \<or> off \<ge> rv_length v then give []
      else
        let target = min n (rv_length v - off);
            h = (if off < DISC_HEADER_SIZE then min target (DISC_HEADER_SIZE - off) else 0);
            head = slice (rv_header v) off (off + h)
        in then_op (read_loop (nat target) cd v (off + h) (target - int (length head))) (\<lambda>more. give (head @ more)))"

section \<open>Opening\<close>

definition be_fields :: "string \<Rightarrow> (nat \<times> int) list \<Rightarrow> int list res" where
  "be_fields data fs = map_res (\<lambda>(n, off). be_at n data off) fs"

definition checked :: "bool \<Rightarrow> unit res" where
  "checked ok = (if ok then Inr () else Inl ValueError)"

definition read_partitions :: "codecs \<Rightarrow> string \<Rightarrow> string \<Rightarrow> int \<Rightarrow> int \<Rightarrow> int \<Rightarrow> bool \<Rightarrow> wii_partition list res" where
  "read_partitions cd file header2 cnt esize off wii =
     (if \<not> (wii \<and> cnt > 0) then Inr []
      else
        bind_res (read_fully file off (cnt * esize)) (\<lambda>data.
        bind_res (checked (cd_sha1 cd data = slice header2 0xA0 (0xA0 + 20))) (\<lambda>_.
          parse_partition_entries data cnt esize)))"

definition parse_rvz :: "codecs \<Rightarrow> string \<Rightarrow> rvz res" where
  "parse_rvz cd file =
     bind_res (read_fully file 0 HEADER_1_SIZE) (\<lambda>header1.
     bind_res (checked (take 4 header1 = RVZ_MAGIC)) (\<lambda>_.
     bind_res (be_u32 header1 0x0C) (\<lambda>header2_size.
     bind_res (checked (header2_size \<ge> HEADER_2_MIN_SIZE)) (\<lambda>_.
     bind_res (be_u64 header1 0x24) (\<lambda>iso_size.
     bind_res (checked (iso_size \<ge> DISC_HEADER_SIZE)) (\<lambda>_.
     bind_res (checked (cd_sha1 cd (slice header1 0 0x34) = slice header1 0x34 HEADER_1_SIZE)) (\<lambda>_.
     bind_res (read_fully file HEADER_1_SIZE header2_size) (\<lambda>header2.
     bind_res (checked (cd_sha1 cd header2 = slice header1 0x10 0x24)) (\<lambda>_.
     bind_res (be_u32 header2 0x00) (\<lambda>disc_type.
     bind_res (checked (disc_type \<in> {1, 2})) (\<lambda>_.
     bind_res (be_u32 header2 0x04) (\<lambda>kind.
     bind_res (checked (kind \<in> {COMPRESSION_NONE, COMPRESSION_ZSTD})) (\<lambda>_.
     bind_res (be_u32 header2 0x0C) (\<lambda>chunk.
     bind_res (checked (chunk > 0)) (\<lambda>_.
     bind_res (be_fields header2 [(4, 0x90), (4, 0x94), (8, 0x98), (4, 0xB4), (8, 0xB8), (4, 0xC0), (4, 0xC4), (8, 0xC8), (4, 0xD0)]) (\<lambda>fs.
     bind_res (read_partitions cd file header2 (fs ! 0) (fs ! 1) (fs ! 2) (disc_type = 2)) (\<lambda>partitions.
     bind_res (read_metadata_block cd file (fs ! 4) (fs ! 5) kind (fs ! 3 * RAW_DATA_ENTRY_SIZE)) (\<lambda>raw_bytes.
     bind_res (read_metadata_block cd file (fs ! 7) (fs ! 8) kind (fs ! 6 * GROUP_ENTRY_SIZE)) (\<lambda>group_bytes.
     bind_res (parse_raw_entries raw_bytes (fs ! 3)) (\<lambda>raws.
     bind_res (parse_group_entries group_bytes (fs ! 6)) (\<lambda>groups.
       Inr \<lparr>rv_file = file, rv_length = iso_size, rv_header = slice header2 0x10 (0x10 + DISC_HEADER_SIZE), rv_chunk = chunk,
         rv_kind = kind, rv_raw = raws, rv_groups = groups, rv_partitions = partitions\<rparr>)))))))))))))))))))))"

definition open_rvz :: "codecs \<Rightarrow> string \<Rightarrow> rvz option" where
  "open_rvz cd file = (case parse_rvz cd file of Inl _ \<Rightarrow> None | Inr v \<Rightarrow> Some v)"

definition no_cache :: rvz_cache where
  "no_cache = \<lparr>vc_raw = None, vc_part = None, vc_wii = []\<rparr>"

end
