(* ===== verification/Rvz_Laws.thy ===== *)
theory Rvz_Laws
  imports Rvz_Reader Gamelist_Laws
begin

text \<open>
  What the reader of RVZ images promises: the packed form unpacks to the records it was made of, the filling
  continues one stream of words, and reading a GameCube disc gives the bytes of one image whatever was read
  before and in whatever pieces.
\<close>

section \<open>The file\<close>

lemma read_fully_exact:
  assumes "0 \<le> off" and "0 < n"
  shows "read_fully file off n = (if off + n \<le> int (length file) then Inr (slice file off (off + n)) else Inl ValueError)"
proof (cases "off + n \<le> int (length file)")
  case True
  have "length (source_read file off n) = nat n"
    using True assms by (simp add: source_read_def)
  then show ?thesis
    using True assms by (subst read_fully.simps) (auto simp: Let_def read_fully.simps[of _ _ 0] slice_def source_read_def)
next
  case False
  let ?chunk = "source_read file off n"
  have "n - int (length ?chunk) > 0"
    and rest: "source_read file (off + int (length ?chunk)) (n - int (length ?chunk)) = []"
    using False assms by (auto simp: source_read_def)
  then have "read_fully file (off + int (length ?chunk)) (n - int (length ?chunk)) = Inl ValueError"
    by (subst read_fully.simps) (simp add: Let_def)
  then have "read_fully file off n = Inl ValueError"
    using assms read_fully.simps[of "file" off n] by (cases "?chunk = []") (simp_all add: Let_def)
  then show ?thesis
    using False by simp
qed

section \<open>The pseudo-random filling\<close>

text \<open>The words of the generator: its state is the buffer and the index of the next word.\<close>

definition lfg_turn :: "32 word list \<times> nat \<Rightarrow> 32 word list \<times> nat" where
  "lfg_turn st = (if snd st = length (fst st) then (advance_lagged_fibonacci (fst st), 0) else st)"

definition lfg_next :: "32 word list \<times> nat \<Rightarrow> 32 word list \<times> nat" where
  "lfg_next st = (fst (lfg_turn st), snd (lfg_turn st) + 1)"

definition lfg_value :: "32 word list \<times> nat \<Rightarrow> 32 word" where
  "lfg_value st = fst (lfg_turn st) ! snd (lfg_turn st)"

fun lfg_stream :: "nat \<Rightarrow> 32 word list \<times> nat \<Rightarrow> string" where
  "lfg_stream 0 st = []"
| "lfg_stream (Suc m) st = word_bytes (lfg_value st) @ lfg_stream m (lfg_next st)"

lemma length_word_bytes [simp]: "length (word_bytes w) = 4"
  by (simp add: word_bytes_def)

lemma length_lfg_stream [simp]: "length (lfg_stream m st) = 4 * m"
  by (induction m arbitrary: st) auto

lemma lfg_stream_add: "lfg_stream (a + b) st = lfg_stream a st @ lfg_stream b ((lfg_next ^^ a) st)"
  by (induction a arbitrary: st) (auto simp: funpow_swap1)

lemma write_lfg:
  "write_lagged_fibonacci_bytes b n i =
    (take n (lfg_stream ((n + 3) div 4) (b, i)), (lfg_next ^^ ((n + 3) div 4)) (b, i))"
proof (induction n arbitrary: b i rule: less_induct)
  case (less n)
  show ?case
  proof (cases "n = 0")
    case True
    then show ?thesis by (simp add: write_lagged_fibonacci_bytes.simps)
  next
    case False
    define m where "m = n - min 4 n"
    have m: "m < n" "(n + 3) div 4 = Suc ((m + 3) div 4)" "n = min 4 n + m"
      using False by (auto simp: m_def min_def)
    have turn: "(if i = length b then (advance_lagged_fibonacci b, 0) else (b, i)) = lfg_turn (b, i)"
      by (simp add: lfg_turn_def)
    have "write_lagged_fibonacci_bytes b n i =
        (take (min 4 n) (word_bytes (lfg_value (b, i))) @ take m (lfg_stream ((m + 3) div 4) (lfg_next (b, i))),
         (lfg_next ^^ ((m + 3) div 4)) (lfg_next (b, i)))"
      using False less.IH[OF m(1)]
      by (subst write_lagged_fibonacci_bytes.simps)
        (simp add: turn m_def[symmetric] lfg_value_def lfg_next_def[of "(b, i)"] split: prod.split)
    moreover have "take (min 4 n) (word_bytes (lfg_value (b, i))) @ take m (lfg_stream ((m + 3) div 4) (lfg_next (b, i))) =
        take n (lfg_stream (Suc ((m + 3) div 4)) (b, i))"
      by (cases "n < 4") (auto simp: m_def)
    ultimately show ?thesis
      by (simp add: m(2) funpow_swap1)
  qed
qed

text \<open>C32: 
  The filling of a place in a sector is read from the stream of its seed, from the first word that
  begins at that place or after it.
\<close>

theorem filling_from_next_word:
  assumes "skip = nat (absolute mod SECTOR_SIZE)" and "(skip + 3) div 4 + (n + 3) div 4 \<le> m"
  shows "generate_rvz_bytes seed n absolute = take n (drop (4 * ((skip + 3) div 4)) (lfg_stream m (lfg_start seed, 0)))"
proof -
  let ?a = "(skip + 3) div 4" and ?b = "(n + 3) div 4"
  obtain r where m: "m = ?a + (?b + r)"
    using assms(2) by (metis add.assoc le_Suc_ex)
  have "generate_rvz_bytes seed n absolute = take n (lfg_stream ?b ((lfg_next ^^ ?a) (lfg_start seed, 0)))"
    by (cases "skip = 0") (auto simp: generate_rvz_bytes_def Let_def write_lfg assms(1) split: prod.splits)
  also have "\<dots> = take n (lfg_stream (?b + r) ((lfg_next ^^ ?a) (lfg_start seed, 0)))"
    by (simp add: lfg_stream_add)
  also have "\<dots> = take n (drop (4 * ?a) (lfg_stream m (lfg_start seed, 0)))"
    unfolding m lfg_stream_add[of ?a] by simp
  finally show ?thesis .
qed

theorem filling_from_next_word_witness:
  "generate_rvz_bytes (replicate 17 7) 5 0x8001 = take 5 (drop 4 (lfg_stream 3 (lfg_start (replicate 17 7), 0)))"
  using filling_from_next_word[of 1 "0x8001" 5 3 "replicate 17 7"] by (simp add: SECTOR_SIZE_def)

section \<open>The packed form\<close>

text \<open>What the writer of an image packs: bytes as they are, and runs of the filling of a seed.\<close>

datatype packed_record = Plain_Bytes string | Filling "32 word list" nat

fun record_length :: "packed_record \<Rightarrow> nat" where
  "record_length (Plain_Bytes s) = length s"
| "record_length (Filling seed n) = n"

fun wf_record :: "packed_record \<Rightarrow> bool" where
  "wf_record (Plain_Bytes s) = (length s < 2 ^ 31)"
| "wf_record (Filling seed n) = (length seed = 17 \<and> n < 2 ^ 31)"

definition seed_bytes :: "32 word list \<Rightarrow> string" where
  "seed_bytes seed = concat (map (\<lambda>w. be32_bytes (unat w)) seed)"

fun record_bytes :: "packed_record \<Rightarrow> string" where
  "record_bytes (Plain_Bytes s) = be32_bytes (length s) @ s"
| "record_bytes (Filling seed n) = be32_bytes (2 ^ 31 + n) @ seed_bytes seed"

fun record_image :: "packed_record \<Rightarrow> int \<Rightarrow> string" where
  "record_image (Plain_Bytes s) place = s"
| "record_image (Filling seed n) place = generate_rvz_bytes seed n place"

definition packed_bytes :: "packed_record list \<Rightarrow> string" where
  "packed_bytes rs = concat (map record_bytes rs)"

fun packed_image :: "packed_record list \<Rightarrow> int \<Rightarrow> string" where
  "packed_image [] place = []"
| "packed_image (r # rs) place = record_image r place @ packed_image rs (place + int (record_length r))"

lemma length_seed_bytes [simp]: "length (seed_bytes seed) = 4 * length seed"
  by (induction seed) (auto simp: seed_bytes_def)

lemma seed_word: "i < length seed \<Longrightarrow> take 4 (drop (4 * i) (seed_bytes seed)) = be32_bytes (unat (seed ! i))"
proof (induction seed arbitrary: i)
  case (Cons w seed)
  then show ?case
    by (cases i) (auto simp: seed_bytes_def)
qed simp

lemma unat_32_less: "unat (w :: 32 word) < 2 ^ 32"
  using unsigned_less[of w, where 'a = nat] by simp

lemma read_seed_bytes: "length seed = 17 \<Longrightarrow> read_seed (seed_bytes seed) = seed"
  unfolding read_seed_def
  by (rule nth_equalityI) (auto simp: seed_word unat_32_less[simplified])

lemma record_bytes_nonempty: "wf_record r \<Longrightarrow> record_bytes r \<noteq> []"
  by (cases r) (auto simp flip: length_0_conv)

lemma packed_image_nothing:
  assumes "\<forall>r\<in>set rs. wf_record r" and "sum_list (map record_length rs) = 0"
  shows "packed_image rs place = []"
  using assms
proof (induction rs arbitrary: place)
  case (Cons r rs)
  then show ?case
    by (cases r) (auto simp: generate_rvz_bytes_def Let_def write_lagged_fibonacci_bytes.simps split: prod.splits)
qed simp

lemma decode_plain:
  assumes "length s < 2 ^ 31" and "length s \<le> missing" and "0 < missing"
  shows "decode_records (record_bytes (Plain_Bytes s) @ tail) missing place =
    bind_res (decode_records tail (missing - length s) (place + int (length s))) (\<lambda>d. Inr (s @ d))"
proof -
  have "be32_bytes (length s) \<noteq> []"
    by (simp flip: length_0_conv)
  then show ?thesis
    using assms by (subst decode_records.simps) (simp add: Let_def)
qed

lemma decode_filling:
  assumes "length seed = 17" and "n < 2 ^ 31" and "n \<le> missing" and "0 < missing"
  shows "decode_records (record_bytes (Filling seed n) @ tail) missing place =
    bind_res (decode_records tail (missing - n) (place + int n)) (\<lambda>d. Inr (generate_rvz_bytes seed n place @ d))"
proof -
  have "be32_bytes (2 ^ 31 + n) \<noteq> []" "be_nat (be32_bytes (2 ^ 31 + n)) = 2 ^ 31 + n"
    using assms(2) by (simp_all flip: length_0_conv)
  then show ?thesis
    using assms read_seed_bytes[OF assms(1)]
    by (subst decode_records.simps) (simp add: Let_def SEED_SIZE_def)
qed

lemma decode_packed:
  assumes "\<forall>r\<in>set rs. wf_record r" and "sum_list (map record_length rs) \<le> missing"
  shows "decode_records (packed_bytes rs) missing place =
    (if sum_list (map record_length rs) = missing then Inr (packed_image rs place) else Inl ValueError)"
  using assms
proof (induction rs arbitrary: missing place)
  case Nil
  then show ?case
    by (simp add: packed_bytes_def decode_records.simps)
next
  case (Cons r rs)
  show ?case
  proof (cases "missing = 0")
    case True
    then show ?thesis
      using Cons.prems packed_image_nothing[OF Cons.prems(1), of place] by (simp add: decode_records.simps)
  next
    case False
    have "decode_records (packed_bytes (r # rs)) missing place =
        bind_res (decode_records (packed_bytes rs) (missing - record_length r) (place + int (record_length r)))
          (\<lambda>d. Inr (record_image r place @ d))"
      using Cons.prems False
      by (cases r) (simp_all add: packed_bytes_def decode_plain decode_filling del: record_bytes.simps)
    then show ?thesis
      using Cons by auto
  qed
qed

text \<open>C31: 
  The packed form of records unpacks to their images one after the other, each filling at its own
  place in the image; a group that is not full is refused.
\<close>

theorem packed_records_unpack:
  assumes "\<forall>r\<in>set rs. wf_record r" and "sum_list (map record_length rs) \<le> nat logical"
  shows "decode_rvz_packed (packed_bytes rs) logical start =
    (if sum_list (map record_length rs) = nat logical then Inr (packed_image rs start) else Inl ValueError)"
  using assms decode_packed[of rs "nat logical" start] by (simp add: decode_rvz_packed_def)

theorem packed_records_unpack_witness:
  "decode_rvz_packed (packed_bytes [Plain_Bytes ''ab'', Filling (replicate 17 7) 3]) 5 0x8000 =
     Inr (''ab'' @ generate_rvz_bytes (replicate 17 7) 3 0x8002)
   \<and> decode_rvz_packed (packed_bytes [Plain_Bytes ''ab'', Filling (replicate 17 7) 3]) 6 0x8000 = Inl ValueError"
  using packed_records_unpack[of "[Plain_Bytes ''ab'', Filling (replicate 17 7) 3]" 5 "0x8000"]
    packed_records_unpack[of "[Plain_Bytes ''ab'', Filling (replicate 17 7) 3]" 6 "0x8000"]
  by simp

section \<open>Reading a GameCube disc\<close>

text \<open>The byte of the image at an offset: the disc header first, then the group that holds the offset.\<close>

definition group_of :: "rvz \<Rightarrow> raw_entry \<Rightarrow> int \<Rightarrow> int" where
  "group_of v e off = (off - re_start e) div rv_chunk v"

definition entry_group :: "codecs \<Rightarrow> rvz \<Rightarrow> raw_entry \<Rightarrow> int \<Rightarrow> string res" where
  "entry_group cd v e k = fetch_group cd v (re_group e + k) (group_size_of v e k) (group_start_of v e k)"

definition image_byte :: "codecs \<Rightarrow> rvz \<Rightarrow> int \<Rightarrow> char" where
  "image_byte cd v off =
     (if off < DISC_HEADER_SIZE then rv_header v ! nat off
      else case find_raw_entry v off of
        None \<Rightarrow> CHR 0x00
      | Some e \<Rightarrow> (case entry_group cd v e (group_of v e off) of
          Inl _ \<Rightarrow> CHR 0x00 | Inr d \<Rightarrow> d ! nat (off - group_start_of v e (group_of v e off))))"

definition disc_image :: "codecs \<Rightarrow> rvz \<Rightarrow> string" where
  "disc_image cd v = map (image_byte cd v) [0..rv_length v - 1]"

text \<open>A disc that can be read: every offset lies in one entry and its group is there, and no two groups share an index.\<close>

definition readable_at :: "codecs \<Rightarrow> rvz \<Rightarrow> int \<Rightarrow> bool" where
  "readable_at cd v off = (case find_raw_entry v off of
     None \<Rightarrow> False
   | Some e \<Rightarrow> group_of v e off < re_count e \<and> (case entry_group cd v e (group_of v e off) of Inl _ \<Rightarrow> False | Inr _ \<Rightarrow> True))"

definition entry_groups :: "rvz \<Rightarrow> (raw_entry \<times> int) list" where
  "entry_groups v = concat (map (\<lambda>e. map (\<lambda>k. (e, k)) [0..re_count e - 1]) (rv_raw v))"

definition gamecube_disc :: "codecs \<Rightarrow> rvz \<Rightarrow> bool" where
  "gamecube_disc cd v =
     (rv_partitions v = [] \<and> 0 < rv_chunk v \<and> int (length (rv_header v)) = DISC_HEADER_SIZE
      \<and> DISC_HEADER_SIZE \<le> rv_length v
      \<and> (\<forall>a\<in>set (rv_raw v). \<forall>b\<in>set (rv_raw v). a = b \<or> re_end a \<le> re_start b \<or> re_end b \<le> re_start a)
      \<and> distinct (map (\<lambda>(e, k). re_group e + k) (entry_groups v))
      \<and> list_all (readable_at cd v) [DISC_HEADER_SIZE..rv_length v - 1])"

definition cache_true :: "codecs \<Rightarrow> rvz \<Rightarrow> rvz_cache \<Rightarrow> bool" where
  "cache_true cd v c = (case vc_raw c of
     None \<Rightarrow> True
   | Some (i, d) \<Rightarrow> list_ex (\<lambda>(e, k). i = re_group e + k \<and> entry_group cd v e k = Inr d) (entry_groups v))"

lemma length_generated [simp]: "length (generate_rvz_bytes seed n place) = n"
  by (auto simp: generate_rvz_bytes_def Let_def write_lfg split: prod.splits)

lemma length_decoded: "decode_records packed missing place = Inr d \<Longrightarrow> length d = missing"
proof (induction "length packed" arbitrary: packed missing place d rule: less_induct)
  case less
  have shorter: "decode_records (drop n (drop 4 packed)) m p = Inr x \<Longrightarrow> packed \<noteq> [] \<Longrightarrow> length x = m" for n m p x
    by (rule less.hyps[of "drop n (drop 4 packed)"]) simp_all
  show ?case
    using less.prems
    by (subst (asm) decode_records.simps)
      (auto simp: Let_def bind_res_Inr_iff simp del: drop_drop split: if_splits dest!: shorter)
qed

lemma take_long: "\<not> int (length x) < n \<Longrightarrow> take (nat n) x = y \<Longrightarrow> length y = nat n"
  by auto

lemma length_fetched: "fetch_group cd v i logical start = Inr d \<Longrightarrow> length d = nat logical"
  by (auto simp: fetch_group_def Let_def bind_res_Inr_iff decode_rvz_packed_def zeros_def
      split: if_splits dest: length_decoded take_long)

lemma found_entry:
  "find_raw_entry v off = Some e \<Longrightarrow> e \<in> set (rv_raw v) \<and> re_start e \<le> off \<and> off < re_end e"
  by (auto simp: find_raw_entry_def find_Some_iff)

lemma found_entry_unique:
  assumes "gamecube_disc cd v" and "e \<in> set (rv_raw v)" and "re_start e \<le> x" and "x < re_end e"
  shows "find_raw_entry v x = Some e"
proof (cases "find_raw_entry v x")
  case None
  then show ?thesis
    using assms by (auto simp: find_raw_entry_def find_None_iff)
next
  case (Some a)
  then show ?thesis
    using assms found_entry[OF Some] by (fastforce simp: gamecube_disc_def)
qed

lemma entry_groups_iff: "(e, k) \<in> set (entry_groups v) \<longleftrightarrow> e \<in> set (rv_raw v) \<and> 0 \<le> k \<and> k < re_count e"
  by (auto simp: entry_groups_def image_iff)

lemma cached_group:
  assumes "gamecube_disc cd v" and "cache_true cd v c" and "vc_raw c = Some (re_group e + k, d)"
    and "(e, k) \<in> set (entry_groups v)"
  shows "entry_group cd v e k = Inr d"
proof -
  obtain a j where "(a, j) \<in> set (entry_groups v)" "re_group e + k = re_group a + j" "entry_group cd v a j = Inr d"
    using assms(2,3) by (auto simp: cache_true_def list_ex_iff)
  moreover have "inj_on (\<lambda>(e, k). re_group e + k) (set (entry_groups v))"
    using assms(1) by (simp add: gamecube_disc_def distinct_map)
  ultimately have "(a, j) = (e, k)"
    using assms(4) inj_onD[of "\<lambda>(e, k). re_group e + k" _ "(a, j)" "(e, k)"] by simp
  then show ?thesis
    using \<open>entry_group cd v a j = Inr d\<close> by simp
qed

lemma read_group_true:
  assumes "gamecube_disc cd v" and "cache_true cd v c" and "(e, k) \<in> set (entry_groups v)" and "entry_group cd v e k = Inr d"
  obtains c1 where "read_group cd v (re_group e + k) (group_size_of v e k) (group_start_of v e k) c = (Inr d, c1)"
    and "cache_true cd v c1"
proof -
  let ?c = "c\<lparr>vc_raw := Some (re_group e + k, d)\<rparr>"
  have fetched: "fetch_group cd v (re_group e + k) (group_size_of v e k) (group_start_of v e k) = Inr d"
    using assms(4) by (simp add: entry_group_def)
  have new: "cache_true cd v ?c"
    using assms(3,4) by (auto simp: cache_true_def list_ex_iff intro!: bexI[of _ "(e, k)"])
  show ?thesis
  proof (cases "\<exists>x. vc_raw c = Some (re_group e + k, x)")
    case True
    then obtain x where x: "vc_raw c = Some (re_group e + k, x)" by blast
    then have "x = d"
      using cached_group[OF assms(1,2) x assms(3)] assms(4) by simp
    then show ?thesis
      using that[of c] x assms(2) length_fetched[OF fetched] by (auto simp: read_group_def)
  next
    case False
    then have "read_group cd v (re_group e + k) (group_size_of v e k) (group_start_of v e k) c = (Inr d, ?c)"
      by (auto simp: read_group_def fetched split: option.split)
    then show ?thesis
      using that new by blast
  qed
qed

lemma group_index_bounds:
  assumes "0 < rv_chunk v" and "re_start e \<le> off"
  shows "0 \<le> group_of v e off" and "group_start_of v e (group_of v e off) \<le> off"
    and "off < group_start_of v e (group_of v e off) + rv_chunk v"
proof -
  define q m where "q = (off - re_start e) div rv_chunk v" and "m = (off - re_start e) mod rv_chunk v"
  have "off - re_start e = rv_chunk v * q + m" "0 \<le> m" "m < rv_chunk v" "0 \<le> q"
    using assms by (simp_all add: q_def m_def pos_imp_zdiv_nonneg_iff)
  then show "0 \<le> group_of v e off" "group_start_of v e (group_of v e off) \<le> off"
    "off < group_start_of v e (group_of v e off) + rv_chunk v"
    by (simp_all add: group_of_def group_start_of_def q_def[symmetric] mult.commute)
qed

lemma same_group:
  assumes "0 < rv_chunk v" and "group_start_of v e k \<le> x" and "x < group_start_of v e k + rv_chunk v"
  shows "group_of v e x = k"
proof -
  define r where "r = x - group_start_of v e k"
  have "x - re_start e = r + k * rv_chunk v" "0 \<le> r" "r < rv_chunk v"
    using assms by (simp_all add: group_start_of_def r_def)
  then show ?thesis
    using assms(1) by (simp add: group_of_def div_pos_pos_trivial)
qed

text \<open>The part of a group that a turn of the loop appends is that part of the image.\<close>

lemma group_part:
  assumes "gamecube_disc cd v" and "e \<in> set (rv_raw v)" and "entry_group cd v e k = Inr d"
    and "DISC_HEADER_SIZE \<le> off" and "re_start e \<le> off" and "group_start_of v e k \<le> off"
    and "off + n \<le> group_start_of v e k + group_size_of v e k"
  shows "slice d (off - group_start_of v e k) (off - group_start_of v e k + n) = map (image_byte cd v) [off..off + n - 1]"
proof (rule nth_equalityI)
  have len: "length d = nat (group_size_of v e k)"
    using assms(3) length_fetched by (auto simp: entry_group_def)
  then show same: "length (slice d (off - group_start_of v e k) (off - group_start_of v e k + n)) =
      length (map (image_byte cd v) [off..off + n - 1])"
    using assms(6,7) by (auto simp: slice_def)
  fix i
  assume "i < length (slice d (off - group_start_of v e k) (off - group_start_of v e k + n))"
  then have i: "int i < n"
    using same by simp
  let ?x = "off + int i"
  have "?x < group_start_of v e k + rv_chunk v" "?x < re_end e" "0 < rv_chunk v"
    using assms(1,7) i by (auto simp: group_size_of_def gamecube_disc_def min_def split: if_splits)
  then have "group_of v e ?x = k" "find_raw_entry v ?x = Some e"
    using same_group[of v e k ?x] found_entry_unique[OF assms(1,2), of ?x] assms(5,6) by auto
  then have "image_byte cd v ?x = d ! nat (?x - group_start_of v e k)"
    using assms(3,4) by (simp add: image_byte_def)
  moreover have "nat (?x - group_start_of v e k) = nat (off - group_start_of v e k) + i"
    using assms(6) by simp
  ultimately show "slice d (off - group_start_of v e k) (off - group_start_of v e k + n) ! i = map (image_byte cd v) [off..off + n - 1] ! i"
    using i len assms(6,7) by (simp add: slice_def nth_append)
qed

lemma readable_offset:
  assumes "gamecube_disc cd v" and "DISC_HEADER_SIZE \<le> off" and "off < rv_length v"
  obtains e d where "find_raw_entry v off = Some e" and "(e, group_of v e off) \<in> set (entry_groups v)"
    and "entry_group cd v e (group_of v e off) = Inr d" and "group_of v e off < re_count e"
proof -
  have "readable_at cd v off"
    using assms by (auto simp: gamecube_disc_def list_all_iff)
  then obtain e d where e: "find_raw_entry v off = Some e" "group_of v e off < re_count e"
      "entry_group cd v e (group_of v e off) = Inr d"
    by (auto simp: readable_at_def split: option.splits sum.splits)
  moreover have "0 \<le> group_of v e off"
    using assms(1) found_entry[OF e(1)] by (auto simp: gamecube_disc_def group_index_bounds)
  ultimately show ?thesis
    using that found_entry[OF e(1)] by (auto simp: entry_groups_iff)
qed

lemma upto_parts: "0 \<le> n \<Longrightarrow> n \<le> m \<Longrightarrow> [off..off + m - 1] = [off..off + n - 1] @ [off + n..off + m - (1 :: int)]"
  using upto_split2[of off "off + n - 1" "off + m - 1"] by (cases "n = 0") auto

lemma read_loop_image:
  assumes disc: "gamecube_disc cd v"
  shows "\<lbrakk>cache_true cd v c; DISC_HEADER_SIZE \<le> off \<or> left = 0; 0 \<le> left; off + left \<le> rv_length v; nat left \<le> fuel\<rbrakk>
    \<Longrightarrow> \<exists>c1. read_loop fuel cd v off left c = (Inr (map (image_byte cd v) [off..off + left - 1]), c1) \<and> cache_true cd v c1"
proof (induction fuel arbitrary: off left c)
  case 0
  then show ?case by (simp add: give_def)
next
  case (Suc fuel)
  show ?case
  proof (cases "left = 0")
    case True
    then show ?thesis using Suc.prems(1) by (simp add: give_def)
  next
    case False
    then have off: "DISC_HEADER_SIZE \<le> off" "off < rv_length v"
      using Suc.prems by auto
    obtain e d where e: "find_raw_entry v off = Some e" "(e, group_of v e off) \<in> set (entry_groups v)"
        "entry_group cd v e (group_of v e off) = Inr d" "group_of v e off < re_count e"
      by (rule readable_offset[OF disc off])
    define k n where "k = group_of v e off" and "n = min (group_size_of v e k - (off - group_start_of v e k)) left"
    obtain c1 where c1: "read_group cd v (re_group e + k) (group_size_of v e k) (group_start_of v e k) c = (Inr d, c1)"
        "cache_true cd v c1"
      using read_group_true[OF disc Suc.prems(1) e(2,3)] unfolding k_def by blast
    have chunk: "0 < rv_chunk v" "rv_partitions v = []"
      using disc by (auto simp: gamecube_disc_def)
    have bounds: "re_start e \<le> off" "off < re_end e" "group_start_of v e k \<le> off"
        "off < group_start_of v e k + rv_chunk v"
      using found_entry[OF e(1)] group_index_bounds[OF chunk(1), of e off] by (auto simp: k_def)
    then have n: "0 < n" "n \<le> left" "off + n \<le> group_start_of v e k + group_size_of v e k"
      using False Suc.prems(3) by (auto simp: n_def group_size_of_def)
    have part: "slice d (off - group_start_of v e k) (off - group_start_of v e k + n) = map (image_byte cd v) [off..off + n - 1]"
      using group_part[OF disc _ e(3)[folded k_def] off(1) bounds(1,3) n(3)] found_entry[OF e(1)] by blast
    obtain c2 where c2: "read_loop fuel cd v (off + n) (left - n) c1 = (Inr (map (image_byte cd v) [off + n..off + left - 1]), c2)"
        "cache_true cd v c2"
      using Suc.IH[OF c1(2), of "off + n" "left - n"] Suc.prems off n by (auto simp: nat_le_iff)
    have "read_loop (Suc fuel) cd v off left c =
        (Inr (map (image_byte cd v) [off..off + n - 1] @ map (image_byte cd v) [off + n..off + left - 1]), c2)"
      using False Suc.prems(3) e(1) e(4) c1(1) c2(1) chunk n(1)
      by (simp add: find_wii_partition_def k_def[symmetric] group_of_def[symmetric] Let_def then_op_def give_def n_def[symmetric] part)
    then show ?thesis
      using c2(2) upto_parts[of n left off] n(1,2) by simp
  qed
qed

text \<open>What a read asks for, of the image.\<close>

definition image_slice :: "codecs \<Rightarrow> rvz \<Rightarrow> int \<Rightarrow> int \<Rightarrow> string" where
  "image_slice cd v off n = (if off < 0 then [] else slice (disc_image cd v) off (off + n))"

lemma drop_upto: "0 \<le> a \<Longrightarrow> drop (nat a) [0..j] = [a..j]"
  by (rule nth_equalityI) (auto simp: nth_upto)

lemma take_upto:
  assumes "0 \<le> n"
  shows "take (nat n) [a..j] = [a..min (a + n - 1) j]"
proof (rule nth_equalityI)
  fix i
  assume "i < length (take (nat n) [a..j])"
  then have "a + int i \<le> min (a + n - 1) j" "i < nat n"
    by auto
  then show "take (nat n) [a..j] ! i = [a..min (a + n - 1) j] ! i"
    by (simp add: nth_upto)
qed (use assms in \<open>auto simp: min_def\<close>)

lemma image_slice_eq:
  assumes "0 \<le> off" and "0 < n" and "off < rv_length v"
  shows "image_slice cd v off n = map (image_byte cd v) [off..off + min n (rv_length v - off) - 1]"
proof -
  have "min (off + n - 1) (rv_length v - 1) = off + min n (rv_length v - off) - 1"
    by simp
  then show ?thesis
    using assms by (simp add: image_slice_def disc_image_def slice_def take_map drop_map drop_upto take_upto)
qed

lemma rvz_read_image:
  assumes disc: "gamecube_disc cd v" and "cache_true cd v c"
  obtains c1 where "rvz_read cd v off n c = (Inr (image_slice cd v off n), c1)" and "cache_true cd v c1"
proof (cases "off < 0 \<or> n \<le> 0 \<or> off \<ge> rv_length v")
  case True
  then have "image_slice cd v off n = []"
    by (auto simp: image_slice_def slice_def disc_image_def)
  then show ?thesis
    using True assms(2) that[of c] by (simp add: rvz_read_def give_def)
next
  case False
  define target h where "target = min n (rv_length v - off)"
    and "h = (if off < DISC_HEADER_SIZE then min target (DISC_HEADER_SIZE - off) else 0)"
  have bounds: "0 \<le> off" "0 < target" "0 \<le> h" "h \<le> target" "off + target \<le> rv_length v"
    "DISC_HEADER_SIZE \<le> off + h \<or> target - h = 0" "off + h \<le> DISC_HEADER_SIZE \<or> h = 0"
    using False by (auto simp: target_def h_def)
  have "int (length (rv_header v)) = DISC_HEADER_SIZE"
    using disc by (simp add: gamecube_disc_def)
  then have head: "slice (rv_header v) off (off + h) = map (image_byte cd v) [off..off + h - 1]"
    using bounds(1,3,7) by (intro nth_equalityI) (auto simp: slice_def image_byte_def nat_add_distrib)
  then have "int (length (slice (rv_header v) off (off + h))) = h"
    using bounds(3) by simp
  moreover obtain c1 where c1: "read_loop (nat target) cd v (off + h) (target - h) c =
        (Inr (map (image_byte cd v) [off + h..off + target - 1]), c1)" "cache_true cd v c1"
    using read_loop_image[OF disc assms(2), of "off + h" "target - h" "nat target"] bounds
      nat_mono[of "target - h" target] by auto
  ultimately have "rvz_read cd v off n c =
      (Inr (map (image_byte cd v) [off..off + h - 1] @ map (image_byte cd v) [off + h..off + target - 1]), c1)"
    using False by (simp add: rvz_read_def Let_def then_op_def give_def head target_def[symmetric] h_def[symmetric])
  then show ?thesis
    using that c1(2) upto_parts[of h target off] bounds False image_slice_eq[of off n v cd] by (simp add: target_def[symmetric])
qed

text \<open>Reads one after the other, with the caches they leave.\<close>

fun reads :: "codecs \<Rightarrow> rvz \<Rightarrow> (int \<times> int) list \<Rightarrow> rvz_cache \<Rightarrow> string res list" where
  "reads cd v [] c = []"
| "reads cd v ((off, n) # rs) c = fst (rvz_read cd v off n c) # reads cd v rs (snd (rvz_read cd v off n c))"

lemma reads_from_true_cache:
  "gamecube_disc cd v \<Longrightarrow> cache_true cd v c \<Longrightarrow> reads cd v rs c = map (\<lambda>(off, n). Inr (image_slice cd v off n)) rs"
proof (induction rs arbitrary: c)
  case (Cons r rs)
  obtain off n where r: "r = (off, n)" by fastforce
  obtain c1 where "rvz_read cd v off n c = (Inr (image_slice cd v off n), c1)" "cache_true cd v c1"
    by (rule rvz_read_image[OF Cons.prems])
  then show ?case
    using Cons.IH[OF Cons.prems(1)] by (simp add: r)
qed simp

text \<open>C30: 
  A GameCube disc reads as one image: every read, whatever was read before it, gives the bytes of the
  image that it asks for, fewer at the end and none outside.
\<close>

theorem reads_give_the_image:
  assumes "gamecube_disc cd v"
  shows "reads cd v rs no_cache = map (\<lambda>(off, n). Inr (image_slice cd v off n)) rs"
  using assms by (rule reads_from_true_cache) (simp add: cache_true_def no_cache_def)

definition no_codecs :: codecs where
  "no_codecs = \<lparr>cd_sha1 = (\<lambda>s. s), cd_zstd = (\<lambda>s n. None), cd_frame_size = (\<lambda>s. None), cd_aes = (\<lambda>k i s. None)\<rparr>"

text \<open>Two groups: zeros up to 0x84, then four bytes of the file.\<close>

definition sample_disc :: rvz where
  "sample_disc = \<lparr>rv_file = ''....abcd'', rv_length = 0x88, rv_header = replicate 128 CHR ''h'', rv_chunk = 0x84,
     rv_kind = 0, rv_raw = [\<lparr>re_start = 0, re_end = 0x88, re_group = 0, re_count = 2\<rparr>],
     rv_groups = [\<lparr>ge_offset = 0, ge_size = 0, ge_packed = 0\<rparr>, \<lparr>ge_offset = 1, ge_size = 4, ge_packed = 0\<rparr>],
     rv_partitions = []\<rparr>"

lemma sample_gamecube_disc: "gamecube_disc no_codecs sample_disc"
  by code_simp

theorem reads_give_the_image_witness:
  "reads no_codecs sample_disc [(0x85, 9), (0x7E, 3), (0x83, 2), (0x88, 1)] no_cache =
     map (\<lambda>(off, n). Inr (image_slice no_codecs sample_disc off n)) [(0x85, 9), (0x7E, 3), (0x83, 2), (0x88, 1)]
   \<and> image_slice no_codecs sample_disc 0x83 2 = [CHR 0x00, CHR ''a'']"
proof
  show "image_slice no_codecs sample_disc 0x83 2 = [CHR 0x00, CHR ''a'']"
    by code_simp
qed (rule reads_give_the_image[OF sample_gamecube_disc])

end
