(* ===== verification/Award_History.thy ===== *)
theory Award_History
  imports Pending_List Emulator_Files
begin

text \<open>
  The history of synced awards the Windows application shows (windows/history.py): the service records an award
  when it was sent, the menu lists the history and fills in titles, both in one file under a lock.  The file is
  its parsed value, None when it is missing or cannot be read or parsed.  Whether the lock and the write succeed
  is an argument; the write replaces the file, so one that raises leaves it as it was.  An entry that is no
  object raises one and the same error here.
\<close>

definition HISTORY_MAX :: nat where "HISTORY_MAX = 2000"

definition TITLE_KEYS :: "string list" where
  "TITLE_KEYS = [''gameId'', ''gameTitle'', ''achievementTitle'', ''points'', ''titlesLookedUp'']"

definition load_synced :: "json option \<Rightarrow> json list" where
  "load_synced f = (case f of Some (JList es) \<Rightarrow> es | _ \<Rightarrow> [])"

definition entry_int :: "string \<Rightarrow> json \<Rightarrow> int res" where
  "entry_int k e = bind_res (jget k (JInt 0) e) py_int_of"

text \<open>What is written: all entries, or the newest by the moment they were synced.\<close>

definition save_synced :: "json list \<Rightarrow> json res" where
  "save_synced es =
     (if length es > HISTORY_MAX then
        bind_res (map_res (entry_int ''syncedAt'') es) (\<lambda>ks.
          Inr (JList (drop (length es - HISTORY_MAX) (map snd (sort_key fst (zip ks es))))))
      else Inr (JList es))"

definition new_synced :: "int \<Rightarrow> award \<Rightarrow> json" where
  "new_synced now a = JObj [(''achievementId'', JInt (aw_achievement a)), (''earnedAt'', JInt (aw_queued_at a)), (''syncedAt'', JInt now)]"

text \<open>The file after an award was recorded; an exception is logged and leaves it as it was.\<close>

definition record_synced_award :: "bool \<Rightarrow> int \<Rightarrow> award \<Rightarrow> json option \<Rightarrow> json option" where
  "record_synced_award able now a f = (if \<not> able then f else
     catch (bind_res (map_res (\<lambda>e. bind_res (jget ''achievementId'' JNull e) (\<lambda>v. Inr (e, v))) (load_synced f)) (\<lambda>evs.
       bind_res (save_synced (map fst (filter (\<lambda>(e, v). \<not> eq_int v (aw_achievement a)) evs) @ [new_synced now a])) (\<lambda>j.
         Inr (Some j)))) f)"

definition lacks_titles :: "json \<Rightarrow> bool" where
  "lacks_titles e = (case e of JObj ps \<Rightarrow> map_of ps ''gameTitle'' = None \<and> \<not> truthy (field ''titlesLookedUp'' JNull e) | _ \<Rightarrow> False)"

definition with_titles :: "patch_info option \<Rightarrow> json \<Rightarrow> json" where
  "with_titles info e =
     (let marked = set_field ''titlesLookedUp'' (JBool True) e in
      case info of
        None \<Rightarrow> marked
      | Some p \<Rightarrow> set_field ''points'' (pi_points p) (set_field ''achievementTitle'' (pi_title p)
          (set_field ''gameTitle'' (pi_game_title p) (set_field ''gameId'' (JInt (pi_game p)) marked))))"

text \<open>The entries with their titles, or None when none lacked them.\<close>

definition resolve_titles :: "store \<Rightarrow> json list \<Rightarrow> json list option res" where
  "resolve_titles st es =
     (if \<not> list_all is_obj es then Inl AttributeError
      else let pending = filter lacks_titles es in
        if pending = [] then Inr None
        else
          bind_res (map_res (entry_int ''achievementId'') pending) (\<lambda>ids.
          bind_res (build_patch_index st ids) (\<lambda>index.
          bind_res (map_res (\<lambda>e. if lacks_titles e
              then bind_res (entry_int ''achievementId'' e) (\<lambda>i. Inr (with_titles (map_of index i) e)) else Inr e) es) (\<lambda>es2.
            Inr (Some es2)))))"

definition looked_up :: "json \<Rightarrow> bool" where
  "looked_up e = truthy (field ''titlesLookedUp'' JNull e)"

text \<open>The entries looked up, by their achievement; of two the later one counts.\<close>

definition resolved_entries :: "json list \<Rightarrow> (int \<times> json) list res" where
  "resolved_entries es =
     bind_res (map_res (\<lambda>e. bind_res (entry_int ''achievementId'' e) (\<lambda>i. Inr (i, e))) (filter looked_up es)) (\<lambda>ps. Inr (rev ps))"

definition take_titles :: "json \<Rightarrow> json \<Rightarrow> json" where
  "take_titles found e = (case found of
       JObj ps \<Rightarrow> fold (\<lambda>k e. case map_of ps k of None \<Rightarrow> e | Some v \<Rightarrow> set_field k v e) TITLE_KEYS e
     | _ \<Rightarrow> e)"

definition merge_titles :: "(int \<times> json) list \<Rightarrow> json \<Rightarrow> json res" where
  "merge_titles resolved e = bind_res (entry_int ''achievementId'' e) (\<lambda>i. Inr (case map_of resolved i of
       Some found \<Rightarrow> if looked_up e then e else take_titles found e
     | None \<Rightarrow> e))"

record synced_entry =
  sy_achievement :: int
  sy_game :: json
  sy_game_title :: json
  sy_title :: json
  sy_points :: json
  sy_earned_at :: int

definition synced_entry_of :: "json \<Rightarrow> synced_entry res" where
  "synced_entry_of e =
     bind_res (entry_int ''achievementId'' e) (\<lambda>i.
     bind_res (entry_int ''earnedAt'' e) (\<lambda>t.
       Inr \<lparr>sy_achievement = i, sy_game = field ''gameId'' JNull e,
         sy_game_title = py_or (field ''gameTitle'' JNull e) (JStr ''Unknown Game''),
         sy_title = py_or (field ''achievementTitle'' JNull e) (JStr (''Achievement '' @ json_text (field ''achievementId'' JNull e))),
         sy_points = field ''points'' JNull e, sy_earned_at = t\<rparr>))"

definition listed :: "json list \<Rightarrow> synced_entry list res" where
  "listed es = bind_res (map_res synced_entry_of es) (\<lambda>ss. Inr (sort_key (\<lambda>s. - sy_earned_at s) ss))"

text \<open>
  The list shown, and the file when it was written.  The file is read twice: before, and under the lock.
\<close>

definition list_synced_awards :: "bool \<Rightarrow> store \<Rightarrow> json option \<Rightarrow> json option \<Rightarrow> synced_entry list res \<times> json option" where
  "list_synced_awards able st before_lock under_lock =
     (case resolve_titles st (load_synced before_lock) of
        Inl e \<Rightarrow> (Inl e, None)
      | Inr None \<Rightarrow> (listed (load_synced before_lock), None)
      | Inr (Some es) \<Rightarrow>
         (case bind_res (resolved_entries es) (\<lambda>resolved. if \<not> able then Inl FileError
             else bind_res (map_res (merge_titles resolved) (load_synced under_lock)) (\<lambda>current.
             bind_res (save_synced current) (\<lambda>j. Inr (current, j)))) of
            Inl e \<Rightarrow> (Inl e, None)
          | Inr (current, j) \<Rightarrow> (listed current, Some j)))"

definition synced_count :: "json option \<Rightarrow> nat" where
  "synced_count f = length (load_synced f)"

definition clear_history :: "bool \<Rightarrow> json option \<Rightarrow> unit res \<times> json option" where
  "clear_history able f = (if able then (Inr (), None) else (Inl FileError, f))"

end
