(* ===== verification/Award_History_Laws.thy ===== *)
theory Award_History_Laws
  imports Award_History
begin

text \<open>
  What the history of synced awards promises: a recorded award is in it, one entry for each achievement, the
  oldest dropped when it is full; and filling in titles loses no award that is synced meanwhile, and asks for
  every title once.
\<close>

definition int_at :: "string \<Rightarrow> json \<Rightarrow> int" where
  "int_at k e = (case field k JNull e of JInt i \<Rightarrow> i | _ \<Rightarrow> 0)"

definition holds_int :: "string \<Rightarrow> json \<Rightarrow> bool" where
  "holds_int k e = (case field k JNull e of JInt i \<Rightarrow> True | _ \<Rightarrow> False)"

definition synced_keys :: "string list" where
  "synced_keys = [''achievementId'', ''earnedAt'', ''syncedAt'']"

definition wf_synced :: "json \<Rightarrow> bool" where
  "wf_synced e = list_all (\<lambda>k. holds_int k e) synced_keys"

abbreviation achievement_at :: "json \<Rightarrow> int" where "achievement_at \<equiv> int_at ''achievementId''"

definition wf_history :: "json option \<Rightarrow> bool" where
  "wf_history f = (list_all wf_synced (load_synced f) \<and> distinct (map achievement_at (load_synced f)) \<and>
     length (load_synced f) \<le> HISTORY_MAX)"

section \<open>Entries\<close>

lemma holds_int_obj: "holds_int k e \<Longrightarrow> is_obj e"
  by (auto simp: holds_int_def field_def is_obj_def split: json.splits)

lemma entry_int_at: "holds_int k e \<Longrightarrow> entry_int k e = Inr (int_at k e)"
  by (auto simp: holds_int_def int_at_def field_def entry_int_def jget_def py_int_of_def split: json.splits option.splits)

lemma wf_synced_ints: "wf_synced e \<Longrightarrow> k \<in> set synced_keys \<Longrightarrow> entry_int k e = Inr (int_at k e)"
  by (auto simp: wf_synced_def list_all_iff intro: entry_int_at)

lemma wf_synced_int [simp]:
  "wf_synced e \<Longrightarrow> entry_int ''achievementId'' e = Inr (int_at ''achievementId'' e)"
  "wf_synced e \<Longrightarrow> entry_int ''earnedAt'' e = Inr (int_at ''earnedAt'' e)"
  "wf_synced e \<Longrightarrow> entry_int ''syncedAt'' e = Inr (int_at ''syncedAt'' e)"
  by (simp_all add: wf_synced_ints synced_keys_def)

lemma wf_synced_obj: "wf_synced e \<Longrightarrow> is_obj e"
  by (auto simp: wf_synced_def synced_keys_def dest: holds_int_obj)

lemma wf_synced_id:
  assumes "wf_synced e"
  shows "jget ''achievementId'' JNull e = Inr (JInt (achievement_at e))"
  using assms by (auto simp: wf_synced_def synced_keys_def holds_int_def int_at_def field_def jget_def split: json.splits option.splits)

lemma wf_new_synced [simp]: "wf_synced (new_synced now a)"
  by (simp add: wf_synced_def synced_keys_def holds_int_def new_synced_def field_def)

lemma new_synced_ints [simp]:
  "int_at ''achievementId'' (new_synced now a) = aw_achievement a" "int_at ''syncedAt'' (new_synced now a) = now"
  "int_at ''earnedAt'' (new_synced now a) = aw_queued_at a"
  by (simp_all add: int_at_def new_synced_def field_def)

section \<open>Recording an award\<close>

lemma in_set_tl: "x \<in> set (tl xs) \<Longrightarrow> x \<in> set xs"
  by (cases xs) auto

lemma insort_before_last: "f y \<le> f x \<Longrightarrow> insort_key f y (zs @ [x]) = insort_key f y zs @ [x]"
  by (induction zs) auto

lemma sort_newest_last: "\<forall>y \<in> set xs. f y \<le> f x \<Longrightarrow> sort_key f (xs @ [x]) = sort_key f xs @ [x]"
  by (induction xs) (simp_all add: insort_before_last)

lemma insort_keyed: "map snd (insort_key fst (g y, y) (map (\<lambda>e. (g e, e)) zs)) = insort_key g y zs"
  by (induction zs) (auto simp: comp_def)

lemma sort_keyed: "sort_key fst (map (\<lambda>e. (g e, e)) es) = map (\<lambda>e. (g e, e)) (sort_key g es)"
proof (induction es)
  case (Cons e es)
  have "insort_key fst (g e, e) (map (\<lambda>e. (g e, e)) zs) = map (\<lambda>e. (g e, e)) (insort_key g e zs)" for zs
    by (induction zs) auto
  then show ?case
    using Cons by simp
qed simp

lemma saved_history:
  assumes "list_all wf_synced es"
  shows "save_synced es = Inr (JList (if length es > HISTORY_MAX
    then drop (length es - HISTORY_MAX) (sort_key (int_at ''syncedAt'') es) else es))"
proof -
  have "map_res (entry_int ''syncedAt'') es = Inr (map (int_at ''syncedAt'') es)"
    using assms by (intro map_res_all) (auto simp: list_all_iff)
  moreover have "zip (map g es) es = map (\<lambda>e. (g e, e)) es" for g :: "json \<Rightarrow> int"
    by (induction es) auto
  ultimately show ?thesis
    by (simp add: save_synced_def sort_keyed comp_def)
qed

text \<open>C33: 
  An award that was sent is in the history once, with the moment it was earned, and everything else stays; when
  the history is full the entry with the earliest sync time makes room.  That is the new entry itself only when
  the clock was set back behind the times of all others; with no entry dated after now, the new one is the last.
  This holds for a history of entries as the program writes them; when the lock or the write fails, the file
  stays as it was.
\<close>

theorem synced_award_recorded:
  fixes a :: award
  assumes wf: "wf_history f"
  defines "others \<equiv> filter (\<lambda>e. achievement_at e \<noteq> aw_achievement a) (load_synced f)"
  shows "load_synced (record_synced_award able now a f) =
      (if \<not> able then load_synced f
       else if length others < HISTORY_MAX then others @ [new_synced now a]
       else tl (sort_key (int_at ''syncedAt'') (others @ [new_synced now a])))
    \<and> wf_history (record_synced_award able now a f)
    \<and> (able \<and> (\<forall>e \<in> set (load_synced f). int_at ''syncedAt'' e \<le> now) \<longrightarrow>
        load_synced (record_synced_award able now a f) =
          (if length others < HISTORY_MAX then others else tl (sort_key (int_at ''syncedAt'') others)) @ [new_synced now a])"
proof (cases able)
  case True
  let ?es = "others @ [new_synced now a]"
  let ?out = "if length others < HISTORY_MAX then ?es else tl (sort_key (int_at ''syncedAt'') ?es)"
  have all: "list_all wf_synced (load_synced f)" and ids: "distinct (map achievement_at (load_synced f))"
    and room: "length (load_synced f) \<le> HISTORY_MAX"
    using wf by (simp_all add: wf_history_def)
  have es: "list_all wf_synced ?es"
    using all by (auto simp: list_all_iff others_def)
  have len: "length others \<le> HISTORY_MAX"
    using room by (simp add: others_def order_trans[OF length_filter_le])
  have "map_res (\<lambda>e. bind_res (jget ''achievementId'' JNull e) (\<lambda>v. Inr (e, v))) (load_synced f) =
      Inr (map (\<lambda>e. (e, JInt (achievement_at e))) (load_synced f))"
    using all by (intro map_res_all) (auto simp: list_all_iff wf_synced_id)
  moreover have "map fst (filter (\<lambda>(e, v). \<not> eq_int v (aw_achievement a)) (map (\<lambda>e. (e, JInt (achievement_at e))) (load_synced f))) = others"
    by (simp add: others_def filter_map comp_def eq_int_def as_int_def)
  moreover have "save_synced ?es = Inr (JList ?out)"
    using saved_history[OF es] len by (auto simp: drop_Suc)
  ultimately have rec: "record_synced_award able now a f = Some (JList ?out)"
    using True by (simp add: record_synced_award_def del: map_res.simps)
  have "distinct (map achievement_at others)" "aw_achievement a \<notin> achievement_at ` set others"
    using ids distinct_map_filter by (auto simp: others_def)
  then have "distinct (map achievement_at ?es)" by simp
  then have sorted: "distinct (map achievement_at (sort_key (int_at ''syncedAt'') ?es))"
    by (simp only: distinct_map set_sort distinct_sort)
  have "distinct (map achievement_at ?out)"
    using \<open>distinct (map achievement_at ?es)\<close> distinct_tl [OF sorted] by (simp add: map_tl)
  moreover have "set ?out \<subseteq> set ?es"
    using in_set_tl[of _ "sort_key (int_at ''syncedAt'') ?es"] by (auto simp del: set_append)
  then have "list_all wf_synced ?out"
    using es by (auto simp only: list_all_iff)
  moreover have "length ?out \<le> HISTORY_MAX"
    using len by (auto simp: HISTORY_MAX_def)
  moreover have "?out = (if length others < HISTORY_MAX then others else tl (sort_key (int_at ''syncedAt'') others)) @ [new_synced now a]"
    if past: "\<forall>e \<in> set (load_synced f). int_at ''syncedAt'' e \<le> now"
  proof (cases "length others < HISTORY_MAX")
    case False
    then have "others \<noteq> []" by (auto simp: HISTORY_MAX_def)
    moreover have "sort_key (int_at ''syncedAt'') ?es = sort_key (int_at ''syncedAt'') others @ [new_synced now a]"
      using past by (intro sort_newest_last) (auto simp: others_def)
    ultimately show ?thesis using False by (simp flip: length_greater_0_conv)
  qed simp
  moreover have loaded: "load_synced (record_synced_award able now a f) = ?out"
    unfolding rec by (simp add: load_synced_def)
  ultimately show ?thesis using True unfolding wf_history_def loaded by simp
qed (use wf in \<open>simp add: record_synced_award_def\<close>)

definition synced_json :: "int \<Rightarrow> int \<Rightarrow> json" where
  "synced_json i t = JObj [(''achievementId'', JInt i), (''earnedAt'', JInt t), (''syncedAt'', JInt t)]"

definition sent_award :: award where
  "sent_award = sample_award\<lparr>aw_achievement := 7, aw_queued_at := 30\<rparr>"

theorem synced_award_recorded_witness:
  "map achievement_at (load_synced (record_synced_award True 40 sent_award (Some (JList [synced_json 7 10, synced_json 8 20])))) = [8, 7]"
proof -
  let ?f = "Some (JList [synced_json 7 10, synced_json 8 20])"
  have entries: "wf_synced (synced_json i t)" "achievement_at (synced_json i t) = i" "int_at ''syncedAt'' (synced_json i t) = t" for i t
    by (simp_all add: synced_json_def wf_synced_def synced_keys_def holds_int_def int_at_def field_def)
  then have "wf_history ?f"
    by (simp add: wf_history_def load_synced_def HISTORY_MAX_def)
  then show ?thesis
    using synced_award_recorded[of ?f True 40 sent_award] entries
    by (simp add: load_synced_def sent_award_def HISTORY_MAX_def)
qed

section \<open>Listing the awards\<close>

lemma take_titles_field:
  assumes "k \<notin> set TITLE_KEYS"
  shows "field k d (take_titles found e) = field k d e"
proof -
  have "field k d (fold (\<lambda>k e. case map_of ps k of None \<Rightarrow> e | Some v \<Rightarrow> set_field k v e) ks e) = field k d e"
    if "k \<notin> set ks" for ps ks
    using that by (induction ks arbitrary: e) (auto split: option.split)
  then show ?thesis
    using assms by (simp add: take_titles_def split: json.split)
qed

lemma wf_synced_fields:
  assumes "\<And>k. k \<in> set synced_keys \<Longrightarrow> field k JNull e' = field k JNull e"
  shows "wf_synced e' = wf_synced e"
  using assms by (simp add: wf_synced_def list_all_iff holds_int_def)

definition same_keys :: "json \<Rightarrow> json \<Rightarrow> bool" where
  "same_keys e' e = (wf_synced e' \<and> (\<forall>k \<in> set synced_keys. field k JNull e' = field k JNull e))"

lemma merge_titles_keeps:
  assumes "wf_synced e"
  shows "\<exists>e'. merge_titles resolved e = Inr e' \<and> same_keys e' e"
proof -
  have other: "field k JNull (take_titles found e) = field k JNull e" if "k \<in> set synced_keys" for k found
    using that by (intro take_titles_field) (auto simp: synced_keys_def TITLE_KEYS_def)
  then have "same_keys (take_titles found e) e" for found
    using assms wf_synced_fields[of "take_titles found e" e, OF other] by (simp add: same_keys_def)
  moreover have "same_keys e e"
    using assms by (simp add: same_keys_def)
  ultimately show ?thesis
    using assms by (auto simp: merge_titles_def split: option.split)
qed

lemma merged_history:
  "list_all wf_synced es \<Longrightarrow> \<exists>cur. map_res (merge_titles resolved) es = Inr cur \<and> list_all2 same_keys cur es"
proof (induction es)
  case (Cons e es)
  then obtain cur e' where "map_res (merge_titles resolved) es = Inr cur" "list_all2 same_keys cur es"
      "merge_titles resolved e = Inr e'" "same_keys e' e"
    using merge_titles_keeps[of e resolved] by auto
  then show ?case
    by simp
qed simp

lemma same_keys_int: "same_keys e' e \<Longrightarrow> k \<in> set synced_keys \<Longrightarrow> int_at k e' = int_at k e"
  by (simp add: same_keys_def int_at_def)

lemma same_keys_history:
  assumes "list_all2 same_keys cur es"
  shows "list_all wf_synced cur" and "k \<in> set synced_keys \<Longrightarrow> map (int_at k) cur = map (int_at k) es"
proof -
  show "list_all wf_synced cur"
    using assms by (induction rule: list_all2_induct) (auto simp: same_keys_def)
  show "map (int_at k) cur = map (int_at k) es" if "k \<in> set synced_keys"
    using assms that by (induction rule: list_all2_induct) (simp_all add: same_keys_int)
qed

lemma listed_history:
  assumes "list_all wf_synced es"
  shows "\<exists>ss. listed es = Inr ss \<and> map (\<lambda>s. (sy_achievement s, sy_earned_at s)) ss =
    sort_key (\<lambda>(i, t). - t) (zip (map achievement_at es) (map (int_at ''earnedAt'') es))"
proof -
  have "\<exists>ss. map_res synced_entry_of es = Inr ss \<and> map (\<lambda>s. (sy_achievement s, sy_earned_at s)) ss =
      zip (map achievement_at es) (map (int_at ''earnedAt'') es)"
    using assms by (induction es) (auto simp: synced_entry_of_def)
  moreover have "map f (sort_key (\<lambda>s. - sy_earned_at s) ss) = sort_key (\<lambda>(i, t). - t) (map f ss)"
    if "f = (\<lambda>s. (sy_achievement s, sy_earned_at s))" for f :: "synced_entry \<Rightarrow> int \<times> int" and ss
  proof (induction ss)
    case (Cons x ss)
    have "map f (insort_key (\<lambda>s. - sy_earned_at s) x zs) = insort_key (\<lambda>(i, t). - t) (f x) (map f zs)" for zs
      by (induction zs) (auto simp: that)
    then show ?case using Cons by simp
  qed simp
  ultimately show ?thesis
    by (auto simp: listed_def)
qed

lemma written_list:
  assumes "list_synced_awards able st f u = (r, Some j)" and "wf_history u"
  obtains es resolved cur where "resolve_titles st (load_synced f) = Inr (Some es)" and "resolved_entries es = Inr resolved"
    and "map_res (merge_titles resolved) (load_synced u) = Inr cur" and "list_all2 same_keys cur (load_synced u)"
    and "j = JList cur" and "r = listed cur"
proof -
  obtain es resolved where es: "resolve_titles st (load_synced f) = Inr (Some es)" "resolved_entries es = Inr resolved"
    using assms(1) by (auto simp: list_synced_awards_def bind_res_def split: sum.splits option.splits prod.splits)
  obtain cur where cur: "map_res (merge_titles resolved) (load_synced u) = Inr cur" "list_all2 same_keys cur (load_synced u)"
    using assms(2) merged_history by (auto simp: wf_history_def)
  have "length cur \<le> HISTORY_MAX"
    using cur(2) assms(2) by (simp add: wf_history_def list_all2_lengthD)
  then have "j = JList cur" "r = listed cur"
    using assms(1) es cur(1) by (auto simp: list_synced_awards_def save_synced_def split: if_splits)
  then show ?thesis
    using that es cur by blast
qed

text \<open>C34: 
  Filling in the titles never drops an award: whatever was recorded between the first look at the file and the
  lock is listed and stays in the file, with the moments it was earned and synced.  (The file under the lock is
  a well-formed history, one that cannot be read being empty, and the write succeeds.)
\<close>

theorem synced_meanwhile_kept:
  assumes "wf_history u" and "list_synced_awards able st f u = (r, Some j)"
  shows "wf_history (Some j)
    \<and> list_all (\<lambda>k. map (int_at k) (load_synced (Some j)) = map (int_at k) (load_synced u)) synced_keys
    \<and> (\<exists>ss. r = Inr ss \<and> map (\<lambda>s. (sy_achievement s, sy_earned_at s)) ss =
        sort_key (\<lambda>(i, t). - t) (zip (map achievement_at (load_synced u)) (map (int_at ''earnedAt'') (load_synced u))))"
proof -
  obtain cur where cur: "list_all2 same_keys cur (load_synced u)" "j = JList cur" "r = listed cur"
    by (rule written_list[OF assms(2,1)])
  have keys: "map (int_at k) cur = map (int_at k) (load_synced u)" if "k \<in> set synced_keys" for k
    using same_keys_history(2)[OF cur(1) that] .
  have j: "load_synced (Some j) = cur"
    by (simp add: load_synced_def cur(2))
  have two: "achievement_at = int_at ''achievementId''" "''achievementId'' \<in> set synced_keys" "''earnedAt'' \<in> set synced_keys"
    by (simp_all add: synced_keys_def)
  have "wf_history (Some j)"
    using assms(1) same_keys_history(1)[OF cur(1)] keys[OF two(2)] list_all2_lengthD[OF cur(1)] by (simp add: wf_history_def j)
  moreover have "list_all (\<lambda>k. map (int_at k) (load_synced (Some j)) = map (int_at k) (load_synced u)) synced_keys"
    using keys by (simp add: list_all_iff j)
  ultimately show ?thesis
    using listed_history[OF same_keys_history(1)[OF cur(1)]] keys[OF two(2)] keys[OF two(3)] cur(3) by simp
qed

definition one_synced :: "json option" where "one_synced = Some (JList [synced_json 7 10])"
definition two_synced :: "json option" where "two_synced = Some (JList [synced_json 7 10, synced_json 8 20])"

lemma wf_synced_samples: "wf_history one_synced" "wf_history two_synced"
  by (simp_all add: wf_history_def load_synced_def one_synced_def two_synced_def synced_json_def wf_synced_def synced_keys_def
      holds_int_def int_at_def field_def HISTORY_MAX_def)

lemma samples_written:
  "\<exists>r j. list_synced_awards True (empty_store True) one_synced two_synced = (r, Some j)"
  "\<exists>r j. list_synced_awards True (empty_store True) one_synced one_synced = (r, Some j)"
proof -
  have "case list_synced_awards True (empty_store True) one_synced two_synced of (_, Some _) \<Rightarrow> True | _ \<Rightarrow> False"
    "case list_synced_awards True (empty_store True) one_synced one_synced of (_, Some _) \<Rightarrow> True | _ \<Rightarrow> False"
    by code_simp+
  then show "\<exists>r j. list_synced_awards True (empty_store True) one_synced two_synced = (r, Some j)"
    "\<exists>r j. list_synced_awards True (empty_store True) one_synced one_synced = (r, Some j)"
    by (auto split: prod.splits option.splits)
qed

theorem synced_meanwhile_kept_witness:
  "\<exists>r j. list_synced_awards True (empty_store True) one_synced two_synced = (r, Some j) \<and> wf_history (Some j)
    \<and> map achievement_at (load_synced (Some j)) = [7, 8]"
proof -
  obtain r j where run: "list_synced_awards True (empty_store True) one_synced two_synced = (r, Some j)"
    using samples_written(1) by blast
  have "map achievement_at (load_synced two_synced) = [7, 8]"
    by (simp add: load_synced_def two_synced_def synced_json_def int_at_def field_def)
  then show ?thesis
    using synced_meanwhile_kept[OF wf_synced_samples(2) run] run by (auto simp: synced_keys_def)
qed

section \<open>Titles are looked up once\<close>

lemma looked_up_taken:
  assumes "looked_up found" and "is_obj e"
  shows "looked_up (take_titles found e)"
proof -
  obtain ps v where ps: "found = JObj ps" "map_of ps ''titlesLookedUp'' = Some v" "truthy v"
    using assms(1) by (auto simp: looked_up_def field_def split: json.splits option.splits)
  define F where "F k e = (case map_of ps k of None \<Rightarrow> e | Some v \<Rightarrow> set_field k v e)" for k e
  have obj: "is_obj (fold F ks e)" for ks
    using assms(2) by (induction ks arbitrary: e) (auto simp: F_def split: option.split)
  have "fold F (ks @ [''titlesLookedUp'']) e = set_field ''titlesLookedUp'' v (fold F ks e)" for ks
    by (simp add: F_def ps(2))
  then have "field ''titlesLookedUp'' JNull (fold F (ks @ [''titlesLookedUp'']) e) = v" for ks
    using obj by simp
  from this[of "[''gameId'', ''gameTitle'', ''achievementTitle'', ''points'']"] show ?thesis
    using ps(1,3) by (simp add: looked_up_def take_titles_def TITLE_KEYS_def F_def[abs_def])
qed

lemma looked_up_has: "looked_up e \<Longrightarrow> \<not> lacks_titles e"
  by (auto simp: looked_up_def lacks_titles_def split: json.splits)

lemma with_titles_marked: "is_obj e \<Longrightarrow> looked_up (with_titles info e)"
  by (simp add: with_titles_def looked_up_def Let_def split: option.split)

lemma with_titles_id: "field ''achievementId'' d (with_titles info e) = field ''achievementId'' d e"
  by (simp add: with_titles_def Let_def split: option.split)

lemma resolved_looked_up: "resolved_entries es = Inr resolved \<Longrightarrow> map_of resolved i = Some found \<Longrightarrow> looked_up found"
proof -
  assume res: "resolved_entries es = Inr resolved" and found: "map_of resolved i = Some found"
  obtain ps where "map_res (\<lambda>e. bind_res (entry_int ''achievementId'' e) (\<lambda>i. Inr (i, e))) (filter looked_up es) = Inr ps"
      "resolved = rev ps"
    using res by (auto simp: resolved_entries_def bind_res_Inr_iff)
  moreover have "(i, found) \<in> set resolved"
    using map_of_SomeD[OF found] .
  ultimately obtain x where "x \<in> set (filter looked_up es)"
      "bind_res (entry_int ''achievementId'' x) (\<lambda>i. Inr (i, x)) = Inr (i, found)"
    using map_res_set by fastforce
  then show "looked_up found"
    by (auto simp: bind_res_Inr_iff)
qed

lemma lacking_resolved:
  assumes "list_all wf_synced fs" and "resolve_titles st fs = Inr (Some es)" and "resolved_entries es = Inr resolved"
    and "e \<in> set fs" and "lacks_titles e"
  shows "map_of resolved (achievement_at e) \<noteq> None"
proof -
  have wf: "wf_synced e" using assms(1,4) by (simp add: list_all_iff)
  obtain index where "map_res (\<lambda>e. if lacks_titles e then bind_res (entry_int ''achievementId'' e) (\<lambda>i. Inr (with_titles (map_of index i) e)) else Inr e) fs = Inr es"
    using assms(2) by (auto simp: resolve_titles_def Let_def bind_res_Inr_iff split: if_splits)
  moreover have "map_res (\<lambda>e. if lacks_titles e then bind_res (entry_int ''achievementId'' e) (\<lambda>i. Inr (with_titles (map_of index i) e)) else Inr e) fs =
      Inr (map (\<lambda>e. if lacks_titles e then with_titles (map_of index (achievement_at e)) e else e) fs)"
    using assms(1) by (intro map_res_all) (auto simp: list_all_iff)
  ultimately have "with_titles (map_of index (achievement_at e)) e \<in> set (filter looked_up es)"
    using assms(4,5) with_titles_marked[OF wf_synced_obj[OF wf]] by (auto intro!: image_eqI[of _ _ e])
  moreover have "entry_int ''achievementId'' (with_titles info e) = Inr (achievement_at e)" for info
    using wf with_titles_id[of JNull info e]
    by (simp add: entry_int_at holds_int_def int_at_def wf_synced_def synced_keys_def)
  moreover obtain ps where "map_res (\<lambda>e. bind_res (entry_int ''achievementId'' e) (\<lambda>i. Inr (i, e))) (filter looked_up es) = Inr ps"
      "resolved = rev ps"
    using assms(3) by (auto simp: resolved_entries_def bind_res_Inr_iff)
  ultimately have "(achievement_at e, with_titles (map_of index (achievement_at e)) e) \<in> set resolved"
    by (auto elim!: map_res_elem)
  then show ?thesis
    by (auto simp: map_of_eq_None_iff rev_image_eqI)
qed

text \<open>
  Once the list was shown, every entry of the history has been looked up: showing it again, whatever the
  cache holds by then, gives the same list and writes nothing.
\<close>

theorem titles_looked_up_once:
  assumes wf: "wf_history f" and "list_synced_awards able st f f = (r, Some j)"
  shows "list_synced_awards able2 st2 (Some j) u = (r, None)"
proof -
  have fs: "list_all wf_synced (load_synced f)" using wf by (simp add: wf_history_def)
  obtain es resolved cur where es: "resolve_titles st (load_synced f) = Inr (Some es)" "resolved_entries es = Inr resolved"
    and cur: "map_res (merge_titles resolved) (load_synced f) = Inr cur" "list_all2 same_keys cur (load_synced f)"
    and j: "j = JList cur" "r = listed cur"
    by (rule written_list[OF assms(2,1)])
  have "\<not> lacks_titles e'" if "e \<in> set (load_synced f)" "merge_titles resolved e = Inr e'" for e e'
  proof -
    have e: "wf_synced e" using fs that(1) by (simp add: list_all_iff)
    show ?thesis
    proof (cases "map_of resolved (achievement_at e)")
      case None
      then show ?thesis
        using that e lacking_resolved[OF fs es that(1)] by (auto simp: merge_titles_def)
    next
      case (Some found)
      then show ?thesis
        using that(2) e looked_up_has looked_up_taken[OF resolved_looked_up[OF es(2) Some] wf_synced_obj[OF e]]
        by (auto simp: merge_titles_def split: if_splits)
    qed
  qed
  then have "filter lacks_titles cur = []"
    using map_res_set[OF cur(1)] by (fastforce simp: filter_empty_conv)
  moreover have "list_all is_obj cur"
    using same_keys_history(1)[OF cur(2)] by (auto simp: list_all_iff wf_synced_obj)
  ultimately show ?thesis
    using j by (simp add: list_synced_awards_def load_synced_def resolve_titles_def Let_def)
qed

theorem titles_looked_up_once_witness:
  "\<exists>r j. list_synced_awards True (empty_store True) one_synced one_synced = (r, Some j)
    \<and> list_synced_awards True (empty_store True) (Some j) None = (r, None)"
proof -
  obtain r j where run: "list_synced_awards True (empty_store True) one_synced one_synced = (r, Some j)"
    using samples_written(2) by blast
  then show ?thesis
    using titles_looked_up_once[OF wf_synced_samples(1) run, of True "empty_store True" None] by blast
qed

end
