(* ===== verification/Spec2Isabelle.thy ===== *)
theory Spec2Isabelle
  imports Proxy_Laws Drain_Laws Usage_Laws Setup_Laws Service_Laws Update_Laws Install_Laws History_Laws Rvz_Laws Award_History_Laws
begin

text \<open>
  A verification library for the RetroAchievements offline proxy, the Python program under
  src/linux/raofflineproxy; file names below are relative to that directory.

  The program.  A local HTTP proxy stands between an emulator and retroachievements.org.  Online it forwards
  requests and keeps the answers; offline it serves what it kept, and awards earned offline are queued in a
  signed chain that is sent when the connection returns.  Around it: games are cached ahead of time within a
  budget of requests, by hand, in bulk, from the play history of the emulators or from watched folders; the
  emulators' settings files are patched to point at the proxy and reverted; usage is counted and reported
  when the user agreed; the program updates itself; and disc images in the RVZ container are read so that
  they can be hashed.

  How the theories divide it (each opens with its own description):

    \<^item> Vocabulary: Py_Prelude (strings, integers and their text, exceptions as the left of a sum, dictionaries
      as association lists in insertion order), Py_Json (the json module), Py_Url (urllib.parse).
    \<^item> Store: Cache_Keys (cache_keys.py), Storage (storage.py with es_export.py), Game_Meta (game_meta.py),
      Cache_Budget and Budget_Store (cache_budget.py, last_played.py), Rate_Limit (rate_limit.py); their laws
      are in Storage_Laws and Store_Contracts.
    \<^item> Awards: Award_Chain (award_signing.py and the chain of flusher.py), Flusher and Flusher_Laws (flusher.py),
      Pending_List (pending_awards.py), Queue_Integrity, Award_History and Award_History_Laws (windows/history.py).
    \<^item> Network and game data: Request_Params (utils.py), Network (network.py), Image_Urls (image_cache.py),
      Auth (auth.py), Rom_Cache (rom_cache.py), Rom_Lookup, Rom_Browser and File_Walk (rom_browser.py).
    \<^item> Server: Proxy (the request handler of proxy_service.py), Server_Invariants, Proxy_Laws, Workers and
      Worker_Laws (its threads), Service_Laws (all of it as one transition system).
    \<^item> Caching ahead: Cache_Queue (cache_queue.py), Cache_Drain (the drain of rom_browser.py), Cache_Frame,
      Drain_Laws, Queue_Progress, Bulk_Cache, Bulk_Frame and Bulk_Laws (smart_cache.py), Watch_Folders and
      Watch_Laws (watch_folders.py), Gamelist_Cache, History_Paths, Gamelist_Laws and History_Laws (the play
      history of smart_cache.py).
    \<^item> Settings files: Config_Text and Config_Laws, Emulator_Files, Retroarch_Cfg and Retroarch_Laws
      (retroarch_cfg.py), Emulator_Ini and Ini_Laws (achievements_ini.py, dolphin_cfg.py, ppsspp_cfg.py,
      pcsx2_cfg.py, duckstation_cfg.py, flycast_cfg.py, batocera_conf.py), Proxy_Setup and Setup_Laws (main.py).
    \<^item> Usage: Usage_Stats and Usage_Laws (usage_stats.py, usage_report.py).
    \<^item> Updates: Update_Check and Update_Laws, Update_Install and Install_Laws (update.py).
    \<^item> Disc images: Rvz_Reader and Rvz_Laws (rvz_datasource.py).

  How code becomes definitions.  A dataclass is a record, a JSON document the datatype json, an exception a
  constructor of the error type in the left of a sum; an operation takes the state it reads and returns the
  state it leaves, and what was written before an exception stays written.  The store is one record with the
  tables of both back ends.  Threads are rounds: a step of the whole service (service_step) is a request, a
  round of one worker, a bulk run or a ROM added by hand.  Clocks and sleeps are part of the network state,
  in milliseconds of one monotonic clock; what other threads do while a round runs is given to it as functions
  of that clock.  The shared-ownership parts of the code have a locale each, interpreted on the model:
  body_store and json_cell (what clients of the response cache rely on), fifo (the queue of ROMs),
  cache_frame, drain_frame and bulk_frame (relations between stores that the caching of games keeps),
  flush_invariant and store_invariant (properties of stores that flushing and serving keep).

  What the lemmas show.  Storage_Laws and Store_Contracts: well-formedness of the tables under every operation,
  what a lookup finds after each, agreement of the two back ends.  Award_Chain, Flusher_Laws, Queue_Integrity:
  the chain is accepted exactly when it is intact, is repaired when only links are broken, and an award leaves
  the queue only when the server took it or it was found stale.  Server_Invariants, Proxy_Laws, Worker_Laws,
  Service_Laws: these properties for every request, thread and interleaving of them, what is answered offline,
  and which faults stop a worker.  Drain_Laws, Queue_Progress, Bulk_Laws, Watch_Laws: the drain returns, keeps
  its pace and its budget, accounts for every queued ROM and makes progress; a bulk run reports every path
  once.  Config_Laws, Retroarch_Laws, Ini_Laws, Setup_Laws: rewriting changes the values it names and no other,
  and the revert undoes the patch.  Usage_Laws: the books of the counters balance, and exactly the
  faults of the shared file's accesses lose counts or have them sent again.  Update_Laws and Install_Laws: the newest
  eligible release is offered, and after a fault of the installation either the old version or the new one is
  in place with the user's data, except after two faults that are stated.  Gamelist_Laws and History_Laws: the
  readers of the emulators' binary files against writers of them.  Rvz_Laws: a disc reads as one image.
  Award_History_Laws: the history of sent awards loses none while it is shown.

  Bounds and fuel.  The JSON reader takes two units of fuel per character and one more; enough_fuel shows that
  any larger supply reads the same.  The drain of the queue takes fuel; drain_returns shows that more than
  2 * count + 1 units are enough for count queued ROMs when no other process adds to the queue, and statements
  about what a drain leaves hold for every supply with which it ends.  The reads of a disc image take the
  number of bytes asked for, as every turn of their loops adds a byte.  The 32-bit words of the filling of an
  image are 32 word; the other integers of the program are Python's and are int.

  Approximations.  White space, case and line ends are those of ASCII.  A path is the text of its normal form.
  Files that hold one JSON value are that value.  A float is its lexeme.  The texts the program prints,
  logs and shows are left out, and so are file locks, whose answers are parameters where an operation branches
  on them.  The clock of cache_game is the moment of its last request.

  Parameters stand for code that is not in the repository's Python sources: the servers, sockets, the digests
  (SHA-1, SHA-256, HMAC, MD5), base64, zstd and AES, the hash of a ROM (a native library), the disk outside the
  update's tree, and the settings and files a device has.

  Not modelled: the menus (menu_sdl.py, ui.py, menu_input.py) and the rest of the Windows application (windows/), which are
  drawing, input and calls of the operating system; the start and stop of processes (service.py, boot.py,
  darkos_service.py, knulli_service.py, lowerdeck.py); the detection of devices (config.py, platform.py) beyond
  the settings the components above read; the image download pool of image_cache.py; log_uploader.py and
  storage_corruption.py; the bindings of native code (rom_hashing.py, native_codecs.py); the command line of
  main.py; and the Android program under app/, which is Kotlin.
\<close>

end
